(* ===== verification/Prelude.thy ===== *)
theory Prelude
  imports Main "HOL-Library.Word"
begin

text \<open>
  Shared vocabulary of the development: machine integers at the width the Rust source
  declares them, fallible results as sums (\<open>Inl\<close> an error, \<open>Inr\<close> a value), the
  standard-library operations the source uses (checked arithmetic, \<open>split\<close>,
  \<open>replace\<close>, unsigned parsing), and keyed rows, the shape of every SQL table of the
  journal. The collections \<open>result_simps\<close> and \<open>row_simps\<close> gather the facts
  that component proofs share.
\<close>

named_theorems result_simps
named_theorems row_simps

section \<open>Machine integers\<close>

type_synonym u8 = "8 word"
type_synonym u16 = "16 word"
type_synonym u32 = "32 word"
type_synonym u64 = "64 word"

text \<open>\<open>usize\<close> values are natural numbers; where the source checks them against a
  bound, the bound is written out.\<close>

abbreviation usize_bound :: nat where "usize_bound \<equiv> 2 ^ 64"
abbreviation i64_bound :: nat where "i64_bound \<equiv> 2 ^ 63"

definition checked_add :: "'a::len word \<Rightarrow> 'a word \<Rightarrow> 'a word option" where
  "checked_add a b = (if unat a + unat b < 2 ^ LENGTH('a) then Some (a + b) else None)"

definition checked_sub :: "'a::len word \<Rightarrow> 'a word \<Rightarrow> 'a word option" where
  "checked_sub a b = (if b \<le> a then Some (a - b) else None)"

lemma checked_add_Some_iff:
  "checked_add (a::'a::len word) b = Some c \<longleftrightarrow>
     unat a + unat b < 2 ^ LENGTH('a) \<and> unat c = unat a + unat b"
proof
  assume "checked_add a b = Some c"
  then show "unat a + unat b < 2 ^ LENGTH('a) \<and> unat c = unat a + unat b"
    by (auto simp: checked_add_def unat_word_ariths split: if_splits)
next
  assume "unat a + unat b < 2 ^ LENGTH('a) \<and> unat c = unat a + unat b"
  then show "checked_add a b = Some c"
    by (auto simp: checked_add_def intro!: word_unat_eq_iff [THEN iffD2] simp: unat_word_ariths)
qed

lemma checked_sub_Some_iff:
  "checked_sub (a::'a::len word) b = Some c \<longleftrightarrow> unat b \<le> unat a \<and> unat a = unat c + unat b"
proof
  assume "checked_sub a b = Some c"
  then show "unat b \<le> unat a \<and> unat a = unat c + unat b"
    by (auto simp: checked_sub_def word_le_nat_alt unat_sub split: if_splits)
next
  assume asm: "unat b \<le> unat a \<and> unat a = unat c + unat b"
  then have "b \<le> a" by (simp add: word_le_nat_alt)
  moreover have "c = a - b"
    using asm \<open>b \<le> a\<close> by (intro word_unat_eq_iff [THEN iffD2]) (simp add: unat_sub)
  ultimately show "checked_sub a b = Some c" by (simp add: checked_sub_def)
qed

lemma checked_add_None_iff:
  "checked_add (a::'a::len word) b = None \<longleftrightarrow> 2 ^ LENGTH('a) \<le> unat a + unat b"
  by (simp add: checked_add_def not_less)

lemma checked_sub_None_iff: "checked_sub a b = None \<longleftrightarrow> unat a < unat b"
  by (simp add: checked_sub_def word_le_nat_alt not_le)

lemma unat_ucast_u32_u64 [simp]: "unat (ucast (l :: u32) :: u64) = unat l"
  by transfer (simp add: take_bit_take_bit)

lemma unat_u64_less: "unat (w :: u64) < 2 ^ 64"
  using unsigned_less [of w] by simp

definition saturating_add :: "'a::len word \<Rightarrow> 'a word \<Rightarrow> 'a word" where
  "saturating_add a b = (case checked_add a b of None \<Rightarrow> - 1 | Some c \<Rightarrow> c)"

section \<open>Results\<close>

definition rbind :: "'e + 'a \<Rightarrow> ('a \<Rightarrow> 'e + 'b) \<Rightarrow> 'e + 'b" where
  "rbind m f = (case m of Inl e \<Rightarrow> Inl e | Inr x \<Rightarrow> f x)"

definition ok_or :: "'a option \<Rightarrow> 'e \<Rightarrow> 'e + 'a" where
  "ok_or m e = (case m of None \<Rightarrow> Inl e | Some x \<Rightarrow> Inr x)"

definition map_err :: "('e \<Rightarrow> 'f) \<Rightarrow> 'e + 'a \<Rightarrow> 'f + 'a" where
  "map_err g m = (case m of Inl e \<Rightarrow> Inl (g e) | Inr x \<Rightarrow> Inr x)"

lemma rbind_simps [simp]: "rbind (Inl e) f = Inl e" "rbind (Inr x) f = f x"
  by (simp_all add: rbind_def)

lemma ok_or_simps [simp]: "ok_or None e = Inl e" "ok_or (Some x) e = Inr x"
  by (simp_all add: ok_or_def)

lemma map_err_simps [simp]: "map_err g (Inl e) = Inl (g e)" "map_err g (Inr x) = Inr x"
  by (simp_all add: map_err_def)

lemma rbind_Inr_iff [simp, result_simps]:
  "rbind m f = Inr y \<longleftrightarrow> (\<exists>x. m = Inr x \<and> f x = Inr y)"
  by (cases m) simp_all

lemma ok_or_Inr_iff [simp, result_simps]: "ok_or m e = Inr x \<longleftrightarrow> m = Some x"
  by (cases m) simp_all

lemma ok_or_Inl_iff [simp, result_simps]: "ok_or m e = Inl e' \<longleftrightarrow> m = None \<and> e' = e"
  by (cases m) auto

lemma map_err_Inr_iff [simp, result_simps]: "map_err g m = Inr x \<longleftrightarrow> m = Inr x"
  by (cases m) simp_all

lemma if_Inl_eq_Inr [simp, result_simps]:
  "(if b then Inl e else m) = Inr x \<longleftrightarrow> \<not> b \<and> m = Inr x"
  "(if b then m else Inl e) = Inr x \<longleftrightarrow> b \<and> m = Inr x"
  by simp_all

section \<open>Loops that stop at the first error\<close>

text \<open>\<open>for x in xs { body(x)?; }\<close> without and with a threaded state.\<close>

fun for_each :: "('a \<Rightarrow> 'e + unit) \<Rightarrow> 'a list \<Rightarrow> 'e + unit" where
  "for_each body [] = Inr ()"
| "for_each body (x # xs) = rbind (body x) (\<lambda>_. for_each body xs)"

fun fold_err :: "('a \<Rightarrow> 's \<Rightarrow> 'e + 's) \<Rightarrow> 'a list \<Rightarrow> 's \<Rightarrow> 'e + 's" where
  "fold_err body [] s = Inr s"
| "fold_err body (x # xs) s = rbind (body x s) (fold_err body xs)"

lemma for_each_ok_iff [simp, result_simps]:
  "for_each body xs = Inr u \<longleftrightarrow> (\<forall>x \<in> set xs. body x = Inr ())"
  by (induction xs) auto

lemma fold_err_invariant:
  assumes "\<And>x s s'. x \<in> set xs \<Longrightarrow> P s \<Longrightarrow> body x s = Inr s' \<Longrightarrow> P s'"
  shows "P s \<Longrightarrow> fold_err body xs s = Inr s' \<Longrightarrow> P s'"
  using assms
proof (induction xs arbitrary: s)
  case Nil
  then show ?case by simp
next
  case (Cons x xs)
  from Cons.prems(2) obtain t where t: "body x s = Inr t" "fold_err body xs t = Inr s'"
    by auto
  have "P t" using Cons.prems(1) t(1) Cons.prems(3) by force
  then show ?case using t(2) Cons.IH Cons.prems(3) by (meson list.set_intros(2))
qed

section \<open>Keyed rows\<close>

definition row_at :: "('r \<Rightarrow> 'k) \<Rightarrow> 'k \<Rightarrow> 'r list \<Rightarrow> 'r option" where
  "row_at key k rows = List.find (\<lambda>r. key r = k) rows"

definition set_row :: "('r \<Rightarrow> 'k) \<Rightarrow> 'r \<Rightarrow> 'r list \<Rightarrow> 'r list" where
  "set_row key r rows = map (\<lambda>x. if key x = key r then r else x) rows"

lemma row_at_Nil [simp]: "row_at key k [] = None"
  by (simp add: row_at_def)

lemma row_at_Cons [simp]:
  "row_at key k (r # rows) = (if key r = k then Some r else row_at key k rows)"
  by (simp add: row_at_def)

lemma row_at_SomeD: "row_at key k rows = Some r \<Longrightarrow> r \<in> set rows \<and> key r = k"
  by (induction rows) (auto split: if_splits)

lemma row_at_None_iff [row_simps]: "row_at key k rows = None \<longleftrightarrow> k \<notin> key ` set rows"
  by (induction rows) auto

lemma row_at_append [row_simps]:
  "row_at key k (xs @ ys) = (case row_at key k xs of None \<Rightarrow> row_at key k ys | Some r \<Rightarrow> Some r)"
  by (induction xs) auto

lemma row_at_unique:
  "distinct (map key rows) \<Longrightarrow> row_at key k rows = Some r \<longleftrightarrow> r \<in> set rows \<and> key r = k"
  by (induction rows) auto

lemma set_row_keys [row_simps]: "map key (set_row key r rows) = map key rows"
  by (induction rows) (auto simp: set_row_def)

lemma set_row_Nil [simp]: "set_row key r [] = []"
  by (simp add: set_row_def)

lemma in_set_row:
  "x \<in> set (set_row key r rows) \<longleftrightarrow>
     (x \<in> set rows \<and> key x \<noteq> key r) \<or> (x = r \<and> key r \<in> key ` set rows)"
  by (induction rows) (auto simp: set_row_def)

lemma row_at_set_row [row_simps]:
  "row_at key k (set_row key r rows) =
     (if k = key r \<and> k \<in> key ` set rows then Some r else row_at key k rows)"
  by (induction rows) (auto simp: set_row_def)

lemma set_row_idem: "set_row key r (set_row key r rows) = set_row key r rows"
  by (simp add: set_row_def)

end
