(* ===== verification/Domain_Base.thy ===== *)
theory Domain_Base
  imports Prelude "HOL-Library.List_Lexorder" "HOL-Library.Char_ord"
begin

text \<open>
  The leaf types of \<open>src/domain/mod.rs\<close>: validated identifiers and digests,
  capabilities and effect permissions, budgets, operations, JSON values and
  observations. A Rust \<open>String\<close> is its UTF-8 byte sequence, an Isabelle
  \<open>string\<close>, so \<open>length\<close> is Rust's \<open>len\<close>.
\<close>

section \<open>Identifiers and digests\<close>

datatype domain_error =
    InvalidIdentifier string
  | InvalidDigest
  | InvalidBudget
  | EmptyPlan

definition MAX_IDENTIFIER_LENGTH :: nat where
  "MAX_IDENTIFIER_LENGTH = 128"

definition is_ascii_digit :: "char \<Rightarrow> bool" where
  "is_ascii_digit c \<longleftrightarrow> CHR ''0'' \<le> c \<and> c \<le> CHR ''9''"

definition is_ascii_lowercase :: "char \<Rightarrow> bool" where
  "is_ascii_lowercase c \<longleftrightarrow> CHR ''a'' \<le> c \<and> c \<le> CHR ''z''"

definition is_ascii_uppercase :: "char \<Rightarrow> bool" where
  "is_ascii_uppercase c \<longleftrightarrow> CHR ''A'' \<le> c \<and> c \<le> CHR ''Z''"

definition is_ascii_alphanumeric :: "char \<Rightarrow> bool" where
  "is_ascii_alphanumeric c \<longleftrightarrow>
     is_ascii_digit c \<or> is_ascii_lowercase c \<or> is_ascii_uppercase c"

definition identifier_byte :: "char \<Rightarrow> bool" where
  "identifier_byte c \<longleftrightarrow> is_ascii_alphanumeric c \<or> c \<in> set ''-_.:''"

definition validate_identifier :: "string \<Rightarrow> string \<Rightarrow> domain_error + unit" where
  "validate_identifier value kind =
     (if value = ''.'' \<or> value = ''..'' \<or> value = [] \<or> MAX_IDENTIFIER_LENGTH < length value
         \<or> \<not> list_all identifier_byte value
      then Inl (InvalidIdentifier kind) else Inr ())"

text \<open>One newtype per use of the \<open>identifier!\<close> macro; its \<open>TryFrom\<close> is
  \<open>identifier_try_from\<close> at the constructor and the kind text.\<close>

datatype target_id = TargetId (target_str: string)
datatype instrument_id = InstrumentId (instrument_str: string)
datatype simulator_id = SimulatorId (simulator_str: string)
datatype profile_id = ProfileId (profile_str: string)
datatype fixture_session_id = FixtureSessionId (fixture_str: string)
datatype grant_id = GrantId (grant_str: string)
datatype plan_id = PlanId (plan_str: string)
datatype case_id = CaseId (case_str: string)
datatype principal_id = PrincipalId (principal_str: string)
datatype request_id = RequestId (request_str: string)
datatype attempt_id = AttemptId (attempt_str: string)
datatype operation_id = OperationId (operation_str: string)

definition identifier_try_from :: "(string \<Rightarrow> 'i) \<Rightarrow> string \<Rightarrow> string \<Rightarrow> domain_error + 'i" where
  "identifier_try_from Mk kind value =
     rbind (validate_identifier value kind) (\<lambda>_. Inr (Mk value))"

datatype artifact_digest = ArtifactDigest (digest_str: string)

definition is_lower_hex :: "char \<Rightarrow> bool" where
  "is_lower_hex c \<longleftrightarrow> is_ascii_digit c \<or> (CHR ''a'' \<le> c \<and> c \<le> CHR ''f'')"

definition digest_try_from :: "string \<Rightarrow> domain_error + artifact_digest" where
  "digest_try_from value =
     (if length value \<noteq> 64 \<or> \<not> list_all is_lower_hex value then Inl InvalidDigest
      else Inr (ArtifactDigest value))"

text \<open>\<open>sha2\<close> and \<open>hex\<close> are external: the lowercase hexadecimal SHA-256 of a byte
  sequence is the parameter \<open>sha256_hex\<close>. What the code relies on is its shape.\<close>

definition artifact_sha256 :: "(u8 list \<Rightarrow> string) \<Rightarrow> u8 list \<Rightarrow> artifact_digest" where
  "artifact_sha256 sha256_hex bytes = ArtifactDigest (sha256_hex bytes)"

definition hex_shaped :: "(u8 list \<Rightarrow> string) \<Rightarrow> bool" where
  "hex_shaped sha256_hex \<longleftrightarrow>
     (\<forall>bytes. length (sha256_hex bytes) = 64 \<and> list_all is_lower_hex (sha256_hex bytes))"

definition as_bytes :: "string \<Rightarrow> u8 list" where
  "as_bytes s = map of_char s"

lemma hex_is_identifier_byte: "is_lower_hex c \<Longrightarrow> identifier_byte c"
  by (auto simp: is_lower_hex_def identifier_byte_def is_ascii_alphanumeric_def
      is_ascii_lowercase_def intro: order_trans [of c "CHR ''f''" "CHR ''z''"])

section \<open>Capabilities and effect permissions\<close>

datatype capability =
    CapInstrumentStatus | CapSpi | CapI2c | CapUart | CapGpio | CapAdc | CapPsu
  | CapRelay | CapFlash | CapVideo | CapWait

datatype effect_permission =
    InstrumentConfigure | RawBusTransfer | UartTransmitEffect | GpioDrive
  | PowerSet | RelayActuate | FlashEraseEffect | FlashWriteEffect

section \<open>Budgets\<close>

record budget =
  bud_effects :: u64
  bud_bytes :: u64
  bud_milliseconds :: u64

definition budget_ZERO :: budget where
  "budget_ZERO = \<lparr>bud_effects = 0, bud_bytes = 0, bud_milliseconds = 0\<rparr>"

definition budget_try_new :: "u64 \<Rightarrow> u64 \<Rightarrow> u64 \<Rightarrow> domain_error + budget" where
  "budget_try_new e b m =
     (if e = 0 \<and> b = 0 \<and> m = 0 then Inl InvalidBudget
      else Inr \<lparr>bud_effects = e, bud_bytes = b, bud_milliseconds = m\<rparr>)"

definition fits_within :: "budget \<Rightarrow> budget \<Rightarrow> bool" where
  "fits_within x limit \<longleftrightarrow> bud_effects x \<le> bud_effects limit
     \<and> bud_bytes x \<le> bud_bytes limit \<and> bud_milliseconds x \<le> bud_milliseconds limit"

definition budget_checked_sub :: "budget \<Rightarrow> budget \<Rightarrow> budget option" where
  "budget_checked_sub x amount =
     (case checked_sub (bud_effects x) (bud_effects amount) of None \<Rightarrow> None | Some e \<Rightarrow>
      case checked_sub (bud_bytes x) (bud_bytes amount) of None \<Rightarrow> None | Some b \<Rightarrow>
      case checked_sub (bud_milliseconds x) (bud_milliseconds amount) of None \<Rightarrow> None | Some m \<Rightarrow>
      Some \<lparr>bud_effects = e, bud_bytes = b, bud_milliseconds = m\<rparr>)"

definition budget_checked_add :: "budget \<Rightarrow> budget \<Rightarrow> budget option" where
  "budget_checked_add x amount =
     (case checked_add (bud_effects x) (bud_effects amount) of None \<Rightarrow> None | Some e \<Rightarrow>
      case checked_add (bud_bytes x) (bud_bytes amount) of None \<Rightarrow> None | Some b \<Rightarrow>
      case checked_add (bud_milliseconds x) (bud_milliseconds amount) of None \<Rightarrow> None | Some m \<Rightarrow>
      Some \<lparr>bud_effects = e, bud_bytes = b, bud_milliseconds = m\<rparr>)"

text \<open>The natural-number reading of a budget, on which sums are exact.\<close>

definition budget_nat :: "budget \<Rightarrow> nat \<times> nat \<times> nat" where
  "budget_nat b = (unat (bud_effects b), unat (bud_bytes b), unat (bud_milliseconds b))"

definition budget_plus :: "nat \<times> nat \<times> nat \<Rightarrow> nat \<times> nat \<times> nat \<Rightarrow> nat \<times> nat \<times> nat" where
  "budget_plus x y = (fst x + fst y, fst (snd x) + fst (snd y), snd (snd x) + snd (snd y))"

lemma budget_eq_iff:
  "(x :: budget) = y \<longleftrightarrow> bud_effects x = bud_effects y \<and> bud_bytes x = bud_bytes y
     \<and> bud_milliseconds x = bud_milliseconds y"
  by (cases x, cases y) simp

lemma budget_checked_sub_Some:
  "budget_checked_sub x a = Some y \<longleftrightarrow>
     fits_within a x \<and> budget_nat x = budget_plus (budget_nat y) (budget_nat a)"
proof
  assume "budget_checked_sub x a = Some y"
  then show "fits_within a x \<and> budget_nat x = budget_plus (budget_nat y) (budget_nat a)"
    by (auto simp: budget_checked_sub_def checked_sub_Some_iff fits_within_def budget_nat_def
        budget_plus_def word_le_nat_alt split: option.splits)
next
  assume asm: "fits_within a x \<and> budget_nat x = budget_plus (budget_nat y) (budget_nat a)"
  then have "checked_sub (bud_effects x) (bud_effects a) = Some (bud_effects y)"
    "checked_sub (bud_bytes x) (bud_bytes a) = Some (bud_bytes y)"
    "checked_sub (bud_milliseconds x) (bud_milliseconds a) = Some (bud_milliseconds y)"
    by (auto simp: checked_sub_Some_iff budget_nat_def budget_plus_def)
  then show "budget_checked_sub x a = Some y"
    by (simp add: budget_checked_sub_def)
qed

lemma budget_checked_sub_None:
  "budget_checked_sub x a = None \<longleftrightarrow> \<not> fits_within a x"
  by (auto simp: budget_checked_sub_def checked_sub_None_iff checked_sub_Some_iff
      fits_within_def word_le_nat_alt split: option.splits)

lemma budget_checked_add_Some:
  "budget_checked_add x a = Some y \<Longrightarrow> budget_nat y = budget_plus (budget_nat x) (budget_nat a)"
  by (auto simp: budget_checked_add_def checked_add_Some_iff budget_nat_def budget_plus_def
      split: option.splits)

lemma budget_sub_fits: "budget_checked_sub x a = Some y \<Longrightarrow> fits_within y x"
  by (auto simp: budget_checked_sub_Some fits_within_def budget_nat_def budget_plus_def
      word_le_nat_alt)

lemma fits_within_refl [simp]: "fits_within b b"
  by (simp add: fits_within_def)

lemma fits_within_trans: "fits_within a b \<Longrightarrow> fits_within b c \<Longrightarrow> fits_within a c"
  by (auto simp: fits_within_def)

section \<open>Operations\<close>

datatype operation =
    InstrumentStatus target_id instrument_id
  | SpiTransfer target_id instrument_id "u8 list" u32
  | I2cTransfer target_id instrument_id u8 "u8 list" u32
  | I2cScan target_id instrument_id
  | UartCapture target_id instrument_id u32
  | UartTransmit target_id instrument_id "u8 list"
  | GpioSet target_id instrument_id u16 bool
  | AdcRead target_id instrument_id u16
  | PsuSet target_id instrument_id u32 u32
  | RelaySet target_id instrument_id u16 bool
  | RelayRead target_id instrument_id u16
  | FlashIdentify target_id instrument_id
  | FlashRead target_id instrument_id u64 u32
  | FlashErase target_id instrument_id u64 u32
  | FlashWrite target_id instrument_id u64 artifact_digest u32
  | FlashVerify target_id instrument_id u64 artifact_digest u32
  | VideoCapture target_id instrument_id
  | Wait target_id u64

fun op_instrument :: "operation \<Rightarrow> instrument_id option" where
  "op_instrument (InstrumentStatus _ i) = Some i"
| "op_instrument (SpiTransfer _ i _ _) = Some i"
| "op_instrument (I2cTransfer _ i _ _ _) = Some i"
| "op_instrument (I2cScan _ i) = Some i"
| "op_instrument (UartCapture _ i _) = Some i"
| "op_instrument (UartTransmit _ i _) = Some i"
| "op_instrument (GpioSet _ i _ _) = Some i"
| "op_instrument (AdcRead _ i _) = Some i"
| "op_instrument (PsuSet _ i _ _) = Some i"
| "op_instrument (RelaySet _ i _ _) = Some i"
| "op_instrument (RelayRead _ i _) = Some i"
| "op_instrument (FlashIdentify _ i) = Some i"
| "op_instrument (FlashRead _ i _ _) = Some i"
| "op_instrument (FlashErase _ i _ _) = Some i"
| "op_instrument (FlashWrite _ i _ _ _) = Some i"
| "op_instrument (FlashVerify _ i _ _ _) = Some i"
| "op_instrument (VideoCapture _ i) = Some i"
| "op_instrument (Wait _ _) = None"

fun op_target :: "operation \<Rightarrow> target_id" where
  "op_target (InstrumentStatus t _) = t"
| "op_target (SpiTransfer t _ _ _) = t"
| "op_target (I2cTransfer t _ _ _ _) = t"
| "op_target (I2cScan t _) = t"
| "op_target (UartCapture t _ _) = t"
| "op_target (UartTransmit t _ _) = t"
| "op_target (GpioSet t _ _ _) = t"
| "op_target (AdcRead t _ _) = t"
| "op_target (PsuSet t _ _ _) = t"
| "op_target (RelaySet t _ _ _) = t"
| "op_target (RelayRead t _ _) = t"
| "op_target (FlashIdentify t _) = t"
| "op_target (FlashRead t _ _ _) = t"
| "op_target (FlashErase t _ _ _) = t"
| "op_target (FlashWrite t _ _ _ _) = t"
| "op_target (FlashVerify t _ _ _ _) = t"
| "op_target (VideoCapture t _) = t"
| "op_target (Wait t _) = t"

fun op_capability :: "operation \<Rightarrow> capability" where
  "op_capability (InstrumentStatus _ _) = CapInstrumentStatus"
| "op_capability (SpiTransfer _ _ _ _) = CapSpi"
| "op_capability (I2cTransfer _ _ _ _ _) = CapI2c"
| "op_capability (I2cScan _ _) = CapI2c"
| "op_capability (UartCapture _ _ _) = CapUart"
| "op_capability (UartTransmit _ _ _) = CapUart"
| "op_capability (GpioSet _ _ _ _) = CapGpio"
| "op_capability (AdcRead _ _ _) = CapAdc"
| "op_capability (PsuSet _ _ _ _) = CapPsu"
| "op_capability (RelaySet _ _ _ _) = CapRelay"
| "op_capability (RelayRead _ _ _) = CapRelay"
| "op_capability (FlashIdentify _ _) = CapFlash"
| "op_capability (FlashRead _ _ _ _) = CapFlash"
| "op_capability (FlashErase _ _ _ _) = CapFlash"
| "op_capability (FlashWrite _ _ _ _ _) = CapFlash"
| "op_capability (FlashVerify _ _ _ _ _) = CapFlash"
| "op_capability (VideoCapture _ _) = CapVideo"
| "op_capability (Wait _ _) = CapWait"

fun effect_permissions :: "operation \<Rightarrow> effect_permission set" where
  "effect_permissions (SpiTransfer _ _ _ _) = {InstrumentConfigure, RawBusTransfer}"
| "effect_permissions (I2cTransfer _ _ _ _ _) = {InstrumentConfigure, RawBusTransfer}"
| "effect_permissions (I2cScan _ _) = {InstrumentConfigure, RawBusTransfer}"
| "effect_permissions (UartCapture _ _ _) = {InstrumentConfigure}"
| "effect_permissions (UartTransmit _ _ _) = {InstrumentConfigure, UartTransmitEffect}"
| "effect_permissions (FlashIdentify _ _) = {InstrumentConfigure}"
| "effect_permissions (FlashRead _ _ _ _) = {InstrumentConfigure}"
| "effect_permissions (FlashErase _ _ _ _) = {InstrumentConfigure, FlashEraseEffect}"
| "effect_permissions (FlashWrite _ _ _ _ _) = {InstrumentConfigure, FlashWriteEffect}"
| "effect_permissions (FlashVerify _ _ _ _ _) = {InstrumentConfigure}"
| "effect_permissions (GpioSet _ _ _ _) = {GpioDrive}"
| "effect_permissions (PsuSet _ _ _ _) = {PowerSet}"
| "effect_permissions (RelaySet _ _ _ _) = {RelayActuate}"
| "effect_permissions _ = {}"

definition is_destructive :: "operation \<Rightarrow> bool" where
  "is_destructive oper \<longleftrightarrow> effect_permissions oper \<noteq> {}"

fun op_bytes :: "operation \<Rightarrow> u64" where
  "op_bytes (SpiTransfer _ _ tx rx) = of_nat (length tx) + ucast rx"
| "op_bytes (I2cTransfer _ _ _ tx rx) = of_nat (length tx) + ucast rx"
| "op_bytes (UartCapture _ _ n) = ucast n"
| "op_bytes (UartTransmit _ _ bs) = of_nat (length bs)"
| "op_bytes (FlashRead _ _ _ n) = ucast n"
| "op_bytes (FlashErase _ _ _ n) = ucast n"
| "op_bytes (FlashWrite _ _ _ _ n) = ucast n"
| "op_bytes (FlashVerify _ _ _ _ n) = ucast n"
| "op_bytes _ = 0"

definition op_worst_case_budget :: "operation \<Rightarrow> budget" where
  "op_worst_case_budget oper =
     \<lparr>bud_effects = of_nat (card (effect_permissions oper)), bud_bytes = op_bytes oper,
      bud_milliseconds = 0\<rparr>"

section \<open>JSON values and observations\<close>

text \<open>\<open>serde_json::Value\<close>: a number is a \<open>u64\<close>, a negative \<open>i64\<close> or a float
  (its IEEE bits); an object is a map with its keys in order.\<close>

datatype json_number = PosInt u64 | NegInt int | Float u64

datatype json =
    JNull
  | JBool bool
  | JNumber json_number
  | JString string
  | JArray "json list"
  | JObject "(string \<times> json) list"

text \<open>A timestamp of \<open>jiff\<close> is an instant in nanoseconds.\<close>

type_synonym timestamp = int

record observation =
  captured_at :: string
  source_fingerprint :: artifact_digest
  obs_body :: json
  obs_evidence :: "artifact_digest option"

end
