(* ===== verification/Conditions.thy ===== *)
theory Conditions
  imports Domain_Base
begin

text \<open>
  \<open>src/conditions.rs\<close>: RFC 6901 pointers into an observation body, typed checks on
  the selected value and live interlock contracts. Error texts are carried as the data
  they render (pointer, test, observed value). \<open>test_holds\<close> and \<open>interlock_holds\<close>
  are the abstract meaning the evaluators implement; \<open>escape_segment\<close> is RFC 6901's
  encoder, the reference for the decoder of the source.
\<close>

section \<open>JSON pointers\<close>

datatype json_pointer = JsonPointer (pointer_str: string)

datatype check_test =
    Boolean bool
  | IntegerRange int int
  | TextEquals string
  | ArtifactDigestEquals artifact_digest

datatype condition_error =
    InvalidPointer string string
  | InvalidRange int int
  | MissingPointer string
  | WrongType string string json
  | Mismatch string check_test json
  | EmptyInterlockEffects
  | EmptyInterlockChecks
  | InvalidMaximumAge
  | InterlockOperationHasEffects operation
  | InterlockOperationMismatch
  | StaleInterlockObservation u64 u64

fun split_on :: "char \<Rightarrow> string \<Rightarrow> string list" where
  "split_on c [] = [[]]"
| "split_on c (x # xs) =
     (if x = c then [] # split_on c xs
      else (case split_on c xs of [] \<Rightarrow> [[x]] | y # ys \<Rightarrow> (x # y) # ys))"

fun replace2 :: "char \<Rightarrow> char \<Rightarrow> char \<Rightarrow> string \<Rightarrow> string" where
  "replace2 a b c (x # y # zs) =
     (if x = a \<and> y = b then c # replace2 a b c zs else x # replace2 a b c (y # zs))"
| "replace2 a b c xs = xs"

fun segment_escapes_valid :: "string \<Rightarrow> bool" where
  "segment_escapes_valid [] = True"
| "segment_escapes_valid (x # xs) =
     (if x = CHR ''~''
      then (case xs of [] \<Rightarrow> False
            | y # ys \<Rightarrow> (y = CHR ''0'' \<or> y = CHR ''1'') \<and> segment_escapes_valid ys)
      else segment_escapes_valid xs)"

definition validate_pointer_segment :: "string \<Rightarrow> string \<Rightarrow> condition_error + unit" where
  "validate_pointer_segment segment pointer =
     (if segment_escapes_valid segment then Inr ()
      else Inl (InvalidPointer pointer ''uses an escape other than ~0 or ~1''))"

definition unescape_pointer_segment :: "string \<Rightarrow> string \<Rightarrow> condition_error + string" where
  "unescape_pointer_segment segment pointer =
     rbind (validate_pointer_segment segment pointer) (\<lambda>_.
       Inr (replace2 (CHR ''~'') (CHR ''0'') (CHR ''~'')
              (replace2 (CHR ''~'') (CHR ''1'') (CHR ''/'') segment)))"

definition json_pointer_try_new :: "string \<Rightarrow> condition_error + json_pointer" where
  "json_pointer_try_new pointer =
     (if 512 < length pointer then Inl (InvalidPointer pointer ''exceeds 512 bytes'')
      else if pointer \<noteq> [] \<and> hd pointer \<noteq> CHR ''/''
      then Inl (InvalidPointer pointer (''must be empty or start with '' @ [CHR 0x27, CHR ''/'', CHR 0x27]))
      else rbind (for_each (\<lambda>segment. validate_pointer_segment segment pointer)
                    (drop 1 (split_on (CHR ''/'') pointer)))
             (\<lambda>_. Inr (JsonPointer pointer)))"

text \<open>\<open>str::parse::<usize>\<close>: decimal digits with an optional leading plus sign.\<close>

definition digits_value :: "string \<Rightarrow> nat" where
  "digits_value ds = foldl (\<lambda>n c. 10 * n + (of_char c - 48)) 0 ds"

definition parse_usize :: "string \<Rightarrow> nat option" where
  "parse_usize s =
     (let ds = (case s of c # cs \<Rightarrow> if c = CHR ''+'' \<and> cs \<noteq> [] then cs else s | [] \<Rightarrow> [])
      in if ds = [] \<or> \<not> list_all is_ascii_digit ds then None
         else if digits_value ds < usize_bound then Some (digits_value ds) else None)"

definition parse_array_index :: "string \<Rightarrow> nat option" where
  "parse_array_index segment =
     (if segment = [] \<or> (1 < length segment \<and> hd segment = CHR ''0'') then None
      else parse_usize segment)"

fun resolve_segments :: "string \<Rightarrow> string list \<Rightarrow> json \<Rightarrow> condition_error + json" where
  "resolve_segments pointer [] current = Inr current"
| "resolve_segments pointer (encoded # rest) current =
     rbind (unescape_pointer_segment encoded pointer) (\<lambda>segment.
       rbind (case current of
                JObject obj \<Rightarrow> ok_or (map_of obj segment) (MissingPointer pointer)
              | JArray values \<Rightarrow>
                  rbind (ok_or (parse_array_index segment) (MissingPointer pointer)) (\<lambda>index.
                    if index < length values then Inr (values ! index)
                    else Inl (MissingPointer pointer))
              | _ \<Rightarrow> Inl (MissingPointer pointer))
         (resolve_segments pointer rest))"

definition resolve :: "json_pointer \<Rightarrow> json \<Rightarrow> condition_error + json" where
  "resolve p body =
     resolve_segments (pointer_str p) (drop 1 (split_on (CHR ''/'') (pointer_str p))) body"

section \<open>Checks\<close>

definition check_test_validate :: "check_test \<Rightarrow> condition_error + unit" where
  "check_test_validate t =
     (case t of IntegerRange minimum maximum \<Rightarrow>
        if maximum < minimum then Inl (InvalidRange minimum maximum) else Inr ()
      | _ \<Rightarrow> Inr ())"

record observation_check =
  chk_pointer :: json_pointer
  chk_test :: check_test

definition observation_check_try_new ::
  "json_pointer \<Rightarrow> check_test \<Rightarrow> condition_error + observation_check" where
  "observation_check_try_new p t =
     rbind (check_test_validate t) (\<lambda>_. Inr \<lparr>chk_pointer = p, chk_test = t\<rparr>)"

fun as_bool :: "json \<Rightarrow> bool option" where
  "as_bool (JBool b) = Some b"
| "as_bool _ = None"

fun as_str :: "json \<Rightarrow> string option" where
  "as_str (JString s) = Some s"
| "as_str _ = None"

fun as_i64 :: "json \<Rightarrow> int option" where
  "as_i64 (JNumber (PosInt n)) = (if unat n < i64_bound then Some (uint n) else None)"
| "as_i64 (JNumber (NegInt i)) = Some i"
| "as_i64 _ = None"

fun evaluate_test :: "string \<Rightarrow> json \<Rightarrow> check_test \<Rightarrow> condition_error + unit" where
  "evaluate_test pointer value (Boolean expected) =
     rbind (ok_or (as_bool value) (WrongType pointer ''boolean'' value)) (\<lambda>actual.
       if actual = expected then Inr () else Inl (Mismatch pointer (Boolean expected) value))"
| "evaluate_test pointer value (IntegerRange minimum maximum) =
     rbind (ok_or (as_i64 value) (WrongType pointer ''integer'' value)) (\<lambda>actual.
       if minimum \<le> actual \<and> actual \<le> maximum then Inr ()
       else Inl (Mismatch pointer (IntegerRange minimum maximum) value))"
| "evaluate_test pointer value (TextEquals expected) =
     rbind (ok_or (as_str value) (WrongType pointer ''string'' value)) (\<lambda>actual.
       if actual = expected then Inr () else Inl (Mismatch pointer (TextEquals expected) value))"
| "evaluate_test pointer value (ArtifactDigestEquals expected) =
     rbind (ok_or (as_str value) (WrongType pointer ''string'' value)) (\<lambda>actual.
       if (case digest_try_from actual of Inr digest \<Rightarrow> digest = expected | Inl _ \<Rightarrow> False)
       then Inr () else Inl (Mismatch pointer (ArtifactDigestEquals expected) value))"

definition evaluate_check :: "observation \<Rightarrow> observation_check \<Rightarrow> condition_error + unit" where
  "evaluate_check obs check =
     rbind (resolve (chk_pointer check) (obs_body obs)) (\<lambda>value.
       evaluate_test (pointer_str (chk_pointer check)) value (chk_test check))"

definition evaluate_checks :: "observation \<Rightarrow> observation_check list \<Rightarrow> condition_error + unit" where
  "evaluate_checks obs checks = for_each (evaluate_check obs) checks"

section \<open>Live interlocks\<close>

record live_interlock =
  li_effects :: "effect_permission set"
  li_observation :: operation
  li_checks :: "observation_check list"
  li_maximum_age_milliseconds :: u64

fun is_read_only_observation :: "operation \<Rightarrow> bool" where
  "is_read_only_observation (InstrumentStatus _ _) = True"
| "is_read_only_observation (AdcRead _ _ _) = True"
| "is_read_only_observation (RelayRead _ _ _) = True"
| "is_read_only_observation _ = False"

definition live_interlock_validate :: "live_interlock \<Rightarrow> condition_error + unit" where
  "live_interlock_validate li =
     (if li_effects li = {} then Inl EmptyInterlockEffects
      else if li_checks li = [] then Inl EmptyInterlockChecks
      else if li_maximum_age_milliseconds li = 0 then Inl InvalidMaximumAge
      else if \<not> is_read_only_observation (li_observation li)
      then Inl (InterlockOperationHasEffects (li_observation li))
      else Inr ())"

definition live_interlock_try_new ::
  "effect_permission set \<Rightarrow> operation \<Rightarrow> observation_check list \<Rightarrow> u64
     \<Rightarrow> condition_error + live_interlock" where
  "live_interlock_try_new effects oper checks max_age =
     (let li = \<lparr>li_effects = effects, li_observation = oper, li_checks = checks,
                li_maximum_age_milliseconds = max_age\<rparr>
      in rbind (live_interlock_validate li) (\<lambda>_. Inr li))"

definition validate_interlock_observation ::
  "live_interlock \<Rightarrow> operation \<Rightarrow> observation \<Rightarrow> u64 \<Rightarrow> condition_error + unit" where
  "validate_interlock_observation li oper obs age =
     rbind (live_interlock_validate li) (\<lambda>_.
       if li_observation li \<noteq> oper then Inl InterlockOperationMismatch
       else if li_maximum_age_milliseconds li < age
       then Inl (StaleInterlockObservation age (li_maximum_age_milliseconds li))
       else evaluate_checks obs (li_checks li))"

section \<open>Meaning of checks and interlocks\<close>

definition test_holds :: "check_test \<Rightarrow> json \<Rightarrow> bool" where
  "test_holds t v =
     (case t of
        Boolean b \<Rightarrow> v = JBool b
      | IntegerRange lo hi \<Rightarrow> \<exists>i. as_i64 v = Some i \<and> i \<in> {lo..hi}
      | TextEquals s \<Rightarrow> v = JString s
      | ArtifactDigestEquals d \<Rightarrow>
          v = JString (digest_str d) \<and> digest_try_from (digest_str d) = Inr d)"

definition check_holds :: "observation \<Rightarrow> observation_check \<Rightarrow> bool" where
  "check_holds obs c \<longleftrightarrow>
     (\<exists>v. resolve (chk_pointer c) (obs_body obs) = Inr v \<and> test_holds (chk_test c) v)"

definition interlock_holds :: "live_interlock \<Rightarrow> operation \<Rightarrow> observation \<Rightarrow> u64 \<Rightarrow> bool" where
  "interlock_holds li oper obs age \<longleftrightarrow>
     li_effects li \<noteq> {} \<and> li_checks li \<noteq> [] \<and> 0 < unat (li_maximum_age_milliseconds li)
     \<and> is_read_only_observation oper \<and> li_observation li = oper
     \<and> unat age \<le> unat (li_maximum_age_milliseconds li)
     \<and> (\<forall>c \<in> set (li_checks li). check_holds obs c)"

lemma as_bool_Some [simp]: "as_bool v = Some b \<longleftrightarrow> v = JBool b"
  by (cases v) auto

lemma as_str_Some [simp]: "as_str v = Some s \<longleftrightarrow> v = JString s"
  by (cases v) auto

lemma digest_try_from_Inr:
  "digest_try_from s = Inr d \<longleftrightarrow>
     d = ArtifactDigest s \<and> length s = 64 \<and> list_all is_lower_hex s"
  by (auto simp: digest_try_from_def)

lemma digest_match_iff:
  "(case digest_try_from s of Inr d \<Rightarrow> d = e | Inl x \<Rightarrow> False) \<longleftrightarrow> digest_try_from s = Inr e"
  by (simp split: sum.splits)

lemma evaluate_test_ok_iff: "evaluate_test p v t = Inr () \<longleftrightarrow> test_holds t v"
proof (cases t)
  case (ArtifactDigestEquals e)
  then show ?thesis
    by (auto simp: test_holds_def digest_match_iff digest_try_from_Inr)
qed (auto simp: test_holds_def)

lemma evaluate_check_ok_iff: "evaluate_check obs c = Inr () \<longleftrightarrow> check_holds obs c"
  by (auto simp: evaluate_check_def check_holds_def evaluate_test_ok_iff)

lemma evaluate_checks_ok_iff:
  "evaluate_checks obs cs = Inr () \<longleftrightarrow> (\<forall>c \<in> set cs. check_holds obs c)"
  by (simp add: evaluate_checks_def evaluate_check_ok_iff)

lemma live_interlock_validate_ok_iff:
  "live_interlock_validate li = Inr () \<longleftrightarrow>
     li_effects li \<noteq> {} \<and> li_checks li \<noteq> [] \<and> li_maximum_age_milliseconds li \<noteq> 0
     \<and> is_read_only_observation (li_observation li)"
  by (simp add: live_interlock_validate_def)

lemma read_only_no_effects: "is_read_only_observation oper \<Longrightarrow> effect_permissions oper = {}"
  by (cases oper) auto

lemma interlock_observation_ok_iff:
  "validate_interlock_observation li oper obs age = Inr () \<longleftrightarrow> interlock_holds li oper obs age"
  by (auto simp: validate_interlock_observation_def interlock_holds_def
      live_interlock_validate_ok_iff evaluate_checks_ok_iff word_le_nat_alt unat_gt_0 not_less)

text \<open>a live interlock observation is accepted exactly when the contract is well
  formed, the observation comes from the contract's own read-only operation, is no older
  than the contract allows, and satisfies every check.\<close>

theorem validate_interlock_observation_iff:
  "validate_interlock_observation li oper obs age = Inr () \<longleftrightarrow> interlock_holds li oper obs age"
  by (rule interlock_observation_ok_iff)

section \<open>RFC 6901 escaping\<close>

fun escape_segment :: "string \<Rightarrow> string" where
  "escape_segment [] = []"
| "escape_segment (x # xs) =
     (if x = CHR ''~'' then CHR ''~'' # CHR ''0'' # escape_segment xs
      else if x = CHR ''/'' then CHR ''~'' # CHR ''1'' # escape_segment xs
      else x # escape_segment xs)"

fun half_escape :: "string \<Rightarrow> string" where
  "half_escape [] = []"
| "half_escape (x # xs) =
     (if x = CHR ''~'' then CHR ''~'' # CHR ''0'' # half_escape xs else x # half_escape xs)"

lemma escape_segment_valid: "segment_escapes_valid (escape_segment s)"
  by (induction s) auto

lemma replace2_head:
  "x \<noteq> a \<Longrightarrow> replace2 a b c (x # xs) = x # replace2 a b c xs"
  by (cases xs) auto

lemma replace_slash: "replace2 (CHR ''~'') (CHR ''1'') (CHR ''/'') (escape_segment s) = half_escape s"
  by (induction s) (auto simp: replace2_head)

lemma replace_tilde: "replace2 (CHR ''~'') (CHR ''0'') (CHR ''~'') (half_escape s) = s"
  by (induction s) (auto simp: replace2_head)

text \<open>decoding a pointer segment undoes RFC 6901's escaping: every key, whatever
  tildes and slashes it contains, is the decoding of its own escaped form.\<close>

theorem unescape_escape_roundtrip:
  "unescape_pointer_segment (escape_segment s) p = Inr s"
  by (simp add: unescape_pointer_segment_def validate_pointer_segment_def escape_segment_valid
      replace_slash replace_tilde)

lemma parse_array_index_plus: "parse_array_index ''+1'' = Some 1"
  by (simp add: parse_array_index_def parse_usize_def digits_value_def is_ascii_digit_def)

end
