(* ===== verification/Domain.thy ===== *)
theory Domain
  imports Conditions
begin

text \<open>
  The records of \<open>src/domain/mod.rs\<close>: principals, commissioned profiles, grants,
  plans, attempts, reconciliations, runs, takeovers and abandonments, with their
  constructors and derived values. A \<open>BTreeMap\<close> is the association list of its entries
  in key order; a \<open>BTreeSet\<close> that the code iterates is the strictly increasing list of
  its members, one that it only tests is a set. The record \<open>env\<close> collects the external
  code (\<open>sha2\<close>, \<open>hex\<close>, \<open>serde_json\<close>, \<open>jiff\<close>, \<open>Display\<close> texts) as functions.
\<close>

section \<open>Principals and limits\<close>

datatype principal_role = Operator | Admin | Agent | Reviewer

record principal =
  pr_id :: principal_id
  pr_role :: principal_role
  pr_authentication_fingerprint :: artifact_digest

record electrical_limits =
  max_millivolts :: u32
  max_milliamps :: u32

record region_limits =
  flash_start :: u64
  flash_end_exclusive :: u64

definition region_contains :: "region_limits \<Rightarrow> u64 \<Rightarrow> u32 \<Rightarrow> bool" where
  "region_contains r offset len =
     (case checked_add offset (ucast len) of
        None \<Rightarrow> False
      | Some end_byte \<Rightarrow> flash_start r \<le> offset \<and> end_byte \<le> flash_end_exclusive r)"

section \<open>Physical resources\<close>

datatype physical_resource =
    Target artifact_digest
  | Fixture fixture_session_id
  | Instrument artifact_digest

fun resource_key :: "physical_resource \<Rightarrow> string" where
  "resource_key (Target d) = ''target:'' @ digest_str d"
| "resource_key (Fixture i) = ''fixture:'' @ fixture_str i"
| "resource_key (Instrument d) = ''instrument:'' @ digest_str d"

lemma resource_key_inject [simp]: "resource_key r = resource_key r' \<longleftrightarrow> r = r'"
  by (cases r; cases r') (auto simp: artifact_digest.expand fixture_session_id.expand)

text \<open>The derived \<open>Ord\<close>: variants in declaration order, then their content.\<close>

fun resource_variant :: "physical_resource \<Rightarrow> nat" where
  "resource_variant (Target _) = 0"
| "resource_variant (Fixture _) = 1"
| "resource_variant (Instrument _) = 2"

fun resource_content :: "physical_resource \<Rightarrow> string" where
  "resource_content (Target d) = digest_str d"
| "resource_content (Fixture i) = fixture_str i"
| "resource_content (Instrument d) = digest_str d"

lemma resource_eqI:
  "resource_variant r = resource_variant r' \<Longrightarrow> resource_content r = resource_content r' \<Longrightarrow> r = r'"
  by (cases r; cases r') (auto simp: artifact_digest.expand fixture_session_id.expand)

definition resource_le :: "physical_resource \<Rightarrow> physical_resource \<Rightarrow> bool" where
  "resource_le r r' \<longleftrightarrow>
     resource_variant r < resource_variant r' \<or>
     (resource_variant r = resource_variant r' \<and> resource_content r \<le> resource_content r')"

instantiation physical_resource :: linorder
begin

definition less_eq_physical_resource :: "physical_resource \<Rightarrow> physical_resource \<Rightarrow> bool" where
  "less_eq_physical_resource = resource_le"

definition less_physical_resource :: "physical_resource \<Rightarrow> physical_resource \<Rightarrow> bool" where
  "less_physical_resource r r' \<longleftrightarrow>
     resource_variant r < resource_variant r' \<or>
     (resource_variant r = resource_variant r' \<and> resource_content r < resource_content r')"

instance
  by standard (auto simp: less_eq_physical_resource_def resource_le_def less_physical_resource_def
      intro: resource_eqI)

end

section \<open>Profiles and grants\<close>

record instrument_binding =
  ib_fingerprint :: artifact_digest
  ib_physical_identity :: artifact_digest
  ib_configuration_digest :: artifact_digest
  ib_qualified_capabilities :: "capability set"
  ib_qualified_effect_permissions :: "effect_permission set"
  ib_qualification_evidence :: artifact_digest

record commissioned_profile =
  cp_id :: profile_id
  cp_target :: target_id
  cp_target_fingerprint :: artifact_digest
  cp_instruments :: "(instrument_id \<times> instrument_binding) list"
  cp_fixture_revision :: artifact_digest
  cp_fixture_session :: fixture_session_id
  cp_permitted_capabilities :: "capability set"
  cp_electrical_limits :: electrical_limits
  cp_region_limits :: region_limits
  cp_commissioning_evidence :: artifact_digest
  cp_live_interlocks :: "live_interlock list"

definition profile_instrument :: "commissioned_profile \<Rightarrow> instrument_id \<Rightarrow> instrument_binding option" where
  "profile_instrument p i = map_of (cp_instruments p) i"

definition physical_resources :: "commissioned_profile \<Rightarrow> physical_resource list" where
  "physical_resources p =
     sort (remdups (Target (cp_target_fingerprint p) # Fixture (cp_fixture_session p) #
       map (\<lambda>(_, binding). Instrument (ib_physical_identity binding)) (cp_instruments p)))"

record grant =
  gr_id :: grant_id
  gr_issued_by :: principal_id
  gr_agent :: principal_id
  gr_target :: target_id
  gr_profile :: profile_id
  gr_capabilities :: "capability set"
  gr_effect_permissions :: "effect_permission set"
  gr_remaining :: budget
  gr_expires_at :: string
  gr_revoked :: bool

section \<open>Plans\<close>

record planned_operation =
  po_operation :: operation
  po_max_milliseconds :: u64
  po_postconditions :: "observation_check list"

definition worst_case_budget :: "planned_operation \<Rightarrow> budget" where
  "worst_case_budget po =
     (op_worst_case_budget (po_operation po))\<lparr>bud_milliseconds := po_max_milliseconds po\<rparr>"

datatype reconciliation_setup = ObservationOnly | ApplyReviewedInstrumentConfiguration

record plan_proposal =
  pp_id :: plan_id
  pp_candidate_digest :: artifact_digest
  pp_fixture_revision :: artifact_digest
  pp_tool_digest :: artifact_digest
  pp_target_fingerprint :: artifact_digest
  pp_instrument_fingerprints :: "(instrument_id \<times> artifact_digest) list"
  pp_instrument_configuration_digests :: "(instrument_id \<times> artifact_digest) list"
  pp_preconditions :: "artifact_digest list"
  pp_operations :: "planned_operation list"
  pp_requested_by :: principal_id
  pp_reconciliation_setup :: reconciliation_setup

record reviewed_plan =
  rp_id :: plan_id
  rp_candidate_digest :: artifact_digest
  rp_fixture_revision :: artifact_digest
  rp_tool_digest :: artifact_digest
  rp_target_fingerprint :: artifact_digest
  rp_instrument_fingerprints :: "(instrument_id \<times> artifact_digest) list"
  rp_instrument_configuration_digests :: "(instrument_id \<times> artifact_digest) list"
  rp_preconditions :: "artifact_digest list"
  rp_operations :: "planned_operation list"
  rp_requested_by :: principal_id
  rp_reviewed_by :: principal_id
  rp_review_digest :: artifact_digest
  rp_reconciliation_setup :: reconciliation_setup

definition proposal_of_plan :: "reviewed_plan \<Rightarrow> plan_proposal" where
  "proposal_of_plan plan =
     \<lparr>pp_id = rp_id plan, pp_candidate_digest = rp_candidate_digest plan,
      pp_fixture_revision = rp_fixture_revision plan, pp_tool_digest = rp_tool_digest plan,
      pp_target_fingerprint = rp_target_fingerprint plan,
      pp_instrument_fingerprints = rp_instrument_fingerprints plan,
      pp_instrument_configuration_digests = rp_instrument_configuration_digests plan,
      pp_preconditions = rp_preconditions plan, pp_operations = rp_operations plan,
      pp_requested_by = rp_requested_by plan,
      pp_reconciliation_setup = rp_reconciliation_setup plan\<rparr>"

definition reviewed_plan_try_new :: "reviewed_plan \<Rightarrow> domain_error + reviewed_plan" where
  "reviewed_plan_try_new plan = (if rp_operations plan = [] then Inl EmptyPlan else Inr plan)"

section \<open>Cases, attempts and recovery records\<close>

datatype case_fact =
    FactObservation artifact_digest
  | FactClaim string "artifact_digest list"
  | FactHypothesis string "artifact_digest list"

record case_record =
  cr_id :: case_id
  cr_facts :: "case_fact list"

datatype attempt_state = Intent | Dispatched | Completed | Partial | Unknown | Rejected

fun is_terminal :: "attempt_state \<Rightarrow> bool" where
  "is_terminal Intent = False"
| "is_terminal Dispatched = False"
| "is_terminal _ = True"

datatype evidence_phase = Execution | Reconciliation

record evidence_envelope =
  ee_attempt :: attempt_id
  ee_challenge :: artifact_digest
  ee_phase :: evidence_phase
  ee_observation :: observation

datatype operation_receipt =
    ReceiptCompleted observation
  | ReceiptPartial observation string
  | ReceiptUnknown string "observation option"
  | ReceiptRejected string

fun receipt_state :: "operation_receipt \<Rightarrow> attempt_state" where
  "receipt_state (ReceiptCompleted _) = Completed"
| "receipt_state (ReceiptPartial _ _) = Partial"
| "receipt_state (ReceiptUnknown _ _) = Unknown"
| "receipt_state (ReceiptRejected _) = Rejected"

record attempt_record =
  at_id :: attempt_id
  at_request :: request_id
  at_grant :: grant_id
  at_plan :: plan_id
  at_operation_index :: nat
  at_plan_digest :: artifact_digest
  at_reserved :: budget
  at_profile :: profile_id
  at_profile_digest :: artifact_digest
  at_leased_resources :: "physical_resource list"
  at_evidence_challenge :: artifact_digest
  at_evidence_ordinal :: u64
  at_state :: attempt_state
  at_receipt :: "operation_receipt option"
  at_created_at :: string
  at_updated_at :: string

datatype reconciliation_state = Claimed | ReconCompleted | ReconUnknown | ReconFailed

record reconciliation_record =
  rc_request :: request_id
  rc_attempt :: attempt_id
  rc_ordinal :: nat
  rc_challenge :: artifact_digest
  rc_principal :: principal_id
  rc_state :: reconciliation_state
  rc_receipt :: "operation_receipt option"
  rc_started_at :: string
  rc_ended_at :: "string option"

record plan_run =
  ru_id :: request_id
  ru_agent :: principal_id
  ru_grant :: grant_id
  ru_plan :: plan_id
  ru_steps :: "(attempt_id \<times> request_id) list"
  ru_cursor :: nat

record recovery_takeover_record =
  rt_request :: request_id
  rt_run :: request_id
  rt_first_attempt :: attempt_id
  rt_unresolved :: "attempt_id list"
  rt_grant :: grant_id
  rt_plan :: plan_id
  rt_resources :: "physical_resource list"
  rt_justification_evidence :: artifact_digest
  rt_authorized_by :: principal_id
  rt_authorized_at :: string

record halted_run_abandonment_record =
  ha_request :: request_id
  ha_run :: request_id
  ha_grant :: grant_id
  ha_plan :: plan_id
  ha_resources :: "string set"
  ha_justification_evidence :: artifact_digest
  ha_authorized_by :: principal_id
  ha_authorized_at :: string

section \<open>External code and digests\<close>

record env =
  env_sha256_hex :: "u8 list \<Rightarrow> string"
  env_profile_bytes :: "commissioned_profile \<Rightarrow> u8 list option"
  env_proposal_bytes :: "plan_proposal \<Rightarrow> u8 list option"
  env_plan_value :: "reviewed_plan \<Rightarrow> json option"
  env_json_bytes :: "json \<Rightarrow> u8 list option"
  env_parse_envelope :: "u8 list \<Rightarrow> string + evidence_envelope"
  env_timestamp_text :: "timestamp \<Rightarrow> string"
  env_parse_timestamp :: "string \<Rightarrow> timestamp option"
  env_as_millisecond :: "timestamp \<Rightarrow> int"
  env_from_millisecond :: "int \<Rightarrow> timestamp option"
  env_condition_text :: "condition_error \<Rightarrow> string"

text \<open>The SHA-256 digest of a text, and of what \<open>serde_json\<close> renders: \<open>None\<close> is a
  serialization error.\<close>

definition text_digest :: "env \<Rightarrow> string \<Rightarrow> artifact_digest" where
  "text_digest E s = artifact_sha256 (env_sha256_hex E) (as_bytes s)"

definition profile_digest :: "env \<Rightarrow> commissioned_profile \<Rightarrow> artifact_digest option" where
  "profile_digest E p = map_option (artifact_sha256 (env_sha256_hex E)) (env_profile_bytes E p)"

definition proposal_digest :: "env \<Rightarrow> plan_proposal \<Rightarrow> artifact_digest option" where
  "proposal_digest E p = map_option (artifact_sha256 (env_sha256_hex E)) (env_proposal_bytes E p)"

definition remove_member :: "string \<Rightarrow> json \<Rightarrow> json" where
  "remove_member k v =
     (case v of JObject members \<Rightarrow> JObject (filter (\<lambda>(name, _). name \<noteq> k) members) | _ \<Rightarrow> v)"

definition plan_digest :: "env \<Rightarrow> reviewed_plan \<Rightarrow> artifact_digest option" where
  "plan_digest E plan =
     (case env_plan_value E plan of
        None \<Rightarrow> None
      | Some v \<Rightarrow> map_option (artifact_sha256 (env_sha256_hex E))
                    (env_json_bytes E (remove_member ''review_digest'' v)))"

text \<open>What a derived \<open>Serialize\<close> guarantees about the plan: an object whose
  \<open>review_digest\<close> member is the only one that depends on that field.\<close>

definition review_digest_is_member :: "env \<Rightarrow> bool" where
  "review_digest_is_member E \<longleftrightarrow>
     (\<forall>plan d. map_option (remove_member ''review_digest'') (env_plan_value E (plan\<lparr>rp_review_digest := d\<rparr>))
             = map_option (remove_member ''review_digest'') (env_plan_value E plan))"

text \<open>\<open>Display\<close> of an unsigned integer.\<close>

fun nat_text :: "nat \<Rightarrow> string" where
  "nat_text n =
     (if n < 10 then [char_of (48 + n)] else nat_text (n div 10) @ [char_of (48 + n mod 10)])"

declare nat_text.simps [simp del]

section \<open>Lemmas\<close>

lemma plan_digest_review_digest:
  assumes "review_digest_is_member E"
  shows "plan_digest E (plan\<lparr>rp_review_digest := d\<rparr>) = plan_digest E plan"
proof -
  let ?r = "remove_member ''review_digest''"
  have "map_option ?r (env_plan_value E (plan\<lparr>rp_review_digest := d\<rparr>)) =
        map_option ?r (env_plan_value E plan)"
    using assms unfolding review_digest_is_member_def by blast
  then show ?thesis
    by (cases "env_plan_value E (plan\<lparr>rp_review_digest := d\<rparr>)"; cases "env_plan_value E plan")
      (auto simp: plan_digest_def)
qed

lemma physical_resources_set:
  "set (physical_resources p) =
     insert (Target (cp_target_fingerprint p)) (insert (Fixture (cp_fixture_session p))
       ((\<lambda>b. Instrument (ib_physical_identity b)) ` snd ` set (cp_instruments p)))"
  by (auto simp: physical_resources_def image_image split_def)

lemma physical_resources_distinct [simp]: "distinct (physical_resources p)"
  by (simp add: physical_resources_def)

lemma physical_resources_sorted: "sorted (physical_resources p)"
  unfolding physical_resources_def by (rule sorted_sort)

lemma region_contains_iff:
  "region_contains r offset len \<longleftrightarrow>
     unat (flash_start r) \<le> unat offset \<and> unat offset + unat len \<le> unat (flash_end_exclusive r)"
proof (cases "checked_add offset (ucast len :: u64)")
  case None
  then have "2 ^ 64 \<le> unat offset + unat len"
    by (simp add: checked_add_None_iff)
  with unat_u64_less [of "flash_end_exclusive r"] None show ?thesis
    by (simp add: region_contains_def)
next
  case (Some e)
  then have "unat e = unat offset + unat len"
    by (simp add: checked_add_Some_iff)
  with Some show ?thesis
    by (simp add: region_contains_def word_le_nat_alt)
qed

end
