(* ===== verification/Store.thy ===== *)
theory Store
  imports Domain
begin

text \<open>
  \<open>src/store/mod.rs\<close>: the SQLite journal as a record of tables and one definition per
  operation. A table that the code only looks up by primary key is a map, one that it
  scans is the list of its rows in insertion order. A stored JSON text is the value it
  encodes. An operation takes the store and returns an error or a result with the new
  store; an error is a transaction that was dropped, so the caller keeps the old store.
  A primary key or \<open>UNIQUE\<close> index that an \<open>INSERT\<close> would violate is the error
  \<open>Sqlite\<close>. \<open>clk i\<close> is the \<open>i\<close>-th reading of \<open>Timestamp::now()\<close> in the call.
\<close>

section \<open>State and errors\<close>

datatype store_error =
    Sqlite string
  | Io
  | Json
  | Poisoned
  | Missing string string
  | Revoked grant_id
  | Expired grant_id
  | BudgetExhausted grant_id
  | NotDispatchable attempt_id
  | OutOfOrder
  | LeaseBusy string
  | AlreadyOpen string
  | StoreConflict string string
  | ReviewDigestMismatch plan_id
  | Integrity string
  | IntegerOutOfRange string nat
  | NegativeStoredInteger string int

record store =
  st_profiles :: "profile_id \<rightharpoonup> commissioned_profile"
  st_grants :: "grant_id \<rightharpoonup> grant"
  st_plans :: "plan_id \<rightharpoonup> reviewed_plan"
  st_proposals :: "plan_id \<rightharpoonup> plan_proposal"
  st_runs :: "request_id \<rightharpoonup> plan_run"
  st_attempts :: "attempt_record list"
  st_reconciliations :: "reconciliation_record list"
  st_takeovers :: "recovery_takeover_record list"
  st_retirements :: "(grant_id \<times> plan_id \<times> request_id) list"
  st_abandonments :: "halted_run_abandonment_record list"
  st_leases :: "(string \<times> grant_id \<times> plan_id) list"
  st_case_facts :: "(case_id \<times> nat \<times> case_fact) list"

definition empty_store :: store where
  "empty_store =
     \<lparr>st_profiles = Map.empty, st_grants = Map.empty, st_plans = Map.empty,
      st_proposals = Map.empty, st_runs = Map.empty, st_attempts = [],
      st_reconciliations = [], st_takeovers = [], st_retirements = [],
      st_abandonments = [], st_leases = [], st_case_facts = []\<rparr>"

type_synonym clock = "nat \<Rightarrow> timestamp"
type_synonym 'a tx = "store \<Rightarrow> store_error + 'a \<times> store"

record admission_snapshot =
  snap_agent :: principal_id
  snap_profile :: commissioned_profile
  snap_plan :: reviewed_plan

record claimed_dispatch =
  cd_attempt :: attempt_record
  cd_grant :: grant
  cd_profile :: commissioned_profile
  cd_plan :: reviewed_plan

record claimed_reconciliation =
  cl_record :: reconciliation_record
  cl_dispatch :: claimed_dispatch

datatype reconciliation_claim =
    ClaimExisting reconciliation_record
  | ClaimClaimed claimed_reconciliation

datatype reservation_outcome = Existing attempt_record | Reserved attempt_record

section \<open>Integers in SQLite\<close>

definition sqlite_index :: "string \<Rightarrow> nat \<Rightarrow> store_error + nat" where
  "sqlite_index field value =
     (if value < i64_bound then Inr value else Inl (IntegerOutOfRange field value))"

definition sqlite_unsigned :: "string \<Rightarrow> nat \<Rightarrow> store_error + int" where
  "sqlite_unsigned field value =
     (if value < i64_bound then Inr (int value) else Inl (IntegerOutOfRange field value))"

definition stored_unsigned :: "string \<Rightarrow> int \<Rightarrow> store_error + nat" where
  "stored_unsigned field value =
     (if value < 0 then Inl (NegativeStoredInteger field value) else Inr (nat value))"

section \<open>Reading rows\<close>

definition load_attempt_by_request :: "store \<Rightarrow> request_id \<Rightarrow> attempt_record option" where
  "load_attempt_by_request s request = row_at at_request request (st_attempts s)"

definition load_attempt :: "store \<Rightarrow> attempt_id \<Rightarrow> attempt_record option" where
  "load_attempt s i = row_at at_id i (st_attempts s)"

definition load_reconciliation_by_request :: "store \<Rightarrow> request_id \<Rightarrow> reconciliation_record option" where
  "load_reconciliation_by_request s request = row_at rc_request request (st_reconciliations s)"

definition load_recovery_takeover :: "store \<Rightarrow> request_id \<Rightarrow> recovery_takeover_record option" where
  "load_recovery_takeover s request = row_at rt_request request (st_takeovers s)"

definition recovery_destination_exists :: "store \<Rightarrow> grant_id \<Rightarrow> plan_id \<Rightarrow> bool" where
  "recovery_destination_exists s g p \<longleftrightarrow>
     list_ex (\<lambda>r. rt_grant r = g \<and> rt_plan r = p) (st_takeovers s)"

definition recovery_source_retired :: "store \<Rightarrow> grant_id \<Rightarrow> plan_id \<Rightarrow> bool" where
  "recovery_source_retired s g p \<longleftrightarrow>
     list_ex (\<lambda>(g', p', _). g' = g \<and> p' = p) (st_retirements s)"

definition source_pair_has_dispatched :: "store \<Rightarrow> grant_id \<Rightarrow> plan_id \<Rightarrow> bool" where
  "source_pair_has_dispatched s g p \<longleftrightarrow>
     list_ex (\<lambda>a. at_grant a = g \<and> at_plan a = p \<and> at_state a = Dispatched) (st_attempts s)"

definition source_pair_has_active_reconciliation :: "store \<Rightarrow> grant_id \<Rightarrow> plan_id \<Rightarrow> bool" where
  "source_pair_has_active_reconciliation s g p \<longleftrightarrow>
     list_ex (\<lambda>r. rc_state r = Claimed \<and>
       list_ex (\<lambda>a. at_id a = rc_attempt r \<and> at_grant a = g \<and> at_plan a = p) (st_attempts s))
       (st_reconciliations s)"

definition load_halted_run_abandonment_by_request ::
  "store \<Rightarrow> request_id \<Rightarrow> halted_run_abandonment_record option" where
  "load_halted_run_abandonment_by_request s request = row_at ha_request request (st_abandonments s)"

definition load_halted_run_abandonment_by_run ::
  "store \<Rightarrow> request_id \<Rightarrow> halted_run_abandonment_record option" where
  "load_halted_run_abandonment_by_run s run = row_at ha_run run (st_abandonments s)"

definition halted_pair_exists :: "store \<Rightarrow> grant_id \<Rightarrow> plan_id \<Rightarrow> bool" where
  "halted_pair_exists s g p \<longleftrightarrow>
     list_ex (\<lambda>r. ha_grant r = g \<and> ha_plan r = p) (st_abandonments s)"

definition lease_owner :: "store \<Rightarrow> string \<Rightarrow> (grant_id \<times> plan_id) option" where
  "lease_owner s key = map_of (st_leases s) key"

definition lease_keys_for_pair :: "store \<Rightarrow> grant_id \<Rightarrow> plan_id \<Rightarrow> string set" where
  "lease_keys_for_pair s g p =
     set (map fst (filter (\<lambda>(_, g', p'). g' = g \<and> p' = p) (st_leases s)))"

definition load_active_reconciliation :: "store \<Rightarrow> attempt_id \<Rightarrow> reconciliation_record option" where
  "load_active_reconciliation s i =
     List.find (\<lambda>r. rc_attempt r = i \<and> rc_state r = Claimed) (st_reconciliations s)"

definition pair_attempts :: "store \<Rightarrow> grant_id \<Rightarrow> plan_id \<Rightarrow> attempt_record list" where
  "pair_attempts s g p = filter (\<lambda>a. at_grant a = g \<and> at_plan a = p) (st_attempts s)"

definition existing_steps :: "store \<Rightarrow> grant_id \<Rightarrow> plan_id \<Rightarrow> (nat \<times> attempt_state) list" where
  "existing_steps s g p =
     map (\<lambda>a. (at_operation_index a, at_state a))
       (sort_key at_operation_index (pair_attempts s g p))"

definition attempt_at_step :: "store \<Rightarrow> grant_id \<Rightarrow> plan_id \<Rightarrow> nat \<Rightarrow> store_error + attempt_record option" where
  "attempt_at_step s g p index =
     rbind (sqlite_index ''attempt operation index'' index) (\<lambda>i.
       Inr (List.find (\<lambda>a. at_operation_index a = i) (pair_attempts s g p)))"

definition reconciliation_history :: "store \<Rightarrow> attempt_id \<Rightarrow> reconciliation_record list" where
  "reconciliation_history s i =
     sort_key rc_ordinal (filter (\<lambda>r. rc_attempt r = i) (st_reconciliations s))"

definition load_grant :: "store \<Rightarrow> grant_id \<Rightarrow> store_error + grant" where
  "load_grant s g = ok_or (st_grants s g) (Missing ''grant'' (grant_str g))"

definition load_profile :: "store \<Rightarrow> profile_id \<Rightarrow> store_error + commissioned_profile" where
  "load_profile s p = ok_or (st_profiles s p) (Missing ''profile'' (profile_str p))"

definition load_plan :: "store \<Rightarrow> plan_id \<Rightarrow> store_error + reviewed_plan" where
  "load_plan s p = ok_or (st_plans s p) (Missing ''plan'' (plan_str p))"

section \<open>Writing rows\<close>

definition update_attempt :: "attempt_record \<Rightarrow> store \<Rightarrow> store" where
  "update_attempt a s = s\<lparr>st_attempts := set_row at_id a (st_attempts s)\<rparr>"

definition update_reconciliation :: "reconciliation_record \<Rightarrow> store \<Rightarrow> store" where
  "update_reconciliation r s =
     s\<lparr>st_reconciliations := set_row rc_request r (st_reconciliations s)\<rparr>"

definition update_grant :: "grant \<Rightarrow> store \<Rightarrow> store" where
  "update_grant g s =
     (if st_grants s (gr_id g) = None then s
      else s\<lparr>st_grants := (st_grants s)(gr_id g \<mapsto> g)\<rparr>)"

definition release_leases :: "attempt_record \<Rightarrow> store \<Rightarrow> store" where
  "release_leases a s =
     s\<lparr>st_leases := filter (\<lambda>(key, owner).
        \<not> (key \<in> resource_key ` set (at_leased_resources a) \<and> owner = (at_grant a, at_plan a)))
        (st_leases s)\<rparr>"

definition insert_attempt :: "attempt_record \<Rightarrow> store \<Rightarrow> store_error + store" where
  "insert_attempt a s =
     (if list_ex (\<lambda>b. at_id b = at_id a \<or> at_request b = at_request a
            \<or> (at_grant b = at_grant a \<and> at_plan b = at_plan a
               \<and> at_operation_index b = at_operation_index a)) (st_attempts s)
      then Inl (Sqlite ''UNIQUE constraint failed: attempts'')
      else Inr (s\<lparr>st_attempts := st_attempts s @ [a]\<rparr>))"

definition insert_reconciliation :: "reconciliation_record \<Rightarrow> store \<Rightarrow> store_error + store" where
  "insert_reconciliation r s =
     (if list_ex (\<lambda>q. rc_request q = rc_request r
            \<or> (rc_attempt q = rc_attempt r \<and> rc_ordinal q = rc_ordinal r)
            \<or> (rc_attempt q = rc_attempt r \<and> rc_state q = Claimed \<and> rc_state r = Claimed))
            (st_reconciliations s)
      then Inl (Sqlite ''UNIQUE constraint failed: reconciliations'')
      else Inr (s\<lparr>st_reconciliations := st_reconciliations s @ [r]\<rparr>))"

definition insert_retirement :: "request_id \<Rightarrow> grant_id \<times> plan_id \<Rightarrow> store \<Rightarrow> store_error + store" where
  "insert_retirement request owner s =
     (if recovery_source_retired s (fst owner) (snd owner)
      then Inl (Sqlite ''UNIQUE constraint failed: recovery_source_retirements'')
      else Inr (s\<lparr>st_retirements := st_retirements s @ [(fst owner, snd owner, request)]\<rparr>))"

definition insert_run :: "plan_run \<Rightarrow> store \<Rightarrow> store_error + store" where
  "insert_run run s =
     (if st_runs s (ru_id run) \<noteq> None then Inl (Sqlite ''UNIQUE constraint failed: runs'')
      else Inr (s\<lparr>st_runs := (st_runs s)(ru_id run \<mapsto> run)\<rparr>))"

definition insert_takeover :: "recovery_takeover_record \<Rightarrow> store \<Rightarrow> store_error + store" where
  "insert_takeover r s =
     (if load_recovery_takeover s (rt_request r) \<noteq> None
      then Inl (Sqlite ''UNIQUE constraint failed: recovery_takeovers'')
      else Inr (s\<lparr>st_takeovers := st_takeovers s @ [r]\<rparr>))"

definition insert_abandonment :: "halted_run_abandonment_record \<Rightarrow> store \<Rightarrow> store_error + store" where
  "insert_abandonment r s =
     (if list_ex (\<lambda>q. ha_request q = ha_request r \<or> ha_run q = ha_run r
            \<or> (ha_grant q = ha_grant r \<and> ha_plan q = ha_plan r)) (st_abandonments s)
      then Inl (Sqlite ''UNIQUE constraint failed: halted_run_abandonments'')
      else Inr (s\<lparr>st_abandonments := st_abandonments s @ [r]\<rparr>))"

section \<open>Profiles, grants, proposals and plans\<close>

definition save_immutable ::
  "('k \<rightharpoonup> 'v) \<Rightarrow> 'k \<Rightarrow> string \<Rightarrow> 'v \<Rightarrow> store_error + ('k \<rightharpoonup> 'v)" where
  "save_immutable table key key_text entity =
     (case table key of
        None \<Rightarrow> Inr (table(key \<mapsto> entity))
      | Some existing \<Rightarrow>
          if existing = entity then Inr table
          else Inl (StoreConflict ''immutable record'' key_text))"

definition save_profile :: "commissioned_profile \<Rightarrow> unit tx" where
  "save_profile profile s =
     rbind (save_immutable (st_profiles s) (cp_id profile) (profile_str (cp_id profile)) profile)
       (\<lambda>table. Inr ((), s\<lparr>st_profiles := table\<rparr>))"

definition save_grant :: "grant \<Rightarrow> unit tx" where
  "save_grant g s =
     rbind (save_immutable (st_grants s) (gr_id g) (grant_str (gr_id g)) g)
       (\<lambda>table. Inr ((), s\<lparr>st_grants := table\<rparr>))"

definition store_revoke_grant :: "grant_id \<Rightarrow> unit tx" where
  "store_revoke_grant i s =
     rbind (load_grant s i) (\<lambda>g.
       Inr ((), s\<lparr>st_grants := (st_grants s)(i \<mapsto> g\<lparr>gr_revoked := True\<rparr>)\<rparr>))"

definition save_plan :: "env \<Rightarrow> reviewed_plan \<Rightarrow> unit tx" where
  "save_plan E plan s =
     rbind (ok_or (plan_digest E plan) Json) (\<lambda>_.
       Inr ((), if st_plans s (rp_id plan) = None
                then s\<lparr>st_plans := (st_plans s)(rp_id plan \<mapsto> plan)\<rparr> else s))"

definition save_proposal :: "env \<Rightarrow> plan_proposal \<Rightarrow> unit tx" where
  "save_proposal E proposal s =
     (case st_proposals s (pp_id proposal) of
        None \<Rightarrow> Inr ((), s\<lparr>st_proposals := (st_proposals s)(pp_id proposal \<mapsto> proposal)\<rparr>)
      | Some existing \<Rightarrow>
          rbind (ok_or (proposal_digest E existing) Json) (\<lambda>d.
          rbind (ok_or (proposal_digest E proposal) Json) (\<lambda>d'.
            if d = d' then Inr ((), s)
            else Inl (StoreConflict ''proposal'' (plan_str (pp_id proposal))))))"

definition delete_proposal :: "plan_id \<Rightarrow> unit tx" where
  "delete_proposal i s = Inr ((), s\<lparr>st_proposals := (st_proposals s)(i := None)\<rparr>)"

definition consume_reviewed_proposal ::
  "env \<Rightarrow> plan_id \<Rightarrow> artifact_digest \<Rightarrow> reviewed_plan \<Rightarrow> unit tx" where
  "consume_reviewed_proposal E proposal_id expected_digest plan s =
     rbind (ok_or (st_proposals s proposal_id) (Missing ''proposal'' (plan_str proposal_id))) (\<lambda>proposal.
     rbind (ok_or (proposal_digest E proposal) Json) (\<lambda>d.
       if d \<noteq> expected_digest then Inl (ReviewDigestMismatch proposal_id)
       else rbind (ok_or (plan_digest E plan) Json) (\<lambda>pd.
         rbind (case st_plans s (rp_id plan) of
                  None \<Rightarrow> Inr (s\<lparr>st_plans := (st_plans s)(rp_id plan \<mapsto> plan)\<rparr>)
                | Some existing \<Rightarrow>
                    rbind (ok_or (plan_digest E existing) Json) (\<lambda>ed.
                      if ed \<noteq> pd then Inl (StoreConflict ''plan'' (plan_str (rp_id plan)))
                      else Inr s))
           (\<lambda>s'. Inr ((), s'\<lparr>st_proposals := (st_proposals s')(proposal_id := None)\<rparr>)))))"

section \<open>Runs and case facts\<close>

definition create_run :: "plan_run \<Rightarrow> unit tx" where
  "create_run run s =
     (case st_runs s (ru_id run) of
        None \<Rightarrow> Inr ((), s\<lparr>st_runs := (st_runs s)(ru_id run \<mapsto> run)\<rparr>)
      | Some existing \<Rightarrow>
          if ru_agent existing = ru_agent run \<and> ru_grant existing = ru_grant run
             \<and> ru_plan existing = ru_plan run \<and> ru_steps existing = ru_steps run
          then Inr ((), s)
          else Inl (StoreConflict ''run'' (request_str (ru_id run))))"

definition advance_run :: "request_id \<Rightarrow> nat \<Rightarrow> unit tx" where
  "advance_run i cursor s =
     rbind (ok_or (st_runs s i) (Missing ''run'' (request_str i))) (\<lambda>run.
       if ru_cursor run \<noteq> cursor \<or> usize_bound \<le> Suc (ru_cursor run)
       then Inl (StoreConflict ''run cursor'' (request_str i))
       else Inr ((), s\<lparr>st_runs := (st_runs s)(i \<mapsto> run\<lparr>ru_cursor := Suc (ru_cursor run)\<rparr>)\<rparr>))"

fun completed_prefix :: "store \<Rightarrow> (attempt_id \<times> request_id) list \<Rightarrow> nat" where
  "completed_prefix s [] = 0"
| "completed_prefix s ((attempt, _) # steps) =
     (case load_attempt s attempt of
        Some record \<Rightarrow> if at_state record = Completed then Suc (completed_prefix s steps) else 0
      | None \<Rightarrow> 0)"

definition repair_run_cursor :: "request_id \<Rightarrow> plan_run tx" where
  "repair_run_cursor i s =
     rbind (ok_or (st_runs s i) (Missing ''run'' (request_str i))) (\<lambda>run.
       let completed = completed_prefix s (ru_steps run) in
       if ru_cursor run < completed
       then let run' = run\<lparr>ru_cursor := completed\<rparr> in
            Inr (run', s\<lparr>st_runs := (st_runs s)(i \<mapsto> run')\<rparr>)
       else Inr (run, s))"

definition next_ordinal :: "nat list \<Rightarrow> nat" where
  "next_ordinal ordinals = (case ordinals of [] \<Rightarrow> 0 | _ \<Rightarrow> Suc (Max (set ordinals)))"

definition append_case_fact :: "case_id \<Rightarrow> case_fact \<Rightarrow> unit tx" where
  "append_case_fact c cf s =
     (let ordinal = next_ordinal (map (\<lambda>(_, n, _). n) (filter (\<lambda>(c', _, _). c' = c) (st_case_facts s)))
      in Inr ((), s\<lparr>st_case_facts := st_case_facts s @ [(c, ordinal, cf)]\<rparr>))"

definition store_case :: "store \<Rightarrow> case_id \<Rightarrow> case_record" where
  "store_case s c =
     \<lparr>cr_id = c,
      cr_facts = map (\<lambda>(_, _, cf). cf)
        (sort_key (\<lambda>(_, n, _). n) (filter (\<lambda>(c', _, _). c' = c) (st_case_facts s)))\<rparr>"

section \<open>Guards that admission and dispatch share\<close>

definition check_grant ::
  "env \<Rightarrow> timestamp \<Rightarrow> grant \<Rightarrow> principal_id \<Rightarrow> profile_id \<Rightarrow> store_error + unit" where
  "check_grant E now g agent profile =
     (if gr_agent g \<noteq> agent \<or> gr_profile g \<noteq> profile
      then Inl (StoreConflict ''grant'' (grant_str (gr_id g)))
      else if gr_revoked g then Inl (Revoked (gr_id g))
      else rbind (ok_or (env_parse_timestamp E (gr_expires_at g)) (Expired (gr_id g))) (\<lambda>expires_at.
        if expires_at \<le> now then Inl (Expired (gr_id g)) else Inr ()))"

definition check_digest ::
  "artifact_digest option \<Rightarrow> artifact_digest \<Rightarrow> store_error \<Rightarrow> store_error + unit" where
  "check_digest actual expected e =
     rbind (ok_or actual Json) (\<lambda>d. if d \<noteq> expected then Inl e else Inr ())"

definition check_leases_held :: "store \<Rightarrow> attempt_record \<Rightarrow> store_error + unit" where
  "check_leases_held s a =
     for_each (\<lambda>resource.
       if lease_owner s (resource_key resource) = Some (at_grant a, at_plan a) then Inr ()
       else Inl (LeaseBusy (resource_key resource))) (at_leased_resources a)"

definition acquire_lease ::
  "grant_id \<Rightarrow> plan_id \<Rightarrow> physical_resource \<Rightarrow> store \<Rightarrow> store_error + store" where
  "acquire_lease g p resource s =
     (case lease_owner s (resource_key resource) of
        Some owner \<Rightarrow> if owner = (g, p) then Inr s else Inl (LeaseBusy (resource_key resource))
      | None \<Rightarrow> Inr (s\<lparr>st_leases := st_leases s @ [(resource_key resource, g, p)]\<rparr>))"

section \<open>Admission\<close>

definition reserve_guards ::
  "env \<Rightarrow> clock \<Rightarrow> attempt_record \<Rightarrow> admission_snapshot \<Rightarrow> store \<Rightarrow> store_error + grant" where
  "reserve_guards E clk proposed snapshot s =
     (if halted_pair_exists s (at_grant proposed) (at_plan proposed)
      then Inl (StoreConflict ''halted grant plan'' (plan_str (at_plan proposed)))
      else if recovery_source_retired s (at_grant proposed) (at_plan proposed)
      then Inl (StoreConflict ''retired recovery source'' (plan_str (at_plan proposed)))
      else
        rbind (load_grant s (at_grant proposed)) (\<lambda>g.
        rbind (check_grant E (clk 0) g (snap_agent snapshot) (at_profile proposed)) (\<lambda>_.
        rbind (load_profile s (at_profile proposed)) (\<lambda>profile.
        rbind (check_digest (profile_digest E profile) (at_profile_digest proposed)
                 (StoreConflict ''profile'' (profile_str (at_profile proposed)))) (\<lambda>_.
        rbind (ok_or (profile_digest E (snap_profile snapshot)) Json) (\<lambda>sd.
        rbind (check_digest (profile_digest E profile) sd
                 (StoreConflict ''profile'' (profile_str (at_profile proposed)))) (\<lambda>_.
        rbind (load_plan s (at_plan proposed)) (\<lambda>plan.
        rbind (check_digest (plan_digest E plan) (at_plan_digest proposed)
                 (StoreConflict ''plan'' (plan_str (at_plan proposed)))) (\<lambda>_.
        rbind (ok_or (plan_digest E (snap_plan snapshot)) Json) (\<lambda>pd.
        rbind (check_digest (plan_digest E plan) pd
                 (StoreConflict ''plan'' (plan_str (at_plan proposed)))) (\<lambda>_.
          Inr g)))))))))))"

definition reserve_order :: "attempt_record \<Rightarrow> store \<Rightarrow> store_error + unit" where
  "reserve_order proposed s =
     rbind (case rev (existing_steps s (at_grant proposed) (at_plan proposed)) of
              [] \<Rightarrow> Inr 0
            | (index, state) # _ \<Rightarrow> if state = Completed then Inr (index + 1) else Inl OutOfOrder)
       (\<lambda>expected.
          if at_operation_index proposed \<noteq> expected then Inl OutOfOrder
          else if 0 < at_operation_index proposed
          then rbind (ok_or (List.find (\<lambda>a. at_operation_index a = 0)
                               (pair_attempts s (at_grant proposed) (at_plan proposed)))
                        (Sqlite ''query returned no rows'')) (\<lambda>first_step.
                 if at_profile first_step \<noteq> at_profile proposed
                    \<or> at_profile_digest first_step \<noteq> at_profile_digest proposed
                    \<or> at_leased_resources first_step \<noteq> at_leased_resources proposed
                    \<or> at_plan_digest first_step \<noteq> at_plan_digest proposed
                 then Inl (StoreConflict ''run snapshot'' (plan_str (at_plan proposed)))
                 else Inr ())
          else Inr ())"

definition reserve ::
  "env \<Rightarrow> clock \<Rightarrow> attempt_record \<Rightarrow> admission_snapshot \<Rightarrow> reservation_outcome tx" where
  "reserve E clk proposed snapshot s =
     (case load_attempt_by_request s (at_request proposed) of
        Some existing \<Rightarrow>
          if at_id existing \<noteq> at_id proposed \<or> at_grant existing \<noteq> at_grant proposed
             \<or> at_plan existing \<noteq> at_plan proposed
             \<or> at_operation_index existing \<noteq> at_operation_index proposed
             \<or> at_plan_digest existing \<noteq> at_plan_digest proposed
          then Inl (StoreConflict ''request'' (request_str (at_request proposed)))
          else Inr (Existing existing, s)
      | None \<Rightarrow>
          rbind (reserve_guards E clk proposed snapshot s) (\<lambda>g.
          rbind (reserve_order proposed s) (\<lambda>_.
          rbind (fold_err (acquire_lease (at_grant proposed) (at_plan proposed))
                   (at_leased_resources proposed) s) (\<lambda>s1.
          rbind (ok_or (budget_checked_sub (gr_remaining g) (at_reserved proposed))
                   (BudgetExhausted (gr_id g))) (\<lambda>remaining.
          rbind (sqlite_index ''attempt operation index'' (at_operation_index proposed)) (\<lambda>_.
          rbind (insert_attempt proposed (update_grant (g\<lparr>gr_remaining := remaining\<rparr>) s1)) (\<lambda>s2.
            Inr (Reserved proposed, s2))))))))"

section \<open>Recovery takeover\<close>

definition same_recovery_takeover ::
  "recovery_takeover_record \<Rightarrow> recovery_takeover_record \<Rightarrow> bool" where
  "same_recovery_takeover l r \<longleftrightarrow>
     rt_request l = rt_request r \<and> rt_run l = rt_run r \<and> rt_first_attempt l = rt_first_attempt r
     \<and> rt_unresolved l = rt_unresolved r \<and> rt_grant l = rt_grant r \<and> rt_plan l = rt_plan r
     \<and> rt_resources l = rt_resources r
     \<and> rt_justification_evidence l = rt_justification_evidence r
     \<and> rt_authorized_by l = rt_authorized_by r"

definition takeover_source ::
  "store \<Rightarrow> attempt_record \<Rightarrow> attempt_id \<Rightarrow> store_error + grant_id \<times> plan_id" where
  "takeover_source s proposed source_id =
     rbind (ok_or (load_attempt s source_id) (Missing ''unresolved attempt'' (attempt_str source_id)))
       (\<lambda>source.
         let inherited_carrier = recovery_destination_exists s (at_grant source) (at_plan source) in
         if recovery_source_retired s (at_grant source) (at_plan source)
         then Inl (StoreConflict ''retired recovery source'' (plan_str (at_plan source)))
         else if source_pair_has_dispatched s (at_grant source) (at_plan source)
         then Inl (NotDispatchable (at_id source))
         else if source_pair_has_active_reconciliation s (at_grant source) (at_plan source)
         then Inl (StoreConflict ''active reconciliation'' (plan_str (at_plan source)))
         else
           let ordinary_uncertainty = (at_state source \<in> {Partial, Unknown});
               inherited_pre_effect =
                 (inherited_carrier \<and> at_state source \<in> {Intent, Rejected, Completed})
           in
           if \<not> ordinary_uncertainty \<and> \<not> inherited_pre_effect
           then Inl (NotDispatchable (at_id source))
           else if at_leased_resources source \<noteq> at_leased_resources proposed
           then Inl (StoreConflict ''recovery resources'' (attempt_str (at_id source)))
           else if load_active_reconciliation s (at_id source) \<noteq> None
           then Inl (StoreConflict ''active reconciliation'' (attempt_str (at_id source)))
           else Inr (at_grant source, at_plan source))"

fun takeover_sources ::
  "store \<Rightarrow> attempt_record \<Rightarrow> attempt_id list \<Rightarrow> store_error + (grant_id \<times> plan_id) list" where
  "takeover_sources s proposed [] = Inr []"
| "takeover_sources s proposed (i # is) =
     rbind (takeover_source s proposed i) (\<lambda>owner.
     rbind (takeover_sources s proposed is) (\<lambda>owners. Inr (List.insert owner owners)))"

definition move_lease ::
  "(grant_id \<times> plan_id) list \<Rightarrow> grant_id \<Rightarrow> plan_id \<Rightarrow> physical_resource \<Rightarrow> store
     \<Rightarrow> store_error + store" where
  "move_lease old_owners g p resource s =
     (case lease_owner s (resource_key resource) of
        None \<Rightarrow> Inl (LeaseBusy (resource_key resource))
      | Some owner \<Rightarrow>
          if owner \<notin> set old_owners then Inl (LeaseBusy (resource_key resource))
          else Inr (s\<lparr>st_leases := map (\<lambda>(key, o').
                 if key = resource_key resource \<and> o' = owner then (key, g, p) else (key, o'))
                 (st_leases s)\<rparr>))"

definition takeover_guards ::
  "env \<Rightarrow> clock \<Rightarrow> attempt_record \<Rightarrow> admission_snapshot \<Rightarrow> store \<Rightarrow> store_error + grant" where
  "takeover_guards E clk proposed snapshot s =
     (if halted_pair_exists s (at_grant proposed) (at_plan proposed)
         \<or> recovery_source_retired s (at_grant proposed) (at_plan proposed)
      then Inl (StoreConflict ''closed recovery authority'' (plan_str (at_plan proposed)))
      else
        rbind (load_grant s (at_grant proposed)) (\<lambda>g.
        rbind (check_grant E (clk 0) g (snap_agent snapshot) (at_profile proposed)) (\<lambda>_.
        rbind (load_profile s (at_profile proposed)) (\<lambda>profile.
        rbind (check_digest (profile_digest E profile) (at_profile_digest proposed)
                 (StoreConflict ''profile'' (profile_str (at_profile proposed)))) (\<lambda>_.
        rbind (ok_or (profile_digest E (snap_profile snapshot)) Json) (\<lambda>sd.
        rbind (check_digest (profile_digest E profile) sd
                 (StoreConflict ''profile'' (profile_str (at_profile proposed)))) (\<lambda>_.
        rbind (load_plan s (at_plan proposed)) (\<lambda>plan.
        rbind (check_digest (plan_digest E plan) (at_plan_digest proposed)
                 (StoreConflict ''plan'' (plan_str (at_plan proposed)))) (\<lambda>_.
        rbind (ok_or (plan_digest E (snap_plan snapshot)) Json) (\<lambda>pd.
        rbind (check_digest (plan_digest E plan) pd
                 (StoreConflict ''plan'' (plan_str (at_plan proposed)))) (\<lambda>_.
          Inr g)))))))))))"

text \<open>The column \<open>operation_index\<close> of the inserted attempt is the literal 0.\<close>

definition store_takeover_recovery ::
  "env \<Rightarrow> clock \<Rightarrow> attempt_record \<Rightarrow> admission_snapshot \<Rightarrow> plan_run \<Rightarrow> recovery_takeover_record
     \<Rightarrow> reservation_outcome tx" where
  "store_takeover_recovery E clk proposed snapshot run recovery s =
     (case load_recovery_takeover s (rt_request recovery) of
        Some existing \<Rightarrow>
          if \<not> same_recovery_takeover existing recovery
          then Inl (StoreConflict ''recovery takeover'' (request_str (rt_request recovery)))
          else rbind (ok_or (load_attempt s (rt_first_attempt recovery))
                       (Missing ''recovery attempt'' (attempt_str (rt_first_attempt recovery))))
                 (\<lambda>attempt. Inr (Existing attempt, s))
      | None \<Rightarrow>
       (case load_attempt_by_request s (at_request proposed) of
          Some existing \<Rightarrow>
            if at_id existing = at_id proposed \<and> at_grant existing = at_grant proposed
               \<and> at_plan existing = at_plan proposed
            then Inr (Existing existing, s)
            else Inl (StoreConflict ''request'' (request_str (at_request proposed)))
        | None \<Rightarrow>
            rbind (takeover_guards E clk proposed snapshot s) (\<lambda>g.
            rbind (takeover_sources s proposed (rt_unresolved recovery)) (\<lambda>old_owners.
            rbind (fold_err (move_lease old_owners (at_grant proposed) (at_plan proposed))
                     (at_leased_resources proposed) s) (\<lambda>s1.
            rbind (fold_err (insert_retirement (rt_request recovery)) old_owners s1) (\<lambda>s2.
            rbind (ok_or (budget_checked_sub (gr_remaining g) (at_reserved proposed))
                     (BudgetExhausted (gr_id g))) (\<lambda>remaining.
            rbind (insert_attempt (proposed\<lparr>at_operation_index := 0\<rparr>)
                     (update_grant (g\<lparr>gr_remaining := remaining\<rparr>) s2)) (\<lambda>s3.
            rbind (insert_run run s3) (\<lambda>s4.
            rbind (insert_takeover recovery s4) (\<lambda>s5.
              Inr (Reserved proposed, s5)))))))))))"

section \<open>Dispatch and receipts\<close>

definition claim_dispatch :: "env \<Rightarrow> clock \<Rightarrow> attempt_id \<Rightarrow> principal_id \<Rightarrow> claimed_dispatch tx" where
  "claim_dispatch E clk i agent s =
     rbind (ok_or (load_attempt s i) (Missing ''attempt'' (attempt_str i))) (\<lambda>attempt.
       if at_state attempt \<noteq> Intent then Inl (NotDispatchable i)
       else if halted_pair_exists s (at_grant attempt) (at_plan attempt) then Inl (NotDispatchable i)
       else if recovery_source_retired s (at_grant attempt) (at_plan attempt)
       then Inl (NotDispatchable i)
       else
         rbind (load_grant s (at_grant attempt)) (\<lambda>g.
         rbind (check_grant E (clk 0) g agent (at_profile attempt)) (\<lambda>_.
         rbind (load_profile s (at_profile attempt)) (\<lambda>profile.
         rbind (check_digest (profile_digest E profile) (at_profile_digest attempt)
                  (StoreConflict ''profile'' (profile_str (at_profile attempt)))) (\<lambda>_.
         rbind (load_plan s (at_plan attempt)) (\<lambda>plan.
         rbind (check_digest (plan_digest E plan) (at_plan_digest attempt)
                  (StoreConflict ''plan'' (plan_str (at_plan attempt)))) (\<lambda>_.
         rbind (check_leases_held s attempt) (\<lambda>_.
         rbind (ok_or (checked_add (at_evidence_ordinal attempt) 1)
                  (StoreConflict ''attempt'' (attempt_str (at_id attempt)))) (\<lambda>ordinal.
           let attempt' = attempt
                 \<lparr>at_state := Dispatched,
                  at_evidence_ordinal := ordinal,
                  at_evidence_challenge := text_digest E
                    (attempt_str (at_id attempt) @ '':'' @ at_updated_at attempt @ '':'' @
                     nat_text (unat ordinal)),
                  at_updated_at := env_timestamp_text E (clk 1)\<rparr>
           in Inr (\<lparr>cd_attempt = attempt', cd_grant = g, cd_profile = profile, cd_plan = plan\<rparr>,
                   update_attempt attempt' s))))))))))"

definition record_receipt ::
  "env \<Rightarrow> clock \<Rightarrow> attempt_id \<Rightarrow> operation_receipt \<Rightarrow> bool \<Rightarrow> attempt_record tx" where
  "record_receipt E clk i receipt release_lease s =
     rbind (ok_or (load_attempt s i) (Missing ''attempt'' (attempt_str i))) (\<lambda>attempt.
       if at_state attempt \<noteq> Dispatched then Inl (NotDispatchable i)
       else
         let attempt' = attempt
               \<lparr>at_state := receipt_state receipt, at_receipt := Some receipt,
                at_updated_at := env_timestamp_text E (clk 0)\<rparr>;
             s' = update_attempt attempt' s
         in Inr (attempt',
              if release_lease \<and> (at_state attempt' \<noteq> Rejected
                   \<or> \<not> recovery_destination_exists s' (at_grant attempt') (at_plan attempt'))
              then release_leases attempt' s' else s'))"

definition reject_intent :: "env \<Rightarrow> clock \<Rightarrow> attempt_id \<Rightarrow> string \<Rightarrow> attempt_record tx" where
  "reject_intent E clk i reason s =
     rbind (ok_or (load_attempt s i) (Missing ''attempt'' (attempt_str i))) (\<lambda>attempt.
       if at_state attempt \<noteq> Intent then Inl (NotDispatchable i)
       else
         let attempt' = attempt
               \<lparr>at_state := Rejected, at_receipt := Some (ReceiptRejected reason),
                at_updated_at := env_timestamp_text E (clk 0)\<rparr>;
             s' = update_attempt attempt' s
         in Inr (attempt',
              if \<not> recovery_destination_exists s' (at_grant attempt') (at_plan attempt')
              then release_leases attempt' s' else s'))"

section \<open>Reconciliation\<close>

definition configuration_authority ::
  "attempt_record \<Rightarrow> grant \<Rightarrow> commissioned_profile \<Rightarrow> reviewed_plan \<Rightarrow> store_error + unit" where
  "configuration_authority attempt g profile plan =
     rbind (if at_operation_index attempt < length (rp_operations plan)
            then Inr (rp_operations plan ! at_operation_index attempt)
            else Inl (StoreConflict ''plan operation'' (plan_str (at_plan attempt)))) (\<lambda>planned.
     rbind (ok_or (op_instrument (po_operation planned))
              (StoreConflict ''instrument configuration'' (attempt_str (at_id attempt)))) (\<lambda>instrument.
     rbind (ok_or (profile_instrument profile instrument)
              (StoreConflict ''instrument'' (instrument_str instrument))) (\<lambda>binding.
       if InstrumentConfigure \<notin> gr_effect_permissions g
          \<or> InstrumentConfigure \<notin> ib_qualified_effect_permissions binding
       then Inl (StoreConflict ''instrument configuration authority'' (attempt_str (at_id attempt)))
       else Inr ())))"

definition reconciliation_guards ::
  "env \<Rightarrow> clock \<Rightarrow> attempt_record \<Rightarrow> principal_id \<Rightarrow> budget option \<Rightarrow> store
     \<Rightarrow> store_error + claimed_dispatch" where
  "reconciliation_guards E clk attempt who configuration_budget s =
     (if at_state attempt \<notin> {Unknown, Partial} then Inl (NotDispatchable (at_id attempt))
      else
        rbind (load_grant s (at_grant attempt)) (\<lambda>g.
        rbind (check_grant E (clk 0) g who (at_profile attempt)) (\<lambda>_.
        rbind (load_profile s (at_profile attempt)) (\<lambda>profile.
        rbind (check_digest (profile_digest E profile) (at_profile_digest attempt)
                 (StoreConflict ''profile'' (profile_str (at_profile attempt)))) (\<lambda>_.
        rbind (load_plan s (at_plan attempt)) (\<lambda>plan.
        rbind (check_digest (plan_digest E plan) (at_plan_digest attempt)
                 (StoreConflict ''plan'' (plan_str (at_plan attempt)))) (\<lambda>_.
        rbind (case configuration_budget of
                 None \<Rightarrow> Inr ()
               | Some _ \<Rightarrow> configuration_authority attempt g profile plan) (\<lambda>_.
        rbind (check_leases_held s attempt) (\<lambda>_.
        rbind (case configuration_budget of
                 None \<Rightarrow> Inr g
               | Some b \<Rightarrow>
                   rbind (ok_or (budget_checked_sub (gr_remaining g) b)
                            (BudgetExhausted (gr_id g)))
                     (\<lambda>remaining. Inr (g\<lparr>gr_remaining := remaining\<rparr>))) (\<lambda>g'.
          Inr \<lparr>cd_attempt = attempt, cd_grant = g', cd_profile = profile, cd_plan = plan\<rparr>))))))))))"

definition claimed_record ::
  "env \<Rightarrow> timestamp \<Rightarrow> attempt_id \<Rightarrow> request_id \<Rightarrow> principal_id \<Rightarrow> nat \<Rightarrow> reconciliation_record" where
  "claimed_record E now attempt request who ordinal =
     \<lparr>rc_request = request, rc_attempt = attempt, rc_ordinal = ordinal,
      rc_challenge = text_digest E (''reconcile:'' @ attempt_str attempt @ '':'' @
        request_str request @ '':'' @ nat_text ordinal @ '':'' @ env_timestamp_text E now),
      rc_principal = who, rc_state = Claimed, rc_receipt = None,
      rc_started_at = env_timestamp_text E now, rc_ended_at = None\<rparr>"

text \<open>A claim under a configuration budget debits the grant; a partial effect becomes
  unknown.\<close>

definition claim_reconciliation ::
  "env \<Rightarrow> clock \<Rightarrow> attempt_id \<Rightarrow> request_id \<Rightarrow> principal_id \<Rightarrow> budget option \<Rightarrow> reconciliation_claim tx" where
  "claim_reconciliation E clk attempt_id request who configuration_budget s =
     (case load_reconciliation_by_request s request of
        Some existing \<Rightarrow>
          if rc_attempt existing \<noteq> attempt_id \<or> rc_principal existing \<noteq> who
          then Inl (StoreConflict ''reconciliation request'' (request_str request))
          else Inr (ClaimExisting existing, s)
      | None \<Rightarrow>
       (case load_active_reconciliation s attempt_id of
          Some existing \<Rightarrow>
            Inl (StoreConflict ''active reconciliation'' (request_str (rc_request existing)))
        | None \<Rightarrow>
          rbind (ok_or (load_attempt s attempt_id) (Missing ''attempt'' (attempt_str attempt_id))) (\<lambda>attempt.
          rbind (reconciliation_guards E clk attempt who configuration_budget s) (\<lambda>dispatch.
            let s1 = (if configuration_budget = None then s else update_grant (cd_grant dispatch) s);
                ordinal = next_ordinal (map rc_ordinal
                  (filter (\<lambda>r. rc_attempt r = at_id attempt) (st_reconciliations s1)));
                record = claimed_record E (clk 1) (at_id attempt) request who ordinal
            in
            rbind (sqlite_unsigned ''reconciliation ordinal'' ordinal) (\<lambda>_.
            rbind (insert_reconciliation record s1) (\<lambda>s2.
              let attempt' = (if at_state attempt = Partial
                    then attempt\<lparr>at_state := Unknown, at_updated_at := env_timestamp_text E (clk 2)\<rparr>
                    else attempt);
                  s3 = (if at_state attempt = Partial then update_attempt attempt' s2 else s2)
              in Inr (ClaimClaimed
                   \<lparr>cl_record = record, cl_dispatch = dispatch\<lparr>cd_attempt := attempt'\<rparr>\<rparr>, s3)))))))"

definition finish_reconciliation ::
  "env \<Rightarrow> clock \<Rightarrow> request_id \<Rightarrow> operation_receipt option \<Rightarrow> bool \<Rightarrow> bool \<Rightarrow> attempt_record tx" where
  "finish_reconciliation E clk request receipt completed release_lease s =
     rbind (ok_or (load_reconciliation_by_request s request)
              (Missing ''reconciliation'' (request_str request))) (\<lambda>record.
       if rc_state record \<noteq> Claimed then Inl (NotDispatchable (rc_attempt record))
       else
         rbind (ok_or (load_attempt s (rc_attempt record))
                  (Missing ''attempt'' (attempt_str (rc_attempt record)))) (\<lambda>attempt.
           let record' = record
                 \<lparr>rc_receipt := receipt, rc_ended_at := Some (env_timestamp_text E (clk 0)),
                  rc_state := (if completed then ReconCompleted
                               else if receipt \<noteq> None then ReconUnknown else ReconFailed)\<rparr>;
               s1 = update_reconciliation record' s
           in
           if completed then
             let attempt' = attempt
                   \<lparr>at_state := Completed, at_updated_at := env_timestamp_text E (clk 1)\<rparr>;
                 s2 = update_attempt attempt' s1
             in Inr (attempt', if release_lease then release_leases attempt' s2 else s2)
           else if at_state attempt = Partial then
             let attempt' = attempt
                   \<lparr>at_state := Unknown, at_updated_at := env_timestamp_text E (clk 1)\<rparr>
             in Inr (attempt', update_attempt attempt' s1)
           else Inr (attempt, s1)))"

section \<open>Abandonment\<close>

definition same_halted_run_abandonment ::
  "halted_run_abandonment_record \<Rightarrow> halted_run_abandonment_record \<Rightarrow> bool" where
  "same_halted_run_abandonment l r \<longleftrightarrow>
     ha_request l = ha_request r \<and> ha_run l = ha_run r \<and> ha_grant l = ha_grant r
     \<and> ha_plan l = ha_plan r \<and> ha_resources l = ha_resources r
     \<and> ha_justification_evidence l = ha_justification_evidence r
     \<and> ha_authorized_by l = ha_authorized_by r"

definition abandon_attempt ::
  "env \<Rightarrow> clock \<Rightarrow> nat \<times> attempt_record \<Rightarrow> store \<Rightarrow> store_error + store" where
  "abandon_attempt E clk numbered s =
     (case numbered of (i, attempt) \<Rightarrow>
      case at_state attempt of
        Completed \<Rightarrow> Inr s
      | Rejected \<Rightarrow> Inr s
      | Intent \<Rightarrow>
          Inr (update_attempt (attempt
            \<lparr>at_state := Rejected,
             at_receipt := Some (ReceiptRejected ''operator abandoned halted run before dispatch''),
             at_updated_at := env_timestamp_text E (clk i)\<rparr>) s)
      | _ \<Rightarrow> Inl (NotDispatchable (at_id attempt)))"

definition release_pair_leases :: "grant_id \<Rightarrow> plan_id \<Rightarrow> string set \<Rightarrow> store \<Rightarrow> store" where
  "release_pair_leases g p resources s =
     s\<lparr>st_leases := filter (\<lambda>(key, owner). \<not> (key \<in> resources \<and> owner = (g, p))) (st_leases s)\<rparr>"

definition store_abandon_halted_run ::
  "env \<Rightarrow> clock \<Rightarrow> halted_run_abandonment_record \<Rightarrow> halted_run_abandonment_record tx" where
  "store_abandon_halted_run E clk proposed s =
     (case load_halted_run_abandonment_by_request s (ha_request proposed) of
        Some existing \<Rightarrow>
          if same_halted_run_abandonment existing proposed then Inr (existing, s)
          else Inl (StoreConflict ''halted run abandonment'' (request_str (ha_request proposed)))
      | None \<Rightarrow>
       (case load_halted_run_abandonment_by_run s (ha_run proposed) of
          Some existing \<Rightarrow>
            Inl (StoreConflict ''halted run abandonment'' (request_str (ha_run existing)))
        | None \<Rightarrow>
          if halted_pair_exists s (ha_grant proposed) (ha_plan proposed)
          then Inl (StoreConflict ''halted grant plan'' (plan_str (ha_plan proposed)))
          else if recovery_destination_exists s (ha_grant proposed) (ha_plan proposed)
          then Inl (StoreConflict ''recovery destination abandonment'' (plan_str (ha_plan proposed)))
          else
            rbind (ok_or (st_runs s (ha_run proposed))
                     (Missing ''run'' (request_str (ha_run proposed)))) (\<lambda>run.
              if ru_grant run \<noteq> ha_grant proposed \<or> ru_plan run \<noteq> ha_plan proposed
              then Inl (StoreConflict ''run'' (request_str (ha_run proposed)))
              else
                let attempts = pair_attempts s (ha_grant proposed) (ha_plan proposed) in
                if attempts = []
                then Inl (Missing ''attempt for halted run'' (request_str (ha_run proposed)))
                else
                  rbind (fold_err (abandon_attempt E clk) (List.enumerate 0 attempts) s) (\<lambda>s1.
                  let resources = lease_keys_for_pair s1 (ha_grant proposed) (ha_plan proposed) in
                  if resources \<noteq> ha_resources proposed
                  then Inl (StoreConflict ''halted run resources'' (request_str (ha_run proposed)))
                  else
                    rbind (insert_abandonment proposed
                             (release_pair_leases (ha_grant proposed) (ha_plan proposed) resources s1))
                      (\<lambda>s2. Inr (proposed, s2))))))"

section \<open>Opening the journal\<close>

definition interrupt_attempt :: "env \<Rightarrow> timestamp \<Rightarrow> attempt_record \<Rightarrow> attempt_record" where
  "interrupt_attempt E now a =
     (if at_state a = Dispatched
      then a\<lparr>at_state := Unknown,
             at_receipt := Some (ReceiptUnknown
               ''process interrupted after dispatch; reconciliation required'' None),
             at_updated_at := env_timestamp_text E now\<rparr>
      else a)"

definition interrupt_reconciliation :: "env \<Rightarrow> timestamp \<Rightarrow> reconciliation_record \<Rightarrow> reconciliation_record" where
  "interrupt_reconciliation E now r =
     (if rc_state r = Claimed
      then r\<lparr>rc_state := ReconUnknown, rc_ended_at := Some (env_timestamp_text E now)\<rparr>
      else r)"

definition recover_interrupted_dispatches :: "env \<Rightarrow> clock \<Rightarrow> store \<Rightarrow> store" where
  "recover_interrupted_dispatches E clk s =
     s\<lparr>st_attempts := map (\<lambda>(i, a). interrupt_attempt E (clk i) a)
         (List.enumerate 0 (st_attempts s)),
       st_reconciliations := map (\<lambda>(i, r). interrupt_reconciliation E (clk i) r)
         (List.enumerate (length (st_attempts s)) (st_reconciliations s))\<rparr>"

end
