(* ===== verification/Supervisor.thy ===== *)
theory Supervisor
  imports Store
begin

text \<open>
  \<open>src/supervisor/mod.rs\<close> and \<open>src/supervisor/interlocks.rs\<close>: the authority that
  admits effects, dispatches them to a backend and records their outcome. An operation is
  a state transformer over the \<open>world\<close>: the journal, the device state that the backend
  and the artifact store act on, and a counter of clock-reading calls. A transaction that
  committed stays committed when a later step of the same operation fails.

  The trait objects (\<open>Backend\<close>, \<open>ArtifactResolver\<close>) and the renderings of errors are
  the fields of \<open>bench\<close>, over any device state \<open>'d\<close>.
\<close>

section \<open>Errors, requests and tickets\<close>

datatype backend_error =
    BackendMalformed string
  | BackendTimeout string
  | BackendTransport string

datatype supervisor_error =
    SvStore store_error
  | SvBackend backend_error
  | SvRole string string
  | GrantPrincipal
  | UnreviewedPlan
  | ChangedFixture
  | OutOfBounds string
  | NotUnknown

record dispatch_request =
  dr_attempt :: attempt_id
  dr_operation :: operation
  dr_deadline_milliseconds :: u64
  dr_expected_target_fingerprint :: artifact_digest
  dr_expected_instrument_fingerprints :: "(instrument_id \<times> artifact_digest) list"
  dr_expected_instrument_configurations :: "(instrument_id \<times> artifact_digest) list"
  dr_expected_instrument_physical_identities :: "(instrument_id \<times> artifact_digest) list"
  dr_expected_fixture_revision :: artifact_digest
  dr_evidence_challenge :: artifact_digest
  dr_evidence_phase :: evidence_phase
  dr_configure_instrument :: bool
  dr_interlocks_valid_until :: "timestamp option"

record submit_request =
  sr_attempt :: attempt_id
  sr_request :: request_id
  sr_grant :: grant_id
  sr_plan :: plan_id
  sr_operation_index :: nat

record plan_admission_request =
  ar_run :: request_id
  ar_first_attempt :: attempt_id
  ar_grant :: grant_id
  ar_plan :: plan_id

record recovery_takeover_request =
  tk_request :: request_id
  tk_run :: request_id
  tk_first_attempt :: attempt_id
  tk_unresolved :: "attempt_id list"
  tk_grant :: grant_id
  tk_plan :: plan_id
  tk_justification_evidence :: artifact_digest

record halted_run_abandonment_request =
  hr_request :: request_id
  hr_run :: request_id
  hr_grant :: grant_id
  hr_plan :: plan_id
  hr_justification_evidence :: artifact_digest

datatype dispatch_ticket = DispatchTicket (ticket_attempt: attempt_id)

record plan_ticket =
  pt_run :: request_id
  pt_grant :: grant_id
  pt_plan :: plan_id
  pt_dispatch :: dispatch_ticket
  pt_operation_index :: nat

record plan_progress =
  pg_attempt :: attempt_record
  pg_next :: "plan_ticket option"

datatype submission = SubExisting attempt_record | SubAdmitted dispatch_ticket

section \<open>World and bench\<close>

record 'd world =
  w_store :: store
  w_device :: 'd
  w_calls :: nat

record 'd bench =
  bn_env :: env
  bn_time :: "nat \<Rightarrow> clock"
  bn_error_text :: "supervisor_error \<Rightarrow> string"
  bn_backend_error_text :: "backend_error \<Rightarrow> string"
  bn_resolve :: "artifact_digest \<Rightarrow> 'd \<Rightarrow> string + u8 list"
  bn_verify_source :: "artifact_digest \<Rightarrow> attempt_id \<Rightarrow> 'd \<Rightarrow> string + u8 list"
  bn_preflight :: "operation \<Rightarrow> commissioned_profile \<Rightarrow> 'd \<Rightarrow> backend_error + unit"
  bn_execute :: "dispatch_request \<Rightarrow> 'd \<Rightarrow> (backend_error + operation_receipt) \<times> 'd"
  bn_reconcile :: "dispatch_request \<Rightarrow> 'd \<Rightarrow> (backend_error + operation_receipt) \<times> 'd"

type_synonym ('d, 'a) sv = "'d world \<Rightarrow> (supervisor_error + 'a) \<times> 'd world"

definition sbind :: "('d, 'a) sv \<Rightarrow> ('a \<Rightarrow> ('d, 'b) sv) \<Rightarrow> ('d, 'b) sv" where
  "sbind m f w = (case m w of (Inl e, w') \<Rightarrow> (Inl e, w') | (Inr x, w') \<Rightarrow> f x w')"

definition sreturn :: "'a \<Rightarrow> ('d, 'a) sv" where "sreturn x w = (Inr x, w)"

definition sfail :: "supervisor_error \<Rightarrow> ('d, 'a) sv" where "sfail e w = (Inl e, w)"

definition lift_result :: "supervisor_error + 'a \<Rightarrow> ('d, 'a) sv" where
  "lift_result r w = (r, w)"

definition read_store :: "(store \<Rightarrow> 'a) \<Rightarrow> ('d, 'a) sv" where
  "read_store f w = (Inr (f (w_store w)), w)"

text \<open>One store operation is one transaction with its own clock readings.\<close>

definition transaction :: "'d bench \<Rightarrow> (clock \<Rightarrow> 'a tx) \<Rightarrow> ('d, 'a) sv" where
  "transaction B op w =
     (case op (bn_time B (w_calls w)) (w_store w) of
        Inl e \<Rightarrow> (Inl (SvStore e), w\<lparr>w_calls := Suc (w_calls w)\<rparr>)
      | Inr (x, s) \<Rightarrow> (Inr x, w\<lparr>w_store := s, w_calls := Suc (w_calls w)\<rparr>))"

definition now :: "'d bench \<Rightarrow> ('d, timestamp) sv" where
  "now B w = (Inr (bn_time B (w_calls w) 0), w\<lparr>w_calls := Suc (w_calls w)\<rparr>)"

definition resolve_artifact :: "'d bench \<Rightarrow> artifact_digest \<Rightarrow> ('d, u8 list) sv" where
  "resolve_artifact B d w =
     (map_err OutOfBounds (bn_resolve B d (w_device w)), w)"

fun for_each_sv :: "('a \<Rightarrow> ('d, unit) sv) \<Rightarrow> 'a list \<Rightarrow> ('d, unit) sv" where
  "for_each_sv body [] = sreturn ()"
| "for_each_sv body (x # xs) = sbind (body x) (\<lambda>_. for_each_sv body xs)"

section \<open>Roles and authorization\<close>

definition require_authority :: "principal \<Rightarrow> supervisor_error + unit" where
  "require_authority p =
     (if pr_role p \<in> {Operator, Admin} then Inr ()
      else Inl (SvRole (principal_str (pr_id p)) ''operator or admin''))"

definition require_agent :: "principal \<Rightarrow> supervisor_error + unit" where
  "require_agent p =
     (if pr_role p = Agent then Inr () else Inl (SvRole (principal_str (pr_id p)) ''agent''))"

definition limits_check :: "commissioned_profile \<Rightarrow> planned_operation \<Rightarrow> supervisor_error + unit" where
  "limits_check profile planned =
     (let deadline = (if po_max_milliseconds planned = 0
            then Inl (OutOfBounds ''operation deadline must be finite and non-zero'') else Inr ());
          region = (\<lambda>offset len.
            if \<not> region_contains (cp_region_limits profile) offset len
            then Inl (OutOfBounds ''flash region exceeded'') else deadline)
      in case po_operation planned of
           Wait _ milliseconds \<Rightarrow>
             if milliseconds = 0 \<or> po_max_milliseconds planned < milliseconds
             then Inl (OutOfBounds ''wait must fit its positive operation deadline'') else deadline
         | PsuSet _ _ millivolts milliamps \<Rightarrow>
             if max_millivolts (cp_electrical_limits profile) < millivolts
                \<or> max_milliamps (cp_electrical_limits profile) < milliamps
             then Inl (OutOfBounds ''power limits exceeded'') else deadline
         | FlashRead _ _ offset len \<Rightarrow> region offset len
         | FlashErase _ _ offset len \<Rightarrow> region offset len
         | FlashWrite _ _ offset _ len \<Rightarrow> region offset len
         | FlashVerify _ _ offset _ len \<Rightarrow> region offset len
         | _ \<Rightarrow> deadline)"

definition instrument_check ::
  "commissioned_profile \<Rightarrow> reviewed_plan \<Rightarrow> operation \<Rightarrow> supervisor_error + unit" where
  "instrument_check profile plan oper =
     (case op_instrument oper of
        None \<Rightarrow> Inr ()
      | Some instrument \<Rightarrow>
          rbind (ok_or (profile_instrument profile instrument) ChangedFixture) (\<lambda>binding.
            if op_capability oper \<notin> ib_qualified_capabilities binding
               \<or> \<not> effect_permissions oper \<subseteq> ib_qualified_effect_permissions binding
               \<or> map_of (rp_instrument_fingerprints plan) instrument \<noteq> Some (ib_fingerprint binding)
               \<or> map_of (rp_instrument_configuration_digests plan) instrument
                   \<noteq> Some (ib_configuration_digest binding)
            then Inl ChangedFixture else Inr ()))"

definition authorize ::
  "env \<Rightarrow> grant \<Rightarrow> commissioned_profile \<Rightarrow> reviewed_plan \<Rightarrow> planned_operation
     \<Rightarrow> supervisor_error + unit" where
  "authorize E g profile plan planned =
     (if gr_revoked g then Inl (OutOfBounds ''grant is revoked'')
      else
        rbind (if rp_reviewed_by plan = rp_requested_by plan then Inl UnreviewedPlan
               else rbind (ok_or (plan_digest E plan) (SvStore Json)) (\<lambda>d.
                 if rp_review_digest plan \<noteq> d then Inl UnreviewedPlan else Inr ())) (\<lambda>_.
        if rp_fixture_revision plan \<noteq> cp_fixture_revision profile
           \<or> rp_target_fingerprint plan \<noteq> cp_target_fingerprint profile
        then Inl ChangedFixture
        else if length (rp_instrument_fingerprints plan) \<noteq> length (cp_instruments profile)
           \<or> list_ex (\<lambda>(i, digest). case profile_instrument profile i of
                None \<Rightarrow> True | Some binding \<Rightarrow> ib_fingerprint binding \<noteq> digest)
                (rp_instrument_fingerprints plan)
        then Inl ChangedFixture
        else let oper = po_operation planned in
          if op_target oper \<noteq> gr_target g \<or> op_target oper \<noteq> cp_target profile
          then Inl (OutOfBounds ''target differs from grant or profile'')
          else if op_capability oper \<notin> gr_capabilities g
             \<or> op_capability oper \<notin> cp_permitted_capabilities profile
          then Inl (OutOfBounds ''capability is not permitted'')
          else if \<not> effect_permissions oper \<subseteq> gr_effect_permissions g
          then Inl (OutOfBounds ''effect permission is absent'')
          else rbind (instrument_check profile plan oper) (\<lambda>_. limits_check profile planned)))"

section \<open>Live interlocks\<close>

fun last_index_from :: "operation \<Rightarrow> (nat \<times> planned_operation) list \<Rightarrow> nat option" where
  "last_index_from wanted [] = None"
| "last_index_from wanted ((index, planned) # rest) =
     (if po_operation planned = wanted then Some index
      else if effect_permissions (po_operation planned) \<noteq> {} then None
      else last_index_from wanted rest)"

definition observation_step :: "reviewed_plan \<Rightarrow> nat \<Rightarrow> live_interlock \<Rightarrow> supervisor_error + nat" where
  "observation_step plan before interlock =
     ok_or (last_index_from (li_observation interlock)
              (rev (take before (List.enumerate 0 (rp_operations plan)))))
       (OutOfBounds ''live interlock needs its exact observation after the preceding effect'')"

definition interlocked :: "live_interlock \<Rightarrow> planned_operation \<Rightarrow> bool" where
  "interlocked interlock planned \<longleftrightarrow>
     li_effects interlock \<inter> effect_permissions (po_operation planned) \<noteq> {}"

definition validate_plan :: "commissioned_profile \<Rightarrow> reviewed_plan \<Rightarrow> supervisor_error + unit" where
  "validate_plan profile plan =
     for_each (\<lambda>(index, planned).
       for_each (\<lambda>interlock.
         if interlocked interlock planned
         then rbind (observation_step plan index interlock) (\<lambda>_. Inr ()) else Inr ())
         (cp_live_interlocks profile))
       (List.enumerate 0 (rp_operations plan))"

definition check_postconditions ::
  "'d bench \<Rightarrow> planned_operation \<Rightarrow> operation_receipt \<Rightarrow> operation_receipt" where
  "check_postconditions B planned receipt =
     (case receipt of
        ReceiptCompleted obs \<Rightarrow>
          (case evaluate_checks obs (po_postconditions planned) of
             Inr _ \<Rightarrow> ReceiptCompleted obs
           | Inl e \<Rightarrow> ReceiptPartial obs
               (''reviewed postcondition failed: '' @ env_condition_text (bn_env B) e))
      | other \<Rightarrow> other)"

text \<open>The envelope an observation's evidence holds must bind the attempt, the challenge,
  the phase and the observation itself.\<close>

definition bound_envelope ::
  "'d bench \<Rightarrow> attempt_id \<Rightarrow> artifact_digest \<Rightarrow> evidence_phase \<Rightarrow> observation \<Rightarrow> string \<Rightarrow> string
     \<Rightarrow> ('d, unit) sv" where
  "bound_envelope B attempt challenge phase obs missing mismatch =
     sbind (lift_result (ok_or (obs_evidence obs) (OutOfBounds missing))) (\<lambda>digest.
     sbind (\<lambda>w. (map_err OutOfBounds (bn_verify_source B digest attempt (w_device w)), w)) (\<lambda>artifact.
     sbind (lift_result (map_err OutOfBounds (env_parse_envelope (bn_env B) artifact))) (\<lambda>envelope.
       if ee_attempt envelope \<noteq> attempt \<or> ee_challenge envelope \<noteq> challenge
          \<or> ee_phase envelope \<noteq> phase \<or> ee_observation envelope \<noteq> obs\<lparr>obs_evidence := None\<rparr>
       then sfail (OutOfBounds mismatch) else sreturn ())))"

definition completed_observation :: "'d bench \<Rightarrow> attempt_record \<Rightarrow> ('d, observation) sv" where
  "completed_observation B attempt =
     sbind (read_store (\<lambda>s. reconciliation_history s (at_id attempt))) (\<lambda>history.
       let (receipt, challenge, phase) =
         (case List.find (\<lambda>r. rc_state r = ReconCompleted) (rev history) of
            Some record \<Rightarrow> (rc_receipt record, rc_challenge record, Reconciliation)
          | None \<Rightarrow> (at_receipt attempt, at_evidence_challenge attempt, Execution))
       in case receipt of
            Some (ReceiptCompleted obs) \<Rightarrow>
              sbind (bound_envelope B (at_id attempt) challenge phase obs
                       ''interlock observation lacks evidence''
                       ''interlock evidence no longer binds its durable receipt'')
                (\<lambda>_. sreturn obs)
          | _ \<Rightarrow> sfail (OutOfBounds ''interlock observation has no successful receipt''))"

definition i64_range :: "int \<Rightarrow> bool" where
  "i64_range i \<longleftrightarrow> - (2 ^ 63) \<le> i \<and> i < 2 ^ 63"

definition interlock_expiry ::
  "'d bench \<Rightarrow> attempt_record \<Rightarrow> reviewed_plan \<Rightarrow> live_interlock \<Rightarrow> ('d, timestamp) sv" where
  "interlock_expiry B attempt plan interlock =
     sbind (lift_result (observation_step plan (at_operation_index attempt) interlock)) (\<lambda>index.
     sbind (\<lambda>w. (map_err SvStore (attempt_at_step (w_store w) (at_grant attempt) (at_plan attempt) index), w))
       (\<lambda>found.
     sbind (lift_result (ok_or found (OutOfBounds ''interlock observation has no durable attempt'')))
       (\<lambda>witness.
     if at_state witness \<noteq> Completed \<or> at_profile_digest witness \<noteq> at_profile_digest attempt
        \<or> at_plan_digest witness \<noteq> at_plan_digest attempt
     then sfail (OutOfBounds ''interlock observation is not completed in this reviewed run'')
     else
       sbind (completed_observation B witness) (\<lambda>obs.
       sbind (lift_result (ok_or (env_parse_timestamp (bn_env B) (captured_at obs))
                (OutOfBounds ''interlock observation timestamp is invalid''))) (\<lambda>captured.
       sbind (now B) (\<lambda>current.
         let ms = env_as_millisecond (bn_env B); age = ms current - ms captured in
         if \<not> i64_range age \<or> age < 0
         then sfail (OutOfBounds ''interlock observation timestamp is in the future'')
         else
           sbind (lift_result (if index < length (rp_operations plan) then Inr (rp_operations plan ! index)
                    else Inl (OutOfBounds ''interlock operation is absent''))) (\<lambda>observed.
           sbind (lift_result (map_err (OutOfBounds \<circ> env_condition_text (bn_env B))
                    (validate_interlock_observation interlock (po_operation observed) obs
                       (word_of_int age)))) (\<lambda>_.
             let maximum_age = uint (li_maximum_age_milliseconds interlock);
                 expiry = ms captured + maximum_age in
             if \<not> i64_range maximum_age
             then sfail (OutOfBounds ''interlock age exceeds timestamp range'')
             else if \<not> i64_range expiry
             then sfail (OutOfBounds ''interlock expiration overflows'')
             else lift_result (ok_or (env_from_millisecond (bn_env B) expiry)
                    (OutOfBounds ''interlock expiration is outside timestamp range''))))))))))"

definition earlier :: "timestamp option \<Rightarrow> timestamp \<Rightarrow> timestamp option" where
  "earlier previous expiry = Some (case previous of None \<Rightarrow> expiry | Some p \<Rightarrow> min p expiry)"

fun interlock_loop ::
  "'d bench \<Rightarrow> attempt_record \<Rightarrow> reviewed_plan \<Rightarrow> planned_operation \<Rightarrow> live_interlock list
     \<Rightarrow> timestamp option \<Rightarrow> ('d, timestamp option) sv" where
  "interlock_loop B attempt plan planned [] earliest = sreturn earliest"
| "interlock_loop B attempt plan planned (interlock # rest) earliest =
     (if \<not> interlocked interlock planned then interlock_loop B attempt plan planned rest earliest
      else sbind (interlock_expiry B attempt plan interlock) (\<lambda>expiry.
             interlock_loop B attempt plan planned rest (earlier earliest expiry)))"

definition check_live_interlocks ::
  "'d bench \<Rightarrow> attempt_record \<Rightarrow> commissioned_profile \<Rightarrow> reviewed_plan \<Rightarrow> ('d, timestamp option) sv" where
  "check_live_interlocks B attempt profile plan =
     (if at_operation_index attempt < length (rp_operations plan)
      then interlock_loop B attempt plan (rp_operations plan ! at_operation_index attempt)
             (cp_live_interlocks profile) None
      else sfail (OutOfBounds ''interlocked operation is absent from reviewed plan''))"

end
