(* ===== verification/Supervisor_Ops.thy ===== *)
theory Supervisor_Ops
  imports Supervisor
begin

text \<open>
  The operations of \<open>impl Supervisor\<close> in \<open>src/supervisor/mod.rs\<close>: commissioning,
  grants, proposals and review, submission and admission, execution of a step and of a
  plan, resumption, reconciliation, takeover and abandonment.
\<close>

section \<open>Commissioning, grants, proposals\<close>

definition store_missing :: "string \<Rightarrow> string \<Rightarrow> supervisor_error" where
  "store_missing kind i = SvStore (Missing kind i)"

definition commission :: "'d bench \<Rightarrow> principal \<Rightarrow> commissioned_profile \<Rightarrow> ('d, unit) sv" where
  "commission B authority profile =
     sbind (lift_result (require_authority authority)) (\<lambda>_. transaction B (\<lambda>_. save_profile profile))"

definition issue_grant :: "'d bench \<Rightarrow> principal \<Rightarrow> principal \<Rightarrow> grant \<Rightarrow> ('d, unit) sv" where
  "issue_grant B authority agent g =
     sbind (lift_result (require_authority authority)) (\<lambda>_.
       if pr_role agent \<noteq> Agent \<or> gr_agent g \<noteq> pr_id agent \<or> gr_issued_by g \<noteq> pr_id authority
       then sfail GrantPrincipal
       else
         sbind (read_store (\<lambda>s. st_profiles s (gr_profile g))) (\<lambda>found.
         sbind (lift_result (ok_or found (store_missing ''profile'' (profile_str (gr_profile g))))) (\<lambda>profile.
           if cp_target profile \<noteq> gr_target g
           then sfail (OutOfBounds ''grant target differs from profile'')
           else transaction B (\<lambda>_. save_grant g))))"

definition revoke_grant :: "'d bench \<Rightarrow> principal \<Rightarrow> grant_id \<Rightarrow> ('d, unit) sv" where
  "revoke_grant B authority i =
     sbind (lift_result (require_authority authority)) (\<lambda>_. transaction B (\<lambda>_. store_revoke_grant i))"

definition propose_plan :: "'d bench \<Rightarrow> principal \<Rightarrow> plan_proposal \<Rightarrow> ('d, plan_proposal) sv" where
  "propose_plan B agent proposal =
     sbind (lift_result (require_agent agent)) (\<lambda>_.
       if pp_requested_by proposal \<noteq> pr_id agent \<or> pp_operations proposal = []
       then sfail UnreviewedPlan
       else sbind (transaction B (\<lambda>_. save_proposal (bn_env B) proposal)) (\<lambda>_. sreturn proposal))"

definition plan_of_proposal :: "plan_proposal \<Rightarrow> principal_id \<Rightarrow> artifact_digest \<Rightarrow> reviewed_plan" where
  "plan_of_proposal proposal reviewer digest =
     \<lparr>rp_id = pp_id proposal, rp_candidate_digest = pp_candidate_digest proposal,
      rp_fixture_revision = pp_fixture_revision proposal, rp_tool_digest = pp_tool_digest proposal,
      rp_target_fingerprint = pp_target_fingerprint proposal,
      rp_instrument_fingerprints = pp_instrument_fingerprints proposal,
      rp_instrument_configuration_digests = pp_instrument_configuration_digests proposal,
      rp_preconditions = pp_preconditions proposal, rp_operations = pp_operations proposal,
      rp_requested_by = pp_requested_by proposal, rp_reviewed_by = reviewer,
      rp_review_digest = digest, rp_reconciliation_setup = pp_reconciliation_setup proposal\<rparr>"

definition review_proposal ::
  "'d bench \<Rightarrow> principal \<Rightarrow> plan_id \<Rightarrow> artifact_digest \<Rightarrow> ('d, reviewed_plan) sv" where
  "review_proposal B reviewer i expected_digest =
     sbind (read_store (\<lambda>s. st_proposals s i)) (\<lambda>found.
     sbind (lift_result (ok_or found (store_missing ''proposal'' (plan_str i)))) (\<lambda>proposal.
       if pr_role reviewer \<noteq> Reviewer \<or> pr_id reviewer = pp_requested_by proposal
       then sfail UnreviewedPlan
       else
         sbind (lift_result (ok_or (proposal_digest (bn_env B) proposal) (SvStore Json))) (\<lambda>d.
         if d \<noteq> expected_digest then sfail (SvStore (ReviewDigestMismatch i))
         else
           let pending = plan_of_proposal proposal (pr_id reviewer)
                 (text_digest (bn_env B) ''pending-review'') in
           sbind (lift_result (ok_or (plan_digest (bn_env B) pending) (SvStore Json))) (\<lambda>digest.
           let plan = pending\<lparr>rp_review_digest := digest\<rparr> in
           sbind (transaction B (\<lambda>_. consume_reviewed_proposal (bn_env B) i expected_digest plan))
             (\<lambda>_. sreturn plan)))))"

text \<open>Any caller may append to a case's history.\<close>

definition sv_append_case_fact :: "'d bench \<Rightarrow> case_id \<Rightarrow> case_fact \<Rightarrow> ('d, unit) sv" where
  "sv_append_case_fact B c entry = transaction B (\<lambda>_. append_case_fact c entry)"

section \<open>Submission\<close>

fun total_budget :: "planned_operation list \<Rightarrow> budget \<Rightarrow> budget option" where
  "total_budget [] acc = Some acc"
| "total_budget (planned # rest) acc =
     (case budget_checked_add acc (worst_case_budget planned) of
        None \<Rightarrow> None | Some acc' \<Rightarrow> total_budget rest acc')"

definition plan_budget :: "reviewed_plan \<Rightarrow> supervisor_error + budget" where
  "plan_budget plan =
     ok_or (total_budget (rp_operations plan) budget_ZERO) (OutOfBounds ''plan budget overflow'')"

definition intent_record ::
  "'d bench \<Rightarrow> attempt_id \<Rightarrow> request_id \<Rightarrow> grant_id \<Rightarrow> plan_id \<Rightarrow> nat \<Rightarrow> artifact_digest \<Rightarrow> budget
     \<Rightarrow> commissioned_profile \<Rightarrow> artifact_digest \<Rightarrow> timestamp \<Rightarrow> attempt_record" where
  "intent_record B attempt request g p index plan_d reserved profile profile_d current =
     (let stamp = env_timestamp_text (bn_env B) current in
      \<lparr>at_id = attempt, at_request = request, at_grant = g, at_plan = p,
       at_operation_index = index, at_plan_digest = plan_d, at_reserved = reserved,
       at_profile = cp_id profile, at_profile_digest = profile_d,
       at_leased_resources = physical_resources profile,
       at_evidence_challenge = text_digest (bn_env B) (attempt_str attempt @ '':'' @ stamp @ '':0''),
       at_evidence_ordinal = 0, at_state = Intent, at_receipt = None,
       at_created_at = stamp, at_updated_at = stamp\<rparr>)"

definition submit :: "'d bench \<Rightarrow> principal \<Rightarrow> submit_request \<Rightarrow> ('d, submission) sv" where
  "submit B agent request =
     sbind (lift_result (require_agent agent)) (\<lambda>_.
     sbind (read_store (\<lambda>s. st_grants s (sr_grant request))) (\<lambda>found_grant.
     sbind (lift_result (ok_or found_grant (store_missing ''grant'' (grant_str (sr_grant request))))) (\<lambda>g.
     if gr_agent g \<noteq> pr_id agent then sfail GrantPrincipal
     else
       sbind (read_store (\<lambda>s. st_profiles s (gr_profile g))) (\<lambda>found_profile.
       sbind (lift_result (ok_or found_profile (store_missing ''profile'' (profile_str (gr_profile g))))) (\<lambda>profile.
       sbind (read_store (\<lambda>s. st_plans s (sr_plan request))) (\<lambda>found_plan.
       sbind (lift_result (ok_or found_plan (store_missing ''plan'' (plan_str (sr_plan request))))) (\<lambda>plan.
       sbind (lift_result (if sr_operation_index request < length (rp_operations plan)
                then Inr (rp_operations plan ! sr_operation_index request)
                else Inl (OutOfBounds ''operation index is absent''))) (\<lambda>planned.
       sbind (lift_result (authorize (bn_env B) g profile plan planned)) (\<lambda>_.
       sbind (lift_result (ok_or (plan_digest (bn_env B) plan) (SvStore Json))) (\<lambda>digest.
       sbind (lift_result (if sr_operation_index request = 0 then plan_budget plan else Inr budget_ZERO)) (\<lambda>reserved.
       sbind (now B) (\<lambda>current.
       sbind (lift_result (ok_or (profile_digest (bn_env B) profile) (SvStore Json))) (\<lambda>profile_d.
       let proposed = intent_record B (sr_attempt request) (sr_request request) (sr_grant request)
             (sr_plan request) (sr_operation_index request) digest reserved profile profile_d current in
       sbind (transaction B (\<lambda>clk. reserve (bn_env B) clk proposed
                \<lparr>snap_agent = pr_id agent, snap_profile = profile, snap_plan = plan\<rparr>)) (\<lambda>outcome.
       case outcome of
         Existing attempt \<Rightarrow> sreturn (SubExisting attempt)
       | Reserved _ \<Rightarrow> sreturn (SubAdmitted (DispatchTicket (at_id proposed)))))))))))))))))"

section \<open>Admission of a plan\<close>

definition plan_step_ids :: "env \<Rightarrow> request_id \<Rightarrow> nat \<Rightarrow> supervisor_error + attempt_id \<times> request_id" where
  "plan_step_ids E run index =
     (let token = text_digest E (''plan-step:'' @ request_str run @ '':'' @ nat_text index) in
      rbind (map_err (\<lambda>_. OutOfBounds ''cannot derive plan step id'')
               (identifier_try_from AttemptId ''attempt'' (''a'' @ digest_str token))) (\<lambda>attempt.
      rbind (map_err (\<lambda>_. OutOfBounds ''cannot derive plan request id'')
               (identifier_try_from RequestId ''request'' (''r'' @ digest_str token))) (\<lambda>request.
        Inr (attempt, request))))"

fun map_result :: "('a \<Rightarrow> 'e + 'b) \<Rightarrow> 'a list \<Rightarrow> 'e + 'b list" where
  "map_result f [] = Inr []"
| "map_result f (x # xs) = rbind (f x) (\<lambda>y. rbind (map_result f xs) (\<lambda>ys. Inr (y # ys)))"

definition plan_steps ::
  "env \<Rightarrow> request_id \<Rightarrow> attempt_id \<Rightarrow> request_id \<Rightarrow> nat
     \<Rightarrow> supervisor_error + (attempt_id \<times> request_id) list" where
  "plan_steps E run first_attempt first_request operation_count =
     rbind (map_result (plan_step_ids E run) [1..<operation_count]) (\<lambda>steps.
       Inr ((first_attempt, first_request) # steps))"

definition planned_source :: "planned_operation \<Rightarrow> artifact_digest option" where
  "planned_source planned =
     (case po_operation planned of
        FlashWrite _ _ _ source _ \<Rightarrow> Some source
      | FlashVerify _ _ _ source _ \<Rightarrow> Some source
      | _ \<Rightarrow> None)"

definition preflight_operation ::
  "'d bench \<Rightarrow> grant \<Rightarrow> commissioned_profile \<Rightarrow> reviewed_plan \<Rightarrow> planned_operation \<Rightarrow> ('d, unit) sv" where
  "preflight_operation B g profile plan planned =
     sbind (lift_result (authorize (bn_env B) g profile plan planned)) (\<lambda>_.
     sbind (case planned_source planned of
              None \<Rightarrow> sreturn ()
            | Some source \<Rightarrow> sbind (resolve_artifact B source) (\<lambda>_. sreturn ())) (\<lambda>_.
       \<lambda>w. (map_err SvBackend (bn_preflight B (po_operation planned) profile (w_device w)), w)))"

definition preflight_plan ::
  "'d bench \<Rightarrow> grant \<Rightarrow> commissioned_profile \<Rightarrow> reviewed_plan \<Rightarrow> ('d, unit) sv" where
  "preflight_plan B g profile plan =
     sbind (lift_result (validate_plan profile plan)) (\<lambda>_.
     sbind (for_each_sv (\<lambda>d. sbind (resolve_artifact B d) (\<lambda>_. sreturn ()))
              (rp_candidate_digest plan # rp_tool_digest plan # rp_preconditions plan)) (\<lambda>_.
       for_each_sv (preflight_operation B g profile plan) (rp_operations plan)))"

definition first_ticket :: "request_id \<Rightarrow> grant_id \<Rightarrow> plan_id \<Rightarrow> attempt_id \<Rightarrow> nat \<Rightarrow> plan_ticket" where
  "first_ticket run g p attempt index =
     \<lparr>pt_run = run, pt_grant = g, pt_plan = p, pt_dispatch = DispatchTicket attempt,
      pt_operation_index = index\<rparr>"

definition ticket_for ::
  "request_id \<Rightarrow> grant_id \<Rightarrow> plan_id \<Rightarrow> nat \<Rightarrow> string \<Rightarrow> submission \<Rightarrow> supervisor_error + plan_ticket" where
  "ticket_for run g p index reason s =
     (case s of
        SubAdmitted dispatch \<Rightarrow> Inr (first_ticket run g p (ticket_attempt dispatch) index)
      | SubExisting existing \<Rightarrow>
          if at_state existing = Intent then Inr (first_ticket run g p (at_id existing) index)
          else Inl (OutOfBounds reason))"

definition admit_plan :: "'d bench \<Rightarrow> principal \<Rightarrow> plan_admission_request \<Rightarrow> ('d, plan_ticket) sv" where
  "admit_plan B agent request =
     sbind (lift_result (require_agent agent)) (\<lambda>_.
     sbind (read_store (\<lambda>s. st_grants s (ar_grant request))) (\<lambda>found_grant.
     sbind (lift_result (ok_or found_grant (store_missing ''grant'' (grant_str (ar_grant request))))) (\<lambda>g.
     if gr_agent g \<noteq> pr_id agent then sfail GrantPrincipal
     else
       sbind (read_store (\<lambda>s. halted_pair_exists s (ar_grant request) (ar_plan request)
                \<or> recovery_source_retired s (ar_grant request) (ar_plan request))) (\<lambda>closed.
       if closed
       then sfail (OutOfBounds ''plan authority was closed by abandonment or recovery takeover'')
       else
         sbind (read_store (\<lambda>s. st_profiles s (gr_profile g))) (\<lambda>found_profile.
         sbind (lift_result (ok_or found_profile (store_missing ''profile'' (profile_str (gr_profile g))))) (\<lambda>profile.
         sbind (read_store (\<lambda>s. st_plans s (ar_plan request))) (\<lambda>found_plan.
         sbind (lift_result (ok_or found_plan (store_missing ''plan'' (plan_str (ar_plan request))))) (\<lambda>plan.
         sbind (preflight_plan B g profile plan) (\<lambda>_.
         sbind (lift_result (plan_steps (bn_env B) (ar_run request) (ar_first_attempt request)
                  (ar_run request) (length (rp_operations plan)))) (\<lambda>steps.
         sbind (transaction B (\<lambda>_. create_run
                  \<lparr>ru_id = ar_run request, ru_agent = pr_id agent, ru_grant = ar_grant request,
                   ru_plan = ar_plan request, ru_steps = steps, ru_cursor = 0\<rparr>)) (\<lambda>_.
         sbind (submit B agent
                  \<lparr>sr_attempt = ar_first_attempt request, sr_request = ar_run request,
                   sr_grant = ar_grant request, sr_plan = ar_plan request,
                   sr_operation_index = 0\<rparr>) (\<lambda>submission.
           lift_result (ticket_for (ar_run request) (ar_grant request) (ar_plan request) 0
             ''run already has a non-resumable first step'' submission)))))))))))))"

section \<open>Takeover and abandonment\<close>

definition takeover_recovery ::
  "'d bench \<Rightarrow> principal \<Rightarrow> recovery_takeover_request \<Rightarrow> ('d, plan_ticket) sv" where
  "takeover_recovery B authority request =
     sbind (lift_result (require_authority authority)) (\<lambda>_.
     if tk_unresolved request = []
     then sfail (OutOfBounds ''recovery must name an unresolved attempt'')
     else
       sbind (resolve_artifact B (tk_justification_evidence request)) (\<lambda>_.
       sbind (read_store (\<lambda>s. st_grants s (tk_grant request))) (\<lambda>found_grant.
       sbind (lift_result (ok_or found_grant (store_missing ''grant'' (grant_str (tk_grant request))))) (\<lambda>g.
       sbind (read_store (\<lambda>s. st_profiles s (gr_profile g))) (\<lambda>found_profile.
       sbind (lift_result (ok_or found_profile (store_missing ''profile'' (profile_str (gr_profile g))))) (\<lambda>profile.
       sbind (read_store (\<lambda>s. st_plans s (tk_plan request))) (\<lambda>found_plan.
       sbind (lift_result (ok_or found_plan (store_missing ''plan'' (plan_str (tk_plan request))))) (\<lambda>plan.
       sbind (preflight_plan B g profile plan) (\<lambda>_.
       sbind (lift_result (plan_steps (bn_env B) (tk_run request) (tk_first_attempt request)
                (tk_request request) (length (rp_operations plan)))) (\<lambda>steps.
       sbind (now B) (\<lambda>current.
       sbind (lift_result (ok_or (plan_digest (bn_env B) plan) (SvStore Json))) (\<lambda>digest.
       sbind (lift_result (plan_budget plan)) (\<lambda>reserved.
       sbind (lift_result (ok_or (profile_digest (bn_env B) profile) (SvStore Json))) (\<lambda>profile_d.
       let proposed = intent_record B (tk_first_attempt request) (tk_request request)
             (tk_grant request) (tk_plan request) 0 digest reserved profile profile_d current in
       sbind (now B) (\<lambda>authorized.
       let record = \<lparr>rt_request = tk_request request, rt_run = tk_run request,
             rt_first_attempt = tk_first_attempt request, rt_unresolved = tk_unresolved request,
             rt_grant = tk_grant request, rt_plan = tk_plan request,
             rt_resources = at_leased_resources proposed,
             rt_justification_evidence = tk_justification_evidence request,
             rt_authorized_by = pr_id authority,
             rt_authorized_at = env_timestamp_text (bn_env B) authorized\<rparr> in
       sbind (transaction B (\<lambda>clk. store_takeover_recovery (bn_env B) clk proposed
                \<lparr>snap_agent = gr_agent g, snap_profile = profile, snap_plan = plan\<rparr>
                \<lparr>ru_id = tk_run request, ru_agent = gr_agent g, ru_grant = tk_grant request,
                 ru_plan = tk_plan request, ru_steps = steps, ru_cursor = 0\<rparr> record)) (\<lambda>outcome.
         sreturn (first_ticket (tk_run request) (tk_grant request) (tk_plan request)
           (at_id (case outcome of Existing a \<Rightarrow> a | Reserved a \<Rightarrow> a)) 0)))))))))))))))))"

definition abandon_halted_run ::
  "'d bench \<Rightarrow> principal \<Rightarrow> halted_run_abandonment_request
     \<Rightarrow> ('d, halted_run_abandonment_record) sv" where
  "abandon_halted_run B authority request =
     sbind (lift_result (require_authority authority)) (\<lambda>_.
     sbind (resolve_artifact B (hr_justification_evidence request)) (\<lambda>_.
     sbind (read_store (\<lambda>s. st_runs s (hr_run request))) (\<lambda>found_run.
     sbind (lift_result (ok_or found_run (store_missing ''run'' (request_str (hr_run request))))) (\<lambda>run.
     if ru_grant run \<noteq> hr_grant request \<or> ru_plan run \<noteq> hr_plan request
     then sfail (OutOfBounds ''abandonment identity differs from the durable run'')
     else
       sbind (read_store (\<lambda>s.
         case load_halted_run_abandonment_by_request s (hr_request request) of
           Some existing \<Rightarrow> ha_resources existing
         | None \<Rightarrow> lease_keys_for_pair s (hr_grant request) (hr_plan request))) (\<lambda>resources.
       sbind (now B) (\<lambda>authorized.
         transaction B (\<lambda>clk. store_abandon_halted_run (bn_env B) clk
           \<lparr>ha_request = hr_request request, ha_run = hr_run request, ha_grant = hr_grant request,
            ha_plan = hr_plan request, ha_resources = resources,
            ha_justification_evidence = hr_justification_evidence request,
            ha_authorized_by = pr_id authority,
            ha_authorized_at = env_timestamp_text (bn_env B) authorized\<rparr>)))))))"

section \<open>Execution\<close>

definition dispatch_request_for ::
  "attempt_record \<Rightarrow> commissioned_profile \<Rightarrow> planned_operation \<Rightarrow> artifact_digest \<Rightarrow> evidence_phase
     \<Rightarrow> bool \<Rightarrow> dispatch_request" where
  "dispatch_request_for attempt profile planned challenge phase configure =
     \<lparr>dr_attempt = at_id attempt, dr_operation = po_operation planned,
      dr_deadline_milliseconds = po_max_milliseconds planned,
      dr_expected_target_fingerprint = cp_target_fingerprint profile,
      dr_expected_instrument_fingerprints =
        map (\<lambda>(i, binding). (i, ib_fingerprint binding)) (cp_instruments profile),
      dr_expected_instrument_configurations =
        map (\<lambda>(i, binding). (i, ib_configuration_digest binding)) (cp_instruments profile),
      dr_expected_instrument_physical_identities =
        map (\<lambda>(i, binding). (i, ib_physical_identity binding)) (cp_instruments profile),
      dr_expected_fixture_revision = cp_fixture_revision profile,
      dr_evidence_challenge = challenge, dr_evidence_phase = phase,
      dr_configure_instrument = configure, dr_interlocks_valid_until = None\<rparr>"

definition operation_at :: "reviewed_plan \<Rightarrow> nat \<Rightarrow> supervisor_error + planned_operation" where
  "operation_at plan index =
     (if index < length (rp_operations plan) then Inr (rp_operations plan ! index)
      else Inl (OutOfBounds ''operation index is absent''))"

definition dispatch_for_reconciliation ::
  "attempt_record \<Rightarrow> commissioned_profile \<Rightarrow> reviewed_plan \<Rightarrow> artifact_digest \<Rightarrow> bool
     \<Rightarrow> supervisor_error + dispatch_request" where
  "dispatch_for_reconciliation attempt profile plan challenge configure =
     rbind (operation_at plan (at_operation_index attempt)) (\<lambda>planned.
       Inr (dispatch_request_for attempt profile planned challenge Reconciliation configure))"

definition dispatch_from_snapshot ::
  "env \<Rightarrow> attempt_record \<Rightarrow> grant \<Rightarrow> commissioned_profile \<Rightarrow> reviewed_plan \<Rightarrow> evidence_phase
     \<Rightarrow> supervisor_error + dispatch_request" where
  "dispatch_from_snapshot E attempt g profile plan phase =
     rbind (operation_at plan (at_operation_index attempt)) (\<lambda>planned.
     rbind (authorize E g profile plan planned) (\<lambda>_.
       Inr (dispatch_request_for attempt profile planned (at_evidence_challenge attempt) phase True)))"

definition verify_receipt_evidence ::
  "'d bench \<Rightarrow> attempt_record \<Rightarrow> dispatch_request \<Rightarrow> operation_receipt \<Rightarrow> ('d, operation_receipt) sv" where
  "verify_receipt_evidence B attempt dispatch receipt =
     (let verify = (\<lambda>obs.
        sbind (bound_envelope B (at_id attempt) (dr_evidence_challenge dispatch)
                 (dr_evidence_phase dispatch) obs ''accepted receipt lacks evidence''
                 ''evidence envelope does not bind this receipt'')
          (\<lambda>_. sreturn receipt))
      in case receipt of
           ReceiptCompleted obs \<Rightarrow> verify obs
         | ReceiptPartial obs _ \<Rightarrow> verify obs
         | ReceiptUnknown _ (Some obs) \<Rightarrow> verify obs
         | ReceiptUnknown _ None \<Rightarrow> sreturn receipt
         | ReceiptRejected _ \<Rightarrow> sreturn receipt)"

text \<open>\<open>unwrap_or_else\<close> on the result of a step that may fail.\<close>

definition sv_recover :: "('d, 'a) sv \<Rightarrow> (supervisor_error \<Rightarrow> 'a) \<Rightarrow> ('d, 'a) sv" where
  "sv_recover m handler w =
     (case m w of (Inl e, w') \<Rightarrow> (Inr (handler e), w') | (Inr x, w') \<Rightarrow> (Inr x, w'))"

definition backend_execute :: "'d bench \<Rightarrow> dispatch_request \<Rightarrow> ('d, backend_error + operation_receipt) sv" where
  "backend_execute B dispatch w =
     (case bn_execute B dispatch (w_device w) of (r, d) \<Rightarrow> (Inr r, w\<lparr>w_device := d\<rparr>))"

definition backend_reconcile :: "'d bench \<Rightarrow> dispatch_request \<Rightarrow> ('d, backend_error + operation_receipt) sv" where
  "backend_reconcile B dispatch w =
     (case bn_reconcile B dispatch (w_device w) of (r, d) \<Rightarrow> (Inr r, w\<lparr>w_device := d\<rparr>))"

definition is_completed :: "operation_receipt \<Rightarrow> bool" where
  "is_completed receipt \<longleftrightarrow> (case receipt of ReceiptCompleted _ \<Rightarrow> True | _ \<Rightarrow> False)"

definition is_rejected :: "operation_receipt \<Rightarrow> bool" where
  "is_rejected receipt \<longleftrightarrow> (case receipt of ReceiptRejected _ \<Rightarrow> True | _ \<Rightarrow> False)"

text \<open>Everything checked between the durable claim and the backend.\<close>

definition prepare_dispatch :: "'d bench \<Rightarrow> claimed_dispatch \<Rightarrow> ('d, dispatch_request) sv" where
  "prepare_dispatch B claimed =
     sbind (if at_operation_index (cd_attempt claimed) = 0
            then preflight_plan B (cd_grant claimed) (cd_profile claimed) (cd_plan claimed)
            else sreturn ()) (\<lambda>_.
     sbind (lift_result (dispatch_from_snapshot (bn_env B) (cd_attempt claimed) (cd_grant claimed)
              (cd_profile claimed) (cd_plan claimed) Execution)) (\<lambda>dispatch.
     sbind (check_live_interlocks B (cd_attempt claimed) (cd_profile claimed) (cd_plan claimed)) (\<lambda>expiry.
       sreturn (dispatch\<lparr>dr_interlocks_valid_until := expiry\<rparr>))))"

text \<open>The backend's outcome: a failure is unknown, unbound evidence is unknown, a failed
  postcondition is partial.\<close>

definition run_backend :: "'d bench \<Rightarrow> claimed_dispatch \<Rightarrow> dispatch_request \<Rightarrow> ('d, operation_receipt) sv" where
  "run_backend B claimed dispatch =
     sbind (backend_execute B dispatch) (\<lambda>outcome.
     let receipt = (case outcome of Inr r \<Rightarrow> r
           | Inl e \<Rightarrow> ReceiptUnknown (bn_backend_error_text B e) None) in
     sbind (sv_recover (verify_receipt_evidence B (cd_attempt claimed) dispatch receipt)
              (\<lambda>e. ReceiptUnknown (bn_error_text B e) None)) (\<lambda>verified.
       sreturn (check_postconditions B
         (rp_operations (cd_plan claimed) ! at_operation_index (cd_attempt claimed)) verified)))"

definition execute :: "'d bench \<Rightarrow> principal \<Rightarrow> dispatch_ticket \<Rightarrow> ('d, attempt_record) sv" where
  "execute B agent ticket =
     sbind (lift_result (require_agent agent)) (\<lambda>_.
     sbind (transaction B (\<lambda>clk. claim_dispatch (bn_env B) clk (ticket_attempt ticket) (pr_id agent))) (\<lambda>claimed w.
       (case prepare_dispatch B claimed w of
          (Inl e, w') \<Rightarrow>
            transaction B (\<lambda>clk. record_receipt (bn_env B) clk (at_id (cd_attempt claimed))
              (ReceiptRejected (bn_error_text B e)) True) w'
        | (Inr dispatch, w') \<Rightarrow>
            sbind (run_backend B claimed dispatch) (\<lambda>receipt.
              let release_lease = (is_rejected receipt \<or> (is_completed receipt
                    \<and> at_operation_index (cd_attempt claimed) + 1 = length (rp_operations (cd_plan claimed))))
              in transaction B (\<lambda>clk. record_receipt (bn_env B) clk (at_id (cd_attempt claimed))
                   receipt release_lease)) w')))"

definition execute_next :: "'d bench \<Rightarrow> principal \<Rightarrow> plan_ticket \<Rightarrow> ('d, plan_progress) sv" where
  "execute_next B agent ticket =
     sbind (execute B agent (pt_dispatch ticket)) (\<lambda>attempt.
     if at_state attempt \<noteq> Completed then sreturn \<lparr>pg_attempt = attempt, pg_next = None\<rparr>
     else
       sbind (transaction B (\<lambda>_. advance_run (pt_run ticket) (pt_operation_index ticket))) (\<lambda>_.
       sbind (read_store (\<lambda>s. st_runs s (pt_run ticket))) (\<lambda>found_run.
       sbind (lift_result (ok_or found_run (store_missing ''run'' (request_str (pt_run ticket))))) (\<lambda>run.
       let next_index = pt_operation_index ticket + 1 in
       if next_index = length (ru_steps run) then sreturn \<lparr>pg_attempt = attempt, pg_next = None\<rparr>
       else
         sbind (lift_result (if next_index < length (ru_steps run) then Inr (ru_steps run ! next_index)
                  else Inl (OutOfBounds ''run lacks next step identity''))) (\<lambda>(next_attempt, next_request).
         sbind (submit B agent
                  \<lparr>sr_attempt = next_attempt, sr_request = next_request,
                   sr_grant = pt_grant ticket, sr_plan = pt_plan ticket,
                   sr_operation_index = next_index\<rparr>) (\<lambda>submission.
         sbind (lift_result (ticket_for (pt_run ticket) (pt_grant ticket) (pt_plan ticket) next_index
                  ''next plan step is non-resumable'' submission)) (\<lambda>next_ticket.
           sreturn \<lparr>pg_attempt = attempt, pg_next = Some next_ticket\<rparr>)))))))"

section \<open>Resumption\<close>

fun resume_steps ::
  "'d bench \<Rightarrow> principal \<Rightarrow> plan_run \<Rightarrow> nat \<Rightarrow> (attempt_id \<times> request_id) list \<Rightarrow> ('d, plan_ticket) sv" where
  "resume_steps B agent run index [] = sfail (OutOfBounds ''plan run is complete'')"
| "resume_steps B agent run index ((attempt_id, request_id) # rest) =
     sbind (read_store (\<lambda>s. load_attempt s attempt_id)) (\<lambda>found.
       case found of
         Some attempt \<Rightarrow>
           if at_state attempt = Completed then resume_steps B agent run (Suc index) rest
           else if at_state attempt = Intent
           then sreturn (first_ticket (ru_id run) (ru_grant run) (ru_plan run) (at_id attempt) index)
           else sfail (OutOfBounds ''plan is held by an unresolved step'')
       | None \<Rightarrow>
           sbind (submit B agent
                    \<lparr>sr_attempt = attempt_id, sr_request = request_id, sr_grant = ru_grant run,
                     sr_plan = ru_plan run, sr_operation_index = index\<rparr>) (\<lambda>submission.
             lift_result (ticket_for (ru_id run) (ru_grant run) (ru_plan run) index
               ''durable run step is non-resumable'' submission)))"

definition resume_plan :: "'d bench \<Rightarrow> principal \<Rightarrow> request_id \<Rightarrow> ('d, plan_ticket) sv" where
  "resume_plan B agent run_id =
     sbind (lift_result (require_agent agent)) (\<lambda>_.
     sbind (transaction B (\<lambda>_. repair_run_cursor run_id)) (\<lambda>run.
     if ru_agent run \<noteq> pr_id agent then sfail GrantPrincipal
     else
       sbind (read_store (\<lambda>s. load_halted_run_abandonment_by_run s (ru_id run) \<noteq> None
                \<or> recovery_source_retired s (ru_grant run) (ru_plan run))) (\<lambda>closed.
       if closed
       then sfail (OutOfBounds ''plan run was closed by abandonment or recovery takeover'')
       else resume_steps B agent run 0 (ru_steps run))))"

definition resume :: "'d bench \<Rightarrow> principal \<Rightarrow> request_id \<Rightarrow> ('d, attempt_record) sv" where
  "resume B agent request =
     sbind (lift_result (require_agent agent)) (\<lambda>_.
     sbind (read_store (\<lambda>s. load_attempt_by_request s request)) (\<lambda>found.
     sbind (lift_result (ok_or found (store_missing ''request'' (request_str request)))) (\<lambda>attempt.
     if at_state attempt \<noteq> Intent
     then sfail (OutOfBounds ''only an undispatched durable intent can resume'')
     else execute B agent (DispatchTicket (at_id attempt)))))"

fun execute_plan ::
  "'d bench \<Rightarrow> principal \<Rightarrow> submit_request list \<Rightarrow> ('d, attempt_record list) sv" where
  "execute_plan B agent [] = sreturn []"
| "execute_plan B agent (request # rest) =
     sbind (submit B agent request) (\<lambda>submission.
       case submission of
         SubAdmitted ticket \<Rightarrow>
           sbind (execute B agent ticket) (\<lambda>attempt.
             if at_state attempt \<noteq> Completed then sreturn [attempt]
             else sbind (execute_plan B agent rest) (\<lambda>attempts. sreturn (attempt # attempts)))
       | SubExisting attempt \<Rightarrow>
           if at_state attempt = Completed
           then sbind (execute_plan B agent rest) (\<lambda>attempts. sreturn (attempt # attempts))
           else sfail (OutOfBounds ''plan has a durable non-completed step''))"

section \<open>Reconciliation\<close>

text \<open>Close the claim as failed, then report the error that ended it.\<close>

definition fail_reconciliation ::
  "'d bench \<Rightarrow> request_id \<Rightarrow> supervisor_error \<Rightarrow> ('d, attempt_record) sv" where
  "fail_reconciliation B request e =
     sbind (transaction B (\<lambda>clk. finish_reconciliation (bn_env B) clk request None False False))
       (\<lambda>_. sfail e)"

definition prepare_reconciliation :: "claimed_reconciliation \<Rightarrow> bool \<Rightarrow> supervisor_error + dispatch_request" where
  "prepare_reconciliation claimed configure =
     rbind (dispatch_for_reconciliation (cd_attempt (cl_dispatch claimed))
              (cd_profile (cl_dispatch claimed)) (cd_plan (cl_dispatch claimed))
              (rc_challenge (cl_record claimed)) configure) (\<lambda>dispatch.
       if configure \<and> list_ex (\<lambda>interlock. InstrumentConfigure \<in> li_effects interlock)
            (cp_live_interlocks (cd_profile (cl_dispatch claimed)))
       then Inl (OutOfBounds (''interlocked configuration requires a reviewed recovery plan '' @
              ''with a fresh observation after the uncertain effect''))
       else Inr dispatch)"

definition lacks_fresh_evidence :: "operation_receipt \<Rightarrow> bool" where
  "lacks_fresh_evidence receipt \<longleftrightarrow>
     (case receipt of ReceiptUnknown _ None \<Rightarrow> True | ReceiptRejected _ \<Rightarrow> True | _ \<Rightarrow> False)"

definition settle_reconciliation ::
  "'d bench \<Rightarrow> request_id \<Rightarrow> planned_operation \<Rightarrow> claimed_reconciliation \<Rightarrow> dispatch_request
     \<Rightarrow> ('d, attempt_record) sv" where
  "settle_reconciliation B request planned claimed dispatch =
     sbind (backend_reconcile B dispatch) (\<lambda>outcome.
       case outcome of
         Inl e \<Rightarrow> fail_reconciliation B request (SvBackend e)
       | Inr receipt \<Rightarrow>
           if lacks_fresh_evidence receipt
           then fail_reconciliation B request
                  (OutOfBounds ''reconciliation outcome lacks fresh evidence'')
           else (\<lambda>w.
             case verify_receipt_evidence B (cd_attempt (cl_dispatch claimed)) dispatch receipt w of
               (Inl e, w') \<Rightarrow> fail_reconciliation B request e w'
             | (Inr verified, w') \<Rightarrow>
                 (let final = check_postconditions B planned verified in
                  transaction B (\<lambda>clk. finish_reconciliation (bn_env B) clk request (Some final)
                    (is_completed final)
                    (is_completed final \<and> at_operation_index (cd_attempt (cl_dispatch claimed)) + 1
                       = length (rp_operations (cd_plan (cl_dispatch claimed))))) w')))"

definition reconcile ::
  "'d bench \<Rightarrow> principal \<Rightarrow> attempt_id \<Rightarrow> request_id \<Rightarrow> ('d, attempt_record) sv" where
  "reconcile B agent attempt_id request_id =
     sbind (lift_result (require_agent agent)) (\<lambda>_.
     sbind (read_store (\<lambda>s. load_attempt s attempt_id)) (\<lambda>found_attempt.
     sbind (lift_result (ok_or found_attempt (store_missing ''attempt'' (attempt_str attempt_id)))) (\<lambda>attempt.
     sbind (read_store (\<lambda>s. st_grants s (at_grant attempt))) (\<lambda>found_grant.
     sbind (lift_result (ok_or found_grant (store_missing ''grant'' (grant_str (at_grant attempt))))) (\<lambda>g.
     if pr_id agent \<noteq> gr_agent g then sfail GrantPrincipal
     else if at_state attempt \<notin> {Unknown, Partial} then
       sbind (read_store (\<lambda>s. list_ex (\<lambda>r. rc_request r = request_id)
                (reconciliation_history s attempt_id))) (\<lambda>known.
         if known then sreturn attempt else sfail NotUnknown)
     else
       sbind (read_store (\<lambda>s. st_plans s (at_plan attempt))) (\<lambda>found_plan.
       sbind (lift_result (ok_or found_plan (store_missing ''plan'' (plan_str (at_plan attempt))))) (\<lambda>plan.
       sbind (lift_result (operation_at plan (at_operation_index attempt))) (\<lambda>planned.
       let configure = (rp_reconciliation_setup plan = ApplyReviewedInstrumentConfiguration);
           configuration_budget = (if configure
             then Some \<lparr>bud_effects = 1, bud_bytes = 0, bud_milliseconds = po_max_milliseconds planned\<rparr>
             else None) in
       sbind (transaction B (\<lambda>clk. claim_reconciliation (bn_env B) clk attempt_id request_id (pr_id agent)
                configuration_budget)) (\<lambda>claim.
       case claim of
         ClaimExisting _ \<Rightarrow>
           sbind (read_store (\<lambda>s. load_attempt s attempt_id)) (\<lambda>current.
             lift_result (ok_or current (store_missing ''attempt'' (attempt_str attempt_id))))
       | ClaimClaimed claimed \<Rightarrow>
           (case prepare_reconciliation claimed configure of
              Inl e \<Rightarrow> fail_reconciliation B request_id e
            | Inr dispatch \<Rightarrow> settle_reconciliation B request_id planned claimed dispatch))))))))))"

end
