(* ===== verification/Store_Invariants.thy ===== *)
theory Store_Invariants
  imports Store
begin

text \<open>
  What a journal promises at rest and how it may change. \<open>wf_store\<close> collects the
  invariants of the tables: keys are unique, the attempts of a run are contiguous and only
  the last one is open, an open attempt of a pair that still has authority holds all its
  leases, a lease has one owner which is neither retired nor halted, and a claimed
  reconciliation belongs to an uncertain attempt. \<open>evolves\<close> is the order in which one
  journal may follow another: nothing is deleted, states and cursors only advance,
  budgets only shrink. The lemmas here are about the writes that operations share.
\<close>

section \<open>Well-formed journals\<close>

abbreviation pair_of :: "attempt_record \<Rightarrow> grant_id \<times> plan_id" where
  "pair_of a \<equiv> (at_grant a, at_plan a)"

fun resolved :: "attempt_state \<Rightarrow> bool" where
  "resolved Completed = True"
| "resolved Rejected = True"
| "resolved _ = False"

definition retired_pairs :: "store \<Rightarrow> (grant_id \<times> plan_id) set" where
  "retired_pairs s = (\<lambda>(g, p, _). (g, p)) ` set (st_retirements s)"

definition halted_pairs :: "store \<Rightarrow> (grant_id \<times> plan_id) set" where
  "halted_pairs s = (\<lambda>r. (ha_grant r, ha_plan r)) ` set (st_abandonments s)"

definition resource_keys :: "attempt_record \<Rightarrow> string set" where
  "resource_keys a = resource_key ` set (at_leased_resources a)"

definition steps_wf :: "attempt_record list \<Rightarrow> bool" where
  "steps_wf As \<longleftrightarrow>
     distinct (map at_id As) \<and> distinct (map at_request As)
     \<and> distinct (map (\<lambda>a. (pair_of a, at_operation_index a)) As)
     \<and> (\<forall>a\<in>set As. \<forall>i. at_operation_index a = Suc i \<longrightarrow>
          (\<exists>b\<in>set As. pair_of b = pair_of a \<and> at_operation_index b = i \<and> at_state b = Completed))
     \<and> (\<forall>a\<in>set As. \<forall>b\<in>set As. pair_of a = pair_of b \<longrightarrow>
          at_leased_resources a = at_leased_resources b)
     \<and> (\<forall>a\<in>set As. at_state a \<in> {Intent, Dispatched} \<longrightarrow> at_receipt a = None)"

definition leases_wf ::
  "attempt_record list \<Rightarrow> (string \<times> grant_id \<times> plan_id) list \<Rightarrow> (grant_id \<times> plan_id) set
     \<Rightarrow> (grant_id \<times> plan_id) set \<Rightarrow> bool" where
  "leases_wf As Ls retired halted \<longleftrightarrow>
     distinct (map fst Ls)
     \<and> (\<forall>a\<in>set As. \<not> resolved (at_state a) \<longrightarrow> pair_of a \<notin> retired \<longrightarrow>
          (\<forall>k\<in>resource_keys a. map_of Ls k = Some (pair_of a)))
     \<and> (\<forall>k q. map_of Ls k = Some q \<longrightarrow>
          q \<notin> retired \<and> q \<notin> halted \<and> (\<exists>a\<in>set As. pair_of a = q \<and> k \<in> resource_keys a))
     \<and> (\<forall>a\<in>set As. at_state a = Dispatched \<longrightarrow> pair_of a \<notin> retired)
     \<and> (\<forall>a\<in>set As. pair_of a \<in> halted \<longrightarrow> resolved (at_state a))"

definition recon_wf :: "attempt_record list \<Rightarrow> reconciliation_record list \<Rightarrow> bool" where
  "recon_wf As Rs \<longleftrightarrow>
     distinct (map rc_request Rs)
     \<and> (\<forall>i. map rc_ordinal (filter (\<lambda>r. rc_attempt r = i) Rs)
             = [0..<length (filter (\<lambda>r. rc_attempt r = i) Rs)])
     \<and> (\<forall>r\<in>set Rs. rc_state r = Claimed \<longrightarrow>
          (\<exists>a\<in>set As. at_id a = rc_attempt r \<and> at_state a = Unknown))
     \<and> (\<forall>q\<in>set Rs. \<forall>r\<in>set Rs. rc_state q = Claimed \<longrightarrow> rc_state r = Claimed \<longrightarrow>
          rc_attempt q = rc_attempt r \<longrightarrow> q = r)"

definition wf_store :: "store \<Rightarrow> bool" where
  "wf_store s \<longleftrightarrow>
     steps_wf (st_attempts s)
     \<and> leases_wf (st_attempts s) (st_leases s) (retired_pairs s) (halted_pairs s)
     \<and> recon_wf (st_attempts s) (st_reconciliations s)
     \<and> (\<forall>i g. st_grants s i = Some g \<longrightarrow> gr_id g = i)"

section \<open>How a journal may change\<close>

fun may_evolve :: "attempt_state \<Rightarrow> attempt_state \<Rightarrow> bool" where
  "may_evolve Intent _ = True"
| "may_evolve Dispatched st = (st \<noteq> Intent)"
| "may_evolve Partial st = (st \<in> {Partial, Unknown, Completed})"
| "may_evolve Unknown st = (st \<in> {Unknown, Completed})"
| "may_evolve Completed st = (st = Completed)"
| "may_evolve Rejected st = (st = Rejected)"

definition same_identity :: "attempt_record \<Rightarrow> attempt_record \<Rightarrow> bool" where
  "same_identity a b \<longleftrightarrow>
     at_id a = at_id b \<and> at_request a = at_request b \<and> at_grant a = at_grant b
     \<and> at_plan a = at_plan b \<and> at_operation_index a = at_operation_index b
     \<and> at_plan_digest a = at_plan_digest b \<and> at_reserved a = at_reserved b
     \<and> at_profile a = at_profile b \<and> at_profile_digest a = at_profile_digest b
     \<and> at_leased_resources a = at_leased_resources b \<and> at_created_at a = at_created_at b"

definition attempt_evolves :: "attempt_record \<Rightarrow> attempt_record \<Rightarrow> bool" where
  "attempt_evolves a b \<longleftrightarrow>
     same_identity a b \<and> may_evolve (at_state a) (at_state b)
     \<and> unat (at_evidence_ordinal a) \<le> unat (at_evidence_ordinal b)
     \<and> (\<forall>r. at_receipt a = Some r \<longrightarrow> at_receipt b = Some r)"

definition recon_evolves :: "reconciliation_record \<Rightarrow> reconciliation_record \<Rightarrow> bool" where
  "recon_evolves q r \<longleftrightarrow>
     rc_request q = rc_request r \<and> rc_attempt q = rc_attempt r \<and> rc_ordinal q = rc_ordinal r
     \<and> rc_challenge q = rc_challenge r \<and> rc_principal q = rc_principal r
     \<and> rc_started_at q = rc_started_at r \<and> (rc_state q \<noteq> Claimed \<longrightarrow> r = q)"

definition grant_shrinks :: "grant \<Rightarrow> grant \<Rightarrow> bool" where
  "grant_shrinks g h \<longleftrightarrow>
     fits_within (gr_remaining h) (gr_remaining g) \<and> (gr_revoked g \<longrightarrow> gr_revoked h)
     \<and> h\<lparr>gr_remaining := gr_remaining g, gr_revoked := gr_revoked g\<rparr> = g"

definition run_advances :: "plan_run \<Rightarrow> plan_run \<Rightarrow> bool" where
  "run_advances r r' \<longleftrightarrow> ru_cursor r \<le> ru_cursor r' \<and> r'\<lparr>ru_cursor := ru_cursor r\<rparr> = r"

definition rows_evolve :: "('r \<Rightarrow> 'r \<Rightarrow> bool) \<Rightarrow> 'r list \<Rightarrow> 'r list \<Rightarrow> bool" where
  "rows_evolve R xs ys \<longleftrightarrow> length xs \<le> length ys \<and> (\<forall>i<length xs. R (xs ! i) (ys ! i))"

definition maps_evolve :: "('v \<Rightarrow> 'v \<Rightarrow> bool) \<Rightarrow> ('k \<rightharpoonup> 'v) \<Rightarrow> ('k \<rightharpoonup> 'v) \<Rightarrow> bool" where
  "maps_evolve R m n \<longleftrightarrow> (\<forall>k v. m k = Some v \<longrightarrow> (\<exists>w. n k = Some w \<and> R v w))"

definition evolves :: "store \<Rightarrow> store \<Rightarrow> bool" where
  "evolves s t \<longleftrightarrow>
     rows_evolve attempt_evolves (st_attempts s) (st_attempts t)
     \<and> rows_evolve recon_evolves (st_reconciliations s) (st_reconciliations t)
     \<and> rows_evolve (=) (st_takeovers s) (st_takeovers t)
     \<and> rows_evolve (=) (st_retirements s) (st_retirements t)
     \<and> rows_evolve (=) (st_abandonments s) (st_abandonments t)
     \<and> rows_evolve (=) (st_case_facts s) (st_case_facts t)
     \<and> maps_evolve (=) (st_profiles s) (st_profiles t)
     \<and> maps_evolve grant_shrinks (st_grants s) (st_grants t)
     \<and> maps_evolve (=) (st_plans s) (st_plans t)
     \<and> maps_evolve run_advances (st_runs s) (st_runs t)"

section \<open>Orders\<close>

lemma rows_evolve_refl: "(\<And>x. R x x) \<Longrightarrow> rows_evolve R xs xs"
  by (simp add: rows_evolve_def)

lemma rows_evolve_trans:
  "(\<And>x y z. R x y \<Longrightarrow> R y z \<Longrightarrow> R x z) \<Longrightarrow> rows_evolve R xs ys \<Longrightarrow> rows_evolve R ys zs
     \<Longrightarrow> rows_evolve R xs zs"
  unfolding rows_evolve_def by (meson dual_order.trans less_le_trans)

lemma rows_evolve_append: "(\<And>x. R x x) \<Longrightarrow> rows_evolve R xs (xs @ ys)"
  by (simp add: rows_evolve_def nth_append)

lemma rows_evolve_map: "(\<And>x. x \<in> set xs \<Longrightarrow> R x (f x)) \<Longrightarrow> rows_evolve R xs (map f xs)"
  by (simp add: rows_evolve_def)

lemma rows_evolve_set_row:
  assumes "\<And>x. R x x" "\<And>x. x \<in> set xs \<Longrightarrow> key x = key r \<Longrightarrow> R x r"
  shows "rows_evolve R xs (set_row key r xs)"
  unfolding set_row_def using assms by (intro rows_evolve_map) auto

lemma rows_evolve_member: "rows_evolve R xs ys \<Longrightarrow> x \<in> set xs \<Longrightarrow> \<exists>y\<in>set ys. R x y"
  unfolding rows_evolve_def by (metis in_set_conv_nth less_le_trans)

lemma maps_evolve_refl: "(\<And>x. R x x) \<Longrightarrow> maps_evolve R m m"
  by (simp add: maps_evolve_def)

lemma maps_evolve_trans:
  "(\<And>x y z. R x y \<Longrightarrow> R y z \<Longrightarrow> R x z) \<Longrightarrow> maps_evolve R m n \<Longrightarrow> maps_evolve R n k
     \<Longrightarrow> maps_evolve R m k"
  unfolding maps_evolve_def by blast

lemma maps_evolve_upd:
  "(\<And>x. R x x) \<Longrightarrow> (\<And>v. m k = Some v \<Longrightarrow> R v w) \<Longrightarrow> maps_evolve R m (m(k \<mapsto> w))"
  by (simp add: maps_evolve_def)

lemma may_evolve_refl [simp]: "may_evolve st st"
  by (cases st) simp_all

lemma may_evolve_trans: "may_evolve a b \<Longrightarrow> may_evolve b c \<Longrightarrow> may_evolve a c"
  by (cases a; cases b; cases c) simp_all

lemma may_evolve_resolved: "may_evolve a b \<Longrightarrow> resolved a \<Longrightarrow> b = a"
  by (cases a) simp_all

lemma may_evolve_antisym: "may_evolve a b \<Longrightarrow> may_evolve b a \<Longrightarrow> a = b"
  by (cases a; cases b) simp_all

lemma same_identity_refl [simp]: "same_identity a a"
  by (simp add: same_identity_def)

lemma attempt_evolves_refl: "attempt_evolves a a"
  by (simp add: attempt_evolves_def)

lemma attempt_evolves_trans: "attempt_evolves a b \<Longrightarrow> attempt_evolves b c \<Longrightarrow> attempt_evolves a c"
  unfolding attempt_evolves_def same_identity_def by (auto intro: may_evolve_trans)

lemma recon_evolves_refl: "recon_evolves r r"
  by (simp add: recon_evolves_def)

lemma recon_evolves_trans: "recon_evolves a b \<Longrightarrow> recon_evolves b c \<Longrightarrow> recon_evolves a c"
  unfolding recon_evolves_def by force

lemma grant_shrinks_refl: "grant_shrinks g g"
  by (simp add: grant_shrinks_def fits_within_def)

lemma grant_shrinks_trans: "grant_shrinks a b \<Longrightarrow> grant_shrinks b c \<Longrightarrow> grant_shrinks a c"
  unfolding grant_shrinks_def fits_within_def by (cases a; cases b; cases c) auto

lemma run_advances_refl: "run_advances r r"
  by (simp add: run_advances_def)

lemma run_advances_trans: "run_advances a b \<Longrightarrow> run_advances b c \<Longrightarrow> run_advances a c"
  unfolding run_advances_def by (cases a; cases b; cases c) auto

lemmas row_orders = attempt_evolves_refl recon_evolves_refl grant_shrinks_refl run_advances_refl

lemma evolves_refl: "evolves s s"
  unfolding evolves_def by (intro conjI rows_evolve_refl maps_evolve_refl row_orders refl)

lemma row_transitivity:
  "rows_evolve attempt_evolves x y \<Longrightarrow> rows_evolve attempt_evolves y z \<Longrightarrow> rows_evolve attempt_evolves x z"
  "rows_evolve recon_evolves q r \<Longrightarrow> rows_evolve recon_evolves r t \<Longrightarrow> rows_evolve recon_evolves q t"
  "maps_evolve grant_shrinks g h \<Longrightarrow> maps_evolve grant_shrinks h k \<Longrightarrow> maps_evolve grant_shrinks g k"
  "maps_evolve run_advances l m \<Longrightarrow> maps_evolve run_advances m n \<Longrightarrow> maps_evolve run_advances l n"
  by (rule rows_evolve_trans maps_evolve_trans;
      (assumption | erule (1) attempt_evolves_trans recon_evolves_trans grant_shrinks_trans
        run_advances_trans))+

lemma eq_transitivity:
  "rows_evolve (=) u v \<Longrightarrow> rows_evolve (=) v w \<Longrightarrow> rows_evolve (=) u w"
  "maps_evolve (=) f m \<Longrightarrow> maps_evolve (=) m n \<Longrightarrow> maps_evolve (=) f n"
  by (auto simp: rows_evolve_def maps_evolve_def)

lemma evolves_trans: "evolves r s \<Longrightarrow> evolves s t \<Longrightarrow> evolves r t"
  unfolding evolves_def by (elim conjE, intro conjI) (erule (1) row_transitivity eq_transitivity)+

section \<open>Facts about steps and leases\<close>

lemma retired_pairs_iff: "(g, p) \<in> retired_pairs s \<longleftrightarrow> recovery_source_retired s g p"
  by (force simp: retired_pairs_def recovery_source_retired_def list_ex_iff)

lemma halted_pairs_iff: "(g, p) \<in> halted_pairs s \<longleftrightarrow> halted_pair_exists s g p"
  by (force simp: halted_pairs_def halted_pair_exists_def list_ex_iff)

text \<open>Below an attempt of a run every earlier step is complete, so an attempt that is not
  complete is the last of its run.\<close>

lemma steps_below_completed:
  assumes "steps_wf As" "a \<in> set As" "n < at_operation_index a"
  shows "\<exists>b\<in>set As. pair_of b = pair_of a \<and> at_operation_index b = n \<and> at_state b = Completed"
  using assms(2,3)
proof (induction "at_operation_index a" arbitrary: a)
  case 0
  then show ?case by simp
next
  case (Suc i)
  from Suc.hyps(2) Suc.prems(1) assms(1) obtain b where
    b: "b \<in> set As" "pair_of b = pair_of a" "at_operation_index b = i" "at_state b = Completed"
    unfolding steps_wf_def by metis
  show ?case
  proof (cases "n = i")
    case True
    with b show ?thesis by blast
  next
    case False
    with Suc.prems(2) Suc.hyps(2) have "n < i" by simp
    with Suc.hyps(1) [of b] b show ?thesis by force
  qed
qed

lemma steps_unique:
  assumes "steps_wf As" "a \<in> set As" "b \<in> set As" "pair_of a = pair_of b"
    "at_operation_index a = at_operation_index b"
  shows "a = b"
proof -
  have "distinct (map (\<lambda>a. (pair_of a, at_operation_index a)) As)"
    using assms(1) by (simp add: steps_wf_def)
  then have "inj_on (\<lambda>a. (pair_of a, at_operation_index a)) (set As)"
    by (simp add: distinct_map)
  then show ?thesis
    by (rule inj_onD) (use assms in simp_all)
qed

lemma open_step_is_last:
  assumes "steps_wf As" "a \<in> set As" "b \<in> set As" "pair_of a = pair_of b"
    "at_state a \<noteq> Completed"
  shows "b = a \<or> (at_operation_index b < at_operation_index a \<and> at_state b = Completed)"
proof (cases "at_operation_index a" "at_operation_index b" rule: linorder_cases)
  case less
  from steps_below_completed [OF assms(1,3) less] obtain c where
    "c \<in> set As" "pair_of c = pair_of b" "at_operation_index c = at_operation_index a"
    "at_state c = Completed" by blast
  with steps_unique [OF assms(1,2)] assms(4,5) show ?thesis by metis
next
  case equal
  with steps_unique [OF assms(1-4)] show ?thesis by simp
next
  case greater
  from steps_below_completed [OF assms(1,2) greater] obtain c where
    "c \<in> set As" "pair_of c = pair_of a" "at_operation_index c = at_operation_index b"
    "at_state c = Completed" by blast
  with steps_unique [OF assms(1,3)] assms(4) greater show ?thesis by metis
qed

lemma open_attempt_resolved_pair:
  assumes "steps_wf As" "a \<in> set As" "b \<in> set As" "pair_of a = pair_of b"
    "at_state a \<noteq> Completed" "b \<noteq> a"
  shows "resolved (at_state b)"
  using open_step_is_last [OF assms(1-5)] assms(6) by auto

end
