(* ===== verification/Store_Writes.thy ===== *)
theory Store_Writes
  imports Store_Invariants
begin

text \<open>
  The writes that operations of the journal share: updating one attempt or one
  reconciliation, taking, moving and dropping leases. For each the effect on the tables
  is computed once and each invariant of \<open>wf_store\<close> is shown to survive it under the
  condition that the operations establish.
\<close>

section \<open>Reading and updating an attempt\<close>

lemma load_attempt_iff:
  "steps_wf (st_attempts s) \<Longrightarrow>
     load_attempt s i = Some a \<longleftrightarrow> a \<in> set (st_attempts s) \<and> at_id a = i"
  unfolding load_attempt_def steps_wf_def by (simp add: row_at_unique)

lemma distinct_map_eq:
  "distinct (map f xs) \<Longrightarrow> x \<in> set xs \<Longrightarrow> y \<in> set xs \<Longrightarrow> f x = f y \<Longrightarrow> x = y"
  by (simp add: distinct_map inj_on_def)

lemma steps_same_id:
  "steps_wf As \<Longrightarrow> a \<in> set As \<Longrightarrow> b \<in> set As \<Longrightarrow> at_id a = at_id b \<Longrightarrow> a = b"
  unfolding steps_wf_def by (elim conjE) (rule distinct_map_eq)

lemma steps_same_request:
  "steps_wf As \<Longrightarrow> a \<in> set As \<Longrightarrow> b \<in> set As \<Longrightarrow> at_request a = at_request b \<Longrightarrow> a = b"
  unfolding steps_wf_def by (elim conjE) (rule distinct_map_eq)

lemma steps_same_leases:
  "steps_wf As \<Longrightarrow> a \<in> set As \<Longrightarrow> b \<in> set As \<Longrightarrow> pair_of a = pair_of b
     \<Longrightarrow> at_leased_resources a = at_leased_resources b"
  unfolding steps_wf_def by blast

lemma steps_receipt:
  "steps_wf As \<Longrightarrow> a \<in> set As \<Longrightarrow> at_state a \<in> {Intent, Dispatched} \<Longrightarrow> at_receipt a = None"
  unfolding steps_wf_def by blast

lemma map_set_row:
  "(\<And>x. x \<in> set rows \<Longrightarrow> key x = key r \<Longrightarrow> f x = f r) \<Longrightarrow> map f (set_row key r rows) = map f rows"
  by (simp add: set_row_def)

lemma set_row_attempt:
  assumes "steps_wf As" "a \<in> set As" "same_identity a a'"
  shows "set (set_row at_id a' As) = insert a' (set As - {a})"
proof -
  have "at_id x = at_id a' \<longleftrightarrow> x = a" if "x \<in> set As" for x
  proof -
    have "at_id a = at_id a'" using assms(3) by (simp add: same_identity_def)
    then show ?thesis using steps_same_id [OF assms(1) that assms(2)] by auto
  qed
  with assms(2) show ?thesis
    by (auto simp: set_row_def)
qed

lemma map_set_row_identity:
  assumes "steps_wf As" "a \<in> set As" "same_identity a a'"
    and "\<And>x. f x = g (at_id x, at_request x, pair_of x, at_operation_index x)"
  shows "map f (set_row at_id a' As) = map f As"
proof (rule map_set_row)
  fix x assume x: "x \<in> set As" "at_id x = at_id a'"
  then have "x = a"
    using steps_same_id [OF assms(1) x(1) assms(2)] assms(3) by (simp add: same_identity_def)
  with assms(3,4) show "f x = f a'" by (simp add: same_identity_def)
qed

lemma steps_wf_update:
  assumes "steps_wf As" "a \<in> set As" "same_identity a a'"
    and "at_state a = Completed \<Longrightarrow> at_state a' = Completed"
    and "at_state a' \<in> {Intent, Dispatched} \<Longrightarrow> at_receipt a' = None"
  shows "steps_wf (set_row at_id a' As)"
proof -
  let ?B = "set_row at_id a' As"
  note set_B = set_row_attempt [OF assms(1-3)]
  have ident: "pair_of a' = pair_of a" "at_operation_index a' = at_operation_index a"
      "at_leased_resources a' = at_leased_resources a"
    using assms(3) by (simp_all add: same_identity_def)
  have old: "\<exists>y\<in>set As. pair_of x = pair_of y \<and> at_operation_index x = at_operation_index y
      \<and> at_leased_resources x = at_leased_resources y" if "x \<in> set ?B" for x
    using that assms(2) ident unfolding set_B by auto
  have new: "\<exists>x\<in>set ?B. pair_of x = pair_of y \<and> at_operation_index x = at_operation_index y
      \<and> at_state x = Completed" if "y \<in> set As" "at_state y = Completed" for y
    using that assms(4) ident unfolding set_B by (cases "y = a") auto
  have dist: "distinct (map at_id ?B)" "distinct (map at_request ?B)"
      "distinct (map (\<lambda>a. (pair_of a, at_operation_index a)) ?B)"
    using assms(1) map_set_row_identity [OF assms(1-3), of at_id "fst"]
      map_set_row_identity [OF assms(1-3), of at_request "\<lambda>(_, r, _). r"]
      map_set_row_identity [OF assms(1-3), of "\<lambda>a. (pair_of a, at_operation_index a)" "\<lambda>(_, _, p). p"]
    by (simp_all add: steps_wf_def)
  have contig: "\<exists>b\<in>set ?B. pair_of b = pair_of x \<and> at_operation_index b = i \<and> at_state b = Completed"
    if "x \<in> set ?B" "at_operation_index x = Suc i" for x i
  proof -
    from old [OF that(1)] that(2) obtain y where y: "y \<in> set As" "pair_of x = pair_of y"
      "at_operation_index y = Suc i" by auto
    from steps_below_completed [OF assms(1) y(1), of i] y(3) obtain b where
      b: "b \<in> set As" "pair_of b = pair_of y" "at_operation_index b = i" "at_state b = Completed"
      by auto
    from new [OF b(1,4)] b(2,3) y(2) show ?thesis by auto
  qed
  have leased: "at_leased_resources x = at_leased_resources y"
    if xy: "x \<in> set ?B" "y \<in> set ?B" "pair_of x = pair_of y" for x y
  proof -
    from old [OF xy(1)] obtain u where u: "u \<in> set As" "pair_of x = pair_of u"
      "at_leased_resources x = at_leased_resources u" by blast
    from old [OF xy(2)] obtain v where v: "v \<in> set As" "pair_of y = pair_of v"
      "at_leased_resources y = at_leased_resources v" by blast
    have "pair_of u = pair_of v" using u v xy(3) by simp
    with steps_same_leases [OF assms(1) u(1) v(1)] u v show ?thesis by simp
  qed
  have receipt: "at_receipt x = None" if "x \<in> set ?B" "at_state x \<in> {Intent, Dispatched}" for x
    using that assms(1,5) unfolding set_B steps_wf_def by auto
  show ?thesis
    unfolding steps_wf_def using dist contig leased receipt by blast
qed

lemma leases_wf_update:
  assumes "steps_wf As" "a \<in> set As" "same_identity a a'" "leases_wf As Ls R H"
    and "resolved (at_state a) \<Longrightarrow> resolved (at_state a')"
    and "at_state a' = Dispatched \<Longrightarrow> pair_of a \<notin> R"
  shows "leases_wf (set_row at_id a' As) Ls R H"
proof -
  have ident: "pair_of a' = pair_of a" "resource_keys a' = resource_keys a"
    using assms(3) by (simp_all add: same_identity_def resource_keys_def)
  have own: "\<exists>b\<in>insert a' (set As - {a}). pair_of b = q \<and> k \<in> resource_keys b"
    if "\<exists>b\<in>set As. pair_of b = q \<and> k \<in> resource_keys b" for k q
    using that ident by (metis Diff_iff insertCI insertE empty_iff)
  show ?thesis
    unfolding leases_wf_def set_row_attempt [OF assms(1-3)]
  proof (intro conjI)
    show "\<forall>x\<in>insert a' (set As - {a}). \<not> resolved (at_state x) \<longrightarrow> pair_of x \<notin> R \<longrightarrow>
        (\<forall>k\<in>resource_keys x. map_of Ls k = Some (pair_of x))"
      using assms(2,4,5) ident unfolding leases_wf_def by (metis Diff_iff insert_iff)
    show "\<forall>k q. map_of Ls k = Some q \<longrightarrow>
        q \<notin> R \<and> q \<notin> H \<and> (\<exists>b\<in>insert a' (set As - {a}). pair_of b = q \<and> k \<in> resource_keys b)"
      using assms(4) own unfolding leases_wf_def by blast
    show "\<forall>x\<in>insert a' (set As - {a}). at_state x = Dispatched \<longrightarrow> pair_of x \<notin> R"
      using assms(4,6) ident unfolding leases_wf_def by auto
    show "\<forall>x\<in>insert a' (set As - {a}). pair_of x \<in> H \<longrightarrow> resolved (at_state x)"
      using assms(2,4,5) ident unfolding leases_wf_def by (metis Diff_iff insert_iff)
  qed (use assms(4) in \<open>simp add: leases_wf_def\<close>)
qed

lemma recon_wf_update:
  assumes "steps_wf As" "a \<in> set As" "same_identity a a'" "recon_wf As Rs"
    and "at_state a = Unknown \<Longrightarrow> at_state a' = Unknown
           \<or> (\<forall>r\<in>set Rs. rc_attempt r = at_id a \<longrightarrow> rc_state r \<noteq> Claimed)"
  shows "recon_wf (set_row at_id a' As) Rs"
proof -
  have "\<exists>x\<in>insert a' (set As - {a}). at_id x = rc_attempt r \<and> at_state x = Unknown"
    if r: "r \<in> set Rs" "rc_state r = Claimed" for r
  proof -
    from r assms(4) obtain x where x: "x \<in> set As" "at_id x = rc_attempt r" "at_state x = Unknown"
      unfolding recon_wf_def by blast
    with assms(3,5) r show ?thesis
      by (cases "x = a") (auto simp: same_identity_def)
  qed
  with assms(4) show ?thesis
    unfolding recon_wf_def set_row_attempt [OF assms(1-3)] by blast
qed

lemma update_attempt_simps [simp]:
  "st_attempts (update_attempt a s) = set_row at_id a (st_attempts s)"
  "st_leases (update_attempt a s) = st_leases s"
  "st_reconciliations (update_attempt a s) = st_reconciliations s"
  "st_grants (update_attempt a s) = st_grants s"
  "st_retirements (update_attempt a s) = st_retirements s"
  "st_abandonments (update_attempt a s) = st_abandonments s"
  "st_takeovers (update_attempt a s) = st_takeovers s"
  "st_profiles (update_attempt a s) = st_profiles s"
  "st_plans (update_attempt a s) = st_plans s"
  "st_runs (update_attempt a s) = st_runs s"
  "st_case_facts (update_attempt a s) = st_case_facts s"
  "retired_pairs (update_attempt a s) = retired_pairs s"
  "halted_pairs (update_attempt a s) = halted_pairs s"
  by (simp_all add: update_attempt_def retired_pairs_def halted_pairs_def)

text \<open>The one lemma behind every change of state of an attempt.\<close>

lemma wf_update_attempt:
  assumes wf: "wf_store s" and a: "a \<in> set (st_attempts s)"
    and ev: "attempt_evolves a a'"
    and "at_state a' \<in> {Intent, Dispatched} \<Longrightarrow> at_receipt a' = None"
    and "at_state a' = Dispatched \<Longrightarrow> pair_of a \<notin> retired_pairs s"
    and "at_state a = Unknown \<Longrightarrow> at_state a' = Unknown
           \<or> (\<forall>r\<in>set (st_reconciliations s). rc_attempt r = at_id a \<longrightarrow> rc_state r \<noteq> Claimed)"
  shows "wf_store (update_attempt a' s)" "evolves s (update_attempt a' s)"
proof -
  have st: "steps_wf (st_attempts s)" using wf by (simp add: wf_store_def)
  have id: "same_identity a a'" using ev by (simp add: attempt_evolves_def)
  have res: "resolved (at_state a) \<Longrightarrow> at_state a' = at_state a"
    using ev may_evolve_resolved by (auto simp: attempt_evolves_def)
  show "wf_store (update_attempt a' s)"
    using wf steps_wf_update [OF st a id] leases_wf_update [OF st a id] recon_wf_update [OF st a id]
      assms(4-6) res
    by (simp add: wf_store_def)
  have "rows_evolve attempt_evolves (st_attempts s) (set_row at_id a' (st_attempts s))"
  proof (rule rows_evolve_set_row [OF attempt_evolves_refl])
    fix x assume x: "x \<in> set (st_attempts s)" "at_id x = at_id a'"
    with id have "x = a" by (intro steps_same_id [OF st x(1) a]) (simp add: same_identity_def)
    with ev show "attempt_evolves x a'" by simp
  qed
  with evolves_refl [of s] show "evolves s (update_attempt a' s)"
    by (simp add: evolves_def)
qed

section \<open>Leases\<close>

lemma leases_wfD:
  assumes "leases_wf As Ls R H"
  shows "distinct (map fst Ls)"
    and "a \<in> set As \<Longrightarrow> \<not> resolved (at_state a) \<Longrightarrow> pair_of a \<notin> R \<Longrightarrow> k \<in> resource_keys a
           \<Longrightarrow> map_of Ls k = Some (pair_of a)"
    and "map_of Ls k = Some q \<Longrightarrow> q \<notin> R"
    and "map_of Ls k = Some q \<Longrightarrow> q \<notin> H"
    and "map_of Ls k = Some q \<Longrightarrow> \<exists>a\<in>set As. pair_of a = q \<and> k \<in> resource_keys a"
    and "a \<in> set As \<Longrightarrow> at_state a = Dispatched \<Longrightarrow> pair_of a \<notin> R"
    and "a \<in> set As \<Longrightarrow> pair_of a \<in> H \<Longrightarrow> resolved (at_state a)"
  using assms unfolding leases_wf_def by blast+

lemma map_of_filter_lease:
  "distinct (map fst Ls) \<Longrightarrow>
     map_of (filter (\<lambda>(k, q). \<not> (P k \<and> q = o')) Ls) k =
       (if P k \<and> map_of Ls k = Some o' then None else map_of Ls k)"
proof (induction Ls)
  case (Cons x Ls)
  then have "map_of Ls (fst x) = None" by (simp add: map_of_eq_None_iff)
  with Cons show ?case by (cases x) auto
qed simp

lemma distinct_filter_fst: "distinct (map fst Ls) \<Longrightarrow> distinct (map fst (filter P Ls))"
  by (induction Ls) auto

text \<open>Dropping leases of a pair with no open attempt.\<close>

lemma leases_wf_filter:
  assumes "leases_wf As Ls R H" and "\<And>a. a \<in> set As \<Longrightarrow> pair_of a = q \<Longrightarrow> resolved (at_state a)"
  shows "leases_wf As (filter (\<lambda>(k, o'). \<not> (P k \<and> o' = q)) Ls) R H"
proof -
  have "distinct (map fst Ls)" using assms(1) by (simp add: leases_wf_def)
  note look = map_of_filter_lease [OF this] and dist = distinct_filter_fst [OF this]
  have 1: "\<forall>a\<in>set As. \<not> resolved (at_state a) \<longrightarrow> pair_of a \<notin> R \<longrightarrow>
      (\<forall>k\<in>resource_keys a. map_of (filter (\<lambda>(k, o'). \<not> (P k \<and> o' = q)) Ls) k = Some (pair_of a))"
    using assms unfolding leases_wf_def look by (metis option.inject)
  have 2: "\<forall>k o'. map_of (filter (\<lambda>(k, o'). \<not> (P k \<and> o' = q)) Ls) k = Some o' \<longrightarrow>
      o' \<notin> R \<and> o' \<notin> H \<and> (\<exists>a\<in>set As. pair_of a = o' \<and> k \<in> resource_keys a)"
    using assms(1) unfolding leases_wf_def look by (metis option.distinct(1))
  show ?thesis
    using 1 2 assms(1) dist unfolding leases_wf_def by blast
qed

lemma wf_release_leases:
  assumes "wf_store s" and "\<And>b. b \<in> set (st_attempts s) \<Longrightarrow> pair_of b = pair_of a \<Longrightarrow> resolved (at_state b)"
  shows "wf_store (release_leases a s)"
  using assms leases_wf_filter [of "st_attempts s" "st_leases s" "retired_pairs s" "halted_pairs s"
      "pair_of a" "\<lambda>k. k \<in> resource_key ` set (at_leased_resources a)"]
  by (simp add: wf_store_def release_leases_def retired_pairs_def halted_pairs_def)

lemma evolves_leases [simp]: "evolves s (t\<lparr>st_leases := Ls\<rparr>) \<longleftrightarrow> evolves s t"
  by (simp add: evolves_def)

lemma evolves_release_leases [simp]: "evolves s (release_leases a t) \<longleftrightarrow> evolves s t"
  by (simp add: release_leases_def)

lemma release_leases_owner:
  "distinct (map fst (st_leases s)) \<Longrightarrow>
     lease_owner (release_leases a s) k =
       (if k \<in> resource_keys a \<and> lease_owner s k = Some (pair_of a) then None else lease_owner s k)"
  using map_of_filter_lease [of "st_leases s" "\<lambda>k. k \<in> resource_keys a" "pair_of a" k]
  unfolding release_leases_def lease_owner_def resource_keys_def by simp

lemma leases_frame_trans:
  "s' = t\<lparr>st_leases := a\<rparr> \<Longrightarrow> t = s\<lparr>st_leases := b\<rparr> \<Longrightarrow> s' = s\<lparr>st_leases := st_leases s'\<rparr>"
  by simp

text \<open>Taking the leases of a list of resources: all or none, and only free ones.\<close>

lemma lease_append:
  "lease_owner s (resource_key r) = None \<Longrightarrow>
     lease_owner (s\<lparr>st_leases := st_leases s @ [(resource_key r, g, p)]\<rparr>) k =
       (if k = resource_key r then Some (g, p) else lease_owner s k)"
  by (cases "lease_owner s k") (auto simp: lease_owner_def map_add_def)

lemma acquire_leases:
  assumes "fold_err (acquire_lease g p) rs s = Inr s'"
  shows "s' = s\<lparr>st_leases := st_leases s'\<rparr>"
    and "distinct (map fst (st_leases s)) \<Longrightarrow> distinct (map fst (st_leases s'))"
    and "lease_owner s' k = (if k \<in> resource_key ` set rs then Some (g, p) else lease_owner s k)"
    and "k \<in> resource_key ` set rs \<Longrightarrow> lease_owner s k \<in> {None, Some (g, p)}"
proof -
  have main: "s' = s\<lparr>st_leases := st_leases s'\<rparr>
      \<and> (distinct (map fst (st_leases s)) \<longrightarrow> distinct (map fst (st_leases s')))
      \<and> (\<forall>k. lease_owner s' k = (if k \<in> resource_key ` set rs then Some (g, p) else lease_owner s k))
      \<and> (\<forall>k \<in> resource_key ` set rs. lease_owner s k \<in> {None, Some (g, p)})"
    using assms
  proof (induction rs arbitrary: s)
    case Nil
    then show ?case by simp
  next
    case (Cons r rs)
    from Cons.prems obtain t where t: "acquire_lease g p r s = Inr t"
      "fold_err (acquire_lease g p) rs t = Inr s'" by auto
    have tf: "t = s\<lparr>st_leases := st_leases t\<rparr>"
      "distinct (map fst (st_leases s)) \<Longrightarrow> distinct (map fst (st_leases t))"
      "\<And>k. lease_owner t k = (if k = resource_key r then Some (g, p) else lease_owner s k)"
      "lease_owner s (resource_key r) \<in> {None, Some (g, p)}"
      using t(1) lease_append [of s r g p] unfolding acquire_lease_def
      by (auto simp: map_of_eq_None_iff [symmetric] lease_owner_def [symmetric]
          split: option.splits if_splits)
    note ih = Cons.IH [OF t(2)]
    have "lease_owner s k \<in> {None, Some (g, p)}" if "k \<in> resource_key ` set (r # rs)" for k
    proof (cases "k = resource_key r")
      case False
      with that ih have "lease_owner t k \<in> {None, Some (g, p)}" by auto
      with tf(3) False show ?thesis by simp
    qed (use tf(4) in simp)
    moreover have "s' = s\<lparr>st_leases := st_leases s'\<rparr>"
      using ih tf(1) by (elim conjE) (rule leases_frame_trans)
    ultimately show ?case using ih tf by simp
  qed
  show "s' = s\<lparr>st_leases := st_leases s'\<rparr>"
    by (rule main [THEN conjunct1])
  show "distinct (map fst (st_leases s')) " if "distinct (map fst (st_leases s))"
    using main [THEN conjunct2, THEN conjunct1] that by (rule mp)
  show "lease_owner s' k = (if k \<in> resource_key ` set rs then Some (g, p) else lease_owner s k)"
    using main by simp
  show "lease_owner s k \<in> {None, Some (g, p)}" if "k \<in> resource_key ` set rs"
    using main [THEN conjunct2, THEN conjunct2, THEN conjunct2] that by (rule bspec)
qed

lemma map_of_move:
  "map_of (map (\<lambda>(key, o'). if key = k0 \<and> o' = w then (key, q) else (key, o')) Ls) k =
     (case map_of Ls k of None \<Rightarrow> None | Some o' \<Rightarrow> Some (if k = k0 \<and> o' = w then q else o'))"
proof (induction Ls)
  case (Cons x Ls)
  then show ?case by (cases x; cases "map_of Ls k") simp_all
qed simp

lemma move_keys:
  "map fst (map (\<lambda>(key, o'). if key = k0 \<and> o' = w then (key, q) else (key, o')) Ls) = map fst Ls"
  by (induction Ls) auto

lemma move_leases:
  assumes "fold_err (move_lease olds g p) rs s = Inr s'"
  shows "s' = s\<lparr>st_leases := st_leases s'\<rparr>"
    and "map fst (st_leases s') = map fst (st_leases s)"
    and "lease_owner s' k = (if k \<in> resource_key ` set rs then Some (g, p) else lease_owner s k)"
    and "k \<in> resource_key ` set rs \<Longrightarrow> \<exists>q\<in>set olds. lease_owner s k = Some q"
proof -
  have "s' = s\<lparr>st_leases := st_leases s'\<rparr>
      \<and> map fst (st_leases s') = map fst (st_leases s)
      \<and> (\<forall>k. lease_owner s' k = (if k \<in> resource_key ` set rs then Some (g, p) else lease_owner s k))
      \<and> (\<forall>k \<in> resource_key ` set rs. \<exists>q\<in>set olds. lease_owner s k = Some q)"
    using assms
  proof (induction rs arbitrary: s)
    case Nil
    then show ?case by simp
  next
    case (Cons r rs)
    from Cons.prems obtain t where t: "move_lease olds g p r s = Inr t"
      "fold_err (move_lease olds g p) rs t = Inr s'" by auto
    have tf: "t = s\<lparr>st_leases := st_leases t\<rparr>"
      "map fst (st_leases t) = map fst (st_leases s)"
      "\<And>k. lease_owner t k = (if k = resource_key r then Some (g, p) else lease_owner s k)"
      "\<exists>q\<in>set olds. lease_owner s (resource_key r) = Some q"
      using t(1) unfolding move_lease_def
      by (auto simp: lease_owner_def map_of_move move_keys split: option.splits if_splits)
    note ih = Cons.IH [OF t(2)]
    have "\<exists>q\<in>set olds. lease_owner s k = Some q" if "k \<in> resource_key ` set (r # rs)" for k
    proof (cases "k = resource_key r")
      case False
      with that ih have "\<exists>q\<in>set olds. lease_owner t k = Some q" by auto
      with tf(3) False show ?thesis by simp
    qed (use tf(4) in simp)
    moreover have "s' = s\<lparr>st_leases := st_leases s'\<rparr>"
      using ih tf(1) by (elim conjE) (rule leases_frame_trans)
    ultimately show ?case using ih tf by simp
  qed
  then show "s' = s\<lparr>st_leases := st_leases s'\<rparr>"
    "map fst (st_leases s') = map fst (st_leases s)"
    "lease_owner s' k = (if k \<in> resource_key ` set rs then Some (g, p) else lease_owner s k)"
    "k \<in> resource_key ` set rs \<Longrightarrow> \<exists>q\<in>set olds. lease_owner s k = Some q" by blast+
qed

end
