(* ===== verification/Store_Dispatch.thy ===== *)
theory Store_Dispatch
  imports Store_Writes
begin

text \<open>
  The life of one attempt in the journal: the claim that makes an intent dispatched, the
  receipt that ends it, the rejection before any effect, and the recovery of interrupted
  work when the journal is opened. Each operation is inverted once (what an \<open>Ok\<close>
  result says of the state it ran in) and shown to keep \<open>wf_store\<close> and to move the
  journal forward.
\<close>

section \<open>Shared guards\<close>

lemma check_grant_ok_iff [result_simps]:
  "check_grant E now g agent profile = Inr u \<longleftrightarrow>
     gr_agent g = agent \<and> gr_profile g = profile \<and> \<not> gr_revoked g
     \<and> (\<exists>t. env_parse_timestamp E (gr_expires_at g) = Some t \<and> now < t)"
  by (auto simp: check_grant_def)

lemma check_digest_ok_iff [result_simps]: "check_digest d e err = Inr u \<longleftrightarrow> d = Some e"
  by (auto simp: check_digest_def)

lemma check_leases_held_iff [result_simps]:
  "check_leases_held s a = Inr u \<longleftrightarrow>
     (\<forall>k\<in>resource_keys a. lease_owner s k = Some (pair_of a))"
  by (auto simp: check_leases_held_def resource_keys_def)

lemma load_ok_iff [result_simps]:
  "load_grant s g = Inr gr \<longleftrightarrow> st_grants s g = Some gr"
  "load_profile s p = Inr pr \<longleftrightarrow> st_profiles s p = Some pr"
  "load_plan s q = Inr pl \<longleftrightarrow> st_plans s q = Some pl"
  by (simp_all add: load_grant_def load_profile_def load_plan_def)

section \<open>Dispatch\<close>

lemma claim_dispatch_ok:
  assumes "claim_dispatch E clk i agent s = Inr (d, s')"
  obtains a where
    "load_attempt s i = Some a" "at_state a = Intent"
    "pair_of a \<notin> halted_pairs s" "pair_of a \<notin> retired_pairs s"
    "st_grants s (at_grant a) = Some (cd_grant d)"
    "check_grant E (clk 0) (cd_grant d) agent (at_profile a) = Inr ()"
    "st_profiles s (at_profile a) = Some (cd_profile d)"
    "profile_digest E (cd_profile d) = Some (at_profile_digest a)"
    "st_plans s (at_plan a) = Some (cd_plan d)"
    "plan_digest E (cd_plan d) = Some (at_plan_digest a)"
    "\<forall>k\<in>resource_keys a. lease_owner s k = Some (pair_of a)"
    "checked_add (at_evidence_ordinal a) 1 = Some (at_evidence_ordinal (cd_attempt d))"
    "same_identity a (cd_attempt d)" "at_state (cd_attempt d) = Dispatched"
    "at_receipt (cd_attempt d) = at_receipt a"
    "at_evidence_challenge (cd_attempt d) = text_digest E (attempt_str (at_id a) @ '':'' @
       at_updated_at a @ '':'' @ nat_text (unat (at_evidence_ordinal (cd_attempt d))))"
    "s' = update_attempt (cd_attempt d) s"
  using assms unfolding claim_dispatch_def
  by (clarsimp simp: Let_def load_ok_iff check_digest_ok_iff check_leases_held_iff split: if_splits)
    (erule that, simp_all add: halted_pairs_iff retired_pairs_iff same_identity_def)

lemma claim_dispatch_preserves:
  assumes "wf_store s" "claim_dispatch E clk i agent s = Inr (d, s')"
  shows "wf_store s' \<and> evolves s s'"
  using assms(2)
proof (rule claim_dispatch_ok)
  fix a
  assume a: "load_attempt s i = Some a" "at_state a = Intent" "pair_of a \<notin> retired_pairs s"
    "checked_add (at_evidence_ordinal a) 1 = Some (at_evidence_ordinal (cd_attempt d))"
    "same_identity a (cd_attempt d)" "at_state (cd_attempt d) = Dispatched"
    "at_receipt (cd_attempt d) = at_receipt a" "s' = update_attempt (cd_attempt d) s"
  have st: "steps_wf (st_attempts s)" using assms(1) by (simp add: wf_store_def)
  have mem: "a \<in> set (st_attempts s)" using a(1) load_attempt_iff [OF st] by simp
  have "at_receipt a = None" using steps_receipt [OF st mem] a(2) by simp
  moreover have "attempt_evolves a (cd_attempt d)"
    using a(2,4-7) by (simp add: attempt_evolves_def checked_add_Some_iff)
  ultimately show ?thesis
    using wf_update_attempt [OF assms(1) mem, of "cd_attempt d"] a by simp
qed

section \<open>Receipts\<close>

lemma record_receipt_ok:
  assumes "record_receipt E clk i receipt release_lease s = Inr (a', s')"
  obtains a where
    "load_attempt s i = Some a" "at_state a = Dispatched"
    "a' = a\<lparr>at_state := receipt_state receipt, at_receipt := Some receipt,
            at_updated_at := env_timestamp_text E (clk 0)\<rparr>"
    "s' = (if release_lease \<and> (receipt_state receipt \<noteq> Rejected
             \<or> \<not> recovery_destination_exists s (at_grant a) (at_plan a))
           then release_leases a' (update_attempt a' s) else update_attempt a' s)"
  using assms unfolding record_receipt_def
  by (auto simp: Let_def recovery_destination_exists_def split: if_splits)

lemma reject_intent_ok:
  assumes "reject_intent E clk i reason s = Inr (a', s')"
  obtains a where
    "load_attempt s i = Some a" "at_state a = Intent"
    "a' = a\<lparr>at_state := Rejected, at_receipt := Some (ReceiptRejected reason),
            at_updated_at := env_timestamp_text E (clk 0)\<rparr>"
    "s' = (if recovery_destination_exists s (at_grant a) (at_plan a)
           then update_attempt a' s else release_leases a' (update_attempt a' s))"
  using assms unfolding reject_intent_def
  by (auto simp: Let_def recovery_destination_exists_def split: if_splits)

text \<open>A change of state that resolves an open attempt leaves its pair without open
  attempts, so its leases may go.\<close>

lemma pair_resolved_after_update:
  assumes "steps_wf As" "a \<in> set As" "at_state a \<noteq> Completed"
    "same_identity a a'" "resolved (at_state a')"
    "b \<in> set (set_row at_id a' As)" "pair_of b = pair_of a'"
  shows "resolved (at_state b)"
proof -
  from assms(6) have "b = a' \<or> (b \<in> set As \<and> b \<noteq> a)"
    by (simp add: set_row_attempt [OF assms(1,2,4)])
  moreover have "pair_of a = pair_of b" using assms(4,7) by (simp add: same_identity_def)
  ultimately show ?thesis
    using assms(5) open_attempt_resolved_pair [OF assms(1,2), of b] assms(3) by auto
qed

lemma resolve_and_release:
  assumes "wf_store s" "a \<in> set (st_attempts s)" "at_state a \<noteq> Completed"
    "attempt_evolves a a'" "resolved (at_state a')" "wf_store (update_attempt a' s)"
  shows "wf_store (release_leases a' (update_attempt a' s))"
proof (rule wf_release_leases [OF assms(6)])
  fix b assume "b \<in> set (st_attempts (update_attempt a' s))" "pair_of b = pair_of a'"
  then show "resolved (at_state b)"
    using assms pair_resolved_after_update [of "st_attempts s" a a' b]
    by (simp add: wf_store_def attempt_evolves_def)
qed

lemma record_receipt_preserves:
  assumes "release_lease \<Longrightarrow> resolved (receipt_state receipt)"
    and "wf_store s" "record_receipt E clk i receipt release_lease s = Inr (a', s')"
  shows "wf_store s' \<and> evolves s s'"
  using assms(3)
proof (rule record_receipt_ok)
  fix a
  assume a: "load_attempt s i = Some a" "at_state a = Dispatched"
    "a' = a\<lparr>at_state := receipt_state receipt, at_receipt := Some receipt,
            at_updated_at := env_timestamp_text E (clk 0)\<rparr>"
    "s' = (if release_lease \<and> (receipt_state receipt \<noteq> Rejected
             \<or> \<not> recovery_destination_exists s (at_grant a) (at_plan a))
           then release_leases a' (update_attempt a' s) else update_attempt a' s)"
  have st: "steps_wf (st_attempts s)" using assms(2) by (simp add: wf_store_def)
  have mem: "a \<in> set (st_attempts s)" using a(1) load_attempt_iff [OF st] by simp
  have none: "at_receipt a = None" using steps_receipt [OF st mem] a(2) by simp
  have fresh: "receipt_state receipt \<notin> {Intent, Dispatched}" by (cases receipt) simp_all
  have ev: "attempt_evolves a a'"
    using a(2,3) none fresh by (auto simp: attempt_evolves_def same_identity_def)
  have wf': "wf_store (update_attempt a' s)" "evolves s (update_attempt a' s)"
    using wf_update_attempt [OF assms(2) mem ev] a(2,3) fresh by auto
  moreover have "wf_store (release_leases a' (update_attempt a' s))" if release_lease
    using resolve_and_release [OF assms(2) mem _ ev _ wf'(1)] a(2,3) assms(1) that by simp
  ultimately show ?thesis using a(4) by auto
qed

lemma reject_intent_preserves:
  assumes "wf_store s" "reject_intent E clk i reason s = Inr (a', s')"
  shows "wf_store s' \<and> evolves s s'"
  using assms(2)
proof (rule reject_intent_ok)
  fix a
  assume a: "load_attempt s i = Some a" "at_state a = Intent"
    "a' = a\<lparr>at_state := Rejected, at_receipt := Some (ReceiptRejected reason),
            at_updated_at := env_timestamp_text E (clk 0)\<rparr>"
    "s' = (if recovery_destination_exists s (at_grant a) (at_plan a)
           then update_attempt a' s else release_leases a' (update_attempt a' s))"
  have st: "steps_wf (st_attempts s)" using assms(1) by (simp add: wf_store_def)
  have mem: "a \<in> set (st_attempts s)" using a(1) load_attempt_iff [OF st] by simp
  have none: "at_receipt a = None" using steps_receipt [OF st mem] a(2) by simp
  have ev: "attempt_evolves a a'"
    using a(2,3) none by (auto simp: attempt_evolves_def same_identity_def)
  have wf': "wf_store (update_attempt a' s)" "evolves s (update_attempt a' s)"
    using wf_update_attempt [OF assms(1) mem ev] a(2,3) by auto
  moreover have "wf_store (release_leases a' (update_attempt a' s))"
    using resolve_and_release [OF assms(1) mem _ ev _ wf'(1)] a(2,3) by simp
  ultimately show ?thesis using a(4) by auto
qed

section \<open>Opening the journal\<close>

lemma map_enumerate:
  "length (map f (List.enumerate n xs)) = length xs"
  "i < length xs \<Longrightarrow> map f (List.enumerate n xs) ! i = f (n + i, xs ! i)"
  by (simp_all add: nth_enumerate_eq)

lemma recover_rows:
  "length (st_attempts (recover_interrupted_dispatches E clk s)) = length (st_attempts s)"
  "n < length (st_attempts s) \<Longrightarrow>
     st_attempts (recover_interrupted_dispatches E clk s) ! n
       = interrupt_attempt E (clk n) (st_attempts s ! n)"
  "length (st_reconciliations (recover_interrupted_dispatches E clk s))
     = length (st_reconciliations s)"
  "n < length (st_reconciliations s) \<Longrightarrow>
     st_reconciliations (recover_interrupted_dispatches E clk s) ! n
       = interrupt_reconciliation E (clk (length (st_attempts s) + n)) (st_reconciliations s ! n)"
  by (simp_all add: recover_interrupted_dispatches_def map_enumerate nth_enumerate_eq)

lemma recover_attempt_member:
  assumes "b \<in> set (st_attempts (recover_interrupted_dispatches E clk s))"
  obtains a now where "a \<in> set (st_attempts s)" "b = interrupt_attempt E now a"
  using assms by (metis in_set_conv_nth recover_rows(1,2))

lemma recover_attempt_back:
  "a \<in> set (st_attempts s) \<Longrightarrow>
     \<exists>now. interrupt_attempt E now a \<in> set (st_attempts (recover_interrupted_dispatches E clk s))"
  by (metis in_set_conv_nth recover_rows(1,2))

lemma recover_recon_member:
  assumes "r \<in> set (st_reconciliations (recover_interrupted_dispatches E clk s))"
  obtains q now where "q \<in> set (st_reconciliations s)" "r = interrupt_reconciliation E now q"
  using assms by (metis in_set_conv_nth recover_rows(3,4))

lemma interrupt_attempt_simps [simp]:
  "same_identity a (interrupt_attempt E now a)"
  "at_state (interrupt_attempt E now a) \<noteq> Dispatched"
  "at_state (interrupt_attempt E now a) = Completed \<longleftrightarrow> at_state a = Completed"
  "at_state (interrupt_attempt E now a) = Intent \<longleftrightarrow> at_state a = Intent"
  "resolved (at_state (interrupt_attempt E now a)) \<longleftrightarrow> resolved (at_state a)"
  "at_state a \<noteq> Dispatched \<Longrightarrow> interrupt_attempt E now a = a"
  by (auto simp: interrupt_attempt_def same_identity_def)

lemma interrupt_attempt_ident [simp]:
  "at_id (interrupt_attempt E now a) = at_id a"
  "at_request (interrupt_attempt E now a) = at_request a"
  "at_grant (interrupt_attempt E now a) = at_grant a"
  "at_plan (interrupt_attempt E now a) = at_plan a"
  "at_operation_index (interrupt_attempt E now a) = at_operation_index a"
  "at_leased_resources (interrupt_attempt E now a) = at_leased_resources a"
  "resource_keys (interrupt_attempt E now a) = resource_keys a"
  by (simp_all add: interrupt_attempt_def resource_keys_def)

lemma interrupt_reconciliation_simps [simp]:
  "rc_state (interrupt_reconciliation E now r) \<noteq> Claimed"
  "rc_state r \<noteq> Claimed \<Longrightarrow> interrupt_reconciliation E now r = r"
  "rc_attempt (interrupt_reconciliation E now r) = rc_attempt r"
  "rc_request (interrupt_reconciliation E now r) = rc_request r"
  "rc_ordinal (interrupt_reconciliation E now r) = rc_ordinal r"
  "recon_evolves r (interrupt_reconciliation E now r)"
  by (simp_all add: interrupt_reconciliation_def recon_evolves_def)

lemma recover_map_attempts:
  "(\<And>a now. f (interrupt_attempt E now a) = f a) \<Longrightarrow>
     map f (st_attempts (recover_interrupted_dispatches E clk s)) = map f (st_attempts s)"
  by (rule nth_equalityI) (simp_all add: recover_rows)

lemma enumerate_map_filter:
  assumes "\<And>n x. g (f n x) = g x" "\<And>n x. P (f n x) = P x"
  shows "map g (filter P (map (\<lambda>(n, x). f n x) (List.enumerate k xs))) = map g (filter P xs)"
  using assms by (induction xs arbitrary: k) simp_all

lemma recover_recon_ordinals:
  "map rc_ordinal (filter (\<lambda>r. rc_attempt r = i)
       (st_reconciliations (recover_interrupted_dispatches E clk s)))
     = map rc_ordinal (filter (\<lambda>r. rc_attempt r = i) (st_reconciliations s))"
  unfolding recover_interrupted_dispatches_def
  by (simp add: enumerate_map_filter [of rc_ordinal "\<lambda>n. interrupt_reconciliation E (clk n)"])

lemma recover_frame [simp]:
  "st_leases (recover_interrupted_dispatches E clk s) = st_leases s"
  "st_grants (recover_interrupted_dispatches E clk s) = st_grants s"
  "st_plans (recover_interrupted_dispatches E clk s) = st_plans s"
  "st_profiles (recover_interrupted_dispatches E clk s) = st_profiles s"
  "st_runs (recover_interrupted_dispatches E clk s) = st_runs s"
  "st_takeovers (recover_interrupted_dispatches E clk s) = st_takeovers s"
  "st_retirements (recover_interrupted_dispatches E clk s) = st_retirements s"
  "st_abandonments (recover_interrupted_dispatches E clk s) = st_abandonments s"
  "st_case_facts (recover_interrupted_dispatches E clk s) = st_case_facts s"
  "retired_pairs (recover_interrupted_dispatches E clk s) = retired_pairs s"
  "halted_pairs (recover_interrupted_dispatches E clk s) = halted_pairs s"
  by (simp_all add: recover_interrupted_dispatches_def retired_pairs_def halted_pairs_def)

lemma recover_steps_wf:
  assumes "steps_wf (st_attempts s)"
  shows "steps_wf (st_attempts (recover_interrupted_dispatches E clk s))"
proof -
  let ?s' = "recover_interrupted_dispatches E clk s"
  have "\<exists>b\<in>set (st_attempts ?s'). pair_of b = pair_of x \<and> at_operation_index b = i \<and> at_state b = Completed"
    if x: "x \<in> set (st_attempts ?s')" "at_operation_index x = Suc i" for x i
  proof -
    from x(1) obtain a now where a: "a \<in> set (st_attempts s)" "x = interrupt_attempt E now a"
      by (rule recover_attempt_member)
    with x(2) steps_below_completed [OF assms a(1), of i] obtain b where b: "b \<in> set (st_attempts s)"
      "pair_of b = pair_of a" "at_operation_index b = i" "at_state b = Completed" by auto
    with recover_attempt_back [OF b(1), of E clk] a show ?thesis by auto
  qed
  moreover have "at_leased_resources x = at_leased_resources y"
    if xy: "x \<in> set (st_attempts ?s')" "y \<in> set (st_attempts ?s')" "pair_of x = pair_of y" for x y
  proof -
    from xy(1) obtain a m where a: "a \<in> set (st_attempts s)" "x = interrupt_attempt E m a"
      by (rule recover_attempt_member)
    from xy(2) obtain b n where b: "b \<in> set (st_attempts s)" "y = interrupt_attempt E n b"
      by (rule recover_attempt_member)
    from steps_same_leases [OF assms a(1) b(1)] xy(3) a(2) b(2) show ?thesis by simp
  qed
  moreover have "at_receipt x = None"
    if "x \<in> set (st_attempts ?s')" "at_state x \<in> {Intent, Dispatched}" for x
    using that assms by (auto elim!: recover_attempt_member simp: steps_wf_def)
  moreover have "distinct (map at_id (st_attempts ?s'))" "distinct (map at_request (st_attempts ?s'))"
    "distinct (map (\<lambda>a. (pair_of a, at_operation_index a)) (st_attempts ?s'))"
    using assms by (simp_all add: recover_map_attempts steps_wf_def)
  ultimately show ?thesis
    unfolding steps_wf_def by blast
qed

lemma recover_preserves:
  assumes wf: "wf_store s"
  shows "wf_store (recover_interrupted_dispatches E clk s) \<and> evolves s (recover_interrupted_dispatches E clk s)"
proof
  let ?s' = "recover_interrupted_dispatches E clk s"
  have st: "steps_wf (st_attempts s)" and ls: "leases_wf (st_attempts s) (st_leases s)
      (retired_pairs s) (halted_pairs s)"
    and rc: "recon_wf (st_attempts s) (st_reconciliations s)"
    using wf by (simp_all add: wf_store_def)
  have "\<exists>a\<in>set (st_attempts ?s'). pair_of a = q \<and> k \<in> resource_keys a"
    if "\<exists>a\<in>set (st_attempts s). pair_of a = q \<and> k \<in> resource_keys a" for q k
  proof -
    from that obtain a where a: "a \<in> set (st_attempts s)" "pair_of a = q" "k \<in> resource_keys a"
      by blast
    from recover_attempt_back [OF a(1), of E clk] obtain now where
      "interrupt_attempt E now a \<in> set (st_attempts ?s')" by blast
    with a(2,3) show ?thesis by (intro bexI [of _ "interrupt_attempt E now a"]) simp_all
  qed
  with ls have leases: "leases_wf (st_attempts ?s') (st_leases s) (retired_pairs s) (halted_pairs s)"
    unfolding leases_wf_def by (auto elim!: recover_attempt_member)
  have "map rc_request (st_reconciliations ?s') = map rc_request (st_reconciliations s)"
    by (rule nth_equalityI) (simp_all add: recover_rows)
  moreover have "length (filter (\<lambda>r. rc_attempt r = i) (st_reconciliations ?s'))
      = length (filter (\<lambda>r. rc_attempt r = i) (st_reconciliations s))" for i
    using recover_recon_ordinals [of i E clk s] by (metis length_map)
  moreover have "rc_state r \<noteq> Claimed" if "r \<in> set (st_reconciliations ?s')" for r
    using that by (rule recover_recon_member) simp
  ultimately have "recon_wf (st_attempts ?s') (st_reconciliations ?s')"
    using rc unfolding recon_wf_def recover_recon_ordinals by simp
  with leases show "wf_store ?s'"
    using wf recover_steps_wf [OF st, of E clk] by (simp add: wf_store_def)
  have "attempt_evolves a (interrupt_attempt E now a)" if "a \<in> set (st_attempts s)" for a now
    using steps_receipt [OF st that]
    by (auto simp: attempt_evolves_def interrupt_attempt_def same_identity_def)
  then have "rows_evolve attempt_evolves (st_attempts s) (st_attempts ?s')"
    by (simp add: rows_evolve_def recover_rows)
  moreover have "rows_evolve recon_evolves (st_reconciliations s) (st_reconciliations ?s')"
    by (simp add: rows_evolve_def recover_rows)
  ultimately show "evolves s ?s'"
    using evolves_refl [of s] by (simp add: evolves_def)
qed

end
