(* ===== verification/Store_Admission.thy ===== *)
theory Store_Admission
  imports Store_Dispatch
begin

text \<open>
  Admission of an attempt into the journal, for a run (\<open>reserve\<close>) and for a recovery
  that takes the leases of uncertain runs over (\<open>store_takeover_recovery\<close>): what a
  success says about the journal, and preservation of its invariants.
\<close>

section \<open>The order of steps\<close>

lemma insert_attempt_ok [result_simps]:
  "insert_attempt a s = Inr s' \<longleftrightarrow>
     (\<forall>b\<in>set (st_attempts s). at_id b \<noteq> at_id a \<and> at_request b \<noteq> at_request a
        \<and> \<not> (pair_of b = pair_of a \<and> at_operation_index b = at_operation_index a))
     \<and> s' = s\<lparr>st_attempts := st_attempts s @ [a]\<rparr>"
  by (auto simp: insert_attempt_def list_ex_iff)

lemma pair_attempts_set:
  "set (pair_attempts s g p) = {a \<in> set (st_attempts s). pair_of a = (g, p)}"
  by (auto simp: pair_attempts_def)

lemma last_sorted_max:
  assumes "rev (sort_key f xs) = x # ys"
  shows "x \<in> set xs" and "y \<in> set xs \<Longrightarrow> f y \<le> f x"
proof -
  have eq: "sort_key f xs = rev ys @ [x]" using assms by (simp add: rev_eq_Cons_iff)
  have set: "set xs = set (rev ys @ [x])" using eq by (metis set_sort)
  then show "x \<in> set xs" by simp
  have "sorted (map f (rev ys @ [x]))" using eq sorted_sort_key [of f xs] by simp
  then show "y \<in> set xs \<Longrightarrow> f y \<le> f x"
    using set by (auto simp: sorted_append)
qed

lemma existing_steps_rev:
  assumes "rev (existing_steps s g p) = (i, st) # rest"
  obtains b where "b \<in> set (st_attempts s)" "pair_of b = (g, p)" "at_operation_index b = i"
    "at_state b = st"
    "\<forall>c\<in>set (st_attempts s). pair_of c = (g, p) \<longrightarrow> at_operation_index c \<le> i"
proof -
  have "rev (map (\<lambda>a. (at_operation_index a, at_state a))
      (sort_key at_operation_index (pair_attempts s g p))) = (i, st) # rest"
    using assms by (simp add: existing_steps_def)
  then obtain b ys where b: "rev (sort_key at_operation_index (pair_attempts s g p)) = b # ys"
    "at_operation_index b = i" "at_state b = st"
    unfolding rev_map by (auto simp: map_eq_Cons_conv)
  note mx = last_sorted_max [OF b(1)]
  show ?thesis
    by (rule that [of b]) (use mx b(2,3) pair_attempts_set [of s g p] in auto)
qed

lemma existing_steps_empty:
  "rev (existing_steps s g p) = [] \<Longrightarrow> c \<in> set (st_attempts s) \<Longrightarrow> pair_of c \<noteq> (g, p)"
proof
  assume e: "rev (existing_steps s g p) = []" and c: "c \<in> set (st_attempts s)" "pair_of c = (g, p)"
  from e have "set (sort_key at_operation_index (pair_attempts s g p)) = {}"
    by (simp add: existing_steps_def)
  then have "set (pair_attempts s g p) = {}" by simp
  with c show False unfolding pair_attempts_set by blast
qed

lemma reserve_order_ok:
  assumes "reserve_order a s = Inr u"
  shows "(at_operation_index a = 0 \<and> (\<forall>c\<in>set (st_attempts s). pair_of c \<noteq> pair_of a))
    \<or> (\<exists>b\<in>set (st_attempts s). pair_of b = pair_of a
         \<and> at_operation_index a = Suc (at_operation_index b) \<and> at_state b = Completed
         \<and> (\<forall>c\<in>set (st_attempts s). pair_of c = pair_of a \<longrightarrow>
              at_operation_index c \<le> at_operation_index b)
         \<and> (\<exists>f\<in>set (st_attempts s). pair_of f = pair_of a \<and> at_operation_index f = 0
              \<and> at_profile f = at_profile a \<and> at_profile_digest f = at_profile_digest a
              \<and> at_leased_resources f = at_leased_resources a
              \<and> at_plan_digest f = at_plan_digest a))"
proof (cases "rev (existing_steps s (at_grant a) (at_plan a))")
  case Nil
  with assms have "at_operation_index a = 0"
    by (simp add: reserve_order_def split: if_splits)
  with existing_steps_empty [OF Nil] show ?thesis by blast
next
  case (Cons x rest)
  obtain i st where x: "x = (i, st)" by (cases x)
  from Cons [unfolded x] obtain b where b: "b \<in> set (st_attempts s)" "pair_of b = pair_of a"
    "at_operation_index b = i" "at_state b = st"
    "\<forall>c\<in>set (st_attempts s). pair_of c = pair_of a \<longrightarrow> at_operation_index c \<le> i"
    by (rule existing_steps_rev)
  from assms Cons x have c: "st = Completed" "at_operation_index a = Suc i"
    by (auto simp: reserve_order_def split: if_splits)
  with assms Cons x obtain f where
    f: "List.find (\<lambda>a. at_operation_index a = 0) (pair_attempts s (at_grant a) (at_plan a)) = Some f"
    "at_profile f = at_profile a" "at_profile_digest f = at_profile_digest a"
    "at_leased_resources f = at_leased_resources a" "at_plan_digest f = at_plan_digest a"
    by (auto simp: reserve_order_def split: if_splits)
  then have "f \<in> set (pair_attempts s (at_grant a) (at_plan a))" "at_operation_index f = 0"
    by (auto simp: find_Some_iff)
  with f b c show ?thesis
    unfolding pair_attempts_set by (intro disjI2 bexI [of _ b]) auto
qed

section \<open>Admitting one attempt\<close>

text \<open>The tables after an attempt has joined, whatever gave it its leases.\<close>

lemma steps_wf_snoc:
  assumes "steps_wf As"
    and "\<And>b. b \<in> set As \<Longrightarrow> at_id b \<noteq> at_id a \<and> at_request b \<noteq> at_request a
           \<and> \<not> (pair_of b = pair_of a \<and> at_operation_index b = at_operation_index a)"
    and "\<And>i. at_operation_index a = Suc i \<Longrightarrow>
           \<exists>b\<in>set As. pair_of b = pair_of a \<and> at_operation_index b = i \<and> at_state b = Completed"
    and "\<And>b. b \<in> set As \<Longrightarrow> pair_of b = pair_of a \<Longrightarrow> at_leased_resources b = at_leased_resources a"
    and "at_state a \<in> {Intent, Dispatched} \<Longrightarrow> at_receipt a = None"
  shows "steps_wf (As @ [a])"
proof -
  have d: "distinct (map at_id As)" "distinct (map at_request As)"
    "distinct (map (\<lambda>a. (pair_of a, at_operation_index a)) As)"
    using assms(1) by (simp_all add: steps_wf_def)
  have fresh: "at_id a \<notin> at_id ` set As" "at_request a \<notin> at_request ` set As"
    "(pair_of a, at_operation_index a) \<notin> (\<lambda>a. (pair_of a, at_operation_index a)) ` set As"
    using assms(2) by fastforce+
  have "distinct (map at_id (As @ [a]))" "distinct (map at_request (As @ [a]))"
    "distinct (map (\<lambda>a. (pair_of a, at_operation_index a)) (As @ [a]))"
    using d fresh by simp_all
  moreover have "\<exists>b\<in>set (As @ [a]). pair_of b = pair_of x \<and> at_operation_index b = i
      \<and> at_state b = Completed"
    if x: "x \<in> set (As @ [a])" "at_operation_index x = Suc i" for x i
  proof (cases "x = a")
    case True
    with assms(3) [of i] x(2) show ?thesis by auto
  next
    case False
    with x steps_below_completed [OF assms(1), of x i] show ?thesis by auto
  qed
  moreover have "at_leased_resources x = at_leased_resources y"
    if "x \<in> set (As @ [a])" "y \<in> set (As @ [a])" "pair_of x = pair_of y" for x y
  proof -
    have "x = a \<or> x \<in> set As" "y = a \<or> y \<in> set As" using that(1,2) by auto
    with assms(4) steps_same_leases [OF assms(1)] that(3) show ?thesis by metis
  qed
  moreover have "at_receipt x = None" if "x \<in> set (As @ [a])" "at_state x \<in> {Intent, Dispatched}" for x
    using that assms(5) steps_receipt [OF assms(1), of x] by auto
  ultimately show ?thesis unfolding steps_wf_def by blast
qed

lemma recon_wf_snoc: "recon_wf As Rs \<Longrightarrow> recon_wf (As @ [a]) Rs"
  unfolding recon_wf_def by auto

lemma update_grant_simps [simp]:
  "st_attempts (update_grant g s) = st_attempts s"
  "st_leases (update_grant g s) = st_leases s"
  "st_reconciliations (update_grant g s) = st_reconciliations s"
  "st_retirements (update_grant g s) = st_retirements s"
  "st_abandonments (update_grant g s) = st_abandonments s"
  "st_takeovers (update_grant g s) = st_takeovers s"
  "st_profiles (update_grant g s) = st_profiles s"
  "st_plans (update_grant g s) = st_plans s"
  "st_proposals (update_grant g s) = st_proposals s"
  "st_runs (update_grant g s) = st_runs s"
  "st_case_facts (update_grant g s) = st_case_facts s"
  "st_grants s (gr_id g) \<noteq> None \<Longrightarrow> st_grants (update_grant g s) = (st_grants s)(gr_id g \<mapsto> g)"
  by (auto simp: update_grant_def)

lemma reserve_guards_ok:
  assumes "reserve_guards E clk a snap s = Inr g"
  shows "pair_of a \<notin> halted_pairs s" "pair_of a \<notin> retired_pairs s"
    "st_grants s (at_grant a) = Some g"
    "check_grant E (clk 0) g (snap_agent snap) (at_profile a) = Inr ()"
    "\<exists>profile. st_profiles s (at_profile a) = Some profile
       \<and> profile_digest E profile = Some (at_profile_digest a)
       \<and> profile_digest E (snap_profile snap) = Some (at_profile_digest a)"
    "\<exists>plan. st_plans s (at_plan a) = Some plan \<and> plan_digest E plan = Some (at_plan_digest a)
       \<and> plan_digest E (snap_plan snap) = Some (at_plan_digest a)"
  using assms unfolding reserve_guards_def
  by (auto simp: load_ok_iff check_digest_ok_iff halted_pairs_iff retired_pairs_iff split: if_splits)

lemma takeover_guards_ok:
  assumes "takeover_guards E clk a snap s = Inr g"
  shows "pair_of a \<notin> halted_pairs s" "pair_of a \<notin> retired_pairs s"
    "st_grants s (at_grant a) = Some g"
    "check_grant E (clk 0) g (snap_agent snap) (at_profile a) = Inr ()"
    "\<exists>profile. st_profiles s (at_profile a) = Some profile
       \<and> profile_digest E profile = Some (at_profile_digest a)
       \<and> profile_digest E (snap_profile snap) = Some (at_profile_digest a)"
    "\<exists>plan. st_plans s (at_plan a) = Some plan \<and> plan_digest E plan = Some (at_plan_digest a)
       \<and> plan_digest E (snap_plan snap) = Some (at_plan_digest a)"
  using assms unfolding takeover_guards_def
  by (auto simp: load_ok_iff check_digest_ok_iff halted_pairs_iff retired_pairs_iff split: if_splits)

lemma debit_shrinks:
  "budget_checked_sub (gr_remaining g) b = Some r \<Longrightarrow> grant_shrinks g (g\<lparr>gr_remaining := r\<rparr>)"
  by (simp add: grant_shrinks_def budget_sub_fits)

lemma leases_wf_admit:
  assumes "leases_wf As Ls R H" "distinct (map fst Ls')"
    and own: "\<And>k. map_of Ls' k = (if k \<in> resource_keys a then Some (pair_of a) else map_of Ls k)"
    and free: "\<And>k. k \<in> resource_keys a \<Longrightarrow> map_of Ls k \<in> {None, Some (pair_of a)}"
    and "pair_of a \<notin> R" "pair_of a \<notin> H"
  shows "leases_wf (As @ [a]) Ls' R H"
proof -
  have "map_of Ls' k = Some (pair_of x)"
    if x: "x \<in> set (As @ [a])" "\<not> resolved (at_state x)" "pair_of x \<notin> R" "k \<in> resource_keys x" for x k
  proof (cases "x = a")
    case False
    with x leases_wfD (2) [OF assms(1)] have "map_of Ls k = Some (pair_of x)" by auto
    with own [of k] free [of k] show ?thesis by (auto split: if_splits)
  qed (use own x in simp)
  moreover have "q \<notin> R \<and> q \<notin> H \<and> (\<exists>x\<in>set (As @ [a]). pair_of x = q \<and> k \<in> resource_keys x)"
    if "map_of Ls' k = Some q" for k q
  proof (cases "k \<in> resource_keys a")
    case True
    with that own assms(5,6) show ?thesis by auto
  next
    case False
    with that own have "map_of Ls k = Some q" by simp
    with leases_wfD (3-5) [OF assms(1)] show ?thesis by (metis UnCI set_append)
  qed
  moreover have "at_state x = Dispatched \<longrightarrow> pair_of x \<notin> R" if "x \<in> set (As @ [a])" for x
    using that assms(5) leases_wfD (6) [OF assms(1)] by auto
  moreover have "pair_of x \<in> H \<longrightarrow> resolved (at_state x)" if "x \<in> set (As @ [a])" for x
    using that assms(6) leases_wfD (7) [OF assms(1)] by auto
  ultimately show ?thesis using assms(2) unfolding leases_wf_def by blast
qed

lemma reserve_ok:
  assumes "reserve E clk a snap s = Inr (res, s')"
  obtains
    (existing) b where "res = Existing b" "s' = s" "load_attempt_by_request s (at_request a) = Some b"
      "at_id b = at_id a" "pair_of b = pair_of a" "at_operation_index b = at_operation_index a"
      "at_plan_digest b = at_plan_digest a"
  | (fresh) g s1 remaining where "res = Reserved a"
      "load_attempt_by_request s (at_request a) = None"
      "reserve_guards E clk a snap s = Inr g" "reserve_order a s = Inr ()"
      "fold_err (acquire_lease (at_grant a) (at_plan a)) (at_leased_resources a) s = Inr s1"
      "budget_checked_sub (gr_remaining g) (at_reserved a) = Some remaining"
      "at_operation_index a < i64_bound"
      "insert_attempt a (update_grant (g\<lparr>gr_remaining := remaining\<rparr>) s1) = Inr s'"
proof (cases "load_attempt_by_request s (at_request a)")
  case (Some b)
  with assms show ?thesis
    by (intro existing [of b]) (auto simp: reserve_def split: if_splits)
next
  case None
  with assms obtain g s1 remaining where
    "reserve_guards E clk a snap s = Inr g" "reserve_order a s = Inr ()"
    "fold_err (acquire_lease (at_grant a) (at_plan a)) (at_leased_resources a) s = Inr s1"
    "budget_checked_sub (gr_remaining g) (at_reserved a) = Some remaining"
    "at_operation_index a < i64_bound"
    "insert_attempt a (update_grant (g\<lparr>gr_remaining := remaining\<rparr>) s1) = Inr s'" "res = Reserved a"
    by (auto simp: reserve_def sqlite_index_def simp del: insert_attempt_ok split: if_splits)
  with None show ?thesis by (intro fresh)
qed

text \<open>A fresh admission is the old journal with its leases, its grant debited and the
  attempt appended.\<close>

lemma reserve_fresh_effect:
  assumes wf: "wf_store s"
    and g: "reserve_guards E clk a snap s = Inr g"
    and acq: "fold_err (acquire_lease (at_grant a) (at_plan a)) (at_leased_resources a) s = Inr s1"
    and ins: "insert_attempt a (update_grant (g\<lparr>gr_remaining := remaining\<rparr>) s1) = Inr s'"
  shows "s' = s\<lparr>st_attempts := st_attempts s @ [a],
      st_grants := (st_grants s)(at_grant a \<mapsto> g\<lparr>gr_remaining := remaining\<rparr>),
      st_leases := st_leases s1\<rparr>"
proof -
  from acquire_leases (1) [OF acq] obtain Ls where s1: "s1 = s\<lparr>st_leases := Ls\<rparr>" ..
  have "gr_id g = at_grant a" "st_grants s (at_grant a) = Some g"
    using wf reserve_guards_ok (3) [OF g] by (auto simp: wf_store_def)
  moreover have "s' = (update_grant (g\<lparr>gr_remaining := remaining\<rparr>) s1)
      \<lparr>st_attempts := st_attempts s @ [a]\<rparr>"
    using ins by (simp add: insert_attempt_ok s1)
  ultimately show ?thesis by (simp add: update_grant_def s1)
qed

lemma reserve_preserves:
  assumes "at_state a = Intent" "at_receipt a = None"
    and wf: "wf_store s" and res: "reserve E clk a snap s = Inr (out, s')"
  shows "wf_store s' \<and> evolves s s'"
  using res
proof (cases rule: reserve_ok)
  case (existing b)
  with wf show ?thesis by (simp add: evolves_refl)
next
  case (fresh g s1 remaining)
  note eff = reserve_fresh_effect [OF wf fresh(3,5,8)]
  note guards = reserve_guards_ok [OF fresh(3)]
  note acq = acquire_leases [OF fresh(5)]
  have st: "steps_wf (st_attempts s)"
    and ls: "leases_wf (st_attempts s) (st_leases s) (retired_pairs s) (halted_pairs s)"
    and rc: "recon_wf (st_attempts s) (st_reconciliations s)"
    and gid: "\<And>i g. st_grants s i = Some g \<Longrightarrow> gr_id g = i"
    using wf by (simp_all add: wf_store_def)
  have s1: "st_attempts s1 = st_attempts s" by (subst acq(1)) simp
  have new: "\<And>b. b \<in> set (st_attempts s) \<Longrightarrow> at_id b \<noteq> at_id a \<and> at_request b \<noteq> at_request a
      \<and> \<not> (pair_of b = pair_of a \<and> at_operation_index b = at_operation_index a)"
    using fresh(8) by (simp add: insert_attempt_ok s1)
  have ord: "\<exists>b\<in>set (st_attempts s). pair_of b = pair_of a \<and> at_operation_index b = i
      \<and> at_state b = Completed" if "at_operation_index a = Suc i" for i
    using reserve_order_ok [OF fresh(4)] that by auto
  have lease: "at_leased_resources b = at_leased_resources a"
    if "b \<in> set (st_attempts s)" "pair_of b = pair_of a" for b
    using reserve_order_ok [OF fresh(4)] that steps_same_leases [OF st that(1)] by metis
  have "leases_wf (st_attempts s @ [a]) (st_leases s1) (retired_pairs s) (halted_pairs s)"
  proof (rule leases_wf_admit [OF ls])
    show "distinct (map fst (st_leases s1))"
      using acq(2) ls by (simp add: leases_wf_def)
    show "map_of (st_leases s1) k = (if k \<in> resource_keys a then Some (pair_of a)
        else map_of (st_leases s) k)" for k
      using acq(3) [of k] by (simp add: lease_owner_def resource_keys_def)
    show "k \<in> resource_keys a \<Longrightarrow> map_of (st_leases s) k \<in> {None, Some (pair_of a)}" for k
      using acq(4) [of k] by (simp add: lease_owner_def resource_keys_def)
  qed (use guards in simp_all)
  moreover have "steps_wf (st_attempts s @ [a])"
    by (rule steps_wf_snoc [OF st new ord lease]) (use assms(2) in auto)
  ultimately have "wf_store s'"
    using recon_wf_snoc [OF rc] gid guards(3)
    by (auto simp: wf_store_def eff retired_pairs_def halted_pairs_def)
  moreover have "evolves s s'"
    using evolves_refl [of s] guards(3) debit_shrinks [OF fresh(6)]
    by (auto simp: eff evolves_def intro!: rows_evolve_append maps_evolve_upd row_orders)
  ultimately show ?thesis ..
qed

section \<open>Recovery takeover\<close>

lemma takeover_source_ok:
  assumes "takeover_source s a i = Inr q"
  obtains src where "load_attempt s i = Some src" "q = pair_of src" "pair_of src \<notin> retired_pairs s"
    "\<not> source_pair_has_dispatched s (at_grant src) (at_plan src)"
    "\<not> source_pair_has_active_reconciliation s (at_grant src) (at_plan src)"
    "at_state src \<in> {Partial, Unknown}
       \<or> (recovery_destination_exists s (at_grant src) (at_plan src)
          \<and> at_state src \<in> {Intent, Rejected, Completed})"
    "at_leased_resources src = at_leased_resources a"
proof -
  from assms obtain src where src: "load_attempt s i = Some src"
    unfolding takeover_source_def by auto
  with assms show ?thesis
    by (intro that [OF src])
      (auto simp: takeover_source_def Let_def retired_pairs_iff split: if_splits)
qed

lemma takeover_sources_ok:
  assumes "takeover_sources s a is = Inr owners"
  shows "q \<in> set owners \<longleftrightarrow> (\<exists>i\<in>set is. takeover_source s a i = Inr q)"
    and "i \<in> set is \<Longrightarrow> \<exists>q. takeover_source s a i = Inr q"
    and "distinct owners"
proof -
  have "(\<forall>q. q \<in> set owners \<longleftrightarrow> (\<exists>i\<in>set is. takeover_source s a i = Inr q))
      \<and> (\<forall>i\<in>set is. \<exists>q. takeover_source s a i = Inr q) \<and> distinct owners"
    using assms by (induction "is" arbitrary: owners) auto
  then show "q \<in> set owners \<longleftrightarrow> (\<exists>i\<in>set is. takeover_source s a i = Inr q)"
    "i \<in> set is \<Longrightarrow> \<exists>q. takeover_source s a i = Inr q" "distinct owners" by blast+
qed

lemma insert_retirements:
  assumes "fold_err (insert_retirement request) olds s = Inr s'"
  shows "s' = s\<lparr>st_retirements := st_retirements s @ map (\<lambda>(g, p). (g, p, request)) olds\<rparr>"
  using assms
proof (induction olds arbitrary: s)
  case Nil
  then show ?case by simp
next
  case (Cons q olds)
  from Cons.prems obtain t where t: "insert_retirement request q s = Inr t"
    "fold_err (insert_retirement request) olds t = Inr s'" by auto
  have "t = s\<lparr>st_retirements := st_retirements s @ [(fst q, snd q, request)]\<rparr>"
    using t(1) by (simp add: insert_retirement_def split: if_splits)
  with Cons.IH [OF t(2)] show ?case by (simp add: split_def)
qed

lemma takeover_ok:
  assumes "store_takeover_recovery E clk a snap run rt s = Inr (res, s')"
  obtains
    (existing) b where "res = Existing b" "s' = s"
  | (fresh) g olds s1 remaining where "res = Reserved a"
      "load_recovery_takeover s (rt_request rt) = None"
      "load_attempt_by_request s (at_request a) = None"
      "takeover_guards E clk a snap s = Inr g"
      "takeover_sources s a (rt_unresolved rt) = Inr olds"
      "fold_err (move_lease olds (at_grant a) (at_plan a)) (at_leased_resources a) s = Inr s1"
      "budget_checked_sub (gr_remaining g) (at_reserved a) = Some remaining"
      "st_runs s (ru_id run) = None"
      "\<forall>b\<in>set (st_attempts s). at_id b \<noteq> at_id a \<and> at_request b \<noteq> at_request a
         \<and> \<not> (pair_of b = pair_of a \<and> at_operation_index b = 0)"
      "s' = (update_grant (g\<lparr>gr_remaining := remaining\<rparr>) s1)
         \<lparr>st_retirements := st_retirements s @ map (\<lambda>(g, p). (g, p, rt_request rt)) olds,
          st_attempts := st_attempts s @ [a\<lparr>at_operation_index := 0\<rparr>],
          st_runs := (st_runs s)(ru_id run \<mapsto> run),
          st_takeovers := st_takeovers s @ [rt]\<rparr>"
proof (cases "load_recovery_takeover s (rt_request rt)")
  case (Some r)
  with assms obtain b where "res = Existing b" "s' = s"
    by (auto simp: store_takeover_recovery_def split: if_splits)
  then show ?thesis by (rule existing)
next
  case fresh_takeover: None
  show ?thesis
  proof (cases "load_attempt_by_request s (at_request a)")
    case (Some b)
    with assms fresh_takeover have "res = Existing b" "s' = s"
      by (auto simp: store_takeover_recovery_def split: if_splits)
    then show ?thesis by (rule existing)
  next
    case None
    with assms fresh_takeover obtain g olds s1 s2 remaining s3 s4 where steps:
      "takeover_guards E clk a snap s = Inr g"
      "takeover_sources s a (rt_unresolved rt) = Inr olds"
      "fold_err (move_lease olds (at_grant a) (at_plan a)) (at_leased_resources a) s = Inr s1"
      "fold_err (insert_retirement (rt_request rt)) olds s1 = Inr s2"
      "budget_checked_sub (gr_remaining g) (at_reserved a) = Some remaining"
      "insert_attempt (a\<lparr>at_operation_index := 0\<rparr>)
         (update_grant (g\<lparr>gr_remaining := remaining\<rparr>) s2) = Inr s3"
      "insert_run run s3 = Inr s4" "insert_takeover rt s4 = Inr s'" "res = Reserved a"
      by (auto simp: store_takeover_recovery_def simp del: insert_attempt_ok)
    from move_leases (1) [OF steps(3)] obtain Ls where s1: "s1 = s\<lparr>st_leases := Ls\<rparr>" ..
    note s2 = insert_retirements [OF steps(4)]
    have s3: "s3 = (update_grant (g\<lparr>gr_remaining := remaining\<rparr>) s2)
        \<lparr>st_attempts := st_attempts s @ [a\<lparr>at_operation_index := 0\<rparr>]\<rparr>"
      and new: "\<forall>b\<in>set (st_attempts s). at_id b \<noteq> at_id a \<and> at_request b \<noteq> at_request a
         \<and> \<not> (pair_of b = pair_of a \<and> at_operation_index b = 0)"
      using steps(6) by (simp_all add: insert_attempt_ok s1 s2)
    have s4: "s4 = s3\<lparr>st_runs := (st_runs s)(ru_id run \<mapsto> run)\<rparr>" "st_runs s (ru_id run) = None"
      using steps(7) by (auto simp: insert_run_def s1 s2 s3 split: if_splits)
    have "s' = s4\<lparr>st_takeovers := st_takeovers s @ [rt]\<rparr>"
      using steps(8) by (auto simp: insert_takeover_def s1 s2 s3 s4 split: if_splits)
    with fresh_takeover None steps(1-3,5,9) new s4(2) show ?thesis
      by (intro fresh) (auto simp: s1 s2 s3 s4 update_grant_def)
  qed
qed

lemma leases_wf_takeover:
  assumes "leases_wf As Ls R H" "distinct (map fst Ls')"
    and own: "\<And>k. map_of Ls' k = (if k \<in> resource_keys a then Some (pair_of a) else map_of Ls k)"
    and src: "\<And>k. k \<in> resource_keys a \<Longrightarrow> \<exists>q\<in>Q. map_of Ls k = Some q"
    and all: "\<And>k q. q \<in> Q \<Longrightarrow> map_of Ls k = Some q \<Longrightarrow> k \<in> resource_keys a"
    and disp: "\<And>b. b \<in> set As \<Longrightarrow> pair_of b \<in> Q \<Longrightarrow> at_state b \<noteq> Dispatched"
    and "pair_of a \<notin> R" "pair_of a \<notin> Q" "pair_of a \<notin> H" "at_state a \<noteq> Dispatched"
  shows "leases_wf (As @ [a]) Ls' (R \<union> Q) H"
proof -
  note old = leases_wfD [OF assms(1)]
  have "map_of Ls' k = Some (pair_of x)"
    if x: "x \<in> set (As @ [a])" "\<not> resolved (at_state x)" "pair_of x \<notin> R \<union> Q" "k \<in> resource_keys x" for x k
  proof (cases "x = a")
    case False
    with x old(2) have o': "map_of Ls k = Some (pair_of x)" by auto
    with src [of k] x(3) have "k \<notin> resource_keys a" by auto
    with own o' show ?thesis by simp
  qed (use own x in simp)
  moreover have "q \<notin> R \<union> Q \<and> q \<notin> H \<and> (\<exists>x\<in>set (As @ [a]). pair_of x = q \<and> k \<in> resource_keys x)"
    if "map_of Ls' k = Some q" for k q
  proof (cases "k \<in> resource_keys a")
    case True
    with that own assms(7-9) show ?thesis by auto
  next
    case False
    with that own have o': "map_of Ls k = Some q" by simp
    with all False have "q \<notin> Q" by blast
    with o' old(3-5) show ?thesis by (metis Un_iff set_append)
  qed
  moreover have "at_state x = Dispatched \<longrightarrow> pair_of x \<notin> R \<union> Q" if "x \<in> set (As @ [a])" for x
    using that disp assms(10) old(6) by auto
  moreover have "pair_of x \<in> H \<longrightarrow> resolved (at_state x)" if "x \<in> set (As @ [a])" for x
    using that assms(9) old(7) by auto
  ultimately show ?thesis using assms(2) unfolding leases_wf_def by blast
qed


lemma takeover_preserves:
  assumes "at_state a = Intent" "at_receipt a = None" "at_operation_index a = 0"
    and wf: "wf_store s" and res: "store_takeover_recovery E clk a snap run rt s = Inr (out, s')"
  shows "wf_store s' \<and> evolves s s'"
  using res
proof (cases rule: takeover_ok)
  case (existing b)
  with wf show ?thesis by (simp add: evolves_refl)
next
  case (fresh g olds s1 remaining)
  note guards = takeover_guards_ok [OF fresh(4)]
  note srcs = takeover_sources_ok [OF fresh(5)]
  note mv = move_leases [OF fresh(6)]
  have st: "steps_wf (st_attempts s)"
    and ls: "leases_wf (st_attempts s) (st_leases s) (retired_pairs s) (halted_pairs s)"
    and rc: "recon_wf (st_attempts s) (st_reconciliations s)"
    and gid: "\<And>i g. st_grants s i = Some g \<Longrightarrow> gr_id g = i"
    using wf by (simp_all add: wf_store_def)
  from mv(1) obtain Ls where s1: "s1 = s\<lparr>st_leases := Ls\<rparr>" ..
  have a0: "a\<lparr>at_operation_index := 0\<rparr> = a" using assms(3) by (cases a) simp
  have gr: "gr_id g = at_grant a" "st_grants s (at_grant a) = Some g"
    using gid guards(3) by auto
  have s': "s' = s\<lparr>st_grants := (st_grants s)(at_grant a \<mapsto> g\<lparr>gr_remaining := remaining\<rparr>),
      st_leases := Ls,
      st_retirements := st_retirements s @ map (\<lambda>(g, p). (g, p, rt_request rt)) olds,
      st_attempts := st_attempts s @ [a], st_runs := (st_runs s)(ru_id run \<mapsto> run),
      st_takeovers := st_takeovers s @ [rt]\<rparr>"
    using fresh(10) gr by (simp add: s1 a0 update_grant_def)
  have no_pair: "pair_of b \<noteq> pair_of a" if b: "b \<in> set (st_attempts s)" for b
  proof
    assume eq: "pair_of b = pair_of a"
    show False
    proof (cases "at_operation_index b")
      case 0
      with fresh(9) b eq show False by blast
    next
      case (Suc n)
      with steps_below_completed [OF st b, of 0] obtain c where "c \<in> set (st_attempts s)"
        "pair_of c = pair_of b" "at_operation_index c = 0" by auto
      with fresh(9) eq show False by metis
    qed
  qed
  have source: "\<exists>b\<in>set (st_attempts s). pair_of b = q \<and> resource_keys b = resource_keys a
      \<and> (\<forall>c\<in>set (st_attempts s). pair_of c = q \<longrightarrow> at_state c \<noteq> Dispatched)"
    if q: "q \<in> set olds" for q
  proof -
    from q srcs(1) [of q] obtain i where "takeover_source s a i = Inr q" by blast
    then obtain b where b: "load_attempt s i = Some b" "q = pair_of b"
      "\<not> source_pair_has_dispatched s (at_grant b) (at_plan b)"
      "at_leased_resources b = at_leased_resources a" by (rule takeover_source_ok)
    with load_attempt_iff [OF st] show ?thesis
      by (intro bexI [of _ b]) (auto simp: source_pair_has_dispatched_def list_ex_iff resource_keys_def)
  qed
  have "leases_wf (st_attempts s @ [a]) Ls (retired_pairs s \<union> set olds) (halted_pairs s)"
  proof (rule leases_wf_takeover [OF ls])
    show "distinct (map fst Ls)"
      using mv(2) leases_wfD (1) [OF ls] by (simp add: s1)
    show "map_of Ls k = (if k \<in> resource_keys a then Some (pair_of a) else map_of (st_leases s) k)" for k
      using mv(3) [of k] by (simp add: lease_owner_def resource_keys_def s1)
    show "k \<in> resource_keys a \<Longrightarrow> \<exists>q\<in>set olds. map_of (st_leases s) k = Some q" for k
      using mv(4) [of k] by (simp add: lease_owner_def resource_keys_def)
    show "k \<in> resource_keys a" if q: "q \<in> set olds" "map_of (st_leases s) k = Some q" for k q
    proof -
      from source [OF q(1)] obtain b where b: "b \<in> set (st_attempts s)" "pair_of b = q"
        "resource_keys b = resource_keys a" by blast
      from leases_wfD (5) [OF ls q(2)] obtain c where c: "c \<in> set (st_attempts s)" "pair_of c = q"
        "k \<in> resource_keys c" by blast
      with b steps_same_leases [OF st b(1) c(1)] show ?thesis by (simp add: resource_keys_def)
    qed
    show "at_state b \<noteq> Dispatched" if "b \<in> set (st_attempts s)" "pair_of b \<in> set olds" for b
      using source [OF that(2)] that(1) by blast
    show "pair_of a \<notin> set olds" using source no_pair by metis
  qed (use guards assms(1) in simp_all)
  moreover have "steps_wf (st_attempts s @ [a])"
    by (rule steps_wf_snoc [OF st]) (use fresh(9) assms(2,3) no_pair in auto)
  moreover have "retired_pairs s' = retired_pairs s \<union> set olds" "halted_pairs s' = halted_pairs s"
    by (auto simp: s' retired_pairs_def halted_pairs_def split_def image_Un image_image)
  ultimately have "wf_store s'"
    using recon_wf_snoc [OF rc] gid gr unfolding wf_store_def by (simp add: s')
  moreover have "evolves s s'"
    using evolves_refl [of s] gr debit_shrinks [OF fresh(7)] fresh(8)
    by (auto simp: s' evolves_def intro!: rows_evolve_append maps_evolve_upd row_orders)
  ultimately show ?thesis ..
qed

end
