(* ===== verification/Store_Recovery.thy ===== *)
theory Store_Recovery
  imports Store_Admission
begin

text \<open>
  Uncertain outcomes in the journal: claiming and finishing a reconciliation, and
  abandoning a halted run. As in the other theories, each operation is inverted and then
  shown to keep the invariants and to move the journal forward.
\<close>

section \<open>Reconciliation rows\<close>

lemma recon_wfD:
  assumes "recon_wf As Rs"
  shows "distinct (map rc_request Rs)"
    and "map rc_ordinal (filter (\<lambda>r. rc_attempt r = i) Rs)
           = [0..<length (filter (\<lambda>r. rc_attempt r = i) Rs)]"
    and "r \<in> set Rs \<Longrightarrow> rc_state r = Claimed \<Longrightarrow>
           \<exists>a\<in>set As. at_id a = rc_attempt r \<and> at_state a = Unknown"
    and "q \<in> set Rs \<Longrightarrow> r \<in> set Rs \<Longrightarrow> rc_state q = Claimed \<Longrightarrow> rc_state r = Claimed
           \<Longrightarrow> rc_attempt q = rc_attempt r \<Longrightarrow> q = r"
  using assms unfolding recon_wf_def by blast+

lemma next_ordinal_upt: "next_ordinal [0..<n] = n"
proof (cases n)
  case (Suc m)
  have "Max (set [0..<Suc m]) = m" by (intro Max_eqI) auto
  moreover have "[0..<Suc m] \<noteq> []" by simp
  ultimately show ?thesis unfolding next_ordinal_def Suc by (metis list.exhaust list.simps(5))
qed (simp add: next_ordinal_def)

lemma recon_wf_insert:
  assumes "recon_wf As Rs" "a \<in> set As" "at_id a = rc_attempt r" "at_state a = Unknown"
    and new: "\<And>q. q \<in> set Rs \<Longrightarrow> rc_request q \<noteq> rc_request r"
    and idle: "\<And>q. q \<in> set Rs \<Longrightarrow> rc_attempt q = rc_attempt r \<Longrightarrow> rc_state q \<noteq> Claimed"
    and ord: "rc_ordinal r = length (filter (\<lambda>q. rc_attempt q = rc_attempt r) Rs)"
  shows "recon_wf As (Rs @ [r])"
  unfolding recon_wf_def
proof (intro conjI allI ballI impI)
  note wf = recon_wfD [OF assms(1)]
  show "distinct (map rc_request (Rs @ [r]))"
    using wf(1) new by fastforce
  show "map rc_ordinal (filter (\<lambda>q. rc_attempt q = i) (Rs @ [r]))
      = [0..<length (filter (\<lambda>q. rc_attempt q = i) (Rs @ [r]))]" for i
    using wf(2) [of i] ord by (cases "rc_attempt r = i") simp_all
  show "\<exists>a\<in>set As. at_id a = rc_attempt q \<and> at_state a = Unknown"
    if "q \<in> set (Rs @ [r])" "rc_state q = Claimed" for q
    using that wf(3) [of q] assms(2-4) by auto
  show "p = q" if "p \<in> set (Rs @ [r])" "q \<in> set (Rs @ [r])" "rc_state p = Claimed"
    "rc_state q = Claimed" "rc_attempt p = rc_attempt q" for p q
  proof -
    have "p \<in> set Rs \<or> p = r" "q \<in> set Rs \<or> q = r" using that(1,2) by auto
    with that(3-5) wf(4) [of p q] idle show ?thesis by metis
  qed
qed

lemma wf_insert_recon:
  assumes "wf_store s" "a \<in> set (st_attempts s)" "at_id a = rc_attempt r" "at_state a = Unknown"
    and "\<And>q. q \<in> set (st_reconciliations s) \<Longrightarrow> rc_request q \<noteq> rc_request r"
    and "\<And>q. q \<in> set (st_reconciliations s) \<Longrightarrow> rc_attempt q = rc_attempt r \<Longrightarrow> rc_state q \<noteq> Claimed"
    and "rc_ordinal r = length (filter (\<lambda>q. rc_attempt q = rc_attempt r) (st_reconciliations s))"
  shows "wf_store (s\<lparr>st_reconciliations := st_reconciliations s @ [r]\<rparr>)"
  using assms recon_wf_insert [of "st_attempts s" "st_reconciliations s" a r]
  by (simp add: wf_store_def retired_pairs_def halted_pairs_def)

lemma recon_wf_close:
  assumes "recon_wf As Rs" "r \<in> set Rs" "recon_evolves r r'" "rc_state r' \<noteq> Claimed"
  shows "recon_wf As (set_row rc_request r' Rs)"
proof -
  note wf = recon_wfD [OF assms(1)]
  have row: "x = r" if "x \<in> set Rs" "rc_request x = rc_request r'" for x
    using that assms(2,3) distinct_map_eq [OF wf(1)] by (auto simp: recon_evolves_def)
  have ids: "rc_attempt r' = rc_attempt r" "rc_ordinal r' = rc_ordinal r"
    using assms(3) by (simp_all add: recon_evolves_def)
  have same: "map rc_request (set_row rc_request r' Rs) = map rc_request Rs"
    by (rule set_row_keys)
  have filt: "map rc_ordinal (filter (\<lambda>q. rc_attempt q = i) (set_row rc_request r' Rs))
      = map rc_ordinal (filter (\<lambda>q. rc_attempt q = i) Rs)" for i
  proof -
    have "map rc_ordinal (filter (\<lambda>q. rc_attempt q = i) (set_row rc_request r' Qs))
        = map rc_ordinal (filter (\<lambda>q. rc_attempt q = i) Qs)" if "set Qs \<subseteq> set Rs" for Qs
      using that row ids by (induction Qs) (auto simp: set_row_def)
    then show ?thesis by simp
  qed
  then have len: "length (filter (\<lambda>q. rc_attempt q = i) (set_row rc_request r' Rs))
      = length (filter (\<lambda>q. rc_attempt q = i) Rs)" for i
    by (metis length_map)
  have mem: "x \<in> set Rs" if "x \<in> set (set_row rc_request r' Rs)" "rc_state x = Claimed" for x
    using that assms(4) by (auto simp: in_set_row)
  show ?thesis
    unfolding recon_wf_def
  proof (intro conjI allI ballI impI)
    show "distinct (map rc_request (set_row rc_request r' Rs))"
      using wf(1) by (simp add: same)
    show "map rc_ordinal (filter (\<lambda>q. rc_attempt q = i) (set_row rc_request r' Rs))
        = [0..<length (filter (\<lambda>q. rc_attempt q = i) (set_row rc_request r' Rs))]" for i
      using wf(2) [of i] by (simp add: filt len)
  qed (use mem wf(3,4) in blast)+
qed

lemma update_reconciliation_simps [simp]:
  "st_attempts (update_reconciliation r s) = st_attempts s"
  "st_leases (update_reconciliation r s) = st_leases s"
  "st_reconciliations (update_reconciliation r s) = set_row rc_request r (st_reconciliations s)"
  "st_grants (update_reconciliation r s) = st_grants s"
  "st_retirements (update_reconciliation r s) = st_retirements s"
  "st_abandonments (update_reconciliation r s) = st_abandonments s"
  "retired_pairs (update_reconciliation r s) = retired_pairs s"
  "halted_pairs (update_reconciliation r s) = halted_pairs s"
  by (simp_all add: update_reconciliation_def retired_pairs_def halted_pairs_def)

lemma close_recon_preserves:
  assumes "wf_store s" "r \<in> set (st_reconciliations s)" "recon_evolves r r'" "rc_state r' \<noteq> Claimed"
  shows "wf_store (update_reconciliation r' s) \<and> evolves s (update_reconciliation r' s)"
proof
  have rc: "recon_wf (st_attempts s) (st_reconciliations s)"
    using assms(1) by (simp add: wf_store_def)
  show "wf_store (update_reconciliation r' s)"
    using assms recon_wf_close [OF rc assms(2-4)] by (simp add: wf_store_def)
  have "rows_evolve recon_evolves (st_reconciliations s) (set_row rc_request r' (st_reconciliations s))"
  proof (rule rows_evolve_set_row [OF recon_evolves_refl])
    fix x assume "x \<in> set (st_reconciliations s)" "rc_request x = rc_request r'"
    with assms(2,3) distinct_map_eq [OF recon_wfD (1) [OF rc], of x r] show "recon_evolves x r'"
      by (simp add: recon_evolves_def)
  qed
  with evolves_refl [of s] show "evolves s (update_reconciliation r' s)"
    by (simp add: evolves_def update_reconciliation_def)
qed

section \<open>Claiming\<close>

lemma insert_reconciliation_ok:
  "insert_reconciliation r s = Inr s' \<longleftrightarrow>
     (\<forall>q\<in>set (st_reconciliations s). rc_request q \<noteq> rc_request r
        \<and> \<not> (rc_attempt q = rc_attempt r \<and> rc_ordinal q = rc_ordinal r)
        \<and> \<not> (rc_attempt q = rc_attempt r \<and> rc_state q = Claimed \<and> rc_state r = Claimed))
     \<and> s' = s\<lparr>st_reconciliations := st_reconciliations s @ [r]\<rparr>"
  by (auto simp: insert_reconciliation_def list_ex_iff)

lemma reconciliation_guards_ok:
  assumes "reconciliation_guards E clk a who budget s = Inr d"
  obtains g where "at_state a \<in> {Unknown, Partial}" "cd_attempt d = a"
    "st_grants s (at_grant a) = Some g" "check_grant E (clk 0) g who (at_profile a) = Inr ()"
    "st_profiles s (at_profile a) = Some (cd_profile d)"
    "profile_digest E (cd_profile d) = Some (at_profile_digest a)"
    "st_plans s (at_plan a) = Some (cd_plan d)"
    "plan_digest E (cd_plan d) = Some (at_plan_digest a)"
    "budget \<noteq> None \<longrightarrow> configuration_authority a g (cd_profile d) (cd_plan d) = Inr ()"
    "\<forall>k\<in>resource_keys a. lease_owner s k = Some (pair_of a)"
    "case budget of None \<Rightarrow> cd_grant d = g
     | Some b \<Rightarrow> \<exists>rem. budget_checked_sub (gr_remaining g) b = Some rem
                    \<and> cd_grant d = g\<lparr>gr_remaining := rem\<rparr>"
proof -
  from assms obtain g where g: "st_grants s (at_grant a) = Some g"
    by (auto simp: reconciliation_guards_def load_ok_iff split: if_splits)
  with assms show ?thesis
    by (intro that [of g])
      (auto simp: reconciliation_guards_def load_ok_iff check_digest_ok_iff check_leases_held_iff
        split: if_splits option.splits)
qed

lemma claim_reconciliation_ok:
  assumes "claim_reconciliation E clk i request who budget s = Inr (res, s')"
  obtains
    (existing) r where "res = ClaimExisting r" "s' = s"
      "load_reconciliation_by_request s request = Some r" "rc_attempt r = i" "rc_principal r = who"
  | (claimed) a a' d r s1 where
      "res = ClaimClaimed \<lparr>cl_record = r, cl_dispatch = d\<lparr>cd_attempt := a'\<rparr>\<rparr>"
      "load_reconciliation_by_request s request = None"
      "load_active_reconciliation s i = None" "load_attempt s i = Some a"
      "reconciliation_guards E clk a who budget s = Inr d"
      "s1 = (if budget = None then s else update_grant (cd_grant d) s)"
      "r = claimed_record E (clk 1) (at_id a) request who (next_ordinal (map rc_ordinal
         (filter (\<lambda>r. rc_attempt r = at_id a) (st_reconciliations s))))"
      "insert_reconciliation r s1 = Inr (s1\<lparr>st_reconciliations := st_reconciliations s @ [r]\<rparr>)"
      "a' = (if at_state a = Partial
        then a\<lparr>at_state := Unknown, at_updated_at := env_timestamp_text E (clk 2)\<rparr> else a)"
      "s' = (if at_state a = Partial then update_attempt a' s1 else s1)
              \<lparr>st_reconciliations := st_reconciliations s @ [r]\<rparr>"
proof (cases "load_reconciliation_by_request s request")
  case (Some r)
  with assms show ?thesis
    by (intro existing [of r]) (auto simp: claim_reconciliation_def split: if_splits)
next
  case None
  show ?thesis
  proof (cases "load_active_reconciliation s i")
    case (Some r)
    with assms None show ?thesis by (simp add: claim_reconciliation_def)
  next
    case idle: None
    with assms None obtain a d where a: "load_attempt s i = Some a"
      "reconciliation_guards E clk a who budget s = Inr d"
      by (auto simp: claim_reconciliation_def)
    define s1 where "s1 = (if budget = None then s else update_grant (cd_grant d) s)"
    have s1r: "st_reconciliations s1 = st_reconciliations s" by (simp add: s1_def)
    define r where "r = claimed_record E (clk 1) (at_id a) request who (next_ordinal (map rc_ordinal
         (filter (\<lambda>r. rc_attempt r = at_id a) (st_reconciliations s))))"
    from assms have eq: "rbind (sqlite_unsigned ''reconciliation ordinal''
        (next_ordinal (map rc_ordinal (filter (\<lambda>r. rc_attempt r = at_id a) (st_reconciliations s)))))
        (\<lambda>_. rbind (insert_reconciliation r s1) (\<lambda>s2.
          let a' = (if at_state a = Partial
                then a\<lparr>at_state := Unknown, at_updated_at := env_timestamp_text E (clk 2)\<rparr> else a);
              s3 = (if at_state a = Partial then update_attempt a' s2 else s2)
          in Inr (ClaimClaimed \<lparr>cl_record = r, cl_dispatch = d\<lparr>cd_attempt := a'\<rparr>\<rparr>, s3)))
        = Inr (res, s')"
      unfolding claim_reconciliation_def None idle a(1) option.case ok_or_simps rbind_simps a(2)
        Let_def s1_def [symmetric] s1r r_def [symmetric] .
    then obtain s2 where s2: "insert_reconciliation r s1 = Inr s2" by auto
    then have s2r: "s2 = s1\<lparr>st_reconciliations := st_reconciliations s @ [r]\<rparr>"
      by (simp add: insert_reconciliation_ok s1r)
    from eq s2 show ?thesis
      by (intro claimed [OF _ None idle a s1_def r_def])
        (auto simp: Let_def s2r update_attempt_def)
  qed
qed

lemma wf_update_grant:
  assumes "wf_store s" "st_grants s (gr_id g) = Some h" "grant_shrinks h g"
  shows "wf_store (update_grant g s) \<and> evolves s (update_grant g s)"
proof
  show "wf_store (update_grant g s)"
    using assms by (auto simp: wf_store_def update_grant_def retired_pairs_def halted_pairs_def)
  show "evolves s (update_grant g s)"
    using evolves_refl [of s] assms(2,3)
    by (auto simp: evolves_def intro!: maps_evolve_upd row_orders)
qed

lemma load_active_None_iff:
  "load_active_reconciliation s i = None \<longleftrightarrow>
     (\<forall>r\<in>set (st_reconciliations s). rc_attempt r = i \<longrightarrow> rc_state r \<noteq> Claimed)"
  by (auto simp: load_active_reconciliation_def find_None_iff)

lemma claim_reconciliation_preserves:
  assumes wf: "wf_store s" and res: "claim_reconciliation E clk i request who budget s = Inr (out, s')"
  shows "wf_store s' \<and> evolves s s'"
  using res
proof (cases rule: claim_reconciliation_ok)
  case (existing r)
  with wf show ?thesis by (simp add: evolves_refl)
next
  case (claimed a a' d r s1)
  have st: "steps_wf (st_attempts s)" and rc: "recon_wf (st_attempts s) (st_reconciliations s)"
    using wf by (simp_all add: wf_store_def)
  have mem: "a \<in> set (st_attempts s)" and ida: "at_id a = i"
    using claimed(4) load_attempt_iff [OF st] by simp_all
  from claimed(5) obtain g where g: "at_state a \<in> {Unknown, Partial}" "st_grants s (at_grant a) = Some g"
    "case budget of None \<Rightarrow> cd_grant d = g
     | Some b \<Rightarrow> \<exists>rem. budget_checked_sub (gr_remaining g) b = Some rem
                    \<and> cd_grant d = g\<lparr>gr_remaining := rem\<rparr>"
    by (rule reconciliation_guards_ok)
  have "gr_id g = at_grant a" using wf g(2) by (simp add: wf_store_def)
  with g have debit: "st_grants s (gr_id (cd_grant d)) = Some g" "grant_shrinks g (cd_grant d)"
    by (auto simp: debit_shrinks grant_shrinks_refl split: option.splits)
  have s1: "wf_store s1" "evolves s s1" "st_attempts s1 = st_attempts s"
    "st_reconciliations s1 = st_reconciliations s"
    using wf wf_update_grant [OF wf debit] claimed(6) evolves_refl by simp_all
  define t where "t = (if at_state a = Partial then update_attempt a' s1 else s1)"
  have idle: "\<forall>q\<in>set (st_reconciliations s). rc_attempt q = at_id a \<longrightarrow> rc_state q \<noteq> Claimed"
    using claimed(3) ida by (simp add: load_active_None_iff)
  have ev: "attempt_evolves a a'"
    using g(1) by (auto simp: claimed(9) attempt_evolves_def same_identity_def)
  have ua: "at_state a' = Unknown" "at_id a' = at_id a" using g(1) claimed(9) by auto
  have t: "wf_store t \<and> evolves s1 t"
    using s1 wf_update_attempt [OF s1(1) _ ev] mem ua by (auto simp: t_def evolves_refl)
  have a't: "a' \<in> set (st_attempts t)"
  proof (cases "at_state a = Partial")
    case True
    have "same_identity a a'" using ev by (simp add: attempt_evolves_def)
    with True show ?thesis by (simp add: t_def s1(3) set_row_attempt [OF st mem])
  next
    case False
    with mem show ?thesis by (simp add: t_def s1(3) claimed(9))
  qed
  have rt: "st_reconciliations t = st_reconciliations s" by (simp add: t_def s1(4))
  have fields: "rc_request r = request" "rc_attempt r = at_id a" "rc_state r = Claimed"
    "rc_ordinal r = length (filter (\<lambda>q. rc_attempt q = rc_attempt r) (st_reconciliations s))"
    using recon_wfD (2) [OF rc] next_ordinal_upt by (simp_all add: claimed(7) claimed_record_def)
  have "wf_store (t\<lparr>st_reconciliations := st_reconciliations t @ [r]\<rparr>)"
  proof (rule wf_insert_recon [OF conjunct1 [OF t] a't])
    show "rc_request q \<noteq> rc_request r" if "q \<in> set (st_reconciliations t)" for q
      using claimed(8) that by (simp add: insert_reconciliation_ok rt s1(4))
  qed (use ua fields idle rt in simp_all)
  moreover have "evolves t (t\<lparr>st_reconciliations := st_reconciliations t @ [r]\<rparr>)"
    using evolves_refl [of t] by (simp add: evolves_def rows_evolve_append recon_evolves_refl)
  moreover have "s' = t\<lparr>st_reconciliations := st_reconciliations t @ [r]\<rparr>"
    using claimed(10) by (simp add: t_def rt s1(4))
  ultimately show ?thesis
    using t s1(2) evolves_trans by metis
qed

section \<open>Finishing\<close>

lemma finish_reconciliation_ok:
  assumes "finish_reconciliation E clk request receipt completed release_lease s = Inr (a', s')"
  obtains r r' a where
    "load_reconciliation_by_request s request = Some r" "rc_state r = Claimed"
    "load_attempt s (rc_attempt r) = Some a"
    "r' = r\<lparr>rc_receipt := receipt, rc_ended_at := Some (env_timestamp_text E (clk 0)),
            rc_state := (if completed then ReconCompleted
                         else if receipt \<noteq> None then ReconUnknown else ReconFailed)\<rparr>"
    "a' = (if completed
           then a\<lparr>at_state := Completed, at_updated_at := env_timestamp_text E (clk 1)\<rparr>
           else if at_state a = Partial
           then a\<lparr>at_state := Unknown, at_updated_at := env_timestamp_text E (clk 1)\<rparr> else a)"
    "s' = (if completed
           then (if release_lease then release_leases a' else (\<lambda>t. t))
                  (update_attempt a' (update_reconciliation r' s))
           else if at_state a = Partial then update_attempt a' (update_reconciliation r' s)
           else update_reconciliation r' s)"
proof -
  from assms obtain r a where r: "load_reconciliation_by_request s request = Some r"
    "rc_state r = Claimed" "load_attempt s (rc_attempt r) = Some a"
    by (auto simp: finish_reconciliation_def Let_def split: if_splits)
  with assms show ?thesis
    by (intro that [OF r refl])
      (auto simp: finish_reconciliation_def Let_def split: if_splits)
qed

lemma claimed_attempt_unknown:
  assumes "wf_store s" "r \<in> set (st_reconciliations s)" "rc_state r = Claimed"
    "load_attempt s (rc_attempt r) = Some a"
  shows "at_state a = Unknown" "a \<in> set (st_attempts s)"
proof -
  have st: "steps_wf (st_attempts s)" and rc: "recon_wf (st_attempts s) (st_reconciliations s)"
    using assms(1) by (simp_all add: wf_store_def)
  show mem: "a \<in> set (st_attempts s)" using assms(4) load_attempt_iff [OF st] by simp
  from recon_wfD (3) [OF rc assms(2,3)] obtain b where "b \<in> set (st_attempts s)"
    "at_id b = rc_attempt r" "at_state b = Unknown" by blast
  with assms(4) load_attempt_iff [OF st] show "at_state a = Unknown"
    by (metis option.inject)
qed

lemma finish_reconciliation_preserves:
  assumes wf: "wf_store s"
    and res: "finish_reconciliation E clk request receipt completed release_lease s = Inr (a', s')"
  shows "wf_store s' \<and> evolves s s'"
  using res
proof (rule finish_reconciliation_ok)
  fix r r' a
  assume r: "load_reconciliation_by_request s request = Some r" "rc_state r = Claimed"
    "load_attempt s (rc_attempt r) = Some a"
    and r': "r' = r\<lparr>rc_receipt := receipt, rc_ended_at := Some (env_timestamp_text E (clk 0)),
            rc_state := (if completed then ReconCompleted
                         else if receipt \<noteq> None then ReconUnknown else ReconFailed)\<rparr>"
    and a': "a' = (if completed
           then a\<lparr>at_state := Completed, at_updated_at := env_timestamp_text E (clk 1)\<rparr>
           else if at_state a = Partial
           then a\<lparr>at_state := Unknown, at_updated_at := env_timestamp_text E (clk 1)\<rparr> else a)"
    and s': "s' = (if completed
           then (if release_lease then release_leases a' else (\<lambda>t. t))
                  (update_attempt a' (update_reconciliation r' s))
           else if at_state a = Partial then update_attempt a' (update_reconciliation r' s)
           else update_reconciliation r' s)"
  have rc: "recon_wf (st_attempts s) (st_reconciliations s)" using wf by (simp add: wf_store_def)
  have rin: "r \<in> set (st_reconciliations s)"
    using r(1) row_at_SomeD unfolding load_reconciliation_by_request_def by metis
  note a = claimed_attempt_unknown [OF wf rin r(2,3)]
  define t where "t = update_reconciliation r' s"
  have "recon_evolves r r'" "rc_state r' \<noteq> Claimed" "rc_request r' = rc_request r"
    "rc_attempt r' = rc_attempt r"
    using r(2) by (simp_all add: r' recon_evolves_def)
  note close = close_recon_preserves [OF wf rin this(1,2)] and r'f = this
  have t: "wf_store t" "evolves s t" "st_attempts t = st_attempts s"
    using close by (simp_all add: t_def)
  show ?thesis
  proof (cases completed)
    case False
    with s' a(1) t show ?thesis by (simp add: t_def)
  next
    case True
    have ev: "attempt_evolves a a'"
      using True a(1) by (simp add: a' attempt_evolves_def same_identity_def)
    have "rc_state q \<noteq> Claimed" if q: "q \<in> set (st_reconciliations t)" "rc_attempt q = at_id a" for q
    proof
      assume cl: "rc_state q = Claimed"
      with q(1) r'f have "q \<in> set (st_reconciliations s)" "rc_request q \<noteq> rc_request r"
        by (auto simp: t_def in_set_row)
      moreover have "rc_attempt q = rc_attempt r"
        using q(2) r(3) wf load_attempt_iff by (simp add: wf_store_def)
      ultimately show False using recon_wfD (4) [OF rc _ rin cl r(2)] by auto
    qed
    then have upd: "wf_store (update_attempt a' t)" "evolves t (update_attempt a' t)"
      using wf_update_attempt [OF t(1) _ ev] a True t(3) by (auto simp: a')
    moreover have "wf_store (release_leases a' (update_attempt a' t))"
      using resolve_and_release [OF t(1) _ _ ev _ upd(1)] a True t(3) by (simp add: a')
    ultimately show ?thesis
      using True s' t(2) evolves_trans [OF t(2)] by (simp add: t_def)
  qed
qed

section \<open>Abandoning a halted run\<close>

lemma abandon_attempts:
  assumes "wf_store s" "snd ` set nas \<subseteq> set (st_attempts s)"
    "distinct (map (at_id \<circ> snd) nas)" "fold_err (abandon_attempt E clk) nas s = Inr s'"
  shows "wf_store s' \<and> evolves s s' \<and> st_leases s' = st_leases s
    \<and> st_retirements s' = st_retirements s \<and> st_abandonments s' = st_abandonments s
    \<and> st_takeovers s' = st_takeovers s
    \<and> (\<forall>a\<in>snd ` set nas. at_state a \<in> {Completed, Rejected, Intent})
    \<and> (\<forall>b\<in>set (st_attempts s'). (\<exists>a\<in>snd ` set nas. same_identity a b \<and> resolved (at_state b))
         \<or> (b \<in> set (st_attempts s) \<and> at_id b \<notin> at_id ` snd ` set nas))"
  using assms
proof (induction nas arbitrary: s)
  case Nil
  then show ?case by (simp add: evolves_refl)
next
  case (Cons na nas)
  obtain n a where na: "na = (n, a)" by (cases na)
  from Cons.prems(4) na obtain t where t: "abandon_attempt E clk (n, a) s = Inr t"
    "fold_err (abandon_attempt E clk) nas t = Inr s'" by auto
  have mem: "a \<in> set (st_attempts s)" using Cons.prems(2) na by simp
  have st: "steps_wf (st_attempts s)" using Cons.prems(1) by (simp add: wf_store_def)
  define a' where "a' = a\<lparr>at_state := Rejected,
     at_receipt := Some (ReceiptRejected ''operator abandoned halted run before dispatch''),
     at_updated_at := env_timestamp_text E (clk n)\<rparr>"
  have cases: "(t = s \<and> resolved (at_state a)) \<or> (t = update_attempt a' s \<and> at_state a = Intent)"
    using t(1) by (cases "at_state a") (auto simp: abandon_attempt_def a'_def)
  have ev: "attempt_evolves a a'" if "at_state a = Intent"
    using that steps_receipt [OF st mem] by (simp add: a'_def attempt_evolves_def same_identity_def)
  have id: "same_identity a a'" by (simp add: a'_def same_identity_def)
  have t1: "wf_store t \<and> evolves s t"
    using cases Cons.prems(1) ev wf_update_attempt [OF Cons.prems(1) mem, of a']
    by (auto simp: evolves_refl a'_def)
  have att: "st_attempts t = st_attempts s \<or> set (st_attempts t) = insert a' (set (st_attempts s) - {a})"
    using cases set_row_attempt [OF st mem id] by (metis update_attempt_simps(1))
  have d: "distinct (map (at_id \<circ> snd) nas)" "at_id a \<notin> at_id ` snd ` set nas"
    using Cons.prems(3) na by (auto simp: comp_def image_image)
  have rest: "snd ` set nas \<subseteq> set (st_attempts t)"
  proof
    fix b assume nb: "b \<in> snd ` set nas"
    then have b: "b \<in> set (st_attempts s)" using Cons.prems(2) by auto
    from nb d(2) have "b \<noteq> a" by blast
    with b show "b \<in> set (st_attempts t)" using att by (elim disjE) simp_all
  qed
  note ih = Cons.IH [OF conjunct1 [OF t1] rest d(1) t(2)]
  have frame: "st_leases t = st_leases s" "st_retirements t = st_retirements s"
    "st_abandonments t = st_abandonments s" "st_takeovers t = st_takeovers s"
    using cases by auto
  have new: "(\<exists>c\<in>snd ` set (na # nas). same_identity c b \<and> resolved (at_state b))
       \<or> (b \<in> set (st_attempts s) \<and> at_id b \<notin> at_id ` snd ` set (na # nas))"
    if "b \<in> set (st_attempts s')" for b
  proof (cases "\<exists>c\<in>snd ` set nas. same_identity c b \<and> resolved (at_state b)")
    case False
    with ih that have b: "b \<in> set (st_attempts t)" "at_id b \<notin> at_id ` snd ` set nas" by blast+
    show ?thesis
    proof (cases "at_id b = at_id a")
      case True
      have "same_identity a b \<and> resolved (at_state b)"
        using cases
      proof (elim disjE conjE)
        assume "t = s" "resolved (at_state a)"
        with b(1) True steps_same_id [OF st _ mem, of b] show ?thesis by simp
      next
        assume "t = update_attempt a' s"
        with b(1) have "b \<in> insert a' (set (st_attempts s) - {a})"
          by (simp add: set_row_attempt [OF st mem id])
        with True steps_same_id [OF st _ mem, of b] have "b = a'" by blast
        with id show ?thesis by (simp add: a'_def)
      qed
      with na show ?thesis by auto
    next
      case False
      with b att have "b \<in> set (st_attempts s)" by (auto simp: a'_def)
      with False b(2) na show ?thesis by auto
    qed
  qed (use na in auto)
  have states: "\<forall>a\<in>snd ` set (na # nas). at_state a \<in> {Completed, Rejected, Intent}"
    using ih cases na by (cases "at_state a") auto
  show ?case
    using ih frame states new evolves_trans [OF conjunct2 [OF t1]] by simp
qed

lemma abandon_ok:
  assumes "store_abandon_halted_run E clk proposed s = Inr (res, s')"
  obtains
    (existing) "s' = s" "load_halted_run_abandonment_by_request s (ha_request proposed) = Some res"
      "same_halted_run_abandonment res proposed"
  | (fresh) run s1 keys where "res = proposed"
      "load_halted_run_abandonment_by_request s (ha_request proposed) = None"
      "\<not> halted_pair_exists s (ha_grant proposed) (ha_plan proposed)"
      "\<not> recovery_destination_exists s (ha_grant proposed) (ha_plan proposed)"
      "st_runs s (ha_run proposed) = Some run"
      "ru_grant run = ha_grant proposed" "ru_plan run = ha_plan proposed"
      "pair_attempts s (ha_grant proposed) (ha_plan proposed) \<noteq> []"
      "fold_err (abandon_attempt E clk)
         (List.enumerate 0 (pair_attempts s (ha_grant proposed) (ha_plan proposed))) s = Inr s1"
      "keys = lease_keys_for_pair s1 (ha_grant proposed) (ha_plan proposed)"
      "ha_resources proposed = keys"
      "s' = (release_pair_leases (ha_grant proposed) (ha_plan proposed) keys s1)
         \<lparr>st_abandonments := st_abandonments s1 @ [proposed]\<rparr>"
proof (cases "load_halted_run_abandonment_by_request s (ha_request proposed)")
  case (Some r)
  with assms show ?thesis
    by (intro existing) (auto simp: store_abandon_halted_run_def split: if_splits)
next
  case None
  from assms None obtain run s1 where
    "\<not> halted_pair_exists s (ha_grant proposed) (ha_plan proposed)"
    "\<not> recovery_destination_exists s (ha_grant proposed) (ha_plan proposed)"
    "st_runs s (ha_run proposed) = Some run"
    "ru_grant run = ha_grant proposed" "ru_plan run = ha_plan proposed"
    "pair_attempts s (ha_grant proposed) (ha_plan proposed) \<noteq> []"
    "fold_err (abandon_attempt E clk)
       (List.enumerate 0 (pair_attempts s (ha_grant proposed) (ha_plan proposed))) s = Inr s1"
    "ha_resources proposed = lease_keys_for_pair s1 (ha_grant proposed) (ha_plan proposed)"
    "insert_abandonment proposed (release_pair_leases (ha_grant proposed) (ha_plan proposed)
       (lease_keys_for_pair s1 (ha_grant proposed) (ha_plan proposed)) s1) = Inr s'" "res = proposed"
    by (auto simp: store_abandon_halted_run_def Let_def split: option.splits if_splits)
  with None show ?thesis
    by (intro fresh [OF _ None]) (auto simp: insert_abandonment_def release_pair_leases_def split: if_splits)
qed

lemma numbered_pair_attempts:
  assumes "steps_wf (st_attempts s)"
  shows "snd ` set (List.enumerate 0 (pair_attempts s g p)) = set (pair_attempts s g p)"
    and "distinct (map (at_id \<circ> snd) (List.enumerate 0 (pair_attempts s g p)))"
    and "snd ` set (List.enumerate 0 (pair_attempts s g p)) \<subseteq> set (st_attempts s)"
proof -
  show snds: "snd ` set (List.enumerate 0 (pair_attempts s g p)) = set (pair_attempts s g p)"
    by (metis map_snd_enumerate set_map)
  show "distinct (map (at_id \<circ> snd) (List.enumerate 0 (pair_attempts s g p)))"
    unfolding map_map [symmetric] map_snd_enumerate pair_attempts_def
    using assms by (simp add: steps_wf_def distinct_map_filter)
  show "snd ` set (List.enumerate 0 (pair_attempts s g p)) \<subseteq> set (st_attempts s)"
    unfolding snds by (auto simp: pair_attempts_set)
qed

lemma abandon_pair_resolved:
  assumes wf: "wf_store s"
    and fold: "fold_err (abandon_attempt E clk) (List.enumerate 0 (pair_attempts s g p)) s = Inr s1"
    and b: "b \<in> set (st_attempts s1)" "pair_of b = (g, p)"
  shows "resolved (at_state b)"
proof -
  have st: "steps_wf (st_attempts s)" using wf by (simp add: wf_store_def)
  note numbered = numbered_pair_attempts [OF st, where g = g and p = p]
  have "(\<exists>a\<in>set (pair_attempts s g p). same_identity a b \<and> resolved (at_state b))
      \<or> (b \<in> set (st_attempts s) \<and> at_id b \<notin> at_id ` set (pair_attempts s g p))"
    using abandon_attempts [OF wf numbered(3) numbered(2) fold] b(1) unfolding numbered(1) by blast
  then show ?thesis
    using b(2) pair_attempts_set [of s g p] by blast
qed

lemma abandon_preserves:
  assumes wf: "wf_store s" and res: "store_abandon_halted_run E clk proposed s = Inr (out, s')"
  shows "wf_store s' \<and> evolves s s'"
  using res
proof (cases rule: abandon_ok)
  case existing
  with wf show ?thesis by (simp add: evolves_refl)
next
  case (fresh run s1 keys)
  let ?g = "ha_grant proposed" and ?p = "ha_plan proposed"
  have st: "steps_wf (st_attempts s)" using wf by (simp add: wf_store_def)
  note numbered = numbered_pair_attempts [OF st, where g = ?g and p = ?p]
  have s1: "wf_store s1 \<and> evolves s s1"
    using abandon_attempts [OF wf numbered(3) numbered(2) fresh(9)] by blast
  have ls: "leases_wf (st_attempts s1) (st_leases s1) (retired_pairs s1) (halted_pairs s1)"
    using s1 by (simp add: wf_store_def)
  have resd: "\<And>b. b \<in> set (st_attempts s1) \<Longrightarrow> pair_of b = (?g, ?p) \<Longrightarrow> resolved (at_state b)"
    by (rule abandon_pair_resolved [OF wf fresh(9)])
  have hp: "halted_pairs s' = insert (?g, ?p) (halted_pairs s1)"
    unfolding fresh(12) release_pair_leases_def halted_pairs_def by simp
  have rp: "retired_pairs s' = retired_pairs s1"
    unfolding fresh(12) release_pair_leases_def retired_pairs_def by simp
  define Ls where "Ls = filter (\<lambda>(key, owner). \<not> (key \<in> keys \<and> owner = (?g, ?p))) (st_leases s1)"
  have "leases_wf (st_attempts s1) Ls (retired_pairs s1) (halted_pairs s1)"
    unfolding Ls_def by (rule leases_wf_filter [OF ls]) (rule resd)
  note dropped = leases_wfD [OF this]
  have gone: "map_of Ls k \<noteq> Some (?g, ?p)" for k
  proof
    assume "map_of Ls k = Some (?g, ?p)"
    then have "(k, ?g, ?p) \<in> set (st_leases s1)" "k \<notin> keys"
      by (auto simp: Ls_def dest!: map_of_SomeD)
    then show False by (force simp: fresh(10) lease_keys_for_pair_def image_iff)
  qed
  have "leases_wf (st_attempts s1) Ls (retired_pairs s1) (insert (?g, ?p) (halted_pairs s1))"
    unfolding leases_wf_def
  proof (intro conjI ballI allI impI)
    show "distinct (map fst Ls)" by (rule dropped(1))
    show "map_of Ls k = Some (pair_of a)"
      if "a \<in> set (st_attempts s1)" "\<not> resolved (at_state a)" "pair_of a \<notin> retired_pairs s1"
        "k \<in> resource_keys a" for a k
      using dropped(2) that by blast
    show "q \<notin> insert (?g, ?p) (halted_pairs s1)" if "map_of Ls k = Some q" for k q
      using gone [of k] dropped(4) [OF that] that by auto
    show "resolved (at_state a)"
      if "a \<in> set (st_attempts s1)" "pair_of a \<in> insert (?g, ?p) (halted_pairs s1)" for a
      using resd dropped(7) that by blast
  qed (use dropped in blast)+
  then have "wf_store s'"
    using s1 by (simp add: wf_store_def hp rp) (simp add: fresh(12) release_pair_leases_def Ls_def)
  moreover have "evolves s1 s'"
    using evolves_refl [of s1]
    by (simp add: fresh(12) evolves_def release_pair_leases_def rows_evolve_append)
  ultimately show ?thesis using s1 evolves_trans by blast
qed

end
