(* ===== verification/Store_Machine.thy ===== *)
theory Store_Machine
  imports Store_Recovery
begin

text \<open>
  The journal as a state machine: \<open>journal_step\<close> has one rule per operation of the store,
  under what its caller guarantees, and \<open>reachable\<close> collects the journals that
  sequences of them produce. The locale \<open>journal_op\<close> is the contract every operation
  meets; it is interpreted on each of them, and the invariants of reachable journals and
  the safety theorems about dispatch rest on those interpretations.
\<close>

section \<open>The contract of an operation\<close>

locale journal_op =
  fixes op :: "'p \<Rightarrow> 'a tx" and ok :: "'p \<Rightarrow> bool"
  assumes preserves:
    "ok p \<Longrightarrow> wf_store s \<Longrightarrow> op p s = Inr (x, s') \<Longrightarrow> wf_store s' \<and> evolves s s'"
begin

lemma keeps_wf: "ok p \<Longrightarrow> wf_store s \<Longrightarrow> op p s = Inr (x, s') \<Longrightarrow> wf_store s'"
  using preserves by blast

lemma moves_forward: "ok p \<Longrightarrow> wf_store s \<Longrightarrow> op p s = Inr (x, s') \<Longrightarrow> evolves s s'"
  using preserves by blast

lemma repeated:
  assumes "wf_store s" "\<forall>p\<in>set ps. ok p"
    "fold_err (\<lambda>p s. rbind (op p s) (\<lambda>(_, s'). Inr s')) ps s = Inr t"
  shows "wf_store t \<and> evolves s t"
  using assms
proof (induction ps arbitrary: s)
  case Nil
  then show ?case by (simp add: evolves_refl)
next
  case (Cons p ps)
  from Cons.prems(3) obtain x s1 where s1: "op p s = Inr (x, s1)"
    "fold_err (\<lambda>p s. rbind (op p s) (\<lambda>(_, s'). Inr s')) ps s1 = Inr t" by auto
  with preserves [of p s x s1] Cons.prems(1,2) have "wf_store s1 \<and> evolves s s1" by simp
  with Cons.IH [OF _ _ s1(2)] Cons.prems(2) show ?case
    using evolves_trans by auto
qed

end

text \<open>An operation on the tables of entities alone meets the contract when those tables
  only grow.\<close>

definition same_inner :: "store \<Rightarrow> store \<Rightarrow> bool" where
  "same_inner s t \<longleftrightarrow>
     st_attempts t = st_attempts s \<and> st_leases t = st_leases s
     \<and> st_retirements t = st_retirements s \<and> st_abandonments t = st_abandonments s
     \<and> st_reconciliations t = st_reconciliations s \<and> st_takeovers t = st_takeovers s"

lemma outer_frame:
  assumes "wf_store s" "same_inner s t"
    and "\<And>i g. st_grants t i = Some g \<Longrightarrow> gr_id g = i"
    and "maps_evolve (=) (st_profiles s) (st_profiles t)"
    and "maps_evolve grant_shrinks (st_grants s) (st_grants t)"
    and "maps_evolve (=) (st_plans s) (st_plans t)"
    and "maps_evolve run_advances (st_runs s) (st_runs t)"
    and "rows_evolve (=) (st_case_facts s) (st_case_facts t)"
  shows "wf_store t \<and> evolves s t"
proof -
  have "evolves s s" by (rule evolves_refl)
  with assms show ?thesis
    by (simp add: wf_store_def evolves_def same_inner_def retired_pairs_def halted_pairs_def)
qed

lemma wf_grant_id: "wf_store s \<Longrightarrow> st_grants s i = Some g \<Longrightarrow> gr_id g = i"
  by (simp add: wf_store_def)

lemmas outer_rules = maps_evolve_refl maps_evolve_upd rows_evolve_refl
  rows_evolve_append row_orders refl

lemma save_immutable_ok:
  "save_immutable table k text v = Inr table' \<longleftrightarrow>
     (table k = None \<and> table' = table(k \<mapsto> v)) \<or> (table k = Some v \<and> table' = table)"
  by (auto simp: save_immutable_def split: option.splits if_splits)

lemma save_immutable_evolves:
  "save_immutable table k text v = Inr table' \<Longrightarrow> (\<And>x. R x x) \<Longrightarrow> maps_evolve R table table'"
  by (auto simp: save_immutable_ok maps_evolve_def)

interpretation save_profile_op: journal_op save_profile "\<lambda>_. True"
proof
  fix p s x s' assume wf: "wf_store s" and "save_profile p s = Inr (x, s')"
  then obtain m where m: "save_immutable (st_profiles s) (cp_id p) (profile_str (cp_id p)) p = Inr m"
    "s' = s\<lparr>st_profiles := m\<rparr>" by (auto simp: save_profile_def)
  then show "wf_store s' \<and> evolves s s'"
    using save_immutable_evolves [OF m(1), of "(=)"]
    by (intro outer_frame [OF wf]) (auto simp: same_inner_def wf_grant_id [OF wf] intro!: outer_rules)
qed

interpretation save_grant_op: journal_op save_grant "\<lambda>_. True"
proof
  fix g s x s' assume wf: "wf_store s" and "save_grant g s = Inr (x, s')"
  then obtain m where m: "save_immutable (st_grants s) (gr_id g) (grant_str (gr_id g)) g = Inr m"
    "s' = s\<lparr>st_grants := m\<rparr>" by (auto simp: save_grant_def)
  moreover have "gr_id h = i" if "m i = Some h" for i h
    using m(1) that wf_grant_id [OF wf] by (auto simp: save_immutable_ok split: if_splits)
  ultimately show "wf_store s' \<and> evolves s s'"
    using save_immutable_evolves [OF m(1), of grant_shrinks] row_orders
    by (intro outer_frame [OF wf]) (auto simp: same_inner_def intro!: outer_rules)
qed

interpretation revoke_grant_op: journal_op store_revoke_grant "\<lambda>_. True"
proof
  fix i s x s' assume wf: "wf_store s" and "store_revoke_grant i s = Inr (x, s')"
  then obtain g where g: "st_grants s i = Some g"
    "s' = s\<lparr>st_grants := (st_grants s)(i \<mapsto> g\<lparr>gr_revoked := True\<rparr>)\<rparr>"
    by (auto simp: store_revoke_grant_def load_ok_iff)
  have "grant_shrinks g (g\<lparr>gr_revoked := True\<rparr>)"
    by (simp add: grant_shrinks_def fits_within_def)
  with g show "wf_store s' \<and> evolves s s'"
    by (intro outer_frame [OF wf])
      (auto simp: same_inner_def wf_grant_id [OF wf] intro!: outer_rules split: if_splits)
qed

interpretation save_plan_op: journal_op "\<lambda>(E, plan). save_plan E plan" "\<lambda>_. True"
proof
  fix p :: "env \<times> reviewed_plan" and s x s'
  assume wf: "wf_store s" and op: "(case p of (E, plan) \<Rightarrow> save_plan E plan) s = Inr (x, s')"
  obtain E plan where p: "p = (E, plan)" by (cases p)
  from op have "s' = s \<or> (st_plans s (rp_id plan) = None
      \<and> s' = s\<lparr>st_plans := (st_plans s)(rp_id plan \<mapsto> plan)\<rparr>)"
    by (auto simp: p save_plan_def split: if_splits)
  then show "wf_store s' \<and> evolves s s'"
    by (intro outer_frame [OF wf])
      (auto simp: same_inner_def wf_grant_id [OF wf] intro!: outer_rules)
qed

interpretation save_proposal_op: journal_op "\<lambda>(E, proposal). save_proposal E proposal" "\<lambda>_. True"
proof
  fix p :: "env \<times> plan_proposal" and s x s'
  assume wf: "wf_store s" and op: "(case p of (E, pr) \<Rightarrow> save_proposal E pr) s = Inr (x, s')"
  from op obtain m where "s' = s\<lparr>st_proposals := m\<rparr>"
    by (cases p, cases s) (auto simp: save_proposal_def split: option.splits if_splits)
  then show "wf_store s' \<and> evolves s s'"
    by (intro outer_frame [OF wf])
      (auto simp: same_inner_def wf_grant_id [OF wf] intro!: outer_rules)
qed

interpretation delete_proposal_op: journal_op delete_proposal "\<lambda>_. True"
proof
  fix i s x s' assume wf: "wf_store s" and "delete_proposal i s = Inr (x, s')"
  then show "wf_store s' \<and> evolves s s'"
    by (intro outer_frame [OF wf])
      (auto simp: delete_proposal_def same_inner_def wf_grant_id [OF wf] intro!: outer_rules)
qed

lemma consume_ok:
  assumes "consume_reviewed_proposal E i d plan s = Inr (u, s')"
  obtains proposal plans where "st_proposals s i = Some proposal" "proposal_digest E proposal = Some d"
    "(st_plans s (rp_id plan) = None \<and> plans = (st_plans s)(rp_id plan \<mapsto> plan))
     \<or> (\<exists>old. st_plans s (rp_id plan) = Some old \<and> plan_digest E old = plan_digest E plan
          \<and> plans = st_plans s)"
    "s' = s\<lparr>st_plans := plans, st_proposals := (st_proposals s)(i := None)\<rparr>"
proof -
  from assms obtain proposal where pr: "st_proposals s i = Some proposal"
    by (auto simp: consume_reviewed_proposal_def)
  show ?thesis
  proof (cases "st_plans s (rp_id plan)")
    case None
    with assms pr show ?thesis
      by (intro that [OF pr, of "(st_plans s)(rp_id plan \<mapsto> plan)"])
        (auto simp: consume_reviewed_proposal_def split: if_splits)
  next
    case (Some old)
    with assms pr show ?thesis
      by (intro that [OF pr, of "st_plans s"])
        (auto simp: consume_reviewed_proposal_def split: if_splits)
  qed
qed

interpretation consume_op:
  journal_op "\<lambda>(E, i, d, plan). consume_reviewed_proposal E i d plan" "\<lambda>_. True"
proof
  fix p :: "env \<times> plan_id \<times> artifact_digest \<times> reviewed_plan" and s x s'
  assume wf: "wf_store s"
    and op: "(case p of (E, i, d, plan) \<Rightarrow> consume_reviewed_proposal E i d plan) s = Inr (x, s')"
  obtain E i d plan where p: "p = (E, i, d, plan)" by (cases p)
  from op [unfolded p prod.case] obtain plans where
    "(st_plans s (rp_id plan) = None \<and> plans = (st_plans s)(rp_id plan \<mapsto> plan)) \<or> plans = st_plans s"
    "s' = s\<lparr>st_plans := plans, st_proposals := (st_proposals s)(i := None)\<rparr>"
    by (rule consume_ok) blast
  then show "wf_store s' \<and> evolves s s'"
    by (intro outer_frame [OF wf])
      (auto simp: same_inner_def wf_grant_id [OF wf] intro!: outer_rules)
qed

interpretation create_run_op: journal_op create_run "\<lambda>_. True"
proof
  fix r s x s' assume wf: "wf_store s" and "create_run r s = Inr (x, s')"
  then have "s' = s \<or> (st_runs s (ru_id r) = None \<and> s' = s\<lparr>st_runs := (st_runs s)(ru_id r \<mapsto> r)\<rparr>)"
    by (auto simp: create_run_def split: option.splits if_splits)
  then show "wf_store s' \<and> evolves s s'"
    by (intro outer_frame [OF wf])
      (auto simp: same_inner_def wf_grant_id [OF wf] intro!: outer_rules)
qed

interpretation advance_run_op: journal_op "\<lambda>(i, n). advance_run i n" "\<lambda>_. True"
proof
  fix p s x s' assume wf: "wf_store s" and "(case p of (i, n) \<Rightarrow> advance_run i n) s = Inr (x, s')"
  then obtain i r where "st_runs s i = Some r"
    "s' = s\<lparr>st_runs := (st_runs s)(i \<mapsto> r\<lparr>ru_cursor := Suc (ru_cursor r)\<rparr>)\<rparr>"
    by (cases p) (auto simp: advance_run_def split: if_splits)
  then show "wf_store s' \<and> evolves s s'"
    by (intro outer_frame [OF wf])
      (auto simp: same_inner_def wf_grant_id [OF wf] run_advances_def intro!: outer_rules)
qed

lemma repair_run_cursor_ok:
  assumes "repair_run_cursor i s = Inr (r', s')"
  obtains r where "st_runs s i = Some r"
    "r' = r\<lparr>ru_cursor := max (ru_cursor r) (completed_prefix s (ru_steps r))\<rparr>"
    "s' = s\<lparr>st_runs := (st_runs s)(i \<mapsto> r')\<rparr>"
proof -
  from assms obtain r where r: "st_runs s i = Some r"
    by (auto simp: repair_run_cursor_def)
  have keep: "(st_runs s)(i \<mapsto> r) = st_runs s" "r\<lparr>ru_cursor := ru_cursor r\<rparr> = r"
    using r by (simp_all add: fun_upd_idem)
  from assms r show ?thesis
    by (intro that [OF r]) (auto simp: repair_run_cursor_def Let_def max_def keep fun_upd_idem split: if_splits)
qed

interpretation repair_run_op: journal_op repair_run_cursor "\<lambda>_. True"
proof
  fix i s x s' assume wf: "wf_store s" and op: "repair_run_cursor i s = Inr (x, s')"
  from op obtain r where "st_runs s i = Some r"
    "x = r\<lparr>ru_cursor := max (ru_cursor r) (completed_prefix s (ru_steps r))\<rparr>"
    "s' = s\<lparr>st_runs := (st_runs s)(i \<mapsto> x)\<rparr>" by (rule repair_run_cursor_ok)
  then show "wf_store s' \<and> evolves s s'"
    by (intro outer_frame [OF wf])
      (auto simp: same_inner_def wf_grant_id [OF wf] run_advances_def intro!: outer_rules)
qed

interpretation case_fact_op: journal_op "\<lambda>(c, f). append_case_fact c f" "\<lambda>_. True"
proof
  fix p s x s' assume wf: "wf_store s"
    and "(case p of (c, f) \<Rightarrow> append_case_fact c f) s = Inr (x, s')"
  then show "wf_store s' \<and> evolves s s'"
    by (intro outer_frame [OF wf])
      (auto simp: append_case_fact_def Let_def same_inner_def wf_grant_id [OF wf]
        split: prod.splits intro!: outer_rules)
qed

interpretation reserve_op:
  journal_op "\<lambda>(E, clk, a, snap). reserve E clk a snap"
    "\<lambda>(_, _, a, _). at_state a = Intent \<and> at_receipt a = None"
  by standard (auto dest: reserve_preserves)

interpretation takeover_op:
  journal_op "\<lambda>(E, clk, a, snap, run, rt). store_takeover_recovery E clk a snap run rt"
    "\<lambda>(_, _, a, _). at_state a = Intent \<and> at_receipt a = None \<and> at_operation_index a = 0"
  by standard (auto dest: takeover_preserves [rotated 3])

interpretation claim_dispatch_op: journal_op "\<lambda>(E, clk, i, who). claim_dispatch E clk i who" "\<lambda>_. True"
  by standard (auto dest: claim_dispatch_preserves)

interpretation record_receipt_op:
  journal_op "\<lambda>(E, clk, i, receipt, release). record_receipt E clk i receipt release"
    "\<lambda>(_, _, _, receipt, release). release \<longrightarrow> resolved (receipt_state receipt)"
  by standard (auto dest: record_receipt_preserves [rotated])

interpretation reject_intent_op: journal_op "\<lambda>(E, clk, i, why). reject_intent E clk i why" "\<lambda>_. True"
  by standard (auto dest: reject_intent_preserves)

interpretation claim_reconciliation_op:
  journal_op "\<lambda>(E, clk, i, q, who, b). claim_reconciliation E clk i q who b" "\<lambda>_. True"
  by standard (auto dest: claim_reconciliation_preserves)

interpretation finish_reconciliation_op:
  journal_op "\<lambda>(E, clk, q, r, c, l). finish_reconciliation E clk q r c l" "\<lambda>_. True"
  by standard (auto dest: finish_reconciliation_preserves)

interpretation abandon_op: journal_op "\<lambda>(E, clk, r). store_abandon_halted_run E clk r" "\<lambda>_. True"
  by standard (auto dest: abandon_preserves)

interpretation reopen_op:
  journal_op "\<lambda>(E, clk) s. Inr ((), recover_interrupted_dispatches E clk s)" "\<lambda>_. True"
  by standard (auto dest: recover_preserves)

section \<open>Steps and reachable journals\<close>

inductive journal_step :: "env \<Rightarrow> store \<Rightarrow> store \<Rightarrow> bool" for E where
  profile_saved: "save_profile p s = Inr (u, s') \<Longrightarrow> journal_step E s s'"
| grant_saved: "save_grant g s = Inr (u, s') \<Longrightarrow> journal_step E s s'"
| grant_revoked: "store_revoke_grant i s = Inr (u, s') \<Longrightarrow> journal_step E s s'"
| plan_saved: "save_plan E plan s = Inr (u, s') \<Longrightarrow> journal_step E s s'"
| proposal_saved: "save_proposal E proposal s = Inr (u, s') \<Longrightarrow> journal_step E s s'"
| proposal_deleted: "delete_proposal plan_id s = Inr (u, s') \<Longrightarrow> journal_step E s s'"
| proposal_consumed:
    "consume_reviewed_proposal E plan_id d plan s = Inr (u, s') \<Longrightarrow> journal_step E s s'"
| run_created: "create_run run s = Inr (u, s') \<Longrightarrow> journal_step E s s'"
| run_advanced: "advance_run run_id n s = Inr (u, s') \<Longrightarrow> journal_step E s s'"
| run_repaired: "repair_run_cursor run_id s = Inr (run, s') \<Longrightarrow> journal_step E s s'"
| fact_appended: "append_case_fact c f s = Inr (u, s') \<Longrightarrow> journal_step E s s'"
| reserved:
    "at_state a = Intent \<Longrightarrow> at_receipt a = None \<Longrightarrow> reserve E clk a snap s = Inr (outcome, s')
       \<Longrightarrow> journal_step E s s'"
| taken_over:
    "at_state a = Intent \<Longrightarrow> at_receipt a = None \<Longrightarrow> at_operation_index a = 0
       \<Longrightarrow> store_takeover_recovery E clk a snap run rt s = Inr (outcome, s') \<Longrightarrow> journal_step E s s'"
| dispatched: "claim_dispatch E clk att who s = Inr (d, s') \<Longrightarrow> journal_step E s s'"
| receipt_recorded:
    "release \<longrightarrow> resolved (receipt_state receipt)
       \<Longrightarrow> record_receipt E clk att receipt release s = Inr (a, s') \<Longrightarrow> journal_step E s s'"
| intent_rejected: "reject_intent E clk att why s = Inr (a, s') \<Longrightarrow> journal_step E s s'"
| reconciliation_claimed:
    "claim_reconciliation E clk att req who budget s = Inr (cl, s') \<Longrightarrow> journal_step E s s'"
| reconciliation_finished:
    "finish_reconciliation E clk req rec completed release s = Inr (a, s') \<Longrightarrow> journal_step E s s'"
| run_abandoned: "store_abandon_halted_run E clk ab s = Inr (ab', s') \<Longrightarrow> journal_step E s s'"
| reopened: "journal_step E s (recover_interrupted_dispatches E clk s)"

inductive reachable :: "env \<Rightarrow> store \<Rightarrow> bool" for E where
  created: "reachable E empty_store"
| stepped: "reachable E s \<Longrightarrow> journal_step E s t \<Longrightarrow> reachable E t"

lemma entity_steps_preserve:
  "wf_store s \<Longrightarrow> save_plan E plan s = Inr (u, s') \<Longrightarrow> wf_store s' \<and> evolves s s'"
  "wf_store s \<Longrightarrow> save_proposal E pr s = Inr (u, s') \<Longrightarrow> wf_store s' \<and> evolves s s'"
  "wf_store s \<Longrightarrow> consume_reviewed_proposal E i d plan s = Inr (u, s') \<Longrightarrow> wf_store s' \<and> evolves s s'"
  "wf_store s \<Longrightarrow> advance_run q n s = Inr (u, s') \<Longrightarrow> wf_store s' \<and> evolves s s'"
  "wf_store s \<Longrightarrow> append_case_fact c f s = Inr (u, s') \<Longrightarrow> wf_store s' \<and> evolves s s'"
  by (rule save_plan_op.preserves [where p = "(E, plan)", unfolded prod.case, OF TrueI]
      save_proposal_op.preserves [where p = "(E, pr)", unfolded prod.case, OF TrueI]
      consume_op.preserves [where p = "(E, i, d, plan)", unfolded prod.case, OF TrueI]
      advance_run_op.preserves [where p = "(q, n)", unfolded prod.case, OF TrueI]
      case_fact_op.preserves [where p = "(c, f)", unfolded prod.case, OF TrueI]; assumption)+

lemmas operations_preserve = entity_steps_preserve
  save_profile_op.preserves [OF TrueI] save_grant_op.preserves [OF TrueI]
  revoke_grant_op.preserves [OF TrueI] delete_proposal_op.preserves [OF TrueI]
  create_run_op.preserves [OF TrueI] repair_run_op.preserves [OF TrueI]
  reserve_preserves takeover_preserves claim_dispatch_preserves record_receipt_preserves
  reject_intent_preserves claim_reconciliation_preserves finish_reconciliation_preserves
  abandon_preserves

lemma journal_step_preserves:
  assumes "journal_step E s t" "wf_store s"
  shows "wf_store t \<and> evolves s t"
  using assms
proof (cases rule: journal_step.cases)
  case (reopened clk)
  then show ?thesis using recover_preserves [OF assms(2)] by simp
next
  case (receipt_recorded release receipt clk att a)
  then show ?thesis using record_receipt_preserves [OF _ assms(2)] by blast
qed (rule operations_preserve; (assumption | rule assms(2)))+

lemma empty_store_wf: "wf_store empty_store"
  by (simp add: wf_store_def empty_store_def steps_wf_def leases_wf_def recon_wf_def)

lemma reachable_wf: "reachable E s \<Longrightarrow> wf_store s"
  by (induction rule: reachable.induct) (auto simp: empty_store_wf dest: journal_step_preserves)

lemma later_wf: "(journal_step E)\<^sup>*\<^sup>* s t \<Longrightarrow> wf_store s \<Longrightarrow> wf_store t \<and> evolves s t"
  by (induction rule: rtranclp_induct)
    (auto simp: evolves_refl dest: journal_step_preserves intro: evolves_trans)

end
