(* ===== verification/Store_Examples.thy ===== *)
theory Store_Examples
  imports Store_Machine
begin

text \<open>
  A concrete journal for the witnesses: one profile, one grant and one plan of a single
  flash write, admitted, dispatched, left uncertain and reconciled. The external code is
  instantiated by simple functions.
\<close>

section \<open>Entities\<close>

definition ex_env :: env where
  "ex_env = \<lparr>env_sha256_hex = (\<lambda>bytes. ''d''), env_profile_bytes = (\<lambda>_. Some []),
     env_proposal_bytes = (\<lambda>_. Some []), env_plan_value = (\<lambda>_. Some (JObject [])),
     env_json_bytes = (\<lambda>_. Some []), env_parse_envelope = (\<lambda>bytes. Inr
       \<lparr>ee_attempt = AttemptId ''a'', ee_challenge = ArtifactDigest ''d'',
        ee_phase = (if bytes = [] then Execution else Reconciliation),
        ee_observation = \<lparr>captured_at = ''now'', source_fingerprint = ArtifactDigest ''d'',
          obs_body = JNull, obs_evidence = None\<rparr>\<rparr>),
     env_timestamp_text = (\<lambda>_. ''now''),
     env_parse_timestamp = (\<lambda>s. if s = ''later'' then Some 100 else None),
     env_as_millisecond = (\<lambda>t. t), env_from_millisecond = Some,
     env_condition_text = (\<lambda>_. ''condition'')\<rparr>"

definition ex_digest :: artifact_digest where "ex_digest = ArtifactDigest ''d''"
definition ex_agent :: principal_id where "ex_agent = PrincipalId ''agent''"
definition ex_instrument :: instrument_id where "ex_instrument = InstrumentId ''bus''"
definition ex_target :: target_id where "ex_target = TargetId ''board''"
definition ex_grant_id :: grant_id where "ex_grant_id = GrantId ''g''"
definition ex_plan_id :: plan_id where "ex_plan_id = PlanId ''p''"
definition ex_profile_id :: profile_id where "ex_profile_id = ProfileId ''f''"
definition ex_attempt_id :: attempt_id where "ex_attempt_id = AttemptId ''a''"
definition ex_request :: request_id where "ex_request = RequestId ''q''"

definition ex_budget :: "nat \<Rightarrow> budget" where
  "ex_budget n = \<lparr>bud_effects = of_nat n, bud_bytes = of_nat n, bud_milliseconds = of_nat n\<rparr>"

definition ex_binding :: instrument_binding where
  "ex_binding = \<lparr>ib_fingerprint = ex_digest, ib_physical_identity = ex_digest,
     ib_configuration_digest = ex_digest, ib_qualified_capabilities = {CapFlash},
     ib_qualified_effect_permissions = {InstrumentConfigure, FlashWriteEffect},
     ib_qualification_evidence = ex_digest\<rparr>"

definition ex_profile :: commissioned_profile where
  "ex_profile = \<lparr>cp_id = ex_profile_id, cp_target = ex_target, cp_target_fingerprint = ex_digest,
     cp_instruments = [(ex_instrument, ex_binding)], cp_fixture_revision = ex_digest,
     cp_fixture_session = FixtureSessionId ''x'', cp_permitted_capabilities = {CapFlash},
     cp_electrical_limits = \<lparr>max_millivolts = 0, max_milliamps = 0\<rparr>,
     cp_region_limits = \<lparr>flash_start = 0, flash_end_exclusive = 16\<rparr>,
     cp_commissioning_evidence = ex_digest, cp_live_interlocks = []\<rparr>"

definition ex_grant :: "nat \<Rightarrow> bool \<Rightarrow> grant" where
  "ex_grant n revoked = \<lparr>gr_id = ex_grant_id, gr_issued_by = PrincipalId ''op'', gr_agent = ex_agent,
     gr_target = ex_target, gr_profile = ex_profile_id, gr_capabilities = {CapFlash},
     gr_effect_permissions = {InstrumentConfigure, FlashWriteEffect},
     gr_remaining = ex_budget n, gr_expires_at = ''later'', gr_revoked = revoked\<rparr>"

definition ex_operation :: planned_operation where
  "ex_operation = \<lparr>po_operation = FlashWrite ex_target ex_instrument 0 ex_digest 4,
     po_max_milliseconds = 1, po_postconditions = []\<rparr>"

definition ex_plan :: reviewed_plan where
  "ex_plan = \<lparr>rp_id = ex_plan_id, rp_candidate_digest = ex_digest, rp_fixture_revision = ex_digest,
     rp_tool_digest = ex_digest, rp_target_fingerprint = ex_digest,
     rp_instrument_fingerprints = [(ex_instrument, ex_digest)],
     rp_instrument_configuration_digests = [(ex_instrument, ex_digest)],
     rp_preconditions = [], rp_operations = [ex_operation], rp_requested_by = ex_agent,
     rp_reviewed_by = PrincipalId ''rev'', rp_review_digest = ex_digest,
     rp_reconciliation_setup = ObservationOnly\<rparr>"

definition ex_resources :: "physical_resource list" where
  "ex_resources = [Target ex_digest, Fixture (FixtureSessionId ''x''), Instrument ex_digest]"

definition ex_attempt :: attempt_record where
  "ex_attempt = \<lparr>at_id = ex_attempt_id, at_request = ex_request, at_grant = ex_grant_id,
     at_plan = ex_plan_id, at_operation_index = 0, at_plan_digest = ex_digest,
     at_reserved = ex_budget 1, at_profile = ex_profile_id, at_profile_digest = ex_digest,
     at_leased_resources = ex_resources, at_evidence_challenge = ex_digest,
     at_evidence_ordinal = 0, at_state = Intent, at_receipt = None, at_created_at = ''now'',
     at_updated_at = ''now''\<rparr>"

definition ex_snapshot :: admission_snapshot where
  "ex_snapshot = \<lparr>snap_agent = ex_agent, snap_profile = ex_profile, snap_plan = ex_plan\<rparr>"

definition ex_clock :: clock where "ex_clock = (\<lambda>_. 0)"

lemmas ex_defs = ex_env_def ex_digest_def ex_agent_def ex_instrument_def ex_target_def
  ex_grant_id_def ex_plan_id_def ex_profile_id_def ex_attempt_id_def ex_request_def ex_budget_def
  ex_binding_def ex_profile_def ex_grant_def ex_operation_def ex_plan_def ex_resources_def
  ex_attempt_def ex_snapshot_def ex_clock_def

section \<open>Journals\<close>

definition ex_base :: store where
  "ex_base = empty_store\<lparr>st_profiles := [ex_profile_id \<mapsto> ex_profile],
     st_grants := [ex_grant_id \<mapsto> ex_grant 5 False], st_plans := [ex_plan_id \<mapsto> ex_plan]\<rparr>"

definition ex_leases :: "(string \<times> grant_id \<times> plan_id) list" where
  "ex_leases = map (\<lambda>r. (resource_key r, ex_grant_id, ex_plan_id)) ex_resources"

definition ex_admitted :: store where
  "ex_admitted = ex_base\<lparr>st_grants := [ex_grant_id \<mapsto> ex_grant 4 False],
     st_attempts := [ex_attempt], st_leases := ex_leases\<rparr>"

definition ex_flying :: attempt_record where
  "ex_flying = ex_attempt\<lparr>at_state := Dispatched, at_evidence_ordinal := 1\<rparr>"

definition ex_dispatched :: store where
  "ex_dispatched = ex_admitted\<lparr>st_attempts := [ex_flying]\<rparr>"

definition ex_claim :: claimed_dispatch where
  "ex_claim = \<lparr>cd_attempt = ex_flying, cd_grant = ex_grant 4 False, cd_profile = ex_profile,
     cd_plan = ex_plan\<rparr>"

definition ex_uncertain :: store where
  "ex_uncertain = ex_admitted\<lparr>st_attempts :=
     [ex_flying\<lparr>at_state := Unknown, at_receipt := Some (ReceiptUnknown ''lost'' None)\<rparr>]\<rparr>"

lemmas ex_journals = ex_base_def ex_leases_def ex_admitted_def ex_flying_def ex_dispatched_def
  ex_claim_def ex_uncertain_def empty_store_def

lemma ex_base_steps:
  "save_profile ex_profile empty_store = Inr ((), empty_store\<lparr>st_profiles := [ex_profile_id \<mapsto> ex_profile]\<rparr>)"
  "save_grant (ex_grant 5 False) (empty_store\<lparr>st_profiles := [ex_profile_id \<mapsto> ex_profile]\<rparr>)
     = Inr ((), empty_store\<lparr>st_profiles := [ex_profile_id \<mapsto> ex_profile],
         st_grants := [ex_grant_id \<mapsto> ex_grant 5 False]\<rparr>)"
  "save_plan ex_env ex_plan (empty_store\<lparr>st_profiles := [ex_profile_id \<mapsto> ex_profile],
         st_grants := [ex_grant_id \<mapsto> ex_grant 5 False]\<rparr>) = Inr ((), ex_base)"
  by (simp_all add: save_profile_def save_grant_def save_plan_def save_immutable_def empty_store_def
      plan_digest_def remove_member_def ex_base_def ex_defs)

lemma ex_base_reachable: "reachable ex_env ex_base"
  using ex_base_steps by (meson created journal_step.intros stepped)

lemma ex_digests:
  "profile_digest ex_env p = Some ex_digest" "plan_digest ex_env q = Some ex_digest"
  "proposal_digest ex_env r = Some ex_digest" "text_digest ex_env t = ex_digest"
  "env_timestamp_text ex_env now = ''now''"
  by (simp_all add: profile_digest_def plan_digest_def proposal_digest_def text_digest_def
      artifact_sha256_def remove_member_def ex_env_def ex_digest_def)

lemma ex_check_grant: "check_grant ex_env 0 (ex_grant n False) ex_agent ex_profile_id = Inr ()"
  by (simp add: check_grant_def ex_defs)

lemma ex_debit: "budget_checked_sub (ex_budget 5) (ex_budget 1) = Some (ex_budget 4)"
  by (simp add: budget_checked_sub_def checked_sub_def ex_budget_def word_le_nat_alt)

lemma ex_reserve: "reserve ex_env ex_clock ex_attempt ex_snapshot ex_base = Inr (Reserved ex_attempt, ex_admitted)"
proof -
  have "reserve_guards ex_env ex_clock ex_attempt ex_snapshot ex_base = Inr (ex_grant 5 False)"
    by (simp add: reserve_guards_def ex_digests check_digest_def halted_pair_exists_def
        recovery_source_retired_def load_grant_def load_profile_def load_plan_def ex_journals
        ex_attempt_def ex_snapshot_def ex_clock_def ex_check_grant)
  moreover have "reserve_order ex_attempt ex_base = Inr ()"
    by (simp add: reserve_order_def existing_steps_def pair_attempts_def ex_journals ex_attempt_def)
  moreover have "fold_err (acquire_lease ex_grant_id ex_plan_id) ex_resources ex_base
      = Inr (ex_base\<lparr>st_leases := ex_leases\<rparr>)"
    by (simp add: ex_resources_def acquire_lease_def lease_owner_def ex_journals ex_digest_def)
  ultimately show ?thesis
    using ex_debit
    by (simp add: reserve_def load_attempt_by_request_def sqlite_index_def insert_attempt_def
        update_grant_def ex_journals ex_attempt_def ex_grant_def)
qed

lemma ex_dispatch:
  "claim_dispatch ex_env ex_clock ex_attempt_id ex_agent ex_admitted = Inr (ex_claim, ex_dispatched)"
proof -
  have "check_leases_held ex_admitted ex_attempt = Inr ()"
    by (simp add: check_leases_held_def lease_owner_def ex_journals ex_attempt_def ex_resources_def
        ex_digest_def)
  moreover have "checked_add (0 :: u64) 1 = Some 1" by (simp add: checked_add_def)
  ultimately show ?thesis
    by (simp add: claim_dispatch_def load_attempt_def halted_pair_exists_def
        recovery_source_retired_def load_grant_def load_profile_def load_plan_def ex_digests
        check_digest_def update_attempt_def set_row_def ex_check_grant ex_journals ex_clock_def
        ex_attempt_def Let_def)
qed

lemma ex_receipt:
  "record_receipt ex_env ex_clock ex_attempt_id (ReceiptUnknown ''lost'' None) False ex_dispatched
     = Inr (ex_flying\<lparr>at_state := Unknown, at_receipt := Some (ReceiptUnknown ''lost'' None)\<rparr>,
            ex_uncertain)"
  by (simp add: record_receipt_def Let_def load_attempt_def update_attempt_def set_row_def ex_journals
      ex_attempt_def ex_digests)

lemma ex_reachable:
  "reachable ex_env ex_admitted" "reachable ex_env ex_dispatched" "reachable ex_env ex_uncertain"
proof -
  show 1: "reachable ex_env ex_admitted"
    by (rule stepped [OF ex_base_reachable reserved [OF _ _ ex_reserve]]) (simp_all add: ex_attempt_def)
  show 2: "reachable ex_env ex_dispatched"
    by (rule stepped [OF 1 dispatched [OF ex_dispatch]])
  show "reachable ex_env ex_uncertain"
    by (rule stepped [OF 2 receipt_recorded [OF _ ex_receipt]]) simp
qed

lemmas ex_wf = ex_reachable [THEN reachable_wf] ex_base_reachable [THEN reachable_wf]

section \<open>Takeover and abandonment\<close>

definition ex_plan_id2 :: plan_id where "ex_plan_id2 = PlanId ''r''"

definition ex_attempt2 :: attempt_record where
  "ex_attempt2 = ex_attempt\<lparr>at_id := AttemptId ''b'', at_request := RequestId ''w'',
     at_plan := ex_plan_id2\<rparr>"

definition ex_run :: "request_id \<Rightarrow> plan_id \<Rightarrow> attempt_record \<Rightarrow> plan_run" where
  "ex_run i p a = \<lparr>ru_id = i, ru_agent = ex_agent, ru_grant = ex_grant_id, ru_plan = p,
     ru_steps = [(at_id a, at_request a)], ru_cursor = 0\<rparr>"

definition ex_recovery :: recovery_takeover_record where
  "ex_recovery = \<lparr>rt_request = RequestId ''t'', rt_run = RequestId ''run2'',
     rt_first_attempt = at_id ex_attempt2, rt_unresolved = [ex_attempt_id], rt_grant = ex_grant_id,
     rt_plan = ex_plan_id2, rt_resources = ex_resources, rt_justification_evidence = ex_digest,
     rt_authorized_by = PrincipalId ''op'', rt_authorized_at = ''now''\<rparr>"

definition ex_stuck :: store where
  "ex_stuck = ex_uncertain\<lparr>st_plans := [ex_plan_id \<mapsto> ex_plan,
     ex_plan_id2 \<mapsto> ex_plan\<lparr>rp_id := ex_plan_id2\<rparr>]\<rparr>"

definition ex_taken :: store where
  "ex_taken = ex_stuck\<lparr>st_grants := [ex_grant_id \<mapsto> ex_grant 3 False],
     st_attempts := st_attempts ex_stuck @ [ex_attempt2],
     st_leases := map (\<lambda>r. (resource_key r, ex_grant_id, ex_plan_id2)) ex_resources,
     st_retirements := [(ex_grant_id, ex_plan_id, RequestId ''t'')],
     st_runs := [RequestId ''run2'' \<mapsto> ex_run (RequestId ''run2'') ex_plan_id2 ex_attempt2],
     st_takeovers := [ex_recovery]\<rparr>"

lemma ex_stuck_reachable: "reachable ex_env ex_stuck"
proof -
  have "save_plan ex_env (ex_plan\<lparr>rp_id := ex_plan_id2\<rparr>) ex_uncertain = Inr ((), ex_stuck)"
    by (simp add: save_plan_def ex_digests ex_stuck_def ex_uncertain_def ex_admitted_def ex_base_def
        empty_store_def ex_plan_id_def ex_plan_id2_def)
  with ex_reachable(3) show ?thesis by (meson plan_saved stepped)
qed

lemma ex_takeover:
  "store_takeover_recovery ex_env ex_clock ex_attempt2 ex_snapshot
     (ex_run (RequestId ''run2'') ex_plan_id2 ex_attempt2) ex_recovery ex_stuck
     = Inr (Reserved ex_attempt2, ex_taken)"
proof -
  let ?olds = "[(ex_grant_id, ex_plan_id)]"
  have "takeover_guards ex_env ex_clock ex_attempt2 ex_snapshot ex_stuck = Inr (ex_grant 4 False)"
    by (simp add: takeover_guards_def ex_digests check_digest_def halted_pair_exists_def
        recovery_source_retired_def load_grant_def load_profile_def load_plan_def ex_journals
        ex_stuck_def ex_attempt2_def ex_attempt_def ex_snapshot_def ex_clock_def ex_check_grant)
  moreover have "takeover_sources ex_stuck ex_attempt2 [ex_attempt_id] = Inr ?olds"
    by (simp add: takeover_source_def Let_def load_attempt_def recovery_destination_exists_def
        recovery_source_retired_def source_pair_has_dispatched_def
        source_pair_has_active_reconciliation_def load_active_reconciliation_def ex_journals
        ex_stuck_def ex_attempt2_def ex_attempt_def)
  moreover have "fold_err (move_lease ?olds ex_grant_id ex_plan_id2) ex_resources ex_stuck
      = Inr (ex_stuck\<lparr>st_leases := map (\<lambda>r. (resource_key r, ex_grant_id, ex_plan_id2)) ex_resources\<rparr>)"
    by (simp add: move_lease_def lease_owner_def ex_journals ex_stuck_def ex_resources_def
        ex_digest_def)
  moreover have "budget_checked_sub (ex_budget 4) (ex_budget 1) = Some (ex_budget 3)"
    by (simp add: budget_checked_sub_def checked_sub_def ex_budget_def word_le_nat_alt)
  ultimately show ?thesis
    by (simp add: store_takeover_recovery_def load_recovery_takeover_def load_attempt_by_request_def
        insert_attempt_def insert_retirement_def insert_run_def insert_takeover_def update_grant_def
        recovery_source_retired_def ex_taken_def ex_stuck_def ex_recovery_def ex_run_def ex_attempt2_def
        ex_attempt_def ex_journals ex_grant_def ex_attempt_id_def ex_request_def ex_plan_id_def
        ex_plan_id2_def)
qed

definition ex_running :: store where
  "ex_running = ex_admitted\<lparr>st_runs := [RequestId ''run'' \<mapsto> ex_run (RequestId ''run'') ex_plan_id ex_attempt]\<rparr>"

definition ex_abandonment :: halted_run_abandonment_record where
  "ex_abandonment = \<lparr>ha_request = RequestId ''h'', ha_run = RequestId ''run'', ha_grant = ex_grant_id,
     ha_plan = ex_plan_id, ha_resources = set (map resource_key ex_resources),
     ha_justification_evidence = ex_digest, ha_authorized_by = PrincipalId ''op'',
     ha_authorized_at = ''now''\<rparr>"

definition ex_abandoned :: store where
  "ex_abandoned = ex_running\<lparr>st_attempts := [ex_attempt\<lparr>at_state := Rejected,
     at_receipt := Some (ReceiptRejected ''operator abandoned halted run before dispatch'')\<rparr>],
     st_leases := [], st_abandonments := [ex_abandonment]\<rparr>"

lemma ex_running_reachable: "reachable ex_env ex_running"
proof -
  have "create_run (ex_run (RequestId ''run'') ex_plan_id ex_attempt) ex_admitted = Inr ((), ex_running)"
    by (simp add: create_run_def ex_running_def ex_run_def ex_admitted_def ex_base_def empty_store_def)
  with ex_reachable(1) show ?thesis by (meson run_created stepped)
qed

lemma ex_abandon:
  "store_abandon_halted_run ex_env ex_clock ex_abandonment ex_running = Inr (ex_abandonment, ex_abandoned)"
proof -
  have "fold_err (abandon_attempt ex_env ex_clock)
      (List.enumerate 0 (pair_attempts ex_running ex_grant_id ex_plan_id)) ex_running
      = Inr (ex_abandoned\<lparr>st_leases := ex_leases, st_abandonments := []\<rparr>)"
    by (simp add: pair_attempts_def abandon_attempt_def update_attempt_def set_row_def ex_digests
        ex_running_def ex_abandoned_def ex_journals ex_attempt_def)
  moreover have "pair_attempts ex_running ex_grant_id ex_plan_id \<noteq> []"
    by (simp add: pair_attempts_def ex_running_def ex_journals ex_attempt_def)
  moreover have "st_abandonments ex_running = []" "st_takeovers ex_running = []"
    "st_runs ex_running (RequestId ''run'') = Some (ex_run (RequestId ''run'') ex_plan_id ex_attempt)"
    by (simp_all add: ex_running_def ex_journals)
  moreover have "lease_keys_for_pair (ex_abandoned\<lparr>st_leases := ex_leases, st_abandonments := []\<rparr>)
      ex_grant_id ex_plan_id = set (map resource_key ex_resources)"
    by (simp add: lease_keys_for_pair_def ex_leases_def ex_resources_def)
  moreover have "insert_abandonment ex_abandonment (release_pair_leases ex_grant_id ex_plan_id
      (set (map resource_key ex_resources))
      (ex_abandoned\<lparr>st_leases := ex_leases, st_abandonments := []\<rparr>)) = Inr ex_abandoned"
    by (simp add: release_pair_leases_def insert_abandonment_def ex_abandoned_def ex_leases_def
        ex_resources_def)
  ultimately show ?thesis
    by (simp add: store_abandon_halted_run_def Let_def load_halted_run_abandonment_by_request_def
        load_halted_run_abandonment_by_run_def halted_pair_exists_def recovery_destination_exists_def
        ex_abandonment_def ex_run_def)
qed

lemmas ex_recovery_wf = ex_stuck_reachable [THEN reachable_wf] ex_running_reachable [THEN reachable_wf]

section \<open>A second step and a consumed proposal\<close>

definition ex_done :: attempt_record where
  "ex_done = ex_flying\<lparr>at_state := Completed,
     at_receipt := Some (ReceiptCompleted \<lparr>captured_at = ''now'', source_fingerprint = ex_digest,
       obs_body = JNull, obs_evidence = None\<rparr>)\<rparr>"

definition ex_completed :: store where
  "ex_completed = ex_admitted\<lparr>st_attempts := [ex_done]\<rparr>"

definition ex_next :: attempt_record where
  "ex_next = ex_attempt\<lparr>at_id := AttemptId ''b'', at_request := RequestId ''w'', at_operation_index := 1\<rparr>"

definition ex_second :: store where
  "ex_second = ex_completed\<lparr>st_grants := [ex_grant_id \<mapsto> ex_grant 3 False],
     st_attempts := [ex_done, ex_next]\<rparr>"

lemma ex_completion:
  "record_receipt ex_env ex_clock ex_attempt_id (the (at_receipt ex_done)) False ex_dispatched
     = Inr (ex_done, ex_completed)"
  by (simp add: record_receipt_def Let_def load_attempt_def update_attempt_def set_row_def ex_journals
      ex_attempt_def ex_digests ex_done_def ex_completed_def)

lemma ex_reserve_next:
  "reserve ex_env ex_clock ex_next ex_snapshot ex_completed = Inr (Reserved ex_next, ex_second)"
proof -
  have "reserve_guards ex_env ex_clock ex_next ex_snapshot ex_completed = Inr (ex_grant 4 False)"
    by (simp add: reserve_guards_def ex_digests check_digest_def halted_pair_exists_def
        recovery_source_retired_def load_grant_def load_profile_def load_plan_def ex_journals
        ex_attempt_def ex_snapshot_def ex_clock_def ex_check_grant ex_next_def ex_completed_def)
  moreover have "reserve_order ex_next ex_completed = Inr ()"
    by (simp add: reserve_order_def existing_steps_def pair_attempts_def ex_journals ex_attempt_def
        ex_next_def ex_completed_def ex_done_def)
  moreover have "fold_err (acquire_lease ex_grant_id ex_plan_id) ex_resources ex_completed
      = Inr ex_completed"
    by (simp add: ex_resources_def acquire_lease_def lease_owner_def ex_journals ex_digest_def
        ex_completed_def)
  moreover have "budget_checked_sub (ex_budget 4) (ex_budget 1) = Some (ex_budget 3)"
    by (simp add: budget_checked_sub_def checked_sub_def ex_budget_def word_le_nat_alt)
  ultimately show ?thesis
    by (simp add: reserve_def load_attempt_by_request_def sqlite_index_def insert_attempt_def
        update_grant_def ex_journals ex_attempt_def ex_grant_def ex_next_def ex_completed_def
        ex_done_def ex_second_def ex_request_def ex_attempt_id_def)
qed

lemma ex_second_reachable: "reachable ex_env ex_second"
proof -
  have "reachable ex_env ex_completed"
    by (rule stepped [OF ex_reachable(2) receipt_recorded [OF _ ex_completion]])
      (simp add: ex_done_def)
  then show ?thesis
    by (rule stepped [OF _ reserved [OF _ _ ex_reserve_next]]) (simp_all add: ex_next_def ex_attempt_def)
qed

definition ex_proposal :: plan_proposal where "ex_proposal = proposal_of_plan ex_plan"

definition ex_proposed :: store where
  "ex_proposed = empty_store\<lparr>st_proposals := [ex_plan_id \<mapsto> ex_proposal]\<rparr>"

lemma ex_consume:
  "consume_reviewed_proposal ex_env ex_plan_id ex_digest ex_plan ex_proposed
     = Inr ((), empty_store\<lparr>st_plans := [ex_plan_id \<mapsto> ex_plan]\<rparr>)"
  by (simp add: consume_reviewed_proposal_def ex_digests ex_proposed_def empty_store_def ex_plan_def)

end
