(* ===== verification/Supervisor_Examples.thy ===== *)
theory Supervisor_Examples
  imports Supervisor_Ops Store_Examples
begin

text \<open>
  A complete run of the system on a concrete bench, for the witnesses: a profile is
  commissioned, a grant issued, a plan proposed and reviewed, its only step submitted and
  executed. The backend counts the calls it gets and answers with evidence that binds the
  attempt; the run completes and gives its leases back.
\<close>

section \<open>The bench\<close>

text \<open>A backend that also records which attempts it was asked to execute.\<close>

definition logging :: "'d bench \<Rightarrow> ('d \<times> attempt_id list) bench" where
  "logging B = \<lparr>bn_env = bn_env B, bn_time = bn_time B, bn_error_text = bn_error_text B,
     bn_backend_error_text = bn_backend_error_text B,
     bn_resolve = (\<lambda>d w. bn_resolve B d (fst w)),
     bn_verify_source = (\<lambda>d a w. bn_verify_source B d a (fst w)),
     bn_preflight = (\<lambda>oper profile w. bn_preflight B oper profile (fst w)),
     bn_execute = (\<lambda>rq w. let (r, d) = bn_execute B rq (fst w) in (r, d, snd w @ [dr_attempt rq])),
     bn_reconcile = (\<lambda>rq w. let (r, d) = bn_reconcile B rq (fst w) in (r, d, snd w))\<rparr>"

lemma logging_simps [simp]:
  "bn_env (logging B) = bn_env B" "bn_time (logging B) = bn_time B"
  "bn_error_text (logging B) = bn_error_text B"
  "bn_resolve (logging B) d w = bn_resolve B d (fst w)"
  "bn_verify_source (logging B) d a w = bn_verify_source B d a (fst w)"
  "bn_preflight (logging B) oper profile w = bn_preflight B oper profile (fst w)"
  "fst (bn_execute (logging B) rq w) = fst (bn_execute B rq (fst w))"
  "fst (bn_reconcile (logging B) rq w) = fst (bn_reconcile B rq (fst w))"
  "fst (snd (bn_execute (logging B) rq w)) = snd (bn_execute B rq (fst w))"
  "snd (snd (bn_execute (logging B) rq w)) = snd w @ [dr_attempt rq]"
  "snd (snd (bn_reconcile (logging B) rq w)) = snd w"
  by (auto simp: logging_def split: prod.splits)

definition ex_observation :: observation where
  "ex_observation = \<lparr>captured_at = ''now'', source_fingerprint = ex_digest, obs_body = JNull,
     obs_evidence = Some ex_digest\<rparr>"

definition ex_reobservation :: observation where
  "ex_reobservation = ex_observation\<lparr>obs_evidence := Some (ArtifactDigest ''r'')\<rparr>"

definition ex_bench :: "nat bench" where
  "ex_bench = \<lparr>bn_env = ex_env, bn_time = (\<lambda>_. ex_clock), bn_error_text = (\<lambda>_. ''error''),
     bn_backend_error_text = (\<lambda>_. ''backend''), bn_resolve = (\<lambda>_ _. Inr []),
     bn_verify_source = (\<lambda>d _ _. Inr (if d = ArtifactDigest ''r'' then [1] else [])),
     bn_preflight = (\<lambda>_ _ _. Inr ()),
     bn_execute = (\<lambda>_ n. (Inr (ReceiptCompleted ex_observation), Suc n)),
     bn_reconcile = (\<lambda>_ n. (Inr (ReceiptCompleted ex_reobservation), Suc n))\<rparr>"

abbreviation ex_logged :: "(nat \<times> attempt_id list) bench" where "ex_logged \<equiv> logging ex_bench"

definition ex_operator :: principal where
  "ex_operator = \<lparr>pr_id = PrincipalId ''op'', pr_role = Operator, pr_authentication_fingerprint = ex_digest\<rparr>"

definition ex_agent_principal :: principal where
  "ex_agent_principal = \<lparr>pr_id = ex_agent, pr_role = Agent, pr_authentication_fingerprint = ex_digest\<rparr>"

definition ex_reviewer :: principal where
  "ex_reviewer = \<lparr>pr_id = PrincipalId ''rev'', pr_role = Reviewer, pr_authentication_fingerprint = ex_digest\<rparr>"

definition ex_world :: "store \<Rightarrow> 'd \<Rightarrow> nat \<Rightarrow> 'd world" where
  "ex_world s d n = \<lparr>w_store = s, w_device = d, w_calls = n\<rparr>"

definition ex_plan_budget :: budget where
  "ex_plan_budget = \<lparr>bud_effects = 2, bud_bytes = 4, bud_milliseconds = 1\<rparr>"

definition ex_step :: attempt_record where
  "ex_step = ex_attempt\<lparr>at_reserved := ex_plan_budget\<rparr>"

definition ex_paid :: grant where
  "ex_paid = (ex_grant 5 False)\<lparr>gr_remaining :=
     \<lparr>bud_effects = 3, bud_bytes = 1, bud_milliseconds = 4\<rparr>\<rparr>"

definition ex_submitted :: store where
  "ex_submitted = ex_base\<lparr>st_grants := [ex_grant_id \<mapsto> ex_paid], st_attempts := [ex_step],
     st_leases := ex_leases\<rparr>"

definition ex_settled :: store where
  "ex_settled = ex_submitted\<lparr>st_attempts := [ex_step\<lparr>at_state := Completed, at_evidence_ordinal := 1,
     at_receipt := Some (ReceiptCompleted ex_observation)\<rparr>], st_leases := []\<rparr>"

definition ex_submit_request :: submit_request where
  "ex_submit_request = \<lparr>sr_attempt = ex_attempt_id, sr_request = ex_request, sr_grant = ex_grant_id,
     sr_plan = ex_plan_id, sr_operation_index = 0\<rparr>"

lemmas sv_defs = sbind_def lift_result_def read_store_def sreturn_def sfail_def transaction_def

lemma ex_bench_simps [simp]:
  "bn_env ex_bench = ex_env" "bn_time ex_bench n = ex_clock" "bn_error_text ex_bench e = ''error''"
  "bn_resolve ex_bench d m = Inr []" "bn_preflight ex_bench oper profile m = Inr ()"
  "bn_verify_source ex_bench d a m = Inr (if d = ArtifactDigest ''r'' then [1] else [])"
  "bn_execute ex_bench rq m = (Inr (ReceiptCompleted ex_observation), Suc m)"
  "bn_reconcile ex_bench rq m = (Inr (ReceiptCompleted ex_reobservation), Suc m)"
  by (simp_all add: ex_bench_def)

lemma ex_entities:
  "commission ex_logged ex_operator ex_profile (ex_world empty_store d n)
     = (Inr (), ex_world (empty_store\<lparr>st_profiles := [ex_profile_id \<mapsto> ex_profile]\<rparr>) d (Suc n))"
  "issue_grant ex_logged ex_operator ex_agent_principal (ex_grant 5 False)
       (ex_world (empty_store\<lparr>st_profiles := [ex_profile_id \<mapsto> ex_profile]\<rparr>) d n)
     = (Inr (), ex_world (empty_store\<lparr>st_profiles := [ex_profile_id \<mapsto> ex_profile],
         st_grants := [ex_grant_id \<mapsto> ex_grant 5 False]\<rparr>) d (Suc n))"
  using ex_base_steps(1,2)
  by (simp_all add: commission_def issue_grant_def sv_defs ex_world_def require_authority_def
      ex_operator_def ex_agent_principal_def ex_grant_def ex_profile_def)

lemma ex_proposal_steps:
  "propose_plan ex_logged ex_agent_principal ex_proposal
       (ex_world (ex_base\<lparr>st_plans := Map.empty\<rparr>) d n)
     = (Inr ex_proposal, ex_world (ex_base\<lparr>st_plans := Map.empty,
          st_proposals := [ex_plan_id \<mapsto> ex_proposal]\<rparr>) d (Suc n))"
  "review_proposal ex_logged ex_reviewer ex_plan_id ex_digest
       (ex_world (ex_base\<lparr>st_plans := Map.empty, st_proposals := [ex_plan_id \<mapsto> ex_proposal]\<rparr>) d n)
     = (Inr ex_plan, ex_world ex_base d (Suc n))"
proof -
  have plan: "plan_of_proposal ex_proposal (PrincipalId ''rev'') ex_digest = ex_plan"
    "pp_id ex_proposal = ex_plan_id" "pp_requested_by ex_proposal = ex_agent"
    "pp_operations ex_proposal \<noteq> []" "rp_id ex_plan = ex_plan_id" "ex_plan\<lparr>rp_review_digest := ex_digest\<rparr> = ex_plan"
    by (simp_all add: plan_of_proposal_def ex_proposal_def proposal_of_plan_def ex_plan_def)
  show "propose_plan ex_logged ex_agent_principal ex_proposal
       (ex_world (ex_base\<lparr>st_plans := Map.empty\<rparr>) d n)
     = (Inr ex_proposal, ex_world (ex_base\<lparr>st_plans := Map.empty,
          st_proposals := [ex_plan_id \<mapsto> ex_proposal]\<rparr>) d (Suc n))"
    using plan by (simp add: propose_plan_def sv_defs ex_world_def require_agent_def
        ex_agent_principal_def save_proposal_def ex_base_def empty_store_def)
  have "consume_reviewed_proposal ex_env ex_plan_id ex_digest ex_plan
      (ex_base\<lparr>st_plans := Map.empty, st_proposals := [ex_plan_id \<mapsto> ex_proposal]\<rparr>) = Inr ((), ex_base)"
    using plan by (simp add: consume_reviewed_proposal_def ex_digests ex_base_def empty_store_def)
  moreover have "PrincipalId ''rev'' \<noteq> ex_agent" by (simp add: ex_agent_def)
  ultimately show "review_proposal ex_logged ex_reviewer ex_plan_id ex_digest
       (ex_world (ex_base\<lparr>st_plans := Map.empty, st_proposals := [ex_plan_id \<mapsto> ex_proposal]\<rparr>) d n)
     = (Inr ex_plan, ex_world ex_base d (Suc n))"
    using plan by (simp add: review_proposal_def sv_defs ex_world_def ex_reviewer_def ex_digests Let_def)
qed

lemma ex_authorize_any:
  assumes "\<not> gr_revoked g" "gr_target g = ex_target" "gr_capabilities g = {CapFlash}"
    "gr_effect_permissions g = {InstrumentConfigure, FlashWriteEffect}"
  shows "authorize ex_env g ex_profile ex_plan ex_operation = Inr ()"
  using assms
  by (simp add: authorize_def Let_def instrument_check_def limits_check_def region_contains_def
      checked_add_def profile_instrument_def ex_digests)
    (simp add: ex_defs word_le_nat_alt profile_instrument_def)

lemma ex_authorize: "authorize ex_env (ex_grant m False) ex_profile ex_plan ex_operation = Inr ()"
  by (rule ex_authorize_any) (simp_all add: ex_grant_def)

lemma ex_plan_budget: "plan_budget ex_plan = Inr ex_plan_budget"
  by (simp add: plan_budget_def ex_plan_def ex_operation_def worst_case_budget_def op_worst_case_budget_def budget_ZERO_def
      budget_checked_add_def checked_add_def ex_plan_budget_def)

lemma ex_reserve_step:
  "reserve ex_env ex_clock ex_step ex_snapshot ex_base = Inr (Reserved ex_step, ex_submitted)"
proof -
  have "reserve_guards ex_env ex_clock ex_step ex_snapshot ex_base = Inr (ex_grant 5 False)"
    by (simp add: reserve_guards_def ex_digests check_digest_def halted_pair_exists_def
        recovery_source_retired_def load_grant_def load_profile_def load_plan_def ex_journals
        ex_step_def ex_attempt_def ex_snapshot_def ex_clock_def ex_check_grant)
  moreover have "reserve_order ex_step ex_base = Inr ()"
    by (simp add: reserve_order_def existing_steps_def pair_attempts_def ex_journals ex_step_def ex_attempt_def)
  moreover have "fold_err (acquire_lease ex_grant_id ex_plan_id) ex_resources ex_base
      = Inr (ex_base\<lparr>st_leases := ex_leases\<rparr>)"
    by (simp add: ex_resources_def acquire_lease_def lease_owner_def ex_journals ex_digest_def)
  moreover have "budget_checked_sub (ex_budget 5) ex_plan_budget
      = Some \<lparr>bud_effects = 3, bud_bytes = 1, bud_milliseconds = 4\<rparr>"
    by (simp add: budget_checked_sub_def checked_sub_def ex_budget_def ex_plan_budget_def word_le_nat_alt)
  ultimately show ?thesis
    by (simp add: reserve_def load_attempt_by_request_def sqlite_index_def insert_attempt_def
        update_grant_def ex_journals ex_step_def ex_attempt_def ex_grant_def ex_submitted_def ex_paid_def)
qed

lemma ex_submit:
  "submit ex_logged ex_agent_principal ex_submit_request (ex_world ex_base d n)
     = (Inr (SubAdmitted (DispatchTicket ex_attempt_id)), ex_world ex_submitted d (Suc (Suc n)))"
proof -
  have lookups: "st_grants ex_base ex_grant_id = Some (ex_grant 5 False)"
    "st_profiles ex_base ex_profile_id = Some ex_profile" "st_plans ex_base ex_plan_id = Some ex_plan"
    "gr_profile (ex_grant 5 False) = ex_profile_id" "gr_agent (ex_grant 5 False) = ex_agent"
    "rp_operations ex_plan = [ex_operation]"
    by (simp_all add: ex_base_def empty_store_def ex_grant_def ex_plan_def)
  have intent: "intent_record ex_logged ex_attempt_id ex_request ex_grant_id ex_plan_id 0 ex_digest
      ex_plan_budget ex_profile ex_digest t = ex_step" for t
    by (simp add: intent_record_def Let_def ex_digests ex_step_def ex_attempt_def ex_profile_def
        physical_resources_def ex_resources_def ex_binding_def less_eq_physical_resource_def resource_le_def
        )
  have "\<lparr>snap_agent = ex_agent, snap_profile = ex_profile, snap_plan = ex_plan\<rparr> = ex_snapshot"
    by (simp add: ex_snapshot_def)
  with ex_reserve_step lookups intent ex_authorize ex_plan_budget show ?thesis
    by (simp add: submit_def sv_defs now_def ex_world_def ex_submit_request_def require_agent_def
        ex_agent_principal_def ex_digests Let_def ex_step_def ex_attempt_def)
qed

section \<open>Execution\<close>

definition ex_paid_claim :: claimed_dispatch where
  "ex_paid_claim = \<lparr>cd_attempt = ex_step\<lparr>at_state := Dispatched, at_evidence_ordinal := 1\<rparr>,
     cd_grant = ex_paid, cd_profile = ex_profile, cd_plan = ex_plan\<rparr>"

definition ex_flight :: store where
  "ex_flight = ex_submitted\<lparr>st_attempts := [cd_attempt ex_paid_claim]\<rparr>"

lemma ex_claim_step:
  "claim_dispatch ex_env ex_clock ex_attempt_id ex_agent ex_submitted = Inr (ex_paid_claim, ex_flight)"
proof -
  have "check_leases_held ex_submitted ex_step = Inr ()"
    by (simp add: check_leases_held_def lease_owner_def ex_journals ex_submitted_def ex_step_def
        ex_attempt_def ex_resources_def ex_digest_def)
  moreover have "checked_add (0 :: u64) 1 = Some 1" by (simp add: checked_add_def)
  moreover have "check_grant ex_env 0 ex_paid ex_agent ex_profile_id = Inr ()"
    by (simp add: check_grant_def ex_defs ex_paid_def)
  ultimately show ?thesis
    by (simp add: claim_dispatch_def load_attempt_def halted_pair_exists_def
        recovery_source_retired_def load_grant_def load_profile_def load_plan_def ex_digests
        check_digest_def update_attempt_def set_row_def ex_journals ex_clock_def ex_flight_def
        ex_paid_claim_def ex_submitted_def ex_step_def ex_attempt_def Let_def)
qed

lemma ex_prepare:
  "\<exists>dispatch. prepare_dispatch ex_logged ex_paid_claim (ex_world s d n) = (Inr dispatch, ex_world s d n)
     \<and> dr_evidence_challenge dispatch = ex_digest \<and> dr_evidence_phase dispatch = Execution
     \<and> dr_attempt dispatch = ex_attempt_id"
proof -
  have a: "authorize ex_env ex_paid ex_profile ex_plan ex_operation = Inr ()"
    by (rule ex_authorize_any) (simp_all add: ex_paid_def ex_grant_def)
  have "cp_live_interlocks ex_profile = []" "rp_operations ex_plan = [ex_operation]"
    "rp_preconditions ex_plan = []"
    by (simp_all add: ex_profile_def ex_plan_def)
  with a show ?thesis
    by (simp add: prepare_dispatch_def preflight_plan_def preflight_operation_def validate_plan_def
        dispatch_from_snapshot_def operation_at_def check_live_interlocks_def sv_defs
        resolve_artifact_def ex_paid_claim_def ex_step_def ex_attempt_def dispatch_request_for_def
        ex_operation_def planned_source_def)
qed

lemma ex_settle:
  "record_receipt ex_env ex_clock ex_attempt_id (ReceiptCompleted ex_observation) True ex_flight
     = Inr (hd (st_attempts ex_settled), ex_settled)"
  by (simp add: record_receipt_def Let_def load_attempt_def update_attempt_def set_row_def ex_journals
      ex_digests ex_flight_def ex_paid_claim_def ex_submitted_def ex_settled_def ex_step_def
      ex_attempt_def release_leases_def ex_resources_def)

lemma ex_run_backend:
  assumes "dr_evidence_challenge dispatch = ex_digest" "dr_evidence_phase dispatch = Execution"
  shows "run_backend ex_logged ex_paid_claim dispatch (ex_world s (m, log) n)
    = (Inr (ReceiptCompleted ex_observation), ex_world s (Suc m, log @ [dr_attempt dispatch]) n)"
proof -
  have "bn_execute ex_logged dispatch (m, log)
      = (Inr (ReceiptCompleted ex_observation), Suc m, log @ [dr_attempt dispatch])"
    by (simp add: logging_def)
  with assms show ?thesis
    by (simp add: run_backend_def backend_execute_def sv_defs sv_recover_def verify_receipt_evidence_def
        bound_envelope_def check_postconditions_def evaluate_checks_def ex_world_def ex_observation_def ex_env_def
        ex_paid_claim_def ex_step_def ex_attempt_def ex_attempt_id_def ex_digest_def ex_plan_def
        ex_operation_def)
qed

lemma ex_execute:
  "execute ex_logged ex_agent_principal (DispatchTicket ex_attempt_id) (ex_world ex_submitted (m, log) n)
     = (Inr (hd (st_attempts ex_settled)), ex_world ex_settled (Suc m, log @ [ex_attempt_id]) (Suc (Suc n)))"
proof -
  obtain dispatch where d: "prepare_dispatch ex_logged ex_paid_claim (ex_world ex_flight (m, log) (Suc n))
       = (Inr dispatch, ex_world ex_flight (m, log) (Suc n))"
    "dr_evidence_challenge dispatch = ex_digest" "dr_evidence_phase dispatch = Execution"
    "dr_attempt dispatch = ex_attempt_id"
    using ex_prepare by blast
  have "at_id (cd_attempt ex_paid_claim) = ex_attempt_id" "at_operation_index (cd_attempt ex_paid_claim) = 0"
    "length (rp_operations (cd_plan ex_paid_claim)) = 1"
    by (simp_all add: ex_paid_claim_def ex_step_def ex_attempt_def ex_plan_def)
  with d(1,4) ex_run_backend [OF d(2,3)] ex_claim_step ex_settle show ?thesis
    by (simp add: execute_def sv_defs require_agent_def ex_agent_principal_def is_completed_def
        is_rejected_def Let_def ex_world_def)
qed

end
