(* ===== verification/Store_Safety.thy ===== *)
theory Store_Safety
  imports Store_Examples
begin

text \<open>
  The safety theorems of the journal, over every reachable store and every later one:
  exclusive use of physical resources, at most one dispatch per attempt, steps in order,
  authority that is gone for good once revoked, retired or halted, admission that replays
  and debits exactly, and recovery of interrupted work.
\<close>

section \<open>What a later journal keeps\<close>

lemma later_attempt:
  assumes "wf_store s" "(journal_step E)\<^sup>*\<^sup>* s t" "a \<in> set (st_attempts s)"
  shows "\<exists>b. load_attempt t (at_id a) = Some b \<and> attempt_evolves a b"
proof -
  have t: "wf_store t" "evolves s t" using later_wf [OF assms(2,1)] by simp_all
  then have "rows_evolve attempt_evolves (st_attempts s) (st_attempts t)"
    by (simp add: evolves_def)
  from rows_evolve_member [OF this assms(3)] obtain b where
    b: "b \<in> set (st_attempts t)" "attempt_evolves a b" by blast
  have "steps_wf (st_attempts t)" using t(1) by (simp add: wf_store_def)
  with b(1) have "load_attempt t (at_id b) = Some b" by (simp add: load_attempt_iff)
  moreover have "at_id a = at_id b" using b(2) by (simp add: attempt_evolves_def same_identity_def)
  ultimately show ?thesis using b(2) by metis
qed

lemma rows_eq_subset: "rows_evolve (=) xs ys \<Longrightarrow> set xs \<subseteq> set ys"
  using rows_evolve_member [of "(=)" xs ys] by blast

lemma later_closed:
  assumes "wf_store s" "(journal_step E)\<^sup>*\<^sup>* s t"
  shows "retired_pairs s \<subseteq> retired_pairs t" "halted_pairs s \<subseteq> halted_pairs t"
  using later_wf [OF assms(2,1)] rows_eq_subset
  unfolding evolves_def retired_pairs_def halted_pairs_def by (meson image_mono)+

lemma later_grant:
  assumes "wf_store s" "(journal_step E)\<^sup>*\<^sup>* s t" "st_grants s i = Some g"
  obtains h where "st_grants t i = Some h" "grant_shrinks g h"
  using later_wf [OF assms(2,1)] assms(3) unfolding evolves_def maps_evolve_def by blast

section \<open>Exclusive use of the bench\<close>

text \<open>C2: In every reachable journal, two attempts that are still open and whose
  grant/plan pairs have not been retired by a takeover never lease a common physical
  resource: they are the same attempt.\<close>

theorem open_attempts_exclusive:
  assumes "reachable E s" "a \<in> set (st_attempts s)" "b \<in> set (st_attempts s)"
    and "\<not> resolved (at_state a)" "\<not> resolved (at_state b)"
    and "pair_of a \<notin> retired_pairs s" "pair_of b \<notin> retired_pairs s"
    and "r \<in> set (at_leased_resources a)" "r \<in> set (at_leased_resources b)"
  shows "a = b"
proof -
  have st: "steps_wf (st_attempts s)"
    and ls: "leases_wf (st_attempts s) (st_leases s) (retired_pairs s) (halted_pairs s)"
    using reachable_wf [OF assms(1)] by (simp_all add: wf_store_def)
  have k: "resource_key r \<in> resource_keys a" "resource_key r \<in> resource_keys b"
    using assms(8,9) by (simp_all add: resource_keys_def)
  have "pair_of a = pair_of b"
    using leases_wfD (2) [OF ls assms(2,4,6) k(1)] leases_wfD (2) [OF ls assms(3,5,7) k(2)] by simp
  then show ?thesis
    using open_attempt_resolved_pair [OF st assms(2,3)] assms(4,5) by (cases "at_state a") auto
qed

theorem open_attempts_exclusive_witness:
  "\<exists>a. a \<in> set (st_attempts ex_dispatched) \<and> at_state a = Dispatched
     \<and> (\<forall>b\<in>set (st_attempts ex_dispatched). b = a)"
proof (intro exI conjI ballI)
  show m: "ex_flying \<in> set (st_attempts ex_dispatched)" by (simp add: ex_dispatched_def)
  show "at_state ex_flying = Dispatched" by (simp add: ex_flying_def)
  show "b = ex_flying" if "b \<in> set (st_attempts ex_dispatched)" for b
    by (rule open_attempts_exclusive [OF ex_reachable(2) that m, of "Target ex_digest"])
      (use that in \<open>simp_all add: ex_journals ex_attempt_def ex_resources_def retired_pairs_def\<close>)
qed

text \<open>An attempt that has been dispatched once is never dispatched again: after a
  successful claim, a claim of the same attempt by anyone fails with
  \<open>NotDispatchable\<close> in every later journal.\<close>

theorem dispatch_at_most_once:
  assumes "wf_store s" "claim_dispatch E clk i who s = Inr (d, s')"
    and "(journal_step E)\<^sup>*\<^sup>* s' t"
  shows "claim_dispatch E clk' i who' t = Inl (NotDispatchable i)"
proof -
  have s': "wf_store s'" using claim_dispatch_preserves [OF assms(1,2)] by simp
  from assms(2) obtain a where a: "load_attempt s i = Some a" "same_identity a (cd_attempt d)"
    "at_state (cd_attempt d) = Dispatched" "s' = update_attempt (cd_attempt d) s"
    by (rule claim_dispatch_ok)
  have st: "steps_wf (st_attempts s)" using assms(1) by (simp add: wf_store_def)
  have mem: "a \<in> set (st_attempts s)" "at_id a = i" using a(1) load_attempt_iff [OF st] by simp_all
  have "cd_attempt d \<in> set (st_attempts s')"
    using set_row_attempt [OF st mem(1) a(2)] by (simp add: a(4))
  from later_attempt [OF s' assms(3) this] obtain b where
    "load_attempt t (at_id (cd_attempt d)) = Some b" "attempt_evolves (cd_attempt d) b" by blast
  with a(2,3) mem(2) have "load_attempt t i = Some b" "at_state b \<noteq> Intent"
    by (auto simp: attempt_evolves_def same_identity_def)
  then show ?thesis by (simp add: claim_dispatch_def)
qed

theorem dispatch_at_most_once_witness:
  "claim_dispatch ex_env ex_clock ex_attempt_id ex_agent ex_uncertain = Inl (NotDispatchable ex_attempt_id)"
proof (rule dispatch_at_most_once [OF ex_wf(1) ex_dispatch])
  show "(journal_step ex_env)\<^sup>*\<^sup>* ex_dispatched ex_uncertain"
    by (rule r_into_rtranclp [of "journal_step ex_env"], rule receipt_recorded [OF _ ex_receipt]) simp
qed

text \<open>A successful dispatch was authorised at that moment: the attempt was an
  intent of a pair that is neither halted nor retired, its grant belongs to the caller and
  to the attempt's profile and is unrevoked and unexpired, the stored profile and plan
  still have the digests of admission, every leased resource is held by the pair; and the
  only change to the journal is that this attempt is now dispatched with the next evidence
  ordinal.\<close>

theorem dispatch_authorised:
  assumes "claim_dispatch E clk i who s = Inr (d, s')"
  shows "\<exists>a. load_attempt s i = Some a \<and> at_state a = Intent
    \<and> \<not> halted_pair_exists s (at_grant a) (at_plan a)
    \<and> \<not> recovery_source_retired s (at_grant a) (at_plan a)
    \<and> st_grants s (at_grant a) = Some (cd_grant d)
    \<and> gr_agent (cd_grant d) = who \<and> gr_profile (cd_grant d) = at_profile a
    \<and> \<not> gr_revoked (cd_grant d)
    \<and> (\<exists>expiry. env_parse_timestamp E (gr_expires_at (cd_grant d)) = Some expiry \<and> clk 0 < expiry)
    \<and> st_profiles s (at_profile a) = Some (cd_profile d)
    \<and> profile_digest E (cd_profile d) = Some (at_profile_digest a)
    \<and> st_plans s (at_plan a) = Some (cd_plan d)
    \<and> plan_digest E (cd_plan d) = Some (at_plan_digest a)
    \<and> list_all (\<lambda>r. lease_owner s (resource_key r) = Some (at_grant a, at_plan a))
        (at_leased_resources a)
    \<and> same_identity a (cd_attempt d) \<and> at_state (cd_attempt d) = Dispatched
    \<and> unat (at_evidence_ordinal (cd_attempt d)) = Suc (unat (at_evidence_ordinal a))
    \<and> s' = s\<lparr>st_attempts := set_row at_id (cd_attempt d) (st_attempts s)\<rparr>"
  using assms
proof (rule claim_dispatch_ok)
  fix a
  assume a: "load_attempt s i = Some a" "at_state a = Intent"
    "pair_of a \<notin> halted_pairs s" "pair_of a \<notin> retired_pairs s"
    "st_grants s (at_grant a) = Some (cd_grant d)"
    "check_grant E (clk 0) (cd_grant d) who (at_profile a) = Inr ()"
    "st_profiles s (at_profile a) = Some (cd_profile d)"
    "profile_digest E (cd_profile d) = Some (at_profile_digest a)"
    "st_plans s (at_plan a) = Some (cd_plan d)"
    "plan_digest E (cd_plan d) = Some (at_plan_digest a)"
    "\<forall>k\<in>resource_keys a. lease_owner s k = Some (pair_of a)"
    "checked_add (at_evidence_ordinal a) 1 = Some (at_evidence_ordinal (cd_attempt d))"
    "same_identity a (cd_attempt d)" "at_state (cd_attempt d) = Dispatched"
    "s' = update_attempt (cd_attempt d) s"
  have "unat (at_evidence_ordinal (cd_attempt d)) = Suc (unat (at_evidence_ordinal a))"
    using a(12) by (simp add: checked_add_Some_iff)
  with a show ?thesis
    by (intro exI [of _ a])
      (simp add: halted_pairs_iff retired_pairs_iff check_grant_ok_iff list_all_iff
        resource_keys_def update_attempt_def)
qed

theorem dispatch_authorised_witness:
  "\<exists>a. load_attempt ex_admitted ex_attempt_id = Some a \<and> at_state a = Intent"
  using dispatch_authorised [OF ex_dispatch] by blast

section \<open>Authority that is gone\<close>

lemma no_reserve_without_grant:
  assumes "reserve E clk a snap t = Inr (Reserved b, t')"
  shows "pair_of a \<notin> halted_pairs t \<and> pair_of a \<notin> retired_pairs t
    \<and> (\<exists>g. st_grants t (at_grant a) = Some g \<and> \<not> gr_revoked g)"
  using assms
proof (cases rule: reserve_ok)
  case (fresh g s1 remaining)
  with reserve_guards_ok [OF fresh(3)] show ?thesis by (auto simp: check_grant_ok_iff)
qed simp

lemma no_dispatch_without_grant:
  assumes "claim_dispatch E clk i who t = Inr (d, t')"
  shows "\<exists>a. load_attempt t i = Some a \<and> pair_of a \<notin> halted_pairs t \<and> pair_of a \<notin> retired_pairs t
    \<and> (\<exists>g. st_grants t (at_grant a) = Some g \<and> \<not> gr_revoked g)"
  using assms by (rule claim_dispatch_ok) (auto simp: check_grant_ok_iff)

text \<open>Revocation is final: once a grant has been revoked, no later journal reserves
  a new attempt under it, dispatches one of its attempts, or claims a reconciliation of
  one of them.\<close>

theorem revocation_final:
  assumes "wf_store s" "store_revoke_grant g s = Inr (u, s')" "(journal_step E)\<^sup>*\<^sup>* s' t"
  shows "(at_grant a = g \<longrightarrow> reserve E clk a snap t \<noteq> Inr (Reserved b, t'))
    \<and> (load_attempt t i = Some c \<longrightarrow> at_grant c = g \<longrightarrow>
         claim_dispatch E clk i who t \<noteq> Inr (d, t')
         \<and> claim_reconciliation E clk i req who budget t \<noteq> Inr (ClaimClaimed cl, t'))"
proof -
  have s': "wf_store s'" using revoke_grant_op.keeps_wf [OF TrueI assms(1,2)] .
  from assms(2) obtain gr where "st_grants s' g = Some gr" "gr_revoked gr"
    by (auto simp: store_revoke_grant_def load_ok_iff)
  with later_grant [OF s' assms(3)] have rev: "st_grants t g = Some h \<longrightarrow> gr_revoked h" for h
    by (metis grant_shrinks_def option.inject)
  have "claim_reconciliation E clk i req who budget t \<noteq> Inr (ClaimClaimed cl, t')"
    if c: "load_attempt t i = Some c" "at_grant c = g"
  proof
    assume "claim_reconciliation E clk i req who budget t = Inr (ClaimClaimed cl, t')"
    then show False
    proof (cases rule: claim_reconciliation_ok)
      case (claimed a a' d r s1)
      from claimed(5) obtain gr where "st_grants t (at_grant a) = Some gr"
        "check_grant E (clk 0) gr who (at_profile a) = Inr ()" by (rule reconciliation_guards_ok)
      with claimed(4) c rev show False by (simp add: check_grant_ok_iff)
    qed simp
  qed
  moreover have "claim_dispatch E clk i who t \<noteq> Inr (d, t')"
    if "load_attempt t i = Some c" "at_grant c = g"
    using no_dispatch_without_grant [of E clk i who t d t'] that rev by auto
  moreover have "reserve E clk a snap t \<noteq> Inr (Reserved b, t')" if "at_grant a = g"
    using no_reserve_without_grant [of E clk a snap t b t'] that rev by auto
  ultimately show ?thesis by blast
qed

theorem revocation_final_witness:
  "store_revoke_grant ex_grant_id ex_base
     = Inr ((), ex_base\<lparr>st_grants := [ex_grant_id \<mapsto> ex_grant 5 True]\<rparr>)
   \<and> reserve ex_env ex_clock ex_attempt ex_snapshot (ex_base\<lparr>st_grants := [ex_grant_id \<mapsto> ex_grant 5 True]\<rparr>)
       \<noteq> Inr (Reserved ex_attempt, ex_base)"
proof
  show r: "store_revoke_grant ex_grant_id ex_base
      = Inr ((), ex_base\<lparr>st_grants := [ex_grant_id \<mapsto> ex_grant 5 True]\<rparr>)"
    by (simp add: store_revoke_grant_def load_grant_def ex_base_def empty_store_def ex_grant_def)
  have "at_grant ex_attempt = ex_grant_id" by (simp add: ex_attempt_def)
  then show "reserve ex_env ex_clock ex_attempt ex_snapshot
      (ex_base\<lparr>st_grants := [ex_grant_id \<mapsto> ex_grant 5 True]\<rparr>) \<noteq> Inr (Reserved ex_attempt, ex_base)"
    using revocation_final [OF ex_wf(4) r rtranclp.rtrancl_refl] by blast
qed

text \<open>C12: A recovery takeover that succeeds retires the pair of every unresolved attempt
  it names, hands every one of their leased resources to the new pair, and for good: in
  every later journal nothing of a retired pair is admitted or dispatched.\<close>

theorem takeover_retires_sources:
  assumes "wf_store s" "at_state a = Intent" "at_receipt a = None" "at_operation_index a = 0"
    and "store_takeover_recovery E clk a snap run rt s = Inr (Reserved b, s')"
    and "i \<in> set (rt_unresolved rt)" "(journal_step E)\<^sup>*\<^sup>* s' t"
  shows "\<exists>src. load_attempt s i = Some src
    \<and> recovery_source_retired s' (at_grant src) (at_plan src)
    \<and> list_all (\<lambda>r. lease_owner s' (resource_key r) = Some (at_grant a, at_plan a))
        (at_leased_resources src)
    \<and> (pair_of c = pair_of src \<longrightarrow>
         reserve E clk' c snap' t \<noteq> Inr (Reserved c', t')
         \<and> (load_attempt t j = Some c \<longrightarrow> claim_dispatch E clk' j who t = Inl (NotDispatchable j)))"
  using assms(5)
proof (cases rule: takeover_ok)
  case (fresh g olds s1 remaining)
  note srcs = takeover_sources_ok [OF fresh(5)]
  have s': "wf_store s'" using takeover_preserves [OF assms(2-4,1,5)] by simp
  from srcs(2) [OF assms(6)] obtain q where q: "takeover_source s a i = Inr q" by blast
  then have "q \<in> set olds" using srcs(1) assms(6) by blast
  moreover from q obtain src where src: "load_attempt s i = Some src" "q = pair_of src"
    "at_leased_resources src = at_leased_resources a" by (rule takeover_source_ok)
  moreover have "set olds \<subseteq> retired_pairs s'"
    by (auto simp: fresh(10) retired_pairs_def split_def image_Un image_image)
  ultimately have ret: "pair_of src \<in> retired_pairs s'" by blast
  then have ret': "pair_of src \<in> retired_pairs t"
    using later_closed (1) [OF s' assms(7)] by blast
  have lease: "lease_owner s' (resource_key r) = Some (at_grant a, at_plan a)"
    if "r \<in> set (at_leased_resources src)" for r
    using move_leases (3) [OF fresh(6), of "resource_key r"] that src(3)
    by (simp add: fresh(10) lease_owner_def)
  have "reserve E clk' c snap' t \<noteq> Inr (Reserved c', t')" if "pair_of c = pair_of src"
    using no_reserve_without_grant [of E clk' c snap' t c' t'] ret' that by auto
  moreover have "claim_dispatch E clk' j who t = Inl (NotDispatchable j)"
    if "pair_of c = pair_of src" "load_attempt t j = Some c"
    using that ret' by (simp add: claim_dispatch_def retired_pairs_iff)
  ultimately show ?thesis
    using src(1) ret lease by (auto simp: retired_pairs_iff list_all_iff)
qed simp

theorem takeover_retires_sources_witness:
  "recovery_source_retired ex_taken ex_grant_id ex_plan_id"
proof -
  have "load_attempt ex_stuck ex_attempt_id = Some src
      \<Longrightarrow> at_grant src = ex_grant_id \<and> at_plan src = ex_plan_id" for src
    by (auto simp: load_attempt_def ex_stuck_def ex_journals ex_attempt_def split: if_splits)
  moreover have "at_state ex_attempt2 = Intent" "at_receipt ex_attempt2 = None"
    "at_operation_index ex_attempt2 = 0" "ex_attempt_id \<in> set (rt_unresolved ex_recovery)"
    by (simp_all add: ex_attempt2_def ex_attempt_def ex_recovery_def)
  ultimately show ?thesis
    using takeover_retires_sources [OF ex_recovery_wf(1) _ _ _ ex_takeover _ rtranclp.rtrancl_refl]
    by metis
qed

text \<open>Abandoning a halted run is final and leaves nothing behind: every attempt of
  the pair is completed or rejected, the pair holds no lease, and in every later journal no
  attempt of the pair is admitted or dispatched and no lease returns to it.\<close>

theorem abandonment_final:
  assumes "wf_store s" "store_abandon_halted_run E clk r s = Inr (r', s')"
    and "load_halted_run_abandonment_by_request s (ha_request r) = None"
    and "(journal_step E)\<^sup>*\<^sup>* s' t"
  shows "list_all (\<lambda>a. resolved (at_state a)) (pair_attempts t (ha_grant r) (ha_plan r))
    \<and> lease_keys_for_pair t (ha_grant r) (ha_plan r) = {}
    \<and> (pair_of c = (ha_grant r, ha_plan r) \<longrightarrow>
         reserve E clk' c snap t \<noteq> Inr (Reserved c', t')
         \<and> (load_attempt t j = Some c \<longrightarrow> claim_dispatch E clk' j who t = Inl (NotDispatchable j)))"
proof -
  let ?q = "(ha_grant r, ha_plan r)"
  have s': "wf_store s'" using abandon_preserves [OF assms(1,2)] by simp
  have "?q \<in> halted_pairs s'"
    using assms(2)
  proof (cases rule: abandon_ok)
    case existing
    with assms(3) show ?thesis by simp
  next
    case (fresh run s1 keys)
    then show ?thesis by (simp add: halted_pairs_def)
  qed
  then have h: "?q \<in> halted_pairs t" using later_closed (2) [OF s' assms(4)] by blast
  have ls: "leases_wf (st_attempts t) (st_leases t) (retired_pairs t) (halted_pairs t)"
    using later_wf [OF assms(4) s'] by (simp add: wf_store_def)
  have "resolved (at_state b)" if "b \<in> set (st_attempts t)" "pair_of b = ?q" for b
    using leases_wfD (7) [OF ls that(1)] that(2) h by simp
  then have 1: "list_all (\<lambda>a. resolved (at_state a)) (pair_attempts t (ha_grant r) (ha_plan r))"
    by (auto simp: list_all_iff pair_attempts_def)
  have "(k, ?q) \<notin> set (st_leases t)" for k
    using leases_wfD (4) [OF ls, of k ?q] leases_wfD (1) [OF ls] h by auto
  then have 2: "lease_keys_for_pair t (ha_grant r) (ha_plan r) = {}"
    by (auto simp: lease_keys_for_pair_def)
  have "reserve E clk' c snap t \<noteq> Inr (Reserved c', t')" if "pair_of c = ?q"
    using no_reserve_without_grant [of E clk' c snap t c' t'] h that by auto
  moreover have "claim_dispatch E clk' j who t = Inl (NotDispatchable j)"
    if "pair_of c = ?q" "load_attempt t j = Some c"
    using that h by (simp add: claim_dispatch_def halted_pairs_iff)
  ultimately show ?thesis using 1 2 by simp
qed

theorem abandonment_final_witness:
  "lease_keys_for_pair ex_abandoned ex_grant_id ex_plan_id = {}"
proof -
  have "load_halted_run_abandonment_by_request ex_running (ha_request ex_abandonment) = None"
    by (simp add: load_halted_run_abandonment_by_request_def ex_running_def ex_journals)
  from abandonment_final [OF ex_recovery_wf(2) ex_abandon this rtranclp.rtrancl_refl]
  show ?thesis by (simp add: ex_abandonment_def)
qed

section \<open>Admission\<close>

text \<open>Admission replays: after an attempt has been reserved, reserving the same
  proposal again in any later journal, under any clock and snapshot, returns the recorded
  attempt, which has evolved from the proposal, and changes nothing.\<close>

theorem reserve_replays:
  assumes "wf_store s" "at_state a = Intent" "at_receipt a = None"
    and "reserve E clk a snap s = Inr (Reserved b, s')" "(journal_step E)\<^sup>*\<^sup>* s' t"
  shows "\<exists>c. attempt_evolves a c \<and> reserve E clk' a snap' t = Inr (Existing c, t)"
  using assms(4)
proof (cases rule: reserve_ok)
  case (fresh g s1 remaining)
  have s': "wf_store s'" using reserve_preserves [OF assms(2,3,1,4)] by simp
  have "a \<in> set (st_attempts s')"
    unfolding reserve_fresh_effect [OF assms(1) fresh(3,5,8)] by simp
  from later_attempt [OF s' assms(5) this] obtain c where
    c: "load_attempt t (at_id a) = Some c" "attempt_evolves a c" by blast
  have t: "steps_wf (st_attempts t)" using later_wf [OF assms(5) s'] by (simp add: wf_store_def)
  have "c \<in> set (st_attempts t)" "at_request c = at_request a"
    using c load_attempt_iff [OF t] by (simp_all add: attempt_evolves_def same_identity_def)
  moreover have "distinct (map at_request (st_attempts t))" using t by (simp add: steps_wf_def)
  ultimately have "load_attempt_by_request t (at_request a) = Some c"
    unfolding load_attempt_by_request_def by (simp add: row_at_unique)
  with c(2) show ?thesis
    by (intro exI [of _ c]) (simp add: reserve_def attempt_evolves_def same_identity_def)
qed simp

theorem reserve_replays_witness:
  "\<exists>c. reserve ex_env ex_clock ex_attempt ex_snapshot ex_dispatched = Inr (Existing c, ex_dispatched)"
proof -
  have "(journal_step ex_env)\<^sup>*\<^sup>* ex_admitted ex_dispatched"
    by (rule r_into_rtranclp [of "journal_step ex_env"], rule dispatched [OF ex_dispatch])
  from reserve_replays [OF ex_wf(4) _ _ ex_reserve this] show ?thesis
    by (auto simp: ex_attempt_def)
qed

text \<open>The step indices of a pair are an initial segment.\<close>

lemma initial_segment:
  assumes "finite I" "\<And>m n. n \<in> I \<Longrightarrow> m < n \<Longrightarrow> m \<in> (I :: nat set)"
  shows "I = {..<card I}"
proof (cases "I = {}")
  case False
  have "I = {..Max I}"
  proof
    show "I \<subseteq> {..Max I}" using assms(1) by (simp add: subset_iff)
    show "{..Max I} \<subseteq> I"
      using assms(2) [OF Max_in [OF assms(1) False]] Max_in [OF assms(1) False]
      by (force simp: le_less)
  qed
  then have "card I = Suc (Max I)" by (metis card_atMost)
  with \<open>I = {..Max I}\<close> show ?thesis by (simp add: lessThan_Suc_atMost)
qed simp

lemma pair_indices:
  assumes "steps_wf (st_attempts s)"
  shows "at_operation_index ` set (pair_attempts s g p) = {..<length (pair_attempts s g p)}"
proof -
  let ?P = "pair_attempts s g p"
  have inj: "inj_on at_operation_index (set ?P)"
    using steps_unique [OF assms] by (auto simp: inj_on_def pair_attempts_set)
  have "distinct ?P"
    using assms by (auto simp: pair_attempts_def steps_wf_def distinct_map)
  then have "card (at_operation_index ` set ?P) = length ?P"
    by (simp add: card_image [OF inj] distinct_card)
  moreover have "m \<in> at_operation_index ` set ?P"
    if n: "n \<in> at_operation_index ` set ?P" "m < n" for m n
  proof -
    from n obtain a where "a \<in> set (st_attempts s)" "pair_of a = (g, p)" "m < at_operation_index a"
      by (auto simp: pair_attempts_set)
    with steps_below_completed [OF assms, of a m] obtain b where "b \<in> set ?P"
      "at_operation_index b = m" by (auto simp: pair_attempts_set)
    then show ?thesis by blast
  qed
  ultimately show ?thesis using initial_segment [of "at_operation_index ` set ?P"] by simp
qed

lemma reserve_effect:
  assumes "wf_store s" "reserve E clk a snap s = Inr (Reserved b, s')"
  shows "b = a \<and> st_attempts s' = st_attempts s @ [a]
    \<and> (\<exists>g g'. st_grants s (at_grant a) = Some g \<and> st_grants s' (at_grant a) = Some g'
        \<and> budget_nat (gr_remaining g) = budget_plus (budget_nat (gr_remaining g')) (budget_nat (at_reserved a))
        \<and> \<not> gr_revoked g
        \<and> (\<exists>expiry. env_parse_timestamp E (gr_expires_at g) = Some expiry \<and> clk 0 < expiry))
    \<and> (\<forall>k. lease_owner s' k = (if k \<in> resource_keys a then Some (pair_of a) else lease_owner s k))
    \<and> (\<forall>k. k \<in> resource_keys a \<longrightarrow> lease_owner s k \<in> {None, Some (pair_of a)})
    \<and> at_operation_index a = length (pair_attempts s (at_grant a) (at_plan a))"
  using assms(2)
proof (cases rule: reserve_ok)
  case (fresh g s1 remaining)
  have st: "steps_wf (st_attempts s)" using assms(1) by (simp add: wf_store_def)
  note s' = reserve_fresh_effect [OF assms(1) fresh(3,5,8)]
  note guards = reserve_guards_ok [OF fresh(3)]
  note acq = acquire_leases [OF fresh(5)]
  have lo: "lease_owner s' k = lease_owner s1 k" for k
    by (simp add: s' lease_owner_def)
  have budget: "budget_nat (gr_remaining g) = budget_plus (budget_nat remaining) (budget_nat (at_reserved a))"
    using fresh(6) by (simp add: budget_checked_sub_Some)
  have index: "at_operation_index a = length (pair_attempts s (at_grant a) (at_plan a))"
    using reserve_order_ok [OF fresh(4)]
  proof (elim disjE conjE bexE)
    assume "at_operation_index a = 0" "\<forall>c\<in>set (st_attempts s). pair_of c \<noteq> pair_of a"
    then show ?thesis by (auto simp: pair_attempts_def filter_empty_conv)
  next
    fix b assume b: "b \<in> set (st_attempts s)" "pair_of b = pair_of a"
      "at_operation_index a = Suc (at_operation_index b)"
      "\<forall>c\<in>set (st_attempts s). pair_of c = pair_of a \<longrightarrow> at_operation_index c \<le> at_operation_index b"
    let ?P = "pair_attempts s (at_grant a) (at_plan a)"
    have "at_operation_index ` set ?P = {..<length ?P}" by (rule pair_indices [OF st])
    moreover have "b \<in> set ?P" using b(1,2) by (simp add: pair_attempts_set)
    moreover have "n \<le> at_operation_index b" if "n \<in> at_operation_index ` set ?P" for n
      using that b(4) by (auto simp: pair_attempts_set)
    ultimately have "at_operation_index b \<in> {..<length ?P}" "\<forall>n\<in>{..<length ?P}. n \<le> at_operation_index b"
      by (blast, metis)
    moreover have "length ?P - 1 \<in> {..<length ?P}" using calculation(1) by auto
    ultimately have "at_operation_index b < length ?P" "length ?P - 1 \<le> at_operation_index b"
      by (simp, blast)
    with b(3) show ?thesis by linarith
  qed
  show ?thesis
    using fresh(1) guards(3,4) budget index acq(3,4)
    by (simp add: lo resource_keys_def check_grant_ok_iff) (simp add: s')
qed simp

text \<open>C9: A fresh admission is exact: the grant pays precisely the reserved budget in
  every component without wrap-around, only free resources or the pair's own are leased,
  exactly the attempt's resources change owner, the attempt is appended, and its step is
  the next one of its run.\<close>

theorem reserve_exact:
  assumes "wf_store s" "reserve E clk a snap s = Inr (Reserved b, s')"
  shows "b = a \<and> st_attempts s' = st_attempts s @ [a]
    \<and> (\<exists>g g'. st_grants s (at_grant a) = Some g \<and> st_grants s' (at_grant a) = Some g'
        \<and> budget_nat (gr_remaining g) = budget_plus (budget_nat (gr_remaining g')) (budget_nat (at_reserved a))
        \<and> \<not> gr_revoked g
        \<and> (\<exists>expiry. env_parse_timestamp E (gr_expires_at g) = Some expiry \<and> clk 0 < expiry))
    \<and> (\<forall>k. lease_owner s' k = (if k \<in> resource_keys a then Some (pair_of a) else lease_owner s k))
    \<and> (\<forall>k. k \<in> resource_keys a \<longrightarrow> lease_owner s k \<in> {None, Some (pair_of a)})
    \<and> at_operation_index a = length (pair_attempts s (at_grant a) (at_plan a))"
  by (rule reserve_effect [OF assms])

theorem reserve_exact_witness:
  "gr_remaining (ex_grant 5 False) = ex_budget 5
   \<and> (\<exists>g'. st_grants ex_admitted ex_grant_id = Some g'
        \<and> budget_nat (ex_budget 5) = budget_plus (budget_nat (gr_remaining g')) (budget_nat (ex_budget 1)))"
proof -
  have "at_grant ex_attempt = ex_grant_id" "at_reserved ex_attempt = ex_budget 1"
    "st_grants ex_base ex_grant_id = Some (ex_grant 5 False)"
    "gr_remaining (ex_grant 5 False) = ex_budget 5"
    by (simp_all add: ex_attempt_def ex_base_def ex_grant_def)
  with reserve_exact [OF ex_wf(4) ex_reserve] show ?thesis by auto
qed

section \<open>The record of what happened\<close>

text \<open>History is written once. In every later journal an attempt is still there
  with the same identity; its state has only moved along the life cycle (a completed or
  rejected attempt never changes again), and a receipt, once recorded, is the same
  receipt, whatever reconciliation did since.\<close>

theorem attempt_history_kept:
  assumes "reachable E s" "(journal_step E)\<^sup>*\<^sup>* s t" "load_attempt s i = Some a"
  shows "\<exists>b. load_attempt t i = Some b \<and> same_identity a b
    \<and> may_evolve (at_state a) (at_state b)
    \<and> (resolved (at_state a) \<longrightarrow> at_state b = at_state a)
    \<and> (at_receipt a \<noteq> None \<longrightarrow> at_receipt b = at_receipt a)"
proof -
  have st: "steps_wf (st_attempts s)" using reachable_wf [OF assms(1)] by (simp add: wf_store_def)
  have a: "a \<in> set (st_attempts s)" "at_id a = i" using assms(3) load_attempt_iff [OF st] by simp_all
  from later_attempt [OF reachable_wf [OF assms(1)] assms(2) a(1)] a(2) obtain b where
    "load_attempt t i = Some b" "attempt_evolves a b" by blast
  then show ?thesis
    by (intro exI [of _ b]) (auto simp: attempt_evolves_def may_evolve_resolved)
qed

theorem attempt_history_kept_witness:
  "\<exists>b. load_attempt ex_uncertain ex_attempt_id = Some b \<and> at_state b \<noteq> Intent"
proof -
  have "(journal_step ex_env)\<^sup>*\<^sup>* ex_dispatched ex_uncertain"
    by (rule r_into_rtranclp [of "journal_step ex_env"], rule receipt_recorded [OF _ ex_receipt]) simp
  moreover have "load_attempt ex_dispatched ex_attempt_id = Some ex_flying"
    by (simp add: load_attempt_def ex_journals ex_attempt_def)
  ultimately obtain b where "load_attempt ex_uncertain ex_attempt_id = Some b"
    "may_evolve (at_state ex_flying) (at_state b)"
    using attempt_history_kept [OF ex_reachable(2)] by blast
  then show ?thesis by (auto simp: ex_flying_def)
qed

text \<open>C19: Steps run in order: in every reachable journal, an attempt at step \<open>n\<close> of a
  grant and plan is there only when every earlier step of that run has an attempt that is
  completed.\<close>

theorem steps_in_order:
  assumes "reachable E s" "a \<in> set (st_attempts s)" "m < at_operation_index a"
  shows "\<exists>b\<in>set (pair_attempts s (at_grant a) (at_plan a)).
           at_operation_index b = m \<and> at_state b = Completed"
proof -
  have "steps_wf (st_attempts s)" using reachable_wf [OF assms(1)] by (simp add: wf_store_def)
  from steps_below_completed [OF this assms(2,3)] show ?thesis
    by (auto simp: pair_attempts_set)
qed

theorem steps_in_order_witness:
  "\<exists>b\<in>set (pair_attempts ex_second ex_grant_id ex_plan_id).
     at_operation_index b = 0 \<and> at_state b = Completed"
proof -
  have "ex_next \<in> set (st_attempts ex_second)" "0 < at_operation_index ex_next"
    "at_grant ex_next = ex_grant_id" "at_plan ex_next = ex_plan_id"
    by (simp_all add: ex_second_def ex_next_def ex_attempt_def)
  with steps_in_order [OF ex_second_reachable] show ?thesis by metis
qed

lemma distinct_same_short:
  "distinct xs \<Longrightarrow> (\<And>x y. x \<in> set xs \<Longrightarrow> y \<in> set xs \<Longrightarrow> x = y) \<Longrightarrow> length xs \<le> 1"
  by (metis One_nat_def card_le_Suc0_iff_eq distinct_card finite_set)

text \<open>Reconciliations of an attempt are numbered without gaps: in every reachable
  journal the history of an attempt lists the ordinals 0, 1, 2, and so on in order, and at
  most one of its entries is still claimed, which is so only while the attempt is
  unknown.\<close>

theorem reconciliation_history_gapless:
  assumes "reachable E s"
  shows "map rc_ordinal (reconciliation_history s i) = [0..<length (reconciliation_history s i)]
    \<and> length (filter (\<lambda>r. rc_state r = Claimed) (reconciliation_history s i)) \<le> 1
    \<and> (list_ex (\<lambda>r. rc_state r = Claimed) (reconciliation_history s i)
         \<longrightarrow> (\<exists>a. load_attempt s i = Some a \<and> at_state a = Unknown))"
proof -
  let ?R = "filter (\<lambda>r. rc_attempt r = i) (st_reconciliations s)"
  have wf: "wf_store s" by (rule reachable_wf [OF assms])
  have rc: "recon_wf (st_attempts s) (st_reconciliations s)" using wf by (simp add: wf_store_def)
  note ord = recon_wfD (2) [OF rc, of i]
  have "sorted (map rc_ordinal ?R)" unfolding ord by simp
  then have hist: "reconciliation_history s i = ?R"
    unfolding reconciliation_history_def by (rule sort_key_id_if_sorted)
  let ?C = "filter (\<lambda>r. rc_state r = Claimed) ?R"
  have "distinct ?C" using recon_wfD (1) [OF rc] by (simp add: distinct_map)
  moreover have "q = r" if "q \<in> set ?C" "r \<in> set ?C" for q r
    using that recon_wfD (4) [OF rc] by auto
  ultimately have "length ?C \<le> 1"
    by (rule distinct_same_short)
  moreover have "\<exists>a. load_attempt s i = Some a \<and> at_state a = Unknown"
    if ex: "list_ex (\<lambda>r. rc_state r = Claimed) ?R"
  proof -
    from ex obtain r where r: "r \<in> set (st_reconciliations s)" "rc_attempt r = i" "rc_state r = Claimed"
      by (auto simp: list_ex_iff)
    from recon_wfD (3) [OF rc r(1,3)] r(2) show ?thesis
      using load_attempt_iff [of s i] wf unfolding wf_store_def by metis
  qed
  ultimately show ?thesis using ord hist by simp
qed

theorem reconciliation_history_gapless_witness:
  "map rc_ordinal (reconciliation_history ex_uncertain ex_attempt_id)
     = [0..<length (reconciliation_history ex_uncertain ex_attempt_id)]"
  using reconciliation_history_gapless [OF ex_reachable(3)] by blast

section \<open>Interrupted work\<close>

text \<open>Opening the journal closes what was in flight: afterwards no attempt is
  dispatched and no reconciliation claimed; an attempt that was dispatched is unknown with
  a receipt that says so, every other attempt is untouched, no lease is given up, and
  opening again, at any time, changes nothing more.\<close>

theorem recovery_closes_inflight:
  "list_all (\<lambda>a. at_state a \<noteq> Dispatched) (st_attempts (recover_interrupted_dispatches E clk s))
   \<and> list_all (\<lambda>r. rc_state r \<noteq> Claimed) (st_reconciliations (recover_interrupted_dispatches E clk s))
   \<and> list_all2 (\<lambda>a b. if at_state a = Dispatched
        then same_identity a b \<and> at_state b = Unknown
             \<and> at_receipt b = Some (ReceiptUnknown
                 ''process interrupted after dispatch; reconciliation required'' None)
        else b = a) (st_attempts s) (st_attempts (recover_interrupted_dispatches E clk s))
   \<and> st_leases (recover_interrupted_dispatches E clk s) = st_leases s
   \<and> recover_interrupted_dispatches E clk' (recover_interrupted_dispatches E clk s)
       = recover_interrupted_dispatches E clk s"
proof -
  let ?t = "recover_interrupted_dispatches E clk s"
  have 1: "list_all (\<lambda>a. at_state a \<noteq> Dispatched) (st_attempts ?t)"
    by (auto simp: list_all_iff elim!: recover_attempt_member)
  have 2: "list_all (\<lambda>r. rc_state r \<noteq> Claimed) (st_reconciliations ?t)"
    by (auto simp: list_all_iff elim!: recover_recon_member)
  have 3: "list_all2 (\<lambda>a b. if at_state a = Dispatched
        then same_identity a b \<and> at_state b = Unknown
             \<and> at_receipt b = Some (ReceiptUnknown
                 ''process interrupted after dispatch; reconciliation required'' None)
        else b = a) (st_attempts s) (st_attempts ?t)"
    by (auto simp: list_all2_conv_all_nth recover_rows) (simp_all add: interrupt_attempt_def)
  have "st_attempts (recover_interrupted_dispatches E clk' ?t) = st_attempts ?t"
    by (intro nth_equalityI) (simp_all add: recover_rows)
  moreover have "st_reconciliations (recover_interrupted_dispatches E clk' ?t) = st_reconciliations ?t"
    by (intro nth_equalityI) (simp_all add: recover_rows)
  ultimately have "recover_interrupted_dispatches E clk' ?t = ?t"
    unfolding recover_interrupted_dispatches_def [of E clk' ?t]
    by (simp add: recover_interrupted_dispatches_def [of E clk' ?t])
  with 1 2 3 show ?thesis by simp
qed

lemma completed_prefix_completed:
  "n < completed_prefix s steps \<Longrightarrow>
     \<exists>a. load_attempt s (fst (steps ! n)) = Some a \<and> at_state a = Completed"
proof (induction steps arbitrary: n)
  case (Cons x steps)
  obtain i q where x: "x = (i, q)" by (cases x)
  from Cons.prems x obtain a where "load_attempt s i = Some a" "at_state a = Completed"
    by (auto split: option.splits if_splits)
  with Cons x show ?case by (cases n) auto
qed simp

lemma completed_prefix_stops:
  "completed_prefix s steps < length steps \<Longrightarrow>
     load_attempt s (fst (steps ! completed_prefix s steps)) = Some a \<Longrightarrow> at_state a \<noteq> Completed"
  by (induction steps) (auto split: option.splits if_splits)

lemma completed_prefix_le: "completed_prefix s steps \<le> length steps"
  by (induction steps) (auto split: option.splits)

lemma completed_prefix_runs: "completed_prefix (s\<lparr>st_runs := m\<rparr>) steps = completed_prefix s steps"
  by (induction steps) (auto simp: load_attempt_def split: option.splits)

text \<open>Repairing a run's cursor moves it exactly to the completed prefix of its steps
  and never back: the new cursor is the larger of the two, every step before the prefix has
  a completed attempt, the step at it has not, and repairing again changes nothing.\<close>

theorem repair_run_cursor_exact:
  assumes "st_runs s i = Some run"
  shows "\<exists>run' s'. repair_run_cursor i s = Inr (run', s')
    \<and> s' = s\<lparr>st_runs := (st_runs s)(i \<mapsto> run')\<rparr>
    \<and> run' = run\<lparr>ru_cursor := max (ru_cursor run) (completed_prefix s (ru_steps run))\<rparr>
    \<and> completed_prefix s (ru_steps run) \<le> length (ru_steps run)
    \<and> (\<forall>n<completed_prefix s (ru_steps run). \<exists>a. load_attempt s (fst (ru_steps run ! n)) = Some a
          \<and> at_state a = Completed)
    \<and> (completed_prefix s (ru_steps run) < length (ru_steps run) \<longrightarrow>
         (\<forall>a. load_attempt s (fst (ru_steps run ! completed_prefix s (ru_steps run))) = Some a
            \<longrightarrow> at_state a \<noteq> Completed))
    \<and> repair_run_cursor i s' = Inr (run', s')"
proof -
  obtain run' s' where r: "repair_run_cursor i s = Inr (run', s')"
    using assms by (cases "repair_run_cursor i s") (auto simp: repair_run_cursor_def Let_def split: if_splits)
  then have eff: "run' = run\<lparr>ru_cursor := max (ru_cursor run) (completed_prefix s (ru_steps run))\<rparr>"
    "s' = s\<lparr>st_runs := (st_runs s)(i \<mapsto> run')\<rparr>"
    using assms by (auto elim!: repair_run_cursor_ok)
  then have "repair_run_cursor i s' = Inr (run', s')"
    by (simp add: repair_run_cursor_def Let_def completed_prefix_runs)
  with r eff completed_prefix_completed completed_prefix_stops completed_prefix_le show ?thesis
    by blast
qed

theorem repair_run_cursor_exact_witness:
  "\<exists>run' s'. repair_run_cursor (RequestId ''run2'') ex_taken = Inr (run', s') \<and> ru_cursor run' = 0"
proof -
  have run: "st_runs ex_taken (RequestId ''run2'')
      = Some (ex_run (RequestId ''run2'') ex_plan_id2 ex_attempt2)" by (simp add: ex_taken_def)
  have "completed_prefix ex_taken (ru_steps (ex_run (RequestId ''run2'') ex_plan_id2 ex_attempt2)) = 0"
    by (simp add: ex_run_def load_attempt_def ex_taken_def ex_stuck_def ex_journals ex_attempt2_def
        ex_attempt_def ex_attempt_id_def)
  with repair_run_cursor_exact [OF run] show ?thesis by (auto simp: ex_run_def)
qed

text \<open>A reviewed proposal is consumed once and only as reviewed: a success requires
  the stored proposal's digest to be the reviewed one, stores the plan (or finds the same
  plan by digest), removes the proposal in the same transaction, and repeating it fails
  with \<open>Missing\<close>.\<close>

theorem consume_reviewed_once:
  assumes "consume_reviewed_proposal E i d plan s = Inr (u, s')"
  shows "(\<exists>proposal. st_proposals s i = Some proposal \<and> proposal_digest E proposal = Some d)
    \<and> (\<exists>stored. st_plans s' (rp_id plan) = Some stored \<and> plan_digest E stored = plan_digest E plan)
    \<and> st_proposals s' = (st_proposals s)(i := None)
    \<and> consume_reviewed_proposal E i d plan s' = Inl (Missing ''proposal'' (plan_str i))"
  using assms
proof (rule consume_ok)
  fix proposal plans
  assume "st_proposals s i = Some proposal" "proposal_digest E proposal = Some d"
    "(st_plans s (rp_id plan) = None \<and> plans = (st_plans s)(rp_id plan \<mapsto> plan))
     \<or> (\<exists>old. st_plans s (rp_id plan) = Some old \<and> plan_digest E old = plan_digest E plan
          \<and> plans = st_plans s)"
    "s' = s\<lparr>st_plans := plans, st_proposals := (st_proposals s)(i := None)\<rparr>"
  then show ?thesis
    by (auto simp: consume_reviewed_proposal_def)
qed

theorem consume_reviewed_once_witness:
  "consume_reviewed_proposal ex_env ex_plan_id ex_digest ex_plan
     (empty_store\<lparr>st_plans := [ex_plan_id \<mapsto> ex_plan]\<rparr>) = Inl (Missing ''proposal'' (plan_str ex_plan_id))"
  using consume_reviewed_once [OF ex_consume] by blast

end
