(* ===== verification/Supervisor_Safety.thy ===== *)
theory Supervisor_Safety
  imports Supervisor_Examples Store_Safety
begin

text \<open>
  What the supervisor guarantees. Authorization is characterised exactly; every operation
  is shown to move the journal only by steps of \<open>journal_step\<close>, so the safety theorems of
  the journal hold of everything the supervisor does; execution touches the device only
  through one backend call on a claimed, authorised dispatch and always settles the
  attempt it claimed; a completed outcome carries bound evidence and its postconditions.
\<close>

named_theorems journaled_intros

section \<open>Reasoning about supervised steps\<close>

lemma sbind_result:
  "sbind m f w = (r, w') \<longleftrightarrow>
     (\<exists>e. m w = (Inl e, w') \<and> r = Inl e) \<or> (\<exists>x w1. m w = (Inr x, w1) \<and> f x w1 = (r, w'))"
  by (auto simp: sbind_def split: prod.splits sum.splits)

lemma sbind_Inr: "sbind m f w = (Inr y, w') \<longleftrightarrow> (\<exists>x w1. m w = (Inr x, w1) \<and> f x w1 = (Inr y, w'))"
  by (auto simp: sbind_def split: prod.splits sum.splits)

lemma basic_results [simp]:
  "sreturn x w = (r, w') \<longleftrightarrow> r = Inr x \<and> w' = w"
  "sfail e w = (r, w') \<longleftrightarrow> r = Inl e \<and> w' = w"
  "lift_result v w = (r, w') \<longleftrightarrow> v = r \<and> w' = w"
  "read_store f w = (r, w') \<longleftrightarrow> r = Inr (f (w_store w)) \<and> w' = w"
  by (auto simp: sreturn_def sfail_def lift_result_def read_store_def)

lemma now_result:
  "now B w = (r, w') \<longleftrightarrow> r = Inr (bn_time B (w_calls w) 0) \<and> w' = w\<lparr>w_calls := Suc (w_calls w)\<rparr>"
  by (auto simp: now_def)

lemma transaction_Inr:
  "transaction B op w = (Inr x, w') \<longleftrightarrow>
     (\<exists>s. op (bn_time B (w_calls w)) (w_store w) = Inr (x, s)
        \<and> w' = w\<lparr>w_store := s, w_calls := Suc (w_calls w)\<rparr>)"
  by (auto simp: transaction_def split: sum.splits)

lemma transaction_Inl:
  "transaction B op w = (Inl e, w') \<longleftrightarrow>
     (\<exists>f. op (bn_time B (w_calls w)) (w_store w) = Inl f \<and> e = SvStore f
        \<and> w' = w\<lparr>w_calls := Suc (w_calls w)\<rparr>)"
  by (auto simp: transaction_def split: sum.splits)

text \<open>A step that neither writes the journal nor touches the device; the clock may be read.\<close>

definition observes :: "('d, 'a) sv \<Rightarrow> bool" where
  "observes m \<longleftrightarrow> (\<forall>w r w'. m w = (r, w') \<longrightarrow>
     w_store w' = w_store w \<and> w_device w' = w_device w \<and> w_calls w \<le> w_calls w')"

lemma observesD: "observes m \<Longrightarrow> m w = (r, w') \<Longrightarrow> w_store w' = w_store w \<and> w_device w' = w_device w"
  unfolding observes_def by blast

lemma observes_later: "observes m \<Longrightarrow> m w = (r, w') \<Longrightarrow> w_calls w \<le> w_calls w'"
  unfolding observes_def by blast

named_theorems observes_intros

lemma observes_basic [observes_intros]:
  "observes (sreturn x)" "observes (sfail e)" "observes (lift_result v)" "observes (read_store f)"
  "observes (now B)" "observes (resolve_artifact B d)"
  by (simp_all add: observes_def now_result resolve_artifact_def)

lemma observes_state [observes_intros]: "observes (\<lambda>w. (f w, w))"
  by (simp add: observes_def)

lemma observes_sbind [observes_intros]:
  assumes "observes m" "\<And>x. observes (f x)"
  shows "observes (sbind m f)"
  unfolding observes_def
proof (intro allI impI)
  fix w r w' assume "sbind m f w = (r, w')"
  then consider e where "m w = (Inl e, w')" | x w1 where "m w = (Inr x, w1)" "f x w1 = (r, w')"
    by (auto simp: sbind_result)
  then show "w_store w' = w_store w \<and> w_device w' = w_device w \<and> w_calls w \<le> w_calls w'"
    using assms unfolding observes_def by cases (metis order.trans)+
qed

lemma observes_for_each [observes_intros]:
  "(\<And>x. observes (body x)) \<Longrightarrow> observes (for_each_sv body xs)"
  by (induction xs) (auto intro: observes_intros)

lemma observes_if [observes_intros]:
  "(b \<Longrightarrow> observes m) \<Longrightarrow> (\<not> b \<Longrightarrow> observes n) \<Longrightarrow> observes (if b then m else n)"
  by simp

lemma observes_option [observes_intros]:
  "observes m \<Longrightarrow> (\<And>x. observes (f x)) \<Longrightarrow> observes (case v of None \<Rightarrow> m | Some x \<Rightarrow> f x)"
  by (simp split: option.split)

lemma preflight_observes [observes_intros]: "observes (preflight_plan B g profile plan)"
  unfolding preflight_plan_def preflight_operation_def by (intro observes_intros)

lemma bound_envelope_observes [observes_intros]:
  "observes (bound_envelope B attempt challenge phase obs m1 m2)"
  unfolding bound_envelope_def by (intro observes_intros)

lemma completed_observation_observes [observes_intros]: "observes (completed_observation B a)"
  unfolding completed_observation_def Let_def split_def
  by (intro observes_intros) (auto split: option.split operation_receipt.split intro: observes_intros)

lemma interlock_expiry_observes [observes_intros]: "observes (interlock_expiry B a plan li)"
  unfolding interlock_expiry_def Let_def by (intro observes_intros)

lemma interlock_loop_observes [observes_intros]: "observes (interlock_loop B a plan planned lis e)"
  by (induction lis arbitrary: e) (auto intro: observes_intros)

lemma prepare_dispatch_observes [observes_intros]: "observes (prepare_dispatch B claimed)"
  unfolding prepare_dispatch_def check_live_interlocks_def by (intro observes_intros)

lemma verify_receipt_observes [observes_intros]: "observes (verify_receipt_evidence B a d r)"
  unfolding verify_receipt_evidence_def Let_def
  by (auto split: operation_receipt.split option.split intro: observes_intros)

lemma sv_recover_observes [observes_intros]: "observes m \<Longrightarrow> observes (sv_recover m h)"
  unfolding observes_def sv_recover_def by (auto split: prod.splits sum.splits)

section \<open>Relations that every operation respects\<close>

definition related :: "('d world \<Rightarrow> 'd world \<Rightarrow> bool) \<Rightarrow> ('d, 'a) sv \<Rightarrow> bool" where
  "related R m \<longleftrightarrow> (\<forall>w r w'. m w = (r, w') \<longrightarrow> R w w')"

lemma relatedD: "related R m \<Longrightarrow> m w = (r, w') \<Longrightarrow> R w w'"
  unfolding related_def by blast

lemma intent_record_fresh:
  "at_state (intent_record B a q g p n pd bud prof prd t) = Intent"
  "at_receipt (intent_record B a q g p n pd bud prof prd t) = None"
  "at_operation_index (intent_record B a q g p n pd bud prof prd t) = n"
  by (simp_all add: intent_record_def Let_def)

text \<open>One step of the whole system: an operation of the supervisor, by any principal, or
  the journal being opened again after an interruption.\<close>

inductive system_step :: "'d bench \<Rightarrow> 'd world \<Rightarrow> 'd world \<Rightarrow> bool" for B where
  commissions: "commission B who profile w = (ru, w') \<Longrightarrow> system_step B w w'"
| issues: "issue_grant B who agent g w = (ru, w') \<Longrightarrow> system_step B w w'"
| revokes: "revoke_grant B who i w = (ru, w') \<Longrightarrow> system_step B w w'"
| proposes: "propose_plan B agent proposal w = (rp, w') \<Longrightarrow> system_step B w w'"
| notes_case: "sv_append_case_fact B c entry w = (ru, w') \<Longrightarrow> system_step B w w'"
| reviews: "review_proposal B reviewer pid d w = (rr, w') \<Longrightarrow> system_step B w w'"
| submits: "submit B agent request w = (rs, w') \<Longrightarrow> system_step B w w'"
| admits: "admit_plan B agent admission w = (rt, w') \<Longrightarrow> system_step B w w'"
| takes_over: "takeover_recovery B who takeover w = (rt, w') \<Longrightarrow> system_step B w w'"
| abandons: "abandon_halted_run B who abandonment w = (ra, w') \<Longrightarrow> system_step B w w'"
| executes: "execute B agent ticket w = (re, w') \<Longrightarrow> system_step B w w'"
| executes_next: "execute_next B agent plan_ticket w = (rn, w') \<Longrightarrow> system_step B w w'"
| resumes_plan: "resume_plan B agent run w = (rt, w') \<Longrightarrow> system_step B w w'"
| resumes: "resume B agent req w = (re, w') \<Longrightarrow> system_step B w w'"
| executes_plan: "execute_plan B agent requests w = (rl, w') \<Longrightarrow> system_step B w w'"
| reconciles: "reconcile B agent att req w = (re, w') \<Longrightarrow> system_step B w w'"
| restarts: "system_step B w (w\<lparr>w_store := recover_interrupted_dispatches (bn_env B) clk (w_store w)\<rparr>)"

text \<open>A relation on worlds that follows from what the journal and the device do in one
  step follows for every operation of the supervisor.\<close>

locale supervised =
  fixes B :: "'d bench" and R :: "'d world \<Rightarrow> 'd world \<Rightarrow> bool"
  assumes quiet: "w_store w' = w_store w \<Longrightarrow> w_device w' = w_device w \<Longrightarrow> R w w'"
    and chain: "R w1 w2 \<Longrightarrow> R w2 w3 \<Longrightarrow> R w1 w3"
    and journal: "journal_step (bn_env B) (w_store w) (w_store w') \<Longrightarrow> w_device w' = w_device w
           \<Longrightarrow> R w w'"
    and dispatching: "execute B agent ticket w = (re, w') \<Longrightarrow> R w w'"
    and reconciling: "w_store w' = w_store w \<Longrightarrow> w_device w' = snd (bn_reconcile B rq (w_device w))
           \<Longrightarrow> R w w'"
begin

lemma related_observes: "observes m \<Longrightarrow> related R m"
  unfolding observes_def related_def by (blast intro: quiet)

lemma related_basic [journaled_intros]:
  "related R (sreturn x)" "related R (sfail e)" "related R (lift_result v)"
  "related R (read_store f)" "related R (now B)" "related R (resolve_artifact B d)"
  "related R (preflight_plan B g profile plan)"
  by (rule related_observes, rule observes_intros)+

lemma related_sbind [journaled_intros]:
  assumes "related R m" "\<And>x. related R (f x)"
  shows "related R (sbind m f)"
  unfolding related_def
proof (intro allI impI)
  fix w r w' assume "sbind m f w = (r, w')"
  then consider e where "m w = (Inl e, w')" | x w1 where "m w = (Inr x, w1)" "f x w1 = (r, w')"
    by (auto simp: sbind_result)
  then show "R w w'"
    using relatedD [OF assms(1)] relatedD [OF assms(2)] chain by cases blast+
qed

lemma related_if [journaled_intros]:
  "(b \<Longrightarrow> related R m) \<Longrightarrow> (\<not> b \<Longrightarrow> related R n) \<Longrightarrow> related R (if b then m else n)"
  by simp

lemma related_transaction:
  assumes "\<And>clk s x s'. op clk s = Inr (x, s') \<Longrightarrow> journal_step (bn_env B) s s'"
  shows "related R (transaction B op)"
  unfolding related_def
proof (intro allI impI)
  fix w r w' assume t: "transaction B op w = (r, w')"
  show "R w w'"
  proof (cases r)
    case (Inl e)
    with t have "w_store w' = w_store w" "w_device w' = w_device w" by (auto simp: transaction_Inl)
    then show ?thesis by (rule quiet)
  next
    case (Inr x)
    with t have "op (bn_time B (w_calls w)) (w_store w) = Inr (x, w_store w')"
      "w_device w' = w_device w" by (auto simp: transaction_Inr)
    with assms show ?thesis by (intro journal) auto
  qed
qed

lemma related_transactions [journaled_intros]:
  "related R (transaction B (\<lambda>_. save_profile p))"
  "related R (transaction B (\<lambda>_. save_grant g))"
  "related R (transaction B (\<lambda>_. store_revoke_grant i))"
  "related R (transaction B (\<lambda>_. save_proposal (bn_env B) pr))"
  "related R (transaction B (\<lambda>_. consume_reviewed_proposal (bn_env B) pid d plan))"
  "related R (transaction B (\<lambda>_. create_run run))"
  "related R (transaction B (\<lambda>_. advance_run rid n))"
  "related R (transaction B (\<lambda>_. repair_run_cursor rid))"
  "related R (transaction B (\<lambda>_. append_case_fact cid entry))"
  "related R (transaction B (\<lambda>clk. claim_reconciliation (bn_env B) clk att req who budget))"
  "related R (transaction B (\<lambda>clk. finish_reconciliation (bn_env B) clk req rec c l))"
  "related R (transaction B (\<lambda>clk. store_abandon_halted_run (bn_env B) clk ab))"
  by (rule related_transaction, erule journal_step.intros)+

lemma related_reserve [journaled_intros]:
  "related R (transaction B (\<lambda>clk. reserve (bn_env B) clk
     (intent_record B a q g p n pd bud prof prd t) snap))"
  by (rule related_transaction, erule reserved [rotated 2]) (simp_all add: intent_record_fresh)

lemma related_takeover [journaled_intros]:
  "related R (transaction B (\<lambda>clk. store_takeover_recovery (bn_env B) clk
     (intent_record B a q g p 0 pd bud prof prd t) snap run rt))"
  by (rule related_transaction, erule taken_over [rotated 3]) (simp_all add: intent_record_fresh)

lemma related_submit [journaled_intros]: "related R (submit B agent request)"
  unfolding submit_def Let_def
  by (intro journaled_intros) (auto split: reservation_outcome.split intro: journaled_intros)

lemma related_entities [journaled_intros]:
  "related R (commission B who profile)"
  "related R (issue_grant B who agent g)"
  "related R (revoke_grant B who i)"
  "related R (propose_plan B agent proposal)"
  "related R (review_proposal B reviewer pid d)"
  "related R (sv_append_case_fact B c entry)"
  unfolding sv_append_case_fact_def commission_def issue_grant_def revoke_grant_def propose_plan_def review_proposal_def Let_def
  by (intro journaled_intros)+

lemma related_authority [journaled_intros]:
  "related R (admit_plan B agent request)"
  "related R (takeover_recovery B who takeover)"
  "related R (abandon_halted_run B who abandonment)"
  unfolding admit_plan_def takeover_recovery_def abandon_halted_run_def Let_def
  by (intro journaled_intros)+

lemma related_execute [journaled_intros]: "related R (execute B agent ticket)"
  unfolding related_def using dispatching by blast

lemma related_execute_next [journaled_intros]: "related R (execute_next B agent plan_ticket)"
  unfolding execute_next_def Let_def split_def by (intro journaled_intros)

lemma related_resume_steps [journaled_intros]: "related R (resume_steps B agent run n steps)"
proof (induction steps arbitrary: n)
  case (Cons step steps)
  then show ?case
    by (cases step) (auto split: option.split intro!: journaled_intros)
qed (simp add: journaled_intros)

lemma related_resume [journaled_intros]:
  "related R (resume_plan B agent rid)" "related R (resume B agent req)"
  unfolding resume_plan_def resume_def by (intro journaled_intros)+

lemma related_execute_plan [journaled_intros]: "related R (execute_plan B agent requests)"
  by (induction requests) (auto split: submission.split intro!: journaled_intros)

lemma related_backend_reconcile [journaled_intros]: "related R (backend_reconcile B dispatch)"
  unfolding related_def backend_reconcile_def
  by (auto split: prod.splits intro: reconciling [where rq = dispatch])

lemma related_fail [journaled_intros]: "related R (fail_reconciliation B req e)"
  unfolding fail_reconciliation_def by (intro journaled_intros)

lemma related_settle [journaled_intros]:
  "related R (settle_reconciliation B req planned claimed dispatch)"
proof -
  have verified: "related R (\<lambda>w. case verify_receipt_evidence B a dispatch receipt w of
           (Inl e, w') \<Rightarrow> fail_reconciliation B req e w'
         | (Inr verified, w') \<Rightarrow> f verified w')"
    if "\<And>v. related R (f v)" for a receipt f
    unfolding related_def
  proof (intro allI impI)
    fix w r w'
    assume eq: "(case verify_receipt_evidence B a dispatch receipt w of
           (Inl e, w') \<Rightarrow> fail_reconciliation B req e w'
         | (Inr verified, w') \<Rightarrow> f verified w') = (r, w')"
    obtain v w1 where v: "verify_receipt_evidence B a dispatch receipt w = (v, w1)" by fastforce
    have "R w w1" using observesD [OF verify_receipt_observes v] by (intro quiet) simp_all
    moreover have "R w1 w'"
      using eq v relatedD [OF related_fail] relatedD [OF that] by (cases v) auto
    ultimately show "R w w'" by (rule chain)
  qed
  show ?thesis
    unfolding settle_reconciliation_def Let_def
    by (intro journaled_intros) (auto split: sum.split intro!: journaled_intros verified)
qed

lemma related_reconcile [journaled_intros]: "related R (reconcile B agent att req)"
  unfolding reconcile_def Let_def
  by (intro journaled_intros) (auto split: reconciliation_claim.split sum.split intro!: journaled_intros)

lemma respects_step:
  assumes "system_step B w w'"
  shows "R w w'"
  using assms
proof cases
  case (restarts clk)
  then show ?thesis by (intro journal) (simp_all add: reopened)
qed (rule relatedD, rule journaled_intros, assumption)+

lemma respects_run: "(system_step B)\<^sup>*\<^sup>* w w' \<Longrightarrow> R w w'"
  by (induction rule: rtranclp_induct) (auto intro: quiet chain respects_step)

end

section \<open>Execution\<close>

lemma require_agent_ok [simp]: "require_agent p = Inr u \<longleftrightarrow> pr_role p = Agent"
  by (simp add: require_agent_def)

lemma require_authority_ok [simp]:
  "require_authority p = Inr u \<longleftrightarrow> pr_role p = Operator \<or> pr_role p = Admin"
  by (simp add: require_authority_def)

lemma backend_execute_result:
  "backend_execute B d w = (r, w') \<longleftrightarrow>
     r = Inr (fst (bn_execute B d (w_device w))) \<and> w' = w\<lparr>w_device := snd (bn_execute B d (w_device w))\<rparr>"
  by (auto simp: backend_execute_def split: prod.splits)

lemma sv_recover_total: "\<exists>x w'. sv_recover m h w = (Inr x, w')"
  by (cases "m w"; cases "fst (m w)") (auto simp: sv_recover_def)

lemma run_backend_total:
  obtains receipt w' where "run_backend B claimed dispatch w = (Inr receipt, w')"
    "w_store w' = w_store w" "w_device w' = snd (bn_execute B dispatch (w_device w))" "w_calls w \<le> w_calls w'"
proof -
  let ?r = "case fst (bn_execute B dispatch (w_device w)) of Inr r \<Rightarrow> r
      | Inl e \<Rightarrow> ReceiptUnknown (bn_backend_error_text B e) None"
  let ?w = "w\<lparr>w_device := snd (bn_execute B dispatch (w_device w))\<rparr>"
  obtain x w1 where x: "sv_recover (verify_receipt_evidence B (cd_attempt claimed) dispatch ?r)
      (\<lambda>e. ReceiptUnknown (bn_error_text B e) None) ?w = (Inr x, w1)"
    using sv_recover_total [of "verify_receipt_evidence B (cd_attempt claimed) dispatch ?r"
        "\<lambda>e. ReceiptUnknown (bn_error_text B e) None" ?w] by (elim exE)
  have "w_store w1 = w_store ?w \<and> w_device w1 = w_device ?w"
    by (rule observesD [OF sv_recover_observes [OF verify_receipt_observes] x])
  moreover have "w_calls ?w \<le> w_calls w1"
    by (rule observes_later [OF sv_recover_observes [OF verify_receipt_observes] x])
  moreover have "run_backend B claimed dispatch w = (Inr (check_postconditions B
      (rp_operations (cd_plan claimed) ! at_operation_index (cd_attempt claimed)) x), w1)"
    using x by (auto simp: run_backend_def sbind_def backend_execute_def Let_def sreturn_def
        split: prod.splits)
  ultimately show ?thesis by (intro that [of _ w1]) simp_all
qed

text \<open>What one call of \<open>execute\<close> does once the dispatch has been claimed: it prepares,
  runs the backend or not, and records a receipt for the claimed attempt.\<close>

lemma execute_cases:
  assumes "execute B agent ticket w = (r, w')"
  obtains
    (role) e where "r = Inl e" "w' = w"
  | (unclaimed) e where "r = Inl (SvStore e)" "w_store w' = w_store w" "w_device w' = w_device w"
      "claim_dispatch (bn_env B) (bn_time B (w_calls w)) (ticket_attempt ticket) (pr_id agent)
         (w_store w) = Inl e"
  | (rejected) claimed s1 w1 e w2 where "pr_role agent = Agent"
      "claim_dispatch (bn_env B) (bn_time B (w_calls w)) (ticket_attempt ticket) (pr_id agent)
         (w_store w) = Inr (claimed, s1)"
      "w1 = w\<lparr>w_store := s1, w_calls := Suc (w_calls w)\<rparr>"
      "prepare_dispatch B claimed w1 = (Inl e, w2)"
      "transaction B (\<lambda>clk. record_receipt (bn_env B) clk (at_id (cd_attempt claimed))
         (ReceiptRejected (bn_error_text B e)) True) w2 = (r, w')"
  | (executed) claimed s1 w1 dispatch w2 receipt w3 release where "pr_role agent = Agent"
      "claim_dispatch (bn_env B) (bn_time B (w_calls w)) (ticket_attempt ticket) (pr_id agent)
         (w_store w) = Inr (claimed, s1)"
      "w1 = w\<lparr>w_store := s1, w_calls := Suc (w_calls w)\<rparr>"
      "prepare_dispatch B claimed w1 = (Inr dispatch, w2)"
      "run_backend B claimed dispatch w2 = (Inr receipt, w3)"
      "release = (is_rejected receipt \<or> (is_completed receipt
         \<and> at_operation_index (cd_attempt claimed) + 1 = length (rp_operations (cd_plan claimed))))"
      "transaction B (\<lambda>clk. record_receipt (bn_env B) clk (at_id (cd_attempt claimed))
         receipt release) w3 = (r, w')"
proof (cases "pr_role agent = Agent")
  case False
  with assms show ?thesis
    by (intro role) (auto simp: execute_def require_agent_def sbind_result)
next
  case agent: True
  show ?thesis
  proof (cases "claim_dispatch (bn_env B) (bn_time B (w_calls w)) (ticket_attempt ticket) (pr_id agent)
         (w_store w)")
    case (Inl e)
    with assms agent show ?thesis
      by (intro unclaimed [of e]) (auto simp: execute_def require_agent_def sbind_def lift_result_def transaction_def)
  next
    case (Inr cs)
    obtain claimed s1 where cs: "cs = (claimed, s1)" by (cases cs)
    let ?w1 = "w\<lparr>w_store := s1, w_calls := Suc (w_calls w)\<rparr>"
    have ex: "execute B agent ticket w = (case prepare_dispatch B claimed ?w1 of
          (Inl e, w') \<Rightarrow>
            transaction B (\<lambda>clk. record_receipt (bn_env B) clk (at_id (cd_attempt claimed))
              (ReceiptRejected (bn_error_text B e)) True) w'
        | (Inr dispatch, w') \<Rightarrow>
            sbind (run_backend B claimed dispatch) (\<lambda>receipt.
              let release_lease = (is_rejected receipt \<or> (is_completed receipt
                    \<and> at_operation_index (cd_attempt claimed) + 1 = length (rp_operations (cd_plan claimed))))
              in transaction B (\<lambda>clk. record_receipt (bn_env B) clk (at_id (cd_attempt claimed))
                   receipt release_lease)) w')"
      using agent Inr cs by (simp add: execute_def require_agent_def sbind_def lift_result_def transaction_def)
    obtain v w2 where p: "prepare_dispatch B claimed ?w1 = (v, w2)" by fastforce
    show ?thesis
    proof (cases v)
      case (Inl e)
      with assms ex p agent Inr cs \<open>claim_dispatch _ _ _ _ _ = Inr cs\<close> show ?thesis
        by (intro rejected [of claimed s1 ?w1 e w2]) auto
    next
      case (Inr dispatch)
      obtain receipt w3 where rb: "run_backend B claimed dispatch w2 = (Inr receipt, w3)"
        by (rule run_backend_total)
      with assms ex p agent Inr cs \<open>claim_dispatch _ _ _ _ _ = Inr cs\<close> show ?thesis
        by (intro executed [of claimed s1 ?w1 dispatch w2 receipt w3]) (auto simp: sbind_def Let_def)
    qed
  qed
qed

lemma journal_receipt:
  assumes "release \<Longrightarrow> resolved (receipt_state receipt)"
    and "transaction B (\<lambda>clk. record_receipt (bn_env B) clk att receipt release) w = (r, w')"
  shows "(journal_step (bn_env B))\<^sup>*\<^sup>* (w_store w) (w_store w') \<and> w_device w' = w_device w"
proof (cases r)
  case (Inl e)
  with assms(2) show ?thesis by (auto simp: transaction_Inl)
next
  case (Inr a)
  with assms(2) obtain s where
    "record_receipt (bn_env B) (bn_time B (w_calls w)) att receipt release (w_store w) = Inr (a, s)"
    "w' = w\<lparr>w_store := s, w_calls := Suc (w_calls w)\<rparr>" by (auto simp: transaction_Inr)
  moreover from this(1) have "journal_step (bn_env B) (w_store w) s"
    by (rule receipt_recorded [rotated]) (use assms(1) in blast)
  ultimately show ?thesis by auto
qed

lemma release_only_resolved:
  "is_rejected receipt \<or> (is_completed receipt \<and> P) \<Longrightarrow> resolved (receipt_state receipt)"
  by (cases receipt) (simp_all add: is_rejected_def is_completed_def)

text \<open>The shape of an execution on the journal and on the device.\<close>

lemma execute_effect:
  assumes "execute B agent ticket w = (r, w')"
  shows "(w_store w' = w_store w \<and> w_device w' = w_device w)
    \<or> (\<exists>claimed s1. claim_dispatch (bn_env B) (bn_time B (w_calls w)) (ticket_attempt ticket)
            (pr_id agent) (w_store w) = Inr (claimed, s1)
         \<and> (journal_step (bn_env B))\<^sup>*\<^sup>* s1 (w_store w')
         \<and> (w_device w' = w_device w
            \<or> (\<exists>dispatch w1 w2. prepare_dispatch B claimed w1 = (Inr dispatch, w2)
                 \<and> w_store w1 = s1 \<and> w_device w1 = w_device w
                 \<and> w_device w' = snd (bn_execute B dispatch (w_device w)))))"
  using assms
proof (cases rule: execute_cases)
  case (rejected claimed s1 w1 e w2)
  from observesD [OF prepare_dispatch_observes rejected(4)] rejected(3)
  have "w_store w2 = s1 \<and> w_device w2 = w_device w" by simp
  with journal_receipt [OF _ rejected(5)] rejected(2) show ?thesis by auto
next
  case (executed claimed s1 w1 dispatch w2 receipt w3 release)
  from observesD [OF prepare_dispatch_observes executed(4)] executed(3)
  have w2: "w_store w2 = s1" "w_device w2 = w_device w" by simp_all
  obtain receipt' w3' where "run_backend B claimed dispatch w2 = (Inr receipt', w3')"
    "w_store w3' = w_store w2" "w_device w3' = snd (bn_execute B dispatch (w_device w2))"
    by (rule run_backend_total)
  with executed(5) w2 have w3: "w_store w3 = s1" "w_device w3 = snd (bn_execute B dispatch (w_device w))"
    by simp_all
  have "(journal_step (bn_env B))\<^sup>*\<^sup>* (w_store w3) (w_store w') \<and> w_device w' = w_device w3"
    using journal_receipt [OF _ executed(7)] release_only_resolved executed(6) by blast
  then have j: "(journal_step (bn_env B))\<^sup>*\<^sup>* s1 (w_store w')"
    "w_device w' = snd (bn_execute B dispatch (w_device w))" by (simp_all add: w3)
  have "w_store w1 = s1" "w_device w1 = w_device w" by (simp_all add: executed(3))
  then have "\<exists>dispatch w1 w2. prepare_dispatch B claimed w1 = (Inr dispatch, w2)
      \<and> w_store w1 = s1 \<and> w_device w1 = w_device w
      \<and> w_device w' = snd (bn_execute B dispatch (w_device w))"
    using executed(4) j(2) by (intro exI [of _ dispatch] exI [of _ w1] exI [of _ w2] conjI)
  then show ?thesis using executed(2) j(1) by blast
qed simp_all

interpretation driving:
  supervised B "\<lambda>w w'. (journal_step (bn_env B))\<^sup>*\<^sup>* (w_store w) (w_store w')" for B :: "'d bench"
proof
  fix agent ticket re and w w' :: "'d world"
  assume "execute B agent ticket w = (re, w')"
  from execute_effect [OF this] show "(journal_step (bn_env B))\<^sup>*\<^sup>* (w_store w) (w_store w')"
    by (auto intro: converse_rtranclp_into_rtranclp dispatched)
qed auto

lemma ex_run:
  "(system_step ex_logged)\<^sup>*\<^sup>* (ex_world empty_store (0, []) 0)
     (ex_world ex_settled (1, [ex_attempt_id]) 8)"
proof -
  let ?p = "empty_store\<lparr>st_profiles := [ex_profile_id \<mapsto> ex_profile]\<rparr>"
  let ?g = "?p\<lparr>st_grants := [ex_grant_id \<mapsto> ex_grant 5 False]\<rparr>"
  let ?q = "?g\<lparr>st_proposals := [ex_plan_id \<mapsto> ex_proposal]\<rparr>"
  let ?w = "\<lambda>s n. ex_world s (0 :: nat, [] :: attempt_id list) n"
  have base: "?g = ex_base\<lparr>st_plans := Map.empty\<rparr>"
    "?q = ex_base\<lparr>st_plans := Map.empty, st_proposals := [ex_plan_id \<mapsto> ex_proposal]\<rparr>"
    by (simp_all add: ex_base_def empty_store_def)
  have steps: "system_step ex_logged (?w empty_store 0) (?w ?p (Suc 0))"
    "system_step ex_logged (?w ?p (Suc 0)) (?w ?g (Suc (Suc 0)))"
    "system_step ex_logged (?w ?g (Suc (Suc 0))) (?w ?q (Suc (Suc (Suc 0))))"
    "system_step ex_logged (?w ?q (Suc (Suc (Suc 0)))) (?w ex_base 4)"
    "system_step ex_logged (?w ex_base 4) (?w ex_submitted 6)"
    "system_step ex_logged (?w ex_submitted 6) (ex_world ex_settled (1, [ex_attempt_id]) 8)"
    using commissions [OF ex_entities(1)] issues [OF ex_entities(2)]
      proposes [OF ex_proposal_steps(1)] reviews [OF ex_proposal_steps(2), of "(0, [])" "Suc (Suc (Suc 0))"]
      submits [OF ex_submit, of "(0, [])" 4] executes [OF ex_execute, of 0 "[]" 6]
    unfolding base by (simp_all add: eval_nat_numeral)
  show ?thesis
    by (rule converse_rtranclp_into_rtranclp, rule steps)+ (rule rtranclp.rtrancl_refl)
qed

text \<open>Refinement: whatever sequence of operations principals ask of the supervisor,
  and wherever the process is interrupted and restarted in between, the journal moves only
  by journal steps, so a run of the system from an empty journal leaves a reachable one.\<close>

theorem supervisor_refines_journal:
  assumes "(system_step B)\<^sup>*\<^sup>* w w'"
  shows "(journal_step (bn_env B))\<^sup>*\<^sup>* (w_store w) (w_store w')
    \<and> (w_store w = empty_store \<longrightarrow> reachable (bn_env B) (w_store w'))"
proof -
  have steps: "(journal_step (bn_env B))\<^sup>*\<^sup>* (w_store w) (w_store w')"
    by (rule driving.respects_run [OF assms])
  moreover have "reachable (bn_env B) t" if "(journal_step (bn_env B))\<^sup>*\<^sup>* empty_store t" for t
    using that by (induction rule: rtranclp_induct) (auto intro: created stepped)
  ultimately show ?thesis by auto
qed

lemma supervisor_refines_journal_witness: "reachable ex_env ex_settled"
  using supervisor_refines_journal [OF ex_run] by (simp add: ex_world_def ex_bench_def)

section \<open>One physical execution per attempt\<close>

definition log_sound :: "('d \<times> attempt_id list) world \<Rightarrow> bool" where
  "log_sound w \<longleftrightarrow> wf_store (w_store w) \<and> distinct (snd (w_device w))
     \<and> (\<forall>i\<in>set (snd (w_device w)). \<exists>a. load_attempt (w_store w) i = Some a \<and> at_state a \<noteq> Intent)"

lemma log_kept:
  assumes "log_sound w" "(journal_step E)\<^sup>*\<^sup>* (w_store w) (w_store w')" "snd (w_device w') = snd (w_device w)"
  shows "log_sound w'"
proof -
  have wf: "wf_store (w_store w)" using assms(1) by (simp add: log_sound_def)
  have "\<exists>a. load_attempt (w_store w') i = Some a \<and> at_state a \<noteq> Intent"
    if i: "i \<in> set (snd (w_device w))" for i
  proof -
    from i assms(1) obtain a where a: "load_attempt (w_store w) i = Some a" "at_state a \<noteq> Intent"
      unfolding log_sound_def by blast
    then have "a \<in> set (st_attempts (w_store w))" "at_id a = i"
      using load_attempt_iff wf by (simp_all add: wf_store_def)
    with later_attempt [OF wf assms(2)] obtain b where "load_attempt (w_store w') i = Some b"
      "attempt_evolves a b" by blast
    with a(2) show ?thesis
      by (cases "at_state a") (auto simp: attempt_evolves_def)
  qed
  with assms later_wf [OF assms(2) wf] show ?thesis by (simp add: log_sound_def)
qed

lemma prepare_dispatch_ok:
  assumes "prepare_dispatch B claimed w1 = (Inr dispatch, w2)"
  obtains planned expiry where
    "at_operation_index (cd_attempt claimed) < length (rp_operations (cd_plan claimed))"
    "planned = rp_operations (cd_plan claimed) ! at_operation_index (cd_attempt claimed)"
    "authorize (bn_env B) (cd_grant claimed) (cd_profile claimed) (cd_plan claimed) planned = Inr ()"
    "dispatch = (dispatch_request_for (cd_attempt claimed) (cd_profile claimed) planned
       (at_evidence_challenge (cd_attempt claimed)) Execution True)
         \<lparr>dr_interlocks_valid_until := expiry\<rparr>"
    "\<exists>w3. check_live_interlocks B (cd_attempt claimed) (cd_profile claimed) (cd_plan claimed) w3
         = (Inr expiry, w2)
       \<and> w_store w3 = w_store w1 \<and> w_device w3 = w_device w1 \<and> w_calls w1 \<le> w_calls w3"
proof -
  from assms obtain u w3 d w4 expiry where
    pre: "(if at_operation_index (cd_attempt claimed) = 0
            then preflight_plan B (cd_grant claimed) (cd_profile claimed) (cd_plan claimed)
            else sreturn ()) w1 = (Inr u, w3)"
    and d: "dispatch_from_snapshot (bn_env B) (cd_attempt claimed) (cd_grant claimed)
              (cd_profile claimed) (cd_plan claimed) Execution = Inr d"
    and li: "check_live_interlocks B (cd_attempt claimed) (cd_profile claimed) (cd_plan claimed) w3
       = (Inr expiry, w2)"
    and res: "dispatch = d\<lparr>dr_interlocks_valid_until := expiry\<rparr>"
    unfolding prepare_dispatch_def sbind_Inr by auto
  have "observes (if at_operation_index (cd_attempt claimed) = 0
            then preflight_plan B (cd_grant claimed) (cd_profile claimed) (cd_plan claimed)
            else sreturn ())" by (intro observes_intros)
  with observesD [OF this pre] observes_later [OF this pre]
  have w3: "w_store w3 = w_store w1 \<and> w_device w3 = w_device w1 \<and> w_calls w1 \<le> w_calls w3" by blast
  from d obtain planned where p: "operation_at (cd_plan claimed) (at_operation_index (cd_attempt claimed)) = Inr planned"
    "authorize (bn_env B) (cd_grant claimed) (cd_profile claimed) (cd_plan claimed) planned = Inr ()"
    "d = dispatch_request_for (cd_attempt claimed) (cd_profile claimed) planned
       (at_evidence_challenge (cd_attempt claimed)) Execution True"
    by (auto simp: dispatch_from_snapshot_def)
  show ?thesis
    by (rule that [of planned expiry])
      (use p li w3 res in \<open>auto simp: operation_at_def split: if_splits\<close>)
qed

lemma execute_logged:
  assumes "log_sound w" "execute (logging B) agent ticket w = (r, w')"
  shows "log_sound w'"
proof -
  have wf: "wf_store (w_store w)" using assms(1) by (simp add: log_sound_def)
  from execute_effect [OF assms(2)] consider
      "w_store w' = w_store w" "w_device w' = w_device w"
    | claimed s1 where "claim_dispatch (bn_env B) (bn_time B (w_calls w)) (ticket_attempt ticket)
            (pr_id agent) (w_store w) = Inr (claimed, s1)"
         "(journal_step (bn_env B))\<^sup>*\<^sup>* s1 (w_store w')" "w_device w' = w_device w"
    | claimed s1 dispatch w1 w2 where "claim_dispatch (bn_env B) (bn_time B (w_calls w))
            (ticket_attempt ticket) (pr_id agent) (w_store w) = Inr (claimed, s1)"
         "(journal_step (bn_env B))\<^sup>*\<^sup>* s1 (w_store w')"
         "prepare_dispatch (logging B) claimed w1 = (Inr dispatch, w2)"
         "w_device w' = snd (bn_execute (logging B) dispatch (w_device w))"
    by auto
  then show ?thesis
  proof cases
    case 1
    then show ?thesis using log_kept [OF assms(1), of "bn_env B" w'] by simp
  next
    case 2
    then have "(journal_step (bn_env B))\<^sup>*\<^sup>* (w_store w) (w_store w')"
      by (meson converse_rtranclp_into_rtranclp dispatched)
    from log_kept [OF assms(1) this] 2 show ?thesis by simp
  next
    case 3
    from 3(1) obtain a where a: "load_attempt (w_store w) (ticket_attempt ticket) = Some a"
      "at_state a = Intent" "same_identity a (cd_attempt claimed)"
      "at_state (cd_attempt claimed) = Dispatched" "s1 = update_attempt (cd_attempt claimed) (w_store w)"
      by (rule claim_dispatch_ok)
    have st: "steps_wf (st_attempts (w_store w))" using wf by (simp add: wf_store_def)
    have mem: "a \<in> set (st_attempts (w_store w))" "at_id a = ticket_attempt ticket"
      using a(1) load_attempt_iff [OF st] by simp_all
    have did: "dr_attempt dispatch = ticket_attempt ticket"
    proof -
      from 3(3) have "dr_attempt dispatch = at_id (cd_attempt claimed)"
        by (rule prepare_dispatch_ok) (simp add: dispatch_request_for_def)
      with a(3) mem(2) show ?thesis by (simp add: same_identity_def)
    qed
    have steps: "(journal_step (bn_env B))\<^sup>*\<^sup>* (w_store w) (w_store w')"
      using 3(1,2) by (meson converse_rtranclp_into_rtranclp dispatched)
    have new: "ticket_attempt ticket \<notin> set (snd (w_device w))"
      using assms(1) a(1,2) unfolding log_sound_def by force
    have s1: "wf_store s1" using claim_dispatch_preserves [OF wf 3(1)] by simp
    have "cd_attempt claimed \<in> set (st_attempts s1)"
      using set_row_attempt [OF st mem(1) a(3)] by (simp add: a(5))
    from later_attempt [OF s1 3(2) this] obtain b where
      "load_attempt (w_store w') (at_id (cd_attempt claimed)) = Some b" "attempt_evolves (cd_attempt claimed) b"
      by blast
    then have now: "\<exists>b. load_attempt (w_store w') (ticket_attempt ticket) = Some b \<and> at_state b \<noteq> Intent"
      using a(3,4) mem(2) by (auto simp: attempt_evolves_def same_identity_def)
    have "log_sound (w'\<lparr>w_device := w_device w\<rparr>)"
      by (rule log_kept [OF assms(1), of "bn_env B"]) (use steps in simp_all)
    with now new show ?thesis
      by (simp add: log_sound_def 3(4) did)
  qed
qed

interpretation logged: supervised "logging B" "\<lambda>w w'. log_sound w \<longrightarrow> log_sound w'" for B :: "'d bench"
proof
  fix w w' :: "('d \<times> attempt_id list) world"
  show "log_sound w \<longrightarrow> log_sound w'" if "w_store w' = w_store w" "w_device w' = w_device w"
    using that log_kept [of w "bn_env B" w'] by simp
  show "log_sound w \<longrightarrow> log_sound w'"
    if "journal_step (bn_env (logging B)) (w_store w) (w_store w')" "w_device w' = w_device w"
    using that log_kept [of w "bn_env B" w'] by auto
  show "log_sound w \<longrightarrow> log_sound w'" if "execute (logging B) agent ticket w = (re, w')" for agent ticket re
    using execute_logged that by blast
  show "log_sound w \<longrightarrow> log_sound w'"
    if "w_store w' = w_store w" "w_device w' = snd (bn_reconcile (logging B) rq (w_device w))" for rq
    using that log_kept [of w "bn_env B" w'] by simp
qed auto

text \<open>No attempt is executed twice: in every run of the system from an empty
  journal, with any backend, principals and interruptions, the list of attempts that the
  backend has been asked to execute has no repetition, and each of them is durably past
  the intent state.\<close>

theorem executed_at_most_once:
  assumes "(system_step (logging B))\<^sup>*\<^sup>* w w'" "w_store w = empty_store" "snd (w_device w) = []"
  shows "distinct (snd (w_device w'))
    \<and> list_all (\<lambda>i. \<exists>a. load_attempt (w_store w') i = Some a \<and> at_state a \<noteq> Intent) (snd (w_device w'))"
proof -
  have "log_sound w" using assms(2,3) by (simp add: log_sound_def empty_store_wf)
  with logged.respects_run [OF assms(1)] show ?thesis
    by (simp add: log_sound_def list_all_iff)
qed

lemma executed_at_most_once_witness:
  "\<exists>a. load_attempt ex_settled ex_attempt_id = Some a \<and> at_state a \<noteq> Intent"
  using executed_at_most_once [OF ex_run] by (simp add: ex_world_def)

end
