(* ===== verification/Supervisor_Authority.thy ===== *)
theory Supervisor_Authority
  imports Supervisor_Safety
begin

text \<open>
  Who may do what: authorization as a condition over the naturals, roles, the separation
  of the reviewer from the requester, and the worst-case budget that admission reserves.
\<close>

section \<open>Authorization\<close>

text \<open>The limits a profile puts on one operation, without machine arithmetic.\<close>

definition within_region :: "commissioned_profile \<Rightarrow> u64 \<Rightarrow> u32 \<Rightarrow> bool" where
  "within_region profile offset len \<longleftrightarrow>
     unat (flash_start (cp_region_limits profile)) \<le> unat offset
     \<and> unat offset + unat len \<le> unat (flash_end_exclusive (cp_region_limits profile))"

definition within_limits :: "commissioned_profile \<Rightarrow> planned_operation \<Rightarrow> bool" where
  "within_limits profile planned \<longleftrightarrow>
     0 < unat (po_max_milliseconds planned)
     \<and> (case po_operation planned of
          Wait _ milliseconds \<Rightarrow>
            0 < unat milliseconds \<and> unat milliseconds \<le> unat (po_max_milliseconds planned)
        | PsuSet _ _ millivolts milliamps \<Rightarrow>
            unat millivolts \<le> unat (max_millivolts (cp_electrical_limits profile))
            \<and> unat milliamps \<le> unat (max_milliamps (cp_electrical_limits profile))
        | FlashRead _ _ offset len \<Rightarrow> within_region profile offset len
        | FlashErase _ _ offset len \<Rightarrow> within_region profile offset len
        | FlashWrite _ _ offset _ len \<Rightarrow> within_region profile offset len
        | FlashVerify _ _ offset _ len \<Rightarrow> within_region profile offset len
        | _ \<Rightarrow> True)"

definition qualified_binding ::
  "commissioned_profile \<Rightarrow> reviewed_plan \<Rightarrow> operation \<Rightarrow> instrument_id \<Rightarrow> bool" where
  "qualified_binding profile plan oper i \<longleftrightarrow>
     (\<exists>binding. profile_instrument profile i = Some binding
        \<and> op_capability oper \<in> ib_qualified_capabilities binding
        \<and> effect_permissions oper \<subseteq> ib_qualified_effect_permissions binding
        \<and> map_of (rp_instrument_fingerprints plan) i = Some (ib_fingerprint binding)
        \<and> map_of (rp_instrument_configuration_digests plan) i = Some (ib_configuration_digest binding))"

definition admissible ::
  "env \<Rightarrow> grant \<Rightarrow> commissioned_profile \<Rightarrow> reviewed_plan \<Rightarrow> planned_operation \<Rightarrow> bool" where
  "admissible E g profile plan planned \<longleftrightarrow>
     \<not> gr_revoked g
     \<and> rp_reviewed_by plan \<noteq> rp_requested_by plan
     \<and> plan_digest E plan = Some (rp_review_digest plan)
     \<and> rp_fixture_revision plan = cp_fixture_revision profile
     \<and> rp_target_fingerprint plan = cp_target_fingerprint profile
     \<and> length (rp_instrument_fingerprints plan) = length (cp_instruments profile)
     \<and> (\<forall>(i, d)\<in>set (rp_instrument_fingerprints plan).
          \<exists>binding. profile_instrument profile i = Some binding \<and> ib_fingerprint binding = d)
     \<and> op_target (po_operation planned) = gr_target g
     \<and> op_target (po_operation planned) = cp_target profile
     \<and> op_capability (po_operation planned) \<in> gr_capabilities g \<inter> cp_permitted_capabilities profile
     \<and> effect_permissions (po_operation planned) \<subseteq> gr_effect_permissions g
     \<and> (\<forall>i\<in>set_option (op_instrument (po_operation planned)).
          qualified_binding profile plan (po_operation planned) i)
     \<and> within_limits profile planned"

lemma limits_check_ok_iff: "limits_check profile planned = Inr u \<longleftrightarrow> within_limits profile planned"
proof -
  have "(m :: u64) = 0 \<longleftrightarrow> unat m = 0" for m by (simp add: unat_eq_0)
  then show ?thesis
    by (cases "po_operation planned")
      (auto simp: limits_check_def within_limits_def within_region_def region_contains_iff Let_def
        word_less_nat_alt word_le_nat_alt not_less)
qed

lemma instrument_check_ok_iff:
  "instrument_check profile plan oper = Inr u \<longleftrightarrow>
     (\<forall>i\<in>set_option (op_instrument oper). qualified_binding profile plan oper i)"
  by (auto simp: instrument_check_def qualified_binding_def split: option.splits)

lemma fingerprints_check_iff:
  "\<not> list_ex (\<lambda>(i, digest). case profile_instrument profile i of
        None \<Rightarrow> True | Some binding \<Rightarrow> ib_fingerprint binding \<noteq> digest) fps
   \<longleftrightarrow> (\<forall>(i, d)\<in>set fps. \<exists>binding. profile_instrument profile i = Some binding \<and> ib_fingerprint binding = d)"
  by (induction fps) (auto split: option.splits)

lemma authorize_admissible:
  "authorize E g profile plan planned = Inr () \<longleftrightarrow> admissible E g profile plan planned"
  unfolding authorize_def admissible_def Let_def
  by (auto simp only: if_Inl_eq_Inr rbind_Inr_iff ok_or_Inr_iff limits_check_ok_iff instrument_check_ok_iff
      fingerprints_check_iff de_Morgan_disj not_not Int_iff)

text \<open>C5: An operation is authorised exactly when it is admissible: the grant is not
  revoked; the plan was reviewed by someone other than its requester and still has the
  digest that was reviewed; target, fixture and every instrument are those that were
  commissioned; capability and effects are granted, permitted and qualified; and the
  operation stays inside the commissioned electrical and flash limits and its deadline,
  read as natural numbers, so that no wrap-around can admit an operation.\<close>

theorem authorize_exact:
  "authorize E g profile plan planned = Inr () \<longleftrightarrow> admissible E g profile plan planned"
  by (rule authorize_admissible)

section \<open>Budgets\<close>

text \<open>The cost of an operation sequence, as three exact sums.\<close>

definition plan_cost :: "planned_operation list \<Rightarrow> nat \<times> nat \<times> nat" where
  "plan_cost ops =
     ((\<Sum>p\<leftarrow>ops. card (effect_permissions (po_operation p))),
      (\<Sum>p\<leftarrow>ops. unat (op_bytes (po_operation p))),
      (\<Sum>p\<leftarrow>ops. unat (po_max_milliseconds p)))"

lemma budget_checked_add_iff:
  "budget_checked_add x a = Some y \<longleftrightarrow> budget_nat y = budget_plus (budget_nat x) (budget_nat a)"
proof
  assume r: "budget_nat y = budget_plus (budget_nat x) (budget_nat a)"
  then have "checked_add (bud_effects x) (bud_effects a) = Some (bud_effects y)"
    "checked_add (bud_bytes x) (bud_bytes a) = Some (bud_bytes y)"
    "checked_add (bud_milliseconds x) (bud_milliseconds a) = Some (bud_milliseconds y)"
    using unat_u64_less [of "bud_effects y"] unat_u64_less [of "bud_bytes y"]
      unat_u64_less [of "bud_milliseconds y"]
    by (simp_all add: checked_add_Some_iff budget_nat_def budget_plus_def)
  then show "budget_checked_add x a = Some y" by (simp add: budget_checked_add_def)
qed (rule budget_checked_add_Some)

lemma budget_checked_add_None:
  "budget_checked_add x a = None \<longleftrightarrow>
     2 ^ 64 \<le> unat (bud_effects x) + unat (bud_effects a)
     \<or> 2 ^ 64 \<le> unat (bud_bytes x) + unat (bud_bytes a)
     \<or> 2 ^ 64 \<le> unat (bud_milliseconds x) + unat (bud_milliseconds a)"
  by (auto simp: budget_checked_add_def checked_add_None_iff checked_add_Some_iff split: option.splits)

lemma effects_small: "card (effect_permissions oper) \<le> 2"
  by (cases oper) (simp_all add: card_insert_if)

lemma worst_case_nat:
  "budget_nat (worst_case_budget p) =
     (card (effect_permissions (po_operation p)), unat (op_bytes (po_operation p)), unat (po_max_milliseconds p))"
proof -
  have "unat (of_nat (card (effect_permissions (po_operation p))) :: u64) = card (effect_permissions (po_operation p))"
    using effects_small [of "po_operation p"] by (simp add: unsigned_of_nat take_bit_nat_eq_self)
  then show ?thesis
    by (simp add: budget_nat_def worst_case_budget_def op_worst_case_budget_def)
qed

lemma plan_cost_simps [simp]:
  "plan_cost [] = (0, 0, 0)"
  "plan_cost (p # ops) = budget_plus (budget_nat (worst_case_budget p)) (plan_cost ops)"
  by (simp_all add: plan_cost_def worst_case_nat budget_plus_def)

lemma total_budget_exact:
  "total_budget ops acc = Some b \<longleftrightarrow> budget_nat b = budget_plus (budget_nat acc) (plan_cost ops)"
proof (induction ops arbitrary: acc)
  case Nil
  have "budget_nat b = budget_nat acc \<longleftrightarrow> b = acc"
    by (simp add: budget_nat_def budget_eq_iff word_unat_eq_iff)
  then show ?case by (auto simp: budget_plus_def)
next
  case (Cons p ops)
  show ?case
  proof (cases "budget_checked_add acc (worst_case_budget p)")
    case None
    then have "budget_nat b \<noteq> budget_plus (budget_nat acc) (plan_cost (p # ops))"
      using unat_u64_less [of "bud_effects b"] unat_u64_less [of "bud_bytes b"]
        unat_u64_less [of "bud_milliseconds b"]
      by (auto simp: budget_checked_add_None budget_nat_def budget_plus_def)
    with None show ?thesis by simp
  next
    case (Some acc')
    then have "budget_nat acc' = budget_plus (budget_nat acc) (budget_nat (worst_case_budget p))"
      by (simp add: budget_checked_add_iff)
    with Some Cons.IH [of acc'] show ?thesis by (simp add: budget_plus_def add.assoc)
  qed
qed

lemma plan_budget_Inr: "plan_budget plan = Inr b \<longleftrightarrow> budget_nat b = plan_cost (rp_operations plan)"
  by (simp add: plan_budget_def total_budget_exact) (simp add: budget_nat_def budget_ZERO_def budget_plus_def)

text \<open>The budget that admission reserves for a plan is exactly the worst case of all
  its operations: the sums of their effects, bytes and deadlines. It is refused exactly
  when one of the three sums does not fit 64 bits.\<close>

theorem plan_budget_exact:
  "plan_budget plan =
     (let (effects, bytes, milliseconds) = plan_cost (rp_operations plan) in
      if effects < 2 ^ 64 \<and> bytes < 2 ^ 64 \<and> milliseconds < 2 ^ 64
      then Inr \<lparr>bud_effects = of_nat effects, bud_bytes = of_nat bytes, bud_milliseconds = of_nat milliseconds\<rparr>
      else Inl (OutOfBounds ''plan budget overflow''))"
proof -
  obtain e b m where c: "plan_cost (rp_operations plan) = (e, b, m)" by (cases "plan_cost (rp_operations plan)")
  show ?thesis
  proof (cases "e < 2 ^ 64 \<and> b < 2 ^ 64 \<and> m < 2 ^ 64")
    case True
    have "n < 2 ^ 64 \<Longrightarrow> unat (of_nat n :: u64) = n" for n
      by (simp add: unsigned_of_nat take_bit_nat_eq_self)
    with True have "plan_budget plan = Inr \<lparr>bud_effects = of_nat e, bud_bytes = of_nat b, bud_milliseconds = of_nat m\<rparr>"
      unfolding plan_budget_Inr c by (simp add: budget_nat_def)
    with True c show ?thesis by simp
  next
    case False
    have "plan_budget plan \<noteq> Inr y" for y
      using False unat_u64_less [of "bud_effects y"] unat_u64_less [of "bud_bytes y"]
        unat_u64_less [of "bud_milliseconds y"]
      unfolding plan_budget_Inr c by (auto simp: budget_nat_def)
    then have "total_budget (rp_operations plan) budget_ZERO = None"
      unfolding plan_budget_def by (cases "total_budget (rp_operations plan) budget_ZERO") auto
    with False c show ?thesis by (auto simp: plan_budget_def)
  qed
qed

section \<open>Roles\<close>

text \<open>A principal without the role an operation requires gets a role error and
  changes nothing: commissioning, grants, revocation, takeover and abandonment need an
  operator or admin; proposing, submitting, admitting, executing, resuming and
  reconciling need an agent.\<close>

theorem wrong_role_changes_nothing:
  "(pr_role p \<notin> {Operator, Admin} \<longrightarrow>
      commission B p profile w = (Inl (SvRole (principal_str (pr_id p)) ''operator or admin''), w)
      \<and> issue_grant B p a g w = (Inl (SvRole (principal_str (pr_id p)) ''operator or admin''), w)
      \<and> revoke_grant B p gi w = (Inl (SvRole (principal_str (pr_id p)) ''operator or admin''), w)
      \<and> takeover_recovery B p tk w = (Inl (SvRole (principal_str (pr_id p)) ''operator or admin''), w)
      \<and> abandon_halted_run B p hr w = (Inl (SvRole (principal_str (pr_id p)) ''operator or admin''), w))
   \<and> (pr_role p \<noteq> Agent \<longrightarrow>
      propose_plan B p proposal w = (Inl (SvRole (principal_str (pr_id p)) ''agent''), w)
      \<and> submit B p request w = (Inl (SvRole (principal_str (pr_id p)) ''agent''), w)
      \<and> admit_plan B p admission w = (Inl (SvRole (principal_str (pr_id p)) ''agent''), w)
      \<and> execute B p ticket w = (Inl (SvRole (principal_str (pr_id p)) ''agent''), w)
      \<and> execute_next B p pt w = (Inl (SvRole (principal_str (pr_id p)) ''agent''), w)
      \<and> resume_plan B p run w = (Inl (SvRole (principal_str (pr_id p)) ''agent''), w)
      \<and> resume B p run w = (Inl (SvRole (principal_str (pr_id p)) ''agent''), w)
      \<and> reconcile B p att req w = (Inl (SvRole (principal_str (pr_id p)) ''agent''), w))"
  by (simp_all add: commission_def issue_grant_def revoke_grant_def takeover_recovery_def
      abandon_halted_run_def propose_plan_def submit_def admit_plan_def execute_def execute_next_def
      resume_plan_def resume_def reconcile_def require_authority_def require_agent_def
      sbind_def lift_result_def)

lemma wrong_role_changes_nothing_witness:
  "commission ex_logged ex_reviewer ex_profile (ex_world ex_base (0, []) 0)
     = (Inl (SvRole ''rev'' ''operator or admin''), ex_world ex_base (0, []) 0)
   \<and> execute ex_logged ex_reviewer (DispatchTicket ex_attempt_id) (ex_world ex_submitted (0, []) 0)
     = (Inl (SvRole ''rev'' ''agent''), ex_world ex_submitted (0, []) 0)"
  using wrong_role_changes_nothing [of ex_reviewer ex_logged ex_profile "ex_world ex_base (0, []) 0"]
    wrong_role_changes_nothing [of ex_reviewer ex_logged _ "ex_world ex_submitted (0, []) 0"]
  by (simp add: ex_reviewer_def)

section \<open>Review\<close>

text \<open>Review is independent and binds what was reviewed: when a review succeeds, the
  reviewer holds the reviewer role and is not the requester, the pending proposal had the
  digest the reviewer saw, the resulting plan is that proposal signed by the reviewer
  under its own digest, a plan with that digest is stored, and the proposal is gone.\<close>

theorem review_independent:
  assumes "review_proposal B reviewer i d w = (Inr plan, w')" "review_digest_is_member (bn_env B)"
  shows "pr_role reviewer = Reviewer \<and> rp_reviewed_by plan = pr_id reviewer
    \<and> rp_reviewed_by plan \<noteq> rp_requested_by plan
    \<and> st_proposals (w_store w) i = Some (proposal_of_plan plan)
    \<and> proposal_digest (bn_env B) (proposal_of_plan plan) = Some d
    \<and> plan_digest (bn_env B) plan = Some (rp_review_digest plan)
    \<and> (\<exists>stored. st_plans (w_store w') (rp_id plan) = Some stored
         \<and> plan_digest (bn_env B) stored = plan_digest (bn_env B) plan)
    \<and> st_proposals (w_store w') i = None \<and> w_device w' = w_device w"
proof -
  from assms(1) obtain proposal digest where
    p: "st_proposals (w_store w) i = Some proposal" "proposal_digest (bn_env B) proposal = Some d"
    and role: "pr_role reviewer = Reviewer" "pr_id reviewer \<noteq> pp_requested_by proposal"
    and pd: "plan_digest (bn_env B) (plan_of_proposal proposal (pr_id reviewer)
               (text_digest (bn_env B) ''pending-review'')) = Some digest"
    and plan: "plan = (plan_of_proposal proposal (pr_id reviewer)
               (text_digest (bn_env B) ''pending-review''))\<lparr>rp_review_digest := digest\<rparr>"
    and tx: "\<exists>u. transaction B (\<lambda>_. consume_reviewed_proposal (bn_env B) i d plan) w = (Inr u, w')"
    unfolding review_proposal_def Let_def
    by (auto simp: sbind_Inr split: if_splits)
  from tx obtain u where "consume_reviewed_proposal (bn_env B) i d plan (w_store w) = Inr (u, w_store w')"
    and dev: "w_device w' = w_device w"
    by (auto simp: transaction_Inr)
  from this(1) have stored: "\<exists>stored. st_plans (w_store w') (rp_id plan) = Some stored
         \<and> plan_digest (bn_env B) stored = plan_digest (bn_env B) plan"
    "st_proposals (w_store w') i = None"
    by (rule consume_ok; fastforce)+
  have "plan_digest (bn_env B) plan = Some (rp_review_digest plan)"
    using pd plan_digest_review_digest [OF assms(2)] by (simp add: plan)
  moreover have "proposal_of_plan plan = proposal"
    by (simp add: plan plan_of_proposal_def proposal_of_plan_def)
  ultimately show ?thesis
    using p role stored dev by (simp add: plan plan_of_proposal_def)
qed

lemma review_independent_witness: "rp_reviewed_by ex_plan \<noteq> rp_requested_by ex_plan"
proof -
  have "review_digest_is_member (bn_env ex_logged)"
    by (simp add: review_digest_is_member_def ex_bench_def ex_env_def)
  from review_independent [OF ex_proposal_steps(2) [of "(0, [])" 0] this] show ?thesis by blast
qed

section \<open>Submission\<close>

lemma intent_record_simps:
  "at_id (intent_record B a q g p n pd bud prof prd t) = a"
  "at_grant (intent_record B a q g p n pd bud prof prd t) = g"
  "at_plan (intent_record B a q g p n pd bud prof prd t) = p"
  "at_reserved (intent_record B a q g p n pd bud prof prd t) = bud"
  "at_leased_resources (intent_record B a q g p n pd bud prof prd t) = physical_resources prof"
  by (simp_all add: intent_record_def Let_def)

lemma submit_ok:
  assumes "submit B agent request w = (Inr sub, w')"
  obtains g profile plan digest reserved profile_d outcome where
    "pr_role agent = Agent"
    "st_grants (w_store w) (sr_grant request) = Some g" "gr_agent g = pr_id agent"
    "st_profiles (w_store w) (gr_profile g) = Some profile"
    "st_plans (w_store w) (sr_plan request) = Some plan"
    "sr_operation_index request < length (rp_operations plan)"
    "authorize (bn_env B) g profile plan (rp_operations plan ! sr_operation_index request) = Inr ()"
    "(if sr_operation_index request = 0 then plan_budget plan else Inr budget_ZERO) = Inr reserved"
    "transaction B (\<lambda>clk. reserve (bn_env B) clk (intent_record B (sr_attempt request)
        (sr_request request) (sr_grant request) (sr_plan request) (sr_operation_index request) digest
        reserved profile profile_d (bn_time B (w_calls w) 0))
        \<lparr>snap_agent = pr_id agent, snap_profile = profile, snap_plan = plan\<rparr>)
        (w\<lparr>w_calls := Suc (w_calls w)\<rparr>) = (Inr outcome, w')"
    "sub = (case outcome of Existing a \<Rightarrow> SubExisting a
       | Reserved _ \<Rightarrow> SubAdmitted (DispatchTicket (sr_attempt request)))"
proof -
  have role: "pr_role agent = Agent" using assms by (auto simp: submit_def sbind_Inr)
  obtain g where g: "st_grants (w_store w) (sr_grant request) = Some g" "gr_agent g = pr_id agent"
    using assms by (auto simp: submit_def sbind_Inr split: if_splits)
  have case_outcome: "(case out of Existing a \<Rightarrow> sreturn (SubExisting a) | Reserved _ \<Rightarrow> sreturn (SubAdmitted t))
      = sreturn (case out of Existing a \<Rightarrow> SubExisting a | Reserved _ \<Rightarrow> SubAdmitted t)" for out t
    by (cases out) simp_all
  from assms role g obtain profile plan digest reserved profile_d outcome where
    "st_profiles (w_store w) (gr_profile g) = Some profile"
    "st_plans (w_store w) (sr_plan request) = Some plan"
    "sr_operation_index request < length (rp_operations plan)"
    "authorize (bn_env B) g profile plan (rp_operations plan ! sr_operation_index request) = Inr ()"
    "(if sr_operation_index request = 0 then plan_budget plan else Inr budget_ZERO) = Inr reserved"
    "transaction B (\<lambda>clk. reserve (bn_env B) clk (intent_record B (sr_attempt request)
        (sr_request request) (sr_grant request) (sr_plan request) (sr_operation_index request) digest
        reserved profile profile_d (bn_time B (w_calls w) 0))
        \<lparr>snap_agent = pr_id agent, snap_profile = profile, snap_plan = plan\<rparr>)
        (w\<lparr>w_calls := Suc (w_calls w)\<rparr>) = (Inr outcome, w')"
    "sub = (case outcome of Existing a \<Rightarrow> SubExisting a
       | Reserved _ \<Rightarrow> SubAdmitted (DispatchTicket (sr_attempt request)))"
    unfolding submit_def Let_def
    by (clarsimp simp: sbind_Inr now_result intent_record_simps case_outcome)
  then show ?thesis by (rule that [OF role g])
qed

text \<open>C16: A step that submission admits is authorised by the stored grant, profile and
  plan; it is durably recorded as an undispatched intent that leases every physical
  resource of the profile; and a first step has reserved the worst case of the whole plan
  out of the grant, exactly.\<close>

theorem submit_admits:
  assumes "wf_store (w_store w)" "submit B agent request w = (Inr (SubAdmitted ticket), w')"
  shows "\<exists>g g' profile plan a.
    st_grants (w_store w) (sr_grant request) = Some g \<and> gr_agent g = pr_id agent
    \<and> st_profiles (w_store w) (gr_profile g) = Some profile
    \<and> st_plans (w_store w) (sr_plan request) = Some plan
    \<and> sr_operation_index request < length (rp_operations plan)
    \<and> admissible (bn_env B) g profile plan (rp_operations plan ! sr_operation_index request)
    \<and> ticket = DispatchTicket (sr_attempt request)
    \<and> st_attempts (w_store w') = st_attempts (w_store w) @ [a]
    \<and> at_id a = sr_attempt request \<and> at_state a = Intent \<and> at_receipt a = None
    \<and> (\<forall>r\<in>set (physical_resources profile).
         lease_owner (w_store w') (resource_key r) = Some (sr_grant request, sr_plan request))
    \<and> st_grants (w_store w') (sr_grant request) = Some g'
    \<and> budget_nat (gr_remaining g) = budget_plus (budget_nat (gr_remaining g'))
        (if sr_operation_index request = 0 then plan_cost (rp_operations plan) else (0, 0, 0))"
proof -
  from assms(2) obtain g profile plan digest reserved profile_d outcome where
    e: "st_grants (w_store w) (sr_grant request) = Some g" "gr_agent g = pr_id agent"
    "st_profiles (w_store w) (gr_profile g) = Some profile"
    "st_plans (w_store w) (sr_plan request) = Some plan"
    "sr_operation_index request < length (rp_operations plan)"
    "authorize (bn_env B) g profile plan (rp_operations plan ! sr_operation_index request) = Inr ()"
    and reserved: "(if sr_operation_index request = 0 then plan_budget plan else Inr budget_ZERO) = Inr reserved"
    and tx: "transaction B (\<lambda>clk. reserve (bn_env B) clk (intent_record B (sr_attempt request)
        (sr_request request) (sr_grant request) (sr_plan request) (sr_operation_index request) digest
        reserved profile profile_d (bn_time B (w_calls w) 0))
        \<lparr>snap_agent = pr_id agent, snap_profile = profile, snap_plan = plan\<rparr>)
        (w\<lparr>w_calls := Suc (w_calls w)\<rparr>) = (Inr outcome, w')"
    and sub: "SubAdmitted ticket = (case outcome of Existing a \<Rightarrow> SubExisting a
       | Reserved _ \<Rightarrow> SubAdmitted (DispatchTicket (sr_attempt request)))"
    by (rule submit_ok)
  from sub obtain u where t: "outcome = Reserved u" "ticket = DispatchTicket (sr_attempt request)"
    by (cases outcome) simp_all
  let ?a = "intent_record B (sr_attempt request) (sr_request request) (sr_grant request)
      (sr_plan request) (sr_operation_index request) digest reserved profile profile_d"
  from tx t(1) obtain now snap clk where
    r: "reserve (bn_env B) clk (?a now) snap (w_store w) = Inr (Reserved u, w_store w')"
    by (auto simp: transaction_Inr)
  define a where "a = ?a now"
  have a: "at_id a = sr_attempt request" "at_grant a = sr_grant request" "at_plan a = sr_plan request"
    "at_reserved a = reserved" "at_leased_resources a = physical_resources profile"
    "at_state a = Intent" "at_receipt a = None"
    by (simp_all add: a_def intent_record_simps intent_record_fresh)
  note eff = reserve_effect [OF assms(1) r, folded a_def, unfolded a(2) resource_keys_def a(5)]
  have cost: "budget_nat reserved =
      (if sr_operation_index request = 0 then plan_cost (rp_operations plan) else (0, 0, 0))"
    using reserved by (auto simp: plan_budget_Inr budget_nat_def budget_ZERO_def split: if_splits)
  have "\<forall>r\<in>set (physical_resources profile).
      lease_owner (w_store w') (resource_key r) = Some (sr_grant request, sr_plan request)"
    using eff a(2,3) by auto
  moreover obtain g' where "st_grants (w_store w') (sr_grant request) = Some g'"
    "budget_nat (gr_remaining g) = budget_plus (budget_nat (gr_remaining g')) (budget_nat reserved)"
    using eff e(1) a(4) by auto
  moreover have "st_attempts (w_store w') = st_attempts (w_store w) @ [a]" using eff by blast
  moreover have "admissible (bn_env B) g profile plan (rp_operations plan ! sr_operation_index request)"
    using e(6) by (simp add: authorize_admissible)
  ultimately show ?thesis
    using e(1-5) t(2) a unfolding cost by blast
qed

lemma submit_admits_witness:
  "\<exists>g'. st_grants ex_submitted ex_grant_id = Some g'
     \<and> budget_nat (gr_remaining (ex_grant 5 False)) = budget_plus (budget_nat (gr_remaining g')) (2, 4, 1)"
proof -
  have "wf_store (w_store (ex_world ex_base (0 :: nat, [] :: attempt_id list) 0))"
    using ex_wf by (simp add: ex_world_def)
  from submit_admits [OF this ex_submit] obtain g g' plan where
    "st_grants ex_base ex_grant_id = Some g" "st_plans ex_base ex_plan_id = Some plan"
    "st_grants ex_submitted ex_grant_id = Some g'"
    "budget_nat (gr_remaining g) = budget_plus (budget_nat (gr_remaining g')) (plan_cost (rp_operations plan))"
    by (auto simp: ex_world_def ex_submit_request_def)
  moreover have "st_grants ex_base ex_grant_id = Some (ex_grant 5 False)"
    "st_plans ex_base ex_plan_id = Some ex_plan"
    by (simp_all add: ex_base_def empty_store_def)
  moreover have "plan_cost (rp_operations ex_plan) = (2, 4, 1)"
    by (simp add: ex_plan_def plan_cost_def ex_operation_def)
  ultimately show ?thesis by auto
qed

end
