(* ===== verification/Supervisor_Outcomes.thy ===== *)
theory Supervisor_Outcomes
  imports Supervisor_Authority
begin

text \<open>
  What the outcome of an execution, a reconciliation or a resumption means: every claimed
  dispatch is settled, the device is touched only by an admissible operation whose
  interlocks held, and a completed outcome carries evidence that binds the attempt.
\<close>

section \<open>Evidence\<close>

text \<open>The evidence an observation names is an artifact of this attempt whose envelope is
  exactly the attempt, the challenge, the phase and the observation itself.\<close>

definition evidence_bound ::
  "'d bench \<Rightarrow> 'd \<Rightarrow> attempt_id \<Rightarrow> artifact_digest \<Rightarrow> evidence_phase \<Rightarrow> observation \<Rightarrow> bool" where
  "evidence_bound B device attempt challenge phase obs \<longleftrightarrow>
     (\<exists>d bytes. obs_evidence obs = Some d \<and> bn_verify_source B d attempt device = Inr bytes
        \<and> env_parse_envelope (bn_env B) bytes = Inr
            \<lparr>ee_attempt = attempt, ee_challenge = challenge, ee_phase = phase,
             ee_observation = obs\<lparr>obs_evidence := None\<rparr>\<rparr>)"

lemma bound_envelope_ok:
  assumes "bound_envelope B attempt challenge phase obs m1 m2 w = (Inr u, w')"
  shows "w' = w \<and> evidence_bound B (w_device w) attempt challenge phase obs"
proof -
  from assms obtain d bytes e where "w' = w" "obs_evidence obs = Some d"
    "bn_verify_source B d attempt (w_device w) = Inr bytes"
    "env_parse_envelope (bn_env B) bytes = Inr e"
    "ee_attempt e = attempt \<and> ee_challenge e = challenge \<and> ee_phase e = phase
       \<and> ee_observation e = obs\<lparr>obs_evidence := None\<rparr>"
    unfolding bound_envelope_def by (auto simp: sbind_Inr split: if_splits)
  then show ?thesis by (cases e) (auto simp: evidence_bound_def)
qed

lemma verify_receipt_ok:
  assumes "verify_receipt_evidence B a d receipt w = (Inr r, w')"
  shows "r = receipt \<and> w' = w"
    "receipt = ReceiptCompleted obs \<Longrightarrow>
       evidence_bound B (w_device w) (at_id a) (dr_evidence_challenge d) (dr_evidence_phase d) obs"
  using assms unfolding verify_receipt_evidence_def Let_def
  by (auto simp: sbind_Inr dest!: bound_envelope_ok split: operation_receipt.splits option.splits)

lemma check_postconditions_completed:
  "check_postconditions B planned receipt = ReceiptCompleted obs \<longleftrightarrow>
     receipt = ReceiptCompleted obs \<and> (\<forall>c\<in>set (po_postconditions planned). check_holds obs c)"
  by (auto simp: check_postconditions_def evaluate_checks_ok_iff [symmetric]
      split: operation_receipt.splits sum.splits)

section \<open>Execution settles what it claims\<close>

lemma load_attempt_key:
  "load_attempt s i = Some a \<Longrightarrow> at_id a = i \<and> i \<in> at_id ` set (st_attempts s)"
  unfolding load_attempt_def using row_at_SomeD [of at_id i "st_attempts s" a] by (auto intro: rev_image_eqI)

lemma record_receipt_total:
  assumes "load_attempt s i = Some a" "at_state a = Dispatched"
  obtains s' where
    "record_receipt E clk i receipt release s = Inr (a\<lparr>at_state := receipt_state receipt,
       at_receipt := Some receipt, at_updated_at := env_timestamp_text E (clk 0)\<rparr>, s')"
    "load_attempt s' i = Some (a\<lparr>at_state := receipt_state receipt,
       at_receipt := Some receipt, at_updated_at := env_timestamp_text E (clk 0)\<rparr>)"
proof -
  have "i = at_id a" "i \<in> at_id ` set (st_attempts s)" using load_attempt_key [OF assms(1)] by simp_all
  then have "load_attempt (update_attempt (a\<lparr>at_state := receipt_state receipt,
       at_receipt := Some receipt, at_updated_at := env_timestamp_text E (clk 0)\<rparr>) s) i
     = Some (a\<lparr>at_state := receipt_state receipt,
       at_receipt := Some receipt, at_updated_at := env_timestamp_text E (clk 0)\<rparr>)"
    by (simp add: load_attempt_def update_attempt_def row_simps)
  moreover have "load_attempt (release_leases b t) i = load_attempt t i" for b t
    by (simp add: load_attempt_def release_leases_def)
  ultimately show ?thesis
    using assms that by (simp add: record_receipt_def Let_def split: if_splits)
qed

lemma settled_transaction:
  assumes "load_attempt (w_store w) i = Some a" "at_state a = Dispatched"
    and "transaction B (\<lambda>clk. record_receipt (bn_env B) clk i receipt release) w = (r, w')"
  shows "\<exists>b. r = Inr b \<and> load_attempt (w_store w') i = Some b \<and> at_state b = receipt_state receipt
    \<and> at_receipt b = Some receipt \<and> at_evidence_challenge b = at_evidence_challenge a
    \<and> same_identity a b \<and> w_device w' = w_device w"
  by (rule record_receipt_total [OF assms(1,2), of "bn_env B" "bn_time B (w_calls w)" receipt release])
    (use assms(3) in \<open>auto simp: transaction_def same_identity_def\<close>)

text \<open>One execution: refused with nothing changed, rejected before the device, or executed
  by exactly one backend call; in the last two the claimed attempt is settled.\<close>

lemma execute_outcome:
  assumes "execute B agent ticket w = (r, w')"
  obtains
    (refused) e where "r = Inl e" "w_store w' = w_store w" "w_device w' = w_device w"
  | (rejected) claimed s1 b e where
      "claim_dispatch (bn_env B) (bn_time B (w_calls w)) (ticket_attempt ticket) (pr_id agent)
         (w_store w) = Inr (claimed, s1)"
      "r = Inr b" "load_attempt (w_store w') (ticket_attempt ticket) = Some b"
      "at_state b = Rejected" "at_receipt b = Some (ReceiptRejected (bn_error_text B e))"
      "w_device w' = w_device w"
  | (executed) claimed s1 w1 w2 w3 dispatch receipt b where
      "claim_dispatch (bn_env B) (bn_time B (w_calls w)) (ticket_attempt ticket) (pr_id agent)
         (w_store w) = Inr (claimed, s1)"
      "w_store w1 = s1" "w_device w1 = w_device w"
      "prepare_dispatch B claimed w1 = (Inr dispatch, w2)"
      "w_device w2 = w_device w" "run_backend B claimed dispatch w2 = (Inr receipt, w3)"
      "r = Inr b" "load_attempt (w_store w') (ticket_attempt ticket) = Some b"
      "at_state b = receipt_state receipt" "at_receipt b = Some receipt"
      "at_evidence_challenge b = at_evidence_challenge (cd_attempt claimed)"
      "same_identity (cd_attempt claimed) b"
      "w_device w' = snd (bn_execute B dispatch (w_device w))"
      "w_calls w \<le> w_calls w1" "w_calls w2 \<le> w_calls w'"
proof -
  have claimed: "at_id (cd_attempt claimed) = ticket_attempt ticket"
    "load_attempt s1 (ticket_attempt ticket) = Some (cd_attempt claimed)"
    "at_state (cd_attempt claimed) = Dispatched"
    if "claim_dispatch (bn_env B) (bn_time B (w_calls w)) (ticket_attempt ticket) (pr_id agent)
         (w_store w) = Inr (claimed, s1)" for claimed s1
  proof -
    from that obtain a where a: "load_attempt (w_store w) (ticket_attempt ticket) = Some a"
      "same_identity a (cd_attempt claimed)" "at_state (cd_attempt claimed) = Dispatched"
      "s1 = update_attempt (cd_attempt claimed) (w_store w)" by (rule claim_dispatch_ok)
    have i: "at_id a = ticket_attempt ticket" "ticket_attempt ticket \<in> at_id ` set (st_attempts (w_store w))"
      using load_attempt_key [OF a(1)] by simp_all
    then show id: "at_id (cd_attempt claimed) = ticket_attempt ticket"
      using a(2) by (simp add: same_identity_def)
    show "load_attempt s1 (ticket_attempt ticket) = Some (cd_attempt claimed)"
      using i(2) id by (simp add: a(4) load_attempt_def update_attempt_def row_simps)
    show "at_state (cd_attempt claimed) = Dispatched" by (rule a(3))
  qed
  from assms show ?thesis
  proof (cases rule: execute_cases)
    case role
    then show ?thesis using refused by auto
  next
    case unclaimed
    then show ?thesis using refused by auto
  next
    case (rejected claimed s1 w1 e w2)
    note c = claimed [OF rejected(2)]
    from observesD [OF prepare_dispatch_observes rejected(4)] rejected(3)
    have w2: "w_store w2 = s1" "w_device w2 = w_device w" by simp_all
    from settled_transaction [OF _ c(3) rejected(5)] c(1,2) w2(1)
    obtain b where "r = Inr b" "load_attempt (w_store w') (ticket_attempt ticket) = Some b"
      "at_state b = Rejected" "at_receipt b = Some (ReceiptRejected (bn_error_text B e))"
      "w_device w' = w_device w" by (auto simp: w2(2))
    with rejected(2) show ?thesis by (rule that(2))
  next
    case (executed claimed s1 w1 dispatch w2 receipt w3 release)
    note c = claimed [OF executed(2)]
    from observesD [OF prepare_dispatch_observes executed(4)] executed(3)
    have w2: "w_store w2 = s1" "w_device w2 = w_device w" by simp_all
    obtain receipt' w3' where "run_backend B claimed dispatch w2 = (Inr receipt', w3')"
      "w_store w3' = w_store w2" "w_device w3' = snd (bn_execute B dispatch (w_device w2))" "w_calls w2 \<le> w_calls w3'"
      by (rule run_backend_total)
    with executed(5) w2 have w3: "w_store w3 = s1" "w_device w3 = snd (bn_execute B dispatch (w_device w))"
      "w_calls w2 \<le> w_calls w3" by simp_all
    from settled_transaction [OF _ c(3) executed(7)] c(1,2) w3(1)
    obtain b where b: "r = Inr b" "load_attempt (w_store w') (ticket_attempt ticket) = Some b"
      "at_state b = receipt_state receipt" "at_receipt b = Some receipt"
      "at_evidence_challenge b = at_evidence_challenge (cd_attempt claimed)"
      "same_identity (cd_attempt claimed) b"
      "w_device w' = w_device w3" by auto
    have "w_calls w' = Suc (w_calls w3)" using executed(7) b(1) by (auto simp: transaction_Inr)
    with w3(3) have "w_calls w2 \<le> w_calls w'" by simp
    moreover have "w_store w1 = s1" "w_device w1 = w_device w" "w_calls w \<le> w_calls w1" by (simp_all add: executed(3))
    ultimately show ?thesis
      using executed(2) executed(4) w2(2) executed(5) b
      by (intro that(3) [of claimed s1 w1 dispatch w2 receipt w3 b]) (simp_all add: w3(2))
  qed
qed

text \<open>C8: Execution never leaves a dispatched attempt behind: it either fails with the
  journal and the device untouched, or returns the ticket's attempt as it is stored, in a
  terminal state and with the receipt that put it there.\<close>

theorem execute_settles:
  assumes "execute B agent ticket w = (r, w')"
  shows "(\<exists>e. r = Inl e \<and> w_store w' = w_store w \<and> w_device w' = w_device w)
    \<or> (\<exists>a receipt. r = Inr a \<and> load_attempt (w_store w') (ticket_attempt ticket) = Some a
         \<and> at_receipt a = Some receipt \<and> at_state a = receipt_state receipt \<and> is_terminal (at_state a))"
  using assms
proof (cases rule: execute_outcome)
  case (executed claimed s1 w1 w2 w3 dispatch receipt b)
  then have "is_terminal (at_state b)" by (cases receipt) simp_all
  with executed show ?thesis by blast
qed simp_all

lemma execute_settles_witness:
  "load_attempt ex_settled ex_attempt_id = Some (hd (st_attempts ex_settled))"
  using execute_settles [OF ex_execute [of 0 "[]" 0]] by (auto simp: ex_world_def)

lemma run_backend_completed:
  assumes "run_backend B claimed dispatch w = (Inr (ReceiptCompleted obs), w')"
  shows "fst (bn_execute B dispatch (w_device w)) = Inr (ReceiptCompleted obs)"
    "evidence_bound B (w_device w') (at_id (cd_attempt claimed)) (dr_evidence_challenge dispatch)
       (dr_evidence_phase dispatch) obs"
    "\<forall>c\<in>set (po_postconditions (rp_operations (cd_plan claimed) ! at_operation_index (cd_attempt claimed))).
       check_holds obs c"
proof -
  let ?outcome = "fst (bn_execute B dispatch (w_device w))"
  let ?receipt = "case ?outcome of Inr r \<Rightarrow> r | Inl e \<Rightarrow> ReceiptUnknown (bn_backend_error_text B e) None"
  let ?w1 = "w\<lparr>w_device := snd (bn_execute B dispatch (w_device w))\<rparr>"
  from assms obtain verified where
    v: "sv_recover (verify_receipt_evidence B (cd_attempt claimed) dispatch ?receipt)
          (\<lambda>e. ReceiptUnknown (bn_error_text B e) None) ?w1 = (Inr verified, w')"
    and c: "check_postconditions B (rp_operations (cd_plan claimed) ! at_operation_index (cd_attempt claimed))
          verified = ReceiptCompleted obs"
    unfolding run_backend_def Let_def sbind_Inr by (auto simp: backend_execute_result)
  from c have verified: "verified = ReceiptCompleted obs"
    and post: "\<forall>c\<in>set (po_postconditions (rp_operations (cd_plan claimed) ! at_operation_index (cd_attempt claimed))).
       check_holds obs c" by (simp_all add: check_postconditions_completed)
  from v verified have ok: "verify_receipt_evidence B (cd_attempt claimed) dispatch ?receipt ?w1
      = (Inr (ReceiptCompleted obs), w')"
    by (auto simp: sv_recover_def split: prod.splits sum.splits)
  from verify_receipt_ok(1) [OF ok] have r: "?receipt = ReceiptCompleted obs" "w' = ?w1" by simp_all
  from r(1) show "?outcome = Inr (ReceiptCompleted obs)" by (cases ?outcome) simp_all
  show "evidence_bound B (w_device w') (at_id (cd_attempt claimed)) (dr_evidence_challenge dispatch)
       (dr_evidence_phase dispatch) obs"
    using verify_receipt_ok(2) [OF ok r(1)] r(2) by simp
  show "\<forall>c\<in>set (po_postconditions (rp_operations (cd_plan claimed) ! at_operation_index (cd_attempt claimed))).
       check_holds obs c" by (rule post)
qed

text \<open>C7: A completed execution is evidenced: the receipt it stores carries an observation
  whose evidence is an artifact of this very attempt, bound to the challenge issued when
  the dispatch was claimed, and every reviewed postcondition of the step holds of it.\<close>

theorem completed_is_evidenced:
  assumes "execute B agent ticket w = (Inr a, w')" "at_state a = Completed"
  shows "\<exists>obs plan planned dispatch.
    at_receipt a = Some (ReceiptCompleted obs)
    \<and> fst (bn_execute B dispatch (w_device w)) = Inr (ReceiptCompleted obs)
    \<and> dr_attempt dispatch = ticket_attempt ticket
    \<and> evidence_bound B (w_device w') (ticket_attempt ticket) (at_evidence_challenge a) Execution obs
    \<and> st_plans (w_store w) (at_plan a) = Some plan
    \<and> at_operation_index a < length (rp_operations plan)
    \<and> planned = rp_operations plan ! at_operation_index a
    \<and> dr_operation dispatch = po_operation planned
    \<and> (\<forall>c\<in>set (po_postconditions planned). check_holds obs c)"
  using assms(1)
proof (cases rule: execute_outcome)
  case refused
  then show ?thesis by simp
next
  case rejected
  then show ?thesis using assms(2) by simp
next
  case (executed claimed s1 w1 w2 w3 dispatch receipt b)
  from executed(9) assms(2) executed(7) obtain obs where r: "receipt = ReceiptCompleted obs"
    by (cases receipt) auto
  note run = run_backend_completed [OF executed(6) [unfolded r]]
  from executed(1) obtain att where c: "load_attempt (w_store w) (ticket_attempt ticket) = Some att"
    "st_plans (w_store w) (at_plan att) = Some (cd_plan claimed)" "same_identity att (cd_attempt claimed)"
    by (rule claim_dispatch_ok)
  have keys: "at_id (cd_attempt claimed) = ticket_attempt ticket" "at_plan a = at_plan att"
    "at_operation_index a = at_operation_index (cd_attempt claimed)"
    using load_attempt_key [OF c(1)] c(3) executed(7,12) by (simp_all add: same_identity_def)
  from executed(4) obtain planned expiry where p:
    "at_operation_index (cd_attempt claimed) < length (rp_operations (cd_plan claimed))"
    "planned = rp_operations (cd_plan claimed) ! at_operation_index (cd_attempt claimed)"
    "dispatch = (dispatch_request_for (cd_attempt claimed) (cd_profile claimed) planned
       (at_evidence_challenge (cd_attempt claimed)) Execution True)\<lparr>dr_interlocks_valid_until := expiry\<rparr>"
    by (rule prepare_dispatch_ok)
  have d: "dr_attempt dispatch = ticket_attempt ticket" "dr_operation dispatch = po_operation planned"
    "dr_evidence_challenge dispatch = at_evidence_challenge a" "dr_evidence_phase dispatch = Execution"
    using executed(7,11) by (simp_all add: p(3) dispatch_request_for_def keys(1))
  have dev: "w_device w3 = w_device w'"
    by (rule run_backend_total [of B claimed dispatch w2]) (use executed(5,6,13) in simp)
  show ?thesis
    using executed(7,10) r run d keys c(2) p(1,2) dev executed(5)
    by (intro exI [of _ obs] exI [of _ "cd_plan claimed"] exI [of _ planned] exI [of _ dispatch]) simp
qed

lemma completed_is_evidenced_witness:
  "at_receipt (hd (st_attempts ex_settled)) = Some (ReceiptCompleted ex_observation)
   \<and> (\<exists>obs. evidence_bound ex_logged (1, [ex_attempt_id]) ex_attempt_id ex_digest Execution obs)"
proof -
  have "at_state (hd (st_attempts ex_settled)) = Completed" by (simp add: ex_settled_def)
  from completed_is_evidenced [OF ex_execute [of 0 "[]" 0] this] show ?thesis
    by (auto simp: ex_world_def ex_settled_def ex_step_def ex_attempt_def)
qed

end
