(* ===== verification/Interlock_Safety.thy ===== *)
theory Interlock_Safety
  imports Supervisor_Outcomes
begin

text \<open>
  Live interlocks: which earlier observation an interlocked operation may rely on, and the
  theorem that a dispatch reaches the device only when every interlock it is subject to was
  witnessed by fresh, evidence-bound observation of the same run.
\<close>

section \<open>The observation an operation may rely on\<close>

text \<open>The last step before \<open>before\<close> that is the interlock's own observation, with no step
  in between that has an effect.\<close>

definition fresh_observation :: "reviewed_plan \<Rightarrow> nat \<Rightarrow> live_interlock \<Rightarrow> nat \<Rightarrow> bool" where
  "fresh_observation plan before li index \<longleftrightarrow>
     index < before \<and> index < length (rp_operations plan)
     \<and> po_operation (rp_operations plan ! index) = li_observation li
     \<and> (\<forall>j. index < j \<and> j < before \<and> j < length (rp_operations plan) \<longrightarrow>
          effect_permissions (po_operation (rp_operations plan ! j)) = {}
          \<and> po_operation (rp_operations plan ! j) \<noteq> li_observation li)"

lemma last_index_iff:
  "last_index_from wanted (rev (List.enumerate 0 xs)) = Some index \<longleftrightarrow>
     index < length xs \<and> po_operation (xs ! index) = wanted
     \<and> (\<forall>j. index < j \<and> j < length xs \<longrightarrow>
          effect_permissions (po_operation (xs ! j)) = {} \<and> po_operation (xs ! j) \<noteq> wanted)"
proof (induction xs rule: rev_induct)
  case (snoc x xs)
  have e: "rev (List.enumerate 0 (xs @ [x])) = (length xs, x) # rev (List.enumerate 0 xs)"
    by (simp add: enumerate_append_eq)
  have split: "(\<forall>j. index < j \<and> j < Suc (length xs) \<longrightarrow> P j) \<longleftrightarrow>
      (\<forall>j. index < j \<and> j < length xs \<longrightarrow> P j) \<and> (index < length xs \<longrightarrow> P (length xs))" for P
    by (auto simp: less_Suc_eq)
  have nth: "index < length xs \<Longrightarrow> (xs @ [x]) ! index = xs ! index" by (simp add: nth_append)
  have at: "j < length xs \<Longrightarrow> (xs @ [x]) ! j = xs ! j" for j by (simp add: nth_append)
  show ?case
    unfolding e length_append_singleton split
    using snoc.IH
    by (cases "index < length xs"; cases "index = length xs") (auto simp: at nth_append less_Suc_eq)
qed simp

lemma observation_step_ok:
  "observation_step plan before li = Inr index \<longleftrightarrow> fresh_observation plan before li index"
proof -
  have t: "take before (List.enumerate 0 ops) = List.enumerate 0 (take before ops)" for ops :: "planned_operation list"
    by (cases "before \<le> length ops") (simp_all add: enumerate_eq_zip take_zip min_def)
  have "last_index_from (li_observation li) (rev (take before (List.enumerate 0 (rp_operations plan)))) = Some index
      \<longleftrightarrow> fresh_observation plan before li index"
    unfolding t last_index_iff fresh_observation_def
    by (simp cong: conj_cong) (auto)
  then show ?thesis by (simp add: observation_step_def)
qed

section \<open>Witnessed interlocks\<close>

text \<open>The observation a completed attempt stands for: its receipt, or that of its latest
  completed reconciliation, with evidence that still binds it.\<close>

definition completed_evidence :: "'d bench \<Rightarrow> store \<Rightarrow> 'd \<Rightarrow> attempt_record \<Rightarrow> observation \<Rightarrow> bool" where
  "completed_evidence B s device a obs \<longleftrightarrow>
     (case List.find (\<lambda>r. rc_state r = ReconCompleted) (rev (reconciliation_history s (at_id a))) of
        Some record \<Rightarrow> rc_receipt record = Some (ReceiptCompleted obs)
          \<and> evidence_bound B device (at_id a) (rc_challenge record) Reconciliation obs
      | None \<Rightarrow> at_receipt a = Some (ReceiptCompleted obs)
          \<and> evidence_bound B device (at_id a) (at_evidence_challenge a) Execution obs)"

text \<open>An interlock is witnessed at one of the clock readings from \<open>begun\<close> on and before
  \<open>ended\<close>: its exact observation was completed earlier in the same reviewed run with no effect
  since, is not from the future of that reading, is then no older than the interlock allows, and
  satisfies all its checks. The witness is good until the capture time plus the maximum age.\<close>

definition interlock_witnessed ::
  "'d bench \<Rightarrow> store \<Rightarrow> 'd \<Rightarrow> attempt_record \<Rightarrow> reviewed_plan \<Rightarrow> live_interlock
     \<Rightarrow> nat \<Rightarrow> nat \<Rightarrow> timestamp \<Rightarrow> bool" where
  "interlock_witnessed B s device a plan li begun ended expiry \<longleftrightarrow>
     (\<exists>index witness obs captured n age.
        begun \<le> n \<and> n < ended
        \<and> fresh_observation plan (at_operation_index a) li index
        \<and> witness \<in> set (pair_attempts s (at_grant a) (at_plan a)) \<and> at_operation_index witness = index
        \<and> at_state witness = Completed
        \<and> at_profile_digest witness = at_profile_digest a \<and> at_plan_digest witness = at_plan_digest a
        \<and> completed_evidence B s device witness obs
        \<and> env_parse_timestamp (bn_env B) (captured_at obs) = Some captured
        \<and> age = env_as_millisecond (bn_env B) (bn_time B n 0) - env_as_millisecond (bn_env B) captured
        \<and> 0 \<le> age \<and> age \<le> uint (li_maximum_age_milliseconds li)
        \<and> interlock_holds li (li_observation li) obs (word_of_int age)
        \<and> env_from_millisecond (bn_env B)
            (env_as_millisecond (bn_env B) captured + uint (li_maximum_age_milliseconds li)) = Some expiry)"

lemma sbind_read: "sbind (read_store f) g w = g (f (w_store w)) w"
  by (simp add: sbind_def read_store_def)

lemma completed_observation_ok:
  assumes "completed_observation B a w = (Inr obs, w')"
  shows "w' = w \<and> completed_evidence B (w_store w) (w_device w) a obs"
proof -
  have receipt: "(case receipt of Some (ReceiptCompleted obs) \<Rightarrow>
              sbind (bound_envelope B (at_id a) challenge phase obs m1 m2) (\<lambda>_. sreturn obs)
          | _ \<Rightarrow> sfail e) w = (Inr obs, w')
      \<Longrightarrow> receipt = Some (ReceiptCompleted obs) \<and> w' = w
         \<and> evidence_bound B (w_device w) (at_id a) challenge phase obs" for receipt challenge phase m1 m2 e
    by (auto simp: sbind_Inr dest!: bound_envelope_ok split: option.splits operation_receipt.splits)
  show ?thesis
  proof (cases "List.find (\<lambda>r. rc_state r = ReconCompleted) (rev (reconciliation_history (w_store w) (at_id a)))")
    case None
    with assms have "at_receipt a = Some (ReceiptCompleted obs) \<and> w' = w
        \<and> evidence_bound B (w_device w) (at_id a) (at_evidence_challenge a) Execution obs"
      by (intro receipt) (simp add: completed_observation_def sbind_read)
    with None show ?thesis by (simp add: completed_evidence_def)
  next
    case (Some rc)
    with assms have "rc_receipt rc = Some (ReceiptCompleted obs) \<and> w' = w
        \<and> evidence_bound B (w_device w) (at_id a) (rc_challenge rc) Reconciliation obs"
      by (intro receipt) (simp add: completed_observation_def sbind_read)
    with Some show ?thesis by (simp add: completed_evidence_def)
  qed
qed

lemma i64_age: "i64_range age \<Longrightarrow> 0 \<le> age \<Longrightarrow> uint (word_of_int age :: u64) = age"
  by (simp add: i64_range_def uint_word_of_int_eq take_bit_int_eq_self)

lemma interlock_witnessed_within:
  assumes "interlock_witnessed B s device a plan li begun ended expiry" "begun' \<le> begun" "ended \<le> ended'"
  shows "interlock_witnessed B s device a plan li begun' ended' expiry"
proof -
  have "begun' \<le> n \<and> n < ended'" if "begun \<le> n \<and> n < ended" for n using that assms(2,3) by simp
  with assms(1) show ?thesis unfolding interlock_witnessed_def by blast
qed

lemma interlock_expiry_ok:
  assumes "interlock_expiry B a plan li w = (Inr expiry, w')"
  shows "interlock_witnessed B (w_store w) (w_device w) a plan li (w_calls w) (w_calls w') expiry"
proof -
  let ?ms = "env_as_millisecond (bn_env B)"
  from assms obtain index witness obs captured w1 where
    o: "observation_step plan (at_operation_index a) li = Inr index"
    and wit: "attempt_at_step (w_store w) (at_grant a) (at_plan a) index = Inr (Some witness)"
    and st: "at_state witness = Completed" "at_profile_digest witness = at_profile_digest a"
      "at_plan_digest witness = at_plan_digest a"
    and c: "completed_observation B witness w = (Inr obs, w1)"
    and t: "env_parse_timestamp (bn_env B) (captured_at obs) = Some captured"
    and age: "i64_range (?ms (bn_time B (w_calls w1) 0) - ?ms captured)"
      "0 \<le> ?ms (bn_time B (w_calls w1) 0) - ?ms captured"
    and v: "validate_interlock_observation li (po_operation (rp_operations plan ! index)) obs
       (word_of_int (?ms (bn_time B (w_calls w1) 0) - ?ms captured)) = Inr ()"
    and e: "env_from_millisecond (bn_env B) (?ms captured + uint (li_maximum_age_milliseconds li)) = Some expiry"
    and later: "w_calls w' = Suc (w_calls w1)"
    unfolding interlock_expiry_def Let_def
    by (auto simp: sbind_Inr now_result not_less split: if_splits)
  let ?age = "?ms (bn_time B (w_calls w1) 0) - ?ms captured"
  have "interlock_holds li (po_operation (rp_operations plan ! index)) obs (word_of_int ?age)"
    using v by (simp add: interlock_observation_ok_iff)
  then have holds: "interlock_holds li (li_observation li) obs (word_of_int ?age)"
    "unat (word_of_int ?age :: u64) \<le> unat (li_maximum_age_milliseconds li)"
    by (auto simp: interlock_holds_def)
  then have "?age \<le> uint (li_maximum_age_milliseconds li)"
    using i64_age [OF age] by (metis word_less_eq_iff_unsigned word_le_nat_alt)
  moreover have "witness \<in> set (pair_attempts (w_store w) (at_grant a) (at_plan a))"
    "at_operation_index witness = index"
    using wit by (auto simp: attempt_at_step_def sqlite_index_def find_Some_iff split: if_splits)
  ultimately show ?thesis
    unfolding interlock_witnessed_def
    using o st completed_observation_ok [OF c] t age(2) holds(1) e later
    by (intro exI [of _ index] exI [of _ witness] exI [of _ obs] exI [of _ captured]
        exI [of _ "w_calls w1"] exI [of _ ?age]) (simp add: observation_step_ok)
qed

lemma interlock_loop_ok:
  assumes "interlock_loop B a plan planned lis e w = (Inr e', w')"
  shows "(\<forall>li\<in>set lis. interlocked li planned \<longrightarrow>
      (\<exists>expiry m. interlock_witnessed B (w_store w) (w_device w) a plan li (w_calls w) (w_calls w') expiry
         \<and> e' = Some m \<and> m \<le> expiry))
    \<and> (\<forall>m0. e = Some m0 \<longrightarrow> (\<exists>m. e' = Some m \<and> m \<le> m0))"
  using assms
proof (induction lis arbitrary: e w)
  case (Cons li lis)
  show ?case
  proof (cases "interlocked li planned")
    case False
    with Cons.prems Cons.IH [of e w] show ?thesis by simp
  next
    case True
    with Cons.prems obtain expiry w1 where x: "interlock_expiry B a plan li w = (Inr expiry, w1)"
      and rest: "interlock_loop B a plan planned lis (earlier e expiry) w1 = (Inr e', w')"
      by (auto simp: sbind_Inr)
    have same: "w_store w1 = w_store w" "w_device w1 = w_device w"
      using observesD [OF interlock_expiry_observes x] by simp_all
    have calls: "w_calls w \<le> w_calls w1" "w_calls w1 \<le> w_calls w'"
      using observes_later [OF interlock_expiry_observes x] observes_later [OF interlock_loop_observes rest] by simp_all
    note ih = Cons.IH [OF rest, unfolded same]
    obtain m where m: "e' = Some m" "m \<le> (case e of None \<Rightarrow> expiry | Some p \<Rightarrow> min p expiry)"
      using ih unfolding earlier_def by blast
    then have "m \<le> expiry" "\<forall>m0. e = Some m0 \<longrightarrow> m \<le> m0" by (auto split: option.splits)
    with m(1) interlock_witnessed_within [OF interlock_expiry_ok [OF x] order.refl calls(2)]
    have here: "\<exists>expiry m. interlock_witnessed B (w_store w) (w_device w) a plan li (w_calls w) (w_calls w') expiry
        \<and> e' = Some m \<and> m \<le> expiry" "\<forall>m0. e = Some m0 \<longrightarrow> (\<exists>m. e' = Some m \<and> m \<le> m0)" by auto
    have "\<exists>expiry m. interlock_witnessed B (w_store w) (w_device w) a plan k (w_calls w) (w_calls w') expiry
        \<and> e' = Some m \<and> m \<le> expiry" if "k \<in> set lis" "interlocked k planned" for k
    proof -
      from ih that obtain x m where
        "interlock_witnessed B (w_store w) (w_device w) a plan k (w_calls w1) (w_calls w') x" "e' = Some m" "m \<le> x"
        by auto
      moreover from this(1) have "interlock_witnessed B (w_store w) (w_device w) a plan k (w_calls w) (w_calls w') x"
        using calls(1) order.refl by (rule interlock_witnessed_within)
      ultimately show ?thesis by blast
    qed
    with here show ?thesis by simp
  qed
qed simp

lemma check_live_interlocks_ok:
  assumes "check_live_interlocks B a profile plan w = (Inr valid_until, w')"
  shows "at_operation_index a < length (rp_operations plan)
    \<and> (\<forall>li\<in>set (cp_live_interlocks profile).
         interlocked li (rp_operations plan ! at_operation_index a) \<longrightarrow>
         (\<exists>expiry m. interlock_witnessed B (w_store w) (w_device w) a plan li (w_calls w) (w_calls w') expiry
            \<and> valid_until = Some m \<and> m \<le> expiry))
    \<and> w_store w' = w_store w \<and> w_device w' = w_device w"
proof -
  have "observes (check_live_interlocks B a profile plan)"
    unfolding check_live_interlocks_def by (intro observes_intros)
  from observesD [OF this assms] show ?thesis
    using assms interlock_loop_ok [of B a plan "rp_operations plan ! at_operation_index a"
        "cp_live_interlocks profile" None w valid_until w']
    by (auto simp: check_live_interlocks_def split: if_splits)
qed

text \<open>C6: Before an operation is dispatched, every live interlock of the profile that one of
  its effects is subject to has been witnessed: by its exact observation, completed earlier
  in the same reviewed run with no effect in between, with evidence that still binds it,
  at most the maximum age old by a reading of the clock made during this very check, and
  satisfying every check; and the validity that is handed to the backend is no later than the
  expiry of any of them.\<close>

theorem interlocks_enforced:
  assumes "check_live_interlocks B a profile plan w = (Inr valid_until, w')"
  shows "at_operation_index a < length (rp_operations plan)
    \<and> (\<forall>li\<in>set (cp_live_interlocks profile).
         interlocked li (rp_operations plan ! at_operation_index a) \<longrightarrow>
         (\<exists>expiry m. interlock_witnessed B (w_store w) (w_device w) a plan li (w_calls w) (w_calls w') expiry
            \<and> valid_until = Some m \<and> m \<le> expiry))
    \<and> w_store w' = w_store w \<and> w_device w' = w_device w"
  by (rule check_live_interlocks_ok [OF assms])

text \<open>A concrete guarded run: a digital reading, then the write that depends on it.\<close>

definition ex_guard :: live_interlock where
  "ex_guard = \<lparr>li_effects = {FlashWriteEffect}, li_observation = AdcRead ex_target ex_instrument 0,
     li_checks = [\<lparr>chk_pointer = JsonPointer [], chk_test = Boolean True\<rparr>], li_maximum_age_milliseconds = 10\<rparr>"

definition ex_reading :: observation where
  "ex_reading = \<lparr>captured_at = ''later'', source_fingerprint = ex_digest, obs_body = JBool True,
     obs_evidence = Some ex_digest\<rparr>"

definition ex_guarded_profile :: commissioned_profile where
  "ex_guarded_profile = ex_profile\<lparr>cp_live_interlocks := [ex_guard]\<rparr>"

definition ex_guarded_plan :: reviewed_plan where
  "ex_guarded_plan = ex_plan\<lparr>rp_operations :=
     [ex_operation\<lparr>po_operation := AdcRead ex_target ex_instrument 0\<rparr>, ex_operation]\<rparr>"

definition ex_guarded_bench :: "nat bench" where
  "ex_guarded_bench = ex_bench\<lparr>bn_time := (\<lambda>_ _. 105), bn_env := ex_env\<lparr>env_parse_envelope := (\<lambda>_. Inr
     \<lparr>ee_attempt = ex_attempt_id, ee_challenge = ex_digest, ee_phase = Execution,
      ee_observation = ex_reading\<lparr>obs_evidence := None\<rparr>\<rparr>)\<rparr>\<rparr>"

definition ex_read :: store where
  "ex_read = ex_admitted\<lparr>st_attempts :=
     [ex_flying\<lparr>at_state := Completed, at_receipt := Some (ReceiptCompleted ex_reading)\<rparr>]\<rparr>"

lemma ex_guarded_check:
  "check_live_interlocks ex_guarded_bench ex_next ex_guarded_profile ex_guarded_plan (ex_world ex_read 0 0)
     = (Inr (Some 110), ex_world ex_read 0 1)"
proof -
  have step: "observation_step ex_guarded_plan 1 ex_guard = Inr 0"
    by (simp add: observation_step_def ex_guarded_plan_def ex_guard_def)
  have found: "attempt_at_step ex_read ex_grant_id ex_plan_id 0
      = Inr (Some (ex_flying\<lparr>at_state := Completed, at_receipt := Some (ReceiptCompleted ex_reading)\<rparr>))"
    by (simp add: attempt_at_step_def sqlite_index_def pair_attempts_def ex_read_def ex_journals ex_attempt_def)
  have obs: "completed_observation ex_guarded_bench
      (ex_flying\<lparr>at_state := Completed, at_receipt := Some (ReceiptCompleted ex_reading)\<rparr>) (ex_world ex_read 0 0)
      = (Inr ex_reading, ex_world ex_read 0 0)"
    by (simp add: completed_observation_def sv_defs reconciliation_history_def bound_envelope_def
        ex_world_def ex_read_def ex_journals ex_attempt_def ex_guarded_bench_def ex_bench_def ex_reading_def)
  have valid: "validate_interlock_observation ex_guard (AdcRead ex_target ex_instrument 0) ex_reading 5 = Inr ()"
    by (simp add: validate_interlock_observation_def live_interlock_validate_def ex_guard_def
        evaluate_checks_def evaluate_check_def resolve_def ex_reading_def)
  have keys: "at_operation_index ex_next = 1" "at_grant ex_next = ex_grant_id" "at_plan ex_next = ex_plan_id"
    "at_profile_digest ex_next = ex_digest" "at_plan_digest ex_next = ex_digest"
    "length (rp_operations ex_guarded_plan) = 2"
    "po_operation (rp_operations ex_guarded_plan ! 0) = AdcRead ex_target ex_instrument 0"
    "rp_operations ex_guarded_plan ! 1 = ex_operation" "interlocked ex_guard ex_operation"
    "cp_live_interlocks ex_guarded_profile = [ex_guard]" "li_maximum_age_milliseconds ex_guard = 10"
    "captured_at ex_reading = ''later''"
    by (simp_all add: ex_next_def ex_attempt_def ex_guarded_plan_def interlocked_def ex_guard_def
        ex_operation_def ex_guarded_profile_def ex_reading_def)
  have bench: "bn_env ex_guarded_bench = ex_env\<lparr>env_parse_envelope := env_parse_envelope (bn_env ex_guarded_bench)\<rparr>"
    "bn_time ex_guarded_bench n k = 105" for n k
    by (simp_all add: ex_guarded_bench_def)
  show ?thesis
    using step found obs valid keys
    by (simp add: check_live_interlocks_def interlock_expiry_def sv_defs now_def bench ex_env_def
        i64_range_def earlier_def Let_def ex_world_def ex_flying_def ex_attempt_def ex_guarded_bench_def)
qed

lemma interlocks_enforced_witness:
  "\<exists>expiry. interlock_witnessed ex_guarded_bench ex_read 0 ex_next ex_guarded_plan ex_guard 0 1 expiry"
proof -
  have "ex_guard \<in> set (cp_live_interlocks ex_guarded_profile)" "interlocked ex_guard ex_operation"
    "rp_operations ex_guarded_plan ! at_operation_index ex_next = ex_operation"
    by (simp_all add: ex_guarded_profile_def interlocked_def ex_guard_def ex_operation_def
        ex_guarded_plan_def ex_next_def)
  with interlocks_enforced [OF ex_guarded_check] show ?thesis by (auto simp: ex_world_def)
qed

end
