(* ===== verification/Supervisor_Recovery.thy ===== *)
theory Supervisor_Recovery
  imports Interlock_Safety
begin

text \<open>
  Dispatch, reconciliation and resumption as a whole: what reaches the device, what a
  completed reconciliation proves, that no reconciliation is left open, and where a run
  resumes.
\<close>

section \<open>What reaches the device\<close>

text \<open>The interlocks of a dispatch that was prepared were witnessed on the claimed attempt.\<close>

lemma witnessed_interlocks:
  assumes "check_live_interlocks B c profile plan w = (Inr expiry, w')"
    and "planned = rp_operations plan ! at_operation_index c" "same_identity a c" "w_store w = update_attempt c s"
    and "begun \<le> w_calls w" "w_calls w' \<le> ended"
  shows "\<forall>li\<in>set (cp_live_interlocks profile). interlocked li planned \<longrightarrow>
    (\<exists>b e m. same_identity a b \<and> w_store w = update_attempt b s
       \<and> interlock_witnessed B (w_store w) (w_device w) b plan li begun ended e \<and> expiry = Some m \<and> m \<le> e)"
proof (intro ballI impI)
  fix li assume "li \<in> set (cp_live_interlocks profile)" "interlocked li planned"
  then obtain e m where "interlock_witnessed B (w_store w) (w_device w) c plan li (w_calls w) (w_calls w') e"
    "expiry = Some m" "m \<le> e"
    using check_live_interlocks_ok [OF assms(1)] assms(2) by auto
  with interlock_witnessed_within [OF this(1) assms(5,6)] assms(3,4) show "\<exists>b e m. same_identity a b \<and> w_store w = update_attempt b s
      \<and> interlock_witnessed B (w_store w) (w_device w) b plan li begun ended e \<and> expiry = Some m \<and> m \<le> e"
    by blast
qed

text \<open>C3: An execution that touches the device makes exactly one backend call, for the
  ticket's attempt, which was an undispatched intent; the request carries the planned
  operation and its deadline, is admissible under the stored grant, profile and reviewed
  plan for this agent, and every live interlock it is subject to was witnessed when the
  request was prepared, at a reading of the clock made by this execution, with a validity no
  later than any of their expiries.\<close>

theorem execute_authorised:
  assumes "execute B agent ticket w = (r, w')" "w_device w' \<noteq> w_device w"
  shows "\<exists>a s1 g profile plan planned dispatch.
    w_device w' = snd (bn_execute B dispatch (w_device w))
    \<and> load_attempt (w_store w) (ticket_attempt ticket) = Some a \<and> at_state a = Intent
    \<and> st_grants (w_store w) (at_grant a) = Some g \<and> gr_agent g = pr_id agent
    \<and> st_profiles (w_store w) (at_profile a) = Some profile
    \<and> st_plans (w_store w) (at_plan a) = Some plan
    \<and> at_operation_index a < length (rp_operations plan)
    \<and> planned = rp_operations plan ! at_operation_index a
    \<and> admissible (bn_env B) g profile plan planned
    \<and> dr_attempt dispatch = ticket_attempt ticket
    \<and> dr_operation dispatch = po_operation planned
    \<and> dr_deadline_milliseconds dispatch = po_max_milliseconds planned
    \<and> (\<forall>li\<in>set (cp_live_interlocks profile). interlocked li planned \<longrightarrow>
         (\<exists>b expiry m. same_identity a b \<and> s1 = update_attempt b (w_store w)
            \<and> interlock_witnessed B s1 (w_device w) b plan li (w_calls w) (w_calls w') expiry
            \<and> dr_interlocks_valid_until dispatch = Some m \<and> m \<le> expiry))"
  using assms(1)
proof (cases rule: execute_outcome)
  case refused
  with assms(2) show ?thesis by simp
next
  case rejected
  with assms(2) show ?thesis by simp
next
  case (executed claimed s1 w1 w2 w3 dispatch receipt b)
  let ?c = "cd_attempt claimed"
  from executed(1) obtain a where c: "load_attempt (w_store w) (ticket_attempt ticket) = Some a"
    "at_state a = Intent" "st_grants (w_store w) (at_grant a) = Some (cd_grant claimed)"
    "check_grant (bn_env B) (bn_time B (w_calls w) 0) (cd_grant claimed) (pr_id agent) (at_profile a) = Inr ()"
    "st_profiles (w_store w) (at_profile a) = Some (cd_profile claimed)"
    "st_plans (w_store w) (at_plan a) = Some (cd_plan claimed)"
    "same_identity a ?c" "s1 = update_attempt ?c (w_store w)"
    by (rule claim_dispatch_ok)
  from executed(4) obtain planned expiry where p:
    "at_operation_index ?c < length (rp_operations (cd_plan claimed))"
    "planned = rp_operations (cd_plan claimed) ! at_operation_index ?c"
    "authorize (bn_env B) (cd_grant claimed) (cd_profile claimed) (cd_plan claimed) planned = Inr ()"
    "dispatch = (dispatch_request_for ?c (cd_profile claimed) planned
       (at_evidence_challenge ?c) Execution True)\<lparr>dr_interlocks_valid_until := expiry\<rparr>"
    "\<exists>w3. check_live_interlocks B ?c (cd_profile claimed) (cd_plan claimed) w3 = (Inr expiry, w2)
       \<and> w_store w3 = w_store w1 \<and> w_device w3 = w_device w1 \<and> w_calls w1 \<le> w_calls w3"
    by (rule prepare_dispatch_ok)
  then obtain w4 where w4: "check_live_interlocks B ?c (cd_profile claimed) (cd_plan claimed) w4 = (Inr expiry, w2)"
    "w_store w4 = s1" "w_device w4 = w_device w" "w_calls w \<le> w_calls w4"
    using executed(2,3,14) by auto
  have keys: "at_id ?c = ticket_attempt ticket" "at_operation_index ?c = at_operation_index a"
    "gr_agent (cd_grant claimed) = pr_id agent"
    using load_attempt_key [OF c(1)] c(4,7) by (simp_all add: same_identity_def check_grant_ok_iff)
  have d: "dr_attempt dispatch = ticket_attempt ticket" "dr_operation dispatch = po_operation planned"
    "dr_deadline_milliseconds dispatch = po_max_milliseconds planned"
    "dr_interlocks_valid_until dispatch = expiry"
    by (simp_all add: p(4) dispatch_request_for_def keys(1))
  note li = witnessed_interlocks [OF w4(1) p(2) c(7), unfolded w4(2,3), OF c(8) w4(4) executed(15)]
  show ?thesis
    by (rule exI [of _ a], rule exI [of _ s1], rule exI [of _ "cd_grant claimed"],
        rule exI [of _ "cd_profile claimed"], rule exI [of _ "cd_plan claimed"],
        rule exI [of _ planned], rule exI [of _ dispatch])
      (use executed(13) c keys p(1,2) d li authorize_admissible p(3) in simp)
qed

lemma execute_authorised_witness:
  "\<exists>g profile plan planned. st_grants ex_submitted ex_grant_id = Some g
     \<and> admissible ex_env g profile plan planned"
proof -
  have "w_device (ex_world ex_settled (Suc 0, [] @ [ex_attempt_id]) (Suc (Suc 0)))
      \<noteq> w_device (ex_world ex_submitted (0, []) 0)" by (simp add: ex_world_def)
  from execute_authorised [OF ex_execute this] show ?thesis
    by (auto simp: ex_world_def ex_bench_def ex_submitted_def load_attempt_def ex_step_def ex_attempt_def)
qed

section \<open>Reconciliation\<close>

lemma sbind_lift: "sbind (lift_result v) f w = (case v of Inl e \<Rightarrow> (Inl e, w) | Inr x \<Rightarrow> f x w)"
  by (simp add: sbind_def lift_result_def split: sum.split)

lemma reconcile_cases:
  assumes "reconcile B agent i req w = (r, w')"
  obtains
    (quiet) "w_store w' = w_store w" "w_device w' = w_device w"
      "\<forall>a. r = Inr a \<longrightarrow> load_attempt (w_store w) i = Some a"
  | (claimed) attempt plan configure budget claimed s1 where
      "load_attempt (w_store w) i = Some attempt" "at_state attempt \<in> {Unknown, Partial}"
      "st_plans (w_store w) (at_plan attempt) = Some plan"
      "at_operation_index attempt < length (rp_operations plan)"
      "claim_reconciliation (bn_env B) (bn_time B (w_calls w)) i req (pr_id agent) budget (w_store w)
         = Inr (ClaimClaimed claimed, s1)"
      "(case prepare_reconciliation claimed configure of
          Inl e \<Rightarrow> fail_reconciliation B req e
        | Inr dispatch \<Rightarrow> settle_reconciliation B req
            (rp_operations plan ! at_operation_index attempt) claimed dispatch)
         (w\<lparr>w_store := s1, w_calls := Suc (w_calls w)\<rparr>) = (r, w')"
proof (cases "pr_role agent = Agent \<and> (\<exists>attempt g plan. load_attempt (w_store w) i = Some attempt
    \<and> st_grants (w_store w) (at_grant attempt) = Some g \<and> pr_id agent = gr_agent g
    \<and> at_state attempt \<in> {Unknown, Partial} \<and> st_plans (w_store w) (at_plan attempt) = Some plan
    \<and> at_operation_index attempt < length (rp_operations plan))")
  case False
  have "w' = w \<and> (\<forall>a. r = Inr a \<longrightarrow> load_attempt (w_store w) i = Some a)"
  proof (cases "pr_role agent = Agent")
    case agent: True
    note unfolds = reconcile_def sbind_lift sbind_read require_agent_def operation_at_def Let_def
    show ?thesis
    proof (cases "load_attempt (w_store w) i")
      case None
      with assms agent show ?thesis by (auto simp: unfolds)
    next
      case attempt: (Some attempt)
      show ?thesis
      proof (cases "st_grants (w_store w) (at_grant attempt)")
        case None
        with assms agent attempt show ?thesis by (auto simp: unfolds)
      next
        case g: (Some g)
        show ?thesis
        proof (cases "pr_id agent = gr_agent g \<and> at_state attempt \<in> {Unknown, Partial}")
          case False
          with assms agent attempt g show ?thesis by (auto simp: unfolds split: if_splits)
        next
          case owner: True
          then have uncertain: "(at_state attempt \<noteq> Unknown \<and> at_state attempt \<noteq> Partial) = False" by simp
          show ?thesis
          proof (cases "st_plans (w_store w) (at_plan attempt)")
            case None
            with assms agent attempt g owner show ?thesis by (auto simp: unfolds uncertain)
          next
            case plan: (Some plan)
            with False agent attempt g owner have "\<not> at_operation_index attempt < length (rp_operations plan)"
              by blast
            with assms agent attempt g owner plan show ?thesis by (auto simp: unfolds uncertain)
          qed
        qed
      qed
    qed
  qed (use assms in \<open>auto simp: reconcile_def sbind_lift require_agent_def\<close>)
  then show ?thesis by (intro quiet) simp_all
next
  case True
  then obtain attempt g plan where t: "pr_role agent = Agent" "load_attempt (w_store w) i = Some attempt"
    "st_grants (w_store w) (at_grant attempt) = Some g" "pr_id agent = gr_agent g"
    "at_state attempt \<in> {Unknown, Partial}" "st_plans (w_store w) (at_plan attempt) = Some plan"
    "at_operation_index attempt < length (rp_operations plan)" by blast
  from t(5) have uncertain: "(at_state attempt \<noteq> Unknown \<and> at_state attempt \<noteq> Partial) = False" by simp
  define configure where "configure \<longleftrightarrow> rp_reconciliation_setup plan = ApplyReviewedInstrumentConfiguration"
  define budget where "budget = (if configure then Some \<lparr>bud_effects = 1, bud_bytes = 0,
     bud_milliseconds = po_max_milliseconds (rp_operations plan ! at_operation_index attempt)\<rparr> else None)"
  let ?claim = "claim_reconciliation (bn_env B) (bn_time B (w_calls w)) i req (pr_id agent) budget (w_store w)"
  have eq: "reconcile B agent i req w = sbind (transaction B (\<lambda>clk. claim_reconciliation (bn_env B) clk i req
        (pr_id agent) budget)) (\<lambda>claim. case claim of
         ClaimExisting _ \<Rightarrow>
           sbind (read_store (\<lambda>s. load_attempt s i)) (\<lambda>current.
             lift_result (ok_or current (store_missing ''attempt'' (attempt_str i))))
       | ClaimClaimed claimed \<Rightarrow>
           (case prepare_reconciliation claimed configure of
              Inl e \<Rightarrow> fail_reconciliation B req e
            | Inr dispatch \<Rightarrow> settle_reconciliation B req
                (rp_operations plan ! at_operation_index attempt) claimed dispatch)) w"
    unfolding budget_def configure_def
    using t(1-4,6,7) uncertain by (simp add: reconcile_def sbind_lift sbind_read require_agent_def operation_at_def Let_def
        split del: if_split)
  show ?thesis
  proof (cases ?claim)
    case (Inl e)
    with assms show ?thesis unfolding eq by (intro quiet) (auto simp: sbind_def transaction_def)
  next
    case (Inr out)
    obtain claim s1 where out: "out = (claim, s1)" by (cases out)
    show ?thesis
    proof (cases claim)
      case (ClaimExisting rc)
      from Inr [unfolded out ClaimExisting] have "s1 = w_store w"
        by (cases rule: claim_reconciliation_ok) simp_all
      with assms Inr out ClaimExisting show ?thesis
        unfolding eq
        by (intro quiet) (auto simp: sbind_def transaction_def read_store_def lift_result_def ok_or_def split: sum.splits option.splits)
    next
      case (ClaimClaimed claimed)
      with assms Inr out show ?thesis
        unfolding eq by (intro claimed [OF t(2,5,6,7)]) (auto simp: sbind_def transaction_def)
    qed
  qed
qed

lemma claimed_rows:
  assumes "claim_reconciliation E clk i req who budget s = Inr (ClaimClaimed c, s1)"
  shows "load_reconciliation_by_request s1 req = Some (cl_record c)"
    "rc_request (cl_record c) = req" "rc_attempt (cl_record c) = i" "rc_state (cl_record c) = Claimed"
    "load_attempt s1 i = Some (cd_attempt (cl_dispatch c))" "at_id (cd_attempt (cl_dispatch c)) = i"
    "at_state (cd_attempt (cl_dispatch c)) = Unknown"
    "load_active_reconciliation s i = None"
    "st_reconciliations s1 = st_reconciliations s @ [cl_record c]"
    "load_reconciliation_by_request s req = None"
    "cl_record c = claimed_record E (clk 1) i req who
       (next_ordinal (map rc_ordinal (filter (\<lambda>r. rc_attempt r = i) (st_reconciliations s))))"
proof -
  from assms obtain a a' d r t where c: "c = \<lparr>cl_record = r, cl_dispatch = d\<lparr>cd_attempt := a'\<rparr>\<rparr>"
    "load_reconciliation_by_request s req = None" "load_active_reconciliation s i = None"
    "load_attempt s i = Some a" "reconciliation_guards E clk a who budget s = Inr d"
    "t = (if budget = None then s else update_grant (cd_grant d) s)"
    "r = claimed_record E (clk 1) (at_id a) req who (next_ordinal (map rc_ordinal
         (filter (\<lambda>r. rc_attempt r = at_id a) (st_reconciliations s))))"
    "a' = (if at_state a = Partial
        then a\<lparr>at_state := Unknown, at_updated_at := env_timestamp_text E (clk 2)\<rparr> else a)"
    "s1 = (if at_state a = Partial then update_attempt a' t else t)
              \<lparr>st_reconciliations := st_reconciliations s @ [r]\<rparr>"
    by (cases rule: claim_reconciliation_ok) auto
  have id: "at_id a = i" "i \<in> at_id ` set (st_attempts s)" using load_attempt_key [OF c(4)] by simp_all
  have r: "rc_request r = req" "rc_attempt r = i" "rc_state r = Claimed"
    by (simp_all add: c(7) claimed_record_def id)
  have st: "at_state a \<in> {Unknown, Partial}"
    using c(5) by (auto simp: reconciliation_guards_def split: if_splits)
  have t: "st_attempts t = st_attempts s" by (simp add: c(6) update_grant_def)
  show "load_reconciliation_by_request s1 req = Some (cl_record c)"
    using c(2) r(1) unfolding load_reconciliation_by_request_def by (simp add: c(1,9) row_at_append)
  show "rc_request (cl_record c) = req" "rc_attempt (cl_record c) = i" "rc_state (cl_record c) = Claimed"
    by (simp_all add: c(1) r)
  show "at_id (cd_attempt (cl_dispatch c)) = i" by (simp add: c(1,8) id)
  show "at_state (cd_attempt (cl_dispatch c)) = Unknown" using st by (auto simp: c(1,8))
  show "load_attempt s1 i = Some (cd_attempt (cl_dispatch c))"
    using c(4) id by (simp add: c(1,8,9) load_attempt_def update_attempt_def row_simps t)
  show "load_active_reconciliation s i = None" by (rule c(3))
  show "st_reconciliations s1 = st_reconciliations s @ [cl_record c]" by (simp add: c(1,9))
  show "load_reconciliation_by_request s req = None" by (rule c(2))
  show "cl_record c = claimed_record E (clk 1) i req who
       (next_ordinal (map rc_ordinal (filter (\<lambda>r. rc_attempt r = i) (st_reconciliations s))))"
    using c(7) unfolding id(1) by (simp add: c(1))
qed

text \<open>Closing an open claim always succeeds and changes only its own row.\<close>

lemma finished_transaction:
  assumes row: "load_reconciliation_by_request (w_store w) req = Some q" "rc_state q = Claimed"
    and att: "load_attempt (w_store w) (rc_attempt q) = Some a" "at_state a = Unknown"
    and tx: "transaction B (\<lambda>clk. finish_reconciliation (bn_env B) clk req receipt completed release) w = (res, w')"
  shows "\<exists>b q'. res = Inr b \<and> load_attempt (w_store w') (rc_attempt q) = Some b
    \<and> (at_state b = Completed \<longleftrightarrow> completed)
    \<and> st_reconciliations (w_store w') = set_row rc_request q' (st_reconciliations (w_store w))
    \<and> rc_request q' = req \<and> rc_attempt q' = rc_attempt q \<and> rc_challenge q' = rc_challenge q
    \<and> rc_ordinal q' = rc_ordinal q \<and> rc_state q' \<noteq> Claimed \<and> (rc_state q' = ReconCompleted \<longleftrightarrow> completed) \<and> rc_receipt q' = receipt
    \<and> w_device w' = w_device w"
proof -
  have key: "rc_request q = req" using row(1) by (auto simp: load_reconciliation_by_request_def dest: row_at_SomeD)
  have id: "at_id a = rc_attempt q" "rc_attempt q \<in> at_id ` set (st_attempts (w_store w))"
    using load_attempt_key [OF att(1)] by simp_all
  have rel: "st_attempts (release_leases b t) = st_attempts t"
    "st_reconciliations (release_leases b t) = st_reconciliations t" for b t
    by (simp_all add: release_leases_def)
  show ?thesis
    using tx row att id key
    by (cases completed; cases receipt)
      (auto simp: transaction_def finish_reconciliation_def Let_def rel update_reconciliation_def
        update_attempt_def load_attempt_def row_simps intro!: exI)
qed

lemma prepare_reconciliation_ok:
  "prepare_reconciliation c configure = Inr dispatch \<Longrightarrow>
     dr_evidence_challenge dispatch = rc_challenge (cl_record c)
     \<and> dr_evidence_phase dispatch = Reconciliation
     \<and> dr_attempt dispatch = at_id (cd_attempt (cl_dispatch c))
     \<and> dr_configure_instrument dispatch = configure
     \<and> (\<exists>planned. operation_at (cd_plan (cl_dispatch c)) (at_operation_index (cd_attempt (cl_dispatch c))) = Inr planned
          \<and> dr_operation dispatch = po_operation planned)"
  by (auto simp: prepare_reconciliation_def dispatch_for_reconciliation_def dispatch_request_for_def
      split: if_splits)

text \<open>What a claim becomes: its row is closed, and only evidence for this claim's own
  challenge completes it.\<close>

definition closed_claim ::
  "'d bench \<Rightarrow> 'd \<Rightarrow> planned_operation \<Rightarrow> reconciliation_record \<Rightarrow> reconciliation_record \<Rightarrow> bool" where
  "closed_claim B device planned q q' \<longleftrightarrow>
     rc_request q' = rc_request q \<and> rc_attempt q' = rc_attempt q \<and> rc_challenge q' = rc_challenge q
     \<and> rc_ordinal q' = rc_ordinal q \<and> rc_state q' \<noteq> Claimed
     \<and> (rc_state q' = ReconCompleted \<longrightarrow>
          (\<exists>obs. rc_receipt q' = Some (ReceiptCompleted obs)
             \<and> evidence_bound B device (rc_attempt q) (rc_challenge q) Reconciliation obs
             \<and> (\<forall>c\<in>set (po_postconditions planned). check_holds obs c)))"

lemma fail_reconciliation_closes:
  assumes "load_reconciliation_by_request (w_store w) req = Some q" "rc_state q = Claimed"
    and "load_attempt (w_store w) (rc_attempt q) = Some a" "at_state a = Unknown"
    and "fail_reconciliation B req e w = (r, w')"
  shows "\<exists>q'. r = Inl e \<and> closed_claim B (w_device w') planned q q' \<and> rc_state q' \<noteq> ReconCompleted
    \<and> st_reconciliations (w_store w') = set_row rc_request q' (st_reconciliations (w_store w))"
proof -
  have key: "rc_request q = req" using assms(1) by (auto simp: load_reconciliation_by_request_def dest: row_at_SomeD)
  obtain res w1 where tx: "transaction B (\<lambda>clk. finish_reconciliation (bn_env B) clk req None False False) w = (res, w1)"
    by fastforce
  from finished_transaction [OF assms(1-4) tx] obtain b q' where
    f: "res = Inr b" "st_reconciliations (w_store w1) = set_row rc_request q' (st_reconciliations (w_store w))"
    "rc_request q' = req" "rc_attempt q' = rc_attempt q" "rc_challenge q' = rc_challenge q" "rc_ordinal q' = rc_ordinal q"
    "rc_state q' \<noteq> Claimed" "rc_state q' \<noteq> ReconCompleted" by blast
  with assms(5) tx have "r = Inl e" "w' = w1" by (auto simp: fail_reconciliation_def sbind_def sfail_def)
  with f key show ?thesis by (intro exI [of _ q']) (simp add: closed_claim_def)
qed

lemma settle_reconciliation_closes:
  assumes row: "load_reconciliation_by_request (w_store w) req = Some q" "rc_state q = Claimed"
    and att: "load_attempt (w_store w) (rc_attempt q) = Some (cd_attempt (cl_dispatch c))"
      "at_state (cd_attempt (cl_dispatch c)) = Unknown" "at_id (cd_attempt (cl_dispatch c)) = rc_attempt q"
    and d: "dr_evidence_challenge dispatch = rc_challenge q" "dr_evidence_phase dispatch = Reconciliation"
    and s: "settle_reconciliation B req planned c dispatch w = (r, w')"
  shows "\<exists>q'. closed_claim B (w_device w') planned q q'
    \<and> st_reconciliations (w_store w') = set_row rc_request q' (st_reconciliations (w_store w))
    \<and> (\<forall>b. r = Inr b \<longrightarrow> load_attempt (w_store w') (rc_attempt q) = Some b
         \<and> (at_state b = Completed \<longrightarrow> rc_state q' = ReconCompleted))"
proof -
  have key: "rc_request q = req" using row(1) by (auto simp: load_reconciliation_by_request_def dest: row_at_SomeD)
  let ?w1 = "w\<lparr>w_device := snd (bn_reconcile B dispatch (w_device w))\<rparr>"
  let ?outcome = "fst (bn_reconcile B dispatch (w_device w))"
  have backend: "backend_reconcile B dispatch w = (Inr ?outcome, ?w1)"
    by (simp add: backend_reconcile_def split: prod.split)
  have failing: ?thesis if "fail_reconciliation B req e w1 = (r, w')" "w_store w1 = w_store w" for e w1
    using fail_reconciliation_closes [OF _ row(2) _ att(2) that(1), where planned = planned] row(1) att(1) that(2) by auto
  show ?thesis
  proof (cases ?outcome)
    case (Inl e)
    with s backend show ?thesis
      by (intro failing [of "SvBackend e" ?w1]) (simp_all add: settle_reconciliation_def sbind_def)
  next
    case receipt: (Inr receipt)
    show ?thesis
    proof (cases "lacks_fresh_evidence receipt")
      case True
      with s backend receipt show ?thesis
        by (intro failing [of "OutOfBounds ''reconciliation outcome lacks fresh evidence''" ?w1])
          (simp_all add: settle_reconciliation_def sbind_def)
    next
      case False
      obtain v w2 where v: "verify_receipt_evidence B (cd_attempt (cl_dispatch c)) dispatch receipt ?w1 = (v, w2)"
        by fastforce
      have w2: "w_store w2 = w_store w" "w_device w2 = w_device ?w1"
        using observesD [OF verify_receipt_observes v] by simp_all
      show ?thesis
      proof (cases v)
        case (Inl e)
        with s backend receipt False v w2 show ?thesis
          by (intro failing [of e w2]) (simp_all add: settle_reconciliation_def sbind_def)
      next
        case (Inr verified)
        define final where "final = check_postconditions B planned verified"
        from s backend receipt False v Inr obtain release where
          tx: "transaction B (\<lambda>clk. finish_reconciliation (bn_env B) clk req (Some final)
            (is_completed final) release) w2 = (r, w')"
          by (auto simp: settle_reconciliation_def sbind_def Let_def final_def)
        from finished_transaction [OF _ row(2) _ att(2) tx] row(1) att(1) w2(1)
        obtain b q' where f: "r = Inr b" "load_attempt (w_store w') (rc_attempt q) = Some b"
          "at_state b = Completed \<longleftrightarrow> is_completed final"
          "st_reconciliations (w_store w') = set_row rc_request q' (st_reconciliations (w_store w))"
          "rc_request q' = req" "rc_attempt q' = rc_attempt q" "rc_challenge q' = rc_challenge q"
          "rc_state q' \<noteq> Claimed" "rc_state q' = ReconCompleted \<longleftrightarrow> is_completed final"
          "rc_receipt q' = Some final" "w_device w' = w_device w2" "rc_ordinal q' = rc_ordinal q" by auto
        have "\<exists>obs. final = ReceiptCompleted obs
             \<and> evidence_bound B (w_device w') (rc_attempt q) (rc_challenge q) Reconciliation obs
             \<and> (\<forall>c\<in>set (po_postconditions planned). check_holds obs c)" if "is_completed final"
        proof -
          from that obtain obs where obs: "final = ReceiptCompleted obs"
            by (auto simp: is_completed_def split: operation_receipt.splits)
          then have "verified = ReceiptCompleted obs" "\<forall>c\<in>set (po_postconditions planned). check_holds obs c"
            by (simp_all add: final_def check_postconditions_completed)
          with verify_receipt_ok [OF v [unfolded Inr]] obs f(11) w2(2) att(3) d show ?thesis by auto
        qed
        with f key show ?thesis by (intro exI [of _ q']) (auto simp: closed_claim_def)
      qed
    qed
  qed
qed

text \<open>A request of reconciliation that made a claim: the claim's row is closed.\<close>

lemma reconcile_claimed:
  assumes "reconcile B agent i req w = (r, w')"
  obtains (quiet) "w_store w' = w_store w" "\<forall>a. r = Inr a \<longrightarrow> load_attempt (w_store w) i = Some a"
  | (closed) attempt plan q q' where
      "load_attempt (w_store w) i = Some attempt" "st_plans (w_store w) (at_plan attempt) = Some plan"
      "at_operation_index attempt < length (rp_operations plan)"
      "load_active_reconciliation (w_store w) i = None" "rc_attempt q = i" "rc_request q = req"
      "closed_claim B (w_device w') (rp_operations plan ! at_operation_index attempt) q q'"
      "st_reconciliations (w_store w') = set_row rc_request q' (st_reconciliations (w_store w) @ [q])"
      "\<forall>b. r = Inr b \<longrightarrow> load_attempt (w_store w') i = Some b \<and> (at_state b = Completed \<longrightarrow> rc_state q' = ReconCompleted)"
      "load_reconciliation_by_request (w_store w) req = None"
      "q = claimed_record (bn_env B) (bn_time B (w_calls w) 1) i req (pr_id agent) (next_ordinal (map rc_ordinal
         (filter (\<lambda>r. rc_attempt r = i) (st_reconciliations (w_store w)))))"
  using assms
proof (cases rule: reconcile_cases)
  case quiet
  then show ?thesis by (intro that(1))
next
  case (claimed attempt plan configure budget c s1)
  let ?q = "cl_record c"
  let ?planned = "rp_operations plan ! at_operation_index attempt"
  let ?w1 = "w\<lparr>w_store := s1, w_calls := Suc (w_calls w)\<rparr>"
  note rows = claimed_rows [OF claimed(5)]
  have pre: "load_reconciliation_by_request (w_store ?w1) req = Some ?q"
    "load_attempt (w_store ?w1) (rc_attempt ?q) = Some (cd_attempt (cl_dispatch c))"
    using rows by simp_all
  have "\<exists>q'. closed_claim B (w_device w') ?planned ?q q'
    \<and> st_reconciliations (w_store w') = set_row rc_request q' (st_reconciliations (w_store ?w1))
    \<and> (\<forall>b. r = Inr b \<longrightarrow> load_attempt (w_store w') i = Some b
         \<and> (at_state b = Completed \<longrightarrow> rc_state q' = ReconCompleted))"
  proof (cases "prepare_reconciliation c configure")
    case (Inl e)
    with claimed(6) have "fail_reconciliation B req e ?w1 = (r, w')" by simp
    from fail_reconciliation_closes [OF pre(1) rows(4) pre(2) rows(7) this, where planned = ?planned]
    show ?thesis by auto
  next
    case (Inr dispatch)
    with claimed(6) have "settle_reconciliation B req ?planned c dispatch ?w1 = (r, w')" by simp
    moreover have "dr_evidence_challenge dispatch = rc_challenge ?q" "dr_evidence_phase dispatch = Reconciliation"
      using prepare_reconciliation_ok [OF Inr] by simp_all
    ultimately show ?thesis
      using settle_reconciliation_closes [OF pre(1) rows(4) pre(2) rows(7), of dispatch B ?planned r w']
        rows(3,6) by simp
  qed
  then show ?thesis
    using rows by (elim exE conjE) (rule that(2) [OF claimed(1,3,4) rows(8,3,2)], auto)
qed

lemma next_ordinal_above: "n \<in> set ns \<Longrightarrow> n < next_ordinal ns"
  by (cases ns) (auto simp: next_ordinal_def less_Suc_eq_le)

lemma history_row: "r \<in> set (reconciliation_history s i) \<Longrightarrow> r \<in> set (st_reconciliations s) \<and> rc_attempt r = i"
  by (auto simp: reconciliation_history_def)

text \<open>C17: Only fresh evidence resolves an uncertain attempt: when reconciliation reports an
  attempt completed that was unknown or partial, it has stored a completed reconciliation
  under this very request, which no reconciliation had used before and which comes after every
  earlier one of the attempt; its challenge is the digest of the attempt, the request, its place
  among them and the time at which it was claimed; its observation is bound by an artifact of
  the attempt to that challenge, and the step's postconditions hold of it.\<close>

theorem reconcile_evidenced:
  assumes "reconcile B agent i req w = (Inr a, w')" "at_state a = Completed"
    and "load_attempt (w_store w) i = Some before" "at_state before \<in> {Unknown, Partial}"
  shows "\<exists>q obs plan. load_reconciliation_by_request (w_store w') req = Some q
    \<and> rc_attempt q = i \<and> rc_state q = ReconCompleted \<and> rc_receipt q = Some (ReceiptCompleted obs)
    \<and> evidence_bound B (w_device w') i (rc_challenge q) Reconciliation obs
    \<and> st_plans (w_store w) (at_plan before) = Some plan
    \<and> (\<forall>c\<in>set (po_postconditions (rp_operations plan ! at_operation_index before)). check_holds obs c)
    \<and> load_attempt (w_store w') i = Some a
    \<and> load_reconciliation_by_request (w_store w) req = None
    \<and> (\<forall>r\<in>set (reconciliation_history (w_store w) i). rc_ordinal r < rc_ordinal q)
    \<and> rc_challenge q = text_digest (bn_env B) (''reconcile:'' @ attempt_str i @ '':'' @ request_str req @ '':''
         @ nat_text (rc_ordinal q) @ '':'' @ env_timestamp_text (bn_env B) (bn_time B (w_calls w) 1))"
  using assms(1)
proof (cases rule: reconcile_claimed)
  case quiet
  with assms show ?thesis by auto
next
  case (closed attempt plan q q')
  have att: "attempt = before" using closed(1) assms(3) by simp
  have keys: "rc_request q' = req" "rc_attempt q' = i" "rc_challenge q' = rc_challenge q" "rc_ordinal q' = rc_ordinal q"
    using closed(5,6,7) by (simp_all add: closed_claim_def)
  have fin: "rc_state q' = ReconCompleted" "load_attempt (w_store w') i = Some a"
    using closed(9) assms(2) by simp_all
  have "load_reconciliation_by_request (w_store w') req = Some q'"
    unfolding load_reconciliation_by_request_def closed(8)
    using keys(1) closed(6) by (simp add: row_at_set_row)
  moreover obtain obs where "rc_receipt q' = Some (ReceiptCompleted obs)"
    "evidence_bound B (w_device w') i (rc_challenge q') Reconciliation obs"
    "\<forall>c\<in>set (po_postconditions (rp_operations plan ! at_operation_index before)). check_holds obs c"
    using closed(7) fin(1) unfolding closed_claim_def closed(5) keys(3) att by blast
  moreover have "rc_ordinal r < rc_ordinal q'" if "r \<in> set (reconciliation_history (w_store w) i)" for r
    unfolding keys(4) using history_row [OF that]
    by (subst closed(11)) (auto simp: claimed_record_def intro!: next_ordinal_above)
  moreover have "rc_challenge q' = text_digest (bn_env B) (''reconcile:'' @ attempt_str i @ '':'' @ request_str req @ '':''
      @ nat_text (rc_ordinal q') @ '':'' @ env_timestamp_text (bn_env B) (bn_time B (w_calls w) 1))"
    unfolding keys(3,4) by (simp add: closed(11) claimed_record_def)
  ultimately show ?thesis using keys(2) fin closed(2,10) unfolding att by blast
qed

text \<open>C18: Reconciliation never leaves a claim open: whatever the backend, the artifacts or
  the checks answer, an attempt without an active reconciliation has none afterwards, so
  the next reconciliation is not locked out.\<close>

theorem reconcile_leaves_no_claim:
  assumes "reconcile B agent i req w = (r, w')" "load_active_reconciliation (w_store w) i = None"
  shows "load_active_reconciliation (w_store w') i = None"
  using assms(1)
proof (cases rule: reconcile_claimed)
  case quiet
  with assms(2) show ?thesis by simp
next
  case (closed attempt plan q q')
  have q': "rc_request q' = req" "rc_state q' \<noteq> Claimed"
    using closed(6,7) by (simp_all add: closed_claim_def)
  show ?thesis
    unfolding load_active_None_iff closed(8)
    using assms(2) [unfolded load_active_None_iff] q' closed(6) by (auto simp: in_set_row)
qed

definition ex_stale :: attempt_record where
  "ex_stale = ex_flying\<lparr>at_state := Unknown, at_receipt := Some (ReceiptUnknown ''lost'' None)\<rparr>"

definition ex_query :: reconciliation_record where
  "ex_query = claimed_record ex_env 0 ex_attempt_id (RequestId ''n'') ex_agent 0"

definition ex_queried :: store where
  "ex_queried = ex_uncertain\<lparr>st_reconciliations := [ex_query]\<rparr>"

lemma ex_claim_reconciliation:
  "claim_reconciliation ex_env ex_clock ex_attempt_id (RequestId ''n'') ex_agent None ex_uncertain
     = Inr (ClaimClaimed \<lparr>cl_record = ex_query, cl_dispatch = \<lparr>cd_attempt = ex_stale,
         cd_grant = ex_grant 4 False, cd_profile = ex_profile, cd_plan = ex_plan\<rparr>\<rparr>, ex_queried)"
proof -
  have "check_leases_held ex_uncertain ex_stale = Inr ()"
    by (simp add: check_leases_held_def lease_owner_def ex_journals ex_stale_def ex_attempt_def
        ex_resources_def ex_digest_def)
  then have "reconciliation_guards ex_env ex_clock ex_stale ex_agent None ex_uncertain
      = Inr \<lparr>cd_attempt = ex_stale, cd_grant = ex_grant 4 False, cd_profile = ex_profile, cd_plan = ex_plan\<rparr>"
    using ex_check_grant [of 4]
    by (simp add: reconciliation_guards_def load_grant_def load_profile_def load_plan_def ex_digests
        check_digest_def ex_stale_def ex_journals ex_attempt_def ex_clock_def)
  moreover have "load_attempt ex_uncertain ex_attempt_id = Some ex_stale"
    "st_reconciliations ex_uncertain = []" "at_id ex_stale = ex_attempt_id" "at_state ex_stale = Unknown"
    by (simp_all add: load_attempt_def ex_stale_def ex_journals ex_attempt_def)
  ultimately show ?thesis
    by (simp add: claim_reconciliation_def load_reconciliation_by_request_def load_active_reconciliation_def
        sqlite_unsigned_def insert_reconciliation_def ex_query_def ex_queried_def next_ordinal_def
        ex_clock_def Let_def)
qed

lemma ex_settle_reconciliation:
  "\<exists>a w'. settle_reconciliation ex_bench (RequestId ''n'') ex_operation \<lparr>cl_record = ex_query,
      cl_dispatch = \<lparr>cd_attempt = ex_stale, cd_grant = ex_grant 4 False, cd_profile = ex_profile,
        cd_plan = ex_plan\<rparr>\<rparr>
      (dispatch_request_for ex_stale ex_profile ex_operation (rc_challenge ex_query) Reconciliation False)
      (ex_world ex_queried 0 n) = (Inr a, w') \<and> at_state a = Completed"
proof -
  have "load_attempt ex_queried ex_attempt_id = Some ex_stale"
    "load_reconciliation_by_request ex_queried (RequestId ''n'') = Some ex_query"
    "rc_attempt ex_query = ex_attempt_id" "rc_state ex_query = Claimed" "rc_challenge ex_query = ex_digest"
    by (simp_all add: load_attempt_def load_reconciliation_by_request_def ex_queried_def ex_query_def
        ex_stale_def ex_journals ex_attempt_def claimed_record_def ex_digests)
  then show ?thesis
    by (simp add: settle_reconciliation_def sbind_def backend_reconcile_def lacks_fresh_evidence_def
        verify_receipt_evidence_def bound_envelope_def lift_result_def sreturn_def ex_world_def
        dispatch_request_for_def ex_reobservation_def ex_observation_def check_postconditions_def
        evaluate_checks_def ex_operation_def is_completed_def transaction_def finish_reconciliation_def
        Let_def ex_env_def ex_stale_def ex_flying_def ex_attempt_def ex_attempt_id_def ex_digest_def)
qed

lemma ex_reconcile:
  "\<exists>a w'. reconcile ex_bench ex_agent_principal ex_attempt_id (RequestId ''n'') (ex_world ex_uncertain 0 0)
      = (Inr a, w') \<and> at_state a = Completed"
proof -
  have rows: "load_attempt ex_uncertain ex_attempt_id = Some ex_stale" "at_state ex_stale = Unknown"
    "at_grant ex_stale = ex_grant_id" "at_plan ex_stale = ex_plan_id" "at_operation_index ex_stale = 0"
    "st_grants ex_uncertain ex_grant_id = Some (ex_grant 4 False)" "gr_agent (ex_grant 4 False) = ex_agent"
    "st_plans ex_uncertain ex_plan_id = Some ex_plan" "rp_operations ex_plan = [ex_operation]"
    "rp_reconciliation_setup ex_plan = ObservationOnly"
    by (simp_all add: load_attempt_def ex_stale_def ex_journals ex_attempt_def ex_grant_def ex_plan_def)
  have prep: "prepare_reconciliation \<lparr>cl_record = ex_query,
      cl_dispatch = \<lparr>cd_attempt = ex_stale, cd_grant = ex_grant 4 False, cd_profile = ex_profile,
        cd_plan = ex_plan\<rparr>\<rparr> False
      = Inr (dispatch_request_for ex_stale ex_profile ex_operation (rc_challenge ex_query) Reconciliation False)"
    by (simp add: prepare_reconciliation_def dispatch_for_reconciliation_def operation_at_def rows)
  have "reconcile ex_bench ex_agent_principal ex_attempt_id (RequestId ''n'') (ex_world ex_uncertain 0 0)
     = settle_reconciliation ex_bench (RequestId ''n'') ex_operation \<lparr>cl_record = ex_query,
      cl_dispatch = \<lparr>cd_attempt = ex_stale, cd_grant = ex_grant 4 False, cd_profile = ex_profile,
        cd_plan = ex_plan\<rparr>\<rparr>
      (dispatch_request_for ex_stale ex_profile ex_operation (rc_challenge ex_query) Reconciliation False)
      (ex_world ex_queried 0 1)"
    using rows prep ex_claim_reconciliation
    by (simp add: reconcile_def sbind_lift sbind_read require_agent_def ex_agent_principal_def
        ex_world_def operation_at_def sbind_def [of "transaction _ _"] transaction_def Let_def)
  with ex_settle_reconciliation [of 1] show ?thesis by simp
qed

lemma ex_uncertain_rows:
  "load_attempt (w_store (ex_world ex_uncertain (0 :: nat) 0)) ex_attempt_id = Some ex_stale"
  "at_state ex_stale \<in> {Unknown, Partial}"
  "load_active_reconciliation (w_store (ex_world ex_uncertain (0 :: nat) 0)) ex_attempt_id = None"
  by (simp_all add: ex_world_def load_attempt_def load_active_reconciliation_def ex_stale_def
      ex_journals ex_attempt_def)

lemma reconcile_evidenced_witness:
  "\<exists>q (w :: nat world) obs. load_reconciliation_by_request (w_store w) (RequestId ''n'') = Some q
     \<and> evidence_bound ex_bench (w_device w) ex_attempt_id (rc_challenge q) Reconciliation obs
     \<and> load_reconciliation_by_request ex_uncertain (RequestId ''n'') = None"
proof -
  obtain a w' where r: "reconcile ex_bench ex_agent_principal ex_attempt_id (RequestId ''n'')
      (ex_world ex_uncertain 0 0) = (Inr a, w')" "at_state a = Completed"
    using ex_reconcile by blast
  from reconcile_evidenced [OF r ex_uncertain_rows(1,2)] obtain q obs where
    "load_reconciliation_by_request (w_store w') (RequestId ''n'') = Some q"
    "evidence_bound ex_bench (w_device w') ex_attempt_id (rc_challenge q) Reconciliation obs"
    "load_reconciliation_by_request ex_uncertain (RequestId ''n'') = None" by (auto simp: ex_world_def)
  then show ?thesis by (intro exI [of _ q] exI [of _ w'] exI [of _ obs] conjI)
qed

lemma reconcile_leaves_no_claim_witness:
  "\<exists>w. load_active_reconciliation (w_store w) ex_attempt_id = None
     \<and> w = snd (reconcile ex_bench ex_agent_principal ex_attempt_id (RequestId ''n'') (ex_world ex_uncertain 0 0))"
proof -
  obtain a w' where r: "reconcile ex_bench ex_agent_principal ex_attempt_id (RequestId ''n'')
      (ex_world ex_uncertain 0 0) = (Inr a, w')"
    using ex_reconcile by blast
  from reconcile_leaves_no_claim [OF r ex_uncertain_rows(3)] r show ?thesis by auto
qed

section \<open>Resumption\<close>

lemma submit_rows:
  assumes "wf_store (w_store w)" "submit B agent request w = (Inr sub, w')"
  shows "st_runs (w_store w') = st_runs (w_store w)
    \<and> (case sub of
        SubAdmitted t \<Rightarrow> t = DispatchTicket (sr_attempt request)
          \<and> (\<exists>a. st_attempts (w_store w') = st_attempts (w_store w) @ [a]
               \<and> at_id a = sr_attempt request \<and> at_state a = Intent)
      | SubExisting b \<Rightarrow> w_store w' = w_store w \<and> at_id b = sr_attempt request
          \<and> b \<in> set (st_attempts (w_store w)))"
  using assms(2)
proof (rule submit_ok)
  fix g profile plan digest reserved profile_d outcome
  let ?a = "intent_record B (sr_attempt request) (sr_request request) (sr_grant request)
        (sr_plan request) (sr_operation_index request) digest reserved profile profile_d
        (bn_time B (w_calls w) 0)"
  assume tx: "transaction B (\<lambda>clk. reserve (bn_env B) clk ?a
        \<lparr>snap_agent = pr_id agent, snap_profile = profile, snap_plan = plan\<rparr>)
        (w\<lparr>w_calls := Suc (w_calls w)\<rparr>) = (Inr outcome, w')"
    and sub: "sub = (case outcome of Existing a \<Rightarrow> SubExisting a
       | Reserved _ \<Rightarrow> SubAdmitted (DispatchTicket (sr_attempt request)))"
  from tx obtain clk snap where r: "reserve (bn_env B) clk ?a snap (w_store w) = Inr (outcome, w_store w')"
    by (auto simp: transaction_Inr)
  then show ?thesis
  proof (cases rule: reserve_ok)
    case (existing b)
    then have "b \<in> set (st_attempts (w_store w))"
      by (auto simp: load_attempt_by_request_def dest: row_at_SomeD)
    with existing sub show ?thesis by (simp add: intent_record_simps)
  next
    case (fresh g s1 remaining)
    note e = reserve_fresh_effect [OF assms(1) fresh(3,5,8)]
    show ?thesis
      using sub fresh(1) by (simp add: e intent_record_simps intent_record_fresh)
  qed
qed

lemma resume_steps_position:
  assumes "wf_store (w_store w)" "resume_steps B agent run index (drop index (ru_steps run)) w = (Inr ticket, w')"
    and "\<forall>j<index. \<exists>b. load_attempt (w_store w) (fst (ru_steps run ! j)) = Some b \<and> at_state b = Completed"
  shows "st_runs (w_store w') = st_runs (w_store w)
    \<and> pt_operation_index ticket < length (ru_steps run)
    \<and> (\<forall>j<pt_operation_index ticket. \<exists>b. load_attempt (w_store w') (fst (ru_steps run ! j)) = Some b
         \<and> at_state b = Completed)
    \<and> ticket_attempt (pt_dispatch ticket) = fst (ru_steps run ! pt_operation_index ticket)
    \<and> (\<exists>a. load_attempt (w_store w') (ticket_attempt (pt_dispatch ticket)) = Some a \<and> at_state a = Intent)"
  using assms(2,3)
proof (induction "length (ru_steps run) - index" arbitrary: index)
  case 0
  then show ?case by simp
next
  case (Suc n)
  then have lt: "index < length (ru_steps run)" by simp
  obtain i q where step: "ru_steps run ! index = (i, q)" by fastforce
  have d: "drop index (ru_steps run) = (i, q) # drop (Suc index) (ru_steps run)"
    using Cons_nth_drop_Suc [OF lt] step by simp
  show ?case
  proof (cases "load_attempt (w_store w) i")
    case (Some a)
    show ?thesis
    proof (cases "at_state a = Completed")
      case True
      with Suc.prems(1) Some have "resume_steps B agent run (Suc index) (drop (Suc index) (ru_steps run)) w = (Inr ticket, w')"
        by (simp add: d sbind_read)
      moreover have "\<forall>j<Suc index. \<exists>b. load_attempt (w_store w) (fst (ru_steps run ! j)) = Some b \<and> at_state b = Completed"
        using Suc.prems(2) Some True step by (simp add: less_Suc_eq)
      moreover have "n = length (ru_steps run) - Suc index" using Suc.hyps(2) by simp
      ultimately show ?thesis using Suc.hyps(1) by blast
    next
      case False
      with Suc.prems(1) Some have "at_state a = Intent" "w' = w"
        "ticket = first_ticket (ru_id run) (ru_grant run) (ru_plan run) (at_id a) index"
        by (auto simp: d sbind_read split: if_splits)
      with Suc.prems(2) Some lt step load_attempt_key [OF Some] show ?thesis
        by (simp add: first_ticket_def)
    qed
  next
    case None
    let ?req = "\<lparr>sr_attempt = i, sr_request = q, sr_grant = ru_grant run, sr_plan = ru_plan run,
       sr_operation_index = index\<rparr>"
    from Suc.prems(1) None obtain sub where sub: "submit B agent ?req w = (Inr sub, w')"
      "ticket_for (ru_id run) (ru_grant run) (ru_plan run) index ''durable run step is non-resumable'' sub = Inr ticket"
      by (auto simp: d sbind_read sbind_Inr)
    note rows = submit_rows [OF assms(1) sub(1)]
    show ?thesis
    proof (cases sub)
      case (SubExisting b)
      with rows have "b \<in> set (st_attempts (w_store w))" "at_id b = i" by simp_all
      with None have False by (auto simp: load_attempt_def row_at_None_iff)
      then show ?thesis ..
    next
      case (SubAdmitted t)
      with rows obtain a where a: "st_attempts (w_store w') = st_attempts (w_store w) @ [a]" "at_id a = i"
        "at_state a = Intent" "t = DispatchTicket i" by auto
      have keep: "load_attempt (w_store w) k = Some b \<Longrightarrow> load_attempt (w_store w') k = Some b" for k b
        by (simp add: load_attempt_def a(1) row_at_append)
      have "load_attempt (w_store w') i = Some a"
        using None a(2) unfolding load_attempt_def a(1) row_at_append by simp
      moreover have "ticket = first_ticket (ru_id run) (ru_grant run) (ru_plan run) i index"
        using sub(2) SubAdmitted a(4) by (simp add: ticket_for_def)
      ultimately show ?thesis
        using rows a(3) lt step Suc.prems(2) keep by (simp add: first_ticket_def) blast
    qed
  qed
qed

text \<open>A run resumes exactly where it stopped: the ticket that resumption hands out is
  for a step of the run whose predecessors are all durably completed, its attempt is the
  step's own and is durably an undispatched intent, and the caller is the run's agent.\<close>

theorem resume_plan_position:
  assumes "wf_store (w_store w)" "resume_plan B agent rid w = (Inr ticket, w')"
  shows "\<exists>run a. st_runs (w_store w') rid = Some run \<and> ru_agent run = pr_id agent
    \<and> pt_operation_index ticket < length (ru_steps run)
    \<and> (\<forall>j<pt_operation_index ticket. \<exists>b. load_attempt (w_store w') (fst (ru_steps run ! j)) = Some b
         \<and> at_state b = Completed)
    \<and> ticket_attempt (pt_dispatch ticket) = fst (ru_steps run ! pt_operation_index ticket)
    \<and> load_attempt (w_store w') (ticket_attempt (pt_dispatch ticket)) = Some a \<and> at_state a = Intent"
proof -
  from assms(2) obtain run w1 where r: "transaction B (\<lambda>_. repair_run_cursor rid) w = (Inr run, w1)"
    "ru_agent run = pr_id agent" "resume_steps B agent run 0 (ru_steps run) w1 = (Inr ticket, w')"
    unfolding resume_plan_def by (auto simp: sbind_Inr split: if_splits)
  from r(1) have rep: "repair_run_cursor rid (w_store w) = Inr (run, w_store w1)"
    by (auto simp: transaction_Inr)
  have wf: "wf_store (w_store w1)"
    using repair_run_op.preserves [OF TrueI assms(1) rep] by simp
  have run: "st_runs (w_store w1) rid = Some run"
    by (rule repair_run_cursor_ok [OF rep]) simp
  from resume_steps_position [OF wf, of B agent run 0 ticket w'] r(2,3) run show ?thesis
    by auto
qed

lemma ex_resume:
  "resume_plan ex_bench ex_agent_principal (RequestId ''run'') (ex_world ex_running 0 0)
     = (Inr (first_ticket (RequestId ''run'') ex_grant_id ex_plan_id ex_attempt_id 0), ex_world ex_running 0 1)"
proof -
  have "repair_run_cursor (RequestId ''run'') ex_running
      = Inr (ex_run (RequestId ''run'') ex_plan_id ex_attempt, ex_running)"
    by (simp add: repair_run_cursor_def ex_running_def ex_run_def Let_def load_attempt_def
        ex_journals ex_attempt_def)
  moreover have "load_attempt ex_running ex_attempt_id = Some ex_attempt" "at_id ex_attempt = ex_attempt_id"
    by (simp_all add: load_attempt_def ex_running_def ex_journals ex_attempt_def)
  moreover have "\<not> recovery_source_retired ex_running ex_grant_id ex_plan_id"
    "load_halted_run_abandonment_by_run ex_running (RequestId ''run'') = None"
    by (simp_all add: recovery_source_retired_def load_halted_run_abandonment_by_run_def
        ex_running_def ex_journals)
  ultimately show ?thesis
    by (simp add: resume_plan_def sbind_lift sbind_read require_agent_def ex_agent_principal_def
        ex_world_def sbind_def [of "transaction _ _"] transaction_def ex_run_def ex_attempt_def first_ticket_def)
qed

lemma resume_plan_position_witness:
  "\<exists>a. load_attempt ex_running ex_attempt_id = Some a \<and> at_state a = Intent"
proof -
  have "wf_store (w_store (ex_world ex_running (0 :: nat) 0))"
    using ex_recovery_wf by (simp add: ex_world_def)
  from resume_plan_position [OF this ex_resume] show ?thesis
    by (auto simp: ex_world_def first_ticket_def)
qed

end
