(* ===== verification/Instruments.thy ===== *)
theory Instruments
  imports Prelude
begin

text \<open>
  The failures at an instrument boundary (\<open>src/instruments/error.rs\<close>), shared by the
  models of the framing, the flash planner and the simulator. An operating-system error is
  carried as its text.
\<close>

datatype instrument_error =
    InstrumentIo string string
  | InstrumentTimeout string
  | EndOfStream string
  | FrameTooLarge nat
  | MalformedCobs
  | MalformedResponse string
  | DeviceRejected string
  | UnexpectedResponse string string
  | ProtocolLimit nat nat
  | InvalidRelayResponse string
  | InvalidSimulatorStore string
  | InvalidVideoConfiguration string
  | VideoExecutableDigestMismatch string string
  | VideoIdentityMismatch string string
  | InvalidVideoFrame
  | VideoCaptureFailed string

end
