(* ===== verification/Cobs.thy ===== *)
theory Cobs
  imports Instruments
begin

text \<open>
  Consistent overhead byte stuffing (\<open>src/instruments/cobs.rs\<close>): the encoder's loop
  over a frame and an open block, the decoder's loop over the remaining bytes, and the
  reader that collects bytes up to the delimiter. A stream is the list of results that
  successive reads of one byte give, and a stream that has ended reads as no byte.
  The locale \<open>framing\<close> states what a reader relies on; the codec interprets it.
\<close>

section \<open>The codec\<close>

abbreviation FRAME_DELIMITER :: u8 where "FRAME_DELIMITER \<equiv> 0"

definition append_block :: "u8 list \<Rightarrow> u8 list \<Rightarrow> u8 list" where
  "append_block frame block = frame @ of_nat (length block + 1) # block"

fun encode_loop :: "u8 list \<Rightarrow> u8 list \<Rightarrow> u8 list \<Rightarrow> u8 list \<times> u8 list" where
  "encode_loop [] frame block = (frame, block)"
| "encode_loop (byte # payload) frame block =
     (if byte = FRAME_DELIMITER then encode_loop payload (append_block frame block) []
      else let block' = block @ [byte] in
        if length block' = 254 then encode_loop payload (append_block frame block') []
        else encode_loop payload frame block')"

definition cobs_encode :: "u8 list \<Rightarrow> u8 list" where
  "cobs_encode payload =
     (let (frame, block) = encode_loop payload [] []
      in append_block frame block @ [FRAME_DELIMITER])"

function decode_loop :: "nat \<Rightarrow> u8 list \<Rightarrow> u8 list \<Rightarrow> instrument_error + u8 list" where
  "decode_loop limit [] decoded = Inr decoded"
| "decode_loop limit (code_byte # after_code) decoded =
     (let code = unat code_byte; payload_length = code - 1 in
      if code = 0 then Inl MalformedCobs
      else if length after_code < payload_length then Inl MalformedCobs
      else
        let remaining = drop payload_length after_code;
            decoded' = decoded @ take payload_length after_code
              @ (if code \<noteq> 255 \<and> remaining \<noteq> [] then [FRAME_DELIMITER] else [])
        in if limit < length decoded' then Inl (FrameTooLarge limit)
           else decode_loop limit remaining decoded')"
  by pat_completeness auto
termination
  by (relation "measure (\<lambda>(_, remaining, _). length remaining)") auto

definition cobs_decode :: "u8 list \<Rightarrow> nat \<Rightarrow> instrument_error + u8 list" where
  "cobs_decode frame limit =
     (if frame = [] \<or> limit < length frame then Inl (FrameTooLarge limit)
      else decode_loop limit frame [])"

section \<open>The reader\<close>

fun read_loop ::
  "nat \<Rightarrow> string \<Rightarrow> (string + u8) list \<Rightarrow> u8 list
     \<Rightarrow> (instrument_error + u8 list) \<times> (string + u8) list" where
  "read_loop limit oper [] encoded = (Inl (EndOfStream oper), [])"
| "read_loop limit oper (Inl source # stream) encoded =
     (Inl (InstrumentIo ''reading instrument frame'' source), stream)"
| "read_loop limit oper (Inr byte # stream) encoded =
     (if byte = FRAME_DELIMITER then (cobs_decode encoded limit, stream)
      else let encoded' = encoded @ [byte] in
        if limit < length encoded' then (Inl (FrameTooLarge limit), stream)
        else read_loop limit oper stream encoded')"

definition read_delimited ::
  "nat \<Rightarrow> string \<Rightarrow> (string + u8) list \<Rightarrow> (instrument_error + u8 list) \<times> (string + u8) list" where
  "read_delimited limit oper stream = read_loop limit oper stream []"

section \<open>Blocks\<close>

text \<open>What the encoder writes for an open block and the rest of the payload, without the
  accumulated frame; the decoder undoes it block by block.\<close>

fun blocks :: "u8 list \<Rightarrow> u8 list \<Rightarrow> u8 list" where
  "blocks block [] = of_nat (length block + 1) # block"
| "blocks block (byte # payload) =
     (if byte = 0 then of_nat (length block + 1) # block @ blocks [] payload
      else if length block = 253 then 255 # block @ byte # blocks [] payload
      else blocks (block @ [byte]) payload)"

lemma encode_loop_blocks:
  "encode_loop payload frame block = (frame', block') \<Longrightarrow>
     append_block frame' block' = frame @ blocks block payload"
  by (induction payload frame block rule: encode_loop.induct)
    (auto simp: append_block_def Let_def split: if_splits)

lemma cobs_encode_blocks: "cobs_encode payload = blocks [] payload @ [0]"
  by (auto simp: cobs_encode_def encode_loop_blocks split: prod.split)

lemma blocks_not_Nil [simp]: "blocks block payload \<noteq> []"
  by (induction block payload rule: blocks.induct) auto

lemma unat_code: "n < 255 \<Longrightarrow> unat (of_nat (n + 1) :: u8) = n + 1"
  by (simp only: unat_of_nat) simp

lemma unat_code_Suc [simp]: "n < 255 \<Longrightarrow> unat (1 + of_nat n :: u8) = Suc n"
  using unat_code [of n] by simp

lemma code_nonzero: "n < 255 \<Longrightarrow> (of_nat (n + 1) :: u8) \<noteq> 0"
  using unat_code [of n] by (metis add_is_0 one_neq_zero unat_0)

lemma blocks_nonzero:
  assumes "0 \<notin> set block" "length block < 254"
  shows "0 \<notin> set (blocks block payload)"
  using assms
proof (induction block payload rule: blocks.induct)
  case (1 block)
  then show ?case using code_nonzero [of "length block"] by auto
next
  case (2 block byte payload)
  then show ?case using code_nonzero [of "length block"] by auto
qed

lemma length_blocks:
  "length block < 254 \<Longrightarrow>
     length (blocks block payload) \<le> length block + length payload + (length block + length payload) div 254 + 1"
proof (induction block payload rule: blocks.induct)
  case (2 block byte payload)
  show ?case
  proof (cases "byte = 0")
    case True
    have "length payload div 254 \<le> (length block + Suc (length payload)) div 254"
      by (rule div_le_mono) simp
    with 2(1) [OF True] True show ?thesis by simp
  next
    case False
    show ?thesis
    proof (cases "length block = 253")
      case True
      with 2(2) [OF False True] False show ?thesis by simp
    next
      case no: False
      with 2(3) [OF False no] 2(4) False show ?thesis by simp
    qed
  qed
qed simp

lemma decode_loop_blocks:
  assumes "length block < 254" "length decoded + length (blocks block payload) \<le> limit"
  shows "decode_loop limit (blocks block payload) decoded = Inr (decoded @ block @ payload)"
  using assms
proof (induction block payload arbitrary: decoded rule: blocks.induct)
  case (1 block)
  then show ?case by (simp add: Let_def)
next
  case (2 block byte payload)
  show ?case
  proof (cases "byte = 0")
    case True
    with 2(1) [OF True, of "decoded @ block @ [0]"] 2(4,5) show ?thesis by (simp add: Let_def)
  next
    case False
    show ?thesis
    proof (cases "length block = 253")
      case True
      with 2(2) [OF False True, of "decoded @ block @ [byte]"] 2(4,5) False show ?thesis
        by (simp add: Let_def)
    next
      case no: False
      with 2(3) [OF False no, of decoded] 2(4,5) False show ?thesis by simp
    qed
  qed
qed

lemma cobs_decode_blocks:
  "length (blocks [] payload) \<le> limit \<Longrightarrow> cobs_decode (blocks [] payload) limit = Inr payload"
  using decode_loop_blocks [of "[]" "[]" payload limit] by (simp add: cobs_decode_def)

section \<open>Reading\<close>

lemma read_loop_frame:
  assumes "0 \<notin> set frame" "length encoded \<le> limit"
  shows "read_loop limit oper (map Inr (frame @ [0]) @ rest) encoded =
    (if length encoded + length frame \<le> limit then (cobs_decode (encoded @ frame) limit, rest)
     else (Inl (FrameTooLarge limit),
           drop (limit + 1 - length encoded) (map Inr (frame @ [0]) @ rest)))"
  using assms
proof (induction frame arbitrary: encoded)
  case (Cons byte frame)
  show ?case
  proof (cases "length encoded = limit")
    case False
    with Cons.prems Cons.IH [of "encoded @ [byte]"] show ?thesis
      by (auto simp: Let_def Suc_diff_le)
  qed (use Cons.prems in \<open>simp add: Let_def\<close>)
qed simp

lemma read_delimited_encoded:
  "read_delimited limit oper (map Inr (cobs_encode payload) @ rest) =
    (if length (cobs_encode payload) \<le> limit + 1 then (Inr payload, rest)
     else (Inl (FrameTooLarge limit), drop (limit + 1) (map Inr (cobs_encode payload) @ rest)))"
  using read_loop_frame [of "blocks [] payload" "[]" limit oper rest] blocks_nonzero [of "[]" payload]
  by (simp add: read_delimited_def cobs_encode_blocks cobs_decode_blocks)

lemma decode_loop_bounded:
  "length decoded \<le> limit \<Longrightarrow>
   (case decode_loop limit frame decoded of
      Inl e \<Rightarrow> e \<in> {FrameTooLarge limit, MalformedCobs}
    | Inr payload \<Rightarrow> length payload \<le> limit)"
  by (induction limit frame decoded rule: decode_loop.induct) (auto simp: Let_def)

lemma cobs_decode_bounded:
  "case cobs_decode frame limit of
     Inl e \<Rightarrow> e \<in> {FrameTooLarge limit, MalformedCobs}
   | Inr payload \<Rightarrow> length payload \<le> limit"
  using decode_loop_bounded [of "[]" limit frame] by (simp add: cobs_decode_def)

definition reader_outcome ::
  "nat \<Rightarrow> string \<Rightarrow> (string + u8) list \<Rightarrow> (string + u8) list \<Rightarrow> instrument_error + u8 list \<Rightarrow> bool" where
  "reader_outcome limit oper used rest result \<longleftrightarrow>
     (case result of
        Inr payload \<Rightarrow> length payload \<le> limit \<and> used \<noteq> [] \<and> last used = Inr FRAME_DELIMITER
      | Inl e \<Rightarrow> e \<in> {FrameTooLarge limit, MalformedCobs} \<and> used \<noteq> []
          \<or> e = EndOfStream oper \<and> rest = []
          \<or> (\<exists>source. e = InstrumentIo ''reading instrument frame'' source
               \<and> used \<noteq> [] \<and> last used = Inl source))"

lemma reader_outcome_Cons:
  "reader_outcome limit oper used rest r \<Longrightarrow> reader_outcome limit oper (x # used) rest r"
  by (auto simp: reader_outcome_def split: sum.split_asm)

lemma reader_outcome_delimiter:
  "reader_outcome limit oper [Inr FRAME_DELIMITER] rest (cobs_decode encoded limit)"
  using cobs_decode_bounded [of limit encoded]
  by (auto simp: reader_outcome_def split: sum.split sum.split_asm)

lemma read_loop_outcome:
  assumes "length encoded \<le> limit" "read_loop limit oper stream encoded = (r, rest)"
  shows "\<exists>used. stream = used @ rest \<and> length encoded + length used \<le> limit + 1
    \<and> reader_outcome limit oper used rest r"
  using assms
proof (induction limit oper stream encoded rule: read_loop.induct)
  case (1 limit oper encoded)
  then show ?case by (auto simp: reader_outcome_def)
next
  case (2 limit oper source stream encoded)
  then show ?case by (intro exI [of _ "[Inl source]"]) (auto simp: reader_outcome_def)
next
  case (3 limit oper byte stream encoded)
  consider (delimiter) "byte = 0" | (long) "byte \<noteq> 0" "limit < length (encoded @ [byte])"
    | (more) "byte \<noteq> 0" "\<not> limit < length (encoded @ [byte])" by blast
  then show ?case
  proof cases
    case delimiter
    with 3(2,3) reader_outcome_delimiter [of limit oper stream encoded] show ?thesis
      by (intro exI [of _ "[Inr byte]"]) auto
  next
    case long
    with 3(2,3) show ?thesis
      by (intro exI [of _ "[Inr byte]"]) (auto simp: reader_outcome_def)
  next
    case more
    with 3(1) [OF more(1) refl more(2)] 3(3) obtain used where
      "stream = used @ rest" "length (encoded @ [byte]) + length used \<le> limit + 1"
      "reader_outcome limit oper used rest r"
      by (auto simp: Let_def)
    then show ?thesis
      by (intro exI [of _ "Inr byte # used"]) (simp add: reader_outcome_Cons)
  qed
qed

section \<open>Framing\<close>

fun read_frames ::
  "('b list \<Rightarrow> ('e + 'p) \<times> 'b list) \<Rightarrow> nat \<Rightarrow> 'b list \<Rightarrow> ('e + 'p list) \<times> 'b list" where
  "read_frames read_frame 0 stream = (Inr [], stream)"
| "read_frames read_frame (Suc n) stream =
     (case read_frame stream of
        (Inl e, stream') \<Rightarrow> (Inl e, stream')
      | (Inr p, stream') \<Rightarrow>
          (case read_frames read_frame n stream' of
             (Inl e, stream'') \<Rightarrow> (Inl e, stream'')
           | (Inr ps, stream'') \<Rightarrow> (Inr (p # ps), stream'')))"

text \<open>What a peer of the stream relies on: reading at the start of a frame gives back
  its payload and leaves what follows.\<close>

locale framing =
  fixes enc :: "'p \<Rightarrow> 'b list"
    and read_frame :: "'b list \<Rightarrow> ('e + 'p) \<times> 'b list"
    and fits :: "'p \<Rightarrow> bool"
  assumes read_enc: "fits p \<Longrightarrow> read_frame (enc p @ rest) = (Inr p, rest)"
begin

lemma read_frames_enc:
  "list_all fits ps \<Longrightarrow>
     read_frames read_frame (length ps) (concat (map enc ps) @ rest) = (Inr ps, rest)"
  by (induction ps) (simp_all add: read_enc)

lemma enc_prefix_free:
  assumes "fits p" "fits q" "enc p @ xs = enc q @ ys"
  shows "p = q \<and> xs = ys"
  using assms read_enc [of p xs] read_enc [of q ys] by (metis prod.inject sum.inject(2))

lemma frames_unique:
  assumes "list_all fits ps" "list_all fits qs" "length ps = length qs"
    and "concat (map enc ps) @ xs = concat (map enc qs) @ ys"
  shows "ps = qs \<and> xs = ys"
  using assms read_frames_enc [of ps xs] read_frames_enc [of qs ys] by (metis prod.inject sum.inject(2))

end

interpretation cobs: framing "\<lambda>payload. map Inr (cobs_encode payload)" "read_delimited limit oper"
    "\<lambda>payload. length (cobs_encode payload) \<le> limit + 1"
  for limit oper
  by unfold_locales (simp add: read_delimited_encoded)

section \<open>Properties\<close>

text \<open>C21: Frames survive the wire: whatever payloads a peer encodes one after another, zero
  bytes and long blocks included, reading the stream gives back exactly those payloads in
  order and leaves exactly what follows the last frame, as long as each encoded frame fits
  the reader's limit.\<close>

theorem frames_read_in_order:
  assumes "list_all (\<lambda>p. length (cobs_encode p) \<le> limit + 1) payloads"
  shows "read_frames (read_delimited limit oper) (length payloads)
      (concat (map (\<lambda>p. map Inr (cobs_encode p)) payloads) @ rest) = (Inr payloads, rest)"
  using assms by (rule cobs.read_frames_enc)

theorem frames_read_in_order_witness:
  "read_frames (read_delimited 4 ''test'') (length [[0, 7], [], [1, 2, 3 :: u8]])
      (concat (map (\<lambda>p. map Inr (cobs_encode p)) [[0, 7], [], [1, 2, 3]]) @ [Inl ''noise''])
    = (Inr [[0, 7], [], [1, 2, 3]], [Inl ''noise''])"
  by (rule frames_read_in_order) (simp add: cobs_encode_blocks)

text \<open>A reader is bounded whatever the device sends: it takes at most one byte more
  than its limit off the stream; it returns a payload no longer than the limit, and only
  at a delimiter; and every failure is one of four, each at its own cause: a frame over the
  limit, a malformed block, the end of the stream, or the very error of the last read.\<close>

theorem read_delimited_bounded:
  "\<exists>used. stream = used @ snd (read_delimited limit oper stream)
     \<and> length used \<le> limit + 1
     \<and> reader_outcome limit oper used (snd (read_delimited limit oper stream))
         (fst (read_delimited limit oper stream))"
  using read_loop_outcome [of "[]" limit oper stream]
  by (cases "read_delimited limit oper stream") (simp add: read_delimited_def)

end
