(* ===== verification/Flash.thy ===== *)
theory Flash
  imports Prelude
begin

text \<open>
  The planner of SPI-NOR commands (\<open>src/instruments/flash.rs\<close>): a geometry with its
  validating constructor, range and sector checks, big-endian addresses of three or four
  bytes, and the command list of every operation. A value \<open>None\<close> of a plan is a
  panic of the code (a remainder or a step by zero); the properties show that no geometry the
  constructor accepts reaches it. The last sections state what a plan transfers: which
  bytes to which addresses, in whole pages and sectors.
\<close>

section \<open>Geometry\<close>

datatype address_mode = ThreeByte | FourByte

record flash_geometry =
  capacity_bytes :: u64
  page_bytes :: u32
  erase_bytes :: u32
  address_mode :: address_mode

datatype flash_layout_error =
    ZeroCapacity
  | ZeroPage
  | ZeroErase
  | UnsupportedThreeByteCapacity u64
  | UnsupportedFourByteCapacity u64
  | UnsupportedEraseBytes u32
  | FlashOutOfBounds u64 u32 u64
  | EraseUnaligned u64 u32 u32

definition geometry_try_new ::
  "u64 \<Rightarrow> u32 \<Rightarrow> u32 \<Rightarrow> address_mode \<Rightarrow> flash_layout_error + flash_geometry" where
  "geometry_try_new capacity page erase mode =
     (if capacity = 0 then Inl ZeroCapacity
      else if page = 0 then Inl ZeroPage
      else if erase = 0 then Inl ZeroErase
      else if erase \<noteq> 4096 then Inl (UnsupportedEraseBytes erase)
      else if mode = ThreeByte \<and> capacity > 0x01000000 then Inl (UnsupportedThreeByteCapacity capacity)
      else if mode = FourByte \<and> capacity > 0x100000000 then Inl (UnsupportedFourByteCapacity capacity)
      else Inr \<lparr>capacity_bytes = capacity, page_bytes = page, erase_bytes = erase,
                address_mode = mode\<rparr>)"

definition validate_range :: "flash_geometry \<Rightarrow> u64 \<Rightarrow> u32 \<Rightarrow> flash_layout_error + unit" where
  "validate_range g offset len =
     rbind (ok_or (checked_add offset (ucast len)) (FlashOutOfBounds offset len (capacity_bytes g)))
       (\<lambda>range_end. if range_end > capacity_bytes g
              then Inl (FlashOutOfBounds offset len (capacity_bytes g)) else Inr ())"

definition validate_erase :: "flash_geometry \<Rightarrow> u64 \<Rightarrow> u32 \<Rightarrow> flash_layout_error + unit" where
  "validate_erase g offset len =
     rbind (validate_range g offset len) (\<lambda>_.
       let erase = ucast (erase_bytes g) :: u64 in
       if offset mod erase \<noteq> 0 \<or> (ucast len :: u64) mod erase \<noteq> 0
       then Inl (EraseUnaligned offset len (erase_bytes g)) else Inr ())"

definition address :: "flash_geometry \<Rightarrow> u64 \<Rightarrow> u8 list" where
  "address g offset =
     (case address_mode g of
        ThreeByte \<Rightarrow> [ucast (drop_bit 16 offset), ucast (drop_bit 8 offset), ucast offset]
      | FourByte \<Rightarrow> [ucast (drop_bit 24 offset), ucast (drop_bit 16 offset),
                     ucast (drop_bit 8 offset), ucast offset])"

definition opcodes :: "flash_geometry \<Rightarrow> u8 \<times> u8 \<times> u8" where
  "opcodes g = (case address_mode g of
     ThreeByte \<Rightarrow> (0x03, 0x02, 0x20) | FourByte \<Rightarrow> (0x13, 0x12, 0x21))"

section \<open>Plans\<close>

datatype nor_operation =
    NorIdentify
  | NorRead u64 u32
  | NorErase u64 u32
  | NorWrite u64 "u8 list"
  | NorVerify u64 "u8 list"

datatype nor_command = Transfer "u8 list" u32 | PollBusyClear

record nor_plan =
  np_commands :: "nor_command list"
  np_expected_read_bytes :: u32

definition read_plan :: "flash_geometry \<Rightarrow> u64 \<Rightarrow> u32 \<Rightarrow> flash_layout_error + nor_plan" where
  "read_plan g offset len =
     rbind (validate_range g offset len) (\<lambda>_.
       let (read_opcode, _, _) = opcodes g in
       Inr \<lparr>np_commands = [Transfer (read_opcode # address g offset) len],
            np_expected_read_bytes = len\<rparr>)"

text \<open>\<open>for sector in (0..length).step_by(erase)\<close>: the next sector, while it is below
  the length.\<close>

function erase_loop ::
  "flash_geometry \<Rightarrow> u64 \<Rightarrow> u32 \<Rightarrow> nat \<Rightarrow> nor_command list
     \<Rightarrow> (flash_layout_error + nor_command list) option" where
  "erase_loop g offset len sector commands =
     (if erase_bytes g = 0 then None
      else if sector < unat len then
        (case checked_add offset (of_nat sector) of
           None \<Rightarrow> Some (Inl (FlashOutOfBounds offset len (capacity_bytes g)))
         | Some sector_offset \<Rightarrow>
             let (_, _, erase_opcode) = opcodes g in
             erase_loop g offset len (sector + unat (erase_bytes g))
               (commands @ [Transfer [0x06] 0,
                  Transfer (erase_opcode # address g sector_offset) 0, PollBusyClear]))
      else Some (Inr commands))"
  by pat_completeness auto
termination
  by (relation "measure (\<lambda>(g, _, len, sector, _). unat len - sector)")
    (auto simp: unat_gt_0 intro!: diff_less_mono2)

lemma unat_page_remaining:
  assumes "p \<noteq> 0"
  shows "unat ((ucast (p :: u32) :: u64) - offset mod ucast p) = unat p - unat offset mod unat p"
proof -
  have "unat (offset mod ucast p) < unat (ucast p :: u64)"
    using assms by (simp add: unat_mod unat_gt_0)
  then show ?thesis by (simp add: unat_sub word_le_nat_alt unat_mod)
qed

lemma page_remaining_positive: "p \<noteq> 0 \<Longrightarrow> 0 < unat (p :: u32) - n mod unat p"
  by (simp add: unat_gt_0)

lemma write_progress:
  assumes "p \<noteq> 0" "cursor < len"
  shows "len - (cursor + min (unat (p :: u32) - n mod unat p) (len - cursor)) < len - cursor"
  using assms page_remaining_positive [of p n] by linarith

function write_loop ::
  "flash_geometry \<Rightarrow> u64 \<Rightarrow> u32 \<Rightarrow> u8 list \<Rightarrow> nat \<Rightarrow> nor_command list
     \<Rightarrow> (flash_layout_error + nor_command list) option" where
  "write_loop g offset len bytes cursor commands =
     (if cursor < length bytes then
        (case checked_add offset (of_nat cursor) of
           None \<Rightarrow> Some (Inl (FlashOutOfBounds offset len (capacity_bytes g)))
         | Some write_offset \<Rightarrow>
             if page_bytes g = 0 then None
             else
               let (_, program_opcode, _) = opcodes g;
                   page = ucast (page_bytes g) :: u64;
                   page_remaining = unat (page - write_offset mod page);
                   count = min page_remaining (length bytes - cursor);
                   page_data = take count (drop cursor bytes)
               in write_loop g offset len bytes (cursor + count)
                    (commands @ [Transfer [0x06] 0,
                       Transfer (program_opcode # address g write_offset @ page_data) 0,
                       PollBusyClear]))
      else Some (Inr commands))"
  by pat_completeness auto

termination
  by (relation "measure (\<lambda>(g, _, _, bytes, cursor, _). length bytes - cursor)")
    (auto simp: unat_page_remaining write_progress split: prod.splits)

declare erase_loop.simps [simp del] write_loop.simps [simp del]

fun for_operation :: "flash_geometry \<Rightarrow> nor_operation \<Rightarrow> (flash_layout_error + nor_plan) option" where
  "for_operation g NorIdentify = Some (Inr
     \<lparr>np_commands = [Transfer [0x9F] 3, Transfer [0x5A, 0, 0, 0, 0] 256],
      np_expected_read_bytes = 259\<rparr>)"
| "for_operation g (NorRead offset len) = Some (read_plan g offset len)"
| "for_operation g (NorErase offset len) =
     (case validate_erase g offset len of
        Inl e \<Rightarrow> Some (Inl e)
      | Inr _ \<Rightarrow> map_option (\<lambda>r. rbind r (\<lambda>commands.
          Inr \<lparr>np_commands = commands, np_expected_read_bytes = 0\<rparr>)) (erase_loop g offset len 0 []))"
| "for_operation g (NorWrite offset bytes) =
     (if 2 ^ 32 \<le> length bytes then Some (Inl (FlashOutOfBounds offset (- 1) (capacity_bytes g)))
      else let len = of_nat (length bytes) in
        case validate_range g offset len of
          Inl e \<Rightarrow> Some (Inl e)
        | Inr _ \<Rightarrow> map_option (\<lambda>r. rbind r (\<lambda>commands.
            Inr \<lparr>np_commands = commands, np_expected_read_bytes = 0\<rparr>))
            (write_loop g offset len bytes 0 []))"
| "for_operation g (NorVerify offset expected) =
     (if 2 ^ 32 \<le> length expected then Some (Inl (FlashOutOfBounds offset (- 1) (capacity_bytes g)))
      else Some (read_plan g offset (of_nat (length expected))))"

section \<open>What a plan transfers\<close>

text \<open>The geometries the constructor accepts, and the value of an address on the wire.\<close>

definition qualified_geometry :: "flash_geometry \<Rightarrow> bool" where
  "qualified_geometry g \<longleftrightarrow>
     geometry_try_new (capacity_bytes g) (page_bytes g) (erase_bytes g) (address_mode g) = Inr g"

fun big_endian :: "u8 list \<Rightarrow> nat" where
  "big_endian [] = 0"
| "big_endian (byte # rest) = unat byte * 256 ^ length rest + big_endian rest"

lemma qualified_geometryD:
  assumes "qualified_geometry g"
  shows "erase_bytes g = 4096" "page_bytes g \<noteq> 0"
    "unat (capacity_bytes g) \<le> (case address_mode g of ThreeByte \<Rightarrow> 2 ^ 24 | FourByte \<Rightarrow> 2 ^ 32)"
  using assms
  by (auto simp: qualified_geometry_def geometry_try_new_def word_le_nat_alt not_less
        split: if_splits address_mode.splits)

lemma geometry_try_new_qualified:
  "geometry_try_new capacity page erase mode = Inr g \<Longrightarrow> qualified_geometry g"
  by (auto simp: geometry_try_new_def qualified_geometry_def split: if_splits)

lemma unat_byte: "unat (ucast (drop_bit n (w :: u64)) :: u8) = unat w div 2 ^ n mod 256"
  by (simp add: unsigned_ucast_eq unat_drop_bit_eq drop_bit_eq_div [where 'a = nat] take_bit_eq_mod)

lemma base_256:
  fixes n :: nat
  shows "n div 65536 * 65536 + (n div 256 mod 256 * 256 + n mod 256) = n"
    and "n div 16777216 * 16777216 + (n div 65536 mod 256 * 65536 + (n div 256 mod 256 * 256 + n mod 256)) = n"
proof -
  have "n div 65536 = n div 256 div 256" "n div 16777216 = n div 65536 div 256"
    by (simp_all add: div_mult2_eq [symmetric])
  moreover note div_mult_mod_eq [of n 256] div_mult_mod_eq [of "n div 256" 256]
    div_mult_mod_eq [of "n div 65536" 256]
  ultimately show "n div 65536 * 65536 + (n div 256 mod 256 * 256 + n mod 256) = n"
    and "n div 16777216 * 16777216 + (n div 65536 mod 256 * 65536 + (n div 256 mod 256 * 256 + n mod 256)) = n"
    by linarith+
qed

lemma big_endian_address:
  assumes "qualified_geometry g" "unat offset < unat (capacity_bytes g)"
  shows "big_endian (address g offset) = unat offset"
proof (cases "address_mode g")
  case ThreeByte
  with qualified_geometryD(3) [OF assms(1)] assms(2) have "unat offset < 2 ^ 24" by simp
  then show ?thesis
    using unat_byte [of 16 offset] unat_byte [of 8 offset] unat_byte [of 0 offset] ThreeByte
    by (simp add: address_def base_256)
next
  case FourByte
  with qualified_geometryD(3) [OF assms(1)] assms(2) have "unat offset < 2 ^ 32" by simp
  then show ?thesis
    using unat_byte [of 24 offset] unat_byte [of 16 offset] unat_byte [of 8 offset]
      unat_byte [of 0 offset] FourByte
    by (simp add: address_def base_256)
qed

definition program_commands :: "flash_geometry \<Rightarrow> u64 \<times> u8 list \<Rightarrow> nor_command list" where
  "program_commands g chunk =
     [Transfer [0x06] 0,
      Transfer (fst (snd (opcodes g)) # address g (fst chunk) @ snd chunk) 0, PollBusyClear]"

definition erase_commands :: "flash_geometry \<Rightarrow> u64 \<Rightarrow> nor_command list" where
  "erase_commands g sector =
     [Transfer [0x06] 0, Transfer (snd (snd (opcodes g)) # address g sector) 0, PollBusyClear]"

text \<open>Chunks that follow one another from an address, none empty and each inside one page.\<close>

fun laid_out :: "nat \<Rightarrow> nat \<Rightarrow> (u64 \<times> u8 list) list \<Rightarrow> bool" where
  "laid_out page start [] = True"
| "laid_out page start ((at, data) # chunks) =
     (unat at = start \<and> data \<noteq> [] \<and> start mod page + length data \<le> page
      \<and> laid_out page (start + length data) chunks)"

lemma unat_of_nat_small: "n < 2 ^ 64 \<Longrightarrow> unat (of_nat n :: u64) = n"
  by (simp add: unat_of_nat)

lemma checked_add_in_range:
  fixes offset :: u64
  assumes "unat offset + n < 2 ^ 64"
  shows "\<exists>at. checked_add offset (of_nat n) = Some at \<and> unat at = unat offset + n"
proof -
  have n: "unat (of_nat n :: u64) = n" using assms by (intro unat_of_nat_small) simp
  with assms have "checked_add offset (of_nat n) = Some (offset + of_nat n)"
    by (simp add: checked_add_def)
  moreover from this have "unat (offset + of_nat n) = unat offset + n"
    using n by (simp only: checked_add_Some_iff)
  ultimately show ?thesis by blast
qed

lemma write_loop_chunks:
  assumes "page_bytes g \<noteq> 0" "unat offset + length bytes < 2 ^ 64" "cursor \<le> length bytes"
  shows "\<exists>chunks. write_loop g offset len bytes cursor commands
      = Some (Inr (commands @ concat (map (program_commands g) chunks)))
    \<and> laid_out (unat (page_bytes g)) (unat offset + cursor) chunks
    \<and> concat (map snd chunks) = drop cursor bytes"
  using assms(3)
proof (induction "length bytes - cursor" arbitrary: cursor commands rule: less_induct)
  case less
  show ?case
  proof (cases "cursor < length bytes")
    case False
    with less.prems show ?thesis by (intro exI [of _ "[]"]) (simp add: write_loop.simps)
  next
    case True
    obtain at where at: "checked_add offset (of_nat cursor) = Some at"
      "unat at = unat offset + cursor"
      using checked_add_in_range [of offset cursor] True assms(2) by auto
    let ?page = "unat (page_bytes g)"
    define count where "count = min (unat (ucast (page_bytes g) - at mod ucast (page_bytes g) :: u64))
      (length bytes - cursor)"
    have "unat at mod ?page < ?page" by (simp add: unat_gt_0 assms(1))
    then have count: "0 < count" "unat at mod ?page + count \<le> ?page" "cursor + count \<le> length bytes"
      using True by (auto simp: count_def unat_page_remaining assms(1))
    define data where "data = take count (drop cursor bytes)"
    have data: "length data = count" "data @ drop (cursor + count) bytes = drop cursor bytes"
      using count(3) by (simp_all add: data_def add.commute flip: drop_drop)
    have step: "write_loop g offset len bytes cursor commands =
      write_loop g offset len bytes (cursor + count) (commands @ program_commands g (at, data))"
      using True at(1) assms(1)
      by (subst write_loop.simps)
        (simp add: Let_def count_def data_def program_commands_def split: prod.split)
    have "length bytes - (cursor + count) < length bytes - cursor" using True count(1) by linarith
    from less.hyps [OF this count(3)] obtain chunks where
      "write_loop g offset len bytes (cursor + count) (commands @ program_commands g (at, data))
         = Some (Inr ((commands @ program_commands g (at, data)) @ concat (map (program_commands g) chunks)))"
      "laid_out ?page (unat offset + (cursor + count)) chunks"
      "concat (map snd chunks) = drop (cursor + count) bytes"
      by blast
    with step data count at(2) show ?thesis
      by (intro exI [of _ "(at, data) # chunks"]) (auto simp: add.assoc)
  qed
qed

lemma erase_loop_sectors:
  assumes "erase_bytes g \<noteq> 0" "unat offset + unat len < 2 ^ 64"
  shows "erase_loop g offset len (k * unat (erase_bytes g)) commands
    = Some (Inr (commands @ concat (map (\<lambda>i. erase_commands g (offset + of_nat (i * unat (erase_bytes g))))
        [k..<(unat len + unat (erase_bytes g) - 1) div unat (erase_bytes g)])))"
proof (induction "unat len - k * unat (erase_bytes g)" arbitrary: k commands rule: less_induct)
  case less
  let ?e = "unat (erase_bytes g)"
  have e: "0 < ?e" by (simp add: unat_gt_0 assms(1))
  show ?case
  proof (cases "k * ?e < unat len")
    case True
    have "Suc k * ?e \<le> unat len + ?e - 1" using True by simp
    then have k: "k < (unat len + ?e - 1) div ?e"
      using e by (simp add: less_eq_div_iff_mult_less_eq Suc_le_eq [symmetric] del: mult_Suc)
    have "unat len - Suc k * ?e < unat len - k * ?e" using True e by simp
    note IH = less.hyps [OF this]
    have "checked_add offset (of_nat (k * ?e)) = Some (offset + of_nat (k * ?e))"
      using checked_add_in_range [of offset "k * ?e"] True assms(2)
      by (auto simp: checked_add_def split: if_splits)
    then have "erase_loop g offset len (k * ?e) commands =
      erase_loop g offset len (Suc k * ?e) (commands @ erase_commands g (offset + of_nat (k * ?e)))"
      using True assms(1)
      by (subst erase_loop.simps)
        (simp add: Let_def erase_commands_def add.commute split: prod.split)
    with IH k show ?thesis by (simp add: upt_conv_Cons del: mult_Suc)
  next
    case False
    then have "unat len + ?e - 1 < Suc k * ?e" using e by simp
    then have "(unat len + ?e - 1) div ?e \<le> k" using e by (simp add: div_less_iff_less_mult less_Suc_eq_le [symmetric] del: mult_Suc)
    with False assms(1) show ?thesis by (simp add: erase_loop.simps)
  qed
qed

section \<open>Acceptance\<close>

definition in_range :: "flash_geometry \<Rightarrow> u64 \<Rightarrow> nat \<Rightarrow> bool" where
  "in_range g offset len \<longleftrightarrow> len < 2 ^ 32 \<and> unat offset + len \<le> unat (capacity_bytes g)"

fun operation_fits :: "flash_geometry \<Rightarrow> nor_operation \<Rightarrow> bool" where
  "operation_fits g NorIdentify \<longleftrightarrow> True"
| "operation_fits g (NorRead offset len) \<longleftrightarrow> in_range g offset (unat len)"
| "operation_fits g (NorErase offset len) \<longleftrightarrow>
     in_range g offset (unat len) \<and> 4096 dvd unat offset \<and> 4096 dvd unat len"
| "operation_fits g (NorWrite offset bytes) \<longleftrightarrow> in_range g offset (length bytes)"
| "operation_fits g (NorVerify offset expected) \<longleftrightarrow> in_range g offset (length expected)"

lemma unat_u32_less: "unat (w :: u32) < 2 ^ 32"
  using unsigned_less [of w] by simp

lemma unat_u32_of_nat: "n < 2 ^ 32 \<Longrightarrow> unat (of_nat n :: u32) = n"
  by (simp add: unat_of_nat)

lemma validate_range_iff:
  "validate_range g offset len = Inr u \<longleftrightarrow> in_range g offset (unat len)"
  using unat_u64_less [of "capacity_bytes g"] unat_u32_less [of len]
  by (auto simp: validate_range_def in_range_def checked_add_Some_iff word_less_nat_alt not_less
        checked_add_def unat_word_ariths split: if_splits)

lemma validate_erase_iff:
  assumes "erase_bytes g = 4096"
  shows "validate_erase g offset len = Inr u \<longleftrightarrow> operation_fits g (NorErase offset len)"
proof -
  have "(offset mod 4096 = 0) = (4096 dvd unat offset)"
    by (simp add: word_unat_eq_iff unat_mod mod_eq_0_iff_dvd)
  moreover have "((ucast len :: u64) mod 4096 = 0) = (4096 dvd unat len)"
    by (simp add: word_unat_eq_iff unat_mod mod_eq_0_iff_dvd)
  ultimately show ?thesis
    using assms by (auto simp: validate_erase_def Let_def validate_range_iff split: if_splits)
qed

lemma read_plan_fits:
  "(case read_plan g offset len of Inl e \<Rightarrow> \<not> in_range g offset (unat len)
    | Inr plan \<Rightarrow> in_range g offset (unat len))"
proof (cases "validate_range g offset len")
  case (Inl e)
  then have "\<not> in_range g offset (unat len)" using validate_range_iff [of g offset len] by auto
  with Inl show ?thesis by (simp add: read_plan_def)
next
  case (Inr u)
  with validate_range_iff [of g offset len u] show ?thesis
    by (simp add: read_plan_def split: prod.split)
qed

lemma erase_plan:
  assumes "qualified_geometry g" "operation_fits g (NorErase offset len)"
  shows "for_operation g (NorErase offset len) = Some (Inr
    \<lparr>np_commands = concat (map (\<lambda>i. erase_commands g (offset + of_nat (i * 4096)))
        [0..<unat len div 4096]), np_expected_read_bytes = 0\<rparr>)"
proof -
  from assms(2) obtain k where k: "unat len = 4096 * k" by (auto elim: dvdE)
  have count: "(unat len + 4096 - 1) div 4096 = unat len div 4096" unfolding k by simp
  have "unat offset + unat len < 2 ^ 64"
    using assms(2) unat_u64_less [of "capacity_bytes g"] by (simp add: in_range_def)
  then show ?thesis
    using validate_erase_iff [of g offset len "()"] qualified_geometryD(1) [OF assms(1)] assms(2)
      erase_loop_sectors [of g offset len 0 "[]"] count
    by simp
qed

lemma write_plan:
  assumes "qualified_geometry g" "in_range g offset (length bytes)"
  shows "\<exists>chunks. for_operation g (NorWrite offset bytes) = Some (Inr
      \<lparr>np_commands = concat (map (program_commands g) chunks), np_expected_read_bytes = 0\<rparr>)
    \<and> laid_out (unat (page_bytes g)) (unat offset) chunks \<and> concat (map snd chunks) = bytes"
proof -
  let ?len = "of_nat (length bytes) :: u32"
  have len: "length bytes < 2 ^ 32" "unat ?len = length bytes"
    using assms(2) by (simp_all add: in_range_def unat_u32_of_nat)
  with assms(2) have "validate_range g offset ?len = Inr ()" by (simp add: validate_range_iff)
  moreover have "unat offset + length bytes < 2 ^ 64"
    using assms(2) unat_u64_less [of "capacity_bytes g"] by (simp add: in_range_def)
  from write_loop_chunks [OF qualified_geometryD(2) [OF assms(1)] this, of 0 ?len "[]"]
  obtain chunks where
    "write_loop g offset ?len bytes 0 [] = Some (Inr (concat (map (program_commands g) chunks)))"
    "laid_out (unat (page_bytes g)) (unat offset) chunks" "concat (map snd chunks) = bytes"
    by auto
  ultimately show ?thesis using len(1) by (intro exI [of _ chunks]) (simp add: Let_def)
qed

lemma for_operation_fits:
  assumes "qualified_geometry g"
  shows "case for_operation g oper of
      None \<Rightarrow> False | Some (Inl e) \<Rightarrow> \<not> operation_fits g oper | Some (Inr plan) \<Rightarrow> operation_fits g oper"
proof (cases oper)
  case (NorRead offset len)
  with read_plan_fits [of g offset len] show ?thesis
    by (cases "read_plan g offset len") simp_all
next
  case (NorErase offset len)
  show ?thesis
  proof (cases "operation_fits g oper")
    case True
    with NorErase erase_plan [OF assms] show ?thesis by simp
  next
    case False
    with validate_erase_iff [OF qualified_geometryD(1) [OF assms], of offset len] NorErase
    obtain e where "validate_erase g offset len = Inl e" by (cases "validate_erase g offset len") auto
    with False NorErase show ?thesis by simp
  qed
next
  case (NorWrite offset bytes)
  show ?thesis
  proof (cases "operation_fits g oper")
    case True
    with NorWrite write_plan [OF assms, of offset bytes] obtain plan where
      "for_operation g oper = Some (Inr plan)" by auto
    with True show ?thesis by simp
  next
    case False
    with validate_range_iff [of g offset "of_nat (length bytes)"] NorWrite
    have "\<exists>e. for_operation g oper = Some (Inl e)"
      by (cases "validate_range g offset (of_nat (length bytes))")
        (auto simp: unat_u32_of_nat Let_def not_le)
    with False show ?thesis by auto
  qed
next
  case (NorVerify offset expected)
  with read_plan_fits [of g offset "of_nat (length expected)"] show ?thesis
    by (auto simp: in_range_def unat_u32_of_nat split: sum.split)
qed simp

lemma laid_out_in_range:
  "laid_out page start chunks \<Longrightarrow> (at, data) \<in> set chunks \<Longrightarrow>
     unat at < start + length (concat (map snd chunks))"
  by (induction page start chunks rule: laid_out.induct) (fastforce simp: neq_Nil_conv)+

section \<open>Properties\<close>

text \<open>C22: A write plan programs exactly what was asked: under a geometry that the
  constructor accepts, its commands are, chunk by chunk, a write enable, one page program
  and a wait until the device is idle; the chunks follow one another from the offset, are
  not empty, never cross a page boundary and add up to the bytes; and the three or four
  address bytes of each are its address, so that no write is truncated onto another one.\<close>

theorem write_plan_exact:
  assumes "geometry_try_new capacity page erase mode = Inr g"
    and "for_operation g (NorWrite offset bytes) = Some (Inr plan)"
  shows "\<exists>chunks. np_commands plan = concat (map (program_commands g) chunks)
    \<and> laid_out (unat page) (unat offset) chunks \<and> concat (map snd chunks) = bytes
    \<and> list_all (\<lambda>chunk. big_endian (address g (fst chunk)) = unat (fst chunk)) chunks
    \<and> np_expected_read_bytes plan = 0"
proof -
  from assms(1) have g: "qualified_geometry g" by (rule geometry_try_new_qualified)
  have page: "page_bytes g = page" using assms(1) by (auto simp: geometry_try_new_def split: if_splits)
  have fits: "in_range g offset (length bytes)"
    using for_operation_fits [OF g, of "NorWrite offset bytes"] assms(2) by (simp del: for_operation.simps)
  from write_plan [OF g fits] assms(2) obtain chunks where chunks:
    "np_commands plan = concat (map (program_commands g) chunks)" "np_expected_read_bytes plan = 0"
    "laid_out (unat page) (unat offset) chunks" "concat (map snd chunks) = bytes"
    by (auto simp: page simp del: for_operation.simps)
  have "big_endian (address g (fst chunk)) = unat (fst chunk)" if "chunk \<in> set chunks" for chunk
    using laid_out_in_range [OF chunks(3), of "fst chunk" "snd chunk"] that fits chunks(4)
    by (intro big_endian_address [OF g]) (simp add: in_range_def)
  with chunks show ?thesis by (auto simp: list_all_iff)
qed

definition ex_geometry :: flash_geometry where
  "ex_geometry = \<lparr>capacity_bytes = 0x10000, page_bytes = 256, erase_bytes = 4096,
     address_mode = ThreeByte\<rparr>"

lemma ex_geometry_new: "geometry_try_new 0x10000 256 4096 ThreeByte = Inr ex_geometry"
  by (simp add: geometry_try_new_def ex_geometry_def)

lemma ex_geometry_qualified: "qualified_geometry ex_geometry"
  by (rule geometry_try_new_qualified [OF ex_geometry_new])

lemma ex_write_fits: "in_range ex_geometry 255 (length [1, 2 :: u8])"
  by (simp add: in_range_def ex_geometry_def)

theorem write_plan_exact_witness:
  "\<exists>plan chunks. for_operation ex_geometry (NorWrite 255 [1, 2]) = Some (Inr plan)
    \<and> np_commands plan = concat (map (program_commands ex_geometry) chunks)
    \<and> laid_out 256 255 chunks \<and> concat (map snd chunks) = [1, 2 :: u8]"
proof -
  from write_plan [OF ex_geometry_qualified ex_write_fits] obtain plan where
    plan: "for_operation ex_geometry (NorWrite 255 [1, 2]) = Some (Inr plan)" by auto
  from write_plan_exact [OF ex_geometry_new plan] plan show ?thesis by auto
qed

text \<open>An erase plan erases exactly the sectors of its range, each once and in order:
  a write enable, one sector erase at its address, and a wait, for every multiple of the
  sector size; nothing outside the range is addressed.\<close>

theorem erase_plan_exact:
  assumes "geometry_try_new capacity page erase mode = Inr g"
    and "for_operation g (NorErase offset len) = Some (Inr plan)"
  shows "np_commands plan = concat (map (\<lambda>i. erase_commands g (offset + of_nat (i * 4096)))
        [0..<unat len div 4096])
    \<and> 4096 dvd unat offset \<and> 4096 dvd unat len
    \<and> list_all (\<lambda>i. big_endian (address g (offset + of_nat (i * 4096))) = unat offset + i * 4096
          \<and> unat offset + i * 4096 + 4096 \<le> unat offset + unat len
          \<and> unat offset + unat len \<le> unat capacity) [0..<unat len div 4096]"
proof -
  from assms(1) have g: "qualified_geometry g" by (rule geometry_try_new_qualified)
  have capacity: "capacity_bytes g = capacity"
    using assms(1) by (auto simp: geometry_try_new_def split: if_splits)
  have fits: "operation_fits g (NorErase offset len)"
    using for_operation_fits [OF g, of "NorErase offset len"] assms(2) by (simp del: for_operation.simps operation_fits.simps)
  have sector: "big_endian (address g (offset + of_nat (i * 4096))) = unat offset + i * 4096
      \<and> i * 4096 + 4096 \<le> unat len" if "i < unat len div 4096" for i
  proof -
    have i: "i * 4096 + 4096 \<le> unat len" using that by linarith
    then have "unat offset + i * 4096 < 2 ^ 64"
      using fits unat_u64_less [of capacity] by (simp add: in_range_def capacity)
    then have at: "unat (offset + of_nat (i * 4096)) = unat offset + i * 4096"
      using checked_add_in_range [of offset "i * 4096"] by (auto simp: checked_add_def split: if_splits)
    with i fits have "unat (offset + of_nat (i * 4096)) < unat (capacity_bytes g)"
      by (simp add: in_range_def)
    from big_endian_address [OF g this] at i show ?thesis by simp
  qed
  with erase_plan [OF g fits] assms(2) fits capacity show ?thesis
    by (auto simp: list_all_iff in_range_def simp del: for_operation.simps)
qed

theorem erase_plan_exact_witness:
  "\<exists>plan. for_operation ex_geometry (NorErase 4096 8192) = Some (Inr plan)
    \<and> np_commands plan = concat (map (\<lambda>i. erase_commands ex_geometry (4096 + of_nat (i * 4096))) [0..<2])"
proof -
  have "operation_fits ex_geometry (NorErase 4096 8192)"
    by (simp add: in_range_def ex_geometry_def)
  from erase_plan [OF ex_geometry_qualified this] obtain plan where
    plan: "for_operation ex_geometry (NorErase 4096 8192) = Some (Inr plan)" by blast
  from erase_plan_exact [OF ex_geometry_new plan] plan show ?thesis by auto
qed

text \<open>Under an accepted geometry a plan never panics, and is produced exactly for the
  operations whose range, read as natural numbers, lies inside the capacity and, for an
  erase, on whole sectors: no wrap-around of an offset admits another range.\<close>

theorem plan_accepts_exactly:
  assumes "geometry_try_new capacity page erase mode = Inr g"
  shows "case for_operation g oper of
      None \<Rightarrow> False
    | Some (Inl e) \<Rightarrow> \<not> operation_fits g oper
    | Some (Inr plan) \<Rightarrow> operation_fits g oper"
  using for_operation_fits [OF geometry_try_new_qualified [OF assms]] .

theorem plan_accepts_exactly_witness:
  "case for_operation ex_geometry (NorRead (- 1) 2) of
      None \<Rightarrow> False
    | Some (Inl e) \<Rightarrow> \<not> operation_fits ex_geometry (NorRead (- 1) 2)
    | Some (Inr plan) \<Rightarrow> operation_fits ex_geometry (NorRead (- 1) 2)"
  by (rule plan_accepts_exactly [OF ex_geometry_new])

end
