(* ===== verification/Slices.thy ===== *)
theory Slices
  imports Main
begin

text \<open>
  Slices of byte vectors, for the components that replace a range in place: \<open>slice\<close> is
  \<open>xs.get(start..stop)\<close> inside the bounds, \<open>splice\<close> overwrites the elements from
  \<open>start\<close> on.
\<close>

definition slice :: "'a list \<Rightarrow> nat \<Rightarrow> nat \<Rightarrow> 'a list" where
  "slice xs start stop = take (stop - start) (drop start xs)"

definition splice :: "'a list \<Rightarrow> nat \<Rightarrow> 'a list \<Rightarrow> 'a list" where
  "splice xs start ys = take start xs @ ys @ drop (start + length ys) xs"

lemma length_slice: "stop \<le> length xs \<Longrightarrow> length (slice xs start stop) = stop - start"
  by (simp add: slice_def)

lemma splice_Nil [simp]: "splice xs start [] = xs"
  by (simp add: splice_def)

lemma length_splice [simp]: "start + length ys \<le> length xs \<Longrightarrow> length (splice xs start ys) = length xs"
  by (simp add: splice_def)

lemma slice_splice:
  "start + length ys \<le> length xs \<Longrightarrow> slice (splice xs start ys) start (start + length ys) = ys"
  by (simp add: slice_def splice_def)

lemma nth_splice_outside:
  "start + length ys \<le> length xs \<Longrightarrow> i < length xs \<Longrightarrow> i < start \<or> start + length ys \<le> i \<Longrightarrow>
     splice xs start ys ! i = xs ! i"
  by (auto simp: splice_def nth_append min_def)

lemma slice_prefix: "n \<le> m \<Longrightarrow> slice xs start (start + n) = take n (slice xs start (start + m))"
  by (simp add: slice_def min_def)

lemma nth_splice_inside:
  "start + length ys \<le> length xs \<Longrightarrow> start \<le> i \<Longrightarrow> i < start + length ys \<Longrightarrow>
     splice xs start ys ! i = ys ! (i - start)"
  by (auto simp: splice_def nth_append min_def)

end
