(* ===== verification/Simulator.thy ===== *)
theory Simulator
  imports Instruments Slices Domain
begin

text \<open>
  The disposable simulator of instruments (\<open>src/instruments/simulator.rs\<close>): relays and
  a NOR flash in memory, faults that interrupt the next effect, and a store that is replaced
  as a whole after every effect. \<open>disk\<close> is what the store file holds; each operation
  takes the outcome \<open>io\<close> of writing it, so that every failure of the file system is a
  branch. Serialising a state and reading it back is taken to give the same state.
\<close>

unbundle bit_operations_syntax

section \<open>State\<close>

datatype simulator_fault = NoFault | InterruptNextEffect | InterruptAfterBytes nat

record simulator_observation =
  ob_relay_closed :: "bool list"
  ob_flash_bytes :: nat
  ob_effect_calls :: u64
  ob_partial_effect_calls :: u64

record simulator_state =
  ss_flash :: "u8 list"
  ss_relay_closed :: "bool list"
  ss_effect_calls :: u64
  ss_partial_effect_calls :: u64
  ss_fault :: simulator_fault

datatype stored_state = Absent | Corrupt string | Stored simulator_state

record simulator =
  sim_disk :: stored_state
  sim_state :: simulator_state

type_synonym 'a sim = "simulator \<Rightarrow> (instrument_error + 'a) \<times> simulator"

section \<open>Operations\<close>

definition persist :: "instrument_error + unit \<Rightarrow> unit sim" where
  "persist io s = (case io of
     Inl e \<Rightarrow> (Inl e, s)
   | Inr _ \<Rightarrow> (Inr (), s\<lparr>sim_disk := Stored (sim_state s)\<rparr>))"

definition initial_state :: "nat \<Rightarrow> simulator_state" where
  "initial_state flash_bytes = \<lparr>ss_flash = replicate flash_bytes 0xFF,
     ss_relay_closed = replicate 4 False, ss_effect_calls = 0, ss_partial_effect_calls = 0,
     ss_fault = NoFault\<rparr>"

text \<open>\<open>Simulator::open\<close> on a store: a simulator, or an error, and the store it leaves.
  \<open>prepare\<close> is the outcome of creating the directory and reading the file.\<close>

definition simulator_open ::
  "instrument_error + unit \<Rightarrow> instrument_error + unit \<Rightarrow> stored_state \<Rightarrow> nat
     \<Rightarrow> (instrument_error + simulator) \<times> stored_state" where
  "simulator_open prepare io stored flash_bytes =
     (case prepare of Inl e \<Rightarrow> (Inl e, stored) | Inr _ \<Rightarrow>
        let opened = (case stored of
              Corrupt detail \<Rightarrow> (Inl (InvalidSimulatorStore detail), stored)
            | Stored state \<Rightarrow> (Inr state, stored)
            | Absent \<Rightarrow> (case io of
                  Inl e \<Rightarrow> (Inl e, Absent)
                | Inr _ \<Rightarrow> (Inr (initial_state flash_bytes), Stored (initial_state flash_bytes))))
        in (rbind (fst opened) (\<lambda>state.
              if length (ss_flash state) \<noteq> flash_bytes
              then Inl (InvalidSimulatorStore (''existing flash is '' @ nat_text (length (ss_flash state))
                     @ '' bytes, requested '' @ nat_text flash_bytes))
              else Inr \<lparr>sim_disk = snd opened, sim_state = state\<rparr>), snd opened))"

definition sim_observe :: "simulator \<Rightarrow> simulator_observation" where
  "sim_observe s = \<lparr>ob_relay_closed = ss_relay_closed (sim_state s),
     ob_flash_bytes = length (ss_flash (sim_state s)),
     ob_effect_calls = ss_effect_calls (sim_state s),
     ob_partial_effect_calls = ss_partial_effect_calls (sim_state s)\<rparr>"

definition inject_fault :: "instrument_error + unit \<Rightarrow> simulator_fault \<Rightarrow> unit sim" where
  "inject_fault io f s = persist io (s\<lparr>sim_state := (sim_state s)\<lparr>ss_fault := f\<rparr>\<rparr>)"

text \<open>The bookkeeping of an effect: count it and take the fault; then an interruption
  is counted, persisted and reported.\<close>

definition begin_effect :: "simulator \<Rightarrow> simulator_fault \<times> simulator" where
  "begin_effect s = (ss_fault (sim_state s),
     s\<lparr>sim_state := (sim_state s)
       \<lparr>ss_effect_calls := saturating_add (ss_effect_calls (sim_state s)) 1, ss_fault := NoFault\<rparr>\<rparr>)"

definition count_partial :: "simulator \<Rightarrow> simulator" where
  "count_partial s = s\<lparr>sim_state := (sim_state s)
     \<lparr>ss_partial_effect_calls := saturating_add (ss_partial_effect_calls (sim_state s)) 1\<rparr>\<rparr>"

definition interrupted :: "instrument_error + unit \<Rightarrow> string \<Rightarrow> unit sim" where
  "interrupted io detail s =
     (case persist io s of (Inl e, s') \<Rightarrow> (Inl e, s') | (Inr _, s') \<Rightarrow> (Inl (DeviceRejected detail), s'))"

definition set_flash :: "u8 list \<Rightarrow> simulator \<Rightarrow> simulator" where
  "set_flash cells s = s\<lparr>sim_state := (sim_state s)\<lparr>ss_flash := cells\<rparr>\<rparr>"

definition set_relay :: "instrument_error + unit \<Rightarrow> nat \<Rightarrow> bool \<Rightarrow> unit sim" where
  "set_relay io relay closed s =
     (if length (ss_relay_closed (sim_state s)) \<le> relay
      then (Inl (InvalidRelayResponse (''relay index '' @ nat_text relay @ '' outside 0..4'')), s)
      else
        let (taken, s1) = begin_effect s in
        if taken = InterruptNextEffect
        then interrupted io ''simulated interruption before relay actuation'' (count_partial s1)
        else persist io (s1\<lparr>sim_state := (sim_state s1)
               \<lparr>ss_relay_closed := (ss_relay_closed (sim_state s1))[relay := closed]\<rparr>\<rparr>))"

definition flash_range :: "simulator \<Rightarrow> nat \<Rightarrow> nat \<Rightarrow> instrument_error + (nat \<times> nat)" where
  "flash_range s offset len =
     (if usize_bound \<le> offset + len then Inl (ProtocolLimit len (length (ss_flash (sim_state s))))
      else if length (ss_flash (sim_state s)) < offset + len
      then Inl (ProtocolLimit (offset + len) (length (ss_flash (sim_state s))))
      else Inr (offset, offset + len))"

definition read_flash :: "simulator \<Rightarrow> nat \<Rightarrow> nat \<Rightarrow> instrument_error + u8 list" where
  "read_flash s offset len =
     rbind (flash_range s offset len) (\<lambda>(start, stop). Inr (slice (ss_flash (sim_state s)) start stop))"

definition erase_flash :: "instrument_error + unit \<Rightarrow> nat \<Rightarrow> nat \<Rightarrow> unit sim" where
  "erase_flash io offset len s =
     (case flash_range s offset len of
        Inl e \<Rightarrow> (Inl e, s)
      | Inr (start, stop) \<Rightarrow>
          let (taken, s1) = begin_effect s; cells = ss_flash (sim_state s1) in
          if taken \<noteq> NoFault
          then interrupted io ''simulated interrupted erase''
                 (set_flash (splice cells start (replicate ((stop - start) div 2) 0xFF)) (count_partial s1))
          else persist io (set_flash (splice cells start (replicate (stop - start) 0xFF)) s1))"

definition program_nor :: "u8 list \<Rightarrow> u8 list \<Rightarrow> u8 list" where
  "program_nor destination source =
     map (\<lambda>(stored, requested). stored AND requested) (zip destination source)
       @ drop (length source) destination"

definition write_flash :: "instrument_error + unit \<Rightarrow> nat \<Rightarrow> u8 list \<Rightarrow> unit sim" where
  "write_flash io offset bytes s =
     (case flash_range s offset (length bytes) of
        Inl e \<Rightarrow> (Inl e, s)
      | Inr (start, stop) \<Rightarrow>
          if list_ex (\<lambda>(existing, requested). requested AND NOT existing \<noteq> 0)
               (zip (slice (ss_flash (sim_state s)) start stop) bytes)
          then (Inl (DeviceRejected (''NOR write would change a programmed bit from zero '' @
                  ''to one; erase first'')), s)
          else
            let (taken, s1) = begin_effect s; cells = ss_flash (sim_state s1) in
            (case taken of
               NoFault \<Rightarrow>
                 persist io (set_flash (splice cells start (program_nor (slice cells start stop) bytes)) s1)
             | InterruptNextEffect \<Rightarrow>
                 interrupted io ''simulated interruption before flash write'' (count_partial s1)
             | InterruptAfterBytes permitted \<Rightarrow>
                 let count = min permitted (length bytes) in
                 interrupted io (''simulated interruption after '' @ nat_text count @ '' bytes'')
                   (set_flash (splice cells start
                      (program_nor (slice cells start (start + count)) (take count bytes)))
                      (count_partial s1))))"

section \<open>NOR cells\<close>

lemma cell_programmed: "(requested :: u8) AND NOT existing = 0 \<Longrightarrow> existing AND requested = requested"
  by (auto simp: bit_eq_iff bit_and_iff bit_not_iff)

lemma program_nor_programmed:
  assumes "length destination = length source"
    and "\<not> list_ex (\<lambda>(existing, requested). requested AND NOT existing \<noteq> 0) (zip destination source)"
  shows "program_nor destination source = source"
  using assms
  by (induction destination source rule: list_induct2) (auto simp: program_nor_def cell_programmed)

section \<open>Effects\<close>

lemma persist_state [simp]: "sim_state (snd (persist io s)) = sim_state s"
  by (simp add: persist_def split: sum.split)

lemma persist_cases:
  "persist io s = (r, s') \<Longrightarrow> sim_state s' = sim_state s
    \<and> (case io of Inl e \<Rightarrow> r = Inl e \<and> sim_disk s' = sim_disk s
       | Inr _ \<Rightarrow> r = Inr () \<and> sim_disk s' = Stored (sim_state s))"
  by (auto simp: persist_def split: sum.splits)

lemma interrupted_cases:
  "interrupted io detail s = (r, s') \<Longrightarrow> sim_state s' = sim_state s \<and> r \<noteq> Inr ()
    \<and> (case io of Inl e \<Rightarrow> r = Inl e \<and> sim_disk s' = sim_disk s
       | Inr _ \<Rightarrow> r = Inl (DeviceRejected detail) \<and> sim_disk s' = Stored (sim_state s))"
  by (auto simp: persist_def interrupted_def split: sum.splits)

lemma effect_simps [simp]:
  "fst (begin_effect s) = ss_fault (sim_state s)"
  "ss_flash (sim_state (snd (begin_effect s))) = ss_flash (sim_state s)"
  "ss_flash (sim_state (count_partial s)) = ss_flash (sim_state s)"
  "ss_flash (sim_state (set_flash cells s)) = cells"
  "sim_disk (snd (begin_effect s)) = sim_disk s" "sim_disk (count_partial s) = sim_disk s"
  "sim_disk (set_flash cells s) = sim_disk s"
  by (simp_all add: begin_effect_def count_partial_def set_flash_def)

lemma begin_effect_cases:
  obtains s1 where "begin_effect s = (ss_fault (sim_state s), s1)"
    "ss_flash (sim_state s1) = ss_flash (sim_state s)"
  using effect_simps(1,2) [of s] by (metis prod.collapse)

lemma flash_range_InrD:
  "flash_range s offset len = Inr rg \<Longrightarrow>
     rg = (offset, offset + len) \<and> offset + len \<le> length (ss_flash (sim_state s))
     \<and> offset + len < usize_bound"
  by (auto simp: flash_range_def split: if_splits)

lemma write_flash_prefix:
  assumes "write_flash io offset bytes s = (r, s')"
  shows "\<exists>n\<le>length bytes. ss_flash (sim_state s') = splice (ss_flash (sim_state s)) offset (take n bytes)
    \<and> (r = Inr () \<longrightarrow> n = length bytes \<and> offset + length bytes \<le> length (ss_flash (sim_state s))
         \<and> offset + length bytes < usize_bound)"
proof (cases "flash_range s offset (length bytes)")
  case (Inl e)
  with assms show ?thesis by (intro exI [of _ 0]) (auto simp: write_flash_def)
next
  case (Inr rg)
  then have range: "rg = (offset, offset + length bytes)"
    "offset + length bytes \<le> length (ss_flash (sim_state s))" "offset + length bytes < usize_bound"
    using flash_range_InrD by auto
  let ?cells = "ss_flash (sim_state s)"
  let ?clash = "list_ex (\<lambda>(existing, requested). requested AND NOT existing \<noteq> 0)"
  let ?old = "slice ?cells offset (offset + length bytes)"
  have len: "length ?old = length bytes" using range(2) by (simp add: length_slice)
  show ?thesis
  proof (cases "?clash (zip ?old bytes)")
    case True
    with assms Inr range(1) show ?thesis by (intro exI [of _ 0]) (auto simp: write_flash_def)
  next
    case False
    have programmed: "program_nor (slice ?cells offset (offset + n)) (take n bytes) = take n bytes"
      if "n \<le> length bytes" for n
    proof -
      have "slice ?cells offset (offset + n) = take n ?old" using that by (rule slice_prefix)
      moreover have "program_nor (take n ?old) (take n bytes) = take n bytes"
        using False len that
        by (intro program_nor_programmed) (auto simp: list_ex_iff take_zip [symmetric] dest: in_set_takeD)
      ultimately show ?thesis by simp
    qed
    obtain s1 where s1: "begin_effect s = (ss_fault (sim_state s), s1)" "ss_flash (sim_state s1) = ?cells"
      by (rule begin_effect_cases)
    show ?thesis
    proof (cases "ss_fault (sim_state s)")
      case NoFault
      with assms Inr range False s1 programmed [of "length bytes"] show ?thesis
        by (intro exI [of _ "length bytes"]) (auto simp: write_flash_def dest: persist_cases)
    next
      case InterruptNextEffect
      with assms Inr range False s1 show ?thesis
        by (intro exI [of _ 0]) (auto simp: write_flash_def dest!: interrupted_cases)
    next
      case (InterruptAfterBytes permitted)
      with assms Inr range False s1 programmed [of "min permitted (length bytes)"] show ?thesis
        by (intro exI [of _ "min permitted (length bytes)"])
          (auto simp: write_flash_def Let_def dest!: interrupted_cases)
    qed
  qed
qed

lemma read_flash_spliced:
  assumes "ss_flash (sim_state s') = splice cells offset bytes"
    and "offset + length bytes \<le> length cells" "offset + length bytes < usize_bound"
  shows "read_flash s' offset (length bytes) = Inr bytes"
  using assms by (simp add: read_flash_def flash_range_def slice_splice)

lemma erase_flash_prefix:
  assumes "erase_flash io offset len s = (r, s')"
  shows "\<exists>n\<le>len. ss_flash (sim_state s') = splice (ss_flash (sim_state s)) offset (replicate n 0xFF)
    \<and> (r = Inr () \<longrightarrow> n = len \<and> offset + len \<le> length (ss_flash (sim_state s))
         \<and> offset + len < usize_bound)"
proof (cases "flash_range s offset len")
  case (Inl e)
  with assms show ?thesis by (intro exI [of _ 0]) (auto simp: erase_flash_def)
next
  case (Inr rg)
  then have range: "rg = (offset, offset + len)" "offset + len \<le> length (ss_flash (sim_state s))"
    "offset + len < usize_bound"
    using flash_range_InrD by auto
  obtain s1 where s1: "begin_effect s = (ss_fault (sim_state s), s1)"
    "ss_flash (sim_state s1) = ss_flash (sim_state s)"
    by (rule begin_effect_cases)
  show ?thesis
  proof (cases "ss_fault (sim_state s) = NoFault")
    case True
    with assms Inr range s1 show ?thesis
      by (intro exI [of _ len]) (auto simp: erase_flash_def dest!: persist_cases)
  next
    case False
    with assms Inr range s1 show ?thesis
      by (intro exI [of _ "len div 2"]) (auto simp: erase_flash_def dest!: interrupted_cases)
  qed
qed

section \<open>Restart\<close>

datatype simulator_op =
    OpFault simulator_fault
  | OpRelay nat bool
  | OpErase nat nat
  | OpWrite nat "u8 list"

fun apply_op :: "instrument_error + unit \<Rightarrow> simulator_op \<Rightarrow> unit sim" where
  "apply_op io (OpFault f) = inject_fault io f"
| "apply_op io (OpRelay relay closed) = set_relay io relay closed"
| "apply_op io (OpErase offset len) = erase_flash io offset len"
| "apply_op io (OpWrite offset bytes) = write_flash io offset bytes"

definition durable :: "nat \<Rightarrow> simulator \<Rightarrow> bool" where
  "durable flash_bytes s \<longleftrightarrow>
     sim_disk s = Stored (sim_state s) \<and> length (ss_flash (sim_state s)) = flash_bytes"

lemma length_program_nor: "length (program_nor destination source) = length destination"
  by (simp add: program_nor_def)

lemma durable_write:
  assumes "durable n s" "write_flash (Inr ()) offset bytes s = (r, s')"
  shows "durable n s'"
proof (cases "flash_range s offset (length bytes)")
  case (Inr rg)
  then have rg: "rg = (offset, offset + length bytes)"
    "offset + length bytes \<le> length (ss_flash (sim_state s))" "offset + length bytes < usize_bound"
    using flash_range_InrD by auto
  obtain s1 where s1: "begin_effect s = (ss_fault (sim_state s), s1)"
    "ss_flash (sim_state s1) = ss_flash (sim_state s)"
    by (rule begin_effect_cases)
  from assms Inr rg s1 show ?thesis
    by (cases "ss_fault (sim_state s)")
      (auto simp: write_flash_def Let_def durable_def length_program_nor length_slice
        split: if_splits dest!: persist_cases interrupted_cases)
qed (use assms in \<open>simp add: write_flash_def\<close>)

lemma durable_erase:
  assumes "durable n s" "erase_flash (Inr ()) offset len s = (r, s')"
  shows "durable n s'"
proof (cases "flash_range s offset len")
  case (Inr rg)
  then have rg: "rg = (offset, offset + len)" "offset + len \<le> length (ss_flash (sim_state s))"
    "offset + len < usize_bound"
    using flash_range_InrD by auto
  obtain s1 where s1: "begin_effect s = (ss_fault (sim_state s), s1)"
    "ss_flash (sim_state s1) = ss_flash (sim_state s)"
    by (rule begin_effect_cases)
  from assms Inr rg s1 show ?thesis
    by (auto simp: erase_flash_def Let_def durable_def split: if_splits
        dest!: persist_cases interrupted_cases)
qed (use assms in \<open>simp add: erase_flash_def\<close>)

lemma durable_relay:
  assumes "durable n s" "set_relay (Inr ()) relay closed s = (r, s')"
  shows "durable n s'"
proof -
  obtain s1 where s1: "begin_effect s = (ss_fault (sim_state s), s1)"
    "ss_flash (sim_state s1) = ss_flash (sim_state s)"
    by (rule begin_effect_cases)
  with assms show ?thesis
    by (auto simp: set_relay_def durable_def split: if_splits dest!: persist_cases interrupted_cases)
qed

lemma durable_fault:
  assumes "durable n s" "inject_fault (Inr ()) f s = (r, s')"
  shows "durable n s'"
  using assms by (auto simp: inject_fault_def durable_def dest!: persist_cases)

lemma durable_step:
  assumes "durable n s"
  shows "durable n (snd (apply_op (Inr ()) oper s))"
  using assms durable_write durable_erase durable_relay durable_fault
  by (cases oper) (metis apply_op.simps prod.collapse)+

text \<open>What an operation does when its state cannot be written: it fails, and the file is as it was.\<close>

lemma unwritten:
  assumes "apply_op (Inl e) oper s = (r, s')"
  shows "r \<noteq> Inr () \<and> sim_disk s' = sim_disk s"
  using assms
  by (cases oper) (auto simp: inject_fault_def set_relay_def erase_flash_def write_flash_def Let_def
      begin_effect_def count_partial_def set_flash_def
      dest!: persist_cases interrupted_cases split: if_splits sum.splits simulator_fault.splits)

text \<open>A run of a device that is used in sessions: an event is a use, or the session ends by itself.
  A use that fails ends the session too. Every end is followed by an opening, which may fail
  and then the run stops. The runs of such a device are those of the ideal device that has no
  sessions when every use leaves what the ideal device leaves, in memory when it succeeds and in the
  file when it fails.\<close>

datatype ('u, 'p) session_event = Used 'u 'p | Reopened 'p

fun session_run ::
  "('u \<Rightarrow> 's \<Rightarrow> bool \<times> 's) \<Rightarrow> ('p \<Rightarrow> 's \<Rightarrow> 's option) \<Rightarrow> ('u, 'p) session_event list \<Rightarrow> 's \<Rightarrow> 's option" where
  "session_run operate reopen [] s = Some s"
| "session_run operate reopen (Used u p # events) s =
     (case operate u s of
        (True, s') \<Rightarrow> session_run operate reopen events s'
      | (False, s') \<Rightarrow>
          (case reopen p s' of None \<Rightarrow> None | Some t \<Rightarrow> session_run operate reopen events t))"
| "session_run operate reopen (Reopened p # events) s =
     (case reopen p s of None \<Rightarrow> None | Some t \<Rightarrow> session_run operate reopen events t)"

fun ideal_run :: "('u \<Rightarrow> 's \<Rightarrow> 's) \<Rightarrow> ('u, 'p) session_event list \<Rightarrow> 's \<Rightarrow> 's" where
  "ideal_run ideal [] s = s"
| "ideal_run ideal (Used u p # events) s = ideal_run ideal events (ideal u s)"
| "ideal_run ideal (Reopened p # events) s = ideal_run ideal events s"

fun opened_by :: "('u, 'p) session_event \<Rightarrow> 'p" where
  "opened_by (Used u p) = p"
| "opened_by (Reopened p) = p"

locale restartable =
  fixes operate :: "'u \<Rightarrow> 's \<Rightarrow> bool \<times> 's" and reopen :: "'p \<Rightarrow> 's \<Rightarrow> 's option"
    and ideal :: "'u \<Rightarrow> 's \<Rightarrow> 's" and safe :: "'s \<Rightarrow> bool" and readable :: "'p \<Rightarrow> bool"
  assumes goes_on: "safe s \<Longrightarrow> operate u s = (True, s') \<Longrightarrow> s' = ideal u s"
    and ends: "safe s \<Longrightarrow> operate u s = (False, s') \<Longrightarrow>
      reopen p s' = (if readable p then Some (ideal u s) else None)"
    and ideal_safe: "safe s \<Longrightarrow> safe (ideal u s)"
    and reopens: "safe s \<Longrightarrow> reopen p s = (if readable p then Some s else None)"
begin

lemma sessions_invisible:
  "safe s \<Longrightarrow> (case session_run operate reopen events s of
     Some t \<Rightarrow> t = ideal_run ideal events s
   | None \<Rightarrow> \<exists>event\<in>set events. \<not> readable (opened_by event))"
proof (induction events arbitrary: s)
  case (Cons event events)
  show ?case
  proof (cases event)
    case (Used u p)
    obtain ok s' where used: "operate u s = (ok, s')" by fastforce
    then show ?thesis
      using Cons.IH [OF ideal_safe [OF Cons.prems], of u] goes_on [OF Cons.prems, of u s']
        ends [OF Cons.prems, of u s' p] Used
      by (cases ok) (auto split: option.splits if_splits)
  next
    case (Reopened p)
    with Cons.IH [OF Cons.prems] reopens [OF Cons.prems, of p] show ?thesis
      by (auto split: option.splits if_splits)
  qed
qed simp

end

text \<open>A use of the simulator: an operation and the outcome of writing its state. The ideal device
  performs the operations whose state can be written, and no other.\<close>

type_synonym simulator_use = "simulator_op \<times> (instrument_error + unit)"

definition use_simulator :: "simulator_use \<Rightarrow> simulator \<Rightarrow> bool \<times> simulator" where
  "use_simulator u s = (case u of (oper, io) \<Rightarrow>
     case apply_op io oper s of (Inr _, s') \<Rightarrow> (True, s') | (Inl _, s') \<Rightarrow> (False, s'))"

definition ideal_simulator :: "simulator_use \<Rightarrow> simulator \<Rightarrow> simulator" where
  "ideal_simulator u s = (case u of (oper, io) \<Rightarrow>
     case io of Inr _ \<Rightarrow> snd (apply_op (Inr ()) oper s) | Inl _ \<Rightarrow> s)"

definition reopen_simulator :: "nat \<Rightarrow> instrument_error + unit \<Rightarrow> simulator \<Rightarrow> simulator option" where
  "reopen_simulator flash_bytes prepare s =
     (case fst (simulator_open prepare (Inr ()) (sim_disk s) flash_bytes) of
        Inl _ \<Rightarrow> None | Inr s' \<Rightarrow> Some s')"

lemma reopen_durable:
  assumes "durable n s" "sim_disk t = sim_disk s"
  shows "reopen_simulator n prepare t = (if prepare = Inr () then Some s else None)"
  using assms by (auto simp: reopen_simulator_def simulator_open_def durable_def split: sum.split)

interpretation device: restartable use_simulator "reopen_simulator n" ideal_simulator "durable n"
    "\<lambda>prepare. prepare = Inr ()" for n
proof unfold_locales
  fix s s' and u :: simulator_use and p
  obtain oper io where u: "u = (oper, io)" by (cases u)
  assume s: "durable n s"
  show "s' = ideal_simulator u s" if "use_simulator u s = (True, s')"
    using that unwritten [of _ oper s]
    by (cases io) (force simp: u use_simulator_def ideal_simulator_def split: sum.splits prod.splits)+
  show "reopen_simulator n p s' = (if p = Inr () then Some (ideal_simulator u s) else None)"
    if "use_simulator u s = (False, s')"
  proof (cases io)
    case (Inl e)
    obtain r t where ran: "apply_op (Inl e) oper s = (r, t)" by fastforce
    with that Inl have "t = s'" by (auto simp: u use_simulator_def split: sum.splits)
    with unwritten [OF ran] have "sim_disk s' = sim_disk s" by simp
    from reopen_durable [OF s this] show ?thesis by (simp add: u Inl ideal_simulator_def)
  next
    case (Inr x)
    obtain r t where ran: "apply_op (Inr ()) oper s = (r, t)" by fastforce
    with that Inr have "t = s'" by (auto simp: u use_simulator_def split: sum.splits)
    with ran durable_step [OF s, of oper] have "durable n s'" by simp
    from reopen_durable [OF this refl] ran \<open>t = s'\<close> show ?thesis by (simp add: u Inr ideal_simulator_def)
  qed
  show "durable n (ideal_simulator u s)"
    using s durable_step [OF s, of oper] by (auto simp: u ideal_simulator_def split: sum.split)
  show "reopen_simulator n p s = (if p = Inr () then Some s else None)"
    using reopen_durable [OF s refl] .
qed

lemma opened_durable:
  assumes "fst (simulator_open prepare io stored n) = Inr s"
  shows "durable n s"
  using assms
  by (auto simp: simulator_open_def durable_def Let_def initial_state_def
      split: sum.splits stored_state.splits if_splits)

section \<open>Properties\<close>

text \<open>C23: An effect on the flash is a prefix of what was asked, whatever the armed fault
  and the file system do: a write leaves the first bytes of the request at the offset and
  every other cell as it was, an erase leaves erased cells from the offset on; and it
  reports success only when all of it was applied inside the flash. A successful write
  therefore reads back as it was written.\<close>

theorem flash_effect_prefix:
  "(case write_flash io offset bytes s of (r, s') \<Rightarrow>
      \<exists>n\<le>length bytes. ss_flash (sim_state s') = splice (ss_flash (sim_state s)) offset (take n bytes)
        \<and> (r = Inr () \<longrightarrow> n = length bytes \<and> read_flash s' offset (length bytes) = Inr bytes))
   \<and> (case erase_flash io offset len s of (r, s') \<Rightarrow>
      \<exists>n\<le>len. ss_flash (sim_state s') = splice (ss_flash (sim_state s)) offset (replicate n 0xFF)
        \<and> (r = Inr () \<longrightarrow> n = len \<and> read_flash s' offset len = Inr (replicate len 0xFF)))"
proof (intro conjI)
  obtain r s' where w: "write_flash io offset bytes s = (r, s')" by (cases "write_flash io offset bytes s")
  from write_flash_prefix [OF w] w show "case write_flash io offset bytes s of (r, s') \<Rightarrow>
      \<exists>n\<le>length bytes. ss_flash (sim_state s') = splice (ss_flash (sim_state s)) offset (take n bytes)
        \<and> (r = Inr () \<longrightarrow> n = length bytes \<and> read_flash s' offset (length bytes) = Inr bytes)"
    by (auto simp: read_flash_spliced)
next
  obtain r s' where e: "erase_flash io offset len s = (r, s')" by (cases "erase_flash io offset len s")
  from erase_flash_prefix [OF e] e show "case erase_flash io offset len s of (r, s') \<Rightarrow>
      \<exists>n\<le>len. ss_flash (sim_state s') = splice (ss_flash (sim_state s)) offset (replicate n 0xFF)
        \<and> (r = Inr () \<longrightarrow> n = len \<and> read_flash s' offset len = Inr (replicate len 0xFF))"
    using read_flash_spliced [of s' "ss_flash (sim_state s)" offset "replicate len 0xFF"] by auto
qed

definition ex_simulator :: simulator where
  "ex_simulator = \<lparr>sim_disk = Stored (initial_state 4), sim_state = initial_state 4\<rparr>"

lemma replicate_4: "replicate 4 x = [x, x, x, x]"
  by (simp add: numeral_eq_Suc)

theorem flash_effect_prefix_witness:
  "fst (write_flash (Inr ()) 1 [0x0F, 0xF0] ex_simulator) = Inr ()
   \<and> read_flash (snd (write_flash (Inr ()) 1 [0x0F, 0xF0] ex_simulator)) 1 2 = Inr [0x0F, 0xF0]"
proof -
  have "fst (write_flash (Inr ()) 1 [0x0F, 0xF0] ex_simulator) = Inr ()"
    by (simp add: write_flash_def flash_range_def ex_simulator_def initial_state_def begin_effect_def
        slice_def persist_def replicate_4 Let_def)
  with flash_effect_prefix [where io = "Inr ()" and offset = 1 and bytes = "[0x0F, 0xF0]"
      and s = ex_simulator and len = 0] show ?thesis
    by (cases "write_flash (Inr ()) 1 [0x0F, 0xF0] ex_simulator") (auto simp: numeral_2_eq_2)
qed

text \<open>C24: The simulator survives restarts and failing writes of its file: from any successful
  opening, let it be stopped and opened again at arbitrary points, and opened again after every
  operation that reported an error, as the backend does. Then the run is that of a device
  that is never stopped and that performs exactly the operations whose state could be written,
  armed faults and interrupted effects included; an operation whose state could not be written, or in
  which the process was stopped before the file was replaced, leaves no trace. The run
  only stops short where the directory or the file could not be read. A file that was
  written is taken to be read back as the state that was written.\<close>

theorem simulator_restart_invisible:
  assumes "fst (simulator_open prepare io stored n) = Inr s"
  shows "case session_run use_simulator (reopen_simulator n) events s of
      Some t \<Rightarrow> t = ideal_run ideal_simulator events s
    | None \<Rightarrow> \<exists>event\<in>set events. opened_by event \<noteq> Inr ()"
  by (rule device.sessions_invisible [OF opened_durable [OF assms]])

text \<open>A write is interrupted, the next cannot be written, a third succeeds.\<close>

theorem simulator_restart_invisible_witness:
  "\<exists>t. session_run use_simulator (reopen_simulator 4)
      [Used (OpFault (InterruptAfterBytes 1), Inr ()) (Inr ()), Reopened (Inr ()),
       Used (OpWrite 0 [1, 2], Inr ()) (Inr ()), Used (OpWrite 1 [3], Inl (InstrumentIo ''replacing'' ''full'')) (Inr ()),
       Used (OpWrite 1 [7], Inr ()) (Inr ())] ex_simulator = Some t
     \<and> ss_flash (sim_state t) = [1, 7, 0xFF, 0xFF]"
proof -
  let ?events = "[Used (OpFault (InterruptAfterBytes 1), Inr ()) (Inr ()), Reopened (Inr ()),
    Used (OpWrite 0 [1, 2], Inr ()) (Inr ()), Used (OpWrite 1 [3], Inl (InstrumentIo ''replacing'' ''full'')) (Inr ()),
    Used (OpWrite 1 [7], Inr ()) (Inr ())]"
  have "fst (simulator_open (Inr ()) (Inr ()) Absent 4) = Inr ex_simulator"
    by (simp add: simulator_open_def ex_simulator_def initial_state_def)
  from simulator_restart_invisible [OF this, of ?events] obtain t where
    run: "session_run use_simulator (reopen_simulator 4) ?events ex_simulator = Some t"
    and t: "t = ideal_run ideal_simulator ?events ex_simulator"
    by (cases "session_run use_simulator (reopen_simulator 4) ?events ex_simulator") auto
  have "ss_flash (sim_state (ideal_run ideal_simulator ?events ex_simulator)) = [1, 7, 0xFF, 0xFF]"
    by (simp add: ideal_simulator_def inject_fault_def write_flash_def flash_range_def ex_simulator_def
        initial_state_def begin_effect_def count_partial_def set_flash_def interrupted_def slice_def splice_def
        program_nor_def persist_def replicate_4 Let_def)
  with run t show ?thesis by blast
qed

end
