(* ===== verification/Firmware.thy ===== *)
theory Firmware
  imports Slices Domain_Base "HOL-Library.Multiset"
begin

text \<open>
  Offline firmware images (\<open>src/firmware.rs\<close>): digests and byte ranges with their
  validating constructors, the inspection and comparison reports with their bounds, and the
  composition of a candidate from an original and patches. The digest of a byte vector, in
  hexadecimal, is the parameter \<open>sha\<close> (the sha2 and hex crates). \<open>None\<close> of a
  composition is a panic of \<open>copy_from_slice\<close> on slices of different lengths; the
  properties show that validation excludes it.
\<close>

section \<open>Digests and ranges\<close>

abbreviation MAX_REPORTED_DIFF_RANGES :: nat where "MAX_REPORTED_DIFF_RANGES \<equiv> 4096"
abbreviation IDENTIFICATION_STRING_LIMIT :: nat where "IDENTIFICATION_STRING_LIMIT \<equiv> 256"
abbreviation MINIMUM_IDENTIFICATION_STRING_BYTES :: nat where
  "MINIMUM_IDENTIFICATION_STRING_BYTES \<equiv> 4"
abbreviation REPEATED_CHUNK_BYTES :: nat where "REPEATED_CHUNK_BYTES \<equiv> 4096"

datatype sha256_digest = Sha256Digest string

record byte_range =
  start_byte :: u64
  end_byte_exclusive :: u64

record image_patch =
  patch_range :: byte_range
  replacement :: "u8 list"

datatype firmware_error =
    InvalidRange u64 u64
  | InvalidSha256Digest
  | ImageLengthTooLarge
  | InvalidDiffRangeLimit
  | ImageLengthMismatch u64 u64
  | CandidateBaseDigestMismatch sha256_digest sha256_digest
  | RangeOutOfBounds string byte_range u64
  | PatchLengthMismatch nat nat u64
  | OverlappingPatches nat nat
  | PatchTouchesProtectedRange nat byte_range

definition sha256_try_from :: "string \<Rightarrow> firmware_error + sha256_digest" where
  "sha256_try_from value =
     (if length value = 32 * 2 \<and> list_all is_lower_hex value then Inr (Sha256Digest value)
      else Inl InvalidSha256Digest)"

definition byte_range_new :: "u64 \<Rightarrow> u64 \<Rightarrow> firmware_error + byte_range" where
  "byte_range_new start stop =
     (if start < stop then Inr \<lparr>start_byte = start, end_byte_exclusive = stop\<rparr>
      else Inl (InvalidRange start stop))"

definition byte_len :: "byte_range \<Rightarrow> u64" where
  "byte_len r = end_byte_exclusive r - start_byte r"

definition overlaps :: "byte_range \<Rightarrow> byte_range \<Rightarrow> bool" where
  "overlaps a b \<longleftrightarrow> start_byte a < end_byte_exclusive b \<and> start_byte b < end_byte_exclusive a"

definition sha256_digest :: "(u8 list \<Rightarrow> string) \<Rightarrow> u8 list \<Rightarrow> sha256_digest" where
  "sha256_digest sha bytes = Sha256Digest (sha bytes)"

text \<open>\<open>u64::try_from\<close> of a length.\<close>

definition to_u64 :: "nat \<Rightarrow> firmware_error + u64" where
  "to_u64 n = (if n < 2 ^ 64 then Inr (of_nat n) else Inl ImageLengthTooLarge)"

definition image_size :: "u8 list \<Rightarrow> firmware_error + u64" where
  "image_size bytes = to_u64 (length bytes)"

section \<open>Inspection\<close>

record repeated_chunk_evidence =
  chunk_size_bytes :: u64
  complete_chunk_count :: u64
  repeated_chunk_count :: u64

record identification_string_evidence =
  is_start_byte :: u64
  is_text :: string

record image_inspection =
  size_bytes :: u64
  sha256 :: sha256_digest
  uniform_byte :: "u8 option"
  repeated_chunks :: "repeated_chunk_evidence option"
  id_strings :: "identification_string_evidence list"
  id_strings_truncated :: bool

function chunks_exact :: "nat \<Rightarrow> 'a list \<Rightarrow> 'a list list" where
  "chunks_exact n xs =
     (if n = 0 \<or> length xs < n then [] else take n xs # chunks_exact n (drop n xs))"
  by pat_completeness auto
termination
  by (relation "measure (\<lambda>(_, xs). length xs)") auto

declare chunks_exact.simps [simp del]

fun count_repeats :: "'a set \<Rightarrow> 'a list \<Rightarrow> nat" where
  "count_repeats seen [] = 0"
| "count_repeats seen (chunk # rest) =
     (if chunk \<in> seen then Suc (count_repeats seen rest)
      else count_repeats (insert chunk seen) rest)"

definition find_repeated_chunks :: "u8 list \<Rightarrow> firmware_error + repeated_chunk_evidence option" where
  "find_repeated_chunks bytes =
     (let complete = length bytes div REPEATED_CHUNK_BYTES;
          repeated = count_repeats {} (chunks_exact REPEATED_CHUNK_BYTES bytes) in
      if repeated = 0 then Inr None
      else rbind (to_u64 REPEATED_CHUNK_BYTES) (\<lambda>chunk_size.
           rbind (to_u64 complete) (\<lambda>complete_count.
           rbind (to_u64 repeated) (\<lambda>repeated_count.
             Inr (Some \<lparr>chunk_size_bytes = chunk_size, complete_chunk_count = complete_count,
                        repeated_chunk_count = repeated_count\<rparr>)))))"

definition printable :: "u8 \<Rightarrow> bool" where
  "printable byte \<longleftrightarrow> (33 \<le> byte \<and> byte \<le> 126) \<or> byte = 32"

definition record_identification_string ::
  "u8 list \<Rightarrow> nat \<Rightarrow> nat \<Rightarrow> identification_string_evidence list \<times> bool
     \<Rightarrow> firmware_error + identification_string_evidence list \<times> bool" where
  "record_identification_string bytes start stop found =
     (case found of (evidence, truncated) \<Rightarrow>
        if stop - start < MINIMUM_IDENTIFICATION_STRING_BYTES then Inr (evidence, truncated)
        else if length evidence = IDENTIFICATION_STRING_LIMIT then Inr (evidence, True)
        else rbind (to_u64 start) (\<lambda>at.
          Inr (evidence @ [\<lparr>is_start_byte = at,
                 is_text = map (\<lambda>byte. char_of (unat byte)) (take (stop - start) (drop start bytes))\<rparr>],
               truncated)))"

fun identification_loop ::
  "u8 list \<Rightarrow> nat \<Rightarrow> u8 list \<Rightarrow> nat option \<Rightarrow> identification_string_evidence list \<times> bool
     \<Rightarrow> firmware_error + identification_string_evidence list \<times> bool" where
  "identification_loop bytes index [] run_start found =
     (case run_start of None \<Rightarrow> Inr found
      | Some start \<Rightarrow> record_identification_string bytes start (length bytes) found)"
| "identification_loop bytes index (byte # rest) run_start found =
     (if printable byte
      then identification_loop bytes (Suc index) rest
             (case run_start of None \<Rightarrow> Some index | Some start \<Rightarrow> Some start) found
      else (case run_start of
          None \<Rightarrow> identification_loop bytes (Suc index) rest None found
        | Some start \<Rightarrow>
            rbind (record_identification_string bytes start index found)
              (identification_loop bytes (Suc index) rest None)))"

definition identification_strings ::
  "u8 list \<Rightarrow> firmware_error + identification_string_evidence list \<times> bool" where
  "identification_strings bytes = identification_loop bytes 0 bytes None ([], False)"

definition inspect_image :: "(u8 list \<Rightarrow> string) \<Rightarrow> u8 list \<Rightarrow> firmware_error + image_inspection" where
  "inspect_image sha bytes =
     rbind (image_size bytes) (\<lambda>sz.
       let uniform = (case bytes of [] \<Rightarrow> None
             | first_byte # _ \<Rightarrow> if list_all (\<lambda>byte. byte = first_byte) bytes then Some first_byte else None) in
       rbind (find_repeated_chunks bytes) (\<lambda>chunks.
       rbind (identification_strings bytes) (\<lambda>(strings, truncated).
         Inr \<lparr>size_bytes = sz, sha256 = sha256_digest sha bytes, uniform_byte = uniform,
              repeated_chunks = chunks, id_strings = strings, id_strings_truncated = truncated\<rparr>)))"

section \<open>Comparison\<close>

record image_comparison =
  left_image :: image_inspection
  right_image :: image_inspection
  changed_bytes :: u64
  changed_range_count :: u64
  ranges_complete :: bool
  changed_ranges :: "byte_range list"

definition append_changed_range ::
  "nat \<Rightarrow> nat \<Rightarrow> nat \<Rightarrow> byte_range list \<Rightarrow> firmware_error + byte_range list" where
  "append_changed_range max_ranges start stop ranges =
     (if length ranges < max_ranges
      then rbind (to_u64 start) (\<lambda>s. rbind (to_u64 stop) (\<lambda>e.
             rbind (byte_range_new s e) (\<lambda>r. Inr (ranges @ [r]))))
      else Inr ranges)"

text \<open>The loop over the zipped images: changed bytes, closed ranges, the start of the open
  range, and the ranges retained.\<close>

fun compare_loop ::
  "nat \<Rightarrow> nat \<Rightarrow> (u8 \<times> u8) list \<Rightarrow> u64 \<Rightarrow> u64 \<Rightarrow> nat option \<Rightarrow> byte_range list
     \<Rightarrow> firmware_error + u64 \<times> u64 \<times> byte_range list" where
  "compare_loop max_ranges index [] changed runs open_start ranges =
     (case open_start of
        None \<Rightarrow> Inr (changed, runs, ranges)
      | Some start \<Rightarrow> rbind (append_changed_range max_ranges start index ranges) (\<lambda>ranges'.
          Inr (changed, runs + 1, ranges')))"
| "compare_loop max_ranges index ((left_byte, right_byte) # rest) changed runs open_start ranges =
     (if left_byte \<noteq> right_byte
      then compare_loop max_ranges (Suc index) rest (changed + 1) runs
             (case open_start of None \<Rightarrow> Some index | Some start \<Rightarrow> Some start) ranges
      else (case open_start of
          None \<Rightarrow> compare_loop max_ranges (Suc index) rest changed runs None ranges
        | Some start \<Rightarrow> rbind (append_changed_range max_ranges start index ranges) (\<lambda>ranges'.
            compare_loop max_ranges (Suc index) rest changed (runs + 1) None ranges')))"

definition compare_images ::
  "(u8 list \<Rightarrow> string) \<Rightarrow> u8 list \<Rightarrow> u8 list \<Rightarrow> nat \<Rightarrow> firmware_error + image_comparison" where
  "compare_images sha left right max_ranges =
     (if max_ranges < 1 \<or> MAX_REPORTED_DIFF_RANGES < max_ranges then Inl InvalidDiffRangeLimit
      else
        rbind (image_size left) (\<lambda>left_size. rbind (image_size right) (\<lambda>right_size.
        if left_size \<noteq> right_size then Inl (ImageLengthMismatch left_size right_size)
        else
          rbind (compare_loop max_ranges 0 (zip left right) 0 0 None []) (\<lambda>(changed, runs, ranges).
          rbind (inspect_image sha left) (\<lambda>left_report.
          rbind (inspect_image sha right) (\<lambda>right_report.
          rbind (to_u64 (length ranges)) (\<lambda>retained.
            Inr \<lparr>left_image = left_report, right_image = right_report, changed_bytes = changed,
                 changed_range_count = runs, ranges_complete = (runs = retained),
                 changed_ranges = ranges\<rparr>)))))))"

section \<open>Composition\<close>

record candidate_evidence =
  original_sha256 :: sha256_digest
  candidate_sha256 :: sha256_digest
  modified_ranges :: "byte_range list"

record candidate_image =
  candidate_bytes :: "u8 list"
  evidence :: candidate_evidence

definition validate_range_within_image :: "byte_range \<Rightarrow> u64 \<Rightarrow> string \<Rightarrow> firmware_error + unit" where
  "validate_range_within_image r sz kind =
     (if end_byte_exclusive r \<le> sz then Inr () else Inl (RangeOutOfBounds kind r sz))"

fun validate_patches ::
  "u64 \<Rightarrow> byte_range list \<Rightarrow> (nat \<times> image_patch) option \<Rightarrow> (nat \<times> image_patch) list
     \<Rightarrow> firmware_error + unit" where
  "validate_patches sz protected previous [] = Inr ()"
| "validate_patches sz protected previous ((index, patch) # rest) =
     rbind (validate_range_within_image (patch_range patch) sz ''patch'') (\<lambda>_.
     rbind (to_u64 (length (replacement patch))) (\<lambda>replacement_size.
       if replacement_size \<noteq> byte_len (patch_range patch)
       then Inl (PatchLengthMismatch index (length (replacement patch)) (byte_len (patch_range patch)))
       else rbind (case previous of
           Some (previous_index, previous_patch) \<Rightarrow>
             if overlaps (patch_range previous_patch) (patch_range patch)
             then Inl (OverlappingPatches previous_index index) else Inr ()
         | None \<Rightarrow> Inr ()) (\<lambda>_.
         case List.find (\<lambda>r. overlaps (patch_range patch) r) protected of
           Some r \<Rightarrow> Inl (PatchTouchesProtectedRange index r)
         | None \<Rightarrow> validate_patches sz protected (Some (index, patch)) rest)))"

fun apply_patches ::
  "u64 \<Rightarrow> u8 list \<Rightarrow> (nat \<times> image_patch) list \<Rightarrow> (firmware_error + u8 list) option" where
  "apply_patches sz candidate [] = Some (Inr candidate)"
| "apply_patches sz candidate ((_, patch) # rest) =
     (let start = unat (start_byte (patch_range patch));
          stop = unat (end_byte_exclusive (patch_range patch)) in
      if stop < start \<or> length candidate < stop
      then Some (Inl (RangeOutOfBounds ''patch'' (patch_range patch) sz))
      else if length (replacement patch) \<noteq> stop - start then None
      else apply_patches sz (splice candidate start (replacement patch)) rest)"

definition ordered_patches :: "image_patch list \<Rightarrow> (nat \<times> image_patch) list" where
  "ordered_patches patches =
     sort_key (\<lambda>(_, patch). start_byte (patch_range patch)) (List.enumerate 0 patches)"

definition validate_candidate ::
  "(u8 list \<Rightarrow> string) \<Rightarrow> u8 list \<Rightarrow> sha256_digest \<Rightarrow> image_patch list \<Rightarrow> byte_range list
     \<Rightarrow> firmware_error + u64" where
  "validate_candidate sha original expected patches protected =
     rbind (image_size original) (\<lambda>sz.
       let actual = sha256_digest sha original in
       if actual \<noteq> expected then Inl (CandidateBaseDigestMismatch expected actual)
       else
         rbind (for_each (\<lambda>r. validate_range_within_image r sz ''protected'') protected) (\<lambda>_.
         rbind (validate_patches sz protected None (ordered_patches patches)) (\<lambda>_. Inr sz)))"

definition build_candidate ::
  "(u8 list \<Rightarrow> string) \<Rightarrow> u8 list \<Rightarrow> sha256_digest \<Rightarrow> image_patch list \<Rightarrow> byte_range list
     \<Rightarrow> (firmware_error + candidate_image) option" where
  "build_candidate sha original expected patches protected =
     (case validate_candidate sha original expected patches protected of
        Inl e \<Rightarrow> Some (Inl e)
      | Inr sz \<Rightarrow>
          map_option (\<lambda>composed. rbind composed (\<lambda>candidate.
            Inr \<lparr>candidate_bytes = candidate,
                 evidence = \<lparr>original_sha256 = expected,
                   candidate_sha256 = sha256_digest sha candidate,
                   modified_ranges = map (\<lambda>(_, patch). patch_range patch) (ordered_patches patches)\<rparr>\<rparr>))
            (apply_patches sz original (ordered_patches patches)))"

section \<open>Patches\<close>

text \<open>Ranges are built by \<open>byte_range_new\<close> only, so they are not empty.\<close>

definition valid_range :: "byte_range \<Rightarrow> bool" where
  "valid_range r \<longleftrightarrow> byte_range_new (start_byte r) (end_byte_exclusive r) = Inr r"

definition covers :: "byte_range \<Rightarrow> nat \<Rightarrow> bool" where
  "covers r i \<longleftrightarrow> unat (start_byte r) \<le> i \<and> i < unat (end_byte_exclusive r)"

definition patch_fits :: "nat \<Rightarrow> byte_range list \<Rightarrow> image_patch \<Rightarrow> bool" where
  "patch_fits len protected patch \<longleftrightarrow>
     unat (end_byte_exclusive (patch_range patch)) \<le> len
     \<and> length (replacement patch)
         = unat (end_byte_exclusive (patch_range patch)) - unat (start_byte (patch_range patch))
     \<and> (\<forall>r\<in>set protected. \<forall>i. \<not> (covers (patch_range patch) i \<and> covers r i))"

lemma valid_range_iff: "valid_range r \<longleftrightarrow> unat (start_byte r) < unat (end_byte_exclusive r)"
  by (auto simp: valid_range_def byte_range_new_def word_less_nat_alt)

lemma overlaps_iff:
  assumes "valid_range a" "valid_range b"
  shows "overlaps a b \<longleftrightarrow> (\<exists>i. covers a i \<and> covers b i)"
proof
  assume "overlaps a b"
  with assms have "covers a (max (unat (start_byte a)) (unat (start_byte b)))
    \<and> covers b (max (unat (start_byte a)) (unat (start_byte b)))"
    by (auto simp: overlaps_def covers_def valid_range_iff word_less_nat_alt)
  then show "\<exists>i. covers a i \<and> covers b i" by blast
next
  assume "\<exists>i. covers a i \<and> covers b i"
  then show "overlaps a b" by (auto simp: overlaps_def covers_def word_less_nat_alt)
qed

lemma overlaps_sym: "overlaps a b \<longleftrightarrow> overlaps b a"
  by (auto simp: overlaps_def)

lemma unat_byte_len: "valid_range r \<Longrightarrow>
    unat (byte_len r) = unat (end_byte_exclusive r) - unat (start_byte r)"
  by (simp add: valid_range_iff byte_len_def unat_sub word_le_nat_alt)

lemma to_u64_eq_iff: "to_u64 n = Inr w \<longleftrightarrow> n = unat w"
proof
  assume "to_u64 n = Inr w"
  then show "n = unat w" by (auto simp: to_u64_def unat_of_nat split: if_splits)
next
  assume "n = unat w"
  then show "to_u64 n = Inr w" using unat_u64_less [of w] by (simp add: to_u64_def)
qed

lemma replacement_length_ok:
  "valid_range r \<Longrightarrow> rbind (to_u64 n) (\<lambda>w. if w \<noteq> byte_len r then Inl e else k) = Inr y \<longleftrightarrow>
     n = unat (end_byte_exclusive r) - unat (start_byte r) \<and> k = Inr y"
  by (auto simp: to_u64_eq_iff unat_byte_len [symmetric] word_unat_eq_iff)

text \<open>On a list sorted by start, comparing neighbours is comparing all pairs.\<close>

fun neighbours_disjoint :: "byte_range option \<Rightarrow> byte_range list \<Rightarrow> bool" where
  "neighbours_disjoint previous [] \<longleftrightarrow> True"
| "neighbours_disjoint previous (r # rest) \<longleftrightarrow>
     (case previous of None \<Rightarrow> True | Some p \<Rightarrow> \<not> overlaps p r) \<and> neighbours_disjoint (Some r) rest"

lemma neighbours_disjoint_start:
  assumes "neighbours_disjoint (Some p) rs" "valid_range p" "list_all valid_range rs"
    and "sorted (map start_byte (p # rs))"
  shows "\<forall>r\<in>set rs. unat (end_byte_exclusive p) \<le> unat (start_byte r)"
  using assms
proof (induction rs arbitrary: p)
  case (Cons q rs)
  have "unat (end_byte_exclusive p) \<le> unat (start_byte q)"
    using Cons.prems by (auto simp: overlaps_def valid_range_iff word_less_nat_alt word_le_nat_alt not_less)
  moreover have "unat (start_byte q) \<le> unat (start_byte r)" if "r \<in> set rs" for r
    using Cons.prems(4) that by (auto simp: word_le_nat_alt)
  ultimately show ?case by (metis le_trans set_ConsD)
qed simp

lemma neighbours_disjoint_Some_iff:
  assumes "valid_range p" "list_all valid_range rs" "sorted (map start_byte (p # rs))"
  shows "neighbours_disjoint (Some p) rs \<longleftrightarrow> sorted_wrt (\<lambda>a b. \<not> overlaps a b) (p # rs)"
  using assms
proof (induction rs arbitrary: p)
  case (Cons q rs)
  have "neighbours_disjoint (Some q) rs \<longleftrightarrow> sorted_wrt (\<lambda>a b. \<not> overlaps a b) (q # rs)"
    using Cons.IH [of q] Cons.prems by simp
  moreover have "\<forall>r\<in>set (q # rs). \<not> overlaps p r" if "neighbours_disjoint (Some p) (q # rs)"
    using neighbours_disjoint_start [OF that] Cons.prems
    by (auto simp: overlaps_def word_less_nat_alt not_less)
  ultimately show ?case by auto
qed simp

lemma neighbours_disjoint_iff:
  assumes "list_all valid_range rs" "sorted (map start_byte rs)"
  shows "neighbours_disjoint None rs \<longleftrightarrow> sorted_wrt (\<lambda>a b. \<not> overlaps a b) rs"
proof (cases rs)
  case (Cons q qs)
  with assms neighbours_disjoint_Some_iff [of q qs] show ?thesis by simp
qed simp

abbreviation range_of :: "nat \<times> image_patch \<Rightarrow> byte_range" where
  "range_of x \<equiv> patch_range (snd x)"

lemma find_overlap_None_iff:
  assumes "valid_range r" "list_all valid_range protected"
  shows "List.find (overlaps r) protected = None \<longleftrightarrow>
    (\<forall>q\<in>set protected. \<forall>i. \<not> (covers r i \<and> covers q i))"
  using assms by (auto simp: find_None_iff overlaps_iff list_all_iff)

lemma validate_patches_iff:
  assumes "list_all (\<lambda>x. valid_range (range_of x)) xs" "list_all valid_range protected"
  shows "validate_patches len protected previous xs = Inr () \<longleftrightarrow>
    list_all (\<lambda>x. patch_fits (unat len) protected (snd x)) xs
    \<and> neighbours_disjoint (map_option range_of previous) (map range_of xs)"
  using assms
proof (induction len protected previous xs rule: validate_patches.induct)
  case (2 len protected previous index patch rest)
  let ?r = "patch_range patch"
  have valid: "valid_range ?r" using 2(2) by simp
  note protected = 2(3)
  have IH: "validate_patches len protected (Some (index, patch)) rest = Inr () \<longleftrightarrow>
      list_all (\<lambda>x. patch_fits (unat len) protected (snd x)) rest
      \<and> neighbours_disjoint (Some ?r) (map range_of rest)"
    if "List.find (overlaps ?r) protected = None"
    using 2 that by simp
  have find: "List.find (overlaps ?r) protected = None \<longleftrightarrow>
      (\<forall>q\<in>set protected. \<forall>i. \<not> (covers ?r i \<and> covers q i))"
    by (rule find_overlap_None_iff [OF valid protected])
  show ?case
  proof (cases "List.find (overlaps ?r) protected")
    case None
    with find have free: "\<forall>q\<in>set protected. \<forall>i. \<not> (covers ?r i \<and> covers q i)" by simp
    show ?thesis
      using IH [OF None] None free
      by (cases previous)
        (auto simp: validate_range_within_image_def patch_fits_def to_u64_eq_iff
          unat_byte_len [OF valid] word_le_nat_alt)
  next
    case (Some q)
    with find have "\<not> patch_fits (unat len) protected patch" by (auto simp: patch_fits_def)
    with Some show ?thesis by auto
  qed
qed simp

lemma apply_patches_cells:
  assumes "apply_patches len cells xs = Some (Inr cells')"
    and "sorted_wrt (\<lambda>x y. \<forall>i. \<not> (covers (range_of x) i \<and> covers (range_of y) i)) xs"
  shows "length cells' = length cells
    \<and> (\<forall>i<length cells. (\<forall>x\<in>set xs. \<not> covers (range_of x) i) \<longrightarrow> cells' ! i = cells ! i)
    \<and> (\<forall>x\<in>set xs. \<forall>i. covers (range_of x) i \<longrightarrow> i < length cells
        \<and> cells' ! i = replacement (snd x) ! (i - unat (start_byte (range_of x))))"
  using assms
proof (induction len cells xs rule: apply_patches.induct)
  case (2 len cells index patch rest)
  let ?r = "patch_range patch"
  let ?start = "unat (start_byte ?r)" and ?stop = "unat (end_byte_exclusive ?r)"
  let ?new = "splice cells ?start (replacement patch)"
  have ok: "\<not> (?stop < ?start \<or> length cells < ?stop)" "length (replacement patch) = ?stop - ?start"
    and rest: "apply_patches len ?new rest = Some (Inr cells')"
    using 2(2) by (simp_all add: Let_def split: if_splits)
  have new: "length ?new = length cells" using ok by (intro length_splice) simp
  note IH = 2(1) [OF refl refl ok(1) _ rest]
  have IH: "length cells' = length cells"
    "\<And>i. i < length cells \<Longrightarrow> \<forall>x\<in>set rest. \<not> covers (range_of x) i \<Longrightarrow> cells' ! i = ?new ! i"
    "\<And>x i. x \<in> set rest \<Longrightarrow> covers (range_of x) i \<Longrightarrow> i < length cells
        \<and> cells' ! i = replacement (snd x) ! (i - unat (start_byte (range_of x)))"
    using IH ok(2) 2(3) new by auto
  have outside: "?new ! i = cells ! i" if "i < length cells" "\<not> covers ?r i" for i
    using that ok by (intro nth_splice_outside) (auto simp: covers_def)
  have inside: "i < length cells \<and> ?new ! i = replacement patch ! (i - ?start)" if "covers ?r i" for i
  proof -
    have "?new ! i = replacement patch ! (i - ?start)"
      using that ok by (intro nth_splice_inside) (auto simp: covers_def)
    with that ok show ?thesis by (auto simp: covers_def)
  qed
  have apart: "\<not> covers (range_of x) i" if "covers ?r i" "x \<in> set rest" for x i
    using 2(3) that by auto
  show ?case
    using IH outside inside apart by auto
qed simp

lemma apply_patches_total:
  assumes "list_all (\<lambda>x. patch_fits (length cells) protected (snd x) \<and> valid_range (range_of x)) xs"
  shows "\<exists>cells'. apply_patches len cells xs = Some (Inr cells')"
  using assms
proof (induction len cells xs rule: apply_patches.induct)
  case (2 len cells index patch rest)
  let ?new = "splice cells (unat (start_byte (patch_range patch))) (replacement patch)"
  have "length ?new = length cells"
    using 2(2) by (intro length_splice) (simp add: patch_fits_def valid_range_iff)
  with 2 show ?case by (simp add: Let_def patch_fits_def valid_range_iff)
qed simp

lemma sorted_wrt_symmetric:
  assumes "distinct xs" "\<And>x y. R x y \<Longrightarrow> R y x"
  shows "sorted_wrt R xs \<longleftrightarrow> (\<forall>x\<in>set xs. \<forall>y\<in>set xs. x \<noteq> y \<longrightarrow> R x y)"
  using assms(1) by (induction xs) (auto intro: assms(2))

lemma ordered_patches_set: "set (ordered_patches patches) = {(i, patches ! i) |i. i < length patches}"
  by (auto simp: ordered_patches_def in_set_enumerate_eq)

lemma ordered_patches_distinct: "distinct (ordered_patches patches)"
  by (simp add: ordered_patches_def distinct_enumerate)

lemma ordered_patches_sorted: "sorted (map start_byte (map range_of (ordered_patches patches)))"
  using sorted_sort_key [of "\<lambda>(_, patch). start_byte (patch_range patch)" "List.enumerate 0 patches"]
  by (simp add: ordered_patches_def comp_def case_prod_unfold)

lemma ordered_patches_members: "snd ` set (ordered_patches patches) = set patches"
  by (force simp: ordered_patches_set in_set_conv_nth)

lemma ordered_patches_all:
  "list_all (\<lambda>x. P (snd x)) (ordered_patches patches) \<longleftrightarrow> (\<forall>p\<in>set patches. P p)"
  by (simp add: list_all_iff flip: ordered_patches_members)

lemma ordered_patches_valid:
  "list_all valid_range (map patch_range patches) \<Longrightarrow>
     list_all (\<lambda>x. valid_range (range_of x)) (ordered_patches patches)"
  by (auto simp: list_all_iff ordered_patches_set)

lemma ordered_patches_disjoint:
  assumes "list_all valid_range (map patch_range patches)"
  shows "sorted_wrt (\<lambda>x y. \<forall>k. \<not> (covers (range_of x) k \<and> covers (range_of y) k)) (ordered_patches patches)
    \<longleftrightarrow> (\<forall>i<length patches. \<forall>j<length patches. i \<noteq> j \<longrightarrow>
          (\<forall>k. \<not> (covers (patch_range (patches ! i)) k \<and> covers (patch_range (patches ! j)) k)))"
  by (subst sorted_wrt_symmetric [OF ordered_patches_distinct]) (auto simp: ordered_patches_set)

definition candidate_admissible ::
  "(u8 list \<Rightarrow> string) \<Rightarrow> u8 list \<Rightarrow> sha256_digest \<Rightarrow> image_patch list \<Rightarrow> byte_range list \<Rightarrow> bool" where
  "candidate_admissible sha original expected patches protected \<longleftrightarrow>
     length original < 2 ^ 64 \<and> sha256_digest sha original = expected
     \<and> (\<forall>r\<in>set protected. unat (end_byte_exclusive r) \<le> length original)
     \<and> (\<forall>p\<in>set patches. patch_fits (length original) protected p)
     \<and> (\<forall>i<length patches. \<forall>j<length patches. i \<noteq> j \<longrightarrow>
          (\<forall>k. \<not> (covers (patch_range (patches ! i)) k \<and> covers (patch_range (patches ! j)) k)))"

lemma ordered_patches_neighbours:
  assumes "list_all valid_range (map patch_range patches)"
  shows "neighbours_disjoint None (map range_of (ordered_patches patches)) \<longleftrightarrow>
    (\<forall>i<length patches. \<forall>j<length patches. i \<noteq> j \<longrightarrow>
       (\<forall>k. \<not> (covers (patch_range (patches ! i)) k \<and> covers (patch_range (patches ! j)) k)))"
proof -
  have valid: "list_all (\<lambda>x. valid_range (range_of x)) (ordered_patches patches)"
    by (rule ordered_patches_valid [OF assms])
  then have "neighbours_disjoint None (map range_of (ordered_patches patches)) \<longleftrightarrow>
      sorted_wrt (\<lambda>x y. \<not> overlaps (range_of x) (range_of y)) (ordered_patches patches)"
    using neighbours_disjoint_iff [OF _ ordered_patches_sorted, of patches]
    by (simp add: list.pred_map comp_def sorted_wrt_map)
  also have "\<dots> \<longleftrightarrow> sorted_wrt (\<lambda>x y. \<forall>k. \<not> (covers (range_of x) k \<and> covers (range_of y) k))
      (ordered_patches patches)"
    using valid by (intro iffI; elim sorted_wrt_mono_rel [rotated]) (auto simp: list_all_iff overlaps_iff)
  finally show ?thesis by (simp only: ordered_patches_disjoint [OF assms])
qed

lemma validate_candidate_iff:
  assumes "list_all valid_range (map patch_range patches)" "list_all valid_range protected"
  shows "validate_candidate sha original expected patches protected = Inr sz \<longleftrightarrow>
    sz = of_nat (length original) \<and> candidate_admissible sha original expected patches protected"
proof -
  have "validate_patches (of_nat (length original)) protected None (ordered_patches patches) = Inr () \<longleftrightarrow>
      (\<forall>p\<in>set patches. patch_fits (length original) protected p)
      \<and> neighbours_disjoint None (map range_of (ordered_patches patches))"
    if "length original < 2 ^ 64"
    using validate_patches_iff [OF ordered_patches_valid [OF assms(1)] assms(2),
        of "of_nat (length original)" None] that
    by (simp add: ordered_patches_all unat_of_nat)
  then show ?thesis
    unfolding candidate_admissible_def ordered_patches_neighbours [OF assms(1), symmetric]
    by (auto simp: validate_candidate_def image_size_def to_u64_def Let_def
        validate_range_within_image_def word_le_nat_alt unat_of_nat split: if_splits)
qed

lemma build_candidate_cases:
  assumes "list_all valid_range (map patch_range patches)" "list_all valid_range protected"
  shows "if candidate_admissible sha original expected patches protected
    then \<exists>cells. apply_patches (of_nat (length original)) original (ordered_patches patches) = Some (Inr cells)
      \<and> build_candidate sha original expected patches protected = Some (Inr
         \<lparr>candidate_bytes = cells,
          evidence = \<lparr>original_sha256 = expected, candidate_sha256 = sha256_digest sha cells,
            modified_ranges = map range_of (ordered_patches patches)\<rparr>\<rparr>)
    else \<exists>e. build_candidate sha original expected patches protected = Some (Inl e)"
proof (cases "candidate_admissible sha original expected patches protected")
  case True
  then have "list_all (\<lambda>x. patch_fits (length original) protected (snd x) \<and> valid_range (range_of x))
      (ordered_patches patches)"
    using ordered_patches_valid [OF assms(1)] ordered_patches_all
      [of "patch_fits (length original) protected" patches]
    by (simp add: candidate_admissible_def list_all_iff)
  from apply_patches_total [OF this] obtain cells where
    "apply_patches (of_nat (length original)) original (ordered_patches patches) = Some (Inr cells)"
    by blast
  moreover have "validate_candidate sha original expected patches protected = Inr (of_nat (length original))"
    using True validate_candidate_iff [OF assms] by simp
  ultimately show ?thesis using True by (simp add: build_candidate_def case_prod_unfold)
next
  case False
  then obtain e where "validate_candidate sha original expected patches protected = Inl e"
    using validate_candidate_iff [OF assms]
    by (cases "validate_candidate sha original expected patches protected") auto
  with False show ?thesis by (simp add: build_candidate_def)
qed

section \<open>Properties of composition\<close>

text \<open>A candidate is composed exactly when the original has the expected digest, every
  protected range and patch lies inside it, every replacement has the length of its range,
  no two patches share a byte and none touches a protected one. Checking neighbours in
  order of their start is enough for all pairs; nothing panics.\<close>

theorem build_candidate_accepts_exactly:
  assumes "list_all valid_range (map patch_range patches)" "list_all valid_range protected"
  shows "case build_candidate sha original expected patches protected of
      None \<Rightarrow> False
    | Some (Inl e) \<Rightarrow> \<not> candidate_admissible sha original expected patches protected
    | Some (Inr candidate) \<Rightarrow> candidate_admissible sha original expected patches protected"
  using build_candidate_cases [OF assms, of sha original expected] by (auto split: if_splits)

definition ex_patch :: "u64 \<Rightarrow> u64 \<Rightarrow> u8 list \<Rightarrow> image_patch" where
  "ex_patch start stop bytes =
     \<lparr>patch_range = \<lparr>start_byte = start, end_byte_exclusive = stop\<rparr>, replacement = bytes\<rparr>"

definition ex_patches :: "image_patch list" where
  "ex_patches = [ex_patch 2 4 [7, 8], ex_patch 0 1 [9]]"

definition ex_protected :: "byte_range list" where
  "ex_protected = [\<lparr>start_byte = 1, end_byte_exclusive = 2\<rparr>]"

definition ex_sha :: "u8 list \<Rightarrow> string" where
  "ex_sha _ = replicate 64 CHR ''0''"

lemma ex_ranges_valid:
  "list_all valid_range (map patch_range ex_patches)" "list_all valid_range ex_protected"
  by (simp_all add: ex_patches_def ex_patch_def ex_protected_def valid_range_iff)

lemma ex_admissible:
  "candidate_admissible ex_sha [1, 2, 3, 4] (Sha256Digest (replicate 64 CHR ''0'')) ex_patches ex_protected"
  by (auto simp: candidate_admissible_def sha256_digest_def ex_sha_def ex_protected_def ex_patches_def
      ex_patch_def patch_fits_def covers_def All_less_Suc)

theorem build_candidate_accepts_exactly_witness:
  "case build_candidate ex_sha [1, 2, 3, 4] (Sha256Digest (replicate 64 CHR ''0'')) ex_patches ex_protected of
      None \<Rightarrow> False
    | Some (Inl e) \<Rightarrow> False
    | Some (Inr candidate) \<Rightarrow> True"
  using build_candidate_accepts_exactly [OF ex_ranges_valid, of ex_sha "[1, 2, 3, 4]"
      "Sha256Digest (replicate 64 CHR ''0'')"] ex_admissible
  by (auto split: option.splits sum.splits)

text \<open>C30: A composed candidate is the original with exactly the patched bytes replaced: it
  has the same length, every byte that a patch covers is the patch's byte for it, every other
  byte, all protected ones included, is the original's; and its evidence binds it: the
  expected digest, the digest of the composed bytes, and the ranges of all patches in
  order of their start.\<close>

theorem build_candidate_exact:
  assumes "list_all valid_range (map patch_range patches)" "list_all valid_range protected"
    and "build_candidate sha original expected patches protected = Some (Inr candidate)"
  shows "length (candidate_bytes candidate) = length original
    \<and> (\<forall>p\<in>set patches. \<forall>i. covers (patch_range p) i \<longrightarrow> i < length original
         \<and> candidate_bytes candidate ! i = replacement p ! (i - unat (start_byte (patch_range p))))
    \<and> (\<forall>i<length original. (\<forall>p\<in>set patches. \<not> covers (patch_range p) i) \<longrightarrow>
         candidate_bytes candidate ! i = original ! i)
    \<and> (\<forall>r\<in>set protected. \<forall>i. covers r i \<longrightarrow> candidate_bytes candidate ! i = original ! i)
    \<and> original_sha256 (evidence candidate) = Sha256Digest (sha original)
    \<and> candidate_sha256 (evidence candidate) = Sha256Digest (sha (candidate_bytes candidate))
    \<and> mset (modified_ranges (evidence candidate)) = mset (map patch_range patches)
    \<and> sorted (map start_byte (modified_ranges (evidence candidate)))"
proof -
  from build_candidate_cases [OF assms(1,2), of sha original expected] assms(3)
  obtain cells where admissible: "candidate_admissible sha original expected patches protected"
    and cells: "apply_patches (of_nat (length original)) original (ordered_patches patches) = Some (Inr cells)"
    and candidate: "candidate = \<lparr>candidate_bytes = cells,
          evidence = \<lparr>original_sha256 = expected, candidate_sha256 = sha256_digest sha cells,
            modified_ranges = map range_of (ordered_patches patches)\<rparr>\<rparr>"
    by (auto split: if_splits)
  have "sorted_wrt (\<lambda>x y. \<forall>k. \<not> (covers (range_of x) k \<and> covers (range_of y) k)) (ordered_patches patches)"
    using admissible unfolding ordered_patches_disjoint [OF assms(1)] candidate_admissible_def by blast
  note applied = apply_patches_cells [OF cells this]
  have bytes: "length cells = length original"
    "\<And>i. i < length original \<Longrightarrow> \<forall>p\<in>set patches. \<not> covers (patch_range p) i \<Longrightarrow> cells ! i = original ! i"
    "\<And>p i. p \<in> set patches \<Longrightarrow> covers (patch_range p) i \<Longrightarrow> i < length original
       \<and> cells ! i = replacement p ! (i - unat (start_byte (patch_range p)))"
    using applied by (auto simp flip: ordered_patches_members)
  have protected: "cells ! i = original ! i" if "r \<in> set protected" "covers r i" for r i
    using that admissible by (intro bytes(2)) (fastforce simp: candidate_admissible_def patch_fits_def covers_def)+
  have "image_mset range_of (mset (List.enumerate 0 patches))
      = image_mset patch_range (image_mset snd (mset (List.enumerate 0 patches)))"
    by (simp only: multiset.map_comp comp_def)
  also have "image_mset snd (mset (List.enumerate 0 patches)) = mset patches"
    by (metis map_snd_enumerate mset_map)
  finally have "mset (map range_of (ordered_patches patches)) = mset (map patch_range patches)"
    by (simp add: ordered_patches_def)
  with bytes protected ordered_patches_sorted [of patches] admissible show ?thesis
    by (auto simp: candidate candidate_admissible_def sha256_digest_def)
qed

theorem build_candidate_exact_witness:
  "\<exists>candidate. build_candidate ex_sha [1, 2, 3, 4] (Sha256Digest (replicate 64 CHR ''0''))
        ex_patches ex_protected = Some (Inr candidate)
    \<and> candidate_bytes candidate ! 0 = 9 \<and> candidate_bytes candidate ! 1 = 2"
proof -
  obtain candidate where built: "build_candidate ex_sha [1, 2, 3, 4] (Sha256Digest (replicate 64 CHR ''0''))
        ex_patches ex_protected = Some (Inr candidate)"
    using build_candidate_cases [OF ex_ranges_valid] ex_admissible by metis
  note exact = build_candidate_exact [OF ex_ranges_valid built]
  have "covers \<lparr>start_byte = 0, end_byte_exclusive = 1\<rparr> 0" "covers \<lparr>start_byte = 1, end_byte_exclusive = 2\<rparr> 1"
    by (simp_all add: covers_def)
  with exact built show ?thesis by (auto simp: ex_patches_def ex_patch_def ex_protected_def)
qed

section \<open>Changed runs\<close>

text \<open>The maximal runs of differing positions, unbounded and on natural numbers.\<close>

fun diff_runs :: "nat \<Rightarrow> nat option \<Rightarrow> (u8 \<times> u8) list \<Rightarrow> (nat \<times> nat) list" where
  "diff_runs index open_start [] = (case open_start of None \<Rightarrow> [] | Some start \<Rightarrow> [(start, index)])"
| "diff_runs index open_start ((a, b) # rest) =
     (if a \<noteq> b
      then diff_runs (Suc index) (case open_start of None \<Rightarrow> Some index | Some start \<Rightarrow> Some start) rest
      else (case open_start of None \<Rightarrow> [] | Some start \<Rightarrow> [(start, index)]) @ diff_runs (Suc index) None rest)"

definition range_of_run :: "nat \<times> nat \<Rightarrow> byte_range" where
  "range_of_run run = \<lparr>start_byte = of_nat (fst run), end_byte_exclusive = of_nat (snd run)\<rparr>"

definition opened :: "nat \<Rightarrow> nat option \<Rightarrow> bool" where
  "opened index open_start \<longleftrightarrow> (case open_start of None \<Rightarrow> True | Some start \<Rightarrow> start < index)"

lemma unat_u64_of_nat: "n < 2 ^ 64 \<Longrightarrow> unat (of_nat n :: u64) = n"
  by (simp add: unat_of_nat)

lemma append_changed_range_run:
  assumes "start < stop" "stop < 2 ^ 64"
  shows "append_changed_range limit start stop ranges
    = Inr (ranges @ map range_of_run (take (limit - length ranges) [(start, stop)]))"
  using assms
  by (auto simp: append_changed_range_def to_u64_def byte_range_new_def range_of_run_def
      word_less_nat_alt unat_u64_of_nat take_Cons' dest: less_trans)

lemma compare_loop_runs:
  assumes "opened index open_start" "index + length pairs < 2 ^ 64"
  shows "compare_loop limit index pairs changed runs open_start ranges =
    Inr (changed + of_nat (length (filter (\<lambda>(a, b). a \<noteq> b) pairs)),
         runs + of_nat (length (diff_runs index open_start pairs)),
         ranges @ map range_of_run (take (limit - length ranges) (diff_runs index open_start pairs)))"
  using assms
proof (induction index open_start pairs arbitrary: changed runs ranges rule: diff_runs.induct)
  case (1 index open_start)
  then show ?case by (cases open_start) (simp_all add: append_changed_range_run opened_def)
next
  case (2 index open_start a b rest)
  show ?case
  proof (cases "a = b")
    case True
    with 2(2) [of changed] 2(3,4) show ?thesis
      by (cases open_start) (simp_all add: append_changed_range_run opened_def take_Cons')
  next
    case False
    have "opened (Suc index) (case open_start of None \<Rightarrow> Some index | Some start \<Rightarrow> Some start)"
      using 2(3) by (simp add: opened_def split: option.splits)
    with 2(1) [OF False this] 2(4) False show ?thesis by simp
  qed
qed

lemma diff_runs_cover:
  assumes "opened index open_start"
  shows "(\<exists>run\<in>set (diff_runs index open_start pairs). fst run \<le> i \<and> i < snd run) \<longleftrightarrow>
    (case open_start of None \<Rightarrow> False | Some start \<Rightarrow> start \<le> i \<and> i < index)
    \<or> (index \<le> i \<and> i < index + length pairs \<and> fst (pairs ! (i - index)) \<noteq> snd (pairs ! (i - index)))"
  using assms
proof (induction index open_start pairs rule: diff_runs.induct)
  case (1 index open_start)
  then show ?case by (cases open_start) auto
next
  case (2 index open_start a b rest)
  have tail: "(Suc index \<le> i \<and> i < Suc index + length rest \<and> fst (rest ! (i - Suc index)) \<noteq> snd (rest ! (i - Suc index)))
      \<longleftrightarrow> (index < i \<and> i < index + length ((a, b) # rest)
          \<and> fst (((a, b) # rest) ! (i - index)) \<noteq> snd (((a, b) # rest) ! (i - index)))"
    by (auto simp: nth_Cons')
  show ?case
  proof (cases "a = b")
    case True
    with 2(2) tail show ?thesis
      by (cases open_start; cases "i = index") (auto simp: opened_def)
  next
    case False
    have "opened (Suc index) (case open_start of None \<Rightarrow> Some index | Some start \<Rightarrow> Some start)"
      using 2(3) by (simp add: opened_def split: option.splits)
    with 2(1) [OF False this] tail False 2(3) show ?thesis
      by (cases open_start; cases "i = index") (auto simp: opened_def)
  qed
qed

lemma diff_runs_separated:
  assumes "opened index open_start"
  shows "sorted_wrt (\<lambda>r q. snd r < fst q) (diff_runs index open_start pairs)
    \<and> list_all (\<lambda>r. fst r < snd r \<and> snd r \<le> index + length pairs
        \<and> (case open_start of None \<Rightarrow> index | Some start \<Rightarrow> start) \<le> fst r) (diff_runs index open_start pairs)"
  using assms
proof (induction index open_start pairs rule: diff_runs.induct)
  case (1 index open_start)
  then show ?case by (cases open_start) (auto simp: opened_def)
next
  case (2 index open_start a b rest)
  show ?case
  proof (cases "a = b")
    case True
    with 2(2,3) show ?thesis
      by (cases open_start) (force simp: opened_def list_all_iff)+
  next
    case False
    have "opened (Suc index) (case open_start of None \<Rightarrow> Some index | Some start \<Rightarrow> Some start)"
      using 2(3) by (simp add: opened_def split: option.splits)
    with 2(1) [OF False this] False 2(3) show ?thesis
      by (cases open_start) (auto simp: opened_def list_all_iff)
  qed
qed

lemma zip_differs:
  assumes "length left = length right"
  shows "length (filter (\<lambda>(a, b). a \<noteq> b) (zip left right))
    = card {i. i < length left \<and> left ! i \<noteq> right ! i}"
  using assms by (auto simp: length_filter_conv_card case_prod_unfold intro!: arg_cong [of _ _ card])

lemma covers_range_of_run:
  "snd run < 2 ^ 64 \<Longrightarrow> fst run < snd run \<Longrightarrow>
     covers (range_of_run run) i \<longleftrightarrow> fst run \<le> i \<and> i < snd run"
  by (simp add: covers_def range_of_run_def unat_u64_of_nat)

lemma compare_images_Inr:
  assumes "compare_images sha left right limit = Inr report"
  shows "\<exists>runs. length left = length right \<and> length left < 2 ^ 64
    \<and> runs = diff_runs 0 None (zip left right)
    \<and> changed_bytes report = of_nat (length (filter (\<lambda>(a, b). a \<noteq> b) (zip left right)))
    \<and> changed_range_count report = of_nat (length runs)
    \<and> changed_ranges report = map range_of_run (take limit runs)
    \<and> (ranges_complete report \<longleftrightarrow> changed_range_count report = of_nat (length (changed_ranges report)))"
proof -
  from assms have len: "length left < 2 ^ 64" "length left = length right"
    using unat_u64_less
    by (auto simp: compare_images_def image_size_def to_u64_eq_iff split: if_splits)
  have loop: "compare_loop limit 0 (zip left right) 0 0 None [] =
     Inr (of_nat (length (filter (\<lambda>(a, b). a \<noteq> b) (zip left right))),
          of_nat (length (diff_runs 0 None (zip left right))),
          map range_of_run (take limit (diff_runs 0 None (zip left right))))"
    using compare_loop_runs [of 0 None "zip left right" limit 0 0 "[]"] len by (simp add: opened_def)
  show ?thesis
    using assms len by (auto simp: compare_images_def loop to_u64_eq_iff split: if_splits)
qed

lemma length_diff_runs:
  "length (diff_runs index open_start pairs)
     \<le> length pairs + (case open_start of None \<Rightarrow> 0 | Some _ \<Rightarrow> 1)"
  by (induction index open_start pairs rule: diff_runs.induct) (auto split: option.splits)

lemma diff_runs_ranges:
  assumes "length left = length right" "length left < 2 ^ 64" "runs = diff_runs 0 None (zip left right)"
  shows "sorted_wrt (\<lambda>a b. unat (end_byte_exclusive a) < unat (start_byte b)) (map range_of_run runs)"
    and "(\<exists>r\<in>set (map range_of_run runs). covers r i) \<longleftrightarrow> i < length left \<and> left ! i \<noteq> right ! i"
proof -
  have sep: "sorted_wrt (\<lambda>r q. snd r < fst q) runs"
    and bound: "\<And>r. r \<in> set runs \<Longrightarrow> fst r < snd r \<and> snd r < 2 ^ 64"
    using diff_runs_separated [of 0 None "zip left right"] assms
    by (auto simp: opened_def list_all_iff)
  show "sorted_wrt (\<lambda>a b. unat (end_byte_exclusive a) < unat (start_byte b)) (map range_of_run runs)"
    unfolding sorted_wrt_map using sep
  proof (rule sorted_wrt_mono_rel [rotated])
    fix r q assume "r \<in> set runs" "q \<in> set runs" "snd r < fst q"
    with bound [of r] bound [of q] show
      "unat (end_byte_exclusive (range_of_run r)) < unat (start_byte (range_of_run q))"
      by (simp add: range_of_run_def unat_u64_of_nat)
  qed
  have "(\<exists>r\<in>set (map range_of_run runs). covers r i) \<longleftrightarrow> (\<exists>r\<in>set runs. fst r \<le> i \<and> i < snd r)"
    using bound by (auto simp: covers_range_of_run)
  then show "(\<exists>r\<in>set (map range_of_run runs). covers r i) \<longleftrightarrow> i < length left \<and> left ! i \<noteq> right ! i"
    using diff_runs_cover [of 0 None "zip left right" i] assms by (auto simp: opened_def)
qed

lemma complete_iff:
  assumes "n < 2 ^ 64"
  shows "(of_nat n :: u64) = of_nat (min n limit) \<longleftrightarrow> n \<le> limit"
proof -
  have "unat (of_nat n :: u64) = n" "unat (of_nat (min n limit) :: u64) = min n limit"
    using assms by (simp_all add: unat_u64_of_nat)
  then show ?thesis by (metis min.absorb_iff1)
qed

text \<open>A comparison reports exactly how two images differ: it counts the differing
  positions and the maximal runs they form, in order and separated by at least one equal
  byte; it retains the first of them up to the limit asked for, and says that the list is
  complete exactly when none was left out. Images of different lengths are never compared.\<close>

theorem compare_images_exact:
  assumes "compare_images sha left right limit = Inr report"
  shows "\<exists>runs. sorted_wrt (\<lambda>a b. unat (end_byte_exclusive a) < unat (start_byte b)) runs
    \<and> (\<forall>i. (\<exists>r\<in>set runs. covers r i) \<longleftrightarrow> i < length left \<and> left ! i \<noteq> right ! i)
    \<and> length left = length right
    \<and> unat (changed_bytes report) = card {i. i < length left \<and> left ! i \<noteq> right ! i}
    \<and> changed_ranges report = take limit runs
    \<and> unat (changed_range_count report) = length runs
    \<and> ranges_complete report = (length runs \<le> limit)"
proof -
  from compare_images_Inr [OF assms] obtain runs where report: "length left = length right"
    "length left < 2 ^ 64" "runs = diff_runs 0 None (zip left right)"
    "changed_bytes report = of_nat (length (filter (\<lambda>(a, b). a \<noteq> b) (zip left right)))"
    "changed_range_count report = of_nat (length runs)"
    "changed_ranges report = map range_of_run (take limit runs)"
    "ranges_complete report \<longleftrightarrow> changed_range_count report = of_nat (length (changed_ranges report))"
    by blast
  have count: "length runs < 2 ^ 64"
    using length_diff_runs [of 0 None "zip left right"] report(1-3) by simp
  have "length (filter (\<lambda>(a, b). a \<noteq> b) (zip left right)) < 2 ^ 64"
    using length_filter_le [of "\<lambda>(a, b). a \<noteq> b" "zip left right"] report(1,2) by simp
  then have "unat (changed_bytes report) = card {i. i < length left \<and> left ! i \<noteq> right ! i}"
    using report(4) zip_differs [OF report(1)] by (simp add: unat_u64_of_nat)
  with diff_runs_ranges [OF report(1-3)] report(1,5-7) count complete_iff [OF count, of limit]
  show ?thesis
    by (intro exI [of _ "map range_of_run runs"]) (simp add: unat_u64_of_nat take_map)
qed

theorem compare_images_exact_witness:
  "\<exists>report runs. compare_images ex_sha [3, 2, 3] [0, 2, 4] 1 = Inr report
    \<and> sorted_wrt (\<lambda>a b. unat (end_byte_exclusive a) < unat (start_byte b)) runs
    \<and> unat (changed_range_count report) = length runs \<and> changed_ranges report = take 1 runs"
proof -
  obtain report where "compare_images ex_sha [3, 2, 3] [0, 2, 4] 1 = Inr report"
    by (simp add: compare_images_def image_size_def to_u64_def append_changed_range_def byte_range_new_def
        inspect_image_def find_repeated_chunks_def chunks_exact.simps identification_strings_def
        printable_def)
  with compare_images_exact [OF this] show ?thesis by blast
qed

end
