(* ===== verification/Device_Errors.thy ===== *)
theory Device_Errors
  imports Instruments Flash Supervisor
begin

text \<open>
  How the failures of instruments and of flash planning are rendered
  (\<open>src/instruments/error.rs\<close>, \<open>src/instruments/flash.rs\<close>) and enter the
  errors of a backend (\<open>src/service/backend/mod.rs\<close>). The debug rendering of a text,
  which escapes it, is the parameter \<open>debug\<close>.
\<close>

fun instrument_text :: "(string \<Rightarrow> string) \<Rightarrow> instrument_error \<Rightarrow> string" where
  "instrument_text debug (InstrumentIo action source) = action @ '': '' @ source"
| "instrument_text debug (InstrumentTimeout oper) = ''timed out while '' @ oper"
| "instrument_text debug (EndOfStream oper) = ''stream ended while '' @ oper"
| "instrument_text debug (FrameTooLarge limit) = ''frame exceeds '' @ nat_text limit @ ''-byte limit''"
| "instrument_text debug MalformedCobs = ''malformed COBS frame''"
| "instrument_text debug (MalformedResponse detail) = ''malformed response: '' @ detail"
| "instrument_text debug (DeviceRejected detail) = ''device rejected request: '' @ detail"
| "instrument_text debug (UnexpectedResponse expected actual) =
     ''expected '' @ expected @ '' response, received '' @ actual"
| "instrument_text debug (ProtocolLimit requested limit) =
     ''requested '' @ nat_text requested @ '' bytes exceeds device limit '' @ nat_text limit"
| "instrument_text debug (InvalidRelayResponse response) =
     ''invalid Numato relay response '' @ debug response"
| "instrument_text debug (InvalidSimulatorStore detail) = ''invalid simulator store: '' @ detail"
| "instrument_text debug (InvalidVideoConfiguration detail) = ''invalid video configuration: '' @ detail"
| "instrument_text debug (VideoExecutableDigestMismatch expected actual) =
     ''video executable digest mismatch: expected '' @ expected @ '', observed '' @ actual"
| "instrument_text debug (VideoIdentityMismatch expected actual) =
     ''video USB identity mismatch: expected '' @ expected @ '', observed '' @ actual"
| "instrument_text debug InvalidVideoFrame = ''video capture output is not a PNG''"
| "instrument_text debug (VideoCaptureFailed detail) = ''video capture failed: '' @ detail"

definition word_text :: "'a::len word \<Rightarrow> string" where
  "word_text w = nat_text (unat w)"

fun layout_text :: "flash_layout_error \<Rightarrow> string" where
  "layout_text ZeroCapacity = ''flash capacity must be non-zero''"
| "layout_text ZeroPage = ''flash page size must be non-zero''"
| "layout_text ZeroErase = ''flash erase size must be non-zero''"
| "layout_text (UnsupportedThreeByteCapacity capacity) =
     ''three-byte addressing cannot represent '' @ word_text capacity @ ''-byte flash''"
| "layout_text (UnsupportedFourByteCapacity capacity) =
     ''four-byte addressing cannot represent '' @ word_text capacity @ ''-byte flash''"
| "layout_text (UnsupportedEraseBytes erase) =
     ''the qualified NOR profile supports only 4096-byte erase sectors, not '' @ word_text erase"
| "layout_text (FlashOutOfBounds offset len capacity) =
     ''range '' @ word_text offset @ ''..'' @ word_text (saturating_add offset (ucast len))
       @ '' exceeds '' @ word_text capacity @ ''-byte flash''"
| "layout_text (EraseUnaligned offset len erase) =
     ''erase '' @ word_text offset @ ''..'' @ word_text (saturating_add offset (ucast len))
       @ '' is not aligned to '' @ word_text erase @ ''-byte sectors''"

text \<open>\<open>malformed\<close> and \<open>transport\<close> of the backend; a failure that is already text is
  passed as it is.\<close>

definition malformed :: "string \<Rightarrow> backend_error" where "malformed message = BackendMalformed message"
definition transport :: "string \<Rightarrow> backend_error" where "transport message = BackendTransport message"

definition malformed_if :: "bool \<Rightarrow> string \<Rightarrow> backend_error + unit" where
  "malformed_if bad message = (if bad then Inl (malformed message) else Inr ())"

definition MAX_EVIDENCE_BYTES :: nat where "MAX_EVIDENCE_BYTES = 64 * 1024 * 1024"

lemma malformed_if_ok [simp]: "malformed_if bad message = Inr u \<longleftrightarrow> \<not> bad"
  by (simp add: malformed_if_def)

end
