(* ===== verification/Device_Wire.thy ===== *)
theory Device_Wire
  imports Device_Errors
begin

text \<open>
  Asynchronous access to a device over a serial line. The device is unknown: the model of a
  line holds, for every further exchange that completes before the deadline of the enclosing
  operation, what the exchange meets (a step of writing that fails, the bytes that arrive
  and whether the line ends after them). A theorem over all scripts covers every device.
  When the script is used up the next exchange does not complete and the enclosing deadline
  drops the operation at its await point, so no loop over exchanges runs for ever.

  An action is a state transformer that ends with a value, with a failure, or dropped; the
  predicate \<open>sends\<close> collects what an action may put on the line.
\<close>

section \<open>Actions\<close>

datatype 'e stop = Failed 'e | Dropped

type_synonym ('s, 'e, 'a) action = "'s \<Rightarrow> ('e stop + 'a) \<times> 's"

definition abind :: "('s, 'e, 'a) action \<Rightarrow> ('a \<Rightarrow> ('s, 'e, 'b) action) \<Rightarrow> ('s, 'e, 'b) action" where
  "abind m f s = (case m s of (Inl e, s') \<Rightarrow> (Inl e, s') | (Inr x, s') \<Rightarrow> f x s')"

definition areturn :: "'a \<Rightarrow> ('s, 'e, 'a) action" where "areturn x s = (Inr x, s)"

definition afail :: "'e \<Rightarrow> ('s, 'e, 'a) action" where "afail e s = (Inl (Failed e), s)"

definition alift :: "'e + 'a \<Rightarrow> ('s, 'e, 'a) action" where
  "alift r s = (map_err Failed r, s)"

text \<open>\<open>.await.map_err(f)?\<close>\<close>

definition amap_err :: "('e \<Rightarrow> 'f) \<Rightarrow> ('s, 'e, 'a) action \<Rightarrow> ('s, 'f, 'a) action" where
  "amap_err f m s =
     (case m s of (Inl (Failed e), s') \<Rightarrow> (Inl (Failed (f e)), s')
        | (Inl Dropped, s') \<Rightarrow> (Inl Dropped, s') | (Inr x, s') \<Rightarrow> (Inr x, s'))"

text \<open>An action whose failure is inspected rather than propagated; being dropped is not a
  failure the code can see.\<close>

definition atry :: "('s, 'e, 'a) action \<Rightarrow> ('s, 'f, 'e + 'a) action" where
  "atry m s =
     (case m s of (Inl (Failed e), s') \<Rightarrow> (Inr (Inl e), s')
        | (Inl Dropped, s') \<Rightarrow> (Inl Dropped, s') | (Inr x, s') \<Rightarrow> (Inr (Inr x), s'))"

lemma abind_Inr_iff [simp]:
  "abind m f s = (Inr y, s'') \<longleftrightarrow> (\<exists>x s'. m s = (Inr x, s') \<and> f x s' = (Inr y, s''))"
  by (auto simp: abind_def split: prod.splits sum.splits)

lemma action_simps [simp]:
  "areturn x s = (Inr y, s') \<longleftrightarrow> x = y \<and> s = s'"
  "afail e s = (Inr y, s') \<longleftrightarrow> False"
  "alift r s = (Inr y, s') \<longleftrightarrow> r = Inr y \<and> s = s'"
  "amap_err g m s = (Inr y, s') \<longleftrightarrow> m s = (Inr y, s')"
  by (auto simp: areturn_def afail_def alift_def amap_err_def split: prod.splits sum.splits stop.splits)

lemma abind_areturn [simp]: "abind (areturn x) f = f x"
  by (simp add: abind_def areturn_def fun_eq_iff)

section \<open>The line\<close>

record exchange =
  ex_fault :: "(nat \<times> string) option"
  ex_arrives :: "(string + u8) list"
  ex_ended :: bool

record wire =
  wr_sent :: "u8 list list"
  wr_pending :: "(string + u8) list"
  wr_script :: "exchange list"

text \<open>Sending under the steps \<open>actions\<close> and reading with \<open>reader\<close>, which takes
  the bytes on the line to a result and the bytes it leaves. When they are used up before the
  reader has its answer, the line has ended or the reader waits until \<open>late\<close>.\<close>

definition exchange_with ::
  "string list \<Rightarrow> instrument_error
    \<Rightarrow> ((string + u8) list \<Rightarrow> (instrument_error + 'a) \<times> (string + u8) list)
    \<Rightarrow> u8 list \<Rightarrow> (wire, instrument_error, 'a) action" where
  "exchange_with actions late reader bytes w =
     (let w1 = w\<lparr>wr_sent := wr_sent w @ [bytes]\<rparr> in
      case wr_script w of
        [] \<Rightarrow> (Inl Dropped, w1)
      | x # script \<Rightarrow>
          (case ex_fault x of
             Some (step, source) \<Rightarrow>
               (Inl (Failed (InstrumentIo (actions ! (step mod length actions)) source)),
                w1\<lparr>wr_script := script\<rparr>)
           | None \<Rightarrow>
               (case reader (wr_pending w @ ex_arrives x) of
                  (r, rest) \<Rightarrow>
                    ((case r of
                        Inr v \<Rightarrow> Inr v
                      | Inl (EndOfStream oper) \<Rightarrow>
                          Inl (Failed (if ex_ended x then EndOfStream oper else late))
                      | Inl e \<Rightarrow> Inl (Failed e)),
                     w1\<lparr>wr_script := script, wr_pending := rest\<rparr>))))"

section \<open>What an action sends\<close>

text \<open>\<open>sends wire_of P m\<close>: whatever happens, \<open>m\<close> only appends to the line, and
  everything it appends satisfies \<open>P\<close>.\<close>

definition sends :: "('s \<Rightarrow> wire) \<Rightarrow> (u8 list \<Rightarrow> bool) \<Rightarrow> ('s, 'e, 'a) action \<Rightarrow> bool" where
  "sends wire_of P m \<longleftrightarrow> (\<forall>s. \<exists>frames.
     wr_sent (wire_of (snd (m s))) = wr_sent (wire_of s) @ frames \<and> list_all P frames)"

named_theorems sends_intros

lemma sendsI:
  assumes "\<And>s. \<exists>frames. wr_sent (wire_of (snd (m s))) = wr_sent (wire_of s) @ frames \<and> list_all P frames"
  shows "sends wire_of P m"
  using assms by (simp add: sends_def)

lemma sendsD:
  assumes "sends wire_of P m" "m s = (r, s')"
  obtains frames where "wr_sent (wire_of s') = wr_sent (wire_of s) @ frames" "list_all P frames"
  using assms unfolding sends_def by (metis snd_conv)

lemma sends_pure [sends_intros]:
  "sends wire_of P (areturn x)" "sends wire_of P (afail e)" "sends wire_of P (alift r)"
  by (auto intro!: sendsI simp: areturn_def afail_def alift_def)

lemma sends_mono: "sends wire_of P m \<Longrightarrow> (\<And>f. P f \<Longrightarrow> Q f) \<Longrightarrow> sends wire_of Q m"
  unfolding sends_def by (metis list.pred_mono_strong)

lemma sends_abind [sends_intros]:
  assumes "sends wire_of P m" "\<And>x. sends wire_of P (f x)"
  shows "sends wire_of P (abind m f)"
proof (rule sendsI)
  fix s
  obtain r s' where run: "m s = (r, s')" by (cases "m s")
  from sendsD [OF assms(1) run] obtain frames where
    first: "wr_sent (wire_of s') = wr_sent (wire_of s) @ frames" "list_all P frames" .
  show "\<exists>frames. wr_sent (wire_of (snd (abind m f s))) = wr_sent (wire_of s) @ frames \<and> list_all P frames"
  proof (cases r)
    case (Inl e)
    then show ?thesis using run first by (auto simp: abind_def)
  next
    case (Inr x)
    obtain r' s'' where run': "f x s' = (r', s'')" by (cases "f x s'")
    from sendsD [OF assms(2) run'] obtain more where
      "wr_sent (wire_of s'') = wr_sent (wire_of s') @ more" "list_all P more" .
    then show ?thesis using run Inr run' first by (auto simp: abind_def)
  qed
qed

lemma sends_amap_err [sends_intros]: "sends wire_of P m \<Longrightarrow> sends wire_of P (amap_err g m)"
  unfolding sends_def amap_err_def by (auto split: prod.splits sum.splits stop.splits) (metis snd_conv)+

lemma sends_atry [sends_intros]: "sends wire_of P m \<Longrightarrow> sends wire_of P (atry m)"
  unfolding sends_def atry_def by (auto split: prod.splits sum.splits stop.splits) (metis snd_conv)+

lemma sends_if [sends_intros]:
  "(b \<Longrightarrow> sends wire_of P m) \<Longrightarrow> (\<not> b \<Longrightarrow> sends wire_of P m') \<Longrightarrow> sends wire_of P (if b then m else m')"
  by simp

lemma sends_option [sends_intros]:
  "(x = None \<Longrightarrow> sends wire_of P m) \<Longrightarrow> (\<And>v. x = Some v \<Longrightarrow> sends wire_of P (f v)) \<Longrightarrow>
     sends wire_of P (case x of None \<Rightarrow> m | Some v \<Rightarrow> f v)"
  by (cases x) auto

lemma sends_exchange: "P bytes \<Longrightarrow> sends (\<lambda>w. w) P (exchange_with actions late reader bytes)"
  by (rule sendsI)
    (auto simp: exchange_with_def Let_def split: list.splits option.splits prod.splits)

lemma sends_abind_alift:
  assumes "\<And>x. r = Inr x \<Longrightarrow> sends wire_of P (f x)"
  shows "sends wire_of P (abind (alift r) f)"
  using assms by (cases r) (auto intro!: sendsI simp: sends_def abind_def alift_def)

end
