(* ===== verification/Rust_Text.thy ===== *)
theory Rust_Text
  imports Conditions
begin

text \<open>
  The text functions of the standard library that the device code uses, on UTF-8 byte
  sequences: trimming of Unicode white space, \<open>lines\<close>, \<open>splitn\<close>, ASCII case,
  hexadecimal digits and the validity of UTF-8.
\<close>

section \<open>White space\<close>

text \<open>The encodings of the code points with the property \<open>White_Space\<close>.\<close>

definition white_space :: "string list" where
  "white_space =
     map (\<lambda>b. [b]) [CHR 0x09, CHR 0x0A, CHR 0x0B, CHR 0x0C, CHR 0x0D, CHR 0x20]
     @ [[CHR 0xC2, CHR 0x85], [CHR 0xC2, CHR 0xA0], [CHR 0xE1, CHR 0x9A, CHR 0x80]]
     @ map (\<lambda>b. [CHR 0xE2, CHR 0x80, b])
         [CHR 0x80, CHR 0x81, CHR 0x82, CHR 0x83, CHR 0x84, CHR 0x85, CHR 0x86, CHR 0x87,
          CHR 0x88, CHR 0x89, CHR 0x8A, CHR 0xA8, CHR 0xA9, CHR 0xAF]
     @ [[CHR 0xE2, CHR 0x81, CHR 0x9F], [CHR 0xE3, CHR 0x80, CHR 0x80]]"

definition starts_with :: "'a list \<Rightarrow> 'a list \<Rightarrow> bool" where
  "starts_with p s \<longleftrightarrow> take (length p) s = p"

lemma starts_with_iff: "starts_with p s \<longleftrightarrow> (\<exists>t. s = p @ t)"
  unfolding starts_with_def by (metis append_eq_conv_conj)

text \<open>Removing leading occurrences of non-empty words, as often as one matches.\<close>

lemma find_starts_with:
  "List.find (\<lambda>w. starts_with w s) ws = Some w \<Longrightarrow> w \<in> set ws \<and> starts_with w s"
  by (auto simp: find_Some_iff)

function strip_words :: "string list \<Rightarrow> string \<Rightarrow> string" where
  "strip_words ws s =
     (case List.find (\<lambda>w. w \<noteq> [] \<and> starts_with w s) ws of
        None \<Rightarrow> s | Some w \<Rightarrow> strip_words ws (drop (length w) s))"
  by pat_completeness auto
termination
  by (relation "measure (\<lambda>(_, s). length s)") (auto simp: find_Some_iff starts_with_iff)

declare strip_words.simps [simp del]

definition trim :: "string \<Rightarrow> string" where
  "trim s = rev (strip_words (map rev white_space) (rev (strip_words white_space s)))"

section \<open>Lines, fields and case\<close>

definition strip_prefix :: "string \<Rightarrow> string \<Rightarrow> string option" where
  "strip_prefix p s = (if starts_with p s then Some (drop (length p) s) else None)"

text \<open>\<open>str::lines\<close>: a final line feed ends a line and starts none; a carriage return
  before it is dropped.\<close>

definition drop_carriage_return :: "string \<Rightarrow> string" where
  "drop_carriage_return line =
     (if line \<noteq> [] \<and> last line = CHR 0x0D then butlast line else line)"

definition str_lines :: "string \<Rightarrow> string list" where
  "str_lines s =
     (let parts = split_on (CHR 0x0A) s
      in map drop_carriage_return (butlast parts) @ (if last parts = [] then [] else [last parts]))"

text \<open>\<open>splitn(3, c)\<close>: at most two cuts.\<close>

definition splitn3 :: "char \<Rightarrow> string \<Rightarrow> string list" where
  "splitn3 c s =
     (case split_on c s of
        x # y # z # rest \<Rightarrow> [x, y, foldl (\<lambda>acc part. acc @ c # part) z rest]
      | parts \<Rightarrow> parts)"

definition ascii_lower :: "char \<Rightarrow> char" where
  "ascii_lower c = (if is_ascii_uppercase c then char_of (of_char c + 32 :: nat) else c)"

definition to_ascii_lowercase :: "string \<Rightarrow> string" where
  "to_ascii_lowercase s = map ascii_lower s"

definition eq_ignore_ascii_case :: "string \<Rightarrow> string \<Rightarrow> bool" where
  "eq_ignore_ascii_case a b \<longleftrightarrow> to_ascii_lowercase a = to_ascii_lowercase b"

fun str_contains :: "string \<Rightarrow> string \<Rightarrow> bool" where
  "str_contains w [] \<longleftrightarrow> w = []"
| "str_contains w (c # s) \<longleftrightarrow> starts_with w (c # s) \<or> str_contains w s"

section \<open>Hexadecimal\<close>

definition hex_digit :: "nat \<Rightarrow> char" where
  "hex_digit n = (if n < 10 then char_of (48 + n) else char_of (87 + n))"

text \<open>\<open>{:04x}\<close> of a 16-bit word.\<close>

definition hex_word_text :: "u16 \<Rightarrow> string" where
  "hex_word_text w = map (\<lambda>k. hex_digit (unat w div 16 ^ k mod 16)) [3, 2, 1, 0]"

definition hex_value :: "char \<Rightarrow> nat option" where
  "hex_value c =
     (if is_ascii_digit c then Some (of_char c - 48)
      else if CHR ''a'' \<le> c \<and> c \<le> CHR ''f'' then Some (of_char c - 87)
      else if CHR ''A'' \<le> c \<and> c \<le> CHR ''F'' then Some (of_char c - 55)
      else None)"

fun hex_fold :: "nat \<Rightarrow> string \<Rightarrow> nat option" where
  "hex_fold acc [] = Some acc"
| "hex_fold acc (c # cs) =
     (case hex_value c of None \<Rightarrow> None | Some d \<Rightarrow> hex_fold (16 * acc + d) cs)"

text \<open>\<open>u8::from_str_radix(s, 16)\<close>: digits of either case after an optional plus sign,
  at least one, with a value below 256.\<close>

definition parse_hex_u8 :: "string \<Rightarrow> u8 option" where
  "parse_hex_u8 s =
     (let ds = (case s of c # cs \<Rightarrow> if c = CHR ''+'' \<and> cs \<noteq> [] then cs else s | [] \<Rightarrow> [])
      in if ds = [] then None
         else case hex_fold 0 ds of
           None \<Rightarrow> None | Some n \<Rightarrow> if n < 256 then Some (of_nat n) else None)"

section \<open>UTF-8\<close>

definition continuation :: "u8 \<Rightarrow> bool" where
  "continuation b \<longleftrightarrow> 0x80 \<le> b \<and> b \<le> 0xBF"

text \<open>How many bytes the encoding at the head of a sequence has, and which second bytes its
  first byte admits (no overlong form, no surrogate, nothing above U+10FFFF).\<close>

definition utf8_shape :: "u8 \<Rightarrow> (nat \<times> u8 \<times> u8) option" where
  "utf8_shape b =
     (if b < 0x80 then Some (0, 0, 0)
      else if 0xC2 \<le> b \<and> b \<le> 0xDF then Some (1, 0x80, 0xBF)
      else if b = 0xE0 then Some (2, 0xA0, 0xBF)
      else if b = 0xED then Some (2, 0x80, 0x9F)
      else if 0xE1 \<le> b \<and> b \<le> 0xEF then Some (2, 0x80, 0xBF)
      else if b = 0xF0 then Some (3, 0x90, 0xBF)
      else if b = 0xF4 then Some (3, 0x80, 0x8F)
      else if 0xF1 \<le> b \<and> b \<le> 0xF3 then Some (3, 0x80, 0xBF)
      else None)"

function utf8_valid :: "u8 list \<Rightarrow> bool" where
  "utf8_valid [] = True"
| "utf8_valid (b # bs) =
     (case utf8_shape b of
        None \<Rightarrow> False
      | Some (n, low, high) \<Rightarrow>
          n \<le> length bs \<and> (n = 0 \<or> (low \<le> hd bs \<and> hd bs \<le> high)) \<and> list_all continuation (drop 1 (take n bs))
          \<and> utf8_valid (drop n bs))"
  by pat_completeness auto
termination
  by (relation "measure length") auto

definition from_utf8 :: "u8 list \<Rightarrow> string option" where
  "from_utf8 bytes = (if utf8_valid bytes then Some (map (\<lambda>b. char_of (unat b)) bytes) else None)"

section \<open>Fields\<close>

lemma split_on_not_Nil [simp]: "split_on c s \<noteq> []"
  by (induction s) (auto split: list.split)

lemma split_on_free: "c \<notin> set s \<Longrightarrow> split_on c s = [s]"
  by (induction s) auto

lemma split_on_append:
  "c \<notin> set s \<Longrightarrow> split_on c (s @ c # t) = s # split_on c t"
  by (induction s) auto

lemma split_on_fields_free: "x \<in> set (split_on c s) \<Longrightarrow> c \<notin> set x"
  by (induction s arbitrary: x) (auto split: if_splits list.splits)

definition join_on :: "char \<Rightarrow> string list \<Rightarrow> string" where
  "join_on c parts = (case parts of [] \<Rightarrow> [] | z # rest \<Rightarrow> foldl (\<lambda>acc part. acc @ c # part) z rest)"

lemma foldl_join: "foldl (\<lambda>acc part. acc @ c # part) (a @ z) rest = a @ foldl (\<lambda>acc part. acc @ c # part) z rest"
  proof (induction rest arbitrary: z)
  case (Cons part rest)
  from Cons [of "z @ c # part"] show ?case by simp
qed simp

lemma join_on_Cons: "parts \<noteq> [] \<Longrightarrow> join_on c (x # parts) = x @ c # join_on c parts"
  using foldl_join [of c "x @ [c]"] by (cases parts) (simp_all add: join_on_def)

lemma join_split_on: "join_on c (split_on c s) = s"
proof (induction s)
  case Nil
  then show ?case by (simp add: join_on_def)
next
  case (Cons x s)
  show ?case
  proof (cases "x = c")
    case True
    then show ?thesis using Cons by (simp add: join_on_Cons)
  next
    case False
    obtain y ys where split: "split_on c s = y # ys" by (cases "split_on c s") auto
    have "join_on c ((x # y) # ys) = x # join_on c (y # ys)"
      using foldl_join [of c "[x]" y ys] by (simp add: join_on_def)
    then show ?thesis using False Cons split by simp
  qed
qed

lemma splitn3_fields:
  "splitn3 c s = [x, y, z] \<longleftrightarrow> c \<notin> set x \<and> c \<notin> set y \<and> s = x @ c # y @ c # z"
proof
  assume three: "splitn3 c s = [x, y, z]"
  obtain ps where ps: "split_on c s = ps" by simp
  with three obtain z0 rest where parts: "split_on c s = x # y # z0 # rest"
    and z: "z = foldl (\<lambda>acc part. acc @ c # part) z0 rest"
    by (auto simp: splitn3_def split: list.splits)
  have "s = join_on c (x # y # z0 # rest)" using join_split_on [of c s] parts by simp
  also have "\<dots> = x @ c # y @ c # z" using z by (simp add: join_on_Cons) (simp add: join_on_def)
  finally show "c \<notin> set x \<and> c \<notin> set y \<and> s = x @ c # y @ c # z"
    using split_on_fields_free [of _ c s] parts by simp
next
  assume fields: "c \<notin> set x \<and> c \<notin> set y \<and> s = x @ c # y @ c # z"
  then have "split_on c s = x # y # split_on c z" by (simp add: split_on_append)
  moreover have "join_on c (split_on c z) = z" by (rule join_split_on)
  ultimately show "splitn3 c s = [x, y, z]"
    by (cases "split_on c z") (auto simp: splitn3_def join_on_def)
qed

end
