(* ===== verification/Bpio2.thy ===== *)
theory Bpio2
  imports Device_Wire Cobs Rust_Text
begin

text \<open>
  The Bus Pirate transport (\<open>src/instruments/bpio2.rs\<close>). The request and response
  packets are the fields that the code sets and reads; the generated FlatBuffer code that
  turns them into bytes and back is the parameter \<open>codec\<close>. An adapter keeps the line,
  the size limit of a frame and the last status it read.
\<close>

section \<open>Packets\<close>

record discovery =
  di_flatbuffer_major :: u8
  di_flatbuffer_minor :: u16
  di_hardware_major :: u8
  di_hardware_minor :: u8
  di_firmware_major :: u8
  di_firmware_minor :: u8
  di_firmware_git_hash :: "string option"
  di_firmware_date :: "string option"
  di_modes_available :: "string list"
  di_mode_current :: "string option"
  di_max_packet_bytes :: u32
  di_max_write_bytes :: u32
  di_max_read_bytes :: u32
  di_psu_enabled :: bool
  di_psu_set_millivolts :: u32
  di_psu_set_milliamps :: u32
  di_psu_measured_millivolts :: u32
  di_psu_measured_milliamps :: u32
  di_adc_millivolts :: "u32 list"
  di_io_direction :: u8
  di_io_value :: u8

record mode_config =
  mc_speed :: u32
  mc_clock_polarity :: bool
  mc_clock_phase :: bool
  mc_chip_select_idle :: bool
  mc_clock_stretch :: bool
  mc_data_bits :: u8
  mc_parity :: bool
  mc_stop_bits :: u8
  mc_flow_control :: bool
  mc_signal_inversion :: bool

datatype psu_setting = PsuEnable u32 u16 | PsuDisable

definition default_mode_config :: mode_config where
  "default_mode_config = \<lparr>mc_speed = 20000, mc_clock_polarity = False, mc_clock_phase = False,
     mc_chip_select_idle = True, mc_clock_stretch = False, mc_data_bits = 8, mc_parity = False,
     mc_stop_bits = 1, mc_flow_control = False, mc_signal_inversion = False\<rparr>"

record configuration_request =
  cr_mode :: "(string \<times> mode_config) option"
  cr_psu :: "psu_setting option"
  cr_pullup :: "bool option"
  cr_io_direction :: "(u8 \<times> u8) option"
  cr_io_value :: "(u8 \<times> u8) option"

record data_request =
  dq_start_main :: bool
  dq_data_write :: "u8 list"
  dq_bytes_read :: u16
  dq_stop_main :: bool

datatype request_contents =
    StatusRequest
  | ConfigurationRequest configuration_request
  | DataRequest data_request

record request_packet =
  rq_version_major :: u8
  rq_minimum_version_minor :: u16
  rq_contents :: request_contents

datatype response_type =
    StatusResponse | ConfigurationResponse | DataResponse | OtherResponse string

text \<open>A status response is its error and the status; the lists may be absent.\<close>

record status_response =
  st_error :: "string option"
  st_modes_available :: "string list option"
  st_adc_mv :: "u32 list option"
  st_fields :: discovery

record data_response =
  da_error :: "string option"
  da_data_read :: "u8 list option"

record response_packet =
  rs_error :: "string option"
  rs_contents_type :: response_type
  rs_status :: "status_response option"
  rs_configuration :: "string option option"
  rs_data :: "data_response option"

record codec =
  cd_encode :: "request_packet \<Rightarrow> u8 list"
  cd_decode :: "u8 list \<Rightarrow> string + response_packet"

definition finish_request :: "request_contents \<Rightarrow> request_packet" where
  "finish_request contents =
     \<lparr>rq_version_major = 2, rq_minimum_version_minor = 0, rq_contents = contents\<rparr>"

definition build_status_request :: request_packet where
  "build_status_request = finish_request StatusRequest"

definition build_configuration_request ::
  "string \<Rightarrow> mode_config \<Rightarrow> psu_setting option \<Rightarrow> (u8 \<times> u8) option \<Rightarrow> (u8 \<times> u8) option \<Rightarrow> bool option
     \<Rightarrow> request_packet" where
  "build_configuration_request mode config psu direction value pullup =
     finish_request (ConfigurationRequest
       \<lparr>cr_mode = (if mode = [] then None else Some (mode, config)), cr_psu = psu,
        cr_pullup = pullup, cr_io_direction = direction, cr_io_value = value\<rparr>)"

definition build_data_request :: "u8 list \<Rightarrow> u16 \<Rightarrow> bool \<Rightarrow> bool \<Rightarrow> request_packet" where
  "build_data_request data_write read_bytes start stop =
     finish_request (DataRequest
       \<lparr>dq_start_main = start, dq_data_write = data_write, dq_bytes_read = read_bytes,
        dq_stop_main = stop\<rparr>)"

fun response_type_debug :: "response_type \<Rightarrow> string" where
  "response_type_debug StatusResponse = ''StatusResponse''"
| "response_type_debug ConfigurationResponse = ''ConfigurationResponse''"
| "response_type_debug DataResponse = ''DataResponse''"
| "response_type_debug (OtherResponse t) = t"

definition reject_packet_error :: "string option \<Rightarrow> instrument_error + unit" where
  "reject_packet_error error =
     (case error of Some detail \<Rightarrow> if detail \<noteq> [] then Inl (DeviceRejected detail) else Inr ()
        | None \<Rightarrow> Inr ())"

section \<open>The adapter\<close>

record adapter =
  ad_wire :: wire
  ad_frame_limit :: nat
  ad_discovery :: "discovery option"

type_synonym 'a bpio = "(adapter, instrument_error, 'a) action"

abbreviation DISCOVERY_FRAME_LIMIT :: nat where "DISCOVERY_FRAME_LIMIT \<equiv> 16 * 1024"

definition adapter_new :: "wire \<Rightarrow> adapter" where
  "adapter_new w = \<lparr>ad_wire = w, ad_frame_limit = DISCOVERY_FRAME_LIMIT, ad_discovery = None\<rparr>"

definition request_frame :: "codec \<Rightarrow> request_packet \<Rightarrow> u8 list" where
  "request_frame C packet = cobs_encode (cd_encode C packet)"

definition bpio_request :: "codec \<Rightarrow> request_packet \<Rightarrow> u8 list bpio" where
  "bpio_request C packet a =
     (if ad_frame_limit a < length (cd_encode C packet)
      then (Inl (Failed (FrameTooLarge (ad_frame_limit a))), a)
      else case exchange_with [''writing BPIO2 frame'', ''flushing BPIO2 frame'']
                  (InstrumentTimeout ''reading BPIO2 frame'')
                  (read_delimited (ad_frame_limit a) ''reading BPIO2 frame'')
                  (request_frame C packet) (ad_wire a) of
             (r, w) \<Rightarrow> (r, a\<lparr>ad_wire := w\<rparr>))"

text \<open>The packet of a response, unless it reports an error or has another type.\<close>

definition response_of :: "codec \<Rightarrow> response_type \<Rightarrow> string \<Rightarrow> u8 list \<Rightarrow> instrument_error + response_packet" where
  "response_of C expected name bytes =
     rbind (map_err MalformedResponse (cd_decode C bytes)) (\<lambda>response.
     rbind (reject_packet_error (rs_error response)) (\<lambda>_.
       if rs_contents_type response \<noteq> expected
       then Inl (UnexpectedResponse name (response_type_debug (rs_contents_type response)))
       else Inr response))"

definition status_of :: "codec \<Rightarrow> u8 list \<Rightarrow> instrument_error + discovery" where
  "status_of C bytes =
     rbind (response_of C StatusResponse ''BPIO2 status'' bytes) (\<lambda>response.
     rbind (ok_or (rs_status response) (MalformedResponse ''status union has no status payload'')) (\<lambda>status.
     rbind (reject_packet_error (st_error status)) (\<lambda>_.
       Inr ((st_fields status)\<lparr>di_modes_available := (case st_modes_available status of None \<Rightarrow> [] | Some m \<Rightarrow> m),
              di_adc_millivolts := (case st_adc_mv status of None \<Rightarrow> [] | Some v \<Rightarrow> v)\<rparr>))))"

definition remember :: "discovery \<Rightarrow> discovery bpio" where
  "remember d a = (Inr d, a
     \<lparr>ad_frame_limit := min (if 0 < unat (di_max_packet_bytes d) then unat (di_max_packet_bytes d)
                             else DISCOVERY_FRAME_LIMIT) DISCOVERY_FRAME_LIMIT,
      ad_discovery := Some d\<rparr>)"

definition identify :: "codec \<Rightarrow> discovery bpio" where
  "identify C =
     abind (bpio_request C build_status_request) (\<lambda>bytes.
     abind (alift (status_of C bytes)) remember)"

definition expect_configuration_response :: "codec \<Rightarrow> request_packet \<Rightarrow> unit bpio" where
  "expect_configuration_response C packet =
     abind (bpio_request C packet) (\<lambda>bytes. alift (
       rbind (response_of C ConfigurationResponse ''BPIO2 configuration'' bytes) (\<lambda>response.
       rbind (ok_or (rs_configuration response)
               (MalformedResponse ''configuration union has no configuration payload''))
         reject_packet_error)))"

definition require_discovered_mode :: "string \<Rightarrow> unit bpio" where
  "require_discovered_mode mode a =
     alift (case ad_discovery a of
        None \<Rightarrow> Inl (DeviceRejected ''BPIO2 mode configuration requires a fresh status observation'')
      | Some d \<Rightarrow>
          if mode = [] \<or> list_ex (\<lambda>known. eq_ignore_ascii_case known mode) (di_modes_available d)
          then Inr ()
          else Inl (DeviceRejected (''firmware did not report '' @ mode @ '' mode''))) a"

definition configure_mode :: "codec \<Rightarrow> string \<Rightarrow> mode_config \<Rightarrow> unit bpio" where
  "configure_mode C mode config =
     abind (require_discovered_mode mode) (\<lambda>_.
       expect_configuration_response C (build_configuration_request mode config None None None None))"

definition set_psu :: "codec \<Rightarrow> u32 \<Rightarrow> u16 \<Rightarrow> unit bpio" where
  "set_psu C millivolts milliamps =
     (let setting = (if millivolts = 0 \<and> milliamps = 0 then PsuDisable else PsuEnable millivolts milliamps)
      in expect_configuration_response C
           (build_configuration_request [] default_mode_config (Some setting) None None None))"

definition set_gpio :: "codec \<Rightarrow> u8 \<Rightarrow> bool \<Rightarrow> unit bpio" where
  "set_gpio C pin high =
     (if 8 \<le> unat pin then afail (ProtocolLimit (unat pin) 7)
      else
        let mask = push_bit (unat pin) 1; value = (if high then mask else 0) in
        expect_configuration_response C
          (build_configuration_request [] default_mode_config None (Some (mask, mask)) (Some (mask, value)) None))"

definition check_limits :: "u8 list \<Rightarrow> u16 \<Rightarrow> unit bpio" where
  "check_limits data_write read_bytes a =
     alift (case ad_discovery a of
        None \<Rightarrow> Inr ()
      | Some d \<Rightarrow>
          if unat (di_max_write_bytes d) < length data_write
          then Inl (ProtocolLimit (length data_write) (unat (di_max_write_bytes d)))
          else if unat (di_max_read_bytes d) < unat read_bytes
          then Inl (ProtocolLimit (unat read_bytes) (unat (di_max_read_bytes d)))
          else Inr ()) a"

definition data_of :: "codec \<Rightarrow> bool \<Rightarrow> u16 \<Rightarrow> u8 list \<Rightarrow> instrument_error + u8 list" where
  "data_of C exact_read_length read_bytes bytes =
     rbind (response_of C DataResponse ''BPIO2 data'' bytes) (\<lambda>response.
     rbind (ok_or (rs_data response) (MalformedResponse ''data union has no data payload'')) (\<lambda>data.
     rbind (reject_packet_error (da_error data)) (\<lambda>_.
       let got = (case da_data_read data of None \<Rightarrow> [] | Some bs \<Rightarrow> bs) in
       if exact_read_length \<and> length got \<noteq> unat read_bytes
       then Inl (MalformedResponse (''BPIO2 data response has '' @ nat_text (length got)
              @ '' bytes, expected '' @ word_text read_bytes))
       else Inr got)))"

definition transfer_with_length_policy ::
  "codec \<Rightarrow> u8 list \<Rightarrow> u16 \<Rightarrow> bool \<Rightarrow> bool \<Rightarrow> bool \<Rightarrow> u8 list bpio" where
  "transfer_with_length_policy C data_write read_bytes start stop exact_read_length =
     abind (check_limits data_write read_bytes) (\<lambda>_.
     abind (bpio_request C (build_data_request data_write read_bytes start stop)) (\<lambda>bytes.
       alift (data_of C exact_read_length read_bytes bytes)))"

definition transfer :: "codec \<Rightarrow> u8 list \<Rightarrow> u16 \<Rightarrow> bool \<Rightarrow> bool \<Rightarrow> u8 list bpio" where
  "transfer C data_write read_bytes start stop =
     transfer_with_length_policy C data_write read_bytes start stop True"

definition transfer_up_to :: "codec \<Rightarrow> u8 list \<Rightarrow> u16 \<Rightarrow> bool \<Rightarrow> bool \<Rightarrow> u8 list bpio" where
  "transfer_up_to C data_write read_bytes start stop =
     transfer_with_length_policy C data_write read_bytes start stop False"

section \<open>What the adapter sends\<close>

text \<open>\<open>frame_of C Q\<close>: the frame of a request packet that satisfies \<open>Q\<close>.\<close>

definition frame_of :: "codec \<Rightarrow> (request_packet \<Rightarrow> bool) \<Rightarrow> u8 list \<Rightarrow> bool" where
  "frame_of C Q frame \<longleftrightarrow> (\<exists>packet. Q packet \<and> frame = request_frame C packet)"

abbreviation requests :: "codec \<Rightarrow> (request_packet \<Rightarrow> bool) \<Rightarrow> (adapter, 'e, 'a) action \<Rightarrow> bool" where
  "requests C Q m \<equiv> sends ad_wire (frame_of C Q) m"

lemma requests_request [sends_intros]:
  assumes "Q packet"
  shows "requests C Q (bpio_request C packet)"
proof (rule sendsI)
  fix a :: adapter
  let ?x = "exchange_with [''writing BPIO2 frame'', ''flushing BPIO2 frame'']
    (InstrumentTimeout ''reading BPIO2 frame'') (read_delimited (ad_frame_limit a) ''reading BPIO2 frame'')
    (request_frame C packet) :: (wire, instrument_error, u8 list) action"
  have "sends (\<lambda>w. w) (frame_of C Q) ?x"
    using assms by (auto intro!: sends_exchange simp: frame_of_def)
  then show "\<exists>frames. wr_sent (ad_wire (snd (bpio_request C packet a))) = wr_sent (ad_wire a) @ frames
      \<and> list_all (frame_of C Q) frames"
    by (auto simp: bpio_request_def sends_def split: prod.split) (metis snd_conv)
qed

lemma requests_reading [sends_intros]:
  "requests C Q (require_discovered_mode mode)" "requests C Q (check_limits bs n)"
  "requests C Q (remember d)"
  by (auto intro!: sendsI simp: require_discovered_mode_def check_limits_def remember_def alift_def)

lemma requests_identify [sends_intros]:
  "Q build_status_request \<Longrightarrow> requests C Q (identify C)"
  unfolding identify_def by (intro sends_intros)

lemma requests_configuration [sends_intros]:
  "Q packet \<Longrightarrow> requests C Q (expect_configuration_response C packet)"
  unfolding expect_configuration_response_def by (intro sends_intros)

lemma requests_configure_mode [sends_intros]:
  "Q (build_configuration_request mode config None None None None) \<Longrightarrow>
     requests C Q (configure_mode C mode config)"
  unfolding configure_mode_def by (intro sends_intros)

lemma requests_transfer [sends_intros]:
  "Q (build_data_request bs n start stop) \<Longrightarrow> requests C Q (transfer C bs n start stop)"
  "Q (build_data_request bs n start stop) \<Longrightarrow> requests C Q (transfer_up_to C bs n start stop)"
  unfolding transfer_def transfer_up_to_def transfer_with_length_policy_def by (auto intro!: sends_intros)

text \<open>A framed answer that fits the limit reaches the caller as it is.\<close>

lemma request_answered:
  assumes "length (cd_encode C packet) \<le> ad_frame_limit a"
    "length (cobs_encode answer) \<le> ad_frame_limit a + 1"
    "wr_pending (ad_wire a) = []" "wr_script (ad_wire a) = x # script"
    "ex_fault x = None" "ex_arrives x = map Inr (cobs_encode answer)"
  shows "bpio_request C packet a = (Inr answer, a\<lparr>ad_wire := (ad_wire a)
    \<lparr>wr_sent := wr_sent (ad_wire a) @ [request_frame C packet], wr_pending := [], wr_script := script\<rparr>\<rparr>)"
  using assms read_delimited_encoded [of "ad_frame_limit a" "''reading BPIO2 frame''" answer "[]"]
  by (simp add: bpio_request_def exchange_with_def)

end
