(* ===== verification/Device_Config.thy ===== *)
theory Device_Config
  imports Device_Errors Rust_Text Store_Examples
begin

text \<open>
  The configuration of instruments (\<open>src/instruments/config.rs\<close>), the validation of a
  video configuration (\<open>src/instruments/video.rs\<close>), the stable physical identities
  that the configurations name and the check that no two of them name the same instrument
  (\<open>src/service/backend/identity.rs\<close>). A path is its text; a map that the code only
  looks values up in is a list of pairs. Serialisation is a parameter.
\<close>

section \<open>Configurations\<close>

record serial_binding =
  sb_path :: string
  sb_baud_rate :: u32
  sb_expected_usb_identity :: string

record bpio2_config =
  bc_serial :: serial_binding
  bc_spi_hz :: u32
  bc_i2c_hz :: u32
  bc_uart_baud :: u32
  bc_psu_max_millivolts :: u32
  bc_psu_max_milliamps :: u32
  bc_pin_map :: "(string \<times> u8) list"
  bc_flash_capacity_bytes :: "u64 option"
  bc_flash_page_bytes :: "u32 option"
  bc_flash_erase_bytes :: "u32 option"
  bc_flash_four_byte_addressing :: bool

record numato_config =
  nc_serial :: serial_binding
  nc_relay_map :: "(string \<times> u8) list"

record simulator_config =
  sc_identity :: simulator_id
  sc_flash_bytes :: nat

record video_config =
  vc_device_path :: string
  vc_expected_usb_identity :: string
  vc_executable :: string
  vc_executable_sha256 :: string
  vc_frame_timeout_milliseconds :: u64
  vc_max_frame_bytes :: nat

datatype instrument_config =
    Bpio2Instrument bpio2_config
  | NumatoInstrument numato_config
  | SimulatorInstrument simulator_config
  | VideoInstrument video_config

record flash_identity =
  fi_jedec_id :: "u8 list"
  fi_sfdp_digest :: artifact_digest

record device_binding =
  db_config :: instrument_config
  db_target_fingerprint :: artifact_digest
  db_fixture_revision :: artifact_digest
  db_flash_identity :: "flash_identity option"

definition config_fingerprint ::
  "(u8 list \<Rightarrow> string) \<Rightarrow> (instrument_config \<Rightarrow> string + u8 list) \<Rightarrow> instrument_config \<Rightarrow> string + string" where
  "config_fingerprint sha256_hex to_vec config =
     rbind (to_vec config) (\<lambda>encoded. Inr (''sha256:'' @ sha256_hex encoded))"

section \<open>Video configuration\<close>

definition is_absolute :: "string \<Rightarrow> bool" where
  "is_absolute path \<longleftrightarrow> starts_with ''/'' path"

definition is_hex_word :: "string \<Rightarrow> bool" where
  "is_hex_word value \<longleftrightarrow> length value = 4 \<and> list_all is_lower_hex value"

definition video_config_validate :: "video_config \<Rightarrow> instrument_error + unit" where
  "video_config_validate c =
     (if trim (vc_expected_usb_identity c) = []
      then Inl (InvalidVideoConfiguration ''expected_usb_identity must not be empty'')
      else if vc_executable c = []
      then Inl (InvalidVideoConfiguration ''executable must not be empty'')
      else if length (vc_executable_sha256 c) \<noteq> 64 \<or> \<not> list_all is_lower_hex (vc_executable_sha256 c)
      then Inl (InvalidVideoConfiguration
             ''executable_sha256 must be 64 lowercase hexadecimal characters'')
      else if vc_frame_timeout_milliseconds c = 0
      then Inl (InvalidVideoConfiguration ''frame_timeout_milliseconds must be non-zero'')
      else if vc_max_frame_bytes c = 0
      then Inl (InvalidVideoConfiguration ''max_frame_bytes must be non-zero'')
      else Inr ())"

record parsed_identity =
  pi_vendor :: string
  pi_product :: string
  pi_serial :: string

definition render_identity :: "parsed_identity \<Rightarrow> string" where
  "render_identity p = pi_vendor p @ '':'' @ pi_product p @ '':'' @ pi_serial p"

text \<open>The first three fields, missing ones empty, and whether there is a fourth.\<close>

definition parse_identity :: "string \<Rightarrow> instrument_error + parsed_identity" where
  "parse_identity value =
     (let parts = split_on (CHR '':'') value;
          field = (\<lambda>i. if i < length parts then parts ! i else []) in
      if 3 < length parts \<or> \<not> is_hex_word (field 0) \<or> \<not> is_hex_word (field 1) \<or> trim (field 2) = []
      then Inl (InvalidVideoConfiguration ''expected_usb_identity must be lowercase vid:pid:serial'')
      else Inr \<lparr>pi_vendor = field 0, pi_product = field 1, pi_serial = field 2\<rparr>)"

text \<open>\<open>VideoAdapter::new\<close>: the configuration, once it is valid.\<close>

definition video_validate_config :: "video_config \<Rightarrow> instrument_error + unit" where
  "video_validate_config c =
     rbind (video_config_validate c) (\<lambda>_.
       if \<not> is_absolute (vc_device_path c)
       then Inl (InvalidVideoConfiguration ''device_path must be absolute'')
       else if \<not> is_absolute (vc_executable c)
       then Inl (InvalidVideoConfiguration ''executable must be absolute'')
       else rbind (parse_identity (vc_expected_usb_identity c)) (\<lambda>parsed.
         if pi_serial parsed = []
         then Inl (InvalidVideoConfiguration ''expected_usb_identity serial must not be empty'')
         else Inr ()))"

section \<open>Physical identities\<close>

definition is_unknown_serial :: "string \<Rightarrow> bool" where
  "is_unknown_serial serial \<longleftrightarrow>
     to_ascii_lowercase serial \<in> {''unknown'', ''none'', ''null'', ''n/a''}"

definition is_lower_hex_word :: "string \<Rightarrow> bool" where
  "is_lower_hex_word value \<longleftrightarrow> length value = 4
     \<and> list_all (\<lambda>byte. is_ascii_digit byte \<or> (CHR ''a'' \<le> byte \<and> byte \<le> CHR ''f'')) value"

definition canonical_usb_identity :: "string \<Rightarrow> backend_error + string" where
  "canonical_usb_identity value =
     (case splitn3 (CHR '':'') value of
        [vid, pid, serial] \<Rightarrow>
          if \<not> is_lower_hex_word vid \<or> \<not> is_lower_hex_word pid \<or> serial = [] \<or> is_unknown_serial serial
          then Inl (malformed ''USB identity requires lowercase four-hex VID:PID and a known serial'')
          else Inr (''usb:'' @ vid @ '':'' @ pid @ '':'' @ serial)
      | _ \<Rightarrow> Inl (malformed ''USB identity must be vid:pid:serial''))"

definition canonical_serial_usb_identity :: "string \<Rightarrow> backend_error + string" where
  "canonical_serial_usb_identity value =
     (case strip_prefix ''usb:'' value of
        None \<Rightarrow> Inl (malformed ''serial USB identity must start with usb:'')
      | Some raw \<Rightarrow> canonical_usb_identity raw)"

definition canonical_video_usb_identity :: "string \<Rightarrow> backend_error + string" where
  "canonical_video_usb_identity value = canonical_usb_identity value"

fun config_serial :: "instrument_config \<Rightarrow> serial_binding option" where
  "config_serial (Bpio2Instrument c) = Some (bc_serial c)"
| "config_serial (NumatoInstrument c) = Some (nc_serial c)"
| "config_serial _ = None"

definition pin_out_of_range :: "nat \<Rightarrow> (string \<times> u8) list \<Rightarrow> bool" where
  "pin_out_of_range bound entries \<longleftrightarrow> list_ex (\<lambda>(_, pin). bound \<le> unat pin) entries"

definition validate_config :: "(string \<Rightarrow> string) \<Rightarrow> instrument_config \<Rightarrow> backend_error + unit" where
  "validate_config debug config =
     rbind (case config of
        Bpio2Instrument c \<Rightarrow>
          if bc_spi_hz c = 0 \<or> bc_i2c_hz c = 0 \<or> bc_uart_baud c = 0
          then Inl (malformed ''bus speeds must be positive'')
          else if pin_out_of_range 8 (bc_pin_map c) \<or> bc_psu_max_milliamps c > 0xFFFF
          then Inl (malformed ''instrument electrical configuration exceeds protocol limits'')
          else Inr ()
      | NumatoInstrument c \<Rightarrow>
          malformed_if (pin_out_of_range 4 (nc_relay_map c))
            ''Numato relay map is outside the four-channel module''
      | SimulatorInstrument c \<Rightarrow>
          malformed_if (sc_flash_bytes c = 0 \<or> MAX_EVIDENCE_BYTES < sc_flash_bytes c)
            ''simulator flash capacity is outside 1..=64MiB''
      | VideoInstrument c \<Rightarrow>
          map_err (\<lambda>e. transport (instrument_text debug e)) (video_validate_config c)) (\<lambda>_.
     rbind (case config_serial config of
        None \<Rightarrow> Inr ()
      | Some serial \<Rightarrow>
          if \<not> is_absolute (sb_path serial) \<or> sb_baud_rate serial = 0
          then Inl (malformed
            ''serial configuration requires an absolute bound path and positive baud rate'')
          else rbind (canonical_serial_usb_identity (sb_expected_usb_identity serial)) (\<lambda>_. Inr ())) (\<lambda>_.
     case config of
        VideoInstrument c \<Rightarrow>
          rbind (canonical_video_usb_identity (vc_expected_usb_identity c)) (\<lambda>_. Inr ())
      | _ \<Rightarrow> Inr ()))"

text \<open>The text that names the physical instrument of a configuration.\<close>

definition identity_key :: "instrument_config \<Rightarrow> backend_error + string" where
  "identity_key config = (case config of
     Bpio2Instrument c \<Rightarrow> canonical_serial_usb_identity (sb_expected_usb_identity (bc_serial c))
   | NumatoInstrument c \<Rightarrow> canonical_serial_usb_identity (sb_expected_usb_identity (nc_serial c))
   | SimulatorInstrument c \<Rightarrow> Inr (''simulator:'' @ simulator_str (sc_identity c))
   | VideoInstrument c \<Rightarrow> canonical_video_usb_identity (vc_expected_usb_identity c))"

definition key_digest :: "env \<Rightarrow> string \<Rightarrow> artifact_digest" where
  "key_digest E key = text_digest E (''cheirismos:physical-identity:v1:'' @ key)"

definition configured_physical_identity ::
  "env \<Rightarrow> (string \<Rightarrow> string) \<Rightarrow> instrument_config \<Rightarrow> backend_error + artifact_digest" where
  "configured_physical_identity E debug config =
     rbind (validate_config debug config) (\<lambda>_.
     rbind (identity_key config) (\<lambda>key. Inr (key_digest E key)))"

fun unique_loop ::
  "env \<Rightarrow> (string \<Rightarrow> string) \<Rightarrow> instrument_config list \<Rightarrow> artifact_digest list \<Rightarrow> backend_error + unit" where
  "unique_loop E debug [] identities = Inr ()"
| "unique_loop E debug (config # configs) identities =
     rbind (configured_physical_identity E debug config) (\<lambda>identity.
       if identity \<in> set identities
       then Inl (malformed ''multiple configured aliases resolve to the same physical instrument'')
       else unique_loop E debug configs (identity # identities))"

definition validate_unique_physical_identities ::
  "env \<Rightarrow> (string \<Rightarrow> string) \<Rightarrow> instrument_config list \<Rightarrow> backend_error + unit" where
  "validate_unique_physical_identities E debug configs = unique_loop E debug configs []"

section \<open>What an identity names\<close>

text \<open>The canonical form of a serial identity is the identity itself; the canonical form of
  a video identity gives it the same prefix, so that one USB device has one name.\<close>

lemma canonical_usb_identityD: "canonical_usb_identity value = Inr key \<Longrightarrow> key = ''usb:'' @ value"
  by (auto simp: canonical_usb_identity_def splitn3_fields split: list.splits if_splits)

lemma canonical_serial_usb_identityD: "canonical_serial_usb_identity value = Inr key \<Longrightarrow> key = value"
  by (auto simp: canonical_serial_usb_identity_def strip_prefix_def starts_with_iff
      dest!: canonical_usb_identityD split: if_splits)

definition physical_instrument :: "instrument_config \<Rightarrow> string" where
  "physical_instrument config = (case config of
     Bpio2Instrument c \<Rightarrow> sb_expected_usb_identity (bc_serial c)
   | NumatoInstrument c \<Rightarrow> sb_expected_usb_identity (nc_serial c)
   | SimulatorInstrument c \<Rightarrow> ''simulator:'' @ simulator_str (sc_identity c)
   | VideoInstrument c \<Rightarrow> ''usb:'' @ vc_expected_usb_identity c)"

lemma identity_keyD: "identity_key config = Inr key \<Longrightarrow> key = physical_instrument config"
  by (auto simp: identity_key_def physical_instrument_def canonical_video_usb_identity_def
      dest: canonical_serial_usb_identityD canonical_usb_identityD split: instrument_config.splits)

lemma validate_config_key:
  "validate_config debug config = Inr () \<Longrightarrow> identity_key config = Inr (physical_instrument config)"
proof -
  assume valid: "validate_config debug config = Inr ()"
  then have "\<exists>key. identity_key config = Inr key"
    by (cases config) (auto simp: validate_config_def identity_key_def)
  then show ?thesis using identity_keyD by auto
qed

lemma configured_physical_identity_iff:
  "configured_physical_identity E debug config = Inr d \<longleftrightarrow>
     validate_config debug config = Inr () \<and> d = key_digest E (physical_instrument config)"
  by (auto simp: configured_physical_identity_def dest: validate_config_key)

lemma unique_loop_iff:
  "unique_loop E debug configs identities = Inr () \<longleftrightarrow>
     (\<forall>c\<in>set configs. validate_config debug c = Inr ())
     \<and> distinct (map (key_digest E \<circ> physical_instrument) configs)
     \<and> set (map (key_digest E \<circ> physical_instrument) configs) \<inter> set identities = {}"
  by (induction configs arbitrary: identities) (auto simp: configured_physical_identity_iff)

text \<open>The configured instruments are accepted exactly when every configuration is valid
  and no two of them name the same physical instrument, as long as the digest has no collision
  among their names. A serial bridge and a camera with one USB identity count as the same.\<close>

theorem unique_identities_exact:
  assumes "inj_on (key_digest E) (physical_instrument ` set configs)"
  shows "validate_unique_physical_identities E debug configs = Inr () \<longleftrightarrow>
    (\<forall>c\<in>set configs. validate_config debug c = Inr ()) \<and> distinct (map physical_instrument configs)"
proof -
  have "distinct (map (key_digest E) (map physical_instrument configs))
      \<longleftrightarrow> distinct (map physical_instrument configs)"
    using assms by (auto simp: distinct_map image_comp intro: comp_inj_on dest: inj_on_imageI2)
  then show ?thesis by (simp add: validate_unique_physical_identities_def unique_loop_iff)
qed

definition ex_identity_env :: env where
  "ex_identity_env = ex_env\<lparr>env_sha256_hex := map (\<lambda>b. char_of (unat b))\<rparr>"

definition ex_serial :: serial_binding where
  "ex_serial = \<lparr>sb_path = ''/dev/relay'', sb_baud_rate = 19200,
     sb_expected_usb_identity = ''usb:2a19:0c02:n-7''\<rparr>"

definition ex_relay_config :: instrument_config where
  "ex_relay_config = NumatoInstrument \<lparr>nc_serial = ex_serial, nc_relay_map = [(''power'', 0)]\<rparr>"

definition ex_simulator_config :: instrument_config where
  "ex_simulator_config = SimulatorInstrument \<lparr>sc_identity = SimulatorId ''s'', sc_flash_bytes = 8\<rparr>"

definition ex_camera_config :: "string \<Rightarrow> instrument_config" where
  "ex_camera_config usb = VideoInstrument \<lparr>vc_device_path = ''/dev/video0'',
     vc_expected_usb_identity = usb, vc_executable = ''/usr/bin/ffmpeg'',
     vc_executable_sha256 = replicate 64 (CHR ''0''), vc_frame_timeout_milliseconds = 200,
     vc_max_frame_bytes = 1024\<rparr>"

lemma byte_char: "char_of (unat (of_char c :: u8)) = c"
proof -
  have "(of_char c :: u8) = of_nat (of_char c)" by (rule of_nat_of_char [symmetric])
  then show ?thesis by (simp add: unat_of_nat)
qed

lemma ex_identity_inj: "inj (key_digest ex_identity_env)"
proof (rule injI)
  fix a b assume "key_digest ex_identity_env a = key_digest ex_identity_env b"
  moreover have "map (\<lambda>b. char_of (unat b)) (as_bytes s) = s" for s
    by (induction s) (simp_all add: as_bytes_def byte_char)
  ultimately show "a = b"
    by (auto simp: key_digest_def text_digest_def artifact_sha256_def ex_identity_env_def as_bytes_def)
qed

lemma ex_configs_valid:
  "validate_config id ex_relay_config = Inr ()" "validate_config id ex_simulator_config = Inr ()"
  "validate_config id (ex_camera_config ''2a19:0c02:n-7'') = Inr ()"
  subgoal by code_simp
  subgoal by (simp add: validate_config_def ex_simulator_config_def MAX_EVIDENCE_BYTES_def)
  subgoal by code_simp
  done

lemma unique_identities_exact_witness:
  "validate_unique_physical_identities ex_identity_env id [ex_relay_config, ex_simulator_config] = Inr ()
   \<and> validate_unique_physical_identities ex_identity_env id
       [ex_relay_config, ex_camera_config ''2a19:0c02:n-7''] \<noteq> Inr ()"
proof -
  have inj: "inj_on (key_digest ex_identity_env) A" for A
    using ex_identity_inj by (rule inj_on_subset) simp
  have "physical_instrument ex_relay_config = physical_instrument (ex_camera_config ''2a19:0c02:n-7'')"
    "physical_instrument ex_relay_config \<noteq> physical_instrument ex_simulator_config"
    by (simp_all add: physical_instrument_def ex_relay_config_def ex_camera_config_def ex_serial_def
        ex_simulator_config_def)
  then show ?thesis
    using unique_identities_exact [OF inj, where configs = "[ex_relay_config, ex_simulator_config]" and debug = id]
      unique_identities_exact [OF inj,
        where configs = "[ex_relay_config, ex_camera_config ''2a19:0c02:n-7'']" and debug = id]
      ex_configs_valid by simp
qed

end
