(* ===== verification/Preflight.thy ===== *)
theory Preflight
  imports Device_Config
begin

text \<open>
  What the backend checks of an operation before it opens a device
  (\<open>src/service/backend/preflight.rs\<close>, \<open>source_bytes\<close> of
  \<open>src/service/backend/mod.rs\<close>). \<open>artifacts\<close> resolves a digest to its verified
  bytes or to the text of a failure.
\<close>

section \<open>Checks\<close>

type_synonym resolver = "artifact_digest \<Rightarrow> string + u8 list"

definition conversion_text :: string where
  "conversion_text = ''out of range integral type conversion attempted''"

definition try_u8 :: "u16 \<Rightarrow> backend_error + u8" where
  "try_u8 w = (if unat w < 256 then Inr (ucast w) else Inl (malformed conversion_text))"

definition source_bytes :: "resolver \<Rightarrow> artifact_digest \<Rightarrow> u32 \<Rightarrow> backend_error + u8 list" where
  "source_bytes artifacts digest len =
     rbind (map_err transport (artifacts digest)) (\<lambda>bytes.
       if length bytes \<noteq> unat len \<or> MAX_EVIDENCE_BYTES < length bytes
       then Inl (malformed ''candidate artifact length must exactly match planned region'')
       else Inr bytes)"

definition exact_source :: "resolver \<Rightarrow> artifact_digest \<Rightarrow> u32 \<Rightarrow> backend_error + unit" where
  "exact_source artifacts source len = rbind (source_bytes artifacts source len) (\<lambda>_. Inr ())"

definition simulator_range :: "nat \<Rightarrow> u64 \<Rightarrow> u32 \<Rightarrow> backend_error + unit" where
  "simulator_range flash_bytes offset len =
     rbind (if flash_bytes < usize_bound then Inr (of_nat flash_bytes :: u64)
            else Inl (malformed conversion_text)) (\<lambda>capacity.
     rbind (ok_or (checked_add offset (ucast len)) (malformed ''simulator flash range overflows'')) (\<lambda>range_end.
       malformed_if (range_end > capacity) ''simulator flash range exceeds configured capacity''))"

definition nonempty_exchange :: "nat \<Rightarrow> u32 \<Rightarrow> string \<Rightarrow> backend_error + unit" where
  "nonempty_exchange write_bytes read_bytes kind =
     malformed_if (write_bytes = 0 \<and> read_bytes = 0) (kind @ '' must write or capture at least one byte'')"

definition nonzero :: "u32 \<Rightarrow> string \<Rightarrow> backend_error + unit" where
  "nonzero len kind = malformed_if (len = 0) (kind @ '' must capture at least one byte'')"

definition bounded_bytes :: "nat \<Rightarrow> string \<Rightarrow> backend_error + unit" where
  "bounded_bytes len kind = malformed_if (MAX_EVIDENCE_BYTES < len) (kind @ '' exceeds 64MiB evidence limit'')"

definition bounded_capture :: "u32 \<Rightarrow> string \<Rightarrow> backend_error + unit" where
  "bounded_capture len kind = rbind (nonzero len kind) (\<lambda>_. bounded_bytes (unat len) kind)"

definition bounded_optional_capture :: "u32 \<Rightarrow> string \<Rightarrow> backend_error + unit" where
  "bounded_optional_capture len kind = (if len = 0 then Inr () else bounded_capture len kind)"

fun capability_debug :: "capability \<Rightarrow> string" where
  "capability_debug CapInstrumentStatus = ''InstrumentStatus''"
| "capability_debug CapSpi = ''Spi''"
| "capability_debug CapI2c = ''I2c''"
| "capability_debug CapUart = ''Uart''"
| "capability_debug CapGpio = ''Gpio''"
| "capability_debug CapAdc = ''Adc''"
| "capability_debug CapPsu = ''Psu''"
| "capability_debug CapRelay = ''Relay''"
| "capability_debug CapFlash = ''Flash''"
| "capability_debug CapVideo = ''Video''"
| "capability_debug CapWait = ''Wait''"

definition unsupported :: "string \<Rightarrow> operation \<Rightarrow> backend_error" where
  "unsupported instrument oper =
     malformed (capability_debug (op_capability oper) @ '' is unsupported by '' @ instrument)"

definition flash_mode :: "bpio2_config \<Rightarrow> address_mode" where
  "flash_mode c = (if bc_flash_four_byte_addressing c then FourByte else ThreeByte)"

definition qualified_bpio_geometry :: "bpio2_config \<Rightarrow> backend_error + flash_geometry" where
  "qualified_bpio_geometry c =
     (case (bc_flash_capacity_bytes c, bc_flash_page_bytes c, bc_flash_erase_bytes c) of
        (Some capacity, Some page, Some erase) \<Rightarrow>
          map_err (\<lambda>e. malformed (layout_text e)) (geometry_try_new capacity page erase (flash_mode c))
      | _ \<Rightarrow> Inl (malformed ''flash requires commissioned capacity, page, and erase geometry''))"

definition require_flash_identity :: "device_binding \<Rightarrow> backend_error + unit" where
  "require_flash_identity binding =
     malformed_if (db_flash_identity binding = None)
       ''flash operation requires commissioned JEDEC and SFDP identity''"

section \<open>Validation per instrument\<close>

abbreviation BPIO_MAX_REQUEST_BYTES :: nat where "BPIO_MAX_REQUEST_BYTES \<equiv> 65535"
abbreviation I2C_ADDRESS_BYTES :: nat where "I2C_ADDRESS_BYTES \<equiv> 1"

definition configured_value :: "(string \<times> u8) list \<Rightarrow> u8 \<Rightarrow> bool" where
  "configured_value entries v \<longleftrightarrow> list_ex (\<lambda>(_, configured). configured = v) entries"

definition validate_flash_source ::
  "device_binding \<Rightarrow> bpio2_config \<Rightarrow> resolver \<Rightarrow> u64 \<Rightarrow> artifact_digest \<Rightarrow> u32 \<Rightarrow> backend_error + unit" where
  "validate_flash_source binding c artifacts offset source len =
     rbind (qualified_bpio_geometry c) (\<lambda>geometry.
     rbind (nonzero len ''flash write/verify'') (\<lambda>_.
     rbind (bounded_capture len ''flash write/verify'') (\<lambda>_.
     rbind (require_flash_identity binding) (\<lambda>_.
     rbind (map_err (\<lambda>e. malformed (layout_text e)) (validate_range geometry offset len)) (\<lambda>_.
       exact_source artifacts source len)))))"

definition validate_bpio ::
  "device_binding \<Rightarrow> bpio2_config \<Rightarrow> operation \<Rightarrow> resolver \<Rightarrow> backend_error + unit" where
  "validate_bpio binding c oper artifacts =
     (if bc_spi_hz c = 0 \<or> bc_i2c_hz c = 0 \<or> bc_uart_baud c = 0
      then Inl (malformed ''BPIO2 configured bus speeds must be positive'')
      else if pin_out_of_range 8 (bc_pin_map c) \<or> bc_psu_max_milliamps c > 0xFFFF
      then Inl (malformed ''BPIO2 electrical configuration exceeds protocol limits'')
      else case oper of
        InstrumentStatus _ _ \<Rightarrow> Inr ()
      | SpiTransfer _ _ tx rx_bytes \<Rightarrow>
          rbind (nonempty_exchange (length tx) rx_bytes ''SPI transfer'') (\<lambda>_.
          rbind (bounded_bytes (length tx) ''SPI write'') (\<lambda>_.
            bounded_optional_capture rx_bytes ''SPI capture''))
      | I2cTransfer _ _ addr tx rx_bytes \<Rightarrow>
          if addr > 0x7F then Inl (malformed ''I2C address must be a seven-bit value'')
          else
          rbind (nonempty_exchange (length tx) rx_bytes ''I2C transfer'') (\<lambda>_.
          rbind (bounded_bytes (length tx) ''I2C write'') (\<lambda>_.
          rbind (bounded_optional_capture rx_bytes ''I2C capture'') (\<lambda>_.
            if usize_bound \<le> length tx + I2C_ADDRESS_BYTES
            then Inl (malformed ''I2C write length overflows BPIO2 request bounds'')
            else malformed_if (BPIO_MAX_REQUEST_BYTES < length tx + I2C_ADDRESS_BYTES
                   \<or> BPIO_MAX_REQUEST_BYTES < unat rx_bytes)
                   ''I2C transfer exceeds one unsplittable BPIO2 u16 request'')))
      | I2cScan _ _ \<Rightarrow> Inr ()
      | UartCapture _ _ max_bytes \<Rightarrow> bounded_capture max_bytes ''UART capture''
      | UartTransmit _ _ bytes \<Rightarrow>
          if bytes = [] then Inl (malformed ''UART transmit must contain at least one byte'')
          else bounded_bytes (length bytes) ''UART transmit''
      | GpioSet _ _ pin _ \<Rightarrow>
          rbind (try_u8 pin) (\<lambda>pin.
            malformed_if (8 \<le> pin \<or> \<not> configured_value (bc_pin_map c) pin)
              ''GPIO pin is outside the configured fixture pin map'')
      | AdcRead _ _ channel \<Rightarrow>
          malformed_if (8 \<le> channel) ''ADC channel is outside the BPIO IO pin range''
      | PsuSet _ _ millivolts milliamps \<Rightarrow>
          malformed_if (millivolts > bc_psu_max_millivolts c \<or> milliamps > bc_psu_max_milliamps c
              \<or> milliamps > 0xFFFF)
            ''PSU request exceeds configured electrical or protocol limits''
      | FlashIdentify _ _ \<Rightarrow> Inr ()
      | FlashRead _ _ offset len \<Rightarrow>
          rbind (qualified_bpio_geometry c) (\<lambda>geometry.
          rbind (bounded_capture len ''flash read'') (\<lambda>_.
          rbind (require_flash_identity binding) (\<lambda>_.
            map_err (\<lambda>e. malformed (layout_text e)) (validate_range geometry offset len))))
      | FlashErase _ _ offset len \<Rightarrow>
          rbind (qualified_bpio_geometry c) (\<lambda>geometry.
          rbind (nonzero len ''flash erase'') (\<lambda>_.
          rbind (bounded_capture len ''flash erase'') (\<lambda>_.
          rbind (require_flash_identity binding) (\<lambda>_.
            map_err (\<lambda>e. malformed (layout_text e)) (validate_erase geometry offset len)))))
      | FlashWrite _ _ offset source len \<Rightarrow> validate_flash_source binding c artifacts offset source len
      | FlashVerify _ _ offset source len \<Rightarrow> validate_flash_source binding c artifacts offset source len
      | _ \<Rightarrow> Inl (unsupported ''BPIO2'' oper))"

definition validate_relay :: "numato_config \<Rightarrow> u16 \<Rightarrow> backend_error + unit" where
  "validate_relay c relay =
     rbind (try_u8 relay) (\<lambda>relay.
       malformed_if (4 \<le> relay \<or> \<not> configured_value (nc_relay_map c) relay)
         ''relay is outside the configured Numato fixture map'')"

definition validate_numato :: "numato_config \<Rightarrow> operation \<Rightarrow> backend_error + unit" where
  "validate_numato c oper =
     (if pin_out_of_range 4 (nc_relay_map c)
      then Inl (malformed ''Numato relay map is outside the four-channel module'')
      else case oper of
        InstrumentStatus _ _ \<Rightarrow> Inr ()
      | RelaySet _ _ relay _ \<Rightarrow> validate_relay c relay
      | RelayRead _ _ relay \<Rightarrow> validate_relay c relay
      | _ \<Rightarrow> Inl (unsupported ''Numato'' oper))"

definition validate_simulator_source ::
  "nat \<Rightarrow> resolver \<Rightarrow> u64 \<Rightarrow> artifact_digest \<Rightarrow> u32 \<Rightarrow> backend_error + unit" where
  "validate_simulator_source flash_bytes artifacts offset source len =
     rbind (nonzero len ''simulator flash write/verify'') (\<lambda>_.
     rbind (bounded_capture len ''simulator flash write/verify'') (\<lambda>_.
     rbind (simulator_range flash_bytes offset len) (\<lambda>_. exact_source artifacts source len)))"

definition validate_simulator :: "nat \<Rightarrow> operation \<Rightarrow> resolver \<Rightarrow> backend_error + unit" where
  "validate_simulator flash_bytes oper artifacts =
     (if flash_bytes = 0 \<or> MAX_EVIDENCE_BYTES < flash_bytes
      then Inl (malformed ''simulator flash capacity is outside 1..=64MiB'')
      else case oper of
        InstrumentStatus _ _ \<Rightarrow> Inr ()
      | FlashIdentify _ _ \<Rightarrow> Inr ()
      | RelaySet _ _ relay _ \<Rightarrow> malformed_if (4 \<le> relay) ''simulator relay is outside 0..4''
      | RelayRead _ _ relay \<Rightarrow> malformed_if (4 \<le> relay) ''simulator relay is outside 0..4''
      | FlashRead _ _ offset len \<Rightarrow>
          rbind (bounded_capture len ''simulator flash read'') (\<lambda>_. simulator_range flash_bytes offset len)
      | FlashErase _ _ offset len \<Rightarrow>
          rbind (nonzero len ''simulator flash erase'') (\<lambda>_.
          rbind (bounded_capture len ''simulator flash erase'') (\<lambda>_.
            simulator_range flash_bytes offset len))
      | FlashWrite _ _ offset source len \<Rightarrow>
          validate_simulator_source flash_bytes artifacts offset source len
      | FlashVerify _ _ offset source len \<Rightarrow>
          validate_simulator_source flash_bytes artifacts offset source len
      | _ \<Rightarrow> Inl (unsupported ''simulator'' oper))"

definition validate_video :: "(string \<Rightarrow> string) \<Rightarrow> video_config \<Rightarrow> operation \<Rightarrow> backend_error + unit" where
  "validate_video debug c oper =
     rbind (map_err (\<lambda>e. transport (instrument_text debug e)) (video_validate_config c)) (\<lambda>_.
       if MAX_EVIDENCE_BYTES < vc_max_frame_bytes c
       then Inl (malformed ''video frame capacity exceeds 64MiB evidence limit'')
       else case oper of
         InstrumentStatus _ _ \<Rightarrow> Inr ()
       | VideoCapture _ _ \<Rightarrow> Inr ()
       | _ \<Rightarrow> Inl (unsupported ''video'' oper))"

definition preflight_validate ::
  "(string \<Rightarrow> string) \<Rightarrow> device_binding \<Rightarrow> operation \<Rightarrow> resolver \<Rightarrow> backend_error + unit" where
  "preflight_validate debug binding oper artifacts = (case db_config binding of
     Bpio2Instrument c \<Rightarrow> validate_bpio binding c oper artifacts
   | NumatoInstrument c \<Rightarrow> validate_numato c oper
   | SimulatorInstrument c \<Rightarrow> validate_simulator (sc_flash_bytes c) oper artifacts
   | VideoInstrument c \<Rightarrow> validate_video debug c oper)"

section \<open>What the checks accept\<close>

lemma capture_checks [simp]:
  "nonzero len kind = Inr u \<longleftrightarrow> len \<noteq> 0"
  "bounded_bytes n kind = Inr u \<longleftrightarrow> n \<le> MAX_EVIDENCE_BYTES"
  "bounded_capture len kind = Inr u \<longleftrightarrow> len \<noteq> 0 \<and> unat len \<le> MAX_EVIDENCE_BYTES"
  "bounded_optional_capture len kind = Inr u \<longleftrightarrow> unat len \<le> MAX_EVIDENCE_BYTES"
  "nonempty_exchange n len kind = Inr u \<longleftrightarrow> 0 < n \<or> len \<noteq> 0"
  by (auto simp: nonzero_def bounded_bytes_def bounded_capture_def bounded_optional_capture_def
      nonempty_exchange_def)

lemma source_bytes_iff:
  "source_bytes artifacts digest len = Inr bytes \<longleftrightarrow>
     artifacts digest = Inr bytes \<and> length bytes = unat len \<and> unat len \<le> MAX_EVIDENCE_BYTES"
  by (auto simp: source_bytes_def)

lemma exact_source_iff:
  "exact_source artifacts digest len = Inr u \<longleftrightarrow>
     (\<exists>bytes. artifacts digest = Inr bytes \<and> length bytes = unat len \<and> unat len \<le> MAX_EVIDENCE_BYTES)"
  by (simp add: exact_source_def source_bytes_iff)

lemma simulator_range_iff:
  assumes "flash_bytes \<le> MAX_EVIDENCE_BYTES"
  shows "simulator_range flash_bytes offset len = Inr u \<longleftrightarrow> unat offset + unat len \<le> flash_bytes"
proof -
  have bound: "flash_bytes < usize_bound" using assms by (simp add: MAX_EVIDENCE_BYTES_def)
  then have "unat (of_nat flash_bytes :: u64) = flash_bytes" by (simp add: unat_of_nat)
  then show ?thesis using bound
    by (auto simp: simulator_range_def checked_add_Some_iff word_less_nat_alt not_less
        checked_add_def unat_word_ariths)
qed

lemma try_u8_iff: "try_u8 w = Inr b \<longleftrightarrow> unat w < 256 \<and> b = ucast w"
  by (auto simp: try_u8_def)

lemma qualified_bpio_geometryD:
  assumes "qualified_bpio_geometry c = Inr g"
  shows "qualified_geometry g" "bc_flash_capacity_bytes c = Some (capacity_bytes g)"
    "bc_flash_page_bytes c = Some (page_bytes g)" "bc_flash_erase_bytes c = Some (erase_bytes g)"
    "address_mode g = flash_mode c"
proof -
  obtain capacity page erase where new: "geometry_try_new capacity page erase (flash_mode c) = Inr g"
    and fields: "bc_flash_capacity_bytes c = Some capacity" "bc_flash_page_bytes c = Some page"
      "bc_flash_erase_bytes c = Some erase"
    using assms by (auto simp: qualified_bpio_geometry_def split: option.splits)
  then show "qualified_geometry g" by (blast intro: geometry_try_new_qualified)
  show "bc_flash_capacity_bytes c = Some (capacity_bytes g)" "bc_flash_page_bytes c = Some (page_bytes g)"
    "bc_flash_erase_bytes c = Some (erase_bytes g)" "address_mode g = flash_mode c"
    using new fields by (auto simp: geometry_try_new_def split: if_splits)
qed

text \<open>What an operation has to satisfy, with every size a natural number.\<close>

definition commissioned_flash :: "device_binding \<Rightarrow> bpio2_config \<Rightarrow> nat \<Rightarrow> nat \<Rightarrow> bool" where
  "commissioned_flash binding c offset len \<longleftrightarrow>
     db_flash_identity binding \<noteq> None \<and> 0 < len \<and> len \<le> MAX_EVIDENCE_BYTES
     \<and> (\<exists>g. qualified_bpio_geometry c = Inr g \<and> offset + len \<le> unat (capacity_bytes g))"

definition available :: "resolver \<Rightarrow> artifact_digest \<Rightarrow> nat \<Rightarrow> bool" where
  "available artifacts source len \<longleftrightarrow> (\<exists>bytes. artifacts source = Inr bytes \<and> length bytes = len)"

fun bpio_fits :: "device_binding \<Rightarrow> bpio2_config \<Rightarrow> resolver \<Rightarrow> operation \<Rightarrow> bool" where
  "bpio_fits binding c artifacts (SpiTransfer _ _ tx rx) \<longleftrightarrow>
     0 < length tx + unat rx \<and> length tx \<le> MAX_EVIDENCE_BYTES \<and> unat rx \<le> MAX_EVIDENCE_BYTES"
| "bpio_fits binding c artifacts (I2cTransfer _ _ addr tx rx) \<longleftrightarrow>
     unat addr < 128 \<and> 0 < length tx + unat rx \<and> length tx < 65535 \<and> unat rx < 65536"
| "bpio_fits binding c artifacts (UartCapture _ _ n) \<longleftrightarrow> 0 < unat n \<and> unat n \<le> MAX_EVIDENCE_BYTES"
| "bpio_fits binding c artifacts (UartTransmit _ _ bs) \<longleftrightarrow> bs \<noteq> [] \<and> length bs \<le> MAX_EVIDENCE_BYTES"
| "bpio_fits binding c artifacts (GpioSet _ _ pin _) \<longleftrightarrow>
     unat pin < 8 \<and> (\<exists>name. (name, ucast pin) \<in> set (bc_pin_map c))"
| "bpio_fits binding c artifacts (AdcRead _ _ channel) \<longleftrightarrow> unat channel < 8"
| "bpio_fits binding c artifacts (PsuSet _ _ millivolts milliamps) \<longleftrightarrow>
     unat millivolts \<le> unat (bc_psu_max_millivolts c) \<and> unat milliamps \<le> unat (bc_psu_max_milliamps c)"
| "bpio_fits binding c artifacts (FlashRead _ _ offset n) \<longleftrightarrow>
     commissioned_flash binding c (unat offset) (unat n)"
| "bpio_fits binding c artifacts (FlashErase _ _ offset n) \<longleftrightarrow>
     commissioned_flash binding c (unat offset) (unat n) \<and> 4096 dvd unat offset \<and> 4096 dvd unat n"
| "bpio_fits binding c artifacts (FlashWrite _ _ offset source n) \<longleftrightarrow>
     commissioned_flash binding c (unat offset) (unat n) \<and> available artifacts source (unat n)"
| "bpio_fits binding c artifacts (FlashVerify _ _ offset source n) \<longleftrightarrow>
     commissioned_flash binding c (unat offset) (unat n) \<and> available artifacts source (unat n)"
| "bpio_fits binding c artifacts oper \<longleftrightarrow>
     (case oper of InstrumentStatus _ _ \<Rightarrow> True | I2cScan _ _ \<Rightarrow> True | FlashIdentify _ _ \<Rightarrow> True | _ \<Rightarrow> False)"

definition bpio_limits :: "bpio2_config \<Rightarrow> bool" where
  "bpio_limits c \<longleftrightarrow> bc_spi_hz c \<noteq> 0 \<and> bc_i2c_hz c \<noteq> 0 \<and> bc_uart_baud c \<noteq> 0
     \<and> (\<forall>(name, pin)\<in>set (bc_pin_map c). unat pin < 8) \<and> unat (bc_psu_max_milliamps c) < 2 ^ 16"

lemma configured_value_iff: "configured_value entries v \<longleftrightarrow> (\<exists>name. (name, v) \<in> set entries)"
  by (auto simp: configured_value_def list_ex_iff)

lemma pin_range_iff: "pin_out_of_range n entries \<longleftrightarrow> \<not> (\<forall>(name, pin)\<in>set entries. unat pin < n)"
  by (force simp: pin_out_of_range_def list_ex_iff not_less)

lemma validate_range_capacity:
  "validate_range g offset len = Inr u \<longleftrightarrow> unat offset + unat len \<le> unat (capacity_bytes g)"
  using unat_u32_less [of len] by (auto simp: validate_range_iff in_range_def)

lemma validate_erase_capacity:
  assumes "qualified_geometry g"
  shows "validate_erase g offset len = Inr u \<longleftrightarrow>
    unat offset + unat len \<le> unat (capacity_bytes g) \<and> 4096 dvd unat offset \<and> 4096 dvd unat len"
  using validate_erase_iff [OF qualified_geometryD(1) [OF assms], of offset len u] unat_u32_less [of len]
  by (auto simp: in_range_def)

lemma unat_pos: "0 < unat (w :: 'a::len word) \<longleftrightarrow> w \<noteq> 0"
  by (simp add: unat_gt_0)

lemma flash_read_checked:
  "rbind (qualified_bpio_geometry c) (\<lambda>geometry. rbind (bounded_capture len kind) (\<lambda>_.
     rbind (require_flash_identity binding) (\<lambda>_.
       map_err f (validate_range geometry offset len)))) = Inr u
   \<longleftrightarrow> commissioned_flash binding c (unat offset) (unat len)"
  by (auto simp: commissioned_flash_def require_flash_identity_def validate_range_capacity unat_pos)

lemma flash_source_checked:
  "validate_flash_source binding c artifacts offset source len = Inr u
   \<longleftrightarrow> commissioned_flash binding c (unat offset) (unat len) \<and> available artifacts source (unat len)"
  by (auto simp: commissioned_flash_def require_flash_identity_def validate_range_capacity unat_pos
      validate_flash_source_def exact_source_iff available_def)

lemma flash_erase_checked:
  "rbind (qualified_bpio_geometry c) (\<lambda>geometry. rbind (nonzero len kind') (\<lambda>_.
     rbind (bounded_capture len kind) (\<lambda>_. rbind (require_flash_identity binding) (\<lambda>_.
       map_err f (validate_erase geometry offset len))))) = Inr u
   \<longleftrightarrow> commissioned_flash binding c (unat offset) (unat len) \<and> 4096 dvd unat offset \<and> 4096 dvd unat len"
  using validate_erase_capacity [OF qualified_bpio_geometryD(1)]
  by (auto simp: commissioned_flash_def require_flash_identity_def unat_pos)

lemma gpio_checked:
  "rbind (try_u8 pin) (\<lambda>pin. malformed_if (8 \<le> pin \<or> \<not> configured_value entries pin) t) = Inr u
   \<longleftrightarrow> unat pin < 8 \<and> (\<exists>name. (name, ucast pin) \<in> set entries)"
proof -
  have "unat (ucast pin :: u8) = unat pin" if "unat pin < 256" for pin :: u16
    using that by (simp add: unsigned_ucast_eq take_bit_eq_mod)
  then show ?thesis
    by (auto simp: try_u8_iff configured_value_iff word_le_nat_alt not_le)
qed

lemma validate_bpio_iff:
  "validate_bpio binding c oper artifacts = Inr () \<longleftrightarrow> bpio_limits c \<and> bpio_fits binding c artifacts oper"
proof -
  have wiring: "bpio_limits c \<longleftrightarrow> \<not> (bc_spi_hz c = 0 \<or> bc_i2c_hz c = 0 \<or> bc_uart_baud c = 0)
      \<and> \<not> (pin_out_of_range 8 (bc_pin_map c) \<or> bc_psu_max_milliamps c > 0xFFFF)"
    by (auto simp: bpio_limits_def pin_range_iff word_less_nat_alt)
  show ?thesis
  proof (cases "bpio_limits c")
    case True
    note opened = validate_bpio_def if_not_P [OF conjunct1 [OF True [unfolded wiring]]]
      if_not_P [OF conjunct2 [OF True [unfolded wiring]]]
    note checked = flash_read_checked flash_erase_checked gpio_checked flash_source_checked
    have small: "65536 \<le> MAX_EVIDENCE_BYTES" by (simp add: MAX_EVIDENCE_BYTES_def)
    show ?thesis
    proof (cases oper)
      case (I2cTransfer t i addr tx rx)
      then show ?thesis using True small
        by (auto simp: opened word_less_nat_alt not_less unat_pos bpio_limits_def pin_range_iff)
    next
      case (GpioSet t i pin high)
      then show ?thesis using True by (simp add: opened checked del: rbind_Inr_iff)
    next
      case (FlashRead t i offset len)
      then show ?thesis using True by (simp add: opened checked del: rbind_Inr_iff)
    next
      case (FlashErase t i offset len)
      then show ?thesis using True by (simp add: opened checked del: rbind_Inr_iff)
    next
      case (PsuSet t i millivolts milliamps)
      then show ?thesis using True
        by (auto simp: opened word_le_nat_alt word_less_nat_alt not_less bpio_limits_def pin_range_iff)
    qed (use True in \<open>auto simp: opened checked unat_pos word_le_nat_alt unsupported_def\<close>)
  next
    case False
    then show ?thesis unfolding validate_bpio_def using wiring by auto
  qed
qed

fun numato_fits :: "numato_config \<Rightarrow> operation \<Rightarrow> bool" where
  "numato_fits c (InstrumentStatus _ _) \<longleftrightarrow> True"
| "numato_fits c (RelaySet _ _ relay _) \<longleftrightarrow>
     unat relay < 4 \<and> (\<exists>name. (name, ucast relay) \<in> set (nc_relay_map c))"
| "numato_fits c (RelayRead _ _ relay) \<longleftrightarrow>
     unat relay < 4 \<and> (\<exists>name. (name, ucast relay) \<in> set (nc_relay_map c))"
| "numato_fits c _ \<longleftrightarrow> False"

definition simulated_region :: "nat \<Rightarrow> nat \<Rightarrow> nat \<Rightarrow> bool" where
  "simulated_region flash_bytes offset len \<longleftrightarrow> 0 < len \<and> offset + len \<le> flash_bytes"

fun simulator_fits :: "nat \<Rightarrow> resolver \<Rightarrow> operation \<Rightarrow> bool" where
  "simulator_fits n artifacts (InstrumentStatus _ _) \<longleftrightarrow> True"
| "simulator_fits n artifacts (FlashIdentify _ _) \<longleftrightarrow> True"
| "simulator_fits n artifacts (RelaySet _ _ relay _) \<longleftrightarrow> unat relay < 4"
| "simulator_fits n artifacts (RelayRead _ _ relay) \<longleftrightarrow> unat relay < 4"
| "simulator_fits n artifacts (FlashRead _ _ offset len) \<longleftrightarrow> simulated_region n (unat offset) (unat len)"
| "simulator_fits n artifacts (FlashErase _ _ offset len) \<longleftrightarrow> simulated_region n (unat offset) (unat len)"
| "simulator_fits n artifacts (FlashWrite _ _ offset source len) \<longleftrightarrow>
     simulated_region n (unat offset) (unat len) \<and> available artifacts source (unat len)"
| "simulator_fits n artifacts (FlashVerify _ _ offset source len) \<longleftrightarrow>
     simulated_region n (unat offset) (unat len) \<and> available artifacts source (unat len)"
| "simulator_fits n artifacts _ \<longleftrightarrow> False"

fun video_fits :: "operation \<Rightarrow> bool" where
  "video_fits (InstrumentStatus _ _) \<longleftrightarrow> True"
| "video_fits (VideoCapture _ _) \<longleftrightarrow> True"
| "video_fits _ \<longleftrightarrow> False"

definition binding_fits :: "device_binding \<Rightarrow> resolver \<Rightarrow> operation \<Rightarrow> bool" where
  "binding_fits binding artifacts oper = (case db_config binding of
     Bpio2Instrument c \<Rightarrow> bpio_limits c \<and> bpio_fits binding c artifacts oper
   | NumatoInstrument c \<Rightarrow> (\<forall>(name, relay)\<in>set (nc_relay_map c). unat relay < 4) \<and> numato_fits c oper
   | SimulatorInstrument c \<Rightarrow> 0 < sc_flash_bytes c \<and> sc_flash_bytes c \<le> MAX_EVIDENCE_BYTES
       \<and> simulator_fits (sc_flash_bytes c) artifacts oper
   | VideoInstrument c \<Rightarrow> video_validate_config c = Inr () \<and> vc_max_frame_bytes c \<le> MAX_EVIDENCE_BYTES
       \<and> video_fits oper)"

lemma validate_relay_iff:
  "validate_relay c relay = Inr () \<longleftrightarrow>
     unat relay < 4 \<and> (\<exists>name. (name, ucast relay) \<in> set (nc_relay_map c))"
proof -
  have "unat (ucast relay :: u8) = unat relay" if "unat relay < 256"
    using that by (simp add: unsigned_ucast_eq take_bit_eq_mod)
  then show ?thesis
    by (auto simp: validate_relay_def try_u8_iff configured_value_iff word_le_nat_alt not_le)
qed

lemma validate_numato_iff:
  "validate_numato c oper = Inr () \<longleftrightarrow>
     (\<forall>(name, relay)\<in>set (nc_relay_map c). unat relay < 4) \<and> numato_fits c oper"
  by (cases oper)
    (simp_all add: validate_numato_def validate_relay_iff pin_range_iff unsupported_def)

lemma validate_simulator_iff:
  "validate_simulator n oper artifacts = Inr () \<longleftrightarrow>
     0 < n \<and> n \<le> MAX_EVIDENCE_BYTES \<and> simulator_fits n artifacts oper"
proof (cases "n = 0 \<or> MAX_EVIDENCE_BYTES < n")
  case False
  then have "n \<le> MAX_EVIDENCE_BYTES" by simp
  note range = simulator_range_iff [OF this]
  show ?thesis using False
    by (cases oper)
      (auto simp: validate_simulator_def validate_simulator_source_def range simulated_region_def
        exact_source_iff available_def unsupported_def unat_pos word_le_nat_alt not_le)
qed (auto simp: validate_simulator_def)

lemma validate_video_iff:
  "validate_video debug c oper = Inr () \<longleftrightarrow> video_validate_config c = Inr ()
     \<and> vc_max_frame_bytes c \<le> MAX_EVIDENCE_BYTES \<and> video_fits oper"
  by (cases oper) (auto simp: validate_video_def unsupported_def)

text \<open>C32: The check before a device is opened accepts exactly the operations that fit the
  binding: for each kind of instrument the operations it supports, with every length, range,
  pin, relay and electrical limit read as a natural number, flash only with a commissioned
  geometry and identity, and a source artifact of exactly the planned length.\<close>

theorem preflight_exact:
  "preflight_validate debug binding oper artifacts = Inr () \<longleftrightarrow> binding_fits binding artifacts oper"
  by (simp add: preflight_validate_def binding_fits_def validate_bpio_iff validate_numato_iff
      validate_simulator_iff validate_video_iff split: instrument_config.split)

end
