(* ===== verification/Device_Results.thy ===== *)
theory Device_Results
  imports Bpio2 Preflight
begin

text \<open>
  What a device operation hands back for publication (\<open>ResultData\<close> of
  \<open>src/service/backend/mod.rs\<close>) and the JSON bodies it is made of. Every body of the
  source is built as an object, so a body is its list of members in the order of their names,
  and the panic of an indexed assignment to another value cannot arise.
\<close>

type_synonym json_object = "(string \<times> json) list"

fun put_member :: "string \<Rightarrow> json \<Rightarrow> json_object \<Rightarrow> json_object" where
  "put_member k v [] = [(k, v)]"
| "put_member k v ((name, old) # members) =
     (if k = name then (k, v) # members
      else if k < name then (k, v) # (name, old) # members
      else (name, old) # put_member k v members)"

text \<open>\<open>merge\<close> of \<open>bus.rs\<close>, and \<open>json!\<close> on an object literal.\<close>

definition merge :: "json_object \<Rightarrow> json_object \<Rightarrow> json_object" where
  "merge base additions = foldl (\<lambda>acc (k, v). put_member k v acc) base additions"

definition object :: "json_object \<Rightarrow> json_object" where
  "object members = merge [] members"

definition json_nat :: "nat \<Rightarrow> json" where "json_nat n = JNumber (PosInt (of_nat n))"
definition json_word :: "'a::len word \<Rightarrow> json" where "json_word w = JNumber (PosInt (ucast w))"
definition json_digest :: "artifact_digest \<Rightarrow> json" where "json_digest d = JString (digest_str d)"
definition json_option :: "('a \<Rightarrow> json) \<Rightarrow> 'a option \<Rightarrow> json" where
  "json_option f x = (case x of None \<Rightarrow> JNull | Some v \<Rightarrow> f v)"

record result_data =
  rd_body :: json_object
  rd_bytes :: "u8 list option"
  rd_partial :: "string option"

definition result_observation :: "json_object \<Rightarrow> result_data" where
  "result_observation body = \<lparr>rd_body = body, rd_bytes = None, rd_partial = None\<rparr>"

definition result_bytes :: "u8 list \<Rightarrow> json_object \<Rightarrow> result_data" where
  "result_bytes bytes body = \<lparr>rd_body = body, rd_bytes = Some bytes, rd_partial = None\<rparr>"

definition partial_unless :: "bool \<Rightarrow> string \<Rightarrow> result_data \<Rightarrow> result_data" where
  "partial_unless good reason r = (if good then r else r\<lparr>rd_partial := Some reason\<rparr>)"

record device_env =
  de_env :: env
  de_debug :: "string \<Rightarrow> string"
  de_utf8_text :: "u8 list \<Rightarrow> string"
  de_codec :: codec

definition de_sha256 :: "device_env \<Rightarrow> u8 list \<Rightarrow> artifact_digest" where
  "de_sha256 D bytes = artifact_sha256 (env_sha256_hex (de_env D)) bytes"

definition device_failure :: "device_env \<Rightarrow> instrument_error \<Rightarrow> backend_error" where
  "device_failure D e = transport (instrument_text (de_debug D) e)"

lemma map_of_put_member [simp]: "map_of (put_member k v members) = (map_of members)(k \<mapsto> v)"
  by (induction members) auto

lemma map_of_merge: "map_of (merge base additions) = map_of base ++ map_of (rev additions)"
proof (induction additions arbitrary: base)
  case (Cons kv additions)
  then show ?case by (cases kv) (simp add: merge_def map_add_def fun_eq_iff split: option.split)
qed (simp add: merge_def)

lemma result_simps [simp]:
  "rd_partial (result_observation body) = None" "rd_partial (result_bytes bytes body) = None"
  "rd_bytes (result_observation body) = None" "rd_bytes (result_bytes bytes body) = Some bytes"
  "rd_body (result_observation body) = body" "rd_body (result_bytes bytes body) = body"
  "rd_bytes (partial_unless good reason r) = rd_bytes r" "rd_body (partial_unless good reason r) = rd_body r"
  by (simp_all add: result_observation_def result_bytes_def partial_unless_def)

lemma partial_unless_None:
  "rd_partial (partial_unless good reason r) = None \<longleftrightarrow> good \<and> rd_partial r = None"
  by (simp add: partial_unless_def)

end
