(* ===== verification/Bus.thy ===== *)
theory Bus
  imports Device_Results
begin

text \<open>
  Bus Pirate operations (\<open>src/service/backend/bus.rs\<close>) over the adapter: transfers cut
  to the limits of the firmware, flash reads, erases and programs with their write enables
  and busy polls, and the operation of the backend that chooses among them. Transfer limits
  are positive (\<open>limits_positive\<close>), so the loops that step by a limit make progress.
\<close>

unbundle bit_operations_syntax

type_synonym 'a bus = "(adapter, backend_error, 'a) action"

definition via :: "device_env \<Rightarrow> 'a bpio \<Rightarrow> 'a bus" where
  "via D m = amap_err (device_failure D) m"

definition try_u16 :: "nat \<Rightarrow> backend_error + u16" where
  "try_u16 n = (if n < 65536 then Inr (of_nat n) else Inl (malformed conversion_text))"

definition require :: "bool \<Rightarrow> string \<Rightarrow> unit bus" where
  "require good message = (if good then areturn () else afail (malformed message))"

section \<open>Modes and limits\<close>

record limits =
  lm_write :: nat
  lm_read :: nat

definition limits_from_discovery :: "discovery \<Rightarrow> backend_error + limits" where
  "limits_from_discovery d =
     (let w = min (unat (di_max_write_bytes d)) 65535; r = min (unat (di_max_read_bytes d)) 65535 in
      if w = 0 \<or> r = 0 then Inl (malformed ''Bus Pirate reported a zero transfer limit'')
      else Inr \<lparr>lm_write = w, lm_read = r\<rparr>)"

definition mode_current :: "discovery \<Rightarrow> string \<Rightarrow> bool" where
  "mode_current d expected =
     (case di_mode_current d of None \<Rightarrow> False | Some mode \<Rightarrow> eq_ignore_ascii_case mode expected)"

definition bpio_config :: "device_binding \<Rightarrow> backend_error + bpio2_config" where
  "bpio_config binding = (case db_config binding of
     Bpio2Instrument c \<Rightarrow> Inr c | _ \<Rightarrow> Inl (malformed ''Bus Pirate adapter configuration mismatch''))"

definition spi_speed :: "device_binding \<Rightarrow> u32" where
  "spi_speed binding = (case bpio_config binding of Inl _ \<Rightarrow> 0 | Inr c \<Rightarrow> bc_spi_hz c)"

definition i2c_speed :: "device_binding \<Rightarrow> u32" where
  "i2c_speed binding = (case bpio_config binding of Inl _ \<Rightarrow> 0 | Inr c \<Rightarrow> bc_i2c_hz c)"

definition uart_speed :: "device_binding \<Rightarrow> u32" where
  "uart_speed binding = (case bpio_config binding of Inl _ \<Rightarrow> 0 | Inr c \<Rightarrow> bc_uart_baud c)"

definition ensure_mode :: "device_env \<Rightarrow> string \<Rightarrow> u32 \<Rightarrow> limits bus" where
  "ensure_mode D mode speed =
     (if speed = 0 then afail (malformed ''configured bus speed must be non-zero'')
      else
        abind (via D (configure_mode (de_codec D) mode (default_mode_config\<lparr>mc_speed := speed\<rparr>))) (\<lambda>_.
        abind (via D (identify (de_codec D))) (\<lambda>refreshed.
        abind (require (mode_current refreshed mode) ''Bus Pirate did not enter requested mode'') (\<lambda>_.
          alift (limits_from_discovery refreshed)))))"

definition flash_limits :: "device_env \<Rightarrow> device_binding \<Rightarrow> bool \<Rightarrow> limits option bus" where
  "flash_limits D binding configure =
     (if \<not> configure then areturn None
      else abind (ensure_mode D ''SPI'' (spi_speed binding)) (\<lambda>limits. areturn (Some limits)))"

definition require_configuration_effect :: "bool \<Rightarrow> unit bus" where
  "require_configuration_effect configure =
     require configure ''normal bus operation requires reviewed InstrumentConfigure authority''"

definition bounded_length :: "u32 \<Rightarrow> unit bus" where
  "bounded_length len =
     require (unat len \<le> MAX_EVIDENCE_BYTES) ''requested capture exceeds evidence size limit''"

section \<open>Transfers\<close>

text \<open>\<open>slice::chunks\<close>, for a positive size.\<close>

function chunks :: "nat \<Rightarrow> 'a list \<Rightarrow> 'a list list" where
  "chunks n xs = (if n = 0 \<or> xs = [] then [] else take n xs # chunks n (drop n xs))"
  by pat_completeness auto
termination by (relation "measure (\<lambda>(_, xs). length xs)") auto

declare chunks.simps [simp del]

fun spi_write_loop :: "device_env \<Rightarrow> u8 list list \<Rightarrow> bool \<Rightarrow> bool bus" where
  "spi_write_loop D [] started = areturn started"
| "spi_write_loop D (chunk # rest) started =
     abind (via D (transfer (de_codec D) chunk 0 (\<not> started) False)) (\<lambda>_. spi_write_loop D rest True)"

function spi_read_loop ::
  "device_env \<Rightarrow> nat \<Rightarrow> nat \<Rightarrow> bool \<Rightarrow> u8 list \<Rightarrow> (bool \<times> u8 list) bus" where
  "spi_read_loop D read_limit remaining started received =
     (if remaining = 0 \<or> read_limit = 0 then areturn (started, received)
      else
        let count = min remaining read_limit in
        abind (alift (try_u16 count)) (\<lambda>n.
        abind (via D (transfer (de_codec D) [] n (\<not> started) (count = remaining))) (\<lambda>bytes.
          spi_read_loop D read_limit (remaining - count) True (received @ bytes))))"
  by pat_completeness auto
termination by (relation "measure (\<lambda>(_, _, remaining, _). remaining)") auto

declare spi_read_loop.simps [simp del]

definition spi_transfer :: "device_env \<Rightarrow> u8 list \<Rightarrow> u32 \<Rightarrow> limits \<Rightarrow> u8 list bus" where
  "spi_transfer D tx rx_bytes lim =
     abind (bounded_length rx_bytes) (\<lambda>_.
     abind (spi_write_loop D (chunks (lm_write lim) tx) False) (\<lambda>started.
     abind (spi_read_loop D (lm_read lim) (unat rx_bytes) started []) (\<lambda>(started, received).
       if rx_bytes = 0 \<and> started
       then abind (via D (transfer (de_codec D) [] 0 False True)) (\<lambda>_. areturn received)
       else areturn received)))"

definition i2c_write_address :: "u8 \<Rightarrow> u8" where "i2c_write_address addr = push_bit 1 addr"
definition i2c_read_address :: "u8 \<Rightarrow> u8" where "i2c_read_address addr = push_bit 1 addr OR 1"

definition i2c_transfer :: "device_env \<Rightarrow> u8 \<Rightarrow> u8 list \<Rightarrow> u32 \<Rightarrow> limits \<Rightarrow> u8 list bus" where
  "i2c_transfer D addr tx rx_bytes lim =
     abind (bounded_length rx_bytes) (\<lambda>_.
     if usize_bound \<le> length tx + 1 then afail (malformed ''I2C write length overflow'')
     else if lm_write lim < length tx + 1 \<or> lm_read lim < unat rx_bytes
     then afail (malformed (''I2C transaction exceeds one BPIO2 request; splitting would change ''
            @ ''restart semantics''))
     else
       abind (alift (try_u16 (unat rx_bytes))) (\<lambda>n.
         via D (transfer (de_codec D) (i2c_write_address addr # tx) n True True)))"

definition is_i2c_nack :: "string \<Rightarrow> bool" where
  "is_i2c_nack detail =
     (let lower = to_ascii_lowercase detail
      in str_contains ''nack'' lower \<or> str_contains ''not acknowledged'' lower)"

fun is_rejection :: "instrument_error \<Rightarrow> bool" where
  "is_rejection (DeviceRejected _) = True"
| "is_rejection _ = False"

text \<open>One address of a scan: present, absent, or a failure.\<close>

fun probe_outcome :: "instrument_error + u8 list \<Rightarrow> instrument_error + u8 list \<Rightarrow> instrument_error + bool" where
  "probe_outcome (Inr _) _ = Inr True"
| "probe_outcome (Inl _) (Inr _) = Inr True"
| "probe_outcome (Inl e) (Inl e') =
     (case (e, e') of
        (DeviceRejected w, DeviceRejected r) \<Rightarrow>
          if is_i2c_nack w \<and> is_i2c_nack r then Inr False else Inl e
      | _ \<Rightarrow> if \<not> is_rejection e then Inl e else if \<not> is_rejection e' then Inl e' else Inl e)"

fun i2c_scan_loop :: "device_env \<Rightarrow> u8 list \<Rightarrow> u8 list \<Rightarrow> u8 list bus" where
  "i2c_scan_loop D [] found = areturn found"
| "i2c_scan_loop D (addr # rest) found =
     abind (atry (transfer (de_codec D) [i2c_write_address addr] 0 True True)) (\<lambda>written.
     abind (atry (transfer (de_codec D) [i2c_read_address addr] 1 True True)) (\<lambda>got.
     abind (alift (map_err (device_failure D) (probe_outcome written got))) (\<lambda>present.
       i2c_scan_loop D rest (if present then found @ [addr] else found))))"

definition i2c_scan :: "device_env \<Rightarrow> limits \<Rightarrow> u8 list bus" where
  "i2c_scan D lim =
     abind (require (1 \<le> lm_write lim) ''Bus Pirate cannot send I2C address byte'') (\<lambda>_.
       i2c_scan_loop D (map of_nat [8..<0x78]) [])"

function uart_capture_loop :: "device_env \<Rightarrow> nat \<Rightarrow> nat \<Rightarrow> u8 list \<Rightarrow> u8 list bus" where
  "uart_capture_loop D read_limit remaining bytes =
     (if remaining = 0 \<or> read_limit = 0 then areturn bytes
      else
        let requested = min remaining read_limit in
        abind (alift (try_u16 requested)) (\<lambda>n.
        abind (via D (transfer_up_to (de_codec D) [] n False False)) (\<lambda>received.
          if length received < requested then areturn (bytes @ received)
          else uart_capture_loop D read_limit (remaining - requested) (bytes @ received))))"
  by pat_completeness auto
termination by (relation "measure (\<lambda>(_, _, remaining, _). remaining)") auto

declare uart_capture_loop.simps [simp del]

definition uart_capture :: "device_env \<Rightarrow> u32 \<Rightarrow> limits \<Rightarrow> u8 list bus" where
  "uart_capture D max_bytes lim =
     abind (bounded_length max_bytes) (\<lambda>_. uart_capture_loop D (lm_read lim) (unat max_bytes) [])"

fun uart_transmit_loop :: "device_env \<Rightarrow> u8 list list \<Rightarrow> unit bus" where
  "uart_transmit_loop D [] = areturn ()"
| "uart_transmit_loop D (chunk # rest) =
     abind (via D (transfer (de_codec D) chunk 0 False False)) (\<lambda>_. uart_transmit_loop D rest)"

definition uart_transmit :: "device_env \<Rightarrow> u8 list \<Rightarrow> limits \<Rightarrow> unit bus" where
  "uart_transmit D bytes lim = uart_transmit_loop D (chunks (lm_write lim) bytes)"

section \<open>Flash\<close>

record flash_profile =
  fp_geometry :: flash_geometry
  fp_mode :: address_mode
  fp_page_bytes :: u32
  fp_erase_bytes :: u32

definition qualified_flash_geometry :: "device_binding \<Rightarrow> backend_error + flash_profile" where
  "qualified_flash_geometry binding =
     rbind (bpio_config binding) (\<lambda>c.
     case (bc_flash_capacity_bytes c, bc_flash_page_bytes c, bc_flash_erase_bytes c) of
       (Some capacity, Some page, Some erase) \<Rightarrow>
         let mode = (if bc_flash_four_byte_addressing c then FourByte else ThreeByte) in
         rbind (map_err (\<lambda>e. malformed (layout_text e)) (geometry_try_new capacity page erase mode)) (\<lambda>g.
           Inr \<lparr>fp_geometry = g, fp_mode = mode, fp_page_bytes = page, fp_erase_bytes = erase\<rparr>)
     | _ \<Rightarrow> Inl (malformed ''flash requires commissioned capacity, page, and erase geometry''))"

definition identify_flash :: "device_env \<Rightarrow> limits \<Rightarrow> (u8 list \<times> u8 list) bus" where
  "identify_flash D lim =
     abind (spi_transfer D [0x9F] 3 lim) (\<lambda>jedec.
     abind (require (length jedec = 3) ''JEDEC response must be exactly three bytes'') (\<lambda>_.
     abind (require (5 \<le> lm_write lim) ''Bus Pirate SPI write limit cannot carry SFDP command'') (\<lambda>_.
     abind (spi_transfer D [0x5A, 0, 0, 0, 0] 256 lim) (\<lambda>sfdp.
       areturn (jedec, sfdp)))))"

definition verify_flash_identity :: "device_env \<Rightarrow> device_binding \<Rightarrow> limits \<Rightarrow> unit bus" where
  "verify_flash_identity D binding lim =
     (case db_flash_identity binding of
        None \<Rightarrow> afail (malformed ''flash operation requires commissioned JEDEC and SFDP identity'')
      | Some expected \<Rightarrow>
          abind (identify_flash D lim) (\<lambda>(jedec, sfdp).
            require (jedec = fi_jedec_id expected \<and> de_sha256 D sfdp = fi_sfdp_digest expected)
              ''connected flash JEDEC/SFDP identity differs from commissioned binding''))"

definition bus_address :: "address_mode \<Rightarrow> u64 \<Rightarrow> u8 list" where
  "bus_address mode offset =
     (case mode of
        ThreeByte \<Rightarrow> [ucast (drop_bit 16 offset), ucast (drop_bit 8 offset), ucast offset]
      | FourByte \<Rightarrow> [ucast (drop_bit 24 offset), ucast (drop_bit 16 offset),
                     ucast (drop_bit 8 offset), ucast offset])"

definition bus_opcodes :: "address_mode \<Rightarrow> u8 \<times> u8 \<times> u8" where
  "bus_opcodes mode = (case mode of ThreeByte \<Rightarrow> (0x03, 0x02, 0x20) | FourByte \<Rightarrow> (0x13, 0x12, 0x21))"

definition layout_checked :: "flash_layout_error + unit \<Rightarrow> unit bus" where
  "layout_checked r = alift (map_err (\<lambda>e. malformed (layout_text e)) r)"

function flash_read_loop ::
  "device_env \<Rightarrow> address_mode \<Rightarrow> nat \<Rightarrow> u64 \<Rightarrow> nat \<Rightarrow> u8 list \<Rightarrow> u8 list bus" where
  "flash_read_loop D mode read_limit cursor remaining bytes =
     (if remaining = 0 \<or> read_limit = 0 then areturn bytes
      else
        let count = min remaining read_limit; command = fst (bus_opcodes mode) # bus_address mode cursor in
        abind (alift (try_u16 count)) (\<lambda>n.
        abind (via D (transfer (de_codec D) command n True True)) (\<lambda>received.
        abind (alift (ok_or (checked_add cursor (of_nat count)) (malformed ''flash read offset overflow''))) (\<lambda>next.
          flash_read_loop D mode read_limit next (remaining - count) (bytes @ received)))))"
  by pat_completeness auto
termination by (relation "measure (\<lambda>(_, _, _, _, remaining, _). remaining)") auto

declare flash_read_loop.simps [simp del]

definition flash_read :: "device_env \<Rightarrow> flash_profile \<Rightarrow> u64 \<Rightarrow> u32 \<Rightarrow> limits \<Rightarrow> u8 list bus" where
  "flash_read D profile offset len lim =
     abind (bounded_length len) (\<lambda>_.
     abind (layout_checked (validate_range (fp_geometry profile) offset len)) (\<lambda>_.
     abind (require ((if fp_mode profile = ThreeByte then 3 else 4) + 1 \<le> lm_write lim)
              ''Bus Pirate SPI write limit cannot carry flash read command'') (\<lambda>_.
       flash_read_loop D (fp_mode profile) (lm_read lim) offset (unat len) [])))"

definition write_enable :: "device_env \<Rightarrow> unit bus" where
  "write_enable D =
     abind (via D (transfer (de_codec D) [0x06] 0 True True)) (\<lambda>_.
     abind (via D (transfer (de_codec D) [0x05] 1 True True)) (\<lambda>status.
       require (status \<noteq> [] \<and> hd status AND 0x02 \<noteq> 0) ''flash did not assert WEL after WREN''))"

text \<open>Every transfer that returns has used up one exchange of the line, so a poll ends.\<close>

lemma exchange_used:
  "exchange_with actions late reader bytes w = (Inr v, w') \<Longrightarrow> length (wr_script w') < length (wr_script w)"
  by (auto simp: exchange_with_def Let_def split: list.splits option.splits prod.splits sum.splits
      instrument_error.splits)

lemma request_used:
  "bpio_request C packet a = (Inr v, a') \<Longrightarrow>
     length (wr_script (ad_wire a')) < length (wr_script (ad_wire a))"
  by (auto simp: bpio_request_def split: if_splits prod.splits dest: exchange_used)

lemma transfer_used:
  "transfer C bs n start stop a = (Inr v, a') \<Longrightarrow>
     length (wr_script (ad_wire a')) < length (wr_script (ad_wire a))"
  by (auto simp: transfer_def transfer_with_length_policy_def check_limits_def dest: request_used)

lemma via_Inr_iff [simp]: "via D m a = (Inr v, a') \<longleftrightarrow> m a = (Inr v, a')"
  by (simp add: via_def)

lemma via_used:
  "(Inr v, a') = via D (transfer C bs n start stop) a \<Longrightarrow>
     length (wr_script (ad_wire a')) < length (wr_script (ad_wire a))"
  using via_Inr_iff [of D "transfer C bs n start stop" a v a'] by (simp add: transfer_used)

function wait_busy_clear :: "device_env \<Rightarrow> unit bus" where
  "wait_busy_clear D a =
     (case via D (transfer (de_codec D) [0x05] 1 True True) a of
        (Inl e, a') \<Rightarrow> (Inl e, a')
      | (Inr status, a') \<Rightarrow>
          if status \<noteq> [] \<and> hd status AND 0x01 = 0 then (Inr (), a') else wait_busy_clear D a')"
  by pat_completeness auto
termination
  by (relation "measure (\<lambda>(_, a). length (wr_script (ad_wire a)))") (auto dest: via_used)

declare wait_busy_clear.simps [simp del]

text \<open>\<open>for relative in (0..length).step_by(sector)\<close>; the sector size is positive.\<close>

definition sector_offsets :: "u32 \<Rightarrow> u32 \<Rightarrow> nat list" where
  "sector_offsets len sector =
     map (\<lambda>i. i * unat sector) [0..<(unat len + unat sector - 1) div unat sector]"

fun flash_erase_loop :: "device_env \<Rightarrow> address_mode \<Rightarrow> u64 \<Rightarrow> nat list \<Rightarrow> unit bus" where
  "flash_erase_loop D mode offset [] = areturn ()"
| "flash_erase_loop D mode offset (relative # rest) =
     abind (write_enable D) (\<lambda>_.
     abind (alift (ok_or (checked_add offset (of_nat relative)) (malformed ''flash erase offset overflow''))) (\<lambda>at.
     abind (via D (transfer (de_codec D) (snd (snd (bus_opcodes mode)) # bus_address mode at) 0 True True)) (\<lambda>_.
     abind (wait_busy_clear D) (\<lambda>_. flash_erase_loop D mode offset rest))))"

definition flash_erase :: "device_env \<Rightarrow> flash_profile \<Rightarrow> u64 \<Rightarrow> u32 \<Rightarrow> limits \<Rightarrow> unit bus" where
  "flash_erase D profile offset len lim =
     abind (layout_checked (validate_erase (fp_geometry profile) offset len)) (\<lambda>_.
     abind (require (1 + length (bus_address (fp_mode profile) offset) \<le> lm_write lim)
              ''Bus Pirate SPI write limit cannot carry flash erase command'') (\<lambda>_.
       flash_erase_loop D (fp_mode profile) offset (sector_offsets len (fp_erase_bytes profile))))"

definition flash_program_payload_limit :: "limits \<Rightarrow> nat \<Rightarrow> backend_error + nat" where
  "flash_program_payload_limit lim overhead =
     (if lm_write lim < overhead
      then Inl (malformed ''Bus Pirate SPI write limit cannot carry flash program command'')
      else if lm_write lim - overhead = 0
      then Inl (malformed ''Bus Pirate SPI write limit leaves no flash program payload bytes'')
      else Inr (lm_write lim - overhead))"

text \<open>How many bytes the next program command carries. It is positive, as a page has bytes.\<close>

definition program_count :: "u32 \<Rightarrow> nat \<Rightarrow> u64 \<Rightarrow> nat \<Rightarrow> nat" where
  "program_count page max_payload at remaining =
     min (unat page - unat at mod unat page) (min max_payload remaining)"

lemma program_count_positive:
  "page \<noteq> 0 \<Longrightarrow> 0 < max_payload \<Longrightarrow> 0 < remaining \<Longrightarrow> 0 < program_count page max_payload at remaining"
  using page_remaining_positive [of page "unat at"] by (simp add: program_count_def)

text \<open>A geometry never has pages of zero bytes, so the guard on the page only makes the loop total.\<close>

function flash_write_loop ::
  "device_env \<Rightarrow> address_mode \<Rightarrow> u32 \<Rightarrow> nat \<Rightarrow> u64 \<Rightarrow> u8 list \<Rightarrow> nat \<Rightarrow> unit bus" where
  "flash_write_loop D mode page max_payload offset bytes cursor =
     (if length bytes \<le> cursor \<or> page = 0 \<or> max_payload = 0 then areturn ()
      else
        abind (alift (ok_or (checked_add offset (of_nat cursor)) (malformed ''flash program offset overflow''))) (\<lambda>at.
        let count = program_count page max_payload at (length bytes - cursor) in
        abind (write_enable D) (\<lambda>_.
        abind (via D (transfer (de_codec D)
                 (fst (snd (bus_opcodes mode)) # bus_address mode at @ take count (drop cursor bytes)) 0 True True)) (\<lambda>_.
        abind (wait_busy_clear D) (\<lambda>_.
          flash_write_loop D mode page max_payload offset bytes (cursor + count))))))"
  by pat_completeness auto

termination
  by (relation "measure (\<lambda>(_, _, _, _, _, bytes, cursor). length bytes - cursor)")
    (auto intro!: diff_less_mono2 simp: program_count_positive)

declare flash_write_loop.simps [simp del]

definition flash_write :: "device_env \<Rightarrow> flash_profile \<Rightarrow> u64 \<Rightarrow> u8 list \<Rightarrow> limits \<Rightarrow> unit bus" where
  "flash_write D profile offset bytes lim =
     abind (alift (if length bytes < 2 ^ 32 then Inr (of_nat (length bytes) :: u32)
                   else Inl (malformed conversion_text))) (\<lambda>len.
     abind (layout_checked (validate_range (fp_geometry profile) offset len)) (\<lambda>_.
     abind (alift (flash_program_payload_limit lim (1 + length (bus_address (fp_mode profile) offset)))) (\<lambda>max_payload.
       flash_write_loop D (fp_mode profile) (fp_page_bytes profile) max_payload offset bytes 0)))"

section \<open>Bodies\<close>

definition status_body :: "discovery \<Rightarrow> bool \<Rightarrow> json_object" where
  "status_body d reconcile = object
     [(''mode'', json_option JString (di_mode_current d)),
      (''max_write_bytes'', json_word (di_max_write_bytes d)),
      (''max_read_bytes'', json_word (di_max_read_bytes d)),
      (''psu_enabled'', JBool (di_psu_enabled d)),
      (''psu_set_millivolts'', json_word (di_psu_set_millivolts d)),
      (''psu_set_milliamps'', json_word (di_psu_set_milliamps d)),
      (''adc_millivolts'', JArray (map json_word (di_adc_millivolts d))),
      (''gpio_value'', json_word (di_io_value d)),
      (''reconciliation'', JBool reconcile),
      (''proves_original_actuation'', JBool False),
      (''instrument_configuration_applied'', JBool False)]"

definition with_bytes :: "device_env \<Rightarrow> json_object \<Rightarrow> u8 list \<Rightarrow> string \<Rightarrow> result_data" where
  "with_bytes D body bytes field = result_bytes bytes (merge body
     [(''capture_kind'', JString field), (''capture_bytes'', json_nat (length bytes)),
      (''capture_digest'', json_digest (de_sha256 D bytes))])"

definition configuration_applied :: "json_object \<Rightarrow> json_object" where
  "configuration_applied body = put_member ''instrument_configuration_applied'' (JBool True) body"

definition uart_result :: "device_env \<Rightarrow> json_object \<Rightarrow> u8 list \<Rightarrow> u32 \<Rightarrow> string \<Rightarrow> result_data" where
  "uart_result D body bytes requested field =
     partial_unless (unat requested \<le> length bytes)
       (''UART capture returned '' @ nat_text (length bytes)
          @ '' bytes before the requested upper bound '' @ word_text requested)
       (with_bytes D body bytes field)"

definition unknown_raw :: "json_object \<Rightarrow> string \<Rightarrow> result_data" where
  "unknown_raw base reason = \<lparr>rd_body = base, rd_bytes = None, rd_partial = Some reason\<rparr>"

definition mode_unavailable :: "json_object \<Rightarrow> string \<Rightarrow> result_data" where
  "mode_unavailable base mode =
     \<lparr>rd_body = merge base [(''required_mode'', JString mode)], rd_bytes = None,
      rd_partial = Some (''instrument configuration was not applied; status cannot prove ''
        @ ''required bus settings'')\<rparr>"

section \<open>Operations\<close>

definition unless_reconciling :: "bool \<Rightarrow> unit bus \<Rightarrow> unit bus" where
  "unless_reconciling reconcile m = (if reconcile then areturn () else m)"

definition raw_spi ::
  "device_env \<Rightarrow> device_binding \<Rightarrow> json_object \<Rightarrow> bool \<Rightarrow> bool \<Rightarrow> u8 list \<Rightarrow> u32 \<Rightarrow> result_data bus" where
  "raw_spi D binding base reconcile configure tx rx_bytes =
     (if reconcile then areturn (unknown_raw base ''raw SPI transfer cannot prove its original effect'')
      else
        abind (require_configuration_effect configure) (\<lambda>_.
        abind (ensure_mode D ''SPI'' (spi_speed binding)) (\<lambda>lim.
        abind (spi_transfer D tx rx_bytes lim) (\<lambda>bytes.
          areturn (with_bytes D (configuration_applied base) bytes ''spi'')))))"

definition raw_i2c ::
  "device_env \<Rightarrow> device_binding \<Rightarrow> json_object \<Rightarrow> bool \<Rightarrow> bool \<Rightarrow> u8 \<Rightarrow> u8 list \<Rightarrow> u32 \<Rightarrow> result_data bus" where
  "raw_i2c D binding base reconcile configure addr tx rx_bytes =
     (if addr > 0x7F then afail (malformed ''I2C address must be a seven-bit value'')
      else if reconcile
      then areturn (unknown_raw base ''raw I2C transfer cannot prove its original effect'')
      else
        abind (require_configuration_effect configure) (\<lambda>_.
        abind (ensure_mode D ''I2C'' (i2c_speed binding)) (\<lambda>lim.
        abind (i2c_transfer D addr tx rx_bytes lim) (\<lambda>bytes.
          areturn (with_bytes D (configuration_applied base) bytes ''i2c'')))))"

definition scan_i2c ::
  "device_env \<Rightarrow> device_binding \<Rightarrow> json_object \<Rightarrow> bool \<Rightarrow> bool \<Rightarrow> result_data bus" where
  "scan_i2c D binding base reconcile configure =
     (if reconcile then areturn (unknown_raw base ''I2C scan cannot prove its original probe effects'')
      else
        abind (require_configuration_effect configure) (\<lambda>_.
        abind (ensure_mode D ''I2C'' (i2c_speed binding)) (\<lambda>lim.
        abind (i2c_scan D lim) (\<lambda>addresses.
          areturn (result_observation (merge (configuration_applied base)
            [(''i2c_acknowledged_addresses'', JArray (map json_word addresses))]))))))"

definition capture_uart ::
  "device_env \<Rightarrow> device_binding \<Rightarrow> json_object \<Rightarrow> bool \<Rightarrow> bool \<Rightarrow> u32 \<Rightarrow> result_data bus" where
  "capture_uart D binding base reconcile configure max_bytes =
     abind (unless_reconciling reconcile (require_configuration_effect configure)) (\<lambda>_.
     abind (if configure
            then abind (ensure_mode D ''UART'' (uart_speed binding)) (\<lambda>lim. areturn (Some lim))
            else areturn None) (\<lambda>found.
     case found of
       None \<Rightarrow> areturn (mode_unavailable base ''UART'')
     | Some lim \<Rightarrow>
         abind (uart_capture D max_bytes lim) (\<lambda>bytes.
           areturn (uart_result D (configuration_applied base) bytes max_bytes
             (if reconcile then ''uart_reconciliation'' else ''uart'')))))"

definition transmit_uart ::
  "device_env \<Rightarrow> device_binding \<Rightarrow> json_object \<Rightarrow> bool \<Rightarrow> bool \<Rightarrow> u8 list \<Rightarrow> result_data bus" where
  "transmit_uart D binding base reconcile configure bytes =
     (if reconcile then areturn (unknown_raw base ''UART transmit cannot prove its original effect'')
      else
        abind (require_configuration_effect configure) (\<lambda>_.
        abind (ensure_mode D ''UART'' (uart_speed binding)) (\<lambda>lim.
        abind (uart_transmit D bytes lim) (\<lambda>_.
          areturn (result_observation (merge (configuration_applied base)
            [(''uart_transmitted_bytes'', json_nat (length bytes))]))))))"

definition drive_gpio :: "device_env \<Rightarrow> device_binding \<Rightarrow> bool \<Rightarrow> u16 \<Rightarrow> bool \<Rightarrow> result_data bus" where
  "drive_gpio D binding reconcile pin high =
     abind (alift (try_u8 pin)) (\<lambda>pin.
     abind (require (unat pin < 8) ''GPIO pin is outside Bus Pirate pin range'') (\<lambda>_.
     abind (alift (bpio_config binding)) (\<lambda>c.
     abind (require (configured_value (bc_pin_map c) pin)
              ''GPIO pin is outside the configured fixture pin map'') (\<lambda>_.
     abind (unless_reconciling reconcile (via D (set_gpio (de_codec D) pin high))) (\<lambda>_.
     abind (via D (identify (de_codec D))) (\<lambda>observed.
     let actual = (di_io_value observed AND push_bit (unat pin) 1 \<noteq> 0) in
       areturn (partial_unless (actual = high) ''GPIO status differs from requested state''
         (result_observation (merge (status_body observed reconcile)
            [(''gpio_pin'', json_word pin), (''requested_high'', JBool high),
             (''observed_high'', JBool actual)])))))))))"

definition read_adc :: "json_object \<Rightarrow> discovery \<Rightarrow> u16 \<Rightarrow> result_data bus" where
  "read_adc base fresh channel =
     (if unat channel < length (di_adc_millivolts fresh)
      then areturn (result_observation (merge base
        [(''adc_channel'', json_word channel),
         (''millivolts'', json_word (di_adc_millivolts fresh ! unat channel))]))
      else afail (malformed ''ADC channel is not reported by the connected Bus Pirate''))"

definition set_power ::
  "device_env \<Rightarrow> device_binding \<Rightarrow> bool \<Rightarrow> u32 \<Rightarrow> u32 \<Rightarrow> result_data bus" where
  "set_power D binding reconcile millivolts milliamps =
     abind (alift (bpio_config binding)) (\<lambda>c.
     abind (require (millivolts \<le> bc_psu_max_millivolts c \<and> milliamps \<le> bc_psu_max_milliamps c)
              ''PSU request exceeds configured electrical limits'') (\<lambda>_.
     abind (alift (try_u16 (unat milliamps))) (\<lambda>current.
     abind (unless_reconciling reconcile (via D (set_psu (de_codec D) millivolts current))) (\<lambda>_.
     abind (via D (identify (de_codec D))) (\<lambda>observed.
     let expected_enabled = (millivolts \<noteq> 0 \<or> current \<noteq> 0);
         good = (di_psu_enabled observed = expected_enabled
           \<and> (\<not> expected_enabled \<or> (di_psu_set_millivolts observed = millivolts
                \<and> di_psu_set_milliamps observed = ucast current))) in
       areturn (partial_unless good ''PSU status differs from requested state''
         (result_observation (merge (status_body observed reconcile)
            [(''psu_requested_millivolts'', json_word millivolts),
             (''psu_requested_milliamps'', json_word current),
             (''psu_matches_request'', JBool good)]))))))))"

text \<open>The flash operations share the mode and the limits of SPI, and end early when the
  configuration may not be applied.\<close>

definition with_flash_limits ::
  "device_env \<Rightarrow> device_binding \<Rightarrow> json_object \<Rightarrow> bool \<Rightarrow> bool \<Rightarrow> (limits \<Rightarrow> result_data bus) \<Rightarrow> result_data bus" where
  "with_flash_limits D binding base reconcile configure body =
     abind (unless_reconciling reconcile (require_configuration_effect configure)) (\<lambda>_.
     abind (flash_limits D binding configure) (\<lambda>found.
       case found of None \<Rightarrow> areturn (mode_unavailable base ''SPI'') | Some lim \<Rightarrow> body lim))"

definition flash_identify ::
  "device_env \<Rightarrow> device_binding \<Rightarrow> json_object \<Rightarrow> bool \<Rightarrow> bool \<Rightarrow> result_data bus" where
  "flash_identify D binding base reconcile configure =
     with_flash_limits D binding base reconcile configure (\<lambda>lim.
     abind (identify_flash D lim) (\<lambda>(jedec, sfdp).
       areturn (result_bytes (jedec @ sfdp) (merge (configuration_applied base)
         [(''jedec_id'', JArray (map json_word jedec)),
          (''sfdp_digest'', json_digest (de_sha256 D sfdp))]))))"

definition read_flash_range ::
  "device_env \<Rightarrow> device_binding \<Rightarrow> json_object \<Rightarrow> bool \<Rightarrow> bool \<Rightarrow> u64 \<Rightarrow> u32 \<Rightarrow> result_data bus" where
  "read_flash_range D binding base reconcile configure offset len =
     abind (alift (qualified_flash_geometry binding)) (\<lambda>profile.
     with_flash_limits D binding base reconcile configure (\<lambda>lim.
     abind (verify_flash_identity D binding lim) (\<lambda>_.
     abind (flash_read D profile offset len lim) (\<lambda>bytes.
       areturn (with_bytes D (merge (configuration_applied base)
         [(''flash_offset'', json_word offset), (''flash_length'', json_word len)]) bytes ''flash_read'')))))"

definition erase_flash_range ::
  "device_env \<Rightarrow> device_binding \<Rightarrow> json_object \<Rightarrow> bool \<Rightarrow> bool \<Rightarrow> u64 \<Rightarrow> u32 \<Rightarrow> result_data bus" where
  "erase_flash_range D binding base reconcile configure offset len =
     abind (alift (qualified_flash_geometry binding)) (\<lambda>profile.
     with_flash_limits D binding base reconcile configure (\<lambda>lim.
     abind (verify_flash_identity D binding lim) (\<lambda>_.
     abind (unless_reconciling reconcile (flash_erase D profile offset len lim)) (\<lambda>_.
     abind (flash_read D profile offset len lim) (\<lambda>actual.
     let blank = list_all (\<lambda>byte. byte = 0xFF) actual in
       areturn (partial_unless blank ''flash erase readback is not fully erased''
         (with_bytes D (merge (configuration_applied base)
            [(''flash_offset'', json_word offset), (''flash_length'', json_word len),
             (''all_erased'', JBool blank), (''readback_digest'', json_digest (de_sha256 D actual))])
            actual ''flash_erase_readback''))))))) "

definition write_flash_range ::
  "device_env \<Rightarrow> device_binding \<Rightarrow> resolver \<Rightarrow> json_object \<Rightarrow> bool \<Rightarrow> bool \<Rightarrow> bool \<Rightarrow> u64 \<Rightarrow> artifact_digest
     \<Rightarrow> u32 \<Rightarrow> result_data bus" where
  "write_flash_range D binding artifacts base reconcile configure is_write offset source len =
     abind (alift (qualified_flash_geometry binding)) (\<lambda>profile.
     abind (alift (source_bytes artifacts source len)) (\<lambda>candidate.
     with_flash_limits D binding base reconcile configure (\<lambda>lim.
     abind (verify_flash_identity D binding lim) (\<lambda>_.
     abind (if is_write \<and> \<not> reconcile then flash_write D profile offset candidate lim else areturn ()) (\<lambda>_.
     abind (flash_read D profile offset len lim) (\<lambda>actual.
     let same = (actual = candidate) in
       areturn (partial_unless same ''flash readback differs from verified candidate artifact''
         (with_bytes D (merge (configuration_applied base)
            [(''flash_offset'', json_word offset), (''candidate'', json_digest source),
             (''matches_candidate'', JBool same), (''readback_digest'', json_digest (de_sha256 D actual))])
            actual ''flash_verify_readback'')))))))) "

definition bus_execute ::
  "device_env \<Rightarrow> device_binding \<Rightarrow> operation \<Rightarrow> resolver \<Rightarrow> bool \<Rightarrow> bool \<Rightarrow> result_data bus" where
  "bus_execute D binding oper artifacts reconcile configure =
     abind (via D (identify (de_codec D))) (\<lambda>fresh.
     let base = status_body fresh reconcile in
     case oper of
       InstrumentStatus _ _ \<Rightarrow> areturn (result_observation base)
     | SpiTransfer _ _ tx rx_bytes \<Rightarrow> raw_spi D binding base reconcile configure tx rx_bytes
     | I2cTransfer _ _ addr tx rx_bytes \<Rightarrow> raw_i2c D binding base reconcile configure addr tx rx_bytes
     | I2cScan _ _ \<Rightarrow> scan_i2c D binding base reconcile configure
     | UartCapture _ _ max_bytes \<Rightarrow> capture_uart D binding base reconcile configure max_bytes
     | UartTransmit _ _ bytes \<Rightarrow> transmit_uart D binding base reconcile configure bytes
     | GpioSet _ _ pin high \<Rightarrow> drive_gpio D binding reconcile pin high
     | AdcRead _ _ channel \<Rightarrow> read_adc base fresh channel
     | PsuSet _ _ millivolts milliamps \<Rightarrow> set_power D binding reconcile millivolts milliamps
     | FlashIdentify _ _ \<Rightarrow> flash_identify D binding base reconcile configure
     | FlashRead _ _ offset len \<Rightarrow> read_flash_range D binding base reconcile configure offset len
     | FlashErase _ _ offset len \<Rightarrow> erase_flash_range D binding base reconcile configure offset len
     | FlashWrite _ _ offset source len \<Rightarrow>
         write_flash_range D binding artifacts base reconcile configure True offset source len
     | FlashVerify _ _ offset source len \<Rightarrow>
         write_flash_range D binding artifacts base reconcile configure False offset source len
     | _ \<Rightarrow> afail (malformed ''operation is unsupported by Bus Pirate BPIO2''))"

end
