(* ===== verification/Bus_Safety.thy ===== *)
theory Bus_Safety
  imports Bus
begin

text \<open>
  What bus operations put on the line and what their completion means: a reconciliation
  only observes, and without the authority to configure it only asks for the status; a flash
  program covers the candidate page by page, each chunk after its own write enable; a
  completed operation was read back.
\<close>

section \<open>Reconciliation\<close>

text \<open>Requests that observe: the status, a change of bus mode, a data request that writes
  nothing or a read command of the flash (JEDEC id, SFDP, read).\<close>

definition read_command :: "u8 list \<Rightarrow> bool" where
  "read_command bytes \<longleftrightarrow> bytes = [] \<or> hd bytes \<in> {0x9F, 0x5A, 0x03, 0x13}"

definition observing :: "request_packet \<Rightarrow> bool" where
  "observing packet = (case rq_contents packet of
     StatusRequest \<Rightarrow> True
   | ConfigurationRequest c \<Rightarrow>
       cr_psu c = None \<and> cr_pullup c = None \<and> cr_io_direction c = None \<and> cr_io_value c = None
   | DataRequest d \<Rightarrow> read_command (dq_data_write d))"

definition asking_status :: "request_packet \<Rightarrow> bool" where
  "asking_status packet \<longleftrightarrow> packet = build_status_request"

lemma observing_packets [simp]:
  "observing build_status_request"
  "observing (build_configuration_request mode config None None None None)"
  "observing (build_data_request bytes n start stop) \<longleftrightarrow> read_command bytes"
  "asking_status build_status_request"
  by (simp_all add: observing_def asking_status_def build_status_request_def
      build_configuration_request_def build_data_request_def finish_request_def)

lemma read_command_opcodes [simp]:
  "read_command []" "read_command [0x9F]" "read_command [0x5A, 0, 0, 0, 0]"
  "read_command (fst (bus_opcodes mode) # bs)"
  by (auto simp: read_command_def bus_opcodes_def split: address_mode.split)

lemma requests_via [sends_intros]: "requests C Q m \<Longrightarrow> requests C Q (via D m)"
  unfolding via_def by (rule sends_amap_err)

lemma requests_require [sends_intros]:
  "requests C Q (require good message)" "requests C Q (bounded_length len)"
  "requests C Q (require_configuration_effect configure)" "requests C Q (layout_checked r)"
  unfolding require_def bounded_length_def require_configuration_effect_def layout_checked_def
  by (auto intro!: sends_intros)

lemma requests_ensure_mode [sends_intros]:
  "requests (de_codec D) observing (ensure_mode D mode speed)"
  unfolding ensure_mode_def by (auto intro!: sends_intros)

lemma requests_spi_write_loop:
  assumes "\<And>chunk start. chunk \<in> set cs \<Longrightarrow> Q (build_data_request chunk 0 start False)"
  shows "requests (de_codec D) Q (spi_write_loop D cs started)"
  using assms
proof (induction cs arbitrary: started)
  case Nil
  then show ?case by (auto intro!: sends_intros)
next
  case (Cons chunk cs)
  have "requests (de_codec D) Q (spi_write_loop D cs True)"
    by (rule Cons.IH) (simp add: Cons.prems)
  then show ?case using Cons.prems [of chunk] by (auto intro!: sends_intros)
qed

lemma requests_spi_read_loop:
  assumes "\<And>n start stop. Q (build_data_request [] n start stop)"
  shows "requests (de_codec D) Q (spi_read_loop D limit remaining started received)"
  using assms
proof (induction D limit remaining started received rule: spi_read_loop.induct)
  case (1 D limit remaining started received)
  then show ?case
    by (subst spi_read_loop.simps) (auto intro!: sends_intros simp: Let_def)
qed

lemma requests_spi_transfer:
  assumes "\<And>n start stop. Q (build_data_request [] n start stop)"
    and "\<And>chunk start. chunk \<in> set (chunks (lm_write lim) tx) \<Longrightarrow> Q (build_data_request chunk 0 start False)"
  shows "requests (de_codec D) Q (spi_transfer D tx rx lim)"
  unfolding spi_transfer_def
  using requests_spi_write_loop [of "chunks (lm_write lim) tx" Q D] requests_spi_read_loop [of Q D] assms
  by (auto intro!: sends_intros split: prod.split)

lemma chunks_single [simp]: "n \<noteq> 0 \<Longrightarrow> length xs \<le> n \<Longrightarrow> xs \<noteq> [] \<Longrightarrow> chunks n xs = [xs]"
  by (subst chunks.simps) (simp add: chunks.simps)

lemma requests_guarded:
  assumes "good \<Longrightarrow> requests C Q (f ())"
  shows "requests C Q (abind (require good message) f)"
  using assms by (auto intro!: sendsI simp: sends_def abind_def require_def areturn_def afail_def)

lemma chunks_one [simp]: "chunk \<in> set (chunks n [b]) \<Longrightarrow> chunk = [b]"
  by (cases n) (auto simp: chunks.simps)

lemma requests_identify_flash [sends_intros]:
  "requests (de_codec D) observing (identify_flash D lim)"
proof -
  have id: "requests (de_codec D) observing (spi_transfer D [0x9F] n lim)" for n
    by (rule requests_spi_transfer) (auto dest: chunks_one)
  have sfdp: "requests (de_codec D) observing (spi_transfer D [0x5A, 0, 0, 0, 0] n lim)"
    if "5 \<le> lm_write lim" for n
    using that by (intro requests_spi_transfer) auto
  show ?thesis unfolding identify_flash_def
    by (intro sends_abind [OF id] sends_abind [OF requests_require(1)] requests_guarded
        sends_abind [OF sfdp] sends_pure)
qed

lemma requests_verify_flash_identity [sends_intros]:
  "requests (de_codec D) observing (verify_flash_identity D binding lim)"
  unfolding verify_flash_identity_def by (auto intro!: sends_intros split: prod.split)

lemma requests_flash_read_loop:
  "requests (de_codec D) observing (flash_read_loop D mode limit cursor remaining bytes)"
proof (induction D mode limit cursor remaining bytes rule: flash_read_loop.induct)
  case (1 D mode limit cursor remaining bytes)
  then show ?case
    by (subst flash_read_loop.simps) (auto intro!: sends_intros simp: Let_def)
qed

lemma requests_flash_read [sends_intros]:
  "requests (de_codec D) observing (flash_read D profile offset len lim)"
  unfolding flash_read_def by (auto intro!: sends_intros requests_flash_read_loop)

lemma requests_uart_capture [sends_intros]:
  "requests (de_codec D) observing (uart_capture D max_bytes lim)"
proof -
  have "requests (de_codec D) observing (uart_capture_loop D limit remaining bytes)" for limit remaining bytes
  proof (induction D limit remaining bytes rule: uart_capture_loop.induct)
    case (1 D limit remaining bytes)
    then show ?case
      by (subst uart_capture_loop.simps) (auto intro!: sends_intros simp: Let_def)
  qed
  then show ?thesis unfolding uart_capture_def by (auto intro!: sends_intros)
qed

lemma requests_with_flash_limits [sends_intros]:
  assumes "\<And>lim. requests (de_codec D) observing (body lim)"
  shows "requests (de_codec D) observing (with_flash_limits D binding base reconcile configure body)"
  unfolding with_flash_limits_def flash_limits_def unless_reconciling_def
  using assms by (auto intro!: sends_intros)

lemma reconciling [simp]: "unless_reconciling True m = areturn ()"
  by (simp add: unless_reconciling_def)

lemma requests_reconciliation:
  "requests (de_codec D) observing (bus_execute D binding oper artifacts True configure)"
  unfolding bus_execute_def raw_spi_def raw_i2c_def scan_i2c_def capture_uart_def transmit_uart_def
    drive_gpio_def read_adc_def set_power_def flash_identify_def read_flash_range_def
    erase_flash_range_def write_flash_range_def
  by (cases oper) (auto intro!: sends_intros simp: Let_def split: prod.split)

lemma unconfigured:
  "with_flash_limits D binding base True False body = areturn (mode_unavailable base ''SPI'')"
  by (simp add: with_flash_limits_def flash_limits_def)

lemma requests_unconfigured:
  "requests (de_codec D) asking_status (bus_execute D binding oper artifacts True False)"
  unfolding bus_execute_def raw_spi_def raw_i2c_def scan_i2c_def capture_uart_def transmit_uart_def
    drive_gpio_def read_adc_def set_power_def flash_identify_def read_flash_range_def
    erase_flash_range_def write_flash_range_def unconfigured
  by (cases oper) (auto intro!: sends_intros simp: Let_def)

text \<open>Reconciliation of a bus operation only observes: whatever the device does and
  whenever the deadline strikes, it sends status requests, changes of the bus mode and read
  commands, and never drives a pin, sets the supply, transfers raw bytes or programs or
  erases; without the authority to configure it sends nothing but status requests.\<close>

theorem reconciliation_only_observes:
  assumes "bus_execute D binding oper artifacts True configure a = (r, a')"
  shows "\<exists>frames. wr_sent (ad_wire a') = wr_sent (ad_wire a) @ frames
    \<and> list_all (frame_of (de_codec D) observing) frames
    \<and> (\<not> configure \<longrightarrow> list_all (frame_of (de_codec D) asking_status) frames)"
proof -
  obtain frames where frames: "wr_sent (ad_wire a') = wr_sent (ad_wire a) @ frames"
    "list_all (frame_of (de_codec D) observing) frames"
    using requests_reconciliation assms by (rule sendsD)
  moreover have "list_all (frame_of (de_codec D) asking_status) frames" if "\<not> configure"
  proof -
    have "bus_execute D binding oper artifacts True False a = (r, a')" using assms that by simp
    with requests_unconfigured obtain status where
      "wr_sent (ad_wire a') = wr_sent (ad_wire a) @ status"
      "list_all (frame_of (de_codec D) asking_status) status" by (rule sendsD)
    with frames(1) show ?thesis by simp
  qed
  ultimately show ?thesis by blast
qed

section \<open>Flash effects\<close>

text \<open>The data requests of an erase or a program: the write enable, the poll of the status
  register, and commands that stay inside a region.\<close>

definition confined :: "flash_profile \<Rightarrow> nat \<Rightarrow> nat \<Rightarrow> u8 list \<Rightarrow> bool" where
  "confined profile offset len bytes \<longleftrightarrow>
     bytes = [0x06] \<or> bytes = [0x05]
     \<or> (\<exists>at data. bytes = fst (snd (bus_opcodes (fp_mode profile))) # bus_address (fp_mode profile) at @ data
          \<and> big_endian (bus_address (fp_mode profile) at) = unat at
          \<and> offset \<le> unat at \<and> unat at + length data \<le> offset + len
          \<and> unat at mod unat (fp_page_bytes profile) + length data \<le> unat (fp_page_bytes profile))
     \<or> (\<exists>at. bytes = snd (snd (bus_opcodes (fp_mode profile))) # bus_address (fp_mode profile) at
          \<and> big_endian (bus_address (fp_mode profile) at) = unat at
          \<and> 4096 dvd unat at \<and> offset \<le> unat at \<and> unat at + 4096 \<le> offset + len)"

definition confined_request :: "flash_profile \<Rightarrow> nat \<Rightarrow> nat \<Rightarrow> request_packet \<Rightarrow> bool" where
  "confined_request profile offset len packet \<longleftrightarrow> observing packet
     \<or> (\<exists>bytes n. packet = build_data_request bytes n True True \<and> confined profile offset len bytes)"

lemma confined_requests [simp]:
  "confined profile offset len bytes \<Longrightarrow>
     confined_request profile offset len (build_data_request bytes n True True)"
  "observing packet \<Longrightarrow> confined_request profile offset len packet"
  "confined profile offset len [0x06]" "confined profile offset len [0x05]"
  by (auto simp: confined_request_def confined_def)

lemma confined_program:
  assumes "big_endian (bus_address (fp_mode profile) at) = unat at" "offset \<le> unat at"
    "unat at + length data \<le> offset + len"
    "unat at mod unat (fp_page_bytes profile) + length data \<le> unat (fp_page_bytes profile)"
  shows "confined profile offset len
    (fst (snd (bus_opcodes (fp_mode profile))) # bus_address (fp_mode profile) at @ data)"
  using assms unfolding confined_def by blast

lemma confined_erase:
  assumes "big_endian (bus_address (fp_mode profile) at) = unat at" "4096 dvd unat at"
    "offset \<le> unat at" "unat at + 4096 \<le> offset + len"
  shows "confined profile offset len
    (snd (snd (bus_opcodes (fp_mode profile))) # bus_address (fp_mode profile) at)"
  using assms unfolding confined_def by blast

lemma requests_wider: "requests C observing m \<Longrightarrow> requests C (confined_request profile offset len) m"
  by (erule sends_mono) (metis confined_requests(2) frame_of_def)

lemma requests_write_enable [sends_intros]:
  "requests (de_codec D) (confined_request profile offset len) (write_enable D)"
  unfolding write_enable_def by (auto intro!: sends_intros)

lemma transfer_sends:
  "transfer C bytes n start stop a = (r, a') \<Longrightarrow> Q (build_data_request bytes n start stop) \<Longrightarrow>
     \<exists>frames. wr_sent (ad_wire a') = wr_sent (ad_wire a) @ frames \<and> list_all (frame_of C Q) frames"
  using requests_transfer(1) [of Q bytes n start stop C] by (auto elim: sendsD)

lemma wait_busy_clear_step:
  assumes "via D (transfer (de_codec D) [0x05] 1 True True) a = (r, a')"
  shows "wait_busy_clear D a = (case r of Inl e \<Rightarrow> (Inl e, a') | Inr status \<Rightarrow>
      if status \<noteq> [] \<and> hd status AND 0x01 = 0 then (Inr (), a') else wait_busy_clear D a')"
  by (subst wait_busy_clear.simps) (cases r; simp only: assms prod.case sum.case)

lemma requests_wait_busy_clear [sends_intros]:
  assumes "\<And>n. Q (build_data_request [0x05] n True True)"
  shows "requests (de_codec D) Q (wait_busy_clear D)"
proof (rule sendsI)
  fix a
  show "\<exists>frames. wr_sent (ad_wire (snd (wait_busy_clear D a))) = wr_sent (ad_wire a) @ frames
      \<and> list_all (frame_of (de_codec D) Q) frames"
  proof (induction D a rule: wait_busy_clear.induct)
    case (1 D a)
    obtain r a' where run: "via D (transfer (de_codec D) [0x05] 1 True True) a = (r, a')"
      by (cases "via D (transfer (de_codec D) [0x05] 1 True True) a")
    have "requests (de_codec D) Q (via D (transfer (de_codec D) [0x05] 1 True True))"
      using assms by (auto intro!: sends_intros)
    from sendsD [OF this run] obtain frames where
      frames: "wr_sent (ad_wire a') = wr_sent (ad_wire a) @ frames" "list_all (frame_of (de_codec D) Q) frames" .
    note step = wait_busy_clear_step [OF run]
    show ?case
    proof (cases r)
      case (Inl e)
      then show ?thesis using frames by (simp add: step)
    next
      case (Inr status)
      show ?thesis
      proof (cases "status \<noteq> [] \<and> hd status AND 0x01 = 0")
        case True
        then show ?thesis using frames Inr by (simp add: step)
      next
        case False
        with 1 [OF run [symmetric] Inr] obtain more where
          "wr_sent (ad_wire (snd (wait_busy_clear D a'))) = wr_sent (ad_wire a') @ more"
          "list_all (frame_of (de_codec D) Q) more" by auto
        moreover have "wait_busy_clear D a = wait_busy_clear D a'" using step Inr False by simp
        ultimately show ?thesis using frames by simp
      qed
    qed
  qed
qed

lemma qualified_flash_geometryD:
  assumes "qualified_flash_geometry binding = Inr profile"
  shows "qualified_geometry (fp_geometry profile)" "fp_mode profile = address_mode (fp_geometry profile)"
    "fp_page_bytes profile = page_bytes (fp_geometry profile)" "fp_erase_bytes profile = 4096"
proof -
  obtain capacity where new: "geometry_try_new capacity (fp_page_bytes profile) (fp_erase_bytes profile)
      (fp_mode profile) = Inr (fp_geometry profile)"
  proof -
    obtain c where "bpio_config binding = Inr c"
      using assms by (cases "bpio_config binding") (auto simp: qualified_flash_geometry_def)
    with assms that show ?thesis by (auto simp: qualified_flash_geometry_def Let_def split: option.splits)
  qed
  then show "qualified_geometry (fp_geometry profile)" by (rule geometry_try_new_qualified)
  show "fp_mode profile = address_mode (fp_geometry profile)"
    "fp_page_bytes profile = page_bytes (fp_geometry profile)" "fp_erase_bytes profile = 4096"
    using new by (auto simp: geometry_try_new_def split: if_splits dest!: sym [of _ "fp_geometry profile"])
qed

lemma bus_address_exact:
  assumes "qualified_flash_geometry binding = Inr profile" "unat at < unat (capacity_bytes (fp_geometry profile))"
  shows "big_endian (bus_address (fp_mode profile) at) = unat at"
proof -
  note g = qualified_flash_geometryD [OF assms(1)]
  have "bus_address (fp_mode profile) at = address (fp_geometry profile) at"
    by (simp add: bus_address_def address_def g(2))
  then show ?thesis using big_endian_address [OF g(1) assms(2)] by simp
qed

lemma unat_checked_offset:
  "checked_add offset (of_nat n) = Some (at :: u64) \<Longrightarrow> n < 2 ^ 64 \<Longrightarrow> unat at = unat offset + n"
  using unat_of_nat_small [of n] by (simp only: checked_add_Some_iff)

lemma requests_flash_write_loop:
  assumes profile: "qualified_flash_geometry binding = Inr profile"
    and range: "unat offset + length bytes \<le> unat (capacity_bytes (fp_geometry profile))"
  shows "requests (de_codec D) (confined_request profile (unat offset) (length bytes))
    (flash_write_loop D (fp_mode profile) (fp_page_bytes profile) max_payload offset bytes cursor)"
proof (induction "length bytes - cursor" arbitrary: cursor rule: less_induct)
  case less
  let ?Q = "confined_request profile (unat offset) (length bytes)"
  let ?page = "unat (fp_page_bytes profile)"
  show ?case
  proof (cases "length bytes \<le> cursor \<or> fp_page_bytes profile = 0 \<or> max_payload = 0")
    case True
    then show ?thesis by (subst flash_write_loop.simps) (simp add: sends_intros)
  next
    case False
    have small: "length bytes < 2 ^ 64"
      using range unat_u64_less [of "capacity_bytes (fp_geometry profile)"] by simp
    show ?thesis
    proof (subst flash_write_loop.simps, simp only: False if_False Let_def, intro sends_abind_alift)
      fix at
      assume "ok_or (checked_add offset (of_nat cursor)) (malformed ''flash program offset overflow'') = Inr at"
      then have at: "unat at = unat offset + cursor"
        using False small by (intro unat_checked_offset) auto
      let ?count = "program_count (fp_page_bytes profile) max_payload at (length bytes - cursor)"
      have count: "0 < ?count" "?count \<le> length bytes - cursor" "unat at mod ?page + ?count \<le> ?page"
        using False program_count_positive [of "fp_page_bytes profile" max_payload "length bytes - cursor" at]
          page_remaining_positive [of "fp_page_bytes profile" "unat at"]
        by (auto simp: program_count_def)
      have "confined profile (unat offset) (length bytes)
          (fst (snd (bus_opcodes (fp_mode profile))) # bus_address (fp_mode profile) at
             @ take ?count (drop cursor bytes))"
        using at count False range bus_address_exact [OF profile, of at] by (intro confined_program) auto
      then have command: "requests (de_codec D) ?Q (via D (transfer (de_codec D)
          (fst (snd (bus_opcodes (fp_mode profile))) # bus_address (fp_mode profile) at
             @ take ?count (drop cursor bytes)) 0 True True))"
        by (intro sends_intros) simp
      have "length bytes - (cursor + ?count) < length bytes - cursor" using False count by linarith
      note rest = less.hyps [OF this]
      show "requests (de_codec D) ?Q (abind (write_enable D) (\<lambda>_. abind (via D (transfer (de_codec D)
          (fst (snd (bus_opcodes (fp_mode profile))) # bus_address (fp_mode profile) at
             @ take ?count (drop cursor bytes)) 0 True True)) (\<lambda>_. abind (wait_busy_clear D) (\<lambda>_.
             flash_write_loop D (fp_mode profile) (fp_page_bytes profile) max_payload offset bytes
               (cursor + ?count)))))"
        by (intro sends_abind requests_write_enable command requests_wait_busy_clear rest) simp
    qed
  qed
qed

lemma requests_flash_write:
  assumes "qualified_flash_geometry binding = Inr profile" "length bytes = unat (len :: u32)"
  shows "requests (de_codec D) (confined_request profile (unat offset) (unat len))
    (flash_write D profile offset bytes lim)"
proof -
  have whole: "unat (of_nat (length bytes) :: u32) = length bytes"
    using assms(2) by simp
  show ?thesis
    unfolding flash_write_def layout_checked_def
    using requests_flash_write_loop [OF assms(1), of offset bytes D] whole
    by (intro sends_abind_alift) (auto simp: validate_range_capacity assms(2) split: if_splits)
qed

lemma requests_flash_erase_loop:
  assumes profile: "qualified_flash_geometry binding = Inr profile"
    and aligned: "4096 dvd unat offset"
    and range: "unat offset + len \<le> unat (capacity_bytes (fp_geometry profile))"
    and offsets: "\<forall>relative\<in>set rs. 4096 dvd relative \<and> relative + 4096 \<le> len"
  shows "requests (de_codec D) (confined_request profile (unat offset) len)
    (flash_erase_loop D (fp_mode profile) offset rs)"
  using offsets
proof (induction rs)
  case Nil
  then show ?case by (simp add: sends_intros)
next
  case (Cons relative rs)
  let ?Q = "confined_request profile (unat offset) len"
  have small: "relative < 2 ^ 64"
    using Cons.prems range unat_u64_less [of "capacity_bytes (fp_geometry profile)"] by simp
  have step: "requests (de_codec D) ?Q (via D (transfer (de_codec D)
      (snd (snd (bus_opcodes (fp_mode profile))) # bus_address (fp_mode profile) at) 0 True True))"
    if "checked_add offset (of_nat relative) = Some at" for at
  proof -
    have at: "unat at = unat offset + relative" using that small by (rule unat_checked_offset)
    have "confined profile (unat offset) len
        (snd (snd (bus_opcodes (fp_mode profile))) # bus_address (fp_mode profile) at)"
      using at Cons.prems range aligned bus_address_exact [OF profile, of at] by (intro confined_erase) auto
    then show ?thesis by (intro sends_intros) simp
  qed
  have rest: "requests (de_codec D) ?Q (flash_erase_loop D (fp_mode profile) offset rs)"
    using Cons by simp
  show ?case
    unfolding flash_erase_loop.simps
    by (intro sends_abind [OF requests_write_enable] sends_abind_alift sends_abind
        requests_wait_busy_clear rest step) auto
qed

lemma sector_offsets_inside:
  assumes "relative \<in> set (sector_offsets len 4096)" "4096 dvd unat len"
  shows "4096 dvd relative \<and> relative + 4096 \<le> unat len"
proof -
  from assms(2) obtain k where k: "unat len = 4096 * k" ..
  then have "(unat len + 4096 - 1) div 4096 = k" by simp
  then obtain i where "relative = i * 4096" "i < k"
    using assms(1) by (auto simp: sector_offsets_def)
  then show ?thesis using k by simp
qed

lemma requests_flash_erase:
  assumes profile: "qualified_flash_geometry binding = Inr profile"
  shows "requests (de_codec D) (confined_request profile (unat offset) (unat len))
    (flash_erase D profile offset len lim)"
proof -
  have "requests (de_codec D) (confined_request profile (unat offset) (unat len))
      (flash_erase_loop D (fp_mode profile) offset (sector_offsets len (fp_erase_bytes profile)))"
    if "validate_erase (fp_geometry profile) offset len = Inr ()"
    using that validate_erase_capacity [OF qualified_flash_geometryD(1) [OF profile], of offset len "()"]
      sector_offsets_inside [of _ len]
    by (intro requests_flash_erase_loop [OF profile]) (auto simp: qualified_flash_geometryD(4) [OF profile])
  then show ?thesis
    unfolding flash_erase_def layout_checked_def
    by (intro sends_abind_alift sends_abind [OF requests_require(1)]) auto
qed

text \<open>The region an operation may change.\<close>

fun flash_region :: "operation \<Rightarrow> (nat \<times> nat) option" where
  "flash_region (FlashErase _ _ offset len) = Some (unat offset, unat len)"
| "flash_region (FlashWrite _ _ offset _ len) = Some (unat offset, unat len)"
| "flash_region (FlashRead _ _ offset len) = Some (unat offset, 0)"
| "flash_region (FlashVerify _ _ offset _ len) = Some (unat offset, 0)"
| "flash_region _ = None"

lemma requests_observed:
  "requests (de_codec D) (confined_request profile offset len) (verify_flash_identity D binding lim)"
  "requests (de_codec D) (confined_request profile offset len) (flash_read D profile' at n lim)"
  "requests (de_codec D) (confined_request profile offset len) (ensure_mode D mode speed)"
  by (intro requests_wider sends_intros)+

lemma requests_flash_operation:
  assumes profile: "qualified_flash_geometry binding = Inr profile"
    and region: "flash_region oper = Some (offset, len)"
  shows "requests (de_codec D) (confined_request profile offset len)
    (bus_execute D binding oper artifacts reconcile configure)"
proof -
  show ?thesis
    using region requests_flash_erase [OF profile] requests_flash_write [OF profile]
    unfolding bus_execute_def erase_flash_range_def write_flash_range_def read_flash_range_def
      with_flash_limits_def flash_limits_def unless_reconciling_def
    by (cases oper)
      (auto intro!: sends_abind_alift sends_intros requests_observed simp: Let_def profile source_bytes_iff)
qed

text \<open>Whatever the device does, a flash operation of the bus never sends a command that
  leaves its region: apart from observing requests it sends write enables, polls, programs whose
  address bytes decode to an address of the region, with data that ends inside the region and
  inside its page, and erases of whole sectors of the region; a read or a verification has an
  empty region and changes nothing.\<close>

theorem flash_effects_confined:
  assumes "qualified_flash_geometry binding = Inr profile" "flash_region oper = Some (offset, len)"
    and "bus_execute D binding oper artifacts reconcile configure a = (r, a')"
  shows "\<exists>frames. wr_sent (ad_wire a') = wr_sent (ad_wire a) @ frames
    \<and> list_all (frame_of (de_codec D) (confined_request profile offset len)) frames"
  using requests_flash_operation [OF assms(1,2)] assms(3) by (rule sendsD) blast

section \<open>Completion\<close>

lemma limits_positive: "limits_from_discovery d = Inr lim \<Longrightarrow> 0 < lm_write lim \<and> 0 < lm_read lim"
  by (auto simp: limits_from_discovery_def Let_def split: if_splits)

lemma require_Inr [simp]: "require good message a = (Inr u, a') \<longleftrightarrow> good \<and> a' = a"
  by (auto simp: require_def areturn_def afail_def)

lemma ensure_mode_limits:
  "ensure_mode D mode speed a = (Inr lim, a') \<Longrightarrow> 0 < lm_write lim \<and> 0 < lm_read lim"
  by (auto simp: ensure_mode_def limits_positive afail_def split: if_splits)

lemma transfer_length:
  assumes "transfer C bs n start stop a = (Inr v, a')"
  shows "length v = unat n"
  using assms
  by (auto simp: transfer_def transfer_with_length_policy_def data_of_def Let_def split: if_splits)

lemma try_u16_iff: "try_u16 n = Inr w \<longleftrightarrow> n < 65536 \<and> w = of_nat n"
  by (auto simp: try_u16_def)

lemma try_u16_exact: "try_u16 n = Inr w \<Longrightarrow> unat w = n"
  by (auto simp: try_u16_iff unat_of_nat)

lemma flash_read_loop_length:
  "flash_read_loop D mode limit cursor remaining bytes a = (Inr v, a') \<Longrightarrow> 0 < limit \<Longrightarrow>
     length v = length bytes + remaining"
proof (induction D mode limit cursor remaining bytes arbitrary: a rule: flash_read_loop.induct)
  case (1 D mode limit cursor remaining bytes)
  show ?case
  proof (cases "remaining = 0")
    case True
    then show ?thesis using 1(2) by (simp add: flash_read_loop.simps)
  next
    case False
    then obtain n received a1 at where
      "try_u16 (min remaining limit) = Inr n" "length received = unat n"
      "flash_read_loop D mode limit at (remaining - min remaining limit) (bytes @ received) a1 = (Inr v, a')"
      using 1(2,3) by (subst (asm) flash_read_loop.simps) (auto simp: Let_def dest: transfer_length)
    moreover from this have "length v = length (bytes @ received) + (remaining - min remaining limit)"
      using False 1(3) by (intro 1(1)) auto
    ultimately show ?thesis by (simp add: try_u16_exact)
  qed
qed

lemma flash_read_length:
  "flash_read D profile offset len lim a = (Inr v, a') \<Longrightarrow> 0 < lm_read lim \<Longrightarrow> length v = unat len"
  by (auto simp: flash_read_def dest: flash_read_loop_length)

lemma flash_limits_InrD:
  "flash_limits D binding configure a = (Inr (Some lim), a') \<Longrightarrow> 0 < lm_read lim"
  by (auto simp: flash_limits_def dest: ensure_mode_limits split: if_splits)

lemma with_flash_limits_complete:
  assumes "with_flash_limits D binding base reconcile configure body a = (Inr result, a')"
    "rd_partial result = None"
  shows "\<exists>lim a1. 0 < lm_read lim \<and> body lim a1 = (Inr result, a')"
proof -
  from assms(1) obtain a0 found a1 where found: "flash_limits D binding configure a0 = (Inr found, a1)"
    "(case found of None \<Rightarrow> areturn (mode_unavailable base ''SPI'') | Some lim \<Rightarrow> body lim) a1 = (Inr result, a')"
    by (auto simp: with_flash_limits_def)
  with assms(2) obtain lim where lim: "found = Some lim"
    by (cases found) (auto simp: mode_unavailable_def)
  with found show ?thesis using flash_limits_InrD by fastforce
qed

text \<open>What a completed operation has observed.\<close>

fun observed_outcome :: "resolver \<Rightarrow> operation \<Rightarrow> result_data \<Rightarrow> bool" where
  "observed_outcome artifacts (FlashRead _ _ offset len) result \<longleftrightarrow>
     (\<exists>bytes. rd_bytes result = Some bytes \<and> length bytes = unat len)"
| "observed_outcome artifacts (FlashErase _ _ offset len) result \<longleftrightarrow>
     rd_bytes result = Some (replicate (unat len) 0xFF)"
| "observed_outcome artifacts (FlashWrite _ _ offset source len) result \<longleftrightarrow>
     (\<exists>candidate. artifacts source = Inr candidate \<and> length candidate = unat len
        \<and> rd_bytes result = Some candidate)"
| "observed_outcome artifacts (FlashVerify _ _ offset source len) result \<longleftrightarrow>
     (\<exists>candidate. artifacts source = Inr candidate \<and> length candidate = unat len
        \<and> rd_bytes result = Some candidate)"
| "observed_outcome artifacts (GpioSet _ _ pin high) result \<longleftrightarrow>
     map_of (rd_body result) ''observed_high'' = Some (JBool high)"
| "observed_outcome artifacts (PsuSet _ _ millivolts milliamps) result \<longleftrightarrow>
     map_of (rd_body result) ''psu_matches_request'' = Some (JBool True)"
| "observed_outcome artifacts _ result \<longleftrightarrow> True"

fun raw_operation :: "operation \<Rightarrow> bool" where
  "raw_operation (SpiTransfer _ _ _ _) = True"
| "raw_operation (I2cTransfer _ _ _ _ _) = True"
| "raw_operation (I2cScan _ _) = True"
| "raw_operation (UartTransmit _ _ _) = True"
| "raw_operation _ = False"

lemma with_bytes_simps [simp]:
  "rd_bytes (with_bytes D body bytes field) = Some bytes" "rd_partial (with_bytes D body bytes field) = None"
  by (simp_all add: with_bytes_def)

lemma blank_iff: "bs = replicate n x \<longleftrightarrow> length bs = n \<and> list_all (\<lambda>b. b = x) bs"
  by (auto simp: list_all_iff intro: replicate_eqI)

lemma erase_complete:
  assumes "erase_flash_range D binding base reconcile configure offset len a = (Inr result, a')"
    "rd_partial result = None"
  shows "rd_bytes result = Some (replicate (unat len) 0xFF)"
  using assms
  by (auto simp: erase_flash_range_def Let_def partial_unless_None blank_iff
      dest!: with_flash_limits_complete flash_read_length)

lemma write_complete:
  assumes "write_flash_range D binding artifacts base reconcile configure is_write offset source len a
      = (Inr result, a')" "rd_partial result = None"
  shows "\<exists>candidate. artifacts source = Inr candidate \<and> length candidate = unat len
    \<and> rd_bytes result = Some candidate"
  using assms
  by (auto simp: write_flash_range_def Let_def partial_unless_None source_bytes_iff
      dest!: with_flash_limits_complete)

lemma read_complete:
  assumes "read_flash_range D binding base reconcile configure offset len a = (Inr result, a')"
    "rd_partial result = None"
  shows "\<exists>bytes. rd_bytes result = Some bytes \<and> length bytes = unat len"
  using assms
  by (auto simp: read_flash_range_def dest!: with_flash_limits_complete flash_read_length)

lemma gpio_complete:
  assumes "drive_gpio D binding reconcile pin high a = (Inr result, a')" "rd_partial result = None"
  shows "map_of (rd_body result) ''observed_high'' = Some (JBool high)"
  using assms by (auto simp: drive_gpio_def Let_def partial_unless_None map_of_merge)

lemma power_complete:
  assumes "set_power D binding reconcile millivolts milliamps a = (Inr result, a')" "rd_partial result = None"
  shows "map_of (rd_body result) ''psu_matches_request'' = Some (JBool True)"
  using assms by (auto simp: set_power_def Let_def partial_unless_None map_of_merge)

lemma raw_partial:
  assumes "bus_execute D binding oper artifacts True configure a = (Inr result, a')" "raw_operation oper"
  shows "rd_partial result \<noteq> None"
  using assms
  by (cases oper) (auto simp: bus_execute_def raw_spi_def raw_i2c_def scan_i2c_def transmit_uart_def
      unknown_raw_def Let_def afail_def split: if_splits)

text \<open>A bus operation that completes has observed its effect: the bytes read back after an
  erase are all blank and as many as requested, after a program or a verification they are the
  verified candidate, a read has the requested length, a driven pin is reported at its level
  and the supply as requested. A raw transfer never completes in reconciliation.\<close>

theorem bus_completion_observed:
  assumes "bus_execute D binding oper artifacts reconcile configure a = (Inr result, a')"
    and "rd_partial result = None"
  shows "observed_outcome artifacts oper result \<and> (raw_operation oper \<longrightarrow> \<not> reconcile)"
proof -
  obtain fresh a1 where run: "(case oper of
       InstrumentStatus _ _ \<Rightarrow> areturn (result_observation (status_body fresh reconcile))
     | SpiTransfer _ _ tx rx_bytes \<Rightarrow> raw_spi D binding (status_body fresh reconcile) reconcile configure tx rx_bytes
     | I2cTransfer _ _ addr tx rx_bytes \<Rightarrow>
         raw_i2c D binding (status_body fresh reconcile) reconcile configure addr tx rx_bytes
     | I2cScan _ _ \<Rightarrow> scan_i2c D binding (status_body fresh reconcile) reconcile configure
     | UartCapture _ _ max_bytes \<Rightarrow>
         capture_uart D binding (status_body fresh reconcile) reconcile configure max_bytes
     | UartTransmit _ _ bytes \<Rightarrow> transmit_uart D binding (status_body fresh reconcile) reconcile configure bytes
     | GpioSet _ _ pin high \<Rightarrow> drive_gpio D binding reconcile pin high
     | AdcRead _ _ channel \<Rightarrow> read_adc (status_body fresh reconcile) fresh channel
     | PsuSet _ _ millivolts milliamps \<Rightarrow> set_power D binding reconcile millivolts milliamps
     | FlashIdentify _ _ \<Rightarrow> flash_identify D binding (status_body fresh reconcile) reconcile configure
     | FlashRead _ _ offset len \<Rightarrow>
         read_flash_range D binding (status_body fresh reconcile) reconcile configure offset len
     | FlashErase _ _ offset len \<Rightarrow>
         erase_flash_range D binding (status_body fresh reconcile) reconcile configure offset len
     | FlashWrite _ _ offset source len \<Rightarrow>
         write_flash_range D binding artifacts (status_body fresh reconcile) reconcile configure True offset source len
     | FlashVerify _ _ offset source len \<Rightarrow>
         write_flash_range D binding artifacts (status_body fresh reconcile) reconcile configure False offset source len
     | _ \<Rightarrow> afail (malformed ''operation is unsupported by Bus Pirate BPIO2'')) a1 = (Inr result, a')"
    using assms(1) by (auto simp: bus_execute_def Let_def)
  have "observed_outcome artifacts oper result"
    using run assms(2)
    by (cases oper) (auto dest: erase_complete write_complete read_complete gpio_complete power_complete)
  moreover have "\<not> reconcile" if "raw_operation oper"
    using raw_partial [of D binding oper artifacts configure a result a'] that assms by auto
  ultimately show ?thesis by simp
qed

end
