(* ===== verification/Bus_Program.thy ===== *)
theory Bus_Program
  imports Bus_Safety
begin

text \<open>
  The exact traffic of a program that succeeds, and a device that the properties of the bus
  are applied to.
\<close>

section \<open>The traffic of a program\<close>

definition data_frame :: "device_env \<Rightarrow> u8 list \<Rightarrow> u16 \<Rightarrow> u8 list" where
  "data_frame D bytes n = request_frame (de_codec D) (build_data_request bytes n True True)"

text \<open>Write enable and its acknowledgement, the command, and the polls until the flash is idle.\<close>

definition program_frames ::
  "device_env \<Rightarrow> address_mode \<Rightarrow> (u64 \<times> u8 list) \<times> nat \<Rightarrow> u8 list list" where
  "program_frames D mode step = (case step of ((at, data), polls) \<Rightarrow>
     [data_frame D [0x06] 0, data_frame D [0x05] 1,
      data_frame D (fst (snd (bus_opcodes mode)) # bus_address mode at @ data) 0]
     @ replicate (Suc polls) (data_frame D [0x05] 1))"

lemma exchange_sent:
  "exchange_with actions late reader bytes w = (Inr v, w') \<Longrightarrow> wr_sent w' = wr_sent w @ [bytes]"
  by (auto simp: exchange_with_def Let_def split: list.splits option.splits prod.splits sum.splits
      instrument_error.splits)

lemma request_sent:
  "bpio_request C packet a = (Inr v, a') \<Longrightarrow>
     wr_sent (ad_wire a') = wr_sent (ad_wire a) @ [request_frame C packet]"
  by (auto simp: bpio_request_def split: if_splits prod.splits dest: exchange_sent)

lemma transfer_sent:
  "transfer (de_codec D) bs n True True a = (Inr v, a') \<Longrightarrow>
     wr_sent (ad_wire a') = wr_sent (ad_wire a) @ [data_frame D bs n]"
  by (auto simp: transfer_def transfer_with_length_policy_def check_limits_def data_frame_def
      dest: request_sent)

lemma write_enable_sent:
  "write_enable D a = (Inr u, a') \<Longrightarrow>
     wr_sent (ad_wire a') = wr_sent (ad_wire a) @ [data_frame D [0x06] 0, data_frame D [0x05] 1]"
  by (auto simp: write_enable_def dest!: transfer_sent)

lemma wait_busy_clear_sent:
  "wait_busy_clear D a = (Inr u, a') \<Longrightarrow>
     \<exists>polls. wr_sent (ad_wire a') = wr_sent (ad_wire a) @ replicate (Suc polls) (data_frame D [0x05] 1)"
proof (induction D a rule: wait_busy_clear.induct)
  case (1 D a)
  obtain r a1 where run: "via D (transfer (de_codec D) [0x05] 1 True True) a = (r, a1)"
    by (cases "via D (transfer (de_codec D) [0x05] 1 True True) a")
  note step = wait_busy_clear_step [OF run]
  from step 1(2) obtain status where status: "r = Inr status" by (cases r) auto
  then have sent: "wr_sent (ad_wire a1) = wr_sent (ad_wire a) @ [data_frame D [0x05] 1]"
    using run by (auto dest: transfer_sent)
  show ?case
  proof (cases "status \<noteq> [] \<and> hd status AND 0x01 = 0")
    case True
    then show ?thesis using step status sent 1(2) by (intro exI [of _ 0]) simp
  next
    case False
    have "wait_busy_clear D a = wait_busy_clear D a1"
      by (simp only: step status sum.case False if_False)
    then have "wait_busy_clear D a1 = (Inr u, a')" using 1(2) by simp
    with 1(1) [OF run [symmetric] status False] obtain polls where
      "wr_sent (ad_wire a') = wr_sent (ad_wire a1) @ replicate (Suc polls) (data_frame D [0x05] 1)" by blast
    then show ?thesis using sent by (intro exI [of _ "Suc polls"]) simp
  qed
qed

lemma flash_write_loop_sent:
  assumes "flash_write_loop D mode page max_payload offset bytes cursor a = (Inr u, a')"
    and "page \<noteq> 0" "0 < max_payload" "cursor \<le> length bytes" "length bytes < 2 ^ 64"
  shows "\<exists>steps. wr_sent (ad_wire a') = wr_sent (ad_wire a) @ concat (map (program_frames D mode) steps)
    \<and> laid_out (unat page) (unat offset + cursor) (map fst steps)
    \<and> concat (map (snd \<circ> fst) steps) = drop cursor bytes
    \<and> list_all (\<lambda>step. length (snd (fst step)) \<le> max_payload) steps"
  using assms(1,4)
proof (induction "length bytes - cursor" arbitrary: cursor a rule: less_induct)
  case less
  show ?case
  proof (cases "length bytes \<le> cursor")
    case True
    with less.prems show ?thesis
      by (intro exI [of _ "[]"]) (simp add: flash_write_loop.simps)
  next
    case False
    from less.prems(1) False assms(2,3) obtain at a1 a2 a3 v where
      at: "checked_add offset (of_nat cursor) = Some at"
      and run: "write_enable D a = (Inr (), a1)"
        "transfer (de_codec D) (fst (snd (bus_opcodes mode)) # bus_address mode at
           @ take (program_count page max_payload at (length bytes - cursor)) (drop cursor bytes)) 0 True True a1
         = (Inr v, a2)"
        "wait_busy_clear D a2 = (Inr (), a3)"
        "flash_write_loop D mode page max_payload offset bytes
           (cursor + program_count page max_payload at (length bytes - cursor)) a3 = (Inr u, a')"
      by (subst (asm) flash_write_loop.simps) (auto simp: Let_def)
    define count where "count = program_count page max_payload at (length bytes - cursor)"
    have base: "unat at = unat offset + cursor"
      using at False assms(5) by (intro unat_checked_offset) auto
    have count: "0 < count" "count \<le> max_payload" "cursor + count \<le> length bytes"
      "unat at mod unat page + count \<le> unat page"
      using False assms(2,3) program_count_positive [of page max_payload "length bytes - cursor" at]
        page_remaining_positive [of page "unat at"]
      by (auto simp: count_def program_count_def)
    define data where "data = take count (drop cursor bytes)"
    have data: "length data = count" "data @ drop (cursor + count) bytes = drop cursor bytes"
      using count(3) by (simp_all add: data_def add.commute flip: drop_drop)
    obtain polls where polls: "wr_sent (ad_wire a3) = wr_sent (ad_wire a2)
        @ replicate (Suc polls) (data_frame D [0x05] 1)"
      using wait_busy_clear_sent [OF run(3)] by blast
    have sent: "wr_sent (ad_wire a3) = wr_sent (ad_wire a) @ program_frames D mode ((at, data), polls)"
      using write_enable_sent [OF run(1)] transfer_sent [OF run(2)] polls
      by (simp add: program_frames_def data_def count_def)
    have "length bytes - (cursor + count) < length bytes - cursor" using False count(1) by linarith
    from less.hyps [OF this run(4) [folded count_def] count(3)] obtain steps where steps:
      "wr_sent (ad_wire a') = wr_sent (ad_wire a3) @ concat (map (program_frames D mode) steps)"
      "laid_out (unat page) (unat offset + (cursor + count)) (map fst steps)"
      "concat (map (snd \<circ> fst) steps) = drop (cursor + count) bytes"
      "list_all (\<lambda>step. length (snd (fst step)) \<le> max_payload) steps" by blast
    show ?thesis
      using steps sent data count base
      by (intro exI [of _ "((at, data), polls) # steps"]) (auto simp: add.assoc)
  qed
qed

text \<open>C31: A flash program that succeeds sent exactly this: chunk by chunk a write enable and
  its acknowledgement, one program command and polls until the flash was idle; the chunks
  follow one another from the offset, are not empty, never cross a page, fit the firmware's
  limit, add up to the candidate, and their address bytes are their addresses.\<close>

theorem flash_program_exact:
  assumes "qualified_flash_geometry binding = Inr profile"
    and "flash_write D profile offset bytes lim a = (Inr u, a')"
  shows "\<exists>steps. wr_sent (ad_wire a') = wr_sent (ad_wire a)
        @ concat (map (program_frames D (fp_mode profile)) steps)
    \<and> laid_out (unat (fp_page_bytes profile)) (unat offset) (map fst steps)
    \<and> concat (map (snd \<circ> fst) steps) = bytes
    \<and> list_all (\<lambda>step. 1 + length (bus_address (fp_mode profile) (fst (fst step)) @ snd (fst step)) \<le> lm_write lim
        \<and> big_endian (bus_address (fp_mode profile) (fst (fst step))) = unat (fst (fst step))) steps"
proof -
  note g = qualified_flash_geometryD [OF assms(1)]
  have page: "fp_page_bytes profile \<noteq> 0" using qualified_geometryD(2) [OF g(1)] g(3) by simp
  let ?overhead = "1 + length (bus_address (fp_mode profile) offset)"
  obtain len :: u32 and max_payload where len: "length bytes < 2 ^ 32" "len = of_nat (length bytes)"
    and range: "validate_range (fp_geometry profile) offset len = Inr ()"
    and payload: "flash_program_payload_limit lim ?overhead = Inr max_payload"
    and run: "flash_write_loop D (fp_mode profile) (fp_page_bytes profile) max_payload offset bytes 0 a = (Inr u, a')"
    using assms(2) by (auto simp: flash_write_def layout_checked_def split: if_splits)
  have limit: "0 < max_payload" "?overhead + max_payload = lm_write lim"
    using payload by (auto simp: flash_program_payload_limit_def split: if_splits)
  have bound: "length bytes < 2 ^ 64" using len(1) by simp
  from flash_write_loop_sent [OF run page limit(1) _ bound] obtain steps where steps:
    "wr_sent (ad_wire a') = wr_sent (ad_wire a) @ concat (map (program_frames D (fp_mode profile)) steps)"
    "laid_out (unat (fp_page_bytes profile)) (unat offset) (map fst steps)"
    "concat (map (snd \<circ> fst) steps) = bytes"
    "list_all (\<lambda>step. length (snd (fst step)) \<le> max_payload) steps" by auto
  have whole: "unat offset + length bytes \<le> unat (capacity_bytes (fp_geometry profile))"
    using range len by (simp add: validate_range_capacity unat_of_nat)
  have address: "big_endian (bus_address (fp_mode profile) (fst (fst step))) = unat (fst (fst step))"
    if "step \<in> set steps" for step
  proof (rule bus_address_exact [OF assms(1)])
    have "fst step \<in> set (map fst steps)" using that by simp
    then have "unat (fst (fst step)) < unat offset + length (concat (map snd (map fst steps)))"
      using laid_out_in_range [OF steps(2), of "fst (fst step)" "snd (fst step)"] by simp
    then show "unat (fst (fst step)) < unat (capacity_bytes (fp_geometry profile))"
      using whole steps(3) by (simp add: comp_def)
  qed
  have same: "length (bus_address (fp_mode profile) at) = length (bus_address (fp_mode profile) offset)" for at
    by (simp add: bus_address_def split: address_mode.split)
  have fits: "1 + length (bus_address (fp_mode profile) (fst (fst step)) @ snd (fst step)) \<le> lm_write lim"
    if "step \<in> set steps" for step
    using steps(4) that limit(2) same [of "fst (fst step)"] by (force simp: list_all_iff)
  show ?thesis
    using steps(1-3) address fits by (intro exI [of _ steps] conjI) (simp_all add: list_all_iff)
qed

section \<open>A device\<close>

text \<open>A device that answers every request as scripted: a status with pin 1 high in SPI mode,
  a configuration, or data.\<close>

definition ex_discovery :: discovery where
  "ex_discovery = \<lparr>di_flatbuffer_major = 2, di_flatbuffer_minor = 0, di_hardware_major = 5,
     di_hardware_minor = 10, di_firmware_major = 1, di_firmware_minor = 0,
     di_firmware_git_hash = None, di_firmware_date = None, di_modes_available = [],
     di_mode_current = Some ''SPI'', di_max_packet_bytes = 640, di_max_write_bytes = 512,
     di_max_read_bytes = 512, di_psu_enabled = False, di_psu_set_millivolts = 0,
     di_psu_set_milliamps = 0, di_psu_measured_millivolts = 0, di_psu_measured_milliamps = 0,
     di_adc_millivolts = [], di_io_direction = 2, di_io_value = 2\<rparr>"

definition ex_decode :: "u8 list \<Rightarrow> string + response_packet" where
  "ex_decode bytes = (case bytes of
     [] \<Rightarrow> Inl ''empty''
   | kind # data \<Rightarrow> Inr
       \<lparr>rs_error = None,
        rs_contents_type = (if kind = 1 then StatusResponse else if kind = 2 then ConfigurationResponse
                            else DataResponse),
        rs_status = Some \<lparr>st_error = None, st_modes_available = Some [''SPI''], st_adc_mv = None,
                          st_fields = ex_discovery\<rparr>,
        rs_configuration = Some None,
        rs_data = Some \<lparr>da_error = None, da_data_read = Some data\<rparr>\<rparr>)"

definition ex_device_env :: device_env where
  "ex_device_env = \<lparr>de_env = ex_env, de_debug = id, de_utf8_text = (\<lambda>_. ''utf8''),
     de_codec = \<lparr>cd_encode = (\<lambda>_. [1]), cd_decode = ex_decode\<rparr>\<rparr>"

definition ex_answer :: "u8 list \<Rightarrow> exchange" where
  "ex_answer bytes = \<lparr>ex_fault = None, ex_arrives = map Inr (cobs_encode bytes), ex_ended = False\<rparr>"

definition ex_adapter :: "u8 list list \<Rightarrow> u8 list list \<Rightarrow> discovery option \<Rightarrow> adapter" where
  "ex_adapter sent answers known =
     \<lparr>ad_wire = \<lparr>wr_sent = sent, wr_pending = [], wr_script = map ex_answer answers\<rparr>,
      ad_frame_limit = 640, ad_discovery = known\<rparr>"

definition ex_seen :: discovery where
  "ex_seen = ex_discovery\<lparr>di_modes_available := [''SPI'']\<rparr>"

definition ex_bpio_config :: bpio2_config where
  "ex_bpio_config = \<lparr>bc_serial = ex_serial, bc_spi_hz = 1000000, bc_i2c_hz = 100000,
     bc_uart_baud = 115200, bc_psu_max_millivolts = 3300, bc_psu_max_milliamps = 300,
     bc_pin_map = [(''reset'', 1)], bc_flash_capacity_bytes = Some 0x10000,
     bc_flash_page_bytes = Some 256, bc_flash_erase_bytes = Some 4096,
     bc_flash_four_byte_addressing = False\<rparr>"

definition ex_bpio_binding :: device_binding where
  "ex_bpio_binding = \<lparr>db_config = Bpio2Instrument ex_bpio_config, db_target_fingerprint = ex_digest,
     db_fixture_revision = ex_digest, db_flash_identity = Some
       \<lparr>fi_jedec_id = [1, 2, 3], fi_sfdp_digest = ex_digest\<rparr>\<rparr>"

definition ex_profile_of_flash :: flash_profile where
  "ex_profile_of_flash = \<lparr>fp_geometry = ex_geometry, fp_mode = ThreeByte, fp_page_bytes = 256,
     fp_erase_bytes = 4096\<rparr>"

lemma ex_flash_profile: "qualified_flash_geometry ex_bpio_binding = Inr ex_profile_of_flash"
  by (simp add: qualified_flash_geometry_def bpio_config_def ex_bpio_binding_def ex_bpio_config_def
      geometry_try_new_def ex_profile_of_flash_def ex_geometry_def)

lemma ex_request:
  assumes "length (cobs_encode answer) \<le> 641"
  shows "bpio_request (de_codec ex_device_env) packet (ex_adapter sent (answer # answers) known) =
    (Inr answer, ex_adapter (sent @ [[2, 1, 0]]) answers known)"
proof -
  have "request_frame (de_codec ex_device_env) packet = [2, 1, 0]"
    by (simp add: request_frame_def ex_device_env_def cobs_encode_blocks)
  then show ?thesis
    using assms
    by (subst request_answered [where answer = answer and script = "map ex_answer answers" and x = "ex_answer answer"])
      (simp_all add: ex_adapter_def ex_answer_def ex_device_env_def)
qed

lemma ex_identify:
  "identify (de_codec ex_device_env) (ex_adapter sent ([1] # answers) known) =
     (Inr ex_seen, ex_adapter (sent @ [[2, 1, 0]]) answers (Some ex_seen))"
proof -
  have "status_of (de_codec ex_device_env) [1] = Inr ex_seen"
    by (simp add: status_of_def response_of_def ex_device_env_def ex_decode_def reject_packet_error_def
        ex_seen_def ex_discovery_def)
  then show ?thesis
    by (simp add: identify_def abind_def alift_def remember_def ex_request cobs_encode_blocks)
      (simp add: ex_adapter_def ex_seen_def ex_discovery_def)
qed

lemma ex_transfer:
  assumes "length (cobs_encode (3 # data)) \<le> 641" "length data = unat n"
  shows "transfer (de_codec ex_device_env) bs n start stop (ex_adapter sent ((3 # data) # answers) None) =
    (Inr data, ex_adapter (sent @ [[2, 1, 0]]) answers None)"
proof -
  have "data_of (de_codec ex_device_env) True n (3 # data) = Inr data"
    using assms(2)
    by (simp add: data_of_def response_of_def ex_device_env_def ex_decode_def reject_packet_error_def)
  moreover have "check_limits bs n (ex_adapter sent as None) = (Inr (), ex_adapter sent as None)" for as
    by (simp add: check_limits_def ex_adapter_def alift_def)
  ultimately show ?thesis
    using assms(1)
    by (simp add: transfer_def transfer_with_length_policy_def abind_def alift_def ex_request)
qed

text \<open>One byte programmed at address 255, on a device that is busy for one poll.\<close>

lemma ex_program:
  "flash_write ex_device_env ex_profile_of_flash 255 [7] \<lparr>lm_write = 512, lm_read = 512\<rparr>
     (ex_adapter [] [[3], [3, 2], [3], [3, 1], [3, 0]] None)
   = (Inr (), ex_adapter [[2, 1, 0], [2, 1, 0], [2, 1, 0], [2, 1, 0], [2, 1, 0]] [] None)"
proof -
  have enable: "write_enable ex_device_env (ex_adapter [] [[3], [3, 2], [3], [3, 1], [3, 0]] None)
      = (Inr (), ex_adapter [[2, 1, 0], [2, 1, 0]] [[3], [3, 1], [3, 0]] None)"
    by (simp add: write_enable_def abind_def via_def amap_err_def ex_transfer cobs_encode_blocks
        require_def areturn_def)
  have wait: "wait_busy_clear ex_device_env (ex_adapter [[2, 1, 0], [2, 1, 0], [2, 1, 0]] [[3, 1], [3, 0]] None)
      = (Inr (), ex_adapter [[2, 1, 0], [2, 1, 0], [2, 1, 0], [2, 1, 0], [2, 1, 0]] [] None)"
    by (subst wait_busy_clear.simps, subst wait_busy_clear.simps)
      (simp add: via_def amap_err_def ex_transfer cobs_encode_blocks)
  have written: "flash_write_loop ex_device_env ThreeByte 256 508 255 [7] 0
      (ex_adapter [] [[3], [3, 2], [3], [3, 1], [3, 0]] None)
    = (Inr (), ex_adapter [[2, 1, 0], [2, 1, 0], [2, 1, 0], [2, 1, 0], [2, 1, 0]] [] None)"
    using enable wait
    by (subst flash_write_loop.simps, subst flash_write_loop.simps)
      (simp add: alift_def abind_def checked_add_def bus_address_def program_count_def Let_def via_def
        amap_err_def ex_transfer cobs_encode_blocks areturn_def bus_opcodes_def)
  have "validate_range ex_geometry 255 1 = Inr ()"
    by (simp add: validate_range_def checked_add_def ex_geometry_def)
  then show ?thesis
    using written
    by (simp add: flash_write_def alift_def abind_def layout_checked_def ex_profile_of_flash_def
        flash_program_payload_limit_def bus_address_def)
qed

lemma flash_program_exact_witness:
  "\<exists>steps. [[2, 1, 0], [2, 1, 0], [2, 1, 0], [2, 1, 0], [2, 1, 0]]
        = concat (map (program_frames ex_device_env ThreeByte) steps)
    \<and> laid_out 256 255 (map fst steps) \<and> concat (map (snd \<circ> fst) steps) = [7]"
proof -
  have "fp_mode ex_profile_of_flash = ThreeByte" "fp_page_bytes ex_profile_of_flash = 256"
    by (simp_all add: ex_profile_of_flash_def)
  with flash_program_exact [OF ex_flash_profile ex_program] show ?thesis
    by (auto simp: ex_adapter_def)
qed

text \<open>Reconciling a program without the authority to configure, and confirming a driven pin.\<close>

definition ex_flash_write :: operation where
  "ex_flash_write = FlashWrite (TargetId ''t'') (InstrumentId ''bus'') 255 ex_digest 1"

lemma ex_reconcile_write:
  "\<exists>result. bus_execute ex_device_env ex_bpio_binding ex_flash_write (\<lambda>_. Inr [7]) True False
      (ex_adapter [] [[1]] None) = (Inr result, ex_adapter [[2, 1, 0]] [] (Some ex_seen))
    \<and> rd_partial result \<noteq> None"
proof -
  have "source_bytes (\<lambda>_. Inr [7]) ex_digest 1 = Inr [7]"
    by (simp add: source_bytes_def MAX_EVIDENCE_BYTES_def)
  then show ?thesis
    by (simp add: bus_execute_def ex_flash_write_def abind_def via_def amap_err_def ex_identify
        write_flash_range_def alift_def ex_flash_profile unconfigured areturn_def mode_unavailable_def)
qed

lemma reconciliation_only_observes_witness:
  "list_all (frame_of (de_codec ex_device_env) asking_status) [[2, 1, 0]]"
proof -
  obtain result where "bus_execute ex_device_env ex_bpio_binding ex_flash_write (\<lambda>_. Inr [7]) True False
      (ex_adapter [] [[1]] None) = (Inr result, ex_adapter [[2, 1, 0]] [] (Some ex_seen))"
    using ex_reconcile_write by blast
  from reconciliation_only_observes [OF this] show ?thesis by (auto simp: ex_adapter_def)
qed

lemma flash_effects_confined_witness:
  "\<exists>frames. wr_sent (ad_wire (snd (bus_execute ex_device_env ex_bpio_binding ex_flash_write (\<lambda>_. Inr [7])
        False True (ex_adapter [] [[1], [2], [1], [3]] None)))) = frames
    \<and> list_all (frame_of (de_codec ex_device_env) (confined_request ex_profile_of_flash 255 1)) frames"
proof -
  have region: "flash_region ex_flash_write = Some (255, 1)" by (simp add: ex_flash_write_def)
  obtain r a' where "bus_execute ex_device_env ex_bpio_binding ex_flash_write (\<lambda>_. Inr [7])
      False True (ex_adapter [] [[1], [2], [1], [3]] None) = (r, a')" by fastforce
  from flash_effects_confined [OF ex_flash_profile region this] this show ?thesis
    by (auto simp: ex_adapter_def)
qed

definition ex_gpio_set :: operation where
  "ex_gpio_set = GpioSet (TargetId ''t'') (InstrumentId ''bus'') 1 True"

lemma ex_confirm_gpio:
  "\<exists>result. bus_execute ex_device_env ex_bpio_binding ex_gpio_set (\<lambda>_. Inl []) True False
      (ex_adapter [] [[1], [1]] None) = (Inr result, ex_adapter [[2, 1, 0], [2, 1, 0]] [] (Some ex_seen))
    \<and> rd_partial result = None"
proof -
  have "di_io_value ex_seen AND push_bit 1 1 \<noteq> 0" by (simp add: ex_seen_def ex_discovery_def)
  then show ?thesis
    by (simp add: bus_execute_def ex_gpio_set_def abind_def via_def amap_err_def ex_identify drive_gpio_def
        alift_def try_u8_def require_def areturn_def bpio_config_def ex_bpio_binding_def ex_bpio_config_def
        configured_value_def Let_def partial_unless_def)
qed

lemma bus_completion_observed_witness:
  "\<exists>result a'. bus_execute ex_device_env ex_bpio_binding ex_gpio_set (\<lambda>_. Inl []) True False
      (ex_adapter [] [[1], [1]] None) = (Inr result, a')
    \<and> map_of (rd_body result) ''observed_high'' = Some (JBool True)"
proof -
  obtain result a' where run: "bus_execute ex_device_env ex_bpio_binding ex_gpio_set (\<lambda>_. Inl []) True False
      (ex_adapter [] [[1], [1]] None) = (Inr result, a')" "rd_partial result = None"
    using ex_confirm_gpio by blast
  from bus_completion_observed [OF this] run(1) show ?thesis
    by (auto simp: ex_gpio_set_def)
qed

end
