(* ===== verification/Numato.thy ===== *)
theory Numato
  imports Device_Results
begin

text \<open>
  The Numato relay controller: its line protocol (\<open>src/instruments/numato.rs\<close>) and the
  relay operation of the backend (\<open>relay_operation\<close> of
  \<open>src/service/backend/mod.rs\<close>). A command is written with a carriage return and
  answered up to the prompt; the answer is the single line that is neither the echo nor the
  prompt.
\<close>

unbundle bit_operations_syntax

section \<open>The line protocol\<close>

abbreviation RESPONSE_LIMIT :: nat where "RESPONSE_LIMIT \<equiv> 512"

record numato_identity =
  ni_firmware :: string
  ni_module_id :: string

datatype relay_state = RelayOff | RelayOn

record relay_observation =
  ro_controller_state :: "relay_state list"
  ro_physical_contacts_observed :: bool

type_synonym 'a numato = "(wire, instrument_error, 'a) action"

abbreviation READING_RESPONSE :: string where "READING_RESPONSE \<equiv> ''reading Numato response''"

text \<open>\<open>utf8_text\<close> renders the error of a decoding.\<close>

fun read_prompt_loop ::
  "(u8 list \<Rightarrow> string) \<Rightarrow> (string + u8) list \<Rightarrow> u8 list
     \<Rightarrow> (instrument_error + string) \<times> (string + u8) list" where
  "read_prompt_loop utf8_text [] response = (Inl (EndOfStream READING_RESPONSE), [])"
| "read_prompt_loop utf8_text (Inl source # line) response =
     (Inl (InstrumentIo READING_RESPONSE source), line)"
| "read_prompt_loop utf8_text (Inr byte # line) response =
     (let response' = response @ [byte] in
      if RESPONSE_LIMIT < length response' then (Inl (FrameTooLarge RESPONSE_LIMIT), line)
      else if byte = 0x3E
      then (ok_or (from_utf8 response') (MalformedResponse (utf8_text response')), line)
      else read_prompt_loop utf8_text line response')"

definition read_prompt ::
  "(u8 list \<Rightarrow> string) \<Rightarrow> (string + u8) list \<Rightarrow> (instrument_error + string) \<times> (string + u8) list" where
  "read_prompt utf8_text line = read_prompt_loop utf8_text line []"

definition parse_transcript ::
  "(string \<Rightarrow> string) \<Rightarrow> string \<Rightarrow> string \<Rightarrow> instrument_error + string" where
  "parse_transcript debug command transcript =
     (let normalized = map (\<lambda>c. if c = CHR 0x0D then CHR 0x0A else c) transcript;
          lines = filter (\<lambda>line. line \<noteq> [] \<and> line \<noteq> command \<and> line \<noteq> ''>'')
                    (map trim (str_lines normalized)) in
      case lines of
        [response] \<Rightarrow> Inr response
      | [] \<Rightarrow> Inr []
      | _ \<Rightarrow> Inl (MalformedResponse (''ambiguous Numato transcript '' @ debug transcript)))"

definition numato_command ::
  "device_env \<Rightarrow> string \<Rightarrow> string numato" where
  "numato_command D command =
     abind (exchange_with
              [''writing Numato command'', ''terminating Numato command'', ''flushing Numato command'']
              (InstrumentTimeout ''executing Numato command'') (read_prompt (de_utf8_text D))
              (as_bytes command @ [0x0D])) (\<lambda>transcript.
       alift (parse_transcript (de_debug D) command transcript))"

definition numato_identify ::
  "device_env \<Rightarrow> numato_identity numato" where
  "numato_identify D =
     abind (numato_command D ''ver'') (\<lambda>firmware.
     abind (numato_command D ''id get'') (\<lambda>module_id.
       areturn \<lparr>ni_firmware = firmware, ni_module_id = module_id\<rparr>))"

definition relay_mask_observation :: "string \<Rightarrow> instrument_error + relay_observation" where
  "relay_mask_observation response =
     (case parse_hex_u8 (trim response) of
        None \<Rightarrow> Inl (InvalidRelayResponse response)
      | Some bits \<Rightarrow>
          if bits AND NOT 0x0F \<noteq> 0 then Inl (InvalidRelayResponse response)
          else Inr \<lparr>ro_controller_state =
                  map (\<lambda>index. if bits AND push_bit index 1 = 0 then RelayOff else RelayOn) [0, 1, 2, 3],
                ro_physical_contacts_observed = False\<rparr>)"

definition read_relays ::
  "device_env \<Rightarrow> relay_observation numato" where
  "read_relays D =
     abind (numato_command D ''relay readall'') (\<lambda>response.
       alift (relay_mask_observation response))"

definition relay_command :: "u8 \<Rightarrow> relay_state \<Rightarrow> string" where
  "relay_command relay state = (case state of
     RelayOff \<Rightarrow> ''relay off '' @ word_text relay | RelayOn \<Rightarrow> ''relay on '' @ word_text relay)"

definition numato_set_relay ::
  "device_env \<Rightarrow> u8 \<Rightarrow> relay_state \<Rightarrow> relay_observation numato" where
  "numato_set_relay D relay state =
     (if 4 \<le> unat relay
      then afail (InvalidRelayResponse (''relay index '' @ word_text relay @ '' outside 0..4''))
      else abind (numato_command D (relay_command relay state)) (\<lambda>_.
             read_relays D))"

section \<open>The relay operation\<close>

fun relay_request :: "operation \<Rightarrow> backend_error + u16 option \<times> bool option" where
  "relay_request (InstrumentStatus _ _) = Inr (None, None)"
| "relay_request (RelayRead _ _ relay) = Inr (Some relay, None)"
| "relay_request (RelaySet _ _ relay closed) = Inr (Some relay, Some closed)"
| "relay_request _ = Inl (malformed ''operation is unsupported by Numato relay controller'')"

text \<open>The relay of an operation: mapped, and actuated unless this is a reconciliation.\<close>

definition actuate_relay ::
  "device_env \<Rightarrow> numato_config \<Rightarrow> bool \<Rightarrow> u16 option \<Rightarrow> bool option
     \<Rightarrow> (wire, backend_error, unit) action" where
  "actuate_relay D c reconcile relay expected = (case relay of
     None \<Rightarrow> areturn ()
   | Some relay \<Rightarrow>
       abind (alift (try_u8 relay)) (\<lambda>relay.
         if \<not> configured_value (nc_relay_map c) relay
         then afail (malformed ''relay is outside configured fixture map'')
         else case (if reconcile then None else expected) of
           None \<Rightarrow> areturn ()
         | Some closed \<Rightarrow>
             abind (amap_err (device_failure D) (numato_set_relay D relay
                      (if closed then RelayOn else RelayOff))) (\<lambda>_. areturn ())))"

definition relay_operation ::
  "device_env \<Rightarrow> instrument_config \<Rightarrow> operation \<Rightarrow> bool
     \<Rightarrow> (wire, backend_error, result_data) action" where
  "relay_operation D config oper reconcile = (case config of
     NumatoInstrument c \<Rightarrow>
       abind (alift (relay_request oper)) (\<lambda>(relay, expected).
       abind (actuate_relay D c reconcile relay expected) (\<lambda>_.
       abind (amap_err (device_failure D) (read_relays D)) (\<lambda>observation.
       let states = map (\<lambda>state. state = RelayOn) (ro_controller_state observation);
           mismatch = (case (relay, expected) of
               (Some relay, Some expected) \<Rightarrow>
                 \<not> (unat relay < length states \<and> states ! unat relay = expected)
             | _ \<Rightarrow> False) in
         areturn (partial_unless (\<not> mismatch) ''controller state differs from requested state''
           (result_observation (object
             [(''controller_relay_closed'', JArray (map JBool states)),
              (''physical_contacts_observed'', JBool False), (''reconciliation'', JBool reconcile),
              (''proves_original_actuation'', JBool False)]))))))
   | _ \<Rightarrow> afail (malformed ''relay adapter configuration mismatch''))"

section \<open>Reading a mask\<close>

lemma low_nibble: "(w :: u8) AND NOT 0x0F = 0 \<Longrightarrow> unat w < 16"
proof -
  assume high: "w AND NOT 0x0F = 0"
  have "(0x0F :: u8) = mask 4" by (simp add: mask_eq_exp_minus_1)
  with high have "w AND NOT (mask 4) = 0" by simp
  then have "w = take_bit 4 w"
    by (auto simp: bit_eq_iff bit_take_bit_iff bit_and_iff bit_not_iff bit_mask_iff)
  then have "unat w = take_bit 4 (unat w)" by (metis unsigned_take_bit_eq)
  then show ?thesis using take_bit_nat_less_exp [of 4 "unat w"] by simp
qed

section \<open>What the relay operation does\<close>

definition command_frame :: "string \<Rightarrow> u8 list" where
  "command_frame command = as_bytes command @ [0x0D]"

text \<open>The commands an operation may send: the status, and the actuation it asks for, of a
  relay the fixture maps, unless it only reconciles.\<close>

definition relay_frame :: "numato_config \<Rightarrow> operation \<Rightarrow> bool \<Rightarrow> u8 list \<Rightarrow> bool" where
  "relay_frame c oper reconcile frame \<longleftrightarrow> frame = command_frame ''relay readall''
     \<or> (\<not> reconcile \<and> (case oper of
          RelaySet _ _ relay closed \<Rightarrow> unat relay < 4 \<and> configured_value (nc_relay_map c) (ucast relay)
            \<and> frame = command_frame (relay_command (ucast relay) (if closed then RelayOn else RelayOff))
        | _ \<Rightarrow> False))"

lemma sends_numato_command:
  "P (command_frame command) \<Longrightarrow> sends (\<lambda>w. w) P (numato_command D command)"
  unfolding numato_command_def command_frame_def
  by (intro sends_abind sends_exchange sends_pure)

lemma sends_read_relays:
  "P (command_frame ''relay readall'') \<Longrightarrow> sends (\<lambda>w. w) P (read_relays D)"
  unfolding read_relays_def by (intro sends_abind sends_numato_command sends_pure)

lemma sends_set_relay:
  assumes "unat relay < 4 \<Longrightarrow> P (command_frame (relay_command relay state))"
    and "P (command_frame ''relay readall'')"
  shows "sends (\<lambda>w. w) P (numato_set_relay D relay state)"
  unfolding numato_set_relay_def using assms
  by (auto intro!: sends_abind sends_numato_command sends_read_relays sends_pure)

lemma unat_ucast_u16_u8: "unat (w :: u16) < 256 \<Longrightarrow> unat (ucast w :: u8) = unat w"
  by (simp add: unsigned_ucast_eq take_bit_eq_mod)

lemma relay_frame_reading [simp]: "relay_frame c oper reconcile (command_frame ''relay readall'')"
  by (simp add: relay_frame_def)

lemma sends_actuate_relay:
  assumes "relay_request oper = Inr (relay, expected)"
  shows "sends (\<lambda>w. w) (relay_frame c oper reconcile) (actuate_relay D c reconcile relay expected)"
  unfolding actuate_relay_def using assms
  by (cases oper)
    (auto intro!: sends_intros sends_abind_alift sends_set_relay split: option.split
      simp: try_u8_iff relay_frame_def unat_ucast_u16_u8)

lemma sends_relay_operation:
  "sends (\<lambda>w. w) (relay_frame c oper reconcile) (relay_operation D (NumatoInstrument c) oper reconcile)"
  unfolding relay_operation_def
  by (auto intro!: sends_intros sends_abind_alift sends_read_relays sends_actuate_relay simp: Let_def)

lemma booleans_of: "(\<exists>states. map (JBool \<circ> f) xs = map JBool states \<and> P states) \<longleftrightarrow> P (map f xs)"
proof -
  have "inj JBool" by (simp add: inj_def)
  then have "map (JBool \<circ> f) xs = map JBool states \<longleftrightarrow> states = map f xs" for states
    using inj_map_eq_map [of JBool "map f xs" states] by auto
  then show ?thesis by simp
qed

lemma relay_completion:
  assumes "relay_operation D (NumatoInstrument c) (RelaySet t i relay closed) reconcile w = (Inr result, w')"
    "rd_partial result = None"
  shows "\<exists>states. map_of (rd_body result) ''controller_relay_closed'' = Some (JArray (map JBool states))
    \<and> unat relay < length states \<and> states ! unat relay = closed"
  using assms
  by (auto simp: relay_operation_def Let_def partial_unless_None object_def map_of_merge booleans_of)

text \<open>Whatever the controller answers, a relay operation sends only status commands and,
  unless it reconciles, the actuation it was asked for, of a relay below four that the fixture
  maps; and it completes only if the controller then reports the requested state.\<close>

theorem relay_operation_confined:
  assumes "relay_operation D (NumatoInstrument c) oper reconcile w = (r, w')"
  shows "\<exists>frames. wr_sent w' = wr_sent w @ frames \<and> list_all (relay_frame c oper reconcile) frames
    \<and> (case (oper, r) of (RelaySet _ _ relay closed, Inr result) \<Rightarrow> rd_partial result = None \<longrightarrow>
         (\<exists>states. map_of (rd_body result) ''controller_relay_closed'' = Some (JArray (map JBool states))
            \<and> unat relay < length states \<and> states ! unat relay = closed) | _ \<Rightarrow> True)"
proof -
  have "case (oper, r) of (RelaySet _ _ relay closed, Inr result) \<Rightarrow> rd_partial result = None \<longrightarrow>
      (\<exists>states. map_of (rd_body result) ''controller_relay_closed'' = Some (JArray (map JBool states))
         \<and> unat relay < length states \<and> states ! unat relay = closed) | _ \<Rightarrow> True"
    using assms relay_completion by (auto split: operation.split sum.split)
  then show ?thesis using sendsD [OF sends_relay_operation assms] by blast
qed

text \<open>A controller that echoes, closes relay 2 and reports it.\<close>

definition ex_relay_env :: device_env where
  "ex_relay_env = \<lparr>de_env = ex_env, de_debug = id, de_utf8_text = (\<lambda>_. ''utf8''),
     de_codec = \<lparr>cd_encode = (\<lambda>_. []), cd_decode = (\<lambda>_. Inl [])\<rparr>\<rparr>"

definition ex_line :: "string list \<Rightarrow> exchange" where
  "ex_line lines = \<lparr>ex_fault = None, ex_arrives = map Inr (as_bytes (concat (map (\<lambda>l. l @ [CHR 0x0D, CHR 0x0A]) lines) @ ''>'')),
     ex_ended = False\<rparr>"

definition ex_relay_wire :: wire where
  "ex_relay_wire = \<lparr>wr_sent = [], wr_pending = [],
     wr_script = [ex_line [''relay on 2''], ex_line [''relay readall'', ''04''], ex_line [''relay readall'', ''04'']]\<rparr>"

definition ex_relay_numato :: numato_config where
  "ex_relay_numato = \<lparr>nc_serial = ex_serial, nc_relay_map = [(''power'', 2)]\<rparr>"

definition ex_relay_set :: operation where
  "ex_relay_set = RelaySet (TargetId ''t'') (InstrumentId ''relays'') 2 True"

definition ex_relay_run :: "(backend_error stop + result_data) \<times> wire" where
  "ex_relay_run = relay_operation ex_relay_env (NumatoInstrument ex_relay_numato) ex_relay_set False ex_relay_wire"

lemma ex_relay_completes: "(case fst ex_relay_run of Inr result \<Rightarrow> rd_partial result = None | Inl _ \<Rightarrow> False)"
  by code_simp

lemma relay_operation_confined_witness:
  "\<exists>result states. fst ex_relay_run = Inr result
    \<and> map_of (rd_body result) ''controller_relay_closed'' = Some (JArray (map JBool states)) \<and> states ! 2
    \<and> list_all (relay_frame ex_relay_numato ex_relay_set False) (wr_sent (snd ex_relay_run))"
proof -
  obtain result where result: "fst ex_relay_run = Inr result" "rd_partial result = None"
    using ex_relay_completes by (cases "fst ex_relay_run") auto
  have "relay_operation ex_relay_env (NumatoInstrument ex_relay_numato) ex_relay_set False ex_relay_wire
      = (Inr result, snd ex_relay_run)"
    using result(1) by (metis ex_relay_run_def prod.collapse)
  from relay_operation_confined [OF this] result show ?thesis
    by (auto simp: ex_relay_set_def ex_relay_wire_def)
qed

end
