(* ===== verification/Bus_Operations.thy ===== *)
theory Bus_Operations
  imports Bus_Safety
begin

text \<open>
  What each operation of a Bus Pirate (\<open>src/service/backend/bus.rs\<close>) may put on the line,
  whatever the device answers: besides the requests that observe, the transfers of its own
  bytes, its own pin, its own supply setting, or flash commands inside its own region.
\<close>

section \<open>The packets of an operation\<close>

text \<open>A data request that carries a part of \<open>bytes\<close>.\<close>

definition carries :: "u8 list \<Rightarrow> request_packet \<Rightarrow> bool" where
  "carries bytes packet \<longleftrightarrow>
     (\<exists>n chunk start. chunk \<in> set (chunks n bytes) \<and> packet = build_data_request chunk 0 start False)"

definition probes :: "request_packet \<Rightarrow> bool" where
  "probes packet \<longleftrightarrow> (\<exists>addr :: u8. 8 \<le> unat addr \<and> unat addr < 0x78 \<and>
     (packet = build_data_request [i2c_write_address addr] 0 True True
      \<or> packet = build_data_request [i2c_read_address addr] 1 True True))"

definition gpio_packet :: "u16 \<Rightarrow> bool \<Rightarrow> request_packet" where
  "gpio_packet pin high =
     (let mask = push_bit (unat pin) 1 in
      build_configuration_request [] default_mode_config None
        (Some (mask, mask)) (Some (mask, if high then mask else 0)) None)"

definition psu_packet :: "u32 \<Rightarrow> u32 \<Rightarrow> request_packet" where
  "psu_packet millivolts milliamps =
     build_configuration_request [] default_mode_config
       (Some (if millivolts = 0 \<and> milliamps = 0 then PsuDisable else PsuEnable millivolts (ucast milliamps)))
       None None None"

definition mapped_pin :: "device_binding \<Rightarrow> u16 \<Rightarrow> bool" where
  "mapped_pin binding pin \<longleftrightarrow> unat pin < 8 \<and>
     (case db_config binding of Bpio2Instrument c \<Rightarrow> configured_value (bc_pin_map c) (ucast pin) | _ \<Rightarrow> False)"

definition supplied :: "device_binding \<Rightarrow> u32 \<Rightarrow> u32 \<Rightarrow> bool" where
  "supplied binding millivolts milliamps \<longleftrightarrow>
     (case db_config binding of Bpio2Instrument c \<Rightarrow>
        millivolts \<le> bc_psu_max_millivolts c \<and> milliamps \<le> bc_psu_max_milliamps c | _ \<Rightarrow> False)"

fun effect_packet :: "device_binding \<Rightarrow> operation \<Rightarrow> request_packet \<Rightarrow> bool" where
  "effect_packet binding (SpiTransfer _ _ tx _) packet \<longleftrightarrow> carries tx packet"
| "effect_packet binding (I2cTransfer _ _ addr tx _) packet \<longleftrightarrow>
     (\<exists>n. packet = build_data_request (i2c_write_address addr # tx) n True True)"
| "effect_packet binding (I2cScan _ _) packet \<longleftrightarrow> probes packet"
| "effect_packet binding (UartTransmit _ _ bytes) packet \<longleftrightarrow> carries bytes packet"
| "effect_packet binding (GpioSet _ _ pin high) packet \<longleftrightarrow>
     mapped_pin binding pin \<and> packet = gpio_packet pin high"
| "effect_packet binding (PsuSet _ _ millivolts milliamps) packet \<longleftrightarrow>
     supplied binding millivolts milliamps \<and> packet = psu_packet millivolts milliamps"
| "effect_packet binding oper packet \<longleftrightarrow>
     (case (flash_region oper, qualified_flash_geometry binding) of
        (Some (offset, len), Inr profile) \<Rightarrow> confined_request profile offset len packet
      | _ \<Rightarrow> False)"

definition operation_packet :: "device_binding \<Rightarrow> operation \<Rightarrow> bool \<Rightarrow> request_packet \<Rightarrow> bool" where
  "operation_packet binding oper reconcile packet \<longleftrightarrow>
     observing packet \<or> (\<not> reconcile \<and> effect_packet binding oper packet)"

lemma carriesI: "chunk \<in> set (chunks n bytes) \<Longrightarrow> carries bytes (build_data_request chunk 0 start False)"
  unfolding carries_def by blast

lemma operation_packet_observing [simp]: "observing packet \<Longrightarrow> operation_packet binding oper reconcile packet"
  by (simp add: operation_packet_def)

section \<open>Transfers\<close>

lemma requests_uart_transmit:
  assumes "\<And>chunk. chunk \<in> set cs \<Longrightarrow> Q (build_data_request chunk 0 False False)"
  shows "requests (de_codec D) Q (uart_transmit_loop D cs)"
  using assms by (induction cs) (auto intro!: sends_intros)

lemma requests_i2c_scan:
  assumes "\<And>addr. addr \<in> set addrs \<Longrightarrow> Q (build_data_request [i2c_write_address addr] 0 True True)
      \<and> Q (build_data_request [i2c_read_address addr] 1 True True)"
  shows "requests (de_codec D) Q (i2c_scan_loop D addrs found)"
  using assms by (induction addrs arbitrary: found) (auto intro!: sends_intros)

lemma probes_addresses:
  assumes "addr \<in> set (map of_nat [8..<0x78])"
  shows "probes (build_data_request [i2c_write_address addr] 0 True True)"
    "probes (build_data_request [i2c_read_address addr] 1 True True)"
proof -
  from assms obtain n where "addr = of_nat n" "8 \<le> n" "n < 0x78"
    unfolding set_map set_upt by auto
  then have "8 \<le> unat addr" "unat addr < 0x78" by (simp_all add: unat_of_nat)
  then show "probes (build_data_request [i2c_write_address addr] 0 True True)"
    "probes (build_data_request [i2c_read_address addr] 1 True True)"
    unfolding probes_def by blast+
qed

lemma requests_raw:
  "requests (de_codec D) (operation_packet binding (SpiTransfer t i tx rx) reconcile)
     (raw_spi D binding base reconcile configure tx rx)"
  "requests (de_codec D) (operation_packet binding (I2cTransfer t i addr tx rx) reconcile)
     (raw_i2c D binding base reconcile configure addr tx rx)"
  "requests (de_codec D) (operation_packet binding (I2cScan t i) reconcile)
     (scan_i2c D binding base reconcile configure)"
  "requests (de_codec D) (operation_packet binding (UartTransmit t i bytes) reconcile)
     (transmit_uart D binding base reconcile configure bytes)"
proof -
  have mode: "requests (de_codec D) (operation_packet binding oper reconcile) (ensure_mode D mode speed)" for oper mode speed
    by (rule sends_mono [OF requests_ensure_mode]) (metis frame_of_def operation_packet_observing)
  have spi: "requests (de_codec D) (operation_packet binding (SpiTransfer t i tx rx) False) (spi_transfer D tx rx lim)" for lim
    by (rule requests_spi_transfer) (auto simp: operation_packet_def carries_def)
  show "requests (de_codec D) (operation_packet binding (SpiTransfer t i tx rx) reconcile)
     (raw_spi D binding base reconcile configure tx rx)"
    using mode spi unfolding raw_spi_def by (cases reconcile) (auto intro!: sends_intros)
  show "requests (de_codec D) (operation_packet binding (I2cTransfer t i addr tx rx) reconcile)
     (raw_i2c D binding base reconcile configure addr tx rx)"
    using mode unfolding raw_i2c_def i2c_transfer_def
    by (cases reconcile) (auto intro!: sends_intros simp: operation_packet_def)
  have "requests (de_codec D) (operation_packet binding (I2cScan t i) False) (i2c_scan D lim)" for lim
    unfolding i2c_scan_def
    by (intro sends_abind requests_require requests_i2c_scan) (simp add: operation_packet_def probes_addresses del: set_map set_upt)
  with mode show "requests (de_codec D) (operation_packet binding (I2cScan t i) reconcile)
     (scan_i2c D binding base reconcile configure)"
    unfolding scan_i2c_def by (cases reconcile) (auto intro!: sends_intros)
  show "requests (de_codec D) (operation_packet binding (UartTransmit t i bytes) reconcile)
     (transmit_uart D binding base reconcile configure bytes)"
    using mode unfolding transmit_uart_def uart_transmit_def
    by (cases reconcile)
      (auto intro!: sends_intros requests_uart_transmit simp: operation_packet_def dest: carriesI)
qed

section \<open>Settings\<close>

lemma bpio_config_Inr: "bpio_config binding = Inr c \<Longrightarrow> db_config binding = Bpio2Instrument c"
  by (auto simp: bpio_config_def split: instrument_config.splits)

lemma unat_ucast_u16: "unat (w :: u16) < 256 \<Longrightarrow> unat (ucast w :: u8) = unat w"
  by (simp add: unsigned_ucast_eq take_bit_eq_mod)

lemma requests_set_gpio:
  "Q (build_configuration_request [] default_mode_config None
        (Some (push_bit (unat pin) 1, push_bit (unat pin) 1))
        (Some (push_bit (unat pin) 1, if high then push_bit (unat pin) 1 else 0)) None)
     \<Longrightarrow> requests C Q (set_gpio C pin high)"
  unfolding set_gpio_def Let_def by (auto intro!: sends_intros)

lemma requests_drive_gpio:
  "requests (de_codec D) (operation_packet binding (GpioSet t i pin high) reconcile)
     (drive_gpio D binding reconcile pin high)"
proof (cases reconcile)
  case True
  then show ?thesis unfolding drive_gpio_def by (auto intro!: sends_intros simp: Let_def)
next
  case False
  have "operation_packet binding (GpioSet t i pin high) False
      (build_configuration_request [] default_mode_config None
        (Some (push_bit (unat p) 1, push_bit (unat p) 1))
        (Some (push_bit (unat p) 1, if high then push_bit (unat p) 1 else 0)) None)"
    if "try_u8 pin = Inr p" "unat p < 8" "bpio_config binding = Inr c" "configured_value (bc_pin_map c) p" for p c
  proof -
    from that(1) have "p = ucast pin" "unat pin < 256" by (auto simp: try_u8_iff)
    then have "unat p = unat pin" by (simp add: unat_ucast_u16)
    with that \<open>p = ucast pin\<close> show ?thesis
      by (simp add: operation_packet_def mapped_pin_def gpio_packet_def bpio_config_Inr Let_def)
  qed
  then show ?thesis unfolding drive_gpio_def False unless_reconciling_def
    by (auto intro!: sends_intros sends_abind_alift requests_guarded requests_set_gpio simp: Let_def)
qed

lemma requests_set_power:
  "requests (de_codec D) (operation_packet binding (PsuSet t i millivolts milliamps) reconcile)
     (set_power D binding reconcile millivolts milliamps)"
proof (cases reconcile)
  case True
  then show ?thesis unfolding set_power_def by (auto intro!: sends_intros simp: Let_def)
next
  case False
  have "operation_packet binding (PsuSet t i millivolts milliamps) False
      (build_configuration_request [] default_mode_config
        (Some (if millivolts = 0 \<and> current = 0 then PsuDisable else PsuEnable millivolts current)) None None None)"
    if "try_u16 (unat milliamps) = Inr current" "bpio_config binding = Inr c"
      "millivolts \<le> bc_psu_max_millivolts c" "milliamps \<le> bc_psu_max_milliamps c" for current c
  proof -
    from that(1) have current: "current = of_nat (unat milliamps)" "unat milliamps < 65536" by (auto simp: try_u16_def split: if_splits)
    then have "unat current = unat milliamps" by (simp add: unsigned_ucast_eq take_bit_eq_mod)
    then have "current = 0 \<longleftrightarrow> milliamps = 0" by (metis unsigned_0 unsigned_eq_0_iff)
    moreover have "current = ucast milliamps" using current(1) by simp
    ultimately show ?thesis using that
      by (simp add: operation_packet_def supplied_def psu_packet_def bpio_config_Inr)
  qed
  then show ?thesis unfolding set_power_def False unless_reconciling_def set_psu_def Let_def
    by (auto intro!: sends_intros sends_abind_alift requests_guarded)
qed

section \<open>Every operation\<close>

lemma requests_flash_packets:
  assumes "flash_region oper = Some region"
  shows "requests (de_codec D) (operation_packet binding oper reconcile)
    (bus_execute D binding oper artifacts reconcile configure)"
proof (cases reconcile)
  case True
  then show ?thesis
    by simp (rule sends_mono [OF requests_reconciliation], metis frame_of_def operation_packet_observing)
next
  case False
  obtain offset len where region: "flash_region oper = Some (offset, len)" using assms by (cases region) auto
  show ?thesis
  proof (cases "qualified_flash_geometry binding")
    case (Inr profile)
    have "effect_packet binding oper = confined_request profile offset len"
      using region Inr by (cases oper) (auto simp: fun_eq_iff)
    then have "frame_of (de_codec D) (confined_request profile offset len) f
        \<Longrightarrow> frame_of (de_codec D) (operation_packet binding oper reconcile) f" for f
      using False by (auto simp: frame_of_def operation_packet_def)
    with requests_flash_operation [OF Inr region] show ?thesis by (rule sends_mono)
  next
    case (Inl e)
    with region show ?thesis
      unfolding bus_execute_def erase_flash_range_def write_flash_range_def read_flash_range_def
      by (cases oper) (auto intro!: sends_abind_alift sends_intros simp: Let_def)
  qed
qed

lemma requests_operation:
  "requests (de_codec D) (operation_packet binding oper reconcile)
     (bus_execute D binding oper artifacts reconcile configure)"
proof (cases "flash_region oper")
  case None
  have observing: "requests C observing m \<Longrightarrow> requests C (operation_packet binding oper reconcile) m"
    for C oper and m :: "result_data bus"
    by (erule sends_mono) (metis frame_of_def operation_packet_observing)
  have uart: "requests (de_codec D) observing (capture_uart D binding base reconcile configure n)" for base n
    unfolding capture_uart_def unless_reconciling_def by (auto intro!: sends_intros)
  have flash: "requests (de_codec D) observing (flash_identify D binding base reconcile configure)" for base
    unfolding flash_identify_def by (auto intro!: sends_intros)
  have adc: "requests (de_codec D) observing (read_adc base fresh channel)" for base fresh channel
    unfolding read_adc_def by (auto intro!: sends_intros)
  from None show ?thesis
    unfolding bus_execute_def Let_def
    by (cases oper)
      (auto intro!: sends_abind sends_pure requests_via requests_identify requests_raw requests_drive_gpio
        requests_set_power intro: observing [OF uart] observing [OF flash] observing [OF adc])
qed (rule requests_flash_packets)

text \<open>C25: Whatever the device answers, an operation of the bus sends, besides the requests that
  observe, only what it is: parts of its own bytes, probes of the bus addresses, its own pin, which the
  fixture maps, its own supply setting, which is inside the configured limits, or flash
  commands that stay inside its region; a reconciliation sends none of these.\<close>

theorem bus_operation_confined:
  assumes "bus_execute D binding oper artifacts reconcile configure a = (r, a')"
  shows "\<exists>frames. wr_sent (ad_wire a') = wr_sent (ad_wire a) @ frames
    \<and> list_all (frame_of (de_codec D) (operation_packet binding oper reconcile)) frames"
  using requests_operation assms by (rule sendsD) blast

end
