(* ===== verification/Bus_Examples.thy ===== *)
theory Bus_Examples
  imports Bus_Program Bus_Operations
begin

text \<open>A pin of the fixture map driven high: the status, the pin, and the status again.\<close>

lemma ex_drive_gpio:
  "\<exists>result. bus_execute ex_device_env ex_bpio_binding ex_gpio_set (\<lambda>_. Inl []) False True
      (ex_adapter [] [[1], [2], [1]] None) = (Inr result, ex_adapter [[2, 1, 0], [2, 1, 0], [2, 1, 0]] [] (Some ex_seen))
    \<and> rd_partial result = None"
proof -
  have "di_io_value ex_seen AND push_bit 1 1 \<noteq> 0" by (simp add: ex_seen_def ex_discovery_def)
  moreover have "set_gpio (de_codec ex_device_env) 1 True (ex_adapter [[2, 1, 0]] [[2], [1]] (Some ex_seen))
      = (Inr (), ex_adapter [[2, 1, 0], [2, 1, 0]] [[1]] (Some ex_seen))"
  proof -
    have "rbind (response_of (de_codec ex_device_env) ConfigurationResponse ''BPIO2 configuration'' [2])
        (\<lambda>response. rbind (ok_or (rs_configuration response)
           (MalformedResponse ''configuration union has no configuration payload'')) reject_packet_error) = Inr ()"
      by (simp add: response_of_def ex_device_env_def ex_decode_def reject_packet_error_def)
    then show ?thesis
      by (simp add: set_gpio_def expect_configuration_response_def abind_def alift_def ex_request cobs_encode_blocks Let_def)
  qed
  ultimately show ?thesis
    by (simp add: bus_execute_def ex_gpio_set_def abind_def via_def amap_err_def ex_identify drive_gpio_def
        alift_def try_u8_def require_def areturn_def bpio_config_def ex_bpio_binding_def ex_bpio_config_def
        configured_value_def Let_def partial_unless_def unless_reconciling_def)
qed

lemma bus_operation_confined_witness:
  "list_all (frame_of (de_codec ex_device_env) (operation_packet ex_bpio_binding ex_gpio_set False))
     [[2, 1, 0], [2, 1, 0], [2, 1, 0]]"
proof -
  obtain result where "bus_execute ex_device_env ex_bpio_binding ex_gpio_set (\<lambda>_. Inl []) False True
      (ex_adapter [] [[1], [2], [1]] None) = (Inr result, ex_adapter [[2, 1, 0], [2, 1, 0], [2, 1, 0]] [] (Some ex_seen))"
    using ex_drive_gpio by blast
  from bus_operation_confined [OF this] show ?thesis by (auto simp: ex_adapter_def)
qed

end
