(* ===== verification/Simulated_Backend.thy ===== *)
theory Simulated_Backend
  imports Device_Results Simulator
begin

text \<open>
  Operations on the simulator as the backend runs them
  (\<open>src/service/backend/simulated.rs\<close>). \<open>io\<close> is the outcome of writing the store
  file. The properties compose the check before the access with the operation itself and
  with the simulator.
\<close>

section \<open>The operation\<close>

definition json_simulator :: "simulator_observation \<Rightarrow> json_object" where
  "json_simulator ob = object
     [(''relay_closed'', JArray (map JBool (ob_relay_closed ob))),
      (''flash_bytes'', json_nat (ob_flash_bytes ob)),
      (''effect_calls'', json_word (ob_effect_calls ob)),
      (''partial_effect_calls'', json_word (ob_partial_effect_calls ob))]"

type_synonym 'a simulated = "simulator \<Rightarrow> (backend_error + 'a) \<times> simulator"

text \<open>An effect that reconciliation leaves out.\<close>

definition effect_unless :: "bool \<Rightarrow> device_env \<Rightarrow> unit sim \<Rightarrow> unit simulated" where
  "effect_unless reconcile D m s =
     (if reconcile then (Inr (), s) else case m s of (r, s') \<Rightarrow> (map_err (device_failure D) r, s'))"

definition simulated_source ::
  "device_env \<Rightarrow> instrument_error + unit \<Rightarrow> resolver \<Rightarrow> bool \<Rightarrow> bool \<Rightarrow> u64 \<Rightarrow> artifact_digest \<Rightarrow> u32
     \<Rightarrow> result_data simulated" where
  "simulated_source D io artifacts is_write reconcile offset source len s =
     (case source_bytes artifacts source len of
        Inl e \<Rightarrow> (Inl e, s)
      | Inr bytes \<Rightarrow>
          (case effect_unless (\<not> is_write \<or> reconcile) D (write_flash io (unat offset) bytes) s of
             (Inl e, s') \<Rightarrow> (Inl e, s')
           | (Inr _, s') \<Rightarrow>
               (map_err (device_failure D) (rbind (read_flash s' (unat offset) (length bytes)) (\<lambda>actual.
                  let same = (actual = bytes) in
                  Inr (partial_unless same ''readback differs from candidate''
                    (result_bytes actual (object
                      [(''offset'', json_word offset), (''matches_candidate'', JBool same),
                       (''candidate'', json_digest source)]))))), s')))"

definition simulated_erase ::
  "device_env \<Rightarrow> instrument_error + unit \<Rightarrow> bool \<Rightarrow> u64 \<Rightarrow> u32 \<Rightarrow> result_data simulated" where
  "simulated_erase D io reconcile offset len s =
     (case effect_unless reconcile D (erase_flash io (unat offset) (unat len)) s of
        (Inl e, s') \<Rightarrow> (Inl e, s')
      | (Inr _, s') \<Rightarrow>
          (map_err (device_failure D) (rbind (read_flash s' (unat offset) (unat len)) (\<lambda>actual.
             let blank = list_all (\<lambda>byte. byte = 0xFF) actual in
             Inr (partial_unless blank ''readback is not fully erased''
               (result_bytes actual (object
                 [(''offset'', json_word offset), (''all_erased'', JBool blank)]))))), s'))"

definition simulated_relay ::
  "device_env \<Rightarrow> instrument_error + unit \<Rightarrow> bool \<Rightarrow> u16 \<Rightarrow> bool option \<Rightarrow> result_data simulated" where
  "simulated_relay D io reconcile relay expected s =
     (case (case expected of
              None \<Rightarrow> (Inr (), s)
            | Some closed \<Rightarrow> effect_unless reconcile D (set_relay io (unat relay) closed) s) of
        (Inl e, s') \<Rightarrow> (Inl e, s')
      | (Inr _, s') \<Rightarrow>
          (let states = ob_relay_closed (sim_observe s') in
           if unat relay < length states
           then let closed = states ! unat relay in
             Inr (partial_unless (expected = None \<or> expected = Some closed)
               ''simulated relay state differs from request''
               (result_observation (object
                 [(''relay'', json_word relay), (''closed'', JBool closed),
                  (''physical_contacts_observed'', JBool False)])))
           else Inl (malformed ''simulator relay outside 0..4''), s'))"

definition simulated_result ::
  "device_env \<Rightarrow> instrument_error + unit \<Rightarrow> operation \<Rightarrow> resolver \<Rightarrow> bool \<Rightarrow> result_data simulated" where
  "simulated_result D io oper artifacts reconcile s = (case oper of
     InstrumentStatus _ _ \<Rightarrow> (Inr (result_observation (json_simulator (sim_observe s))), s)
   | FlashIdentify _ _ \<Rightarrow> (Inr (result_observation (object
       [(''implementation'', JString ''simulated_nor''),
        (''capacity_bytes'', json_nat (ob_flash_bytes (sim_observe s)))])), s)
   | FlashRead _ _ offset len \<Rightarrow>
       (map_err (device_failure D) (rbind (read_flash s (unat offset) (unat len)) (\<lambda>bytes.
          Inr (result_bytes bytes (object [(''offset'', json_word offset)])))), s)
   | FlashWrite _ _ offset source len \<Rightarrow> simulated_source D io artifacts True reconcile offset source len s
   | FlashVerify _ _ offset source len \<Rightarrow> simulated_source D io artifacts False reconcile offset source len s
   | FlashErase _ _ offset len \<Rightarrow> simulated_erase D io reconcile offset len s
   | RelayRead _ _ relay \<Rightarrow> simulated_relay D io reconcile relay None s
   | RelaySet _ _ relay closed \<Rightarrow> simulated_relay D io reconcile relay (Some closed) s
   | _ \<Rightarrow> (Inl (malformed (''operation is outside this simulator'' @ [CHR 0x27]
            @ ''s flash/relay model'')), s))"

definition simulated_execute ::
  "device_env \<Rightarrow> instrument_error + unit \<Rightarrow> operation \<Rightarrow> resolver \<Rightarrow> bool \<Rightarrow> result_data simulated" where
  "simulated_execute D io oper artifacts reconcile s =
     (case simulated_result D io oper artifacts reconcile s of
        (Inl e, s') \<Rightarrow> (Inl e, s')
      | (Inr result, s') \<Rightarrow>
          (Inr (result\<lparr>rd_body := merge (rd_body result)
             [(''simulated'', JBool True), (''reconciliation'', JBool reconcile),
              (''proves_original_actuation'', JBool False)]\<rparr>), s'))"

section \<open>Reconciliation and completion\<close>

lemma effect_unless_simps [simp]: "effect_unless True D m s = (Inr (), s)"
  by (simp add: effect_unless_def)

lemma simulated_reconcile_state: "snd (simulated_execute D io oper artifacts True s) = s"
  by (cases oper)
    (auto simp: simulated_execute_def simulated_result_def simulated_source_def simulated_erase_def
      simulated_relay_def Let_def split: sum.split option.split)

lemma read_flash_length:
  "read_flash s offset len = Inr bytes \<Longrightarrow> length bytes = len"
  by (auto simp: read_flash_def flash_range_def length_slice split: if_splits)

text \<open>What the simulator of the result holds.\<close>

fun simulated_outcome :: "resolver \<Rightarrow> operation \<Rightarrow> simulator \<Rightarrow> bool" where
  "simulated_outcome artifacts (FlashErase _ _ offset len) s \<longleftrightarrow>
     slice (ss_flash (sim_state s)) (unat offset) (unat offset + unat len) = replicate (unat len) 0xFF"
| "simulated_outcome artifacts (FlashWrite _ _ offset source len) s \<longleftrightarrow>
     artifacts source = Inr (slice (ss_flash (sim_state s)) (unat offset) (unat offset + unat len))"
| "simulated_outcome artifacts (FlashVerify _ _ offset source len) s \<longleftrightarrow>
     artifacts source = Inr (slice (ss_flash (sim_state s)) (unat offset) (unat offset + unat len))"
| "simulated_outcome artifacts (RelaySet _ _ relay closed) s \<longleftrightarrow>
     unat relay < length (ss_relay_closed (sim_state s)) \<and> ss_relay_closed (sim_state s) ! unat relay = closed"
| "simulated_outcome artifacts _ s \<longleftrightarrow> True"

lemma read_flash_slice:
  "read_flash s offset len = Inr bytes \<Longrightarrow> bytes = slice (ss_flash (sim_state s)) offset (offset + len)"
  by (auto simp: read_flash_def flash_range_def split: if_splits)

lemma simulated_source_outcome:
  assumes "simulated_source D io artifacts is_write reconcile offset source len s = (Inr result, s')"
    "rd_partial result = None"
  shows "artifacts source = Inr (slice (ss_flash (sim_state s')) (unat offset) (unat offset + unat len))"
  using assms
  by (auto simp: simulated_source_def Let_def partial_unless_None source_bytes_iff
      split: sum.splits prod.splits dest: read_flash_slice)

lemma simulated_erase_outcome:
  assumes "simulated_erase D io reconcile offset len s = (Inr result, s')" "rd_partial result = None"
  shows "slice (ss_flash (sim_state s')) (unat offset) (unat offset + unat len) = replicate (unat len) 0xFF"
proof -
  from assms obtain actual where actual: "read_flash s' (unat offset) (unat len) = Inr actual"
    "list_all (\<lambda>byte. byte = 0xFF) actual"
    by (auto simp: simulated_erase_def Let_def partial_unless_None split: sum.splits prod.splits)
  then have "actual = replicate (unat len) 0xFF"
    using read_flash_length [OF actual(1)] by (intro replicate_eqI) (auto simp: list_all_iff)
  then show ?thesis using read_flash_slice [OF actual(1)] by simp
qed

lemma simulated_relay_outcome:
  assumes "simulated_relay D io reconcile relay (Some closed) s = (Inr result, s')" "rd_partial result = None"
  shows "unat relay < length (ss_relay_closed (sim_state s')) \<and> ss_relay_closed (sim_state s') ! unat relay = closed"
  using assms
  by (auto simp: simulated_relay_def Let_def partial_unless_None sim_observe_def
      split: sum.splits prod.splits if_splits)

lemma simulated_completion:
  assumes "simulated_execute D io oper artifacts reconcile s = (Inr result, s')" "rd_partial result = None"
  shows "simulated_outcome artifacts oper s'"
proof -
  from assms obtain inner where "simulated_result D io oper artifacts reconcile s = (Inr inner, s')"
    "rd_partial inner = None"
    by (auto simp: simulated_execute_def split: sum.splits prod.splits)
  then show ?thesis
    using simulated_source_outcome simulated_erase_outcome simulated_relay_outcome
    by (cases oper) (auto simp: simulated_result_def)
qed

section \<open>After the check before the access\<close>

text \<open>The causes that remain once the check has accepted an operation: the store file could
  not be written, or the simulator rejected the effect (an injected fault, or a program that
  would need an erase).\<close>

definition store_or_rejection :: "instrument_error + unit \<Rightarrow> instrument_error \<Rightarrow> bool" where
  "store_or_rejection io cause \<longleftrightarrow> io = Inl cause \<or> (\<exists>detail. cause = DeviceRejected detail)"

lemma persist_failure: "persist io s = (Inl cause, s') \<Longrightarrow> store_or_rejection io cause"
  by (auto simp: persist_def store_or_rejection_def split: sum.splits)

lemma interrupted_failure: "interrupted io detail s = (Inl cause, s') \<Longrightarrow> store_or_rejection io cause"
  by (auto simp: interrupted_def store_or_rejection_def split: sum.splits prod.splits dest: persist_failure)

lemma flash_range_inside:
  assumes "offset + len \<le> length (ss_flash (sim_state s))" "offset + len < usize_bound"
  shows "flash_range s offset len = Inr (offset, offset + len)"
  using assms by (simp add: flash_range_def)

lemma write_flash_failure:
  assumes "offset + length bytes \<le> length (ss_flash (sim_state s))" "offset + length bytes < usize_bound"
    "write_flash io offset bytes s = (Inl cause, s')"
  shows "store_or_rejection io cause"
  using assms(3) unfolding write_flash_def flash_range_inside [OF assms(1,2)]
  by (auto simp: Let_def store_or_rejection_def split: if_splits prod.splits simulator_fault.splits
      dest!: persist_failure interrupted_failure)

lemma erase_flash_failure:
  assumes "offset + len \<le> length (ss_flash (sim_state s))" "offset + len < usize_bound"
    "erase_flash io offset len s = (Inl cause, s')"
  shows "store_or_rejection io cause"
  using assms(3) unfolding erase_flash_def flash_range_inside [OF assms(1,2)]
  by (auto simp: Let_def split: if_splits prod.splits dest!: persist_failure interrupted_failure)

lemma set_relay_failure:
  assumes "relay < length (ss_relay_closed (sim_state s))" "set_relay io relay closed s = (Inl cause, s')"
  shows "store_or_rejection io cause"
  using assms
  by (auto simp: set_relay_def split: if_splits prod.splits dest!: persist_failure interrupted_failure)

lemma set_relay_relays:
  "length (ss_relay_closed (sim_state (snd (set_relay io relay closed s)))) = length (ss_relay_closed (sim_state s))"
proof -
  have "length (ss_relay_closed (sim_state (snd (persist io t)))) = length (ss_relay_closed (sim_state t))" for t
    by simp
  moreover have "sim_state (snd (interrupted io detail t)) = sim_state t" for detail t
    using interrupted_cases [of io detail t] by (cases "interrupted io detail t") auto
  moreover have "ss_relay_closed (sim_state (snd (begin_effect s))) = ss_relay_closed (sim_state s)"
    by (simp add: begin_effect_def)
  ultimately show ?thesis
    by (auto simp: set_relay_def count_partial_def split: prod.split)
qed

lemma written_read_back:
  assumes "write_flash io offset bytes s = (Inr (), s')"
  shows "read_flash s' offset (length bytes) = Inr bytes"
  using write_flash_prefix [OF assms] by (auto intro!: read_flash_spliced)

lemma erased_read_back:
  assumes "erase_flash io offset len s = (Inr (), s')"
  shows "read_flash s' offset len = Inr (replicate len 0xFF)"
  using erase_flash_prefix [OF assms] read_flash_spliced [of s' _ offset "replicate len 0xFF"] by auto

lemma read_flash_inside:
  assumes "offset + len \<le> length (ss_flash (sim_state s))" "offset + len < usize_bound"
  shows "\<exists>bytes. read_flash s offset len = Inr bytes"
  unfolding read_flash_def flash_range_inside [OF assms] by simp

text \<open>A simulator of the configured size.\<close>

definition opened_as :: "nat \<Rightarrow> simulator \<Rightarrow> bool" where
  "opened_as flash_bytes s \<longleftrightarrow> length (ss_flash (sim_state s)) = flash_bytes
     \<and> flash_bytes \<le> MAX_EVIDENCE_BYTES \<and> length (ss_relay_closed (sim_state s)) = 4"

lemma simulated_source_failure:
  assumes "opened_as n s" "simulated_region n (unat offset) (unat len)" "available artifacts source (unat len)"
    "simulated_source D io artifacts is_write reconcile offset source len s = (Inl e, s')"
  shows "\<exists>cause. e = device_failure D cause \<and> store_or_rejection io cause \<and> is_write \<and> \<not> reconcile"
proof -
  obtain bytes where bytes: "source_bytes artifacts source len = Inr bytes" "length bytes = unat len"
    using assms(1-3) by (auto simp: available_def source_bytes_iff opened_as_def simulated_region_def)
  have range: "unat offset + length bytes \<le> length (ss_flash (sim_state s))" "unat offset + length bytes < usize_bound"
    using assms(1,2) bytes(2) by (auto simp: opened_as_def simulated_region_def MAX_EVIDENCE_BYTES_def)
  have readable: "\<exists>actual. read_flash s (unat offset) (length bytes) = Inr actual"
    using range by (rule read_flash_inside)
  show ?thesis
  proof (cases "is_write \<and> \<not> reconcile")
    case True
    then obtain r s1 where run: "write_flash io (unat offset) bytes s = (r, s1)" by fastforce
    show ?thesis
    proof (cases r)
      case (Inl cause)
      then show ?thesis using assms(4) bytes run True write_flash_failure [OF range, of io cause s1]
        by (auto simp: simulated_source_def effect_unless_def Let_def)
    next
      case (Inr u)
      then have "read_flash s1 (unat offset) (length bytes) = Inr bytes" using run by (simp add: written_read_back)
      then show ?thesis using assms(4) bytes run True Inr by (auto simp: simulated_source_def effect_unless_def Let_def)
    qed
  next
    case False
    then have "\<not> is_write \<or> reconcile" by simp
    then show ?thesis using assms(4) bytes(1) readable
      by (auto simp: simulated_source_def Let_def simp del: de_Morgan_conj)
  qed
qed

lemma simulated_erase_failure:
  assumes "opened_as n s" "simulated_region n (unat offset) (unat len)"
    "simulated_erase D io reconcile offset len s = (Inl e, s')"
  shows "\<exists>cause. e = device_failure D cause \<and> store_or_rejection io cause \<and> \<not> reconcile"
proof -
  have range: "unat offset + unat len \<le> length (ss_flash (sim_state s))" "unat offset + unat len < usize_bound"
    using assms(1,2) by (auto simp: opened_as_def simulated_region_def MAX_EVIDENCE_BYTES_def)
  have readable: "\<exists>actual. read_flash s (unat offset) (unat len) = Inr actual"
    using range by (rule read_flash_inside)
  obtain r s1 where run: "erase_flash io (unat offset) (unat len) s = (r, s1)" by fastforce
  show ?thesis
  proof (cases r)
    case (Inl cause)
    then show ?thesis using assms(3) run readable erase_flash_failure [OF range, of io cause s1]
      by (cases reconcile) (auto simp: simulated_erase_def effect_unless_def Let_def)
  next
    case (Inr u)
    then have "read_flash s1 (unat offset) (unat len) = Inr (replicate (unat len) 0xFF)"
      using run by (simp add: erased_read_back)
    then show ?thesis using assms(3) run Inr readable
      by (cases reconcile) (auto simp: simulated_erase_def effect_unless_def Let_def)
  qed
qed

lemma simulated_relay_failure:
  assumes "opened_as n s" "unat relay < 4"
    "simulated_relay D io reconcile relay expected s = (Inl e, s')"
  shows "\<exists>cause. e = device_failure D cause \<and> store_or_rejection io cause \<and> expected \<noteq> None \<and> \<not> reconcile"
proof -
  have four: "unat relay < length (ss_relay_closed (sim_state s))" using assms(1,2) by (simp add: opened_as_def)
  show ?thesis
  proof (cases "reconcile \<or> expected = None")
    case True
    then show ?thesis using assms(3) four
      by (cases expected) (auto simp: simulated_relay_def sim_observe_def Let_def effect_unless_def split: if_splits)
  next
    case False
    then obtain closed where closed: "expected = Some closed" "\<not> reconcile" by auto
    obtain r s1 where run: "set_relay io (unat relay) closed s = (r, s1)" by fastforce
    then have "length (ss_relay_closed (sim_state s1)) = length (ss_relay_closed (sim_state s))"
      using set_relay_relays [of io "unat relay" closed s] by simp
    with assms(3) closed run four set_relay_failure [OF four] show ?thesis
      by (cases r) (auto simp: simulated_relay_def sim_observe_def Let_def effect_unless_def split: if_splits)
  qed
qed

text \<open>An operation that the check before the access accepts is within the simulator: on a
  simulator of the configured size it can only fail because the store file could not be written
  or the simulator rejected the effect, never for its range, its relay or its source, and a read
  or a reconciliation does not fail at all.\<close>

theorem preflight_admits_simulator:
  assumes "db_config binding = SimulatorInstrument c"
    and "preflight_validate debug binding oper artifacts = Inr ()"
    and "opened_as (sc_flash_bytes c) s"
    and "simulated_execute D io oper artifacts reconcile s = (Inl e, s')"
  shows "\<exists>cause. e = device_failure D cause \<and> store_or_rejection io cause
    \<and> effect_permissions oper \<noteq> {} \<and> \<not> reconcile"
proof -
  have fits: "simulator_fits (sc_flash_bytes c) artifacts oper"
    using assms(1,2) by (simp add: preflight_validate_def validate_simulator_iff)
  from assms(4) have failed: "simulated_result D io oper artifacts reconcile s = (Inl e, s')"
    by (auto simp: simulated_execute_def split: sum.splits prod.splits)
  have "\<exists>bytes. read_flash s (unat offset) (unat len) = Inr bytes"
    if "simulated_region (sc_flash_bytes c) (unat offset) (unat len)" for offset :: u64 and len :: u32
    using that assms(3) by (intro read_flash_inside) (auto simp: opened_as_def simulated_region_def MAX_EVIDENCE_BYTES_def)
  with fits failed simulated_source_failure [OF assms(3)] simulated_erase_failure [OF assms(3)]
    simulated_relay_failure [OF assms(3)]
  show ?thesis
    by (cases oper) (fastforce simp: simulated_result_def)+
qed

text \<open>Reconciling on the simulator changes nothing, and an operation that completes left
  the simulator as asked: the region of an erase is blank, the region of a program or a
  verification holds exactly the source artifact, a relay is as requested.\<close>

theorem simulated_completion_exact:
  "snd (simulated_execute D io oper artifacts True s) = s
   \<and> (case simulated_execute D io oper artifacts reconcile s of
        (Inr result, s') \<Rightarrow> rd_partial result = None \<longrightarrow> simulated_outcome artifacts oper s'
      | _ \<Rightarrow> True)"
  using simulated_completion [of D io oper artifacts reconcile s]
  by (auto simp: simulated_reconcile_state split: prod.split sum.split)

definition ex_blank_simulator :: simulator where
  "ex_blank_simulator = \<lparr>sim_disk = Stored (initial_state 8), sim_state = initial_state 8\<rparr>"

definition ex_simulated_write :: operation where
  "ex_simulated_write = FlashWrite (TargetId ''t'') (InstrumentId ''sim'') 2 (ArtifactDigest ''d'') 2"

definition ex_simulated_env :: device_env where
  "ex_simulated_env = \<lparr>de_env = ex_env, de_debug = id, de_utf8_text = (\<lambda>_. ''utf8''),
     de_codec = \<lparr>cd_encode = (\<lambda>_. []), cd_decode = (\<lambda>_. Inl [])\<rparr>\<rparr>"

definition ex_simulated_run ::
  "instrument_error + unit \<Rightarrow> (backend_error + result_data) \<times> simulator" where
  "ex_simulated_run io = simulated_execute ex_simulated_env io ex_simulated_write (\<lambda>_. Inr [1, 2]) False
     ex_blank_simulator"

definition ex_simulator_binding :: device_binding where
  "ex_simulator_binding = \<lparr>db_config = ex_simulator_config, db_target_fingerprint = ex_digest,
     db_fixture_revision = ex_digest, db_flash_identity = None\<rparr>"

lemma ex_simulated_source: "source_bytes (\<lambda>_. Inr [1, 2]) digest 2 = Inr [1, 2]"
  by (simp add: source_bytes_def MAX_EVIDENCE_BYTES_def)

lemma ex_simulated_programs:
  "\<exists>s1. write_flash (Inr ()) 2 [1, 2] ex_blank_simulator = (Inr (), s1)"
  "\<exists>s1. write_flash (Inl cause) 2 [1, 2] ex_blank_simulator = (Inl cause, s1)"
proof -
  have range: "flash_range ex_blank_simulator 2 (length [1, 2 :: u8]) = Inr (2, 4)"
    by (simp add: flash_range_def ex_blank_simulator_def initial_state_def)
  have "slice (ss_flash (sim_state ex_blank_simulator)) 2 4 = [0xFF, 0xFF]"
    unfolding ex_blank_simulator_def initial_state_def by code_simp
  then have free: "\<not> list_ex (\<lambda>(existing, requested). requested AND NOT existing \<noteq> 0)
      (zip (slice (ss_flash (sim_state ex_blank_simulator)) 2 4) [1, 2])"
    by simp
  have "ss_fault (sim_state ex_blank_simulator) = NoFault"
    by (simp add: ex_blank_simulator_def initial_state_def)
  with range free show "\<exists>s1. write_flash (Inr ()) 2 [1, 2] ex_blank_simulator = (Inr (), s1)"
    "\<exists>s1. write_flash (Inl cause) 2 [1, 2] ex_blank_simulator = (Inl cause, s1)"
    by (simp_all add: write_flash_def begin_effect_def persist_def Let_def)
qed

lemma simulated_completion_exact_witness:
  "\<exists>result s'. ex_simulated_run (Inr ()) = (Inr result, s')
    \<and> slice (ss_flash (sim_state s')) 2 4 = [1, 2]"
proof -
  obtain s1 where written: "write_flash (Inr ()) 2 [1, 2] ex_blank_simulator = (Inr (), s1)"
    using ex_simulated_programs(1) by blast
  with written_read_back [OF written]
  obtain result where run: "ex_simulated_run (Inr ()) = (Inr result, s1)" "rd_partial result = None"
    by (simp add: ex_simulated_run_def simulated_execute_def simulated_result_def ex_simulated_write_def
        simulated_source_def ex_simulated_source effect_unless_def Let_def partial_unless_def)
  with simulated_completion_exact [of ex_simulated_env "Inr ()" ex_simulated_write "\<lambda>_. Inr [1, 2]"
      ex_blank_simulator False]
  have "slice (ss_flash (sim_state s1)) 2 4 = [1, 2]"
    by (simp add: ex_simulated_run_def ex_simulated_write_def)
  with run(1) show ?thesis by blast
qed

lemma preflight_admits_simulator_witness:
  "\<exists>e cause s'. ex_simulated_run (Inl (InstrumentIo ''replacing the store'' ''no space'')) = (Inl e, s')
    \<and> e = device_failure ex_simulated_env cause"
proof -
  let ?io = "Inl (InstrumentIo ''replacing the store'' ''no space'') :: instrument_error + unit"
  obtain s1 where "write_flash ?io 2 [1, 2] ex_blank_simulator = (Inl (projl ?io), s1)"
    using ex_simulated_programs(2) by auto
  then obtain e where run: "simulated_execute ex_simulated_env ?io ex_simulated_write (\<lambda>_. Inr [1, 2]) False
      ex_blank_simulator = (Inl e, s1)"
    by (simp add: simulated_execute_def simulated_result_def ex_simulated_write_def
        simulated_source_def ex_simulated_source effect_unless_def)
  have accepted: "preflight_validate id ex_simulator_binding ex_simulated_write (\<lambda>_. Inr [1, 2]) = Inr ()"
    by (simp add: preflight_validate_def ex_simulator_binding_def ex_simulator_config_def
        validate_simulator_iff ex_simulated_write_def simulated_region_def available_def MAX_EVIDENCE_BYTES_def)
  have size: "opened_as 8 ex_blank_simulator"
    by (simp add: opened_as_def ex_blank_simulator_def initial_state_def MAX_EVIDENCE_BYTES_def)
  have config: "db_config ex_simulator_binding =
      SimulatorInstrument \<lparr>sc_identity = SimulatorId ''s'', sc_flash_bytes = 8\<rparr>"
    by (simp add: ex_simulator_binding_def ex_simulator_config_def)
  from preflight_admits_simulator [OF config accepted _ run] size run show ?thesis
    by (auto simp: ex_simulated_run_def)
qed

end
