(* ===== verification/Video.thy ===== *)
theory Video
  imports Device_Results
begin

text \<open>
  The UVC frame capture (\<open>src/instruments/video.rs\<close>). What the file system and the
  capture process show at a call is the record \<open>video_world\<close>: the executable as the
  results of opening it and of reading it piece by piece, the resolved device directory as
  its path components from the root, the sysfs attributes, and the outcome of the process,
  whose runner is a library.
\<close>

section \<open>What a call sees\<close>

datatype sysfs_value = NoSuchFile | Unreadable string | Contents string

datatype capture_outcome =
    CaptureTimedOut
  | CaptureLimitExceeded
  | CaptureOther string
  | Captured "u8 list"

record video_world =
  vw_executable :: "string + (string + u8 list) list"
  vw_device :: "string \<Rightarrow> string + string list"
  vw_sysfs :: "string list \<Rightarrow> string \<Rightarrow> sysfs_value"
  vw_capture :: "video_config \<Rightarrow> capture_outcome"

record video_frame =
  vf_png :: "u8 list"
  vf_usb_identity :: string

definition PNG_SIGNATURE :: "u8 list" where
  "PNG_SIGNATURE = [0x89, 0x50, 0x4E, 0x47, 0x0D, 0x0A, 0x1A, 0x0A]"

section \<open>The executable\<close>

text \<open>The bytes hashed: pieces up to the first empty one.\<close>

fun hashed_bytes :: "(string + u8 list) list \<Rightarrow> u8 list \<Rightarrow> instrument_error + u8 list" where
  "hashed_bytes [] bytes = Inr bytes"
| "hashed_bytes (Inl source # pieces) bytes =
     Inl (InstrumentIo ''hashing configured video executable'' source)"
| "hashed_bytes (Inr piece # pieces) bytes =
     (if piece = [] then Inr bytes
      else if length piece > 8192 then Inl (ProtocolLimit (length piece) 8192)
      else hashed_bytes pieces (bytes @ piece))"

definition verify_executable_digest ::
  "(u8 list \<Rightarrow> string) \<Rightarrow> video_world \<Rightarrow> video_config \<Rightarrow> instrument_error + unit" where
  "verify_executable_digest sha256_hex w c =
     rbind (map_err (InstrumentIo ''opening configured video executable'') (vw_executable w)) (\<lambda>pieces.
     rbind (hashed_bytes pieces []) (\<lambda>bytes.
       let actual = sha256_hex bytes in
       if actual \<noteq> vc_executable_sha256 c
       then Inl (VideoExecutableDigestMismatch (vc_executable_sha256 c) actual)
       else Inr ()))"

section \<open>The USB identity\<close>

definition read_sysfs_value ::
  "video_world \<Rightarrow> string list \<Rightarrow> string \<Rightarrow> instrument_error + string option" where
  "read_sysfs_value w path name = (case vw_sysfs w path name of
     Contents value \<Rightarrow> Inr (Some (trim value))
   | NoSuchFile \<Rightarrow> Inr None
   | Unreadable source \<Rightarrow> Inl (InstrumentIo ''reading video USB sysfs identity'' source))"

definition directory_identity :: "video_world \<Rightarrow> string list \<Rightarrow> instrument_error + string option" where
  "directory_identity w path =
     rbind (read_sysfs_value w path ''idVendor'') (\<lambda>vendor.
     rbind (read_sysfs_value w path ''idProduct'') (\<lambda>product.
     rbind (read_sysfs_value w path ''serial'') (\<lambda>serial.
       Inr (case (vendor, product, serial) of
          (Some v, Some p, Some s) \<Rightarrow> Some (v @ '':'' @ p @ '':'' @ s) | _ \<Rightarrow> None))))"

function ancestry_loop :: "video_world \<Rightarrow> string list \<Rightarrow> string list \<Rightarrow> instrument_error + string list" where
  "ancestry_loop w path identities =
     rbind (directory_identity w path) (\<lambda>found.
       let identities' = identities @ (case found of None \<Rightarrow> [] | Some identity \<Rightarrow> [identity]) in
       if path = [] then Inr identities' else ancestry_loop w (butlast path) identities')"
  by pat_completeness auto
termination by (relation "measure (\<lambda>(_, path, _). length path)") auto

declare ancestry_loop.simps [simp del]

definition usb_identities_in_ancestry :: "video_world \<Rightarrow> string list \<Rightarrow> instrument_error + string list" where
  "usb_identities_in_ancestry w start = ancestry_loop w start []"

text \<open>\<open>Path::file_name\<close>: the last component, unless the path ends in the parent
  directory or names none.\<close>

definition file_name :: "string \<Rightarrow> string option" where
  "file_name path =
     (let parts = filter (\<lambda>part. part \<noteq> [] \<and> part \<noteq> ''.'') (split_on (CHR ''/'') path) in
      if parts = [] \<or> last parts = ''..'' then None else Some (last parts))"

fun unique_candidate :: "string \<Rightarrow> string list \<Rightarrow> instrument_error + string" where
  "unique_candidate expected [identity] = Inr identity"
| "unique_candidate expected [] =
     Inl (VideoIdentityMismatch expected ''absent from video device sysfs ancestry'')"
| "unique_candidate expected candidates =
     Inl (VideoIdentityMismatch expected
       (''ambiguous USB ancestry: '' @ nat_text (length candidates) @ '' identities''))"

lemma unique_candidate_Inr [simp]: "unique_candidate expected candidates = Inr identity \<longleftrightarrow> candidates = [identity]"
  by (cases "(expected, candidates)" rule: unique_candidate.cases) auto

definition inspect_identity :: "video_world \<Rightarrow> video_config \<Rightarrow> instrument_error + string" where
  "inspect_identity w c =
     rbind (parse_identity (vc_expected_usb_identity c)) (\<lambda>expected.
     rbind (ok_or (file_name (vc_device_path c))
              (InvalidVideoConfiguration ''device_path must name a V4L2 device'')) (\<lambda>device_name.
     rbind (map_err (InstrumentIo ''resolving configured video sysfs device'') (vw_device w device_name)) (\<lambda>start.
     rbind (usb_identities_in_ancestry w start) (\<lambda>candidates.
     rbind (unique_candidate (vc_expected_usb_identity c) candidates) (\<lambda>observed.
       if observed \<noteq> render_identity expected
       then Inl (VideoIdentityMismatch (vc_expected_usb_identity c) observed)
       else Inr (render_identity expected))))))"

section \<open>The capture\<close>

fun capture_result :: "nat \<Rightarrow> capture_outcome \<Rightarrow> instrument_error + u8 list" where
  "capture_result max_frame_bytes CaptureTimedOut = Inl (InstrumentTimeout ''capturing video frame'')"
| "capture_result max_frame_bytes CaptureLimitExceeded = Inl (FrameTooLarge max_frame_bytes)"
| "capture_result max_frame_bytes (CaptureOther detail) = Inl (VideoCaptureFailed detail)"
| "capture_result max_frame_bytes (Captured png) = Inr png"

definition video_capture ::
  "(u8 list \<Rightarrow> string) \<Rightarrow> video_world \<Rightarrow> video_config \<Rightarrow> instrument_error + video_frame" where
  "video_capture sha256_hex w c =
     rbind (verify_executable_digest sha256_hex w c) (\<lambda>_.
     rbind (inspect_identity w c) (\<lambda>identity.
     rbind (capture_result (vc_max_frame_bytes c) (vw_capture w c)) (\<lambda>png.
       if \<not> starts_with PNG_SIGNATURE png then Inl InvalidVideoFrame
       else Inr \<lparr>vf_png = png, vf_usb_identity = identity\<rparr>)))"

text \<open>\<open>capture_video\<close>: the configuration is validated first.\<close>

definition capture_video ::
  "(u8 list \<Rightarrow> string) \<Rightarrow> video_world \<Rightarrow> video_config \<Rightarrow> instrument_error + video_frame" where
  "capture_video sha256_hex w c =
     rbind (video_validate_config c) (\<lambda>_. video_capture sha256_hex w c)"

definition inspect_video :: "video_world \<Rightarrow> video_config \<Rightarrow> instrument_error + string" where
  "inspect_video w c = rbind (video_validate_config c) (\<lambda>_. inspect_identity w c)"

section \<open>What a captured frame is bound to\<close>

lemma split_on_three: "length (split_on c s) = 3 \<Longrightarrow> s = join_on c (split_on c s)"
  by (simp add: join_split_on)

lemma is_hex_word_length: "is_hex_word s \<Longrightarrow> s \<noteq> []"
  by (auto simp: is_hex_word_def)

lemma trim_Nil [simp]: "trim [] = []"
  by code_simp

lemma render_parse_identity:
  assumes "parse_identity value = Inr parsed"
  shows "render_identity parsed = value"
proof -
  let ?parts = "split_on (CHR '':'') value"
  let ?field = "\<lambda>i. if i < length ?parts then ?parts ! i else []"
  from assms have few: "length ?parts \<le> 3" and serial: "trim (?field 2) \<noteq> []"
    and parsed: "parsed = \<lparr>pi_vendor = ?field 0, pi_product = ?field 1, pi_serial = ?field 2\<rparr>"
    by (auto simp: parse_identity_def Let_def split: if_splits)
  have "2 < length ?parts" using serial by (cases "2 < length ?parts") auto
  with few have "length ?parts = 3" by simp
  then obtain a b d where parts: "?parts = [a, b, d]"
    by (auto simp: numeral_3_eq_3 length_Suc_conv)
  then have "value = join_on (CHR '':'') [a, b, d]" by (metis join_split_on)
  then show ?thesis using parsed parts by (simp add: render_identity_def join_on_def)
qed

text \<open>The identities found are those of the directories from the device up to the root.\<close>

definition identities_at :: "video_world \<Rightarrow> string list \<Rightarrow> nat \<Rightarrow> string list" where
  "identities_at w path n = (case directory_identity w (take n path) of
     Inr (Some identity) \<Rightarrow> [identity] | _ \<Rightarrow> [])"

lemma identities_at_butlast [simp]: "n < length path \<Longrightarrow> identities_at w (butlast path) n = identities_at w path n"
  by (simp add: identities_at_def take_butlast)

lemma ancestry_loop_directories:
  "ancestry_loop w path identities = Inr found \<Longrightarrow>
     found = identities @ concat (map (identities_at w path) (rev [0..<Suc (length path)]))
     \<and> (\<forall>n \<le> length path. \<not> isl (directory_identity w (take n path)))"
proof (induction w path identities rule: ancestry_loop.induct)
  case (1 w path identities)
  from 1(2) obtain found0 where found0: "directory_identity w path = Inr found0"
    by (subst (asm) ancestry_loop.simps) auto
  let ?next = "identities @ (case found0 of None \<Rightarrow> [] | Some identity \<Rightarrow> [identity])"
  have here: "identities_at w path (length path) = (case found0 of None \<Rightarrow> [] | Some identity \<Rightarrow> [identity])"
    using found0 by (simp add: identities_at_def)
  show ?case
  proof (cases "path = []")
    case True
    then show ?thesis using 1(2) found0 here
      by (subst (asm) ancestry_loop.simps) (simp add: Let_def)
  next
    case False
    then have "ancestry_loop w (butlast path) ?next = Inr found"
      using 1(2) found0 by (subst (asm) ancestry_loop.simps) (simp add: Let_def)
    from 1(1) [OF refl False this]
    have above: "found = ?next @ concat (map (identities_at w (butlast path)) (rev [0..<Suc (length (butlast path))]))"
      and readable: "\<forall>n \<le> length (butlast path). \<not> isl (directory_identity w (take n (butlast path)))"
      by auto
    have len: "Suc (length (butlast path)) = length path" using False by simp
    have "map (identities_at w (butlast path)) (rev [0..<length path]) = map (identities_at w path) (rev [0..<length path])"
      by (rule map_cong) auto
    with above have "found = ?next @ concat (map (identities_at w path) (rev [0..<length path]))"
      by (simp only: len)
    then have "found = identities @ concat (map (identities_at w path) (rev [0..<Suc (length path)]))"
      by (simp add: here)
    moreover have "\<not> isl (directory_identity w (take n path))" if "n \<le> length path" for n
    proof (cases "n = length path")
      case True
      then show ?thesis using found0 by simp
    next
      case False
      then have "n < length path" using that by simp
      then show ?thesis using readable len by (metis less_Suc_eq_le take_butlast)
    qed
    ultimately show ?thesis by blast
  qed
qed

lemma concat_single:
  assumes "concat (map f ns) = [x]" "\<And>n. length (f n) \<le> 1" "distinct ns"
  shows "\<exists>n \<in> set ns. f n = [x] \<and> (\<forall>m \<in> set ns. m \<noteq> n \<longrightarrow> f m = [])"
  using assms(1,3)
proof (induction ns)
  case (Cons n ns)
  show ?case
  proof (cases "f n = []")
    case True
    then show ?thesis using Cons by auto
  next
    case False
    then have "f n = [x]" using Cons.prems(1) assms(2) [of n] by (cases "f n") auto
    then show ?thesis using Cons.prems by auto
  qed
qed simp

text \<open>One directory of the ancestry, and no other, bears the identity.\<close>

definition sole_identity :: "video_world \<Rightarrow> string list \<Rightarrow> string \<Rightarrow> bool" where
  "sole_identity w path identity \<longleftrightarrow> (\<exists>n \<le> length path.
     directory_identity w (take n path) = Inr (Some identity)
     \<and> (\<forall>m \<le> length path. m \<noteq> n \<longrightarrow> directory_identity w (take m path) = Inr None))"

lemma sole_identity_found:
  assumes "usb_identities_in_ancestry w path = Inr [identity]"
  shows "sole_identity w path identity"
proof -
  let ?ns = "rev [0..<Suc (length path)]"
  from assms have found: "concat (map (identities_at w path) ?ns) = [identity]"
    and readable: "\<And>n. n \<le> length path \<Longrightarrow> \<not> isl (directory_identity w (take n path))"
    by (auto simp: usb_identities_in_ancestry_def dest: ancestry_loop_directories)
  have "length (identities_at w path n) \<le> 1" for n
    by (simp add: identities_at_def split: sum.split option.split)
  from concat_single [OF found this] obtain n where "n \<in> set ?ns" "identities_at w path n = [identity]"
    "\<forall>m \<in> set ?ns. m \<noteq> n \<longrightarrow> identities_at w path m = []"
    by (metis distinct_rev distinct_upt)
  then have n: "n \<le> length path" "identities_at w path n = [identity]"
    "\<And>m. m \<le> length path \<Longrightarrow> m \<noteq> n \<Longrightarrow> identities_at w path m = []"
    by (auto simp del: upt_Suc)
  have "directory_identity w (take n path) = Inr (Some identity)"
    using n(2) by (auto simp: identities_at_def split: sum.splits option.splits)
  moreover have "directory_identity w (take m path) = Inr None" if "m \<le> length path" "m \<noteq> n" for m
    using n(3) [OF that] readable [OF that(1)] by (auto simp: identities_at_def split: sum.splits option.splits)
  ultimately show ?thesis using n(1) unfolding sole_identity_def by blast
qed

lemma inspect_identity_Inr:
  assumes "inspect_identity w c = Inr identity"
  shows "identity = vc_expected_usb_identity c
    \<and> (\<exists>name path. file_name (vc_device_path c) = Some name \<and> vw_device w name = Inr path
        \<and> sole_identity w path identity)"
proof -
  from assms obtain parsed name path candidates where
    parsed: "parse_identity (vc_expected_usb_identity c) = Inr parsed" "identity = render_identity parsed"
    and device: "ok_or (file_name (vc_device_path c))
        (InvalidVideoConfiguration ''device_path must name a V4L2 device'') = Inr name"
      "map_err (InstrumentIo ''resolving configured video sysfs device'') (vw_device w name) = Inr path"
    and found: "usb_identities_in_ancestry w path = Inr candidates" "candidates = [render_identity parsed]"
    by (auto simp: inspect_identity_def split: if_splits)
  from device have "file_name (vc_device_path c) = Some name" "vw_device w name = Inr path"
    by (auto simp: ok_or_def map_err_def split: option.splits sum.splits)
  moreover have "sole_identity w path identity" using found parsed by (simp add: sole_identity_found)
  moreover have "identity = vc_expected_usb_identity c" using parsed by (simp add: render_parse_identity)
  ultimately show ?thesis by blast
qed

text \<open>A frame that \<open>capture_video\<close> returns is bound to its configuration: the whole
  executable was read and its digest is the configured one, exactly one directory between the
  device and the root of the file system bears a USB identity and it is the configured one,
  and the bytes are those the process wrote, with a PNG signature.\<close>

theorem captured_frame_bound:
  assumes "capture_video sha256_hex w c = Inr frame"
  shows "(\<exists>pieces bytes. vw_executable w = Inr pieces \<and> hashed_bytes pieces [] = Inr bytes
          \<and> sha256_hex bytes = vc_executable_sha256 c)
    \<and> (\<exists>name path. file_name (vc_device_path c) = Some name \<and> vw_device w name = Inr path
          \<and> sole_identity w path (vc_expected_usb_identity c))
    \<and> vf_usb_identity frame = vc_expected_usb_identity c
    \<and> vw_capture w c = Captured (vf_png frame) \<and> starts_with PNG_SIGNATURE (vf_png frame)"
proof -
  from assms obtain identity where executable: "verify_executable_digest sha256_hex w c = Inr ()"
    and identity: "inspect_identity w c = Inr identity"
    and frame: "capture_result (vc_max_frame_bytes c) (vw_capture w c) = Inr (vf_png frame)"
      "starts_with PNG_SIGNATURE (vf_png frame)" "vf_usb_identity frame = identity"
    by (auto simp: capture_video_def video_capture_def split: if_splits)
  have "vw_capture w c = Captured (vf_png frame)"
    using frame(1) by (cases "vw_capture w c") auto
  moreover have "\<exists>pieces bytes. vw_executable w = Inr pieces \<and> hashed_bytes pieces [] = Inr bytes
      \<and> sha256_hex bytes = vc_executable_sha256 c"
    using executable by (auto simp: verify_executable_digest_def map_err_def Let_def split: if_splits sum.splits)
  ultimately show ?thesis using inspect_identity_Inr [OF identity] frame by auto
qed

section \<open>A concrete camera\<close>

definition ex_camera :: video_config where
  "ex_camera = \<lparr>vc_device_path = ''/dev/video0'', vc_expected_usb_identity = ''2a19:0c02:n-7'',
     vc_executable = ''/usr/bin/ffmpeg'', vc_executable_sha256 = replicate 64 (CHR ''0''),
     vc_frame_timeout_milliseconds = 200, vc_max_frame_bytes = 1024\<rparr>"

definition ex_video_world :: video_world where
  "ex_video_world = \<lparr>vw_executable = Inr [Inr [1, 2], Inr []],
     vw_device = (\<lambda>name. Inr [''sys'', ''usb1'', ''video'']),
     vw_sysfs = (\<lambda>path name. if path \<noteq> [''sys'', ''usb1''] then NoSuchFile
       else if name = ''idVendor'' then Contents (''2a19'' @ [CHR 0x0A])
       else if name = ''idProduct'' then Contents ''0c02'' else Contents ''n-7''),
     vw_capture = (\<lambda>c. Captured (PNG_SIGNATURE @ [7]))\<rparr>"

lemma captured_frame_bound_witness:
  "capture_video (\<lambda>_. replicate 64 (CHR ''0'')) ex_video_world ex_camera
     = Inr \<lparr>vf_png = PNG_SIGNATURE @ [7], vf_usb_identity = ''2a19:0c02:n-7''\<rparr>
   \<and> sole_identity ex_video_world [''sys'', ''usb1'', ''video''] ''2a19:0c02:n-7''"
proof -
  have run: "capture_video (\<lambda>_. replicate 64 (CHR ''0'')) ex_video_world ex_camera
     = Inr \<lparr>vf_png = PNG_SIGNATURE @ [7], vf_usb_identity = ''2a19:0c02:n-7''\<rparr>"
    by code_simp
  from captured_frame_bound [OF run] run show ?thesis
    by (simp add: ex_video_world_def ex_camera_def)
qed

end
