(* ===== verification/Evidence.thy ===== *)
theory Evidence
  imports Device_Wire Rust_Text
begin

text \<open>
  The evidence store (\<open>src/evidence/mod.rs\<close>): artifacts are files named by their
  SHA-256 below a directory, with an empty marker file for every source that published them.
  The file system is modelled call by call. A directory handle is the path it was opened at,
  a path the list of its components from the root. \<open>fs_synced\<close> and \<open>fs_linked\<close> say
  what a crash cannot take back: the content of a file, and the entry of a path in its
  directory. The outcome of every call is drawn from a script, so that a call may be refused
  with any error and the process may die at any call; when the script is used up, the process
  dies at its next call. A write that does not complete has written any part of its bytes.
\<close>

section \<open>File system calls\<close>

type_synonym path = "string list"

datatype errno =
    NoEntry
  | AlreadyExists
  | IsDirectory
  | SymlinkLoop
  | NotDirectory
  | OtherErrno string

datatype fs_node = Directory | RegularFile "u8 list" | Symlink | SpecialFile

text \<open>What the owner may do; nobody else may do anything.\<close>

datatype file_mode = OwnerAll | OwnerReadWrite | OtherMode

definition DIRECTORY_MODE :: file_mode where "DIRECTORY_MODE = OwnerAll"
definition FILE_MODE :: file_mode where "FILE_MODE = OwnerReadWrite"

datatype call_outcome = Works | Refused string nat | Crashes nat

record file_system =
  fs_nodes :: "path \<Rightarrow> fs_node option"
  fs_mode :: "path \<Rightarrow> file_mode"
  fs_synced :: "path \<Rightarrow> bool"
  fs_linked :: "path \<Rightarrow> bool"
  fs_sequence :: nat
  fs_script :: "call_outcome list"

type_synonym 'a sys = "(file_system, errno, 'a) action"

text \<open>A call with its effect, and what a call that does not complete may leave.\<close>

definition syscall_with ::
  "(nat \<Rightarrow> file_system \<Rightarrow> file_system) \<Rightarrow> (file_system \<Rightarrow> (errno + 'a) \<times> file_system) \<Rightarrow> 'a sys" where
  "syscall_with part effect s = (case fs_script s of
     [] \<Rightarrow> (Inl Dropped, s)
   | out # script \<Rightarrow>
       let s1 = s\<lparr>fs_script := script\<rparr> in
       (case out of
          Works \<Rightarrow> (case effect s1 of (r, s2) \<Rightarrow> (map_err Failed r, s2))
        | Refused e n \<Rightarrow> (Inl (Failed (OtherErrno e)), part n s1)
        | Crashes n \<Rightarrow> (Inl Dropped, part n s1)))"

abbreviation syscall :: "(file_system \<Rightarrow> (errno + 'a) \<times> file_system) \<Rightarrow> 'a sys" where
  "syscall \<equiv> syscall_with (\<lambda>n s. s)"

definition put_node :: "path \<Rightarrow> fs_node \<Rightarrow> file_system \<Rightarrow> file_system" where
  "put_node p node s = s\<lparr>fs_nodes := (fs_nodes s)(p \<mapsto> node)\<rparr>"

text \<open>A new entry is not yet on disk.\<close>

definition new_entry :: "path \<Rightarrow> fs_node \<Rightarrow> bool \<Rightarrow> file_system \<Rightarrow> file_system" where
  "new_entry p node synced s = (put_node p node s)
     \<lparr>fs_synced := (fs_synced s)(p := synced), fs_linked := (fs_linked s)(p := False)\<rparr>"

definition sys_open_directory :: "path \<Rightarrow> string \<Rightarrow> path sys" where
  "sys_open_directory parent name = syscall (\<lambda>s.
     (case fs_nodes s (parent @ [name]) of
        None \<Rightarrow> Inl NoEntry
      | Some Directory \<Rightarrow> Inr (parent @ [name])
      | Some Symlink \<Rightarrow> Inl SymlinkLoop
      | Some _ \<Rightarrow> Inl NotDirectory, s))"

definition sys_make_directory :: "path \<Rightarrow> string \<Rightarrow> file_mode \<Rightarrow> unit sys" where
  "sys_make_directory parent name mode = syscall (\<lambda>s.
     case fs_nodes s (parent @ [name]) of
       Some _ \<Rightarrow> (Inl AlreadyExists, s)
     | None \<Rightarrow> (Inr (), (new_entry (parent @ [name]) Directory True s)
          \<lparr>fs_mode := (fs_mode s)(parent @ [name] := mode)\<rparr>))"

definition sys_chmod :: "path \<Rightarrow> file_mode \<Rightarrow> unit sys" where
  "sys_chmod p mode = syscall (\<lambda>s. (Inr (), s\<lparr>fs_mode := (fs_mode s)(p := mode)\<rparr>))"

text \<open>Synchronising a file keeps its content, synchronising a directory its entries.\<close>

definition sys_sync :: "path \<Rightarrow> unit sys" where
  "sys_sync p = syscall (\<lambda>s. (Inr (), s
     \<lparr>fs_synced := (fs_synced s)(p := True),
      fs_linked := (\<lambda>q. fs_linked s q \<or> (q \<noteq> [] \<and> butlast q = p))\<rparr>))"

text \<open>Opening a file without following links and without waiting for a peer.\<close>

definition sys_open_file :: "path \<Rightarrow> bool \<Rightarrow> path sys" where
  "sys_open_file p writable = syscall (\<lambda>s.
     (case fs_nodes s p of
        None \<Rightarrow> Inl NoEntry
      | Some Symlink \<Rightarrow> Inl SymlinkLoop
      | Some Directory \<Rightarrow> if writable then Inl IsDirectory else Inr p
      | Some _ \<Rightarrow> Inr p, s))"

definition sys_is_file :: "path \<Rightarrow> bool sys" where
  "sys_is_file p = syscall (\<lambda>s.
     (Inr (case fs_nodes s p of Some (RegularFile _) \<Rightarrow> True | _ \<Rightarrow> False), s))"

definition sys_contents :: "path \<Rightarrow> u8 list sys" where
  "sys_contents p = syscall (\<lambda>s.
     (case fs_nodes s p of Some (RegularFile bytes) \<Rightarrow> Inr bytes | _ \<Rightarrow> Inl NoEntry, s))"

definition sys_length :: "path \<Rightarrow> nat sys" where
  "sys_length p = syscall (\<lambda>s.
     (case fs_nodes s p of Some (RegularFile bytes) \<Rightarrow> Inr (length bytes) | _ \<Rightarrow> Inl NoEntry, s))"

definition sys_create :: "path \<Rightarrow> file_mode \<Rightarrow> path sys" where
  "sys_create p mode = syscall (\<lambda>s.
     case fs_nodes s p of
       Some _ \<Rightarrow> (Inl AlreadyExists, s)
     | None \<Rightarrow> (Inr p, (new_entry p (RegularFile []) False s)
          \<lparr>fs_mode := (fs_mode s)(p := mode)\<rparr>))"

definition unsynced_contents :: "path \<Rightarrow> u8 list \<Rightarrow> file_system \<Rightarrow> file_system" where
  "unsynced_contents p bytes s =
     (put_node p (RegularFile bytes) s)\<lparr>fs_synced := (fs_synced s)(p := False)\<rparr>"

definition sys_write :: "path \<Rightarrow> u8 list \<Rightarrow> unit sys" where
  "sys_write p bytes = syscall_with
     (\<lambda>n s. unsynced_contents p (take n bytes) s)
     (\<lambda>s. (Inr (), unsynced_contents p bytes s))"

definition sys_link :: "path \<Rightarrow> path \<Rightarrow> unit sys" where
  "sys_link p q = syscall (\<lambda>s.
     case (fs_nodes s p, fs_nodes s q) of
       (None, _) \<Rightarrow> (Inl NoEntry, s)
     | (Some _, Some _) \<Rightarrow> (Inl AlreadyExists, s)
     | (Some node, None) \<Rightarrow> (Inr (), (new_entry q node (fs_synced s p) s)
          \<lparr>fs_mode := (fs_mode s)(q := fs_mode s p)\<rparr>))"

definition sys_unlink :: "path \<Rightarrow> unit sys" where
  "sys_unlink p = syscall (\<lambda>s.
     case fs_nodes s p of
       None \<Rightarrow> (Inl NoEntry, s)
     | Some Directory \<Rightarrow> (Inl IsDirectory, s)
     | Some _ \<Rightarrow> (Inr (), s\<lparr>fs_nodes := (fs_nodes s)(p := None)\<rparr>))"

section \<open>Errors and places\<close>

datatype io_cause = Os errno | NotFound string

datatype evidence_error =
    EvidenceIo io_cause
  | EvidenceDigestMismatch artifact_digest
  | InvalidRoot string
  | InvalidEntry path

datatype evidence_source =
    FromCase case_id
  | FromAttempt attempt_id
  | FromCommissioning instrument_id

type_synonym 'a evidence = "(file_system, evidence_error, 'a) action"

definition io_error :: "errno \<Rightarrow> evidence_error" where "io_error e = EvidenceIo (Os e)"

definition open_error :: "path \<Rightarrow> errno \<Rightarrow> evidence_error" where
  "open_error p e =
     (if e \<in> {IsDirectory, SymlinkLoop, NotDirectory} then InvalidEntry p else io_error e)"

definition digest_components :: "artifact_digest \<Rightarrow> string \<times> string" where
  "digest_components digest = (take 2 (digest_str digest), drop 2 (digest_str digest))"

fun source_parts :: "evidence_source \<Rightarrow> string \<times> string" where
  "source_parts (FromCase i) = (''case'', case_str i)"
| "source_parts (FromAttempt i) = (''attempt'', attempt_str i)"
| "source_parts (FromCommissioning i) = (''commissioning'', instrument_str i)"

record artifact_store =
  as_root :: path
  as_process :: nat

definition path_for :: "artifact_store \<Rightarrow> artifact_digest \<Rightarrow> path" where
  "path_for S digest = (case digest_components digest of
     (prefix, suffix) \<Rightarrow> as_root S @ [''sha256'', prefix, suffix])"

section \<open>Opening the store\<close>

text \<open>The components of a path other than the current directory.\<close>

definition path_parts :: "string \<Rightarrow> string list" where
  "path_parts p = filter (\<lambda>part. part \<noteq> [] \<and> part \<noteq> ''.'') (split_on (CHR ''/'') p)"

fun normalize_parts :: "string list \<Rightarrow> path \<Rightarrow> path option" where
  "normalize_parts [] normalized = Some normalized"
| "normalize_parts (part # parts) normalized =
     (if part = ''..''
      then (if normalized = [] then None else normalize_parts parts (butlast normalized))
      else normalize_parts parts (normalized @ [part]))"

definition normalize_root :: "errno + path \<Rightarrow> string \<Rightarrow> evidence_error + path" where
  "normalize_root current_dir root =
     (if root = [] then Inl (InvalidRoot root)
      else
        rbind (if starts_with ''/'' root then Inr (path_parts root)
               else rbind (map_err io_error current_dir) (\<lambda>d. Inr (d @ path_parts root))) (\<lambda>parts.
        case normalize_parts parts [] of
          None \<Rightarrow> Inl (InvalidRoot root)
        | Some normalized \<Rightarrow> if normalized = [] then Inl (InvalidRoot root) else Inr normalized))"

definition sync_directory :: "path \<Rightarrow> unit evidence" where
  "sync_directory p = amap_err io_error (sys_sync p)"

text \<open>The directory, and whether this call created it.\<close>

fun created_flag :: "errno + unit \<Rightarrow> evidence_error + bool" where
  "created_flag (Inr _) = Inr True"
| "created_flag (Inl AlreadyExists) = Inr False"
| "created_flag (Inl e) = Inl (io_error e)"

definition create_directory :: "path \<Rightarrow> string \<Rightarrow> (path \<times> bool) evidence" where
  "create_directory parent name =
     abind (atry (sys_make_directory parent name DIRECTORY_MODE)) (\<lambda>made.
     abind (alift (created_flag made)) (\<lambda>created.
     abind (amap_err (open_error (parent @ [name])) (sys_open_directory parent name)) (\<lambda>directory.
       areturn (directory, created))))"

definition reach_directory :: "path \<Rightarrow> string \<Rightarrow> (path \<times> bool) evidence" where
  "reach_directory parent name =
     abind (atry (sys_open_directory parent name)) (\<lambda>opened.
     case opened of
       Inr directory \<Rightarrow> areturn (directory, False)
     | Inl e \<Rightarrow> if e = NoEntry then create_directory parent name
         else afail (open_error (parent @ [name]) e))"

definition open_or_create_directory :: "path \<Rightarrow> string \<Rightarrow> bool \<Rightarrow> path evidence" where
  "open_or_create_directory parent name secure_existing =
     abind (reach_directory parent name) (\<lambda>(directory, created).
     if created \<or> secure_existing
     then abind (amap_err io_error (sys_chmod directory DIRECTORY_MODE)) (\<lambda>_.
          abind (sync_directory directory) (\<lambda>_.
          abind (sync_directory parent) (\<lambda>_. areturn directory)))
     else areturn directory)"

definition ensure_store_directory :: "path \<Rightarrow> string \<Rightarrow> path evidence" where
  "ensure_store_directory parent name = open_or_create_directory parent name True"

definition open_directory :: "path \<Rightarrow> string \<Rightarrow> path evidence" where
  "open_directory parent name =
     amap_err (open_error (parent @ [name])) (sys_open_directory parent name)"

fun open_store_loop :: "path \<Rightarrow> string list \<Rightarrow> path evidence" where
  "open_store_loop directory [] = areturn directory"
| "open_store_loop directory (component # rest) =
     abind (open_or_create_directory directory component (rest = [])) (\<lambda>next. open_store_loop next rest)"

definition open_store_root :: "path \<Rightarrow> path evidence" where
  "open_store_root root = open_store_loop [] root"

definition store_open :: "errno + path \<Rightarrow> nat \<Rightarrow> string \<Rightarrow> artifact_store evidence" where
  "store_open current_dir process root =
     abind (alift (normalize_root current_dir root)) (\<lambda>normalized.
     abind (open_store_root normalized) (\<lambda>_.
       areturn \<lparr>as_root = normalized, as_process = process\<rparr>))"

section \<open>Reading\<close>

fun descend :: "bool \<Rightarrow> path \<Rightarrow> string list \<Rightarrow> path evidence" where
  "descend create directory [] = areturn directory"
| "descend create directory (component # rest) =
     abind (if create then ensure_store_directory directory component
            else open_directory directory component) (\<lambda>next. descend create next rest)"

definition artifact_location :: "artifact_store \<Rightarrow> artifact_digest \<Rightarrow> bool \<Rightarrow> (path \<times> path) evidence" where
  "artifact_location S digest create = (case digest_components digest of
     (prefix, suffix) \<Rightarrow>
       abind (descend create (as_root S) [''sha256'', prefix]) (\<lambda>directory.
         areturn (directory, directory @ [suffix])))"

definition source_location ::
  "artifact_store \<Rightarrow> artifact_digest \<Rightarrow> evidence_source \<Rightarrow> bool \<Rightarrow> (path \<times> path) evidence" where
  "source_location S digest source create = (case (source_parts source, digest_components digest) of
     ((kind, i), (prefix, suffix)) \<Rightarrow>
       abind (descend create (as_root S) [''references'', ''sha256'', prefix, suffix, kind]) (\<lambda>directory.
         areturn (directory, directory @ [i])))"

definition validate_regular_file :: "path \<Rightarrow> unit evidence" where
  "validate_regular_file p =
     abind (amap_err io_error (sys_is_file p)) (\<lambda>regular.
       if regular then areturn () else afail (InvalidEntry p))"

definition secure_regular_file :: "path \<Rightarrow> unit evidence" where
  "secure_regular_file p =
     abind (validate_regular_file p) (\<lambda>_. amap_err io_error (sys_chmod p FILE_MODE))"

definition open_regular_file :: "path \<Rightarrow> bool \<Rightarrow> unit evidence" where
  "open_regular_file p writable =
     abind (amap_err (open_error p) (sys_open_file p writable)) (\<lambda>_.
     abind (validate_regular_file p) (\<lambda>_.
       if writable then amap_err io_error (sys_chmod p FILE_MODE) else areturn ()))"

definition verified_contents ::
  "env \<Rightarrow> path \<Rightarrow> path \<Rightarrow> artifact_digest \<Rightarrow> bool \<Rightarrow> u8 list evidence" where
  "verified_contents E directory p digest durable =
     abind (amap_err io_error (sys_contents p)) (\<lambda>bytes.
     if artifact_sha256 (env_sha256_hex E) bytes \<noteq> digest then afail (EvidenceDigestMismatch digest)
     else if durable
     then abind (amap_err io_error (sys_sync p)) (\<lambda>_.
          abind (sync_directory directory) (\<lambda>_. areturn bytes))
     else areturn bytes)"

definition read_artifact_if_present ::
  "env \<Rightarrow> path \<Rightarrow> path \<Rightarrow> artifact_digest \<Rightarrow> bool \<Rightarrow> u8 list option evidence" where
  "read_artifact_if_present E directory p digest durable =
     abind (atry (open_regular_file p durable)) (\<lambda>opened.
     case opened of
       Inl e \<Rightarrow> if e = EvidenceIo (Os NoEntry) then areturn None else afail e
     | Inr _ \<Rightarrow> abind (verified_contents E directory p digest durable) (\<lambda>bytes. areturn (Some bytes)))"

definition found_artifact :: "string \<Rightarrow> u8 list option \<Rightarrow> u8 list evidence" where
  "found_artifact reason found = (case found of
     Some bytes \<Rightarrow> areturn bytes | None \<Rightarrow> afail (EvidenceIo (NotFound reason)))"

definition read_artifact :: "env \<Rightarrow> artifact_store \<Rightarrow> artifact_digest \<Rightarrow> u8 list evidence" where
  "read_artifact E S digest =
     abind (artifact_location S digest False) (\<lambda>(directory, p).
     abind (read_artifact_if_present E directory p digest False)
       (found_artifact ''evidence artifact does not exist''))"

text \<open>A marker is an empty regular file.\<close>

definition check_marker :: "path \<Rightarrow> bool \<Rightarrow> unit evidence" where
  "check_marker p writable =
     abind (open_regular_file p writable) (\<lambda>_.
     abind (amap_err io_error (sys_length p)) (\<lambda>len.
       if len \<noteq> 0 then afail (InvalidEntry p) else areturn ()))"

definition verify_source ::
  "env \<Rightarrow> artifact_store \<Rightarrow> artifact_digest \<Rightarrow> evidence_source \<Rightarrow> u8 list evidence" where
  "verify_source E S digest source =
     abind (read_artifact E S digest) (\<lambda>bytes.
     abind (source_location S digest source False) (\<lambda>(directory, p).
     abind (check_marker p False) (\<lambda>_. areturn bytes)))"

section \<open>Publishing\<close>

definition create_marker :: "path \<Rightarrow> unit evidence" where
  "create_marker p =
     abind (atry (sys_create p FILE_MODE)) (\<lambda>created. case created of
         Inl e \<Rightarrow> if e = AlreadyExists then check_marker p True else afail (open_error p e)
       | Inr _ \<Rightarrow> secure_regular_file p)"

definition record_marker :: "path \<Rightarrow> path \<Rightarrow> unit evidence" where
  "record_marker directory p =
     abind (create_marker p) (\<lambda>_.
     abind (amap_err io_error (sys_sync p)) (\<lambda>_. sync_directory directory))"

definition record_source :: "artifact_store \<Rightarrow> artifact_digest \<Rightarrow> evidence_source \<Rightarrow> unit evidence" where
  "record_source S digest source =
     abind (source_location S digest source True) (\<lambda>(directory, p). record_marker directory p)"

definition temporary_name :: "artifact_store \<Rightarrow> artifact_digest \<Rightarrow> nat \<Rightarrow> string" where
  "temporary_name S digest sequence =
     ''.'' @ digest_str digest @ ''.'' @ nat_text (as_process S) @ ''.'' @ nat_text sequence @ ''.partial''"

definition try_temporary :: "artifact_store \<Rightarrow> path \<Rightarrow> artifact_digest \<Rightarrow> (errno + path) evidence" where
  "try_temporary S directory digest s =
     (let sequence = fs_sequence s in
      atry (sys_create (directory @ [temporary_name S digest sequence]) FILE_MODE)
        (s\<lparr>fs_sequence := sequence + 1\<rparr>))"

lemma try_temporary_used:
  assumes "try_temporary S directory digest s = (Inr created, s')"
  shows "length (fs_script s') < length (fs_script s)"
  using assms
  by (cases "fs_script s"; cases "hd (fs_script s)")
    (auto simp: try_temporary_def sys_create_def syscall_with_def atry_def Let_def new_entry_def put_node_def
      split: prod.splits option.splits)

function create_temporary :: "artifact_store \<Rightarrow> path \<Rightarrow> artifact_digest \<Rightarrow> path evidence" where
  "create_temporary S directory digest s =
     (case try_temporary S directory digest s of
        (Inr (Inr p), s') \<Rightarrow> (Inr p, s')
      | (Inr (Inl AlreadyExists), s') \<Rightarrow> create_temporary S directory digest s'
      | (Inr (Inl e), s') \<Rightarrow> (Inl (Failed (io_error e)), s')
      | (Inl stopped, s') \<Rightarrow> (Inl stopped, s'))"
  by pat_completeness auto
termination
  by (relation "measure (\<lambda>(_, _, _, s). length (fs_script s))") (auto dest: try_temporary_used [OF sym])

declare create_temporary.simps [simp del]

text \<open>Removing a temporary file: as a step, and when it goes out of scope after a failure,
  whose own failures are only logged.\<close>

definition unlinked :: "path \<Rightarrow> unit evidence" where
  "unlinked p =
     abind (atry (sys_unlink p)) (\<lambda>removed. case removed of
       Inl e \<Rightarrow> if e = NoEntry then areturn () else afail (io_error e) | Inr _ \<Rightarrow> areturn ())"

definition remove_temporary :: "path \<Rightarrow> path \<Rightarrow> unit evidence" where
  "remove_temporary directory p = abind (unlinked p) (\<lambda>_. sync_directory directory)"

definition drop_temporary :: "path \<Rightarrow> path \<Rightarrow> 'a evidence \<Rightarrow> 'a evidence" where
  "drop_temporary directory p m s =
     (case m s of
        (Inl (Failed e), s') \<Rightarrow>
          (case remove_temporary directory p s' of
             (Inl Dropped, s'') \<Rightarrow> (Inl Dropped, s'') | (_, s'') \<Rightarrow> (Inl (Failed e), s''))
      | outcome \<Rightarrow> outcome)"

definition link_artifact :: "path \<Rightarrow> path \<Rightarrow> unit evidence" where
  "link_artifact temporary p =
     abind (atry (sys_link temporary p)) (\<lambda>linked. case linked of
       Inl e \<Rightarrow> if e = AlreadyExists then areturn () else afail (io_error e) | Inr _ \<Rightarrow> areturn ())"

definition publish_new ::
  "env \<Rightarrow> artifact_digest \<Rightarrow> path \<Rightarrow> path \<Rightarrow> path \<Rightarrow> u8 list \<Rightarrow> unit evidence" where
  "publish_new E digest directory p temporary bytes =
     abind (amap_err io_error (sys_write temporary bytes)) (\<lambda>_.
     abind (amap_err io_error (sys_chmod temporary FILE_MODE)) (\<lambda>_.
     abind (amap_err io_error (sys_sync temporary)) (\<lambda>_.
     abind (link_artifact temporary p) (\<lambda>_.
     abind (read_artifact_if_present E directory p digest True) (\<lambda>found.
     abind (found_artifact ''published artifact disappeared before verification'' found) (\<lambda>_.
       remove_temporary directory temporary))))))"

definition publish ::
  "env \<Rightarrow> artifact_store \<Rightarrow> u8 list \<Rightarrow> evidence_source \<Rightarrow> artifact_digest evidence" where
  "publish E S bytes source =
     (let digest = artifact_sha256 (env_sha256_hex E) bytes in
      abind (artifact_location S digest True) (\<lambda>(directory, p).
      abind (read_artifact_if_present E directory p digest True) (\<lambda>found.
      abind (case found of
          Some _ \<Rightarrow> areturn ()
        | None \<Rightarrow>
            abind (create_temporary S directory digest) (\<lambda>temporary.
              drop_temporary directory temporary
                (publish_new E digest directory p temporary bytes))) (\<lambda>_.
      abind (record_source S digest source) (\<lambda>_. areturn digest)))))"

end
