(* ===== verification/Device_Backend.thy ===== *)
theory Device_Backend
  imports Bus Numato Simulated_Backend Video Evidence
begin

text \<open>
  The device sessions of the supervisor (\<open>src/service/backend/mod.rs\<close>) and the
  observation of an instrument's identity (\<open>src/service/backend/identity.rs\<close>). The
  state is the open connection of every session, the store files of the simulators and the
  file system of the evidence store. What the host shows to one call is the record
  \<open>occasion\<close>: at every stage the paths and serial ports it lists and the results of
  opening a port, and the readings of both clocks. The part of a call that runs under a
  timeout is dropped there when a device does not answer in time; what follows it without an
  await point can only be dropped by the end of the process.
\<close>

section \<open>Environment and state\<close>

datatype connected =
    ConnectedBpio2 adapter
  | ConnectedNumato wire
  | ConnectedSimulator artifact_digest simulator
  | ConnectedVideo video_config

record usb_device =
  us_vid :: u16
  us_pid :: u16
  us_serial_number :: "string option"

record serial_port =
  se_port_name :: string
  se_usb :: "usb_device option"

datatype stage = Connecting | Observing | Operating

datatype moment = Started | Locked | Begun | Identified | Verified | Capturing | Publishing

record host =
  ho_canonicalize :: "string \<Rightarrow> string + string"
  ho_ports :: "string + serial_port list"
  ho_open_serial :: "serial_binding \<Rightarrow> instrument_error + exchange list"
  ho_prepare :: "instrument_error + unit"
  ho_store_write :: "instrument_error + unit"
  ho_video :: video_world

record occasion =
  oc_host :: "stage \<Rightarrow> host"
  oc_lock :: "string + unit"
  oc_elapsed :: "moment \<Rightarrow> nat"
  oc_now :: "moment \<Rightarrow> timestamp"

record backend_env =
  be_device :: device_env
  be_store :: artifact_store
  be_sessions :: "(instrument_id \<times> device_binding) list"
  be_binding_bytes :: "device_binding \<Rightarrow> string + u8 list"
  be_value_bytes :: "json \<Rightarrow> string + u8 list"
  be_observation_bytes :: "observation \<Rightarrow> string + u8 list"
  be_envelope_bytes :: "evidence_envelope \<Rightarrow> string + u8 list"
  be_config_value :: "instrument_config \<Rightarrow> json"
  be_io_text :: "io_cause \<Rightarrow> string"

text \<open>\<open>bw_past\<close> is what an instrument was sent over connections that are closed; only
  properties look at it.\<close>

record backend_world =
  bw_connections :: "instrument_id \<Rightarrow> connected option"
  bw_past :: "instrument_id \<Rightarrow> u8 list list"
  bw_stores :: "artifact_digest \<Rightarrow> stored_state"
  bw_files :: file_system

type_synonym 'a backend = "(backend_world, backend_error, 'a) action"

definition be_env :: "backend_env \<Rightarrow> env" where "be_env B = de_env (be_device B)"

definition path_display :: "path \<Rightarrow> string" where
  "path_display p = (if p = [] then ''/'' else concat (map (\<lambda>part. CHR ''/'' # part) p))"

fun evidence_text :: "(io_cause \<Rightarrow> string) \<Rightarrow> evidence_error \<Rightarrow> string" where
  "evidence_text io_text (EvidenceIo cause) = ''evidence I/O failed: '' @ io_text cause"
| "evidence_text io_text (EvidenceDigestMismatch digest) =
     ''artifact digest does not match its content: '' @ digest_str digest"
| "evidence_text io_text (InvalidRoot p) = ''evidence root is not a directory: '' @ p"
| "evidence_text io_text (InvalidEntry p) =
     ''evidence path has an invalid file type: '' @ path_display p"

definition put_connection :: "instrument_id \<Rightarrow> connected option \<Rightarrow> backend_world \<Rightarrow> backend_world" where
  "put_connection i c w = w\<lparr>bw_connections := (bw_connections w)(i := c)\<rparr>"

fun connection_sent :: "connected option \<Rightarrow> u8 list list" where
  "connection_sent (Some (ConnectedBpio2 a)) = wr_sent (ad_wire a)"
| "connection_sent (Some (ConnectedNumato line)) = wr_sent line"
| "connection_sent _ = []"

definition sent_to :: "backend_world \<Rightarrow> instrument_id \<Rightarrow> u8 list list" where
  "sent_to w i = bw_past w i @ connection_sent (bw_connections w i)"

text \<open>\<open>*connection = None\<close>\<close>

definition discard :: "instrument_id \<Rightarrow> backend_world \<Rightarrow> backend_world" where
  "discard i w = (put_connection i None w)\<lparr>bw_past := (bw_past w)(i := sent_to w i)\<rparr>"

definition put_simulator :: "instrument_id \<Rightarrow> artifact_digest \<Rightarrow> simulator \<Rightarrow> backend_world \<Rightarrow> backend_world" where
  "put_simulator i key s w = (put_connection i (Some (ConnectedSimulator key s)) w)
     \<lparr>bw_stores := (bw_stores w)(key := sim_disk s)\<rparr>"

definition on_bpio2 :: "instrument_id \<Rightarrow> adapter \<Rightarrow> (adapter, backend_error, 'a) action \<Rightarrow> 'a backend" where
  "on_bpio2 i a m w = (case m a of (r, a') \<Rightarrow> (r, put_connection i (Some (ConnectedBpio2 a')) w))"

definition on_numato :: "instrument_id \<Rightarrow> wire \<Rightarrow> (wire, backend_error, 'a) action \<Rightarrow> 'a backend" where
  "on_numato i line m w = (case m line of (r, line') \<Rightarrow> (r, put_connection i (Some (ConnectedNumato line')) w))"

definition on_simulator ::
  "instrument_id \<Rightarrow> artifact_digest \<Rightarrow> simulator \<Rightarrow> 'a simulated \<Rightarrow> 'a backend" where
  "on_simulator i key s m w = (case m s of (r, s') \<Rightarrow> (map_err Failed r, put_simulator i key s' w))"

text \<open>A call of the evidence store, its failure as a transport failure.\<close>

definition on_evidence :: "backend_env \<Rightarrow> 'a evidence \<Rightarrow> 'a backend" where
  "on_evidence B m w = (case m (bw_files w) of (r, files) \<Rightarrow>
     ((case r of Inr x \<Rightarrow> Inr x | Inl Dropped \<Rightarrow> Inl Dropped
        | Inl (Failed e) \<Rightarrow> Inl (Failed (transport (evidence_text (be_io_text B) e)))),
      w\<lparr>bw_files := files\<rparr>))"

section \<open>Opening\<close>

definition backend_open :: "backend_env \<Rightarrow> (instrument_id \<times> device_binding) list \<Rightarrow> backend_error + backend_env" where
  "backend_open B bindings =
     (let configs = map (db_config \<circ> snd) bindings in
      rbind (validate_unique_physical_identities (be_env B) (de_debug (be_device B)) configs) (\<lambda>_.
      rbind (for_each (validate_config (de_debug (be_device B))) configs) (\<lambda>_.
        Inr (B\<lparr>be_sessions := bindings\<rparr>))))"

definition session :: "backend_env \<Rightarrow> instrument_id \<Rightarrow> backend_error + device_binding" where
  "session B i = ok_or (map_of (be_sessions B) i)
     (malformed (''unconfigured instrument '' @ instrument_str i))"

definition inventory :: "backend_env \<Rightarrow> json" where
  "inventory B = JArray (map (\<lambda>(i, binding). JObject (object
     [(''instrument'', JString (instrument_str i)), (''config'', be_config_value B (db_config binding)),
      (''qualification'', JString ''requires_commissioned_profile'')])) (be_sessions B))"

section \<open>The identity of an instrument\<close>

fun port_identities ::
  "(string \<Rightarrow> string + string) \<Rightarrow> string \<Rightarrow> serial_port list \<Rightarrow> string list \<Rightarrow> backend_error + string list" where
  "port_identities canonicalize expected_path [] identities = Inr identities"
| "port_identities canonicalize expected_path (port # ports) identities =
     (if canonicalize (se_port_name port) \<noteq> Inr expected_path
      then port_identities canonicalize expected_path ports identities
      else case se_usb port of
        None \<Rightarrow> port_identities canonicalize expected_path ports identities
      | Some usb \<Rightarrow>
          (case us_serial_number usb of
             Some (c # cs) \<Rightarrow> port_identities canonicalize expected_path ports (identities @
               [''usb:'' @ hex_word_text (us_vid usb) @ '':'' @ hex_word_text (us_pid usb) @ '':'' @ c # cs])
           | _ \<Rightarrow> Inl (malformed ''bound USB instrument has no serial identity'')))"

definition not_commissioned_usb :: backend_error where
  "not_commissioned_usb =
     malformed ''bound serial path does not resolve to the unique commissioned USB identity''"

definition verify_serial_usb ::
  "env \<Rightarrow> host \<Rightarrow> serial_binding \<Rightarrow> artifact_digest \<Rightarrow> backend_error + artifact_digest" where
  "verify_serial_usb E H serial configured =
     rbind (map_err transport (ho_canonicalize H (sb_path serial))) (\<lambda>expected_path.
     rbind (map_err transport (ho_ports H)) (\<lambda>ports.
     rbind (port_identities (ho_canonicalize H) expected_path ports []) (\<lambda>identities.
     case identities of
       [observed_identity] \<Rightarrow>
         if observed_identity \<noteq> sb_expected_usb_identity serial then Inl not_commissioned_usb
         else rbind (canonical_serial_usb_identity observed_identity) (\<lambda>key.
           if key_digest E key \<noteq> configured
           then Inl (malformed ''observed USB identity differs from configured physical identity'')
           else Inr (key_digest E key))
     | _ \<Rightarrow> Inl not_commissioned_usb)))"

definition verify_usb :: "backend_env \<Rightarrow> host \<Rightarrow> instrument_config \<Rightarrow> backend_error + artifact_digest" where
  "verify_usb B H config =
     rbind (configured_physical_identity (be_env B) (de_debug (be_device B)) config) (\<lambda>configured.
     case config_serial config of
       None \<Rightarrow> Inr configured
     | Some serial \<Rightarrow> verify_serial_usb (be_env B) H serial configured)"

definition video_physical_identity :: "env \<Rightarrow> string \<Rightarrow> backend_error + artifact_digest" where
  "video_physical_identity E value = rbind (canonical_video_usb_identity value) (\<lambda>key. Inr (key_digest E key))"

definition configuration_digest :: "backend_env \<Rightarrow> device_binding \<Rightarrow> backend_error + artifact_digest" where
  "configuration_digest B binding =
     rbind (map_err malformed (be_binding_bytes B binding)) (\<lambda>bytes. Inr (de_sha256 (be_device B) bytes))"

definition bpio2_identity :: "discovery \<Rightarrow> json_object" where
  "bpio2_identity d = object
     [(''protocol'', JArray [json_word (di_flatbuffer_major d), json_word (di_flatbuffer_minor d)]),
      (''hardware'', JArray [json_word (di_hardware_major d), json_word (di_hardware_minor d)]),
      (''firmware'', JArray [json_word (di_firmware_major d), json_word (di_firmware_minor d)]),
      (''firmware_git_hash'', json_option JString (di_firmware_git_hash d)),
      (''firmware_date'', json_option JString (di_firmware_date d)),
      (''modes_available'', JArray (map JString (di_modes_available d)))]"

definition bpio2_status :: "discovery \<Rightarrow> json_object" where
  "bpio2_status d = object
     [(''mode'', json_option JString (di_mode_current d)),
      (''max_packet_bytes'', json_word (di_max_packet_bytes d)),
      (''max_write_bytes'', json_word (di_max_write_bytes d)),
      (''max_read_bytes'', json_word (di_max_read_bytes d)),
      (''psu_enabled'', JBool (di_psu_enabled d)),
      (''psu_set_millivolts'', json_word (di_psu_set_millivolts d)),
      (''psu_set_milliamps'', json_word (di_psu_set_milliamps d)),
      (''psu_measured_millivolts'', json_word (di_psu_measured_millivolts d)),
      (''psu_measured_milliamps'', json_word (di_psu_measured_milliamps d)),
      (''adc_millivolts'', JArray (map json_word (di_adc_millivolts d))),
      (''io_direction'', json_word (di_io_direction d)),
      (''io_value'', json_word (di_io_value d))]"

record sighting =
  sg_identity :: json_object
  sg_status :: json_object
  sg_physical_identity :: artifact_digest

definition bpio2_sighting :: "device_env \<Rightarrow> artifact_digest \<Rightarrow> (adapter, backend_error, sighting) action" where
  "bpio2_sighting D serial_identity =
     abind (via D (identify (de_codec D))) (\<lambda>d.
       if di_flatbuffer_major d \<noteq> 2 then afail (malformed ''unsupported BPIO2 protocol major'')
       else areturn \<lparr>sg_identity = bpio2_identity d, sg_status = bpio2_status d,
              sg_physical_identity = serial_identity\<rparr>)"

definition numato_sighting :: "device_env \<Rightarrow> artifact_digest \<Rightarrow> (wire, backend_error, sighting) action" where
  "numato_sighting D serial_identity =
     abind (amap_err (device_failure D) (numato_identify D)) (\<lambda>identity.
       areturn \<lparr>sg_identity = object [(''firmware'', JString (ni_firmware identity)),
                (''module_id'', JString (ni_module_id identity))],
              sg_status = object [(''physical_contacts_observed'', JBool False)],
              sg_physical_identity = serial_identity\<rparr>)"

definition simulator_sighting :: "artifact_digest \<Rightarrow> simulator \<Rightarrow> sighting" where
  "simulator_sighting configured s =
     \<lparr>sg_identity = object [(''implementation'', JString ''cheirismos-simulator-v1''),
        (''flash_bytes'', json_nat (ob_flash_bytes (sim_observe s)))],
      sg_status = json_simulator (sim_observe s), sg_physical_identity = configured\<rparr>"

definition video_sighting :: "device_env \<Rightarrow> host \<Rightarrow> video_config \<Rightarrow> backend_error + sighting" where
  "video_sighting D H c =
     rbind (map_err (device_failure D) (inspect_identity (ho_video H) c)) (\<lambda>usb_identity.
     rbind (video_physical_identity (de_env D) usb_identity) (\<lambda>observed.
       Inr \<lparr>sg_identity = object [(''usb_identity'', JString usb_identity)],
            sg_status = object [(''capture'', JString ''uvc_v4l2''), (''interpretation'', JNull)],
            sg_physical_identity = observed\<rparr>))"

definition sight ::
  "backend_env \<Rightarrow> host \<Rightarrow> instrument_id \<Rightarrow> artifact_digest \<Rightarrow> artifact_digest \<Rightarrow> sighting backend" where
  "sight B H i configured serial_identity w = (case bw_connections w i of
     None \<Rightarrow> afail (malformed ''missing device session'') w
   | Some (ConnectedBpio2 a) \<Rightarrow> on_bpio2 i a (bpio2_sighting (be_device B) serial_identity) w
   | Some (ConnectedNumato line) \<Rightarrow> on_numato i line (numato_sighting (be_device B) serial_identity) w
   | Some (ConnectedSimulator key s) \<Rightarrow> areturn (simulator_sighting configured s) w
   | Some (ConnectedVideo c) \<Rightarrow> alift (video_sighting (be_device B) H c) w)"

definition sighted_body ::
  "artifact_digest \<Rightarrow> artifact_digest \<Rightarrow> artifact_digest \<Rightarrow> sighting \<Rightarrow> json_object" where
  "sighted_body fingerprint configured configuration seen = object
     [(''instrument_fingerprint'', json_digest fingerprint),
      (''physical_identity'', json_digest configured),
      (''configuration_digest'', json_digest configuration),
      (''observed_identity'', JObject (sg_identity seen)),
      (''status'', JObject (sg_status seen)),
      (''hardware_qualification'', JString ''separate_commissioning_evidence_required'')]"

definition observe ::
  "backend_env \<Rightarrow> occasion \<Rightarrow> instrument_id \<Rightarrow> device_binding \<Rightarrow> observation backend" where
  "observe B oc i binding =
     (let H = oc_host oc Observing in
      abind (alift (configured_physical_identity (be_env B) (de_debug (be_device B)) (db_config binding)))
        (\<lambda>configured.
      abind (alift (verify_usb B H (db_config binding))) (\<lambda>serial_identity.
      abind (alift (configuration_digest B binding)) (\<lambda>configuration.
      abind (sight B H i configured serial_identity) (\<lambda>seen.
      if sg_physical_identity seen \<noteq> configured
      then afail (malformed
        ''observed instrument physical identity differs from configured stable identity'')
      else
      abind (alift (map_err malformed (be_value_bytes B (JObject (object
              [(''configuration'', json_digest configuration),
               (''observed_identity'', JObject (sg_identity seen))]))))) (\<lambda>bytes.
      let fingerprint = de_sha256 (be_device B) bytes in
        areturn \<lparr>captured_at = env_timestamp_text (be_env B) (oc_now oc Identified),
          source_fingerprint = fingerprint,
          obs_body = JObject (sighted_body fingerprint configured configuration seen),
          obs_evidence = None\<rparr>))))))"

section \<open>Sessions\<close>

definition fresh_line :: "exchange list \<Rightarrow> wire" where
  "fresh_line script = \<lparr>wr_sent = [], wr_pending = [], wr_script = script\<rparr>"

definition open_serial :: "backend_env \<Rightarrow> host \<Rightarrow> serial_binding \<Rightarrow> wire backend" where
  "open_serial B H serial =
     alift (map_err (device_failure (be_device B)) (rbind (ho_open_serial H serial) (\<lambda>script. Inr (fresh_line script))))"

definition open_simulator :: "backend_env \<Rightarrow> host \<Rightarrow> artifact_digest \<Rightarrow> nat \<Rightarrow> simulator backend" where
  "open_simulator B H key flash_bytes w =
     (case simulator_open (ho_prepare H) (ho_store_write H) (bw_stores w key) flash_bytes of
        (r, stored) \<Rightarrow> (map_err (Failed \<circ> device_failure (be_device B)) r,
                       w\<lparr>bw_stores := (bw_stores w)(key := stored)\<rparr>))"

definition open_device :: "backend_env \<Rightarrow> host \<Rightarrow> instrument_config \<Rightarrow> connected backend" where
  "open_device B H config = (case config of
     Bpio2Instrument c \<Rightarrow>
       abind (open_serial B H (bc_serial c)) (\<lambda>line. areturn (ConnectedBpio2 (adapter_new line)))
   | NumatoInstrument c \<Rightarrow> abind (open_serial B H (nc_serial c)) (\<lambda>line. areturn (ConnectedNumato line))
   | SimulatorInstrument c \<Rightarrow>
       abind (alift (configured_physical_identity (be_env B) (de_debug (be_device B)) config)) (\<lambda>key.
       abind (open_simulator B H key (sc_flash_bytes c)) (\<lambda>s. areturn (ConnectedSimulator key s)))
   | VideoInstrument c \<Rightarrow>
       abind (alift (map_err (device_failure (be_device B)) (video_validate_config c))) (\<lambda>_.
         areturn (ConnectedVideo c)))"

definition connect :: "backend_env \<Rightarrow> host \<Rightarrow> instrument_id \<Rightarrow> device_binding \<Rightarrow> unit backend" where
  "connect B H i binding w =
     abind (alift (verify_usb B H (db_config binding))) (\<lambda>_.
       if bw_connections w i \<noteq> None then areturn ()
       else abind (open_device B H (db_config binding)) (\<lambda>c w'. (Inr (), put_connection i (Some c) w'))) w"

text \<open>Connecting, and observing what is connected.\<close>

definition identified :: "backend_env \<Rightarrow> occasion \<Rightarrow> instrument_id \<Rightarrow> device_binding \<Rightarrow> observation backend" where
  "identified B oc i binding =
     abind (connect B (oc_host oc Connecting) i binding) (\<lambda>_ w.
       if bw_connections w i = None then afail (malformed ''missing device session'') w
       else observe B oc i binding w)"

definition publish_bytes ::
  "backend_env \<Rightarrow> evidence_source \<Rightarrow> string + u8 list \<Rightarrow> artifact_digest backend" where
  "publish_bytes B source encoded =
     abind (alift (map_err malformed encoded)) (\<lambda>bytes.
       on_evidence B (publish (be_env B) (be_store B) bytes source))"

definition inspect :: "backend_env \<Rightarrow> occasion \<Rightarrow> instrument_id \<Rightarrow> observation backend" where
  "inspect B oc i =
     abind (alift (session B i)) (\<lambda>binding.
     abind (alift (map_err transport (oc_lock oc))) (\<lambda>_ w.
     case identified B oc i binding w of
       (Inr obs, w') \<Rightarrow>
         abind (publish_bytes B (FromCommissioning i) (be_observation_bytes B obs)) (\<lambda>evidence.
           areturn (obs\<lparr>obs_evidence := Some evidence\<rparr>)) w'
     | (Inl (Failed e), w') \<Rightarrow> (Inl (Failed e), discard i w')
     | (Inl Dropped, w') \<Rightarrow>
         (Inl (Failed (BackendTimeout ''instrument discovery deadline'')), discard i w')))"

section \<open>Publication\<close>

definition publish_content ::
  "backend_env \<Rightarrow> dispatch_request \<Rightarrow> u8 list option \<Rightarrow> json_object \<Rightarrow> json_object backend" where
  "publish_content B request content body = (case content of
     None \<Rightarrow> areturn body
   | Some bytes \<Rightarrow>
       if MAX_EVIDENCE_BYTES < length bytes
       then afail (malformed ''observation exceeds evidence size limit'')
       else abind (publish_bytes B (FromAttempt (dr_attempt request)) (Inr bytes)) (\<lambda>digest.
         areturn (merge body [(''artifact'', json_digest digest), (''artifact_bytes'', json_nat (length bytes))])))"

definition envelope_for :: "dispatch_request \<Rightarrow> observation \<Rightarrow> evidence_envelope" where
  "envelope_for request obs = \<lparr>ee_attempt = dr_attempt request,
     ee_challenge = dr_evidence_challenge request, ee_phase = dr_evidence_phase request,
     ee_observation = obs\<rparr>"

definition backend_publish ::
  "backend_env \<Rightarrow> occasion \<Rightarrow> dispatch_request \<Rightarrow> artifact_digest \<Rightarrow> json_object \<Rightarrow> u8 list option
     \<Rightarrow> observation backend" where
  "backend_publish B oc request fingerprint body content =
     abind (publish_content B request content body) (\<lambda>described.
     let obs = \<lparr>captured_at = env_timestamp_text (be_env B) (oc_now oc Publishing),
           source_fingerprint = fingerprint,
           obs_body = JObject (merge described
             [(''instrument_fingerprint'', json_digest fingerprint),
              (''target_identity_basis'', JString ''operator_commissioned_fixture_binding'')]),
           obs_evidence = None\<rparr> in
     abind (publish_bytes B (FromAttempt (dr_attempt request)) (be_envelope_bytes B (envelope_for request obs)))
       (\<lambda>evidence. areturn (obs\<lparr>obs_evidence := Some evidence\<rparr>)))"

section \<open>Running an operation\<close>

abbreviation NANOS :: nat where "NANOS \<equiv> 1000000"

definition capture_frame ::
  "backend_env \<Rightarrow> occasion \<Rightarrow> nat \<Rightarrow> bool \<Rightarrow> video_config \<Rightarrow> backend_error + result_data" where
  "capture_frame B oc deadline reconcile c =
     rbind (if deadline < oc_elapsed oc Capturing
            then Inl (BackendTimeout ''video capture deadline exhausted'')
            else Inr ((deadline - oc_elapsed oc Capturing) div NANOS)) (\<lambda>left.
     rbind (if left < 2 ^ 64 then Inr (of_nat left) else Inl (malformed conversion_text)) (\<lambda>milliseconds.
     rbind (map_err (device_failure (be_device B))
         (capture_video (env_sha256_hex (be_env B)) (ho_video (oc_host oc Operating))
           (c\<lparr>vc_frame_timeout_milliseconds := min (vc_frame_timeout_milliseconds c) milliseconds\<rparr>))) (\<lambda>frame.
       Inr (result_bytes (vf_png frame) (object
         [(''media_type'', JString ''image/png''), (''usb_identity'', JString (vf_usb_identity frame)),
          (''interpretation'', JNull), (''reconciliation'', JBool reconcile)])))))"

fun json_members :: "json \<Rightarrow> json_object" where
  "json_members (JObject members) = members"
| "json_members _ = []"

definition video_operation ::
  "backend_env \<Rightarrow> occasion \<Rightarrow> instrument_config \<Rightarrow> operation \<Rightarrow> bool \<Rightarrow> nat \<Rightarrow> observation
     \<Rightarrow> backend_error + result_data" where
  "video_operation B oc config oper reconcile deadline observed = (case config of
     VideoInstrument c \<Rightarrow>
       (case oper of
          InstrumentStatus _ _ \<Rightarrow> Inr (result_observation (json_members (obs_body observed)))
        | VideoCapture _ _ \<Rightarrow> capture_frame B oc deadline reconcile c
        | _ \<Rightarrow> Inl (malformed ''operation is unsupported by video capture instrument''))
   | _ \<Rightarrow> Inl (malformed ''video configuration mismatch''))"

definition operate ::
  "backend_env \<Rightarrow> occasion \<Rightarrow> dispatch_request \<Rightarrow> resolver \<Rightarrow> bool \<Rightarrow> instrument_id \<Rightarrow> device_binding \<Rightarrow> nat
     \<Rightarrow> observation \<Rightarrow> result_data backend" where
  "operate B oc request artifacts reconcile i binding deadline observed w =
     (let oper = dr_operation request; D = be_device B in
      case bw_connections w i of
        None \<Rightarrow> afail (malformed ''missing device session'') w
      | Some (ConnectedBpio2 a) \<Rightarrow>
          on_bpio2 i a (bus_execute D binding oper artifacts reconcile (dr_configure_instrument request)) w
      | Some (ConnectedNumato line) \<Rightarrow>
          on_numato i line (relay_operation D (db_config binding) oper reconcile) w
      | Some (ConnectedSimulator key s) \<Rightarrow>
          on_simulator i key s
            (simulated_execute D (ho_store_write (oc_host oc Operating)) oper artifacts reconcile) w
      | Some (ConnectedVideo c) \<Rightarrow>
          alift (video_operation B oc (db_config binding) oper reconcile deadline observed) w)"

text \<open>What the access of a device ends with when nothing fails.\<close>

datatype access = AccessRejected string | Accessed observation result_data

definition text_member :: "string \<Rightarrow> json \<Rightarrow> string option" where
  "text_member k v = (case map_of (json_members v) k of Some (JString t) \<Rightarrow> Some t | _ \<Rightarrow> None)"

definition expired_at :: "timestamp option \<Rightarrow> timestamp \<Rightarrow> bool" where
  "expired_at limit t = (case limit of None \<Rightarrow> False | Some expires \<Rightarrow> expires \<le> t)"

text \<open>Why an identified instrument is not the reviewed one.\<close>

definition identity_rejection ::
  "occasion \<Rightarrow> dispatch_request \<Rightarrow> instrument_id \<Rightarrow> observation \<Rightarrow> string option" where
  "identity_rejection oc request i observed =
     (if map_of (dr_expected_instrument_fingerprints request) i \<noteq> Some (source_fingerprint observed)
      then Some ''observed instrument identity/configuration differs from reviewed binding''
      else if expired_at (dr_interlocks_valid_until request) (oc_now oc Verified)
      then Some ''live interlock expired during instrument identity verification''
      else if text_member ''physical_identity'' (obs_body observed)
                \<noteq> map_option digest_str (map_of (dr_expected_instrument_physical_identities request) i)
      then Some ''physical instrument differs from the commissioned lease identity''
      else None)"

definition device_access ::
  "backend_env \<Rightarrow> occasion \<Rightarrow> dispatch_request \<Rightarrow> resolver \<Rightarrow> bool \<Rightarrow> instrument_id \<Rightarrow> device_binding \<Rightarrow> nat
     \<Rightarrow> access backend" where
  "device_access B oc request artifacts reconcile i binding deadline =
     abind (identified B oc i binding) (\<lambda>observed.
     case identity_rejection oc request i observed of
       Some reason \<Rightarrow> areturn (AccessRejected reason)
     | None \<Rightarrow>
         abind (operate B oc request artifacts reconcile i binding deadline observed) (\<lambda>result.
           areturn (Accessed observed result)))"

fun access_receipt :: "bool \<Rightarrow> string option \<Rightarrow> observation \<Rightarrow> operation_receipt" where
  "access_receipt reconcile None obs = ReceiptCompleted obs"
| "access_receipt reconcile (Some reason) obs =
     (if reconcile then ReceiptUnknown reason (Some obs) else ReceiptPartial obs reason)"

definition settle_access ::
  "backend_env \<Rightarrow> occasion \<Rightarrow> dispatch_request \<Rightarrow> bool \<Rightarrow> access \<Rightarrow> operation_receipt backend" where
  "settle_access B oc request reconcile access = (case access of
     AccessRejected reason \<Rightarrow> areturn (ReceiptRejected reason)
   | Accessed observed result \<Rightarrow>
       abind (backend_publish B oc request (source_fingerprint observed) (rd_body result) (rd_bytes result))
         (\<lambda>obs. areturn (access_receipt reconcile (rd_partial result) obs)))"

text \<open>A failure discards the session.\<close>

definition discarding :: "instrument_id \<Rightarrow> 'a backend \<Rightarrow> 'a backend" where
  "discarding i m w = (case m w of
     (Inl (Failed e), w') \<Rightarrow> (Inl (Failed e), discard i w') | outcome \<Rightarrow> outcome)"

text \<open>The access under the timeout, which drops it at an await point, and what follows.\<close>

definition timed_access ::
  "backend_env \<Rightarrow> occasion \<Rightarrow> dispatch_request \<Rightarrow> resolver \<Rightarrow> bool \<Rightarrow> instrument_id \<Rightarrow> device_binding \<Rightarrow> nat
     \<Rightarrow> operation_receipt backend" where
  "timed_access B oc request artifacts reconcile i binding deadline w =
     (case device_access B oc request artifacts reconcile i binding deadline w of
        (Inr access, w') \<Rightarrow> discarding i (settle_access B oc request reconcile access) w'
      | (Inl (Failed e), w') \<Rightarrow> (Inl (Failed e), discard i w')
      | (Inl Dropped, w') \<Rightarrow> (Inl (Failed (BackendTimeout
          ''operation deadline expired; session discarded, effect may be incomplete'')), discard i w'))"

definition run_wait ::
  "backend_env \<Rightarrow> occasion \<Rightarrow> dispatch_request \<Rightarrow> bool \<Rightarrow> u64 \<Rightarrow> operation_receipt backend" where
  "run_wait B oc request reconcile milliseconds =
     (if dr_deadline_milliseconds request < milliseconds
      then afail (malformed ''wait exceeds operation deadline'')
      else abind (backend_publish B oc request (text_digest (be_env B) ''cheirismos:monotonic-clock:v1'')
          (object [(''source'', JString ''supervisor_clock''),
             (''elapsed_milliseconds'', json_nat (oc_elapsed oc Publishing div NANOS)),
             (''reconciliation'', JBool reconcile)]) None) (\<lambda>obs.
        areturn (if reconcile
          then ReceiptUnknown ''current clock observation cannot prove the interrupted wait interval'' (Some obs)
          else ReceiptCompleted obs)))"

text \<open>The time left before the interlocks expire: a positive number of milliseconds.\<close>

definition interlock_left :: "env \<Rightarrow> timestamp \<Rightarrow> timestamp \<Rightarrow> u64 option" where
  "interlock_left E t expires =
     (let left = env_as_millisecond E expires - env_as_millisecond E t in
      if 0 < left \<and> left < 2 ^ 63 then Some (of_int left) else None)"

definition access_deadline :: "backend_env \<Rightarrow> occasion \<Rightarrow> dispatch_request \<Rightarrow> nat option" where
  "access_deadline B oc request =
     (let deadline = unat (dr_deadline_milliseconds request) * NANOS in
      case dr_interlocks_valid_until request of
        None \<Rightarrow> Some deadline
      | Some expires \<Rightarrow>
          map_option (\<lambda>left. min deadline (oc_elapsed oc Locked + unat left * NANOS))
            (interlock_left (be_env B) (oc_now oc Locked) expires))"

definition run_session ::
  "backend_env \<Rightarrow> occasion \<Rightarrow> dispatch_request \<Rightarrow> resolver \<Rightarrow> bool \<Rightarrow> instrument_id \<Rightarrow> device_binding
     \<Rightarrow> operation_receipt backend" where
  "run_session B oc request artifacts reconcile i binding =
     (if db_target_fingerprint binding \<noteq> dr_expected_target_fingerprint request
         \<or> db_fixture_revision binding \<noteq> dr_expected_fixture_revision request
      then areturn (ReceiptRejected ''fixture or target binding changed since review'')
      else
      abind (alift (configuration_digest B binding)) (\<lambda>configuration.
      if map_of (dr_expected_instrument_configurations request) i \<noteq> Some configuration
      then areturn (ReceiptRejected
        ''instrument configuration differs from the reviewed configuration digest'')
      else
      abind (alift (map_err transport (oc_lock oc))) (\<lambda>_.
      case access_deadline B oc request of
        None \<Rightarrow> areturn (ReceiptRejected ''live interlock expired before device access'')
      | Some deadline \<Rightarrow>
          if deadline < oc_elapsed oc Begun
          then afail (BackendTimeout ''device session wait exhausted deadline'')
          else timed_access B oc request artifacts reconcile i binding deadline)))"

definition run ::
  "backend_env \<Rightarrow> occasion \<Rightarrow> dispatch_request \<Rightarrow> resolver \<Rightarrow> bool \<Rightarrow> operation_receipt backend" where
  "run B oc request artifacts reconcile =
     (if dr_deadline_milliseconds request = 0 then afail (malformed ''zero operation deadline'')
      else case dr_operation request of
        Wait _ milliseconds \<Rightarrow> run_wait B oc request reconcile milliseconds
      | oper \<Rightarrow>
          abind (alift (ok_or (op_instrument oper) (malformed ''operation has no instrument''))) (\<lambda>i.
          abind (alift (session B i)) (\<lambda>binding.
            run_session B oc request artifacts reconcile i binding)))"

definition backend_preflight ::
  "backend_env \<Rightarrow> operation \<Rightarrow> commissioned_profile \<Rightarrow> resolver \<Rightarrow> backend_error + unit" where
  "backend_preflight B oper profile artifacts = (case oper of
     Wait _ milliseconds \<Rightarrow> malformed_if (milliseconds = 0) ''wait duration must be positive''
   | _ \<Rightarrow>
       rbind (ok_or (op_instrument oper) (malformed ''operation has no instrument'')) (\<lambda>i.
       rbind (session B i) (\<lambda>binding.
       rbind (ok_or (profile_instrument profile i)
                (malformed ''instrument is absent from commissioned profile'')) (\<lambda>expected.
       rbind (if db_target_fingerprint binding \<noteq> cp_target_fingerprint profile
                 \<or> db_fixture_revision binding \<noteq> cp_fixture_revision profile then Inr True
              else rbind (configuration_digest B binding) (\<lambda>configuration.
                if configuration \<noteq> ib_configuration_digest expected then Inr True
                else rbind (configured_physical_identity (be_env B) (de_debug (be_device B)) (db_config binding))
                  (\<lambda>identity. Inr (identity \<noteq> ib_physical_identity expected)))) (\<lambda>differs.
       if differs
       then Inl (malformed ''configured target, fixture, or instrument binding differs from the commissioned profile'')
       else preflight_validate (de_debug (be_device B)) binding oper artifacts)))))"

end
