(* ===== verification/Evidence_Durability.thy ===== *)
theory Evidence_Durability
  imports Evidence
begin

text \<open>
  What publishing evidence guarantees: whatever a call to the store meets, nothing that was
  on disk is lost or changed, and once publishing has returned a digest, the artifact and the
  marker of its source are on disk, through every later call and every crash.
\<close>

section \<open>Nothing present is touched\<close>

text \<open>Outside the paths \<open>T\<close>, what is present stays, and what is on disk stays on disk.\<close>

definition kept :: "path set \<Rightarrow> file_system \<Rightarrow> file_system \<Rightarrow> bool" where
  "kept T s s' \<longleftrightarrow> (\<forall>p. p \<notin> T \<longrightarrow> fs_nodes s p \<noteq> None \<longrightarrow>
     fs_nodes s' p = fs_nodes s p \<and> (fs_synced s p \<longrightarrow> fs_synced s' p) \<and> (fs_linked s p \<longrightarrow> fs_linked s' p))"

definition keeps :: "path set \<Rightarrow> (file_system, 'e, 'a) action \<Rightarrow> bool" where
  "keeps T m \<longleftrightarrow> (\<forall>s. kept T s (snd (m s)))"

named_theorems keeps_intros

lemma kept_refl [simp]: "kept T s s"
  by (simp add: kept_def)

lemma kept_trans: "kept T s s' \<Longrightarrow> kept T s' s'' \<Longrightarrow> kept T s s''"
  unfolding kept_def by metis

lemma keepsD: "keeps T m \<Longrightarrow> m s = (r, s') \<Longrightarrow> kept T s s'"
  unfolding keeps_def by (metis snd_conv)

lemma keeps_pure [keeps_intros]:
  "keeps T (areturn x)" "keeps T (afail e)" "keeps T (alift r)"
  by (simp_all add: keeps_def areturn_def afail_def alift_def)

lemma keepsI: "(\<And>s r s'. m s = (r, s') \<Longrightarrow> kept T s s') \<Longrightarrow> keeps T m"
  unfolding keeps_def by (metis prod.collapse)

lemma keeps_abind [keeps_intros]:
  assumes "keeps T m" "\<And>x. keeps T (f x)"
  shows "keeps T (abind m f)"
proof (rule keepsI)
  fix s r s' assume run: "abind m f s = (r, s')"
  show "kept T s s'"
  proof (cases "m s")
    case (Pair r1 s1)
    then have "kept T s s1" by (rule keepsD [OF assms(1)])
    with run Pair show ?thesis
      by (cases r1) (auto simp: abind_def intro: kept_trans keepsD [OF assms(2)])
  qed
qed

lemma keeps_amap_err [keeps_intros]: "keeps T m \<Longrightarrow> keeps T (amap_err g m)"
  by (rule keepsI) (auto simp: amap_err_def split: prod.splits sum.splits stop.splits dest: keepsD)

lemma keeps_atry [keeps_intros]: "keeps T m \<Longrightarrow> keeps T (atry m)"
  by (rule keepsI) (auto simp: atry_def split: prod.splits sum.splits stop.splits dest: keepsD)

lemma keeps_if [keeps_intros]: "keeps T m \<Longrightarrow> keeps T m' \<Longrightarrow> keeps T (if b then m else m')"
  by simp

lemma keeps_option [keeps_intros]:
  "keeps T m \<Longrightarrow> (\<And>x. keeps T (f x)) \<Longrightarrow> keeps T (case r of None \<Rightarrow> m | Some x \<Rightarrow> f x)"
  by (cases r) auto

lemma keeps_prod [keeps_intros]:
  "(\<And>x y. keeps T (f x y)) \<Longrightarrow> keeps T (case r of (x, y) \<Rightarrow> f x y)"
  by (cases r) auto

lemma keeps_syscall:
  assumes "\<And>s. kept T s (snd (effect s))" "\<And>n s. kept T s (part n s)"
  shows "keeps T (syscall_with part effect)"
proof (rule keepsI)
  fix s r s' assume run: "syscall_with part effect s = (r, s')"
  show "kept T s s'"
  proof (cases "fs_script s")
    case (Cons out script)
    let ?s = "s\<lparr>fs_script := script\<rparr>"
    have "s' = snd (effect ?s) \<or> (\<exists>n. s' = part n ?s)"
      using run Cons by (cases out) (auto simp: syscall_with_def split: prod.splits)
    then have "kept T ?s s'" using assms by auto
    then show ?thesis by (simp add: kept_def)
  qed (use run in \<open>simp add: syscall_with_def\<close>)
qed

lemma keeps_reading [keeps_intros]:
  "keeps T (sys_open_directory parent name)" "keeps T (sys_open_file p writable)"
  "keeps T (sys_is_file p)" "keeps T (sys_contents p)" "keeps T (sys_length p)"
  by (auto intro!: keeps_syscall simp: sys_open_directory_def sys_open_file_def sys_is_file_def
      sys_contents_def sys_length_def)

lemma keeps_metadata [keeps_intros]: "keeps T (sys_chmod p mode)" "keeps T (sys_sync p)"
  by (auto intro!: keeps_syscall simp: sys_chmod_def sys_sync_def kept_def)

lemma keeps_creating [keeps_intros]:
  "keeps T (sys_make_directory parent name mode)" "keeps T (sys_create p mode)" "keeps T (sys_link p q)"
  by (auto intro!: keeps_syscall simp: sys_make_directory_def sys_create_def sys_link_def kept_def
      new_entry_def put_node_def split: option.split)

lemma keeps_changing [keeps_intros]:
  "p \<in> T \<Longrightarrow> keeps T (sys_write p bytes)" "p \<in> T \<Longrightarrow> keeps T (sys_unlink p)"
  by (auto intro!: keeps_syscall simp: sys_write_def sys_unlink_def kept_def unsynced_contents_def
      put_node_def split: option.split fs_node.split)

section \<open>Nothing present is touched by the store\<close>

lemma keeps_sum [keeps_intros]:
  "(\<And>e. keeps T (f e)) \<Longrightarrow> (\<And>x. keeps T (g x)) \<Longrightarrow> keeps T (case r of Inl e \<Rightarrow> f e | Inr x \<Rightarrow> g x)"
  by (cases r) auto

lemma keeps_errno [keeps_intros]:
  assumes "keeps T a" "keeps T b" "keeps T c" "keeps T d" "keeps T e" "\<And>x. keeps T (f x)"
  shows "keeps T (case r of NoEntry \<Rightarrow> a | AlreadyExists \<Rightarrow> b | IsDirectory \<Rightarrow> c | SymlinkLoop \<Rightarrow> d
    | NotDirectory \<Rightarrow> e | OtherErrno x \<Rightarrow> f x)"
  using assms by (cases r) auto

lemma keeps_error [keeps_intros]:
  assumes "\<And>c. keeps T (a c)" "\<And>d. keeps T (b d)" "\<And>p. keeps T (c p)" "\<And>p. keeps T (d p)"
  shows "keeps T (case r of EvidenceIo x \<Rightarrow> a x | EvidenceDigestMismatch x \<Rightarrow> b x | InvalidRoot x \<Rightarrow> c x
    | InvalidEntry x \<Rightarrow> d x)"
  using assms by (cases r) auto

lemma keeps_cause [keeps_intros]:
  "(\<And>e. keeps T (a e)) \<Longrightarrow> (\<And>x. keeps T (b x)) \<Longrightarrow> keeps T (case r of Os e \<Rightarrow> a e | NotFound x \<Rightarrow> b x)"
  by (cases r) auto

lemma keeps_directories [keeps_intros]:
  "keeps T (sync_directory p)" "keeps T (reach_directory parent name)"
  "keeps T (open_directory parent name)"
  unfolding sync_directory_def reach_directory_def create_directory_def open_directory_def
  by (intro keeps_intros)+

lemma keeps_open_or_create [keeps_intros]:
  "keeps T (open_or_create_directory parent name secure)" "keeps T (ensure_store_directory parent name)"
  unfolding open_or_create_directory_def ensure_store_directory_def
  by (intro keeps_intros)+

lemma keeps_open_store_loop [keeps_intros]: "keeps T (open_store_loop directory components)"
  by (induction components arbitrary: directory) (auto intro!: keeps_intros)

lemma keeps_descend [keeps_intros]: "keeps T (descend create directory components)"
  by (induction components arbitrary: directory) (auto intro!: keeps_intros)

lemma keeps_locations [keeps_intros]:
  "keeps T (artifact_location S digest create)" "keeps T (source_location S digest source create)"
  unfolding artifact_location_def source_location_def by (intro keeps_intros)+

lemma keeps_files [keeps_intros]:
  "keeps T (open_regular_file p writable)" "keeps T (secure_regular_file p)"
  "keeps T (verified_contents E directory p digest durable)"
  unfolding open_regular_file_def secure_regular_file_def validate_regular_file_def verified_contents_def
  by (intro keeps_intros)+

lemma keeps_reads [keeps_intros]:
  "keeps T (read_artifact_if_present E directory p digest durable)"
  "keeps T (found_artifact reason found)" "keeps T (check_marker p writable)"
  unfolding read_artifact_if_present_def found_artifact_def check_marker_def
  by (intro keeps_intros)+

lemma keeps_store_reads [keeps_intros]:
  "keeps T (read_artifact E S digest)" "keeps T (verify_source E S digest source)"
  "keeps T (store_open current_dir process root)"
  unfolding read_artifact_def verify_source_def store_open_def open_store_root_def
  by (intro keeps_intros)+

lemma keeps_record_source [keeps_intros]: "keeps T (record_source S digest source)"
  unfolding record_source_def record_marker_def create_marker_def by (intro keeps_intros)

lemma keeps_remove_temporary [keeps_intros]:
  "p \<in> T \<Longrightarrow> keeps T (unlinked p)" "p \<in> T \<Longrightarrow> keeps T (remove_temporary directory p)"
  unfolding remove_temporary_def unlinked_def by (intro keeps_intros; assumption?)+

lemma keeps_drop_temporary [keeps_intros]:
  assumes "keeps T m" "p \<in> T"
  shows "keeps T (drop_temporary directory p m)"
proof (rule keepsI)
  fix s r s' assume run: "drop_temporary directory p m s = (r, s')"
  obtain r1 s1 where first: "m s = (r1, s1)" by fastforce
  obtain r2 s2 where second: "remove_temporary directory p s1 = (r2, s2)" by fastforce
  have "kept T s s1" "kept T s1 s2"
    using keepsD [OF assms(1) first] keepsD [OF keeps_remove_temporary(2) second] assms(2) by auto
  with run first second show "kept T s s'"
    by (auto simp: drop_temporary_def split: sum.splits stop.splits intro: kept_trans)
qed

lemma keeps_publish_new: "temporary \<in> T \<Longrightarrow> keeps T (publish_new E digest directory p temporary bytes)"
  unfolding publish_new_def link_artifact_def by (intro keeps_intros; assumption?)

text \<open>A temporary file is always a new one.\<close>

lemma create_temporary_new:
  "create_temporary S directory digest s = (r, s') \<Longrightarrow> kept {} s s'
     \<and> (case r of Inr p \<Rightarrow> fs_nodes s p = None \<and> (\<exists>n. p = directory @ [temporary_name S digest n])
          \<and> fs_nodes s' p = Some (RegularFile []) | _ \<Rightarrow> True)"
proof (induction S directory digest s rule: create_temporary.induct)
  case (1 S directory digest s)
  obtain r1 s1 where first: "try_temporary S directory digest s = (r1, s1)" by fastforce
  let ?p = "directory @ [temporary_name S digest (fs_sequence s)]"
  have kept: "kept {} s s1"
  proof -
    have "kept {} (s\<lparr>fs_sequence := fs_sequence s + 1\<rparr>) s1"
      using first keepsD [OF keeps_atry [OF keeps_creating(2)]] by (auto simp: try_temporary_def Let_def)
    then show ?thesis by (simp add: kept_def)
  qed
  have new: "fs_nodes s ?p = None" "fs_nodes s1 ?p = Some (RegularFile [])" "q = ?p" if "r1 = Inr (Inr q)" for q
    using first that
    by (auto simp: try_temporary_def atry_def sys_create_def syscall_with_def new_entry_def put_node_def Let_def
        split: list.splits call_outcome.splits option.splits)
  show ?case
  proof (cases "r1 = Inr (Inl AlreadyExists)")
    case True
    with 1(2) first have "create_temporary S directory digest s1 = (r, s')"
      by (subst (asm) create_temporary.simps) simp
    note later = 1(1) [OF first [symmetric, unfolded True] refl refl refl this]
    have "fs_nodes s p = None" if "fs_nodes s1 p = None" for p
      using kept that by (cases "fs_nodes s p") (auto simp: kept_def)
    with later kept show ?thesis by (auto split: sum.splits intro: kept_trans)
  next
    case False
    with 1(2) first kept new show ?thesis
      by (subst (asm) create_temporary.simps) (fastforce split: sum.splits errno.splits)
  qed
qed

lemma kept_around_new:
  assumes "kept {} s s1" "kept {t} s1 s'" "fs_nodes s t = None"
  shows "kept {} s s'"
  unfolding kept_def
proof (intro allI impI)
  fix p assume present: "fs_nodes s p \<noteq> None"
  then have "p \<noteq> t" using assms(3) by auto
  moreover have "fs_nodes s1 p = fs_nodes s p" "fs_synced s p \<longrightarrow> fs_synced s1 p" "fs_linked s p \<longrightarrow> fs_linked s1 p"
    using assms(1) present by (auto simp: kept_def)
  ultimately show "fs_nodes s' p = fs_nodes s p \<and> (fs_synced s p \<longrightarrow> fs_synced s' p) \<and> (fs_linked s p \<longrightarrow> fs_linked s' p)"
    using assms(2) present by (auto simp: kept_def)
qed

lemma keeps_new_artifact [keeps_intros]:
  "keeps {} (abind (create_temporary S directory digest) (\<lambda>temporary.
     drop_temporary directory temporary (publish_new E digest directory p temporary bytes)))"
proof (rule keepsI)
  fix s r s'
  assume run: "abind (create_temporary S directory digest) (\<lambda>temporary.
     drop_temporary directory temporary (publish_new E digest directory p temporary bytes)) s = (r, s')"
  obtain r1 s1 where first: "create_temporary S directory digest s = (r1, s1)" by fastforce
  note new = create_temporary_new [OF first]
  show "kept {} s s'"
  proof (cases r1)
    case (Inr temporary)
    then have "drop_temporary directory temporary (publish_new E digest directory p temporary bytes) s1 = (r, s')"
      using run first by (simp add: abind_def)
    moreover have "keeps {temporary} (drop_temporary directory temporary
        (publish_new E digest directory p temporary bytes))"
      by (simp add: keeps_drop_temporary keeps_publish_new)
    ultimately have "kept {temporary} s1 s'" unfolding keeps_def by (metis snd_conv)
    then show ?thesis by (rule kept_around_new [rotated]) (use new Inr in simp_all)
  qed (use run first new in \<open>simp add: abind_def\<close>)
qed

lemma keeps_publish [keeps_intros]: "keeps {} (publish E S bytes source)"
  unfolding publish_def Let_def by (intro keeps_intros)

section \<open>What is on disk\<close>

definition placed :: "file_system \<Rightarrow> path \<Rightarrow> fs_node \<Rightarrow> bool" where
  "placed s p node \<longleftrightarrow> fs_nodes s p = Some node \<and> fs_linked s p \<and> (node = Directory \<or> fs_synced s p)"

text \<open>An entry below the root of the store, with every directory on the way to it.\<close>

definition on_disk :: "path \<Rightarrow> file_system \<Rightarrow> path \<Rightarrow> fs_node \<Rightarrow> bool" where
  "on_disk root s q node \<longleftrightarrow> placed s (root @ q) node
     \<and> (\<forall>n. 0 < n \<and> n < length q \<longrightarrow> placed s (root @ take n q) Directory)"

lemma kept_placed: "kept {} s s' \<Longrightarrow> placed s p node \<Longrightarrow> placed s' p node"
  by (auto simp: kept_def placed_def)

lemma kept_on_disk: "kept {} s s' \<Longrightarrow> on_disk root s q node \<Longrightarrow> on_disk root s' q node"
  unfolding on_disk_def by (metis kept_placed)

lemma atry_Inr_Inr [simp]: "atry m s = (Inr (Inr x), s') \<longleftrightarrow> m s = (Inr x, s')"
  by (auto simp: atry_def split: prod.splits sum.splits stop.splits)

lemma abind_atry_Inr [simp]:
  "abind (atry m) (\<lambda>r. case r of Inl e \<Rightarrow> f e | Inr x \<Rightarrow> g x) s = (Inr y, s'') \<longleftrightarrow>
     (\<exists>x s1. m s = (Inr x, s1) \<and> g x s1 = (Inr y, s''))
     \<or> (\<exists>e s1. m s = (Inl (Failed e), s1) \<and> f e s1 = (Inr y, s''))"
  by (cases "m s") (auto simp: abind_def atry_def split: sum.splits stop.splits)

lemma syscall_Inr:
  "syscall_with part effect s = (Inr x, s') \<longleftrightarrow>
     (\<exists>script. fs_script s = Works # script \<and> effect (s\<lparr>fs_script := script\<rparr>) = (Inr x, s'))"
  by (cases "fs_script s"; cases "hd (fs_script s)")
    (auto simp: syscall_with_def map_err_def split: prod.splits sum.splits)

lemma open_directory_Inr:
  "sys_open_directory parent name s = (Inr d, s') \<Longrightarrow>
     d = parent @ [name] \<and> fs_nodes s d = Some Directory \<and> fs_nodes s' = fs_nodes s"
  by (auto simp: sys_open_directory_def syscall_Inr split: option.splits fs_node.splits)

lemma sync_Inr:
  "sys_sync p s = (Inr u, s') \<Longrightarrow> fs_nodes s' = fs_nodes s \<and> fs_synced s' p
     \<and> (\<forall>name. fs_linked s' (p @ [name])) \<and> (\<forall>q. fs_linked s q \<longrightarrow> fs_linked s' q)
     \<and> (\<forall>q. fs_synced s q \<longrightarrow> fs_synced s' q)"
  by (auto simp: sys_sync_def syscall_Inr)

lemma chmod_Inr: "sys_chmod p mode s = (Inr u, s') \<Longrightarrow> fs_nodes s' = fs_nodes s"
  by (auto simp: sys_chmod_def syscall_Inr)

lemma reach_directory_Inr:
  assumes "reach_directory parent name s = (Inr (d, created), s')"
  shows "d = parent @ [name] \<and> fs_nodes s' d = Some Directory"
  using assms
  unfolding reach_directory_def abind_atry_Inr
  by (auto simp: create_directory_def split: if_splits dest: open_directory_Inr)

lemma ensure_directory_placed:
  assumes "ensure_store_directory parent name s = (Inr d, s')"
  shows "d = parent @ [name] \<and> placed s' d Directory"
  using assms
  by (auto simp: ensure_store_directory_def open_or_create_directory_def sync_directory_def placed_def
      dest!: reach_directory_Inr chmod_Inr sync_Inr)

lemma descend_placed:
  "descend True directory components s = (Inr d, s') \<Longrightarrow>
     d = directory @ components
     \<and> (\<forall>n. 0 < n \<and> n \<le> length components \<longrightarrow> placed s' (directory @ take n components) Directory)"
proof (induction components arbitrary: directory s)
  case (Cons c rest)
  from Cons.prems obtain s1 where first: "ensure_store_directory directory c s = (Inr (directory @ [c]), s1)"
    and rest: "descend True (directory @ [c]) rest s1 = (Inr d, s')"
    by (auto dest: ensure_directory_placed)
  from ensure_directory_placed [OF first] keepsD [OF keeps_descend rest]
  have here: "placed s' (directory @ [c]) Directory" by (auto intro: kept_placed)
  have "placed s' (directory @ take n (c # rest)) Directory" if "0 < n" "n \<le> length (c # rest)" for n
    using Cons.IH [OF rest] here that by (cases n; cases "n - 1") auto
  with Cons.IH [OF rest] show ?case by auto
qed auto

section \<open>What publishing leaves on disk\<close>

lemma open_regular_file_Inr:
  assumes "open_regular_file p writable s = (Inr u, s')"
  shows "\<exists>bytes. fs_nodes s' p = Some (RegularFile bytes)"
  using assms
  by (auto simp: open_regular_file_def validate_regular_file_def sys_open_file_def sys_is_file_def sys_chmod_def
      syscall_Inr split: if_splits option.splits fs_node.splits)

lemma contents_Inr:
  "sys_contents p s = (Inr bytes, s') \<Longrightarrow> fs_nodes s p = Some (RegularFile bytes) \<and> fs_nodes s' = fs_nodes s"
  "sys_length p s = (Inr len, s') \<Longrightarrow>
     (\<exists>bytes. fs_nodes s p = Some (RegularFile bytes) \<and> len = length bytes) \<and> fs_nodes s' = fs_nodes s"
  by (auto simp: sys_contents_def sys_length_def syscall_Inr split: option.splits fs_node.splits)

lemma verified_contents_placed:
  assumes "verified_contents E directory (directory @ [name]) digest True s = (Inr bytes, s')"
  shows "placed s' (directory @ [name]) (RegularFile bytes)
    \<and> artifact_sha256 (env_sha256_hex E) bytes = digest"
  using assms
  by (auto simp: verified_contents_def sync_directory_def placed_def split: if_splits
      dest!: contents_Inr(1) sync_Inr)

lemma read_present_placed:
  assumes "read_artifact_if_present E directory (directory @ [name]) digest True s = (Inr (Some bytes), s')"
  shows "placed s' (directory @ [name]) (RegularFile bytes)
    \<and> artifact_sha256 (env_sha256_hex E) bytes = digest"
  using assms unfolding read_artifact_if_present_def abind_atry_Inr
  by (auto split: if_splits dest: verified_contents_placed)

lemma check_marker_Inr:
  "check_marker p writable s = (Inr u, s') \<Longrightarrow> fs_nodes s' p = Some (RegularFile [])"
  by (auto simp: check_marker_def split: if_splits dest!: contents_Inr(2))

lemma secured_marker:
  assumes "sys_create p mode s = (Inr q, s1)" "secure_regular_file p s1 = (Inr u, s2)"
  shows "fs_nodes s2 p = Some (RegularFile [])"
  using assms
  by (auto simp: sys_create_def secure_regular_file_def validate_regular_file_def sys_is_file_def sys_chmod_def
      new_entry_def put_node_def syscall_Inr split: option.splits if_splits)

lemma create_marker_Inr:
  "create_marker p s = (Inr u, s') \<Longrightarrow> fs_nodes s' p = Some (RegularFile [])"
  unfolding create_marker_def abind_atry_Inr
  by (auto split: if_splits dest: secured_marker check_marker_Inr)

lemma record_marker_placed:
  "record_marker directory (directory @ [i]) s = (Inr u, s') \<Longrightarrow>
     placed s' (directory @ [i]) (RegularFile [])"
  by (auto simp: record_marker_def sync_directory_def placed_def dest!: create_marker_Inr sync_Inr)

lemma on_disk_snoc:
  assumes "\<And>n. 0 < n \<Longrightarrow> n \<le> length q \<Longrightarrow> placed s (root @ take n q) Directory"
    and "placed s (root @ q @ [x]) node"
  shows "on_disk root s (q @ [x]) node"
  using assms by (auto simp: on_disk_def less_Suc_eq_le)

lemma record_source_placed:
  assumes "record_source S digest source s = (Inr u, s')"
    and "source_parts source = (kind, i)" "digest_components digest = (prefix, suffix)"
  shows "on_disk (as_root S) s' [''references'', ''sha256'', prefix, suffix, kind, i] (RegularFile [])"
proof -
  let ?q = "[''references'', ''sha256'', prefix, suffix, kind]"
  from assms obtain d s1 where walked: "descend True (as_root S) ?q s = (Inr d, s1)"
    and marked: "record_marker d (d @ [i]) s1 = (Inr u, s')"
    by (auto simp: record_source_def source_location_def simp del: append_assoc)
  have "keeps {} (record_marker d (d @ [i]))"
    unfolding record_marker_def create_marker_def by (intro keeps_intros)
  then have "kept {} s1 s'" using marked by (rule keepsD)
  then have "on_disk (as_root S) s' (?q @ [i]) (RegularFile [])"
    using descend_placed [OF walked] record_marker_placed [OF marked]
    by (intro on_disk_snoc) (auto intro: kept_placed)
  then show ?thesis by simp
qed

text \<open>The name of a temporary file is not that of the artifact.\<close>

lemma temporary_other: "digest_components digest = (prefix, suffix) \<Longrightarrow> temporary_name S digest n \<noteq> suffix"
  by (auto simp: temporary_name_def digest_components_def dest!: arg_cong [where f = length])

lemma drop_temporary_Inr: "drop_temporary directory p m s = (Inr x, s') \<longleftrightarrow> m s = (Inr x, s')"
  by (auto simp: drop_temporary_def split: prod.splits sum.splits stop.splits)

lemma found_artifact_Inr: "found_artifact reason found s = (Inr x, s') \<longleftrightarrow> found = Some x \<and> s' = s"
  by (auto simp: found_artifact_def split: option.splits)

lemma publish_new_placed:
  assumes "publish_new E digest directory (directory @ [name]) (directory @ [temporary]) bytes s = (Inr u, s')"
    and "temporary \<noteq> name"
  shows "\<exists>found. placed s' (directory @ [name]) (RegularFile found)
    \<and> artifact_sha256 (env_sha256_hex E) found = digest"
proof -
  from assms(1) obtain s1 s2 found where
    read: "read_artifact_if_present E directory (directory @ [name]) digest True s1 = (Inr (Some found), s2)"
    and removed: "remove_temporary directory (directory @ [temporary]) s2 = (Inr u, s')"
    by (auto simp: publish_new_def found_artifact_Inr)
  from removed have "kept {directory @ [temporary]} s2 s'"
    by (rule keepsD [OF keeps_remove_temporary(2), rotated]) simp
  moreover have "directory @ [name] \<noteq> directory @ [temporary]" using assms(2) by simp
  ultimately have "placed s' (directory @ [name]) (RegularFile found)"
    using read_present_placed [OF read] by (simp add: kept_def placed_def)
  with read_present_placed [OF read] show ?thesis by blast
qed

definition published :: "env \<Rightarrow> artifact_store \<Rightarrow> file_system \<Rightarrow> artifact_digest \<Rightarrow> evidence_source \<Rightarrow> u8 list \<Rightarrow> bool" where
  "published E S s digest source bytes \<longleftrightarrow>
     (case (source_parts source, digest_components digest) of ((kind, i), (prefix, suffix)) \<Rightarrow>
        on_disk (as_root S) s [''sha256'', prefix, suffix] (RegularFile bytes)
        \<and> on_disk (as_root S) s [''references'', ''sha256'', prefix, suffix, kind, i] (RegularFile []))
     \<and> artifact_sha256 (env_sha256_hex E) bytes = digest"

lemma publish_published:
  assumes "publish E S bytes source s = (Inr digest, s')"
  shows "digest = artifact_sha256 (env_sha256_hex E) bytes \<and> (\<exists>found. published E S s' digest source found)"
proof -
  let ?digest = "artifact_sha256 (env_sha256_hex E) bytes"
  obtain prefix suffix where parts: "digest_components ?digest = (prefix, suffix)" by fastforce
  obtain kind i where source: "source_parts source = (kind, i)" by fastforce
  let ?q = "[''sha256'', prefix]"
  let ?d = "as_root S @ ?q"
  from assms obtain d s1 found s2 s3 where digest: "digest = ?digest"
    and walked: "descend True (as_root S) ?q s = (Inr d, s1)"
    and looked: "read_artifact_if_present E d (d @ [suffix]) ?digest True s1 = (Inr found, s2)"
    and stored: "(case found of Some _ \<Rightarrow> areturn () | None \<Rightarrow>
        abind (create_temporary S d ?digest) (\<lambda>temporary.
          drop_temporary d temporary (publish_new E ?digest d (d @ [suffix]) temporary bytes))) s2 = (Inr (), s3)"
    and recorded: "record_source S ?digest source s3 = (Inr (), s')"
    using parts by (auto simp: publish_def artifact_location_def Let_def simp del: append_assoc)
  have d: "d = ?d" using descend_placed [OF walked] by simp
  have "\<exists>actual. placed s3 (?d @ [suffix]) (RegularFile actual)
      \<and> artifact_sha256 (env_sha256_hex E) actual = ?digest"
  proof (cases found)
    case None
    with stored obtain temporary t where made: "create_temporary S d ?digest s2 = (Inr temporary, t)"
      and new: "publish_new E ?digest d (d @ [suffix]) temporary bytes t = (Inr (), s3)"
      by (auto simp: drop_temporary_Inr)
    from create_temporary_new [OF made] obtain n where "temporary = d @ [temporary_name S ?digest n]" by auto
    with publish_new_placed new temporary_other [OF parts] d show ?thesis by metis
  next
    case (Some actual)
    then have "s2 = s3" using stored by simp
    with looked Some d have "read_artifact_if_present E ?d (?d @ [suffix]) ?digest True s1 = (Inr (Some actual), s3)"
      by simp
    from read_present_placed [OF this] show ?thesis by blast
  qed
  then obtain actual where placed: "placed s3 (?d @ [suffix]) (RegularFile actual)"
    "artifact_sha256 (env_sha256_hex E) actual = ?digest" by blast
  have "keeps {} (read_artifact_if_present E d (d @ [suffix]) ?digest True)"
    "keeps {} (case found of Some _ \<Rightarrow> areturn () | None \<Rightarrow>
        abind (create_temporary S d ?digest) (\<lambda>temporary.
          drop_temporary d temporary (publish_new E ?digest d (d @ [suffix]) temporary bytes)))"
    by (intro keeps_intros)+
  from keepsD [OF this(1) looked] keepsD [OF this(2) stored] have "kept {} s1 s3" by (rule kept_trans)
  then have "on_disk (as_root S) s3 (?q @ [suffix]) (RegularFile actual)"
    using descend_placed [OF walked] placed(1) by (intro on_disk_snoc) (auto intro: kept_placed)
  then have "on_disk (as_root S) s' (?q @ [suffix]) (RegularFile actual)"
    using keepsD [OF keeps_record_source recorded] by (blast intro: kept_on_disk)
  with record_source_placed [OF recorded source parts] placed(2) digest source parts show ?thesis
    by (auto simp: published_def)
qed

section \<open>Restarts\<close>

text \<open>A crash keeps what is on disk below the root, and may take or garble anything else.
  After it, what there is is on disk.\<close>

definition after_crash :: "path \<Rightarrow> file_system \<Rightarrow> file_system \<Rightarrow> bool" where
  "after_crash root s s' \<longleftrightarrow>
     (\<forall>q node. on_disk root s q node \<longrightarrow> on_disk root s' q node)"

text \<open>What the service does to the store, whatever its calls meet, and crashes between and
  within them.\<close>

inductive evidence_run :: "env \<Rightarrow> artifact_store \<Rightarrow> file_system \<Rightarrow> file_system \<Rightarrow> bool"
  for E :: env and S :: artifact_store where
  Start: "evidence_run E S s s"
| Publish: "evidence_run E S s s1 \<Longrightarrow> publish E S bytes source s1 = (r, s2) \<Longrightarrow> evidence_run E S s s2"
| Read: "evidence_run E S s s1 \<Longrightarrow> read_artifact E S digest s1 = (r, s2) \<Longrightarrow> evidence_run E S s s2"
| Verify: "evidence_run E S s s1 \<Longrightarrow> verify_source E S digest source s1 = (r', s2) \<Longrightarrow> evidence_run E S s s2"
| Open: "evidence_run E S s s1 \<Longrightarrow> store_open current_dir process root s1 = (opened, s2) \<Longrightarrow> evidence_run E S s s2"
| Crash: "evidence_run E S s s1 \<Longrightarrow> after_crash (as_root S) s1 s2 \<Longrightarrow> evidence_run E S s s2"

lemma evidence_run_on_disk:
  "evidence_run E S s s' \<Longrightarrow> on_disk (as_root S) s q node \<Longrightarrow> on_disk (as_root S) s' q node"
proof (induction rule: evidence_run.induct)
  case (Crash s s1 s2)
  then show ?case by (simp add: after_crash_def)
next
  case (Open s s1 current_dir process root opened s2)
  then show ?case using keepsD [OF keeps_store_reads(3) Open(2)] by (blast intro: kept_on_disk)
qed (use keeps_publish keeps_store_reads(1,2) in \<open>blast intro: kept_on_disk dest: keepsD\<close>)+

lemma evidence_run_published:
  "evidence_run E S s s' \<Longrightarrow> published E S s digest source bytes \<Longrightarrow> published E S s' digest source bytes"
  by (auto simp: published_def split: prod.splits dest: evidence_run_on_disk)

section \<open>Reading back\<close>

lemma calls_work:
  assumes "fs_script s = Works # script"
  shows "fs_nodes s (parent @ [name]) = Some Directory \<Longrightarrow>
      sys_open_directory parent name s = (Inr (parent @ [name]), s\<lparr>fs_script := script\<rparr>)"
    "fs_nodes s p = Some (RegularFile bytes) \<Longrightarrow> sys_open_file p writable s = (Inr p, s\<lparr>fs_script := script\<rparr>)"
    "fs_nodes s p = Some (RegularFile bytes) \<Longrightarrow> sys_is_file p s = (Inr True, s\<lparr>fs_script := script\<rparr>)"
    "fs_nodes s p = Some (RegularFile bytes) \<Longrightarrow> sys_contents p s = (Inr bytes, s\<lparr>fs_script := script\<rparr>)"
    "fs_nodes s p = Some (RegularFile bytes) \<Longrightarrow> sys_length p s = (Inr (length bytes), s\<lparr>fs_script := script\<rparr>)"
  using assms by (simp_all add: sys_open_directory_def sys_open_file_def sys_is_file_def sys_contents_def
      sys_length_def syscall_Inr)

lemma descend_works:
  assumes "\<And>n. 0 < n \<Longrightarrow> n \<le> length components \<Longrightarrow> fs_nodes s (directory @ take n components) = Some Directory"
    and "fs_script s = replicate (length components) Works @ script"
  shows "descend False directory components s = (Inr (directory @ components), s\<lparr>fs_script := script\<rparr>)"
  using assms
proof (induction components arbitrary: directory s)
  case (Cons c rest)
  let ?s = "s\<lparr>fs_script := replicate (length rest) Works @ script\<rparr>"
  have "open_directory directory c s = (Inr (directory @ [c]), ?s)"
    using Cons.prems(1) [of 1] Cons.prems(2) by (simp add: open_directory_def calls_work(1))
  moreover have "descend False (directory @ [c]) rest ?s = (Inr ((directory @ [c]) @ rest), ?s\<lparr>fs_script := script\<rparr>)"
    using Cons.prems(1) [of "Suc n" for n] by (intro Cons.IH) auto
  ultimately show ?case by (simp add: abind_def)
qed (simp add: areturn_def)

lemma on_disk_nodes:
  assumes "on_disk root s q node"
  shows "fs_nodes s (root @ q) = Some node"
    "0 < n \<Longrightarrow> n < length q \<Longrightarrow> fs_nodes s (root @ take n q) = Some Directory"
  using assms by (auto simp: on_disk_def placed_def)

lemma open_regular_works:
  assumes "fs_nodes s p = Some (RegularFile bytes)" "fs_script s = Works # Works # script"
  shows "open_regular_file p False s = (Inr (), s\<lparr>fs_script := script\<rparr>)"
  using assms by (simp add: open_regular_file_def validate_regular_file_def abind_def amap_err_def
      calls_work(2,3) areturn_def)

lemma read_artifact_works:
  assumes "on_disk (as_root S) s [''sha256'', prefix, suffix] (RegularFile bytes)"
    and "digest_components digest = (prefix, suffix)" "artifact_sha256 (env_sha256_hex E) bytes = digest"
    and "fs_script s = replicate 5 Works @ script"
  shows "read_artifact E S digest s = (Inr bytes, s\<lparr>fs_script := script\<rparr>)"
proof -
  let ?d = "as_root S @ [''sha256'', prefix]"
  have content: "fs_nodes s (?d @ [suffix]) = Some (RegularFile bytes)"
    using on_disk_nodes(1) [OF assms(1)] by simp
  let ?s = "\<lambda>n. s\<lparr>fs_script := replicate n Works @ script\<rparr>"
  have "descend False (as_root S) [''sha256'', prefix] s = (Inr ?d, ?s 3)"
  proof (rule descend_works)
    fix n assume "0 < n" "n \<le> length [''sha256'', prefix]"
    then show "fs_nodes s (as_root S @ take n [''sha256'', prefix]) = Some Directory"
      using on_disk_nodes(2) [OF assms(1), of n] by (cases n; cases "n - 1") simp_all
  qed (simp add: assms(4) numeral_eq_Suc)
  then have located: "artifact_location S digest False s = (Inr (?d, ?d @ [suffix]), ?s 3)"
    using assms(2) by (simp add: artifact_location_def abind_def areturn_def)
  have opened: "open_regular_file (?d @ [suffix]) False (?s 3) = (Inr (), ?s 1)"
    using open_regular_works [where s = "?s 3"] content by (simp add: numeral_eq_Suc)
  have "verified_contents E ?d (?d @ [suffix]) digest False (?s 1) = (Inr bytes, s\<lparr>fs_script := script\<rparr>)"
    using calls_work(4) [where s = "?s 1"] content assms(3)
    by (simp add: verified_contents_def abind_def amap_err_def areturn_def)
  with opened have "read_artifact_if_present E ?d (?d @ [suffix]) digest False (?s 3)
      = (Inr (Some bytes), s\<lparr>fs_script := script\<rparr>)"
    by (simp add: read_artifact_if_present_def abind_def atry_def areturn_def)
  with located show ?thesis
    by (simp add: read_artifact_def abind_def found_artifact_def areturn_def)
qed

lemma verify_source_works:
  assumes "published E S s digest source bytes" "fs_script s = replicate 13 Works @ script"
  shows "verify_source E S digest source s = (Inr bytes, s\<lparr>fs_script := script\<rparr>)"
proof -
  obtain prefix suffix where parts: "digest_components digest = (prefix, suffix)" by fastforce
  obtain kind i where source: "source_parts source = (kind, i)" by fastforce
  let ?q = "[''references'', ''sha256'', prefix, suffix, kind]"
  have artifact: "on_disk (as_root S) s [''sha256'', prefix, suffix] (RegularFile bytes)"
    and marker: "on_disk (as_root S) s (?q @ [i]) (RegularFile [])"
    and digest: "artifact_sha256 (env_sha256_hex E) bytes = digest"
    using assms(1) parts source by (simp_all add: published_def)
  let ?s = "s\<lparr>fs_script := replicate 8 Works @ script\<rparr>"
  have "fs_script s = replicate 5 Works @ (replicate 8 Works @ script)"
    using assms(2) by (simp add: numeral_eq_Suc)
  from read_artifact_works [OF artifact parts digest this]
  have read: "read_artifact E S digest s = (Inr bytes, ?s)" .
  have "fs_nodes ?s (as_root S @ take n ?q) = Some Directory" if "0 < n" "n \<le> length ?q" for n
  proof -
    have "take n ?q = take n (?q @ [i])" using that by (simp only: take_append) simp
    then show ?thesis using on_disk_nodes(2) [OF marker, of n] that by simp
  qed
  then have walked: "descend False (as_root S) ?q ?s
      = (Inr (as_root S @ ?q), ?s\<lparr>fs_script := Works # Works # Works # script\<rparr>)"
    by (intro descend_works) (simp_all add: numeral_eq_Suc)
  have "fs_nodes s ((as_root S @ ?q) @ [i]) = Some (RegularFile [])"
    using on_disk_nodes(1) [OF marker] by simp
  with read walked parts source show ?thesis
    by (simp add: verify_source_def source_location_def check_marker_def abind_def amap_err_def areturn_def
        open_regular_works calls_work(5) del: append_assoc)
qed

text \<open>C33: Evidence is permanent. Once publishing has returned a digest, it is the digest of
  the bytes, and after any later use of the store, with any failures of the file system, and
  any crashes, verifying the artifact against its source returns content with that digest as
  soon as the file system answers.\<close>

theorem evidence_permanent:
  assumes "publish E S bytes source s0 = (Inr digest, s1)"
    and "evidence_run E S s1 s2" and "fs_script s2 = replicate 13 Works @ script"
  shows "digest = artifact_sha256 (env_sha256_hex E) bytes
    \<and> (\<exists>found. fst (verify_source E S digest source s2) = Inr found
        \<and> artifact_sha256 (env_sha256_hex E) found = digest)"
proof -
  from publish_published [OF assms(1)] obtain found where digest: "digest = artifact_sha256 (env_sha256_hex E) bytes"
    and "published E S s1 digest source found" by blast
  then have "published E S s2 digest source found" using assms(2) by (simp add: evidence_run_published)
  with verify_source_works [OF this assms(3)] digest show ?thesis by (auto simp: published_def)
qed

lemma read_artifact_genuine:
  assumes "read_artifact E S digest s = (Inr bytes, s')"
  shows "artifact_sha256 (env_sha256_hex E) bytes = digest"
proof -
  from assms obtain d p s1 where
    "read_artifact_if_present E d p digest False s1 = (Inr (Some bytes), s')"
    by (auto simp: read_artifact_def found_artifact_Inr)
  then show ?thesis
    unfolding read_artifact_if_present_def abind_atry_Inr
    by (auto simp: verified_contents_def split: if_splits)
qed

end
