(* ===== verification/Movement.thy ===== *)
theory Movement
  imports Device_Wire
begin

text \<open>
  \<open>moves R m\<close> says that whatever the action \<open>m\<close> meets, it moves the state along
  \<open>R\<close>. The locale \<open>movement\<close> carries this through the combinators of actions for every
  reflexive and transitive relation.
\<close>

definition moves :: "('s \<Rightarrow> 's \<Rightarrow> bool) \<Rightarrow> ('s, 'e, 'a) action \<Rightarrow> bool" where
  "moves R m \<longleftrightarrow> (\<forall>s. R s (snd (m s)))"

lemma movesI: "(\<And>s r s'. m s = (r, s') \<Longrightarrow> R s s') \<Longrightarrow> moves R m"
  unfolding moves_def by (metis prod.collapse)

lemma movesD: "moves R m \<Longrightarrow> m s = (r, s') \<Longrightarrow> R s s'"
  unfolding moves_def by (metis snd_conv)

locale movement =
  fixes R :: "'s \<Rightarrow> 's \<Rightarrow> bool"
  assumes stays: "R s s" and goes_on: "R s s' \<Longrightarrow> R s' s'' \<Longrightarrow> R s s''"
begin

lemma moves_pure: "moves R (areturn x)" "moves R (afail e)" "moves R (alift r)"
  by (simp_all add: moves_def areturn_def afail_def alift_def stays)

lemma moves_abind:
  assumes "moves R m" "\<And>x. moves R (f x)"
  shows "moves R (abind m f)"
proof (rule movesI)
  fix s r s' assume run: "abind m f s = (r, s')"
  obtain r1 s1 where first: "m s = (r1, s1)" by fastforce
  show "R s s'"
  proof (cases r1)
    case (Inr x)
    with run first have "f x s1 = (r, s')" by (simp add: abind_def)
    with movesD [OF assms(1) first] show ?thesis by (blast intro: goes_on movesD [OF assms(2)])
  qed (use run first movesD [OF assms(1) first] in \<open>simp add: abind_def\<close>)
qed

lemma moves_if: "(b \<Longrightarrow> moves R m) \<Longrightarrow> (\<not> b \<Longrightarrow> moves R m') \<Longrightarrow> moves R (if b then m else m')"
  by simp

lemma moves_option:
  "moves R m \<Longrightarrow> (\<And>x. moves R (f x)) \<Longrightarrow> moves R (case r of None \<Rightarrow> m | Some x \<Rightarrow> f x)"
  by (cases r) auto

lemma moves_sum:
  "(\<And>e. moves R (f e)) \<Longrightarrow> (\<And>x. moves R (g x)) \<Longrightarrow> moves R (case r of Inl e \<Rightarrow> f e | Inr x \<Rightarrow> g x)"
  by (cases r) auto

lemma moves_amap_err: "moves R m \<Longrightarrow> moves R (amap_err g m)"
  by (rule movesI) (auto simp: amap_err_def split: prod.splits sum.splits stop.splits dest: movesD)

lemma moves_lifted: "(\<And>x. r = Inr x \<Longrightarrow> moves R (f x)) \<Longrightarrow> moves R (abind (alift r) f)"
  by (cases r) (auto simp: moves_def abind_def alift_def stays)

lemmas moves_intros = moves_pure moves_abind moves_if moves_option moves_sum moves_amap_err

end

end
