(* ===== verification/Backend_Sessions.thy ===== *)
theory Backend_Sessions
  imports Device_Backend Bus_Safety Evidence_Durability Movement
begin

text \<open>
  How a backend operation moves the state of the backend. The locale \<open>movement\<close> is interpreted for
  the relations the properties are about: what an instrument is sent, and what happens to the
  sessions and stores of the others. The invariant of the sessions follows.
\<close>

section \<open>What an instrument is sent\<close>

text \<open>At most the frames \<open>P\<close> are sent to \<open>i\<close>, nothing happens to the other sessions, and
  a store file that exists keeps its content.\<close>

definition quiet :: "(u8 list \<Rightarrow> bool) \<Rightarrow> instrument_id \<Rightarrow> backend_world \<Rightarrow> backend_world \<Rightarrow> bool" where
  "quiet P i w w' \<longleftrightarrow>
     (\<exists>frames. sent_to w' i = sent_to w i @ frames \<and> list_all P frames)
     \<and> (\<forall>j. j \<noteq> i \<longrightarrow> sent_to w' j = sent_to w j)
     \<and> (\<forall>key. bw_stores w key \<noteq> Absent \<longrightarrow> bw_stores w' key = bw_stores w key)"

interpretation quiet: movement "quiet P i" for P i
proof
  show "quiet P i w w" for w by (simp add: quiet_def)
  show "quiet P i w w''" if "quiet P i w w'" "quiet P i w' w''" for w w' w''
  proof -
    from that obtain frames more where
      "sent_to w' i = sent_to w i @ frames" "list_all P frames"
      "sent_to w'' i = sent_to w' i @ more" "list_all P more"
      by (auto simp: quiet_def)
    then have "sent_to w'' i = sent_to w i @ (frames @ more)" "list_all P (frames @ more)" by simp_all
    with that show ?thesis unfolding quiet_def by metis
  qed
qed

lemma quiet_mono: "quiet P i w w' \<Longrightarrow> (\<And>f. P f \<Longrightarrow> Q f) \<Longrightarrow> quiet Q i w w'"
  unfolding quiet_def by (metis list.pred_mono_strong)

lemma put_connection_simps [simp]:
  "bw_past (put_connection i c w) = bw_past w"
  "bw_stores (put_connection i c w) = bw_stores w" "bw_files (put_connection i c w) = bw_files w"
  "bw_connections (put_connection i c w) = (bw_connections w)(i := c)"
  by (simp_all add: put_connection_def)

lemma quiet_discard: "quiet P i w (discard i w)"
  by (auto simp: quiet_def discard_def sent_to_def put_connection_def)

lemma quiet_on_bpio2:
  assumes "sends ad_wire P m" "bw_connections w i = Some (ConnectedBpio2 a)" "on_bpio2 i a m w = (r, w')"
  shows "quiet P i w w'"
proof -
  obtain r' a' where run: "m a = (r', a')" by fastforce
  from sendsD [OF assms(1) this] obtain frames where
    "wr_sent (ad_wire a') = wr_sent (ad_wire a) @ frames" "list_all P frames" .
  with run assms(2,3) show ?thesis by (auto simp: on_bpio2_def quiet_def sent_to_def)
qed

lemma quiet_on_numato:
  assumes "sends (\<lambda>w. w) P m" "bw_connections w i = Some (ConnectedNumato line)" "on_numato i line m w = (r, w')"
  shows "quiet P i w w'"
proof -
  obtain r' line' where run: "m line = (r', line')" by fastforce
  from sendsD [OF assms(1) this] obtain frames where
    "wr_sent line' = wr_sent line @ frames" "list_all P frames" .
  with run assms(2,3) show ?thesis by (auto simp: on_numato_def quiet_def sent_to_def)
qed

section \<open>Identification\<close>

text \<open>The frames that ask an instrument who it is.\<close>

definition identification :: "device_env \<Rightarrow> u8 list \<Rightarrow> bool" where
  "identification D frame \<longleftrightarrow> frame = request_frame (de_codec D) build_status_request
     \<or> frame = command_frame ''ver'' \<or> frame = command_frame ''id get''"

lemma sends_bpio2_sighting: "sends ad_wire (identification D) (bpio2_sighting D serial_identity)"
proof -
  have "sends ad_wire (identification D) (via D (identify (de_codec D)))"
    by (rule sends_mono [where P = "frame_of (de_codec D) asking_status"])
      (auto intro!: requests_via requests_identify simp: asking_status_def frame_of_def identification_def)
  then show ?thesis unfolding bpio2_sighting_def by (intro sends_abind sends_if sends_pure)
qed

lemma sends_numato_sighting: "sends (\<lambda>w. w) (identification D) (numato_sighting D serial_identity)"
  unfolding numato_sighting_def numato_identify_def
  by (intro sends_abind sends_amap_err sends_numato_command sends_pure) (simp_all add: identification_def)

lemma quiet_sight: "moves (quiet (identification (be_device B)) i) (sight B H i configured serial_identity)"
proof (rule movesI)
  fix w r w' assume run: "sight B H i configured serial_identity w = (r, w')"
  show "quiet (identification (be_device B)) i w w'"
  proof (cases "bw_connections w i")
    case (Some c)
    then show ?thesis
      by (cases c) (use run Some in \<open>auto simp: sight_def areturn_def alift_def quiet.stays
          intro: quiet_on_bpio2 [OF sends_bpio2_sighting] quiet_on_numato [OF sends_numato_sighting]\<close>)
  qed (use run in \<open>simp add: sight_def afail_def quiet.stays\<close>)
qed

lemma quiet_observe: "moves (quiet (identification (be_device B)) i) (observe B oc i binding)"
  unfolding observe_def Let_def by (intro quiet.moves_intros quiet_sight)

lemma opened_keeps_store:
  "simulator_open prepare io stored n = (r, stored') \<Longrightarrow> stored \<noteq> Absent \<Longrightarrow> stored' = stored"
  by (auto simp: simulator_open_def Let_def split: sum.splits stored_state.splits)

lemma quiet_open_simulator: "moves (quiet P i) (open_simulator B H key flash_bytes)"
  by (rule movesI) (auto simp: open_simulator_def quiet_def sent_to_def split: prod.splits
      dest: opened_keeps_store)

lemma quiet_open_device: "moves (quiet P i) (open_device B H config)"
  unfolding open_device_def open_serial_def
  by (cases config) (auto intro!: quiet.moves_intros quiet_open_simulator)

text \<open>A connection that has just been opened has sent nothing; opening changes no session.\<close>

lemma simulator_open_disk:
  "simulator_open prepare io stored n = (Inr s, stored') \<Longrightarrow> sim_disk s = stored'"
  by (auto simp: simulator_open_def Let_def split: sum.splits stored_state.splits if_splits)

lemma open_simulator_Inr:
  assumes "open_simulator B H key flash_bytes w = (Inr s, w')"
  shows "durable flash_bytes s \<and> w' = w\<lparr>bw_stores := (bw_stores w)(key := sim_disk s)\<rparr>"
proof -
  obtain r stored where opened:
    "simulator_open (ho_prepare H) (ho_store_write H) (bw_stores w key) flash_bytes = (r, stored)" by fastforce
  with assms have "r = Inr s" "w' = w\<lparr>bw_stores := (bw_stores w)(key := stored)\<rparr>"
    by (simp_all add: open_simulator_def)
  with opened simulator_open_disk show ?thesis using opened_durable by (metis fst_conv)
qed

lemma open_device_fresh:
  assumes "open_device B H config w = (Inr c, w')"
  shows "connection_sent (Some c) = [] \<and> bw_connections w' = bw_connections w \<and> bw_past w' = bw_past w"
  using assms
  by (cases config) (auto simp: open_device_def open_serial_def adapter_new_def fresh_line_def
      dest!: open_simulator_Inr)

lemma quiet_connect: "moves (quiet P i) (connect B H i binding)"
proof (rule movesI)
  fix w r w' assume run: "connect B H i binding w = (r, w')"
  show "quiet P i w w'"
  proof (cases "\<exists>identity. verify_usb B H (db_config binding) = Inr identity \<and> bw_connections w i = None")
    case True
    obtain r1 w1 where opened: "open_device B H (db_config binding) w = (r1, w1)" by fastforce
    then have moved: "quiet P i w w1" by (rule movesD [OF quiet_open_device])
    show ?thesis
    proof (cases r1)
      case (Inl e)
      with run True opened moved show ?thesis by (auto simp: connect_def abind_def alift_def)
    next
      case (Inr c)
      with open_device_fresh opened have fresh: "connection_sent (Some c) = []"
        "bw_connections w1 = bw_connections w" by blast+
      have "w' = put_connection i (Some c) w1"
        using run True opened Inr by (auto simp: connect_def abind_def alift_def)
      with moved fresh True show ?thesis by (auto simp: quiet_def sent_to_def)
    qed
  qed (use run in \<open>auto simp: connect_def abind_def alift_def areturn_def quiet.stays split: sum.splits\<close>)
qed

lemma quiet_identified: "moves (quiet (identification (be_device B)) i) (identified B oc i binding)"
proof -
  have "moves (quiet (identification (be_device B)) i) (\<lambda>w. if bw_connections w i = None
      then afail (malformed ''missing device session'') w else observe B oc i binding w)"
    using quiet_observe [of B i oc binding] by (simp add: moves_def afail_def quiet.stays)
  then show ?thesis unfolding identified_def by (intro quiet.moves_abind quiet_connect)
qed

section \<open>Publication\<close>

text \<open>The evidence store touches no session.\<close>

lemma quiet_publish_bytes: "moves (quiet P i) (publish_bytes B source encoded)"
proof -
  have "moves (quiet P i) (on_evidence B m)" for m :: "artifact_digest evidence"
    by (rule movesI) (auto simp: on_evidence_def quiet_def sent_to_def split: prod.splits)
  then show ?thesis unfolding publish_bytes_def by (intro quiet.moves_intros)
qed

lemma quiet_backend_publish: "moves (quiet P i) (backend_publish B oc request fingerprint body content)"
  unfolding backend_publish_def publish_content_def Let_def
  by (intro quiet.moves_intros quiet_publish_bytes)

lemma quiet_settle_access: "moves (quiet P i) (settle_access B oc request reconcile access)"
  unfolding settle_access_def
  by (cases access) (auto intro!: quiet.moves_intros quiet_backend_publish)

lemma quiet_discarding: "moves (quiet P i) m \<Longrightarrow> moves (quiet P i) (discarding i m)"
  by (rule movesI) (auto simp: discarding_def split: prod.splits sum.splits stop.splits
      dest: movesD intro: quiet.goes_on quiet_discard)

end
