(* ===== verification/Backend_Invariant.thy ===== *)
theory Backend_Invariant
  imports Backend_Sessions
begin

text \<open>
  The sessions of a running backend: every open connection is of the kind its binding
  configures, and an open simulator agrees with its store file, because a session is
  discarded whenever an operation on it did not succeed. \<open>backend_reach\<close> is the state
  machine of a backend: it starts without connections over any files, and every operation
  or inspection that returns leads on; when the process dies another starts.
\<close>

section \<open>Sessions that match their configuration\<close>

fun session_matches :: "backend_env \<Rightarrow> backend_world \<Rightarrow> instrument_config \<Rightarrow> connected \<Rightarrow> bool" where
  "session_matches B w (Bpio2Instrument c) (ConnectedBpio2 a) \<longleftrightarrow> True"
| "session_matches B w (NumatoInstrument c) (ConnectedNumato line) \<longleftrightarrow> True"
| "session_matches B w (SimulatorInstrument c) (ConnectedSimulator key s) \<longleftrightarrow>
     configured_physical_identity (be_env B) (de_debug (be_device B)) (SimulatorInstrument c) = Inr key
     \<and> durable (sc_flash_bytes c) s \<and> bw_stores w key = sim_disk s"
| "session_matches B w (VideoInstrument c) (ConnectedVideo c') \<longleftrightarrow> c' = c"
| "session_matches B w _ _ \<longleftrightarrow> False"

definition session_ok :: "backend_env \<Rightarrow> backend_world \<Rightarrow> instrument_id \<Rightarrow> bool" where
  "session_ok B w i \<longleftrightarrow> (case bw_connections w i of None \<Rightarrow> True
     | Some c \<Rightarrow> \<exists>binding. map_of (be_sessions B) i = Some binding \<and> session_matches B w (db_config binding) c)"

definition sessions_ok :: "backend_env \<Rightarrow> backend_world \<Rightarrow> bool" where
  "sessions_ok B w \<longleftrightarrow> (\<forall>i. session_ok B w i)"

text \<open>\<open>owns B i key\<close>: the store file \<open>key\<close> is the one of the instrument \<open>i\<close>.\<close>

definition owns :: "backend_env \<Rightarrow> instrument_id \<Rightarrow> artifact_digest \<Rightarrow> bool" where
  "owns B i key \<longleftrightarrow> (\<exists>binding. map_of (be_sessions B) i = Some binding
     \<and> configured_physical_identity (be_env B) (de_debug (be_device B)) (db_config binding) = Inr key)"

definition separate :: "backend_env \<Rightarrow> bool" where
  "separate B \<longleftrightarrow> (\<forall>i j key. owns B i key \<longrightarrow> owns B j key \<longrightarrow> i = j)"

definition only_own :: "backend_env \<Rightarrow> instrument_id \<Rightarrow> backend_world \<Rightarrow> backend_world \<Rightarrow> bool" where
  "only_own B i w w' \<longleftrightarrow> (\<forall>j. j \<noteq> i \<longrightarrow> bw_connections w' j = bw_connections w j)
     \<and> (\<forall>key. bw_stores w' key \<noteq> bw_stores w key \<longrightarrow> owns B i key)"

interpretation only_own: movement "only_own B i" for B i
  by unfold_locales (auto simp: only_own_def, metis)

lemma map_of_distinct_values:
  assumes "distinct (map (f \<circ> snd) xs)" "map_of xs i = Some a" "map_of xs j = Some b" "f a = f b"
  shows "i = j"
proof -
  from assms(2,3) have members: "(i, a) \<in> set xs" "(j, b) \<in> set xs" by (auto dest: map_of_SomeD)
  have "inj_on (f \<circ> snd) (set xs)" using assms(1) by (simp add: distinct_map)
  then have "(i, a) = (j, b)" by (rule inj_onD) (use members assms(4) in auto)
  then show ?thesis by simp
qed

lemma opened_separate:
  assumes "backend_open B0 bindings = Inr B"
  shows "separate B"
proof -
  let ?key = "key_digest (be_env B0) \<circ> physical_instrument \<circ> db_config"
  from assms have "validate_unique_physical_identities (be_env B0) (de_debug (be_device B0))
      (map (db_config \<circ> snd) bindings) = Inr ()" and B: "B = B0\<lparr>be_sessions := bindings\<rparr>"
    by (auto simp: backend_open_def Let_def)
  then have "distinct (map (?key \<circ> snd) bindings)"
    by (simp add: validate_unique_physical_identities_def unique_loop_iff comp_assoc)
  then show ?thesis
    unfolding separate_def owns_def configured_physical_identity_iff
    using B map_of_distinct_values [where f = ?key] by (fastforce simp: be_env_def)
qed

lemma sessions_step:
  assumes "separate B" "sessions_ok B w" "only_own B i w w'" "session_ok B w' i"
  shows "sessions_ok B w'"
  unfolding sessions_ok_def
proof
  fix j
  show "session_ok B w' j"
  proof (cases "j = i")
    case False
    then have same: "bw_connections w' j = bw_connections w j" using assms(3) by (simp add: only_own_def)
    have ok: "session_ok B w j" using assms(2) by (simp add: sessions_ok_def)
    show ?thesis
    proof (cases "bw_connections w j")
      case (Some c)
      with ok obtain binding where binding: "map_of (be_sessions B) j = Some binding"
        "session_matches B w (db_config binding) c" by (auto simp: session_ok_def)
      have "session_matches B w' (db_config binding) c"
      proof (cases "(B, w, db_config binding, c)" rule: session_matches.cases)
        case (3 B' w0 sc key s)
        with binding have "owns B j key" "bw_stores w key = sim_disk s" by (auto simp: owns_def)
        with False assms(1,3) have "bw_stores w' key = bw_stores w key"
          unfolding only_own_def separate_def by metis
        with 3 binding show ?thesis by auto
      qed (use binding in auto)
      with same Some binding(1) show ?thesis by (auto simp: session_ok_def)
    qed (use same in \<open>simp add: session_ok_def\<close>)
  qed (use assms(4) in simp)
qed

section \<open>Identification keeps a session\<close>

lemma only_own_sight: "moves (only_own B' i) (sight B H i configured serial_identity)"
proof (rule movesI)
  fix w r w' assume run: "sight B H i configured serial_identity w = (r, w')"
  show "only_own B' i w w'"
  proof (cases "bw_connections w i")
    case (Some c)
    then show ?thesis
      by (cases c) (use run Some in \<open>auto simp: sight_def areturn_def alift_def only_own_def on_bpio2_def
          on_numato_def split: prod.splits\<close>)
  qed (use run in \<open>simp add: sight_def afail_def only_own.stays\<close>)
qed

lemma only_own_observe: "moves (only_own B' i) (observe B oc i binding)"
  unfolding observe_def Let_def by (intro only_own.moves_intros only_own_sight)

lemma only_own_open_device:
  assumes "map_of (be_sessions B) i = Some binding"
  shows "moves (only_own B i) (open_device B H (db_config binding))"
proof (cases "db_config binding")
  case (SimulatorInstrument c)
  show ?thesis
  proof (rule movesI)
    fix w r w' assume run: "open_device B H (db_config binding) w = (r, w')"
    show "only_own B i w w'"
    proof (cases "configured_physical_identity (be_env B) (de_debug (be_device B)) (db_config binding)")
      case (Inr key)
      with assms have "owns B i key" by (simp add: owns_def)
      with run Inr SimulatorInstrument show ?thesis
        by (auto simp: open_device_def open_simulator_def abind_def alift_def areturn_def only_own_def
            split: prod.splits sum.splits if_splits)
    qed (use run SimulatorInstrument in \<open>auto simp: open_device_def abind_def alift_def only_own.stays\<close>)
  qed
qed (auto simp: open_device_def open_serial_def intro!: only_own.moves_intros)

lemma open_device_matches:
  assumes "open_device B H config w = (Inr c, w')"
  shows "session_matches B w' config c"
  using assms
  by (cases config) (auto simp: open_device_def open_serial_def dest!: open_simulator_Inr)

lemma matches_put [simp]:
  "session_matches B (put_connection i c w) config c' = session_matches B w config c'"
  by (cases "(B, w, config, c')" rule: session_matches.cases) simp_all

lemma connect_ok:
  assumes "map_of (be_sessions B) i = Some binding" "session_ok B w i" "connect B H i binding w = (r, w')"
  shows "only_own B i w w' \<and> session_ok B w' i"
proof (cases "\<exists>identity. verify_usb B H (db_config binding) = Inr identity \<and> bw_connections w i = None")
  case True
  obtain r1 w1 where opened: "open_device B H (db_config binding) w = (r1, w1)" by fastforce
  then have moved: "only_own B i w w1" by (rule movesD [OF only_own_open_device [OF assms(1)]])
  show ?thesis
  proof (cases r1)
    case (Inl e)
    moreover have "bw_connections w1 i = None"
      using quiet_open_device [of "\<lambda>_. True" i B H "db_config binding"] opened True
      by (cases "db_config binding") (auto simp: open_device_def open_serial_def open_simulator_def
          abind_def alift_def areturn_def split: prod.splits sum.splits)
    ultimately show ?thesis
      using assms True opened moved by (auto simp: connect_def abind_def alift_def session_ok_def)
  next
    case (Inr c)
    with open_device_matches opened have "session_matches B w1 (db_config binding) c" by blast
    moreover have "w' = put_connection i (Some c) w1"
      using assms True opened Inr by (auto simp: connect_def abind_def alift_def)
    ultimately show ?thesis
      using moved assms(1) by (auto simp: session_ok_def only_own_def)
  qed
qed (use assms in \<open>auto simp: connect_def abind_def alift_def areturn_def only_own.stays split: sum.splits\<close>)

lemma sight_ok:
  assumes "session_ok B w i" "sight B H i configured serial_identity w = (r, w')"
  shows "session_ok B w' i"
proof (cases "bw_connections w i")
  case (Some c)
  with assms(1) obtain binding where binding: "map_of (be_sessions B) i = Some binding"
    "session_matches B w (db_config binding) c" by (auto simp: session_ok_def)
  show ?thesis
  proof (cases c)
    case (ConnectedBpio2 a)
    with binding(2) show ?thesis using assms Some binding(1)
      by (cases "db_config binding") (auto simp: sight_def on_bpio2_def session_ok_def split: prod.splits)
  next
    case (ConnectedNumato line)
    with binding(2) show ?thesis using assms Some binding(1)
      by (cases "db_config binding") (auto simp: sight_def on_numato_def session_ok_def split: prod.splits)
  qed (use assms Some in \<open>auto simp: sight_def areturn_def alift_def\<close>)
qed (use assms in \<open>simp add: sight_def afail_def\<close>)

interpretation ok: movement "\<lambda>w w'. session_ok B w i \<longrightarrow> session_ok B w' i" for B i
  by unfold_locales auto

lemma observe_ok:
  assumes "session_ok B w i" "observe B oc i binding w = (r, w')"
  shows "session_ok B w' i"
proof -
  have "moves (\<lambda>w w'. session_ok B w i \<longrightarrow> session_ok B w' i) (sight B H i configured serial_identity)"
    for H configured serial_identity by (rule movesI) (use sight_ok in blast)
  then have "moves (\<lambda>w w'. session_ok B w i \<longrightarrow> session_ok B w' i) (observe B oc i binding)"
    unfolding observe_def Let_def by (intro ok.moves_intros)
  from movesD [OF this assms(2)] assms(1) show ?thesis by simp
qed

lemma identified_ok:
  assumes "map_of (be_sessions B) i = Some binding" "session_ok B w i" "identified B oc i binding w = (r, w')"
  shows "only_own B i w w' \<and> session_ok B w' i"
proof -
  obtain r1 w1 where connected: "connect B (oc_host oc Connecting) i binding w = (r1, w1)" by fastforce
  note first = connect_ok [OF assms(1,2) connected]
  show ?thesis
  proof (cases "\<exists>u c. r1 = Inr u \<and> bw_connections w1 i = Some c")
    case True
    with connected assms(3) have "observe B oc i binding w1 = (r, w')"
      by (auto simp: identified_def abind_def)
    with first movesD [OF only_own_observe] observe_ok show ?thesis by (meson only_own.goes_on)
  qed (use connected assms(3) first in \<open>auto simp: identified_def abind_def afail_def split: sum.splits\<close>)
qed

section \<open>A successful operation keeps a session\<close>

lemma persist_Inr: "persist io s = (Inr u, s') \<Longrightarrow> io = Inr ()"
  by (auto simp: persist_def split: sum.splits)

lemma interrupted_Inr: "interrupted io detail s = (Inr u, s') \<Longrightarrow> io = Inr ()"
  by (auto dest: interrupted_cases)

lemma effects_written:
  "write_flash io offset bytes s = (Inr u, s') \<Longrightarrow> io = Inr ()"
  "erase_flash io offset len s = (Inr u, s') \<Longrightarrow> io = Inr ()"
  "set_relay io relay closed s = (Inr u, s') \<Longrightarrow> io = Inr ()"
  by (auto simp: write_flash_def erase_flash_def set_relay_def Let_def
      dest: persist_Inr interrupted_Inr split: sum.splits prod.splits if_splits simulator_fault.splits)

lemma effect_unless_durable:
  assumes "effect_unless reconcile D m s = (Inr u, s')" "durable n s"
    and "\<And>s'. m s = (Inr (), s') \<Longrightarrow> durable n s'"
  shows "durable n s'"
  using assms by (auto simp: effect_unless_def split: if_splits prod.splits)

lemma effects_durable:
  assumes "durable n s"
  shows "write_flash io offset bytes s = (Inr u, s') \<Longrightarrow> durable n s'"
    and "erase_flash io offset len s = (Inr u, s') \<Longrightarrow> durable n s'"
    and "set_relay io relay closed s = (Inr u, s') \<Longrightarrow> durable n s'"
proof -
  show "write_flash io offset bytes s = (Inr u, s') \<Longrightarrow> durable n s'"
    using assms effects_written(1) durable_write by blast
  show "erase_flash io offset len s = (Inr u, s') \<Longrightarrow> durable n s'"
    using assms effects_written(2) durable_erase by blast
  show "set_relay io relay closed s = (Inr u, s') \<Longrightarrow> durable n s'"
    using assms effects_written(3) durable_relay by blast
qed

lemma simulated_durable:
  assumes "simulated_execute D io oper artifacts reconcile s = (Inr result, s')" "durable n s"
  shows "durable n s'"
proof -
  from assms(1) obtain inner where "simulated_result D io oper artifacts reconcile s = (Inr inner, s')"
    by (auto simp: simulated_execute_def split: sum.splits prod.splits)
  then show ?thesis using assms(2)
    by (cases oper) (auto simp: simulated_result_def simulated_source_def simulated_erase_def
        simulated_relay_def split: sum.splits prod.splits option.splits
        dest: effects_durable elim!: effect_unless_durable)
qed

lemma operate_ok:
  assumes "session_ok B w i"
    and "operate B oc request artifacts reconcile i binding deadline observed w = (r, w')"
  shows "only_own B i w w' \<and> (\<forall>x. r = Inr x \<longrightarrow> session_ok B w' i)"
proof (cases "bw_connections w i")
  case (Some c)
  with assms(1) obtain own where own: "map_of (be_sessions B) i = Some own"
    "session_matches B w (db_config own) c" by (auto simp: session_ok_def)
  show ?thesis
  proof (cases c)
    case (ConnectedBpio2 a)
    with own(2) show ?thesis using assms Some own(1)
      by (cases "db_config own") (auto simp: operate_def on_bpio2_def session_ok_def only_own_def
          Let_def split: prod.splits)
  next
    case (ConnectedNumato line)
    with own(2) show ?thesis using assms Some own(1)
      by (cases "db_config own") (auto simp: operate_def on_numato_def session_ok_def only_own_def
          Let_def split: prod.splits)
  next
    case (ConnectedSimulator key s)
    with own(2) obtain sc where sc: "db_config own = SimulatorInstrument sc" "durable (sc_flash_bytes sc) s"
      "configured_physical_identity (be_env B) (de_debug (be_device B)) (SimulatorInstrument sc) = Inr key"
      by (cases "db_config own") auto
    then have "owns B i key" using own(1) by (simp add: owns_def)
    obtain r0 s' where ran: "simulated_execute (be_device B) (ho_store_write (oc_host oc Operating))
        (dr_operation request) artifacts reconcile s = (r0, s')" by fastforce
    with assms(2) Some ConnectedSimulator have done': "r = map_err Failed r0" "w' = put_simulator i key s' w"
      by (simp_all add: operate_def on_simulator_def Let_def)
    have "session_ok B w' i" if "r = Inr x" for x
    proof -
      from that done' obtain result where "r0 = Inr result" by auto
      with ran sc(2) simulated_durable have "durable (sc_flash_bytes sc) s'" by blast
      with done' own(1) sc show ?thesis by (simp add: session_ok_def put_simulator_def)
    qed
    with done' \<open>owns B i key\<close> show ?thesis
      by (auto simp: only_own_def put_simulator_def split: if_splits)
  qed (use assms Some in \<open>auto simp: operate_def alift_def only_own.stays Let_def\<close>)
qed (use assms in \<open>auto simp: operate_def afail_def only_own.stays Let_def\<close>)

section \<open>Publication and the end of a session\<close>

text \<open>The evidence store changes only its files.\<close>

definition files_only :: "backend_world \<Rightarrow> backend_world \<Rightarrow> bool" where
  "files_only w w' \<longleftrightarrow> w' = w\<lparr>bw_files := bw_files w'\<rparr>"

interpretation files_only: movement files_only
proof
  show "files_only w w" for w by (simp add: files_only_def)
  show "files_only w w''" if "files_only w w'" "files_only w' w''" for w w' w''
    using that unfolding files_only_def by (cases w; cases w'; cases w'') simp
qed

lemma files_only_publish_bytes: "moves files_only (publish_bytes B source encoded)"
proof -
  have "moves files_only (on_evidence B m)" for m :: "artifact_digest evidence"
    by (rule movesI) (auto simp: on_evidence_def files_only_def split: prod.splits)
  then show ?thesis unfolding publish_bytes_def by (intro files_only.moves_intros)
qed

lemma files_only_backend_publish:
  "moves files_only (backend_publish B oc request fingerprint body content)"
  unfolding backend_publish_def publish_content_def Let_def
  by (intro files_only.moves_intros files_only_publish_bytes)

lemma files_only_settle: "moves files_only (settle_access B oc request reconcile access)"
  unfolding settle_access_def
  by (cases access) (auto intro!: files_only.moves_intros files_only_backend_publish)

lemma matches_files [simp]:
  "session_matches B (w\<lparr>bw_files := files\<rparr>) config c = session_matches B w config c"
  by (cases "(B, w, config, c)" rule: session_matches.cases) simp_all

lemma files_only_ok:
  assumes "files_only w w'"
  shows "only_own B i w w' \<and> session_ok B w' i = session_ok B w i"
proof -
  from assms obtain files where "w' = w\<lparr>bw_files := files\<rparr>" unfolding files_only_def by blast
  then show ?thesis by (simp add: only_own_def session_ok_def split: option.split)
qed

lemma discard_ok: "only_own B i w (discard i w) \<and> session_ok B (discard i w) i"
  by (simp add: only_own_def discard_def session_ok_def put_connection_def)

lemma discarding_ok:
  assumes "moves files_only m" "session_ok B w i" "discarding i m w = (r, w')"
  shows "only_own B i w w' \<and> session_ok B w' i"
proof -
  obtain r1 w1 where "m w = (r1, w1)" by fastforce
  then have "only_own B i w w1 \<and> session_ok B w1 i"
    using movesD [OF assms(1)] files_only_ok assms(2) by blast
  moreover have "w' = w1 \<or> w' = discard i w1"
    using assms(3) \<open>m w = (r1, w1)\<close> by (auto simp: discarding_def split: sum.splits stop.splits)
  ultimately show ?thesis using discard_ok by (metis only_own.goes_on)
qed

lemma device_access_ok:
  assumes "map_of (be_sessions B) i = Some binding" "session_ok B w i"
    and "device_access B oc request artifacts reconcile i binding deadline w = (r, w')"
  shows "only_own B i w w' \<and> (\<forall>x. r = Inr x \<longrightarrow> session_ok B w' i)"
proof -
  obtain r1 w1 where first: "identified B oc i binding w = (r1, w1)" by fastforce
  note start = identified_ok [OF assms(1,2) first]
  show ?thesis
  proof (cases "\<exists>observed. r1 = Inr observed \<and> identity_rejection oc request i observed = None")
    case True
    then obtain observed where r1: "r1 = Inr observed" "identity_rejection oc request i observed = None" by blast
    obtain r2 w2 where ran: "operate B oc request artifacts reconcile i binding deadline observed w1 = (r2, w2)"
      by fastforce
    have same: "w' = w2" "\<And>x. r = Inr x \<Longrightarrow> \<exists>y. r2 = Inr y"
      using assms(3) first r1 ran
      by (auto simp: device_access_def abind_def areturn_def split: sum.splits)
    from start operate_ok [OF _ ran] have last: "only_own B i w1 w2 \<and> (\<forall>x. r2 = Inr x \<longrightarrow> session_ok B w2 i)"
      by blast
    show ?thesis
    proof (intro conjI allI impI)
      show "only_own B i w w'" using start last same(1) only_own.goes_on by blast
      show "session_ok B w' i" if "r = Inr x" for x using same last that by blast
    qed
  qed (use first start assms(3) in \<open>auto simp: device_access_def abind_def areturn_def split: sum.splits option.splits\<close>)
qed

lemma timed_access_ok:
  assumes "map_of (be_sessions B) i = Some binding" "session_ok B w i"
    and "timed_access B oc request artifacts reconcile i binding deadline w = (r, w')"
  shows "only_own B i w w' \<and> session_ok B w' i"
proof -
  obtain r1 w1 where first: "device_access B oc request artifacts reconcile i binding deadline w = (r1, w1)"
    by fastforce
  note start = device_access_ok [OF assms(1,2) first]
  show ?thesis
  proof (cases r1)
    case (Inr x)
    with first assms(3) have "discarding i (settle_access B oc request reconcile x) w1 = (r, w')"
      by (simp add: timed_access_def)
    from discarding_ok [OF files_only_settle _ this] start Inr
    have "only_own B i w1 w' \<and> session_ok B w' i" by simp
    with start show ?thesis by (blast intro: only_own.goes_on)
  next
    case (Inl e)
    with first assms(3) have "w' = discard i w1"
      by (cases e) (auto simp: timed_access_def)
    with start discard_ok show ?thesis by (metis only_own.goes_on)
  qed
qed

section \<open>The backend as a state machine\<close>

lemma session_map_of: "session B i = Inr binding \<Longrightarrow> map_of (be_sessions B) i = Some binding"
  by (simp add: session_def)

text \<open>What a call is: nothing happens to a device, or the access to one session.\<close>

lemma run_cases:
  assumes "run B oc request artifacts reconcile w = (r, w')"
  obtains (Files) "files_only w w'" "\<And>x. r = Inr x \<Longrightarrow> (\<exists>reason. x = ReceiptRejected reason) \<or> (\<exists>t n. dr_operation request = Wait t n)"
  | (Access) i binding configuration deadline where "op_instrument (dr_operation request) = Some i"
      "map_of (be_sessions B) i = Some binding"
      "db_target_fingerprint binding = dr_expected_target_fingerprint request"
      "db_fixture_revision binding = dr_expected_fixture_revision request"
      "configuration_digest B binding = Inr configuration"
      "map_of (dr_expected_instrument_configurations request) i = Some configuration"
      "access_deadline B oc request = Some deadline" "oc_elapsed oc Begun \<le> deadline"
      "timed_access B oc request artifacts reconcile i binding deadline w = (r, w')"
proof (cases "\<exists>t n. dr_operation request = Wait t n")
  case True
  then obtain t n where wait: "dr_operation request = Wait t n" by blast
  have "moves files_only (run_wait B oc request reconcile n)"
    unfolding run_wait_def by (intro files_only.moves_intros files_only_backend_publish)
  moreover have "w' = w \<or> run_wait B oc request reconcile n w = (r, w')"
    using assms wait by (auto simp: run_def afail_def split: if_splits)
  ultimately have "files_only w w'" using files_only.stays by (metis movesD)
  with wait Files show thesis by blast
next
  case False
  show thesis
  proof (cases "\<exists>i binding. op_instrument (dr_operation request) = Some i \<and> session B i = Inr binding
      \<and> dr_deadline_milliseconds request \<noteq> 0")
    case True
    then obtain i binding where i: "op_instrument (dr_operation request) = Some i" "session B i = Inr binding"
      "dr_deadline_milliseconds request \<noteq> 0" by blast
    then have ran: "run_session B oc request artifacts reconcile i binding w = (r, w')"
      using assms False
      by (cases "dr_operation request") (auto simp: run_def abind_def alift_def)
    show thesis
    proof (cases "\<exists>configuration deadline. configuration_digest B binding = Inr configuration
        \<and> access_deadline B oc request = Some deadline \<and> oc_elapsed oc Begun \<le> deadline
        \<and> db_target_fingerprint binding = dr_expected_target_fingerprint request
        \<and> db_fixture_revision binding = dr_expected_fixture_revision request
        \<and> map_of (dr_expected_instrument_configurations request) i = Some configuration
        \<and> oc_lock oc = Inr ()")
      case True
      with ran i session_map_of Access show thesis
        by (auto simp: run_session_def abind_def alift_def)
    next
      case False
      with ran have "w' = w \<and> (\<forall>x. r = Inr x \<longrightarrow> (\<exists>reason. x = ReceiptRejected reason))"
        by (auto simp: run_session_def abind_def alift_def areturn_def afail_def not_less
            split: if_splits sum.splits option.splits)
      with Files files_only.stays show thesis by auto
    qed
  next
    case no: False
    with assms False have "w' = w \<and> (\<forall>x. r \<noteq> Inr x)"
      by (cases "dr_operation request")
        (auto simp: run_def abind_def alift_def afail_def ok_or_def split: if_splits sum.splits option.splits)
    with Files files_only.stays show thesis by auto
  qed
qed

lemma run_ok:
  assumes "separate B" "sessions_ok B w" "run B oc request artifacts reconcile w = (r, w')"
  shows "sessions_ok B w'"
  using assms(3)
proof (cases rule: run_cases)
  case Files
  with assms(2) files_only_ok show ?thesis by (metis sessions_ok_def)
next
  case (Access i binding configuration deadline)
  have "session_ok B w i" using assms(2) by (simp add: sessions_ok_def)
  from timed_access_ok [OF Access(2) this Access(9)] show ?thesis
    using sessions_step assms(1,2) by blast
qed

lemma inspect_ok:
  assumes "separate B" "sessions_ok B w" "inspect B oc i w = (r, w')"
  shows "sessions_ok B w'"
proof (cases "\<exists>binding. session B i = Inr binding \<and> oc_lock oc = Inr ()")
  case True
  then obtain binding where binding: "session B i = Inr binding" "oc_lock oc = Inr ()" by blast
  obtain r1 w1 where first: "identified B oc i binding w = (r1, w1)" by fastforce
  have "session_ok B w i" using assms(2) by (simp add: sessions_ok_def)
  from identified_ok [OF session_map_of [OF binding(1)] this first]
  have start: "only_own B i w w1" "session_ok B w1 i" by blast+
  have "only_own B i w w' \<and> session_ok B w' i"
  proof (cases r1)
    case (Inl e)
    with assms(3) binding first have "w' = discard i w1"
      by (cases e) (auto simp: inspect_def abind_def alift_def)
    with start discard_ok show ?thesis by (metis only_own.goes_on)
  next
    case (Inr obs)
    have "moves files_only (abind (publish_bytes B (FromCommissioning i) (be_observation_bytes B obs))
        (\<lambda>evidence. areturn (obs\<lparr>obs_evidence := Some evidence\<rparr>)))"
      by (intro files_only.moves_intros files_only_publish_bytes)
    moreover have "abind (publish_bytes B (FromCommissioning i) (be_observation_bytes B obs))
        (\<lambda>evidence. areturn (obs\<lparr>obs_evidence := Some evidence\<rparr>)) w1 = (r, w')"
      using assms(3) binding first Inr by (auto simp: inspect_def abind_def alift_def)
    ultimately have "files_only w1 w'" by (rule movesD)
    with start files_only_ok show ?thesis by (metis only_own.goes_on)
  qed
  with assms sessions_step show ?thesis by blast
next
  case False
  with assms show ?thesis
    by (auto simp: inspect_def abind_def alift_def split: sum.splits)
qed

inductive backend_reach :: "backend_env \<Rightarrow> backend_world \<Rightarrow> bool" for B :: backend_env where
  Started: "bw_connections w = (\<lambda>_. None) \<Longrightarrow> backend_reach B w"
| Ran: "backend_reach B w \<Longrightarrow> run B oc request artifacts reconcile w = (r, w') \<Longrightarrow> backend_reach B w'"
| Inspected: "backend_reach B w \<Longrightarrow> inspect B oc i w = (r', w') \<Longrightarrow> backend_reach B w'"

lemma reach_ok: "backend_reach B w \<Longrightarrow> separate B \<Longrightarrow> sessions_ok B w"
proof (induction rule: backend_reach.induct)
  case (Started w)
  then show ?case by (simp add: sessions_ok_def session_ok_def)
qed (blast intro: run_ok inspect_ok)+

text \<open>C37: In a running backend every open session is of the kind its binding configures; an
  open simulator belongs to the configured physical identity, has the configured capacity and
  agrees with its store file, whatever failures, faults and timeouts the operations met.\<close>

theorem sessions_match_bindings:
  assumes "backend_open B0 bindings = Inr B" "backend_reach B w" "bw_connections w i = Some c"
  shows "\<exists>binding. map_of bindings i = Some binding \<and> session_matches B w (db_config binding) c"
proof -
  have "B = B0\<lparr>be_sessions := bindings\<rparr>" using assms(1) by (auto simp: backend_open_def Let_def)
  moreover have "session_ok B w i"
    using reach_ok [OF assms(2) opened_separate [OF assms(1)]] by (simp add: sessions_ok_def)
  ultimately show ?thesis using assms(3) by (simp add: session_ok_def)
qed

end
