(* ===== verification/Backend_Safety.thy ===== *)
theory Backend_Safety
  imports Backend_Invariant
begin

text \<open>
  What a backend operation may do: nothing but identification before the instrument has
  proved to be the reviewed one, nothing but observation when it reconciles, and no session
  that outlives a failure.
\<close>

section \<open>Nothing happens to the other instruments\<close>

definition others :: "instrument_id \<Rightarrow> backend_world \<Rightarrow> backend_world \<Rightarrow> bool" where
  "others i w w' \<longleftrightarrow> (\<forall>j. j \<noteq> i \<longrightarrow> sent_to w' j = sent_to w j)"

interpretation others: movement "others i" for i
  by unfold_locales (simp_all add: others_def)

lemma quiet_others: "quiet P i w w' \<Longrightarrow> others i w w'"
  by (simp add: quiet_def others_def)

lemma files_only_quiet:
  assumes "files_only w w'"
  shows "quiet P i w w'"
proof -
  from assms obtain files where "w' = w\<lparr>bw_files := files\<rparr>" unfolding files_only_def by blast
  then show ?thesis by (simp add: quiet_def sent_to_def)
qed

lemma others_operate: "moves (others i) (operate B oc request artifacts reconcile i binding deadline observed)"
proof (rule movesI)
  fix w r w' assume run: "operate B oc request artifacts reconcile i binding deadline observed w = (r, w')"
  show "others i w w'"
  proof (cases "bw_connections w i")
    case (Some c)
    then show ?thesis
      by (cases c) (use run Some in \<open>auto simp: operate_def Let_def on_bpio2_def on_numato_def
          on_simulator_def put_simulator_def others_def alift_def sent_to_def split: prod.splits\<close>)
  qed (use run in \<open>simp add: operate_def Let_def afail_def others.stays\<close>)
qed

section \<open>Identity before effects\<close>

text \<open>The instrument \<open>i\<close> was observed, at this call, to be the reviewed one: target, fixture
  and configuration are those of the review, the observed fingerprint and the physical
  identity are those the request expects, and no interlock had expired.\<close>

definition reviewed_instrument :: "backend_env \<Rightarrow> occasion \<Rightarrow> dispatch_request \<Rightarrow> instrument_id \<Rightarrow> backend_world \<Rightarrow> bool" where
  "reviewed_instrument B oc request i w \<longleftrightarrow> (\<exists>binding configuration observed w1 identity.
     map_of (be_sessions B) i = Some binding
     \<and> db_target_fingerprint binding = dr_expected_target_fingerprint request
     \<and> db_fixture_revision binding = dr_expected_fixture_revision request
     \<and> configuration_digest B binding = Inr configuration
     \<and> map_of (dr_expected_instrument_configurations request) i = Some configuration
     \<and> identified B oc i binding w = (Inr observed, w1)
     \<and> map_of (dr_expected_instrument_fingerprints request) i = Some (source_fingerprint observed)
     \<and> verify_usb B (oc_host oc Observing) (db_config binding) = Inr identity
     \<and> configured_physical_identity (be_env B) (de_debug (be_device B)) (db_config binding) = Inr identity
     \<and> map_of (dr_expected_instrument_physical_identities request) i = Some identity
     \<and> (\<forall>expires. dr_interlocks_valid_until request = Some expires \<longrightarrow>
          interlock_left (be_env B) (oc_now oc Locked) expires \<noteq> None \<and> oc_now oc Verified < expires))"

lemma sighted_physical_identity:
  "text_member ''physical_identity'' (JObject (sighted_body fingerprint configured configuration seen))
     = Some (digest_str configured)"
  by (simp add: text_member_def sighted_body_def object_def map_of_merge json_digest_def)

lemma verify_serial_usb_Inr:
  assumes "verify_serial_usb E H serial configured = Inr identity"
  shows "identity = configured"
proof -
  obtain identities where "(case identities of
       [observed_identity] \<Rightarrow>
         if observed_identity \<noteq> sb_expected_usb_identity serial then Inl not_commissioned_usb
         else rbind (canonical_serial_usb_identity observed_identity) (\<lambda>key.
           if key_digest E key \<noteq> configured
           then Inl (malformed ''observed USB identity differs from configured physical identity'')
           else Inr (key_digest E key))
     | _ \<Rightarrow> Inl not_commissioned_usb) = Inr identity"
    using assms unfolding verify_serial_usb_def rbind_Inr_iff by blast
  then show ?thesis by (auto split: list.splits if_splits)
qed

lemma verify_usb_configured:
  "verify_usb B H config = Inr identity \<Longrightarrow>
     configured_physical_identity (be_env B) (de_debug (be_device B)) config = Inr identity"
  by (auto simp: verify_usb_def dest!: verify_serial_usb_Inr split: option.splits)

lemma identified_identity:
  assumes "identified B oc i binding w = (Inr observed, w')"
  obtains identity where "verify_usb B (oc_host oc Observing) (db_config binding) = Inr identity"
    "configured_physical_identity (be_env B) (de_debug (be_device B)) (db_config binding) = Inr identity"
    "text_member ''physical_identity'' (obs_body observed) = Some (digest_str identity)"
proof -
  from assms obtain w1 where "observe B oc i binding w1 = (Inr observed, w')"
    by (auto simp: identified_def afail_def split: if_splits)
  then obtain identity where "verify_usb B (oc_host oc Observing) (db_config binding) = Inr identity"
    "configured_physical_identity (be_env B) (de_debug (be_device B)) (db_config binding) = Inr identity"
    "text_member ''physical_identity'' (obs_body observed) = Some (digest_str identity)"
    using verify_usb_configured
    by (fastforce simp: observe_def Let_def sighted_physical_identity split: if_splits)
  then show thesis by (rule that)
qed

lemma digest_str_option:
  "map_option digest_str x = Some (digest_str d) \<longleftrightarrow> x = Some d"
  "Some (digest_str d) = map_option digest_str x \<longleftrightarrow> x = Some d"
  by (cases x; cases d; auto simp: artifact_digest.expand)+

lemma device_access_gated:
  assumes "map_of (be_sessions B) i = Some binding"
    "db_target_fingerprint binding = dr_expected_target_fingerprint request"
    "db_fixture_revision binding = dr_expected_fixture_revision request"
    "configuration_digest B binding = Inr configuration"
    "map_of (dr_expected_instrument_configurations request) i = Some configuration"
    "access_deadline B oc request = Some deadline"
    and "device_access B oc request artifacts reconcile i binding deadline w = (r, w')"
  shows "others i w w' \<and> (quiet (identification (be_device B)) i w w' \<or> reviewed_instrument B oc request i w)"
proof -
  obtain r1 w1 where first: "identified B oc i binding w = (r1, w1)" by fastforce
  from movesD [OF quiet_identified this] have start: "quiet (identification (be_device B)) i w w1" .
  show ?thesis
  proof (cases "\<exists>observed. r1 = Inr observed \<and> identity_rejection oc request i observed = None")
    case True
    then obtain observed where r1: "r1 = Inr observed" "identity_rejection oc request i observed = None" by blast
    obtain identity where identity: "verify_usb B (oc_host oc Observing) (db_config binding) = Inr identity"
      "configured_physical_identity (be_env B) (de_debug (be_device B)) (db_config binding) = Inr identity"
      "text_member ''physical_identity'' (obs_body observed) = Some (digest_str identity)"
      using identified_identity first r1(1) by blast
    have "reviewed_instrument B oc request i w"
      unfolding reviewed_instrument_def
      using assms(1-6) first r1 identity
      by (auto simp: identity_rejection_def access_deadline_def expired_at_def Let_def
          digest_str_option split: if_splits option.splits)
    moreover obtain r2 w2 where ran: "operate B oc request artifacts reconcile i binding deadline observed w1 = (r2, w2)"
      by fastforce
    moreover have "w' = w2"
      using assms(7) first r1 ran by (auto simp: device_access_def abind_def areturn_def split: sum.splits)
    ultimately show ?thesis
      using quiet_others [OF start] movesD [OF others_operate] others.goes_on by blast
  next
    case False
    then have "w' = w1"
      using first assms(7) by (auto simp: device_access_def abind_def areturn_def split: sum.splits option.splits)
    with start quiet_others show ?thesis by blast
  qed
qed

text \<open>What follows the access, under the timeout or not, is silent.\<close>

lemma timed_access_after:
  assumes "timed_access B oc request artifacts reconcile i binding deadline w = (r, w')"
  obtains r1 w1 where "device_access B oc request artifacts reconcile i binding deadline w = (r1, w1)"
    "quiet P i w1 w'"
proof -
  obtain r1 w1 where first: "device_access B oc request artifacts reconcile i binding deadline w = (r1, w1)"
    by fastforce
  have "quiet P i w1 w'"
  proof (cases r1)
    case (Inr x)
    with first assms have "discarding i (settle_access B oc request reconcile x) w1 = (r, w')"
      by (simp add: timed_access_def)
    then show ?thesis by (rule movesD [OF quiet_discarding [OF quiet_settle_access]])
  next
    case (Inl e)
    with first assms have "w' = discard i w1" by (cases e) (auto simp: timed_access_def)
    then show ?thesis by (simp add: quiet_discard)
  qed
  with first that show thesis by blast
qed

text \<open>C35: A device operation reaches no instrument but its own; and before that one has been
  observed in this call to be the reviewed instrument, with its interlocks still valid, it is
  sent nothing but the requests that identify it and no store file is changed.\<close>

theorem identity_before_effect:
  assumes "run B oc request artifacts reconcile w = (r, w')"
    and "op_instrument (dr_operation request) = Some i"
  shows "(\<forall>j. j \<noteq> i \<longrightarrow> sent_to w' j = sent_to w j)
    \<and> (quiet (identification (be_device B)) i w w' \<or> reviewed_instrument B oc request i w)"
  using assms(1)
proof (cases rule: run_cases)
  case Files
  then show ?thesis using files_only_quiet quiet_others unfolding others_def by blast
next
  case (Access j binding configuration deadline)
  with assms(2) have j: "j = i" by simp
  obtain r1 w1 where first: "device_access B oc request artifacts reconcile i binding deadline w = (r1, w1)"
    and after: "quiet (identification (be_device B)) i w1 w'"
    using timed_access_after Access(9) j by blast
  from device_access_gated [OF Access(2-7) [unfolded j] first] after show ?thesis
    unfolding others_def by (metis quiet.goes_on quiet_others others_def)
qed

section \<open>Failures close the session\<close>

text \<open>When an operation fails or runs out of time, its session is closed, unless the call
  ended before it touched a device; so the next operation opens and identifies it anew.\<close>

theorem failure_closes_session:
  assumes "run B oc request artifacts reconcile w = (Inl (Failed e), w')"
    and "op_instrument (dr_operation request) = Some i"
  shows "bw_connections w' i = None \<or> files_only w w'"
  using assms(1)
proof (cases rule: run_cases)
  case (Access j binding configuration deadline)
  from Access(9) have "\<exists>w1. w' = discard j w1"
    by (auto simp: timed_access_def discarding_def split: prod.splits sum.splits stop.splits)
  with Access(1) assms(2) show ?thesis by (auto simp: discard_def)
qed simp

section \<open>Reconciliation\<close>

text \<open>The frames of a reconciliation, per kind of instrument.\<close>

definition relay_query :: "u8 list \<Rightarrow> bool" where
  "relay_query frame \<longleftrightarrow> frame \<in> command_frame ` {''ver'', ''id get'', ''relay readall''}"

definition reconciling_frame :: "device_env \<Rightarrow> instrument_config \<Rightarrow> u8 list \<Rightarrow> bool" where
  "reconciling_frame D config frame = (case config of
     Bpio2Instrument _ \<Rightarrow> frame_of (de_codec D) observing frame
   | NumatoInstrument _ \<Rightarrow> relay_query frame
   | _ \<Rightarrow> False)"

text \<open>Along a session that matches its binding, only such frames are sent.\<close>

definition reconciles :: "backend_env \<Rightarrow> instrument_id \<Rightarrow> device_binding \<Rightarrow> backend_world \<Rightarrow> backend_world \<Rightarrow> bool" where
  "reconciles B i binding w w' \<longleftrightarrow> (session_ok B w i \<longrightarrow>
     session_ok B w' i \<and> quiet (reconciling_frame (be_device B) (db_config binding)) i w w')"

interpretation reconciles: movement "reconciles B i binding" for B i binding
  by unfold_locales (auto simp: reconciles_def quiet.stays intro: quiet.goes_on)

lemma session_kind:
  assumes "session_ok B w i" "map_of (be_sessions B) i = Some binding" "bw_connections w i = Some c"
  shows "session_matches B w (db_config binding) c"
  using assms by (simp add: session_ok_def)

lemma sends_identify_bpio2:
  "sends ad_wire (frame_of (de_codec D) observing) (bpio2_sighting D serial_identity)"
  unfolding bpio2_sighting_def
  by (intro sends_abind sends_if sends_pure requests_via requests_identify) simp

lemma sends_identify_numato:
  "sends (\<lambda>w. w) relay_query (numato_sighting D serial_identity)"
  unfolding numato_sighting_def numato_identify_def
  by (intro sends_abind sends_amap_err sends_numato_command sends_pure) (simp_all add: relay_query_def)

lemma reconciles_sight:
  assumes "map_of (be_sessions B) i = Some binding"
  shows "moves (reconciles B i binding) (sight B H i configured serial_identity)"
proof (rule movesI)
  fix w r w' assume run: "sight B H i configured serial_identity w = (r, w')"
  have "quiet (reconciling_frame (be_device B) (db_config binding)) i w w'" if ok: "session_ok B w i"
  proof (cases "bw_connections w i")
    case (Some c)
    with ok assms have kind: "session_matches B w (db_config binding) c" by (rule session_kind)
    show ?thesis
    proof (cases c)
      case (ConnectedBpio2 a)
      with kind have "reconciling_frame (be_device B) (db_config binding) = frame_of (de_codec (be_device B)) observing"
        by (cases "db_config binding") (auto simp: reconciling_frame_def fun_eq_iff)
      with run Some ConnectedBpio2 show ?thesis
        by (auto simp: sight_def intro: quiet_on_bpio2 [OF sends_identify_bpio2])
    next
      case (ConnectedNumato line)
      with kind have "reconciling_frame (be_device B) (db_config binding) = relay_query"
        by (cases "db_config binding") (auto simp: reconciling_frame_def fun_eq_iff)
      with run Some ConnectedNumato show ?thesis
        by (auto simp: sight_def intro: quiet_on_numato [OF sends_identify_numato])
    qed (use run Some in \<open>auto simp: sight_def areturn_def alift_def quiet.stays\<close>)
  qed (use run in \<open>simp add: sight_def afail_def quiet.stays\<close>)
  with run show "reconciles B i binding w w'" using sight_ok by (auto simp: reconciles_def)
qed

lemma reconciles_observe:
  assumes "map_of (be_sessions B) i = Some binding"
  shows "moves (reconciles B i binding) (observe B oc i binding)"
  unfolding observe_def Let_def by (intro reconciles.moves_intros reconciles_sight assms)

lemma reconciles_identified:
  assumes "map_of (be_sessions B) i = Some binding"
  shows "moves (reconciles B i binding) (identified B oc i binding)"
proof -
  have "moves (reconciles B i binding) (connect B H i binding)" for H
    by (rule movesI) (use connect_ok [OF assms] movesD [OF quiet_connect] in \<open>simp add: reconciles_def\<close>)
  moreover have "moves (reconciles B i binding) (\<lambda>w. if bw_connections w i = None
      then afail (malformed ''missing device session'') w else observe B oc i binding w)"
    using reconciles_observe [OF assms, of oc] by (simp add: moves_def afail_def reconciles.stays)
  ultimately show ?thesis unfolding identified_def by (intro reconciles.moves_abind)
qed

lemma relay_frame_reconciling:
  "relay_frame c oper True f \<Longrightarrow> relay_query f"
  by (simp add: relay_frame_def relay_query_def)

lemma reconciling_operate:
  assumes "map_of (be_sessions B) i = Some binding" "session_ok B w i"
    and "operate B oc request artifacts True i binding deadline observed w = (r, w')"
  shows "quiet (reconciling_frame (be_device B) (db_config binding)) i w w'"
proof (cases "bw_connections w i")
  case (Some c)
  with assms(1,2) have kind: "session_matches B w (db_config binding) c" using session_kind by blast
  show ?thesis
  proof (cases c)
    case (ConnectedBpio2 a)
    with kind have "reconciling_frame (be_device B) (db_config binding) = frame_of (de_codec (be_device B)) observing"
      by (cases "db_config binding") (auto simp: reconciling_frame_def fun_eq_iff)
    with assms(3) Some ConnectedBpio2 show ?thesis
      by (auto simp: operate_def Let_def intro: quiet_on_bpio2 [OF requests_reconciliation])
  next
    case (ConnectedNumato line)
    with kind obtain nc where nc: "db_config binding = NumatoInstrument nc" by (cases "db_config binding") auto
    have "sends (\<lambda>w. w) (reconciling_frame (be_device B) (db_config binding))
        (relay_operation (be_device B) (db_config binding) (dr_operation request) True)"
      unfolding nc
      by (rule sends_mono [OF sends_relay_operation])
        (use relay_frame_reconciling in \<open>auto simp: reconciling_frame_def\<close>)
    with assms(3) Some ConnectedNumato show ?thesis
      by (auto simp: operate_def Let_def intro: quiet_on_numato)
  next
    case (ConnectedSimulator key s)
    with kind have disk: "bw_stores w key = sim_disk s" by (cases "db_config binding") auto
    from assms(3) Some ConnectedSimulator have "w' = put_simulator i key s w"
      using simulated_reconcile_state [of "be_device B" "ho_store_write (oc_host oc Operating)" "dr_operation request" artifacts s]
      by (auto simp: operate_def on_simulator_def Let_def split: prod.splits)
    with disk Some ConnectedSimulator show ?thesis by (auto simp: quiet_def put_simulator_def sent_to_def)
  qed (use assms Some in \<open>auto simp: operate_def alift_def quiet.stays Let_def\<close>)
qed (use assms in \<open>auto simp: operate_def afail_def quiet.stays Let_def\<close>)

lemma reconciling_access:
  assumes "map_of (be_sessions B) i = Some binding" "session_ok B w i"
    and "device_access B oc request artifacts True i binding deadline w = (r, w')"
  shows "quiet (reconciling_frame (be_device B) (db_config binding)) i w w'"
proof -
  obtain r1 w1 where first: "identified B oc i binding w = (r1, w1)" by fastforce
  have start: "session_ok B w1 i" "quiet (reconciling_frame (be_device B) (db_config binding)) i w w1"
    using movesD [OF reconciles_identified [OF assms(1)] first] assms(2) by (auto simp: reconciles_def)
  show ?thesis
  proof (cases "\<exists>observed. r1 = Inr observed \<and> identity_rejection oc request i observed = None")
    case True
    then obtain observed where r1: "r1 = Inr observed" "identity_rejection oc request i observed = None" by blast
    obtain r2 w2 where ran: "operate B oc request artifacts True i binding deadline observed w1 = (r2, w2)"
      by fastforce
    have "w' = w2"
      using assms(3) first r1 ran by (auto simp: device_access_def abind_def areturn_def split: sum.splits)
    with start(2) reconciling_operate [OF assms(1) start(1) ran] show ?thesis by (blast intro: quiet.goes_on)
  qed (use first start(2) assms(3) in \<open>auto simp: device_access_def abind_def areturn_def split: sum.splits option.splits\<close>)
qed

text \<open>Reconciling observes and does nothing else: in any running backend, whatever the
  instrument answers, it is sent only status requests, mode settings and read commands (a Bus
  Pirate) or the queries of its identity and relay states (a relay module), a simulator keeps
  its store file, and no other instrument is reached.\<close>

theorem backend_reconciles_by_observing:
  assumes "backend_open B0 bindings = Inr B" "backend_reach B w"
    and "run B oc request artifacts True w = (r, w')"
    and "op_instrument (dr_operation request) = Some i" "map_of bindings i = Some binding"
  shows "quiet (reconciling_frame (be_device B) (db_config binding)) i w w'"
  using assms(3)
proof (cases rule: run_cases)
  case Files
  then show ?thesis using files_only_quiet by blast
next
  case (Access j own configuration deadline)
  have "B = B0\<lparr>be_sessions := bindings\<rparr>" using assms(1) by (auto simp: backend_open_def Let_def)
  with Access(1,2) assms(4,5) have same: "j = i" "own = binding" by simp_all
  have ok: "session_ok B w i"
    using reach_ok [OF assms(2) opened_separate [OF assms(1)]] by (simp add: sessions_ok_def)
  obtain r1 w1 where first: "device_access B oc request artifacts True i binding deadline w = (r1, w1)"
    and after: "quiet (reconciling_frame (be_device B) (db_config binding)) i w1 w'"
    using timed_access_after Access(9) same by blast
  from reconciling_access [OF Access(2) [unfolded same] ok first] after show ?thesis by (rule quiet.goes_on)
qed

end
