(* ===== verification/Backend_Evidence.thy ===== *)
theory Backend_Evidence
  imports Backend_Safety Supervisor_Ops
begin

text \<open>
  What the receipts of the backend are worth to the supervisor. Every observation the backend
  returns is published as an envelope that binds the attempt, its challenge and its phase, and
  the check that the supervisor makes of a receipt (\<open>verify_receipt_evidence\<close> of
  \<open>src/supervisor/mod.rs\<close>) accepts it, through every later use of the evidence store.
\<close>

section \<open>Published envelopes\<close>

fun receipt_observation :: "operation_receipt \<Rightarrow> observation option" where
  "receipt_observation (ReceiptCompleted obs) = Some obs"
| "receipt_observation (ReceiptPartial obs _) = Some obs"
| "receipt_observation (ReceiptUnknown _ obs) = obs"
| "receipt_observation (ReceiptRejected _) = None"

text \<open>The evidence of an observation is an envelope of this dispatch, published for its attempt.\<close>

definition evidenced :: "backend_env \<Rightarrow> dispatch_request \<Rightarrow> file_system \<Rightarrow> observation \<Rightarrow> bool" where
  "evidenced B request files obs \<longleftrightarrow> (\<exists>digest bytes found.
     obs_evidence obs = Some digest
     \<and> be_envelope_bytes B (envelope_for request (obs\<lparr>obs_evidence := None\<rparr>)) = Inr bytes
     \<and> digest = artifact_sha256 (env_sha256_hex (be_env B)) bytes
     \<and> published (be_env B) (be_store B) files digest (FromAttempt (dr_attempt request)) found)"

lemma on_evidence_Inr:
  "on_evidence B m w = (Inr x, w') \<longleftrightarrow> (\<exists>files. m (bw_files w) = (Inr x, files) \<and> w' = w\<lparr>bw_files := files\<rparr>)"
proof -
  obtain r files where ran: "m (bw_files w) = (r, files)" by fastforce
  then show ?thesis
    by (cases r) (auto simp: on_evidence_def split: stop.split)
qed

lemma publish_bytes_Inr:
  assumes "publish_bytes B source encoded w = (Inr digest, w')"
  shows "\<exists>bytes found. encoded = Inr bytes \<and> digest = artifact_sha256 (env_sha256_hex (be_env B)) bytes
    \<and> published (be_env B) (be_store B) (bw_files w') digest source found"
proof -
  from assms obtain bytes files where encoded: "encoded = Inr bytes"
    and ran: "publish (be_env B) (be_store B) bytes source (bw_files w) = (Inr digest, files)"
    and w': "w' = w\<lparr>bw_files := files\<rparr>"
    by (auto simp: publish_bytes_def on_evidence_Inr)
  with publish_published [OF ran] show ?thesis by auto
qed

lemma backend_publish_evidenced:
  assumes "backend_publish B oc request fingerprint body content w = (Inr obs, w')"
  shows "evidenced B request (bw_files w') obs"
proof -
  from assms obtain digest w1 where
    ran: "publish_bytes B (FromAttempt (dr_attempt request))
      (be_envelope_bytes B (envelope_for request (obs\<lparr>obs_evidence := None\<rparr>))) w1 = (Inr digest, w')"
    and obs: "obs_evidence obs = Some digest"
    by (auto simp: backend_publish_def Let_def)
  with publish_bytes_Inr [OF ran] show ?thesis by (auto simp: evidenced_def)
qed

lemma settle_access_evidenced:
  assumes "settle_access B oc request reconciling access w = (Inr receipt, w')"
    and "receipt_observation receipt = Some obs"
  shows "evidenced B request (bw_files w') obs"
proof (cases access)
  case (Accessed observed result)
  with assms obtain published where
    "backend_publish B oc request (source_fingerprint observed) (rd_body result) (rd_bytes result) w = (Inr published, w')"
    "receipt = access_receipt reconciling (rd_partial result) published"
    by (auto simp: settle_access_def)
  moreover from this(2) assms(2) have "published = obs"
    by (cases "rd_partial result") (auto split: if_splits)
  ultimately show ?thesis using backend_publish_evidenced by simp
qed (use assms in \<open>auto simp: settle_access_def\<close>)

lemma run_evidenced:
  assumes "run B oc request artifacts reconciling w = (Inr receipt, w')"
    and "receipt_observation receipt = Some obs"
  shows "evidenced B request (bw_files w') obs"
proof (cases "\<exists>t n. dr_operation request = Wait t n")
  case True
  then obtain t n where wait: "dr_operation request = Wait t n" by blast
  with assms obtain body where
    "backend_publish B oc request (text_digest (be_env B) ''cheirismos:monotonic-clock:v1'') body None w = (Inr obs, w')"
    by (auto simp: run_def run_wait_def split: if_splits)
  then show ?thesis by (rule backend_publish_evidenced)
next
  case False
  from assms(1) show ?thesis
  proof (cases rule: run_cases)
    case Files
    with False assms(2) show ?thesis by force
  next
    case (Access i binding configuration deadline)
    then obtain access w1 where "settle_access B oc request reconciling access w1 = (Inr receipt, w')"
      by (auto simp: timed_access_def discarding_def split: prod.splits sum.splits stop.splits)
    then show ?thesis using assms(2) by (rule settle_access_evidenced)
  qed
qed

section \<open>The supervisor accepts the evidence\<close>

text \<open>What is assumed of the crates: \<open>serde_json\<close> reads an envelope it has written, and no
  other bytes have the SHA-256 of an envelope.\<close>

definition envelope_format :: "env \<Rightarrow> (evidence_envelope \<Rightarrow> string + u8 list) \<Rightarrow> bool" where
  "envelope_format E bytes_of \<longleftrightarrow> (\<forall>envelope bytes. bytes_of envelope = Inr bytes \<longrightarrow>
     env_parse_envelope E bytes = Inr envelope
     \<and> (\<forall>found. artifact_sha256 (env_sha256_hex E) found = artifact_sha256 (env_sha256_hex E) bytes
          \<longrightarrow> found = bytes))"

text \<open>The artifact store as the supervisor asks it for the evidence of an attempt.\<close>

definition stored_source :: "backend_env \<Rightarrow> artifact_digest \<Rightarrow> attempt_id \<Rightarrow> file_system \<Rightarrow> string + u8 list" where
  "stored_source B digest attempt files =
     (case fst (verify_source (be_env B) (be_store B) digest (FromAttempt attempt) files) of
        Inr bytes \<Rightarrow> Inr bytes
      | Inl (Failed e) \<Rightarrow> Inl (evidence_text (be_io_text B) e)
      | Inl Dropped \<Rightarrow> Inl [])"

lemma evidenced_bound:
  assumes "evidenced B request files0 obs" "envelope_format (be_env B) (be_envelope_bytes B)"
    and "evidence_run (be_env B) (be_store B) files0 files" "fs_script files = replicate 13 Works @ script"
    and "bn_env bench = be_env B" "bn_verify_source bench = stored_source B" "w_device world = files"
  shows "bound_envelope bench (dr_attempt request) (dr_evidence_challenge request)
    (dr_evidence_phase request) obs missing mismatch world = (Inr (), world)"
proof -
  from assms(1) obtain digest bytes found where evidence: "obs_evidence obs = Some digest"
    "be_envelope_bytes B (envelope_for request (obs\<lparr>obs_evidence := None\<rparr>)) = Inr bytes"
    "digest = artifact_sha256 (env_sha256_hex (be_env B)) bytes"
    "published (be_env B) (be_store B) files0 digest (FromAttempt (dr_attempt request)) found"
    by (auto simp: evidenced_def)
  have later: "published (be_env B) (be_store B) files digest (FromAttempt (dr_attempt request)) found"
    using evidence_run_published [OF assms(3) evidence(4)] .
  then have "artifact_sha256 (env_sha256_hex (be_env B)) found = digest" by (auto simp: published_def)
  with evidence(2,3) assms(2) have content: "found = bytes"
    "env_parse_envelope (be_env B) bytes = Inr (envelope_for request (obs\<lparr>obs_evidence := None\<rparr>))"
    by (auto simp: envelope_format_def)
  with verify_source_works [OF later assms(4)]
  have "bn_verify_source bench digest (dr_attempt request) (w_device world) = Inr bytes"
    by (simp add: assms(6,7) stored_source_def)
  with evidence(1) content(2) show ?thesis
    by (simp add: bound_envelope_def sbind_def lift_result_def assms(5) envelope_for_def sreturn_def)
qed

text \<open>C36: The supervisor accepts every receipt the backend returns: after any later use of the
  evidence store and any crash, once the file system answers, the evidence of the receipt is
  found under the attempt it was published for, and its envelope binds that attempt, the
  challenge and the phase of the dispatch and the observation of the receipt.\<close>

theorem backend_receipt_accepted:
  assumes "run B oc request artifacts reconciling w = (Inr receipt, w')"
    and "envelope_format (be_env B) (be_envelope_bytes B)"
    and "evidence_run (be_env B) (be_store B) (bw_files w') files"
    and "fs_script files = replicate 13 Works @ script"
    and "bn_env bench = be_env B" "bn_verify_source bench = stored_source B" "w_device world = files"
    and "at_id attempt = dr_attempt request"
  shows "verify_receipt_evidence bench attempt request receipt world = (Inr receipt, world)"
proof (cases "receipt_observation receipt")
  case None
  then show ?thesis
    by (cases receipt) (auto simp: verify_receipt_evidence_def sreturn_def)
next
  case (Some obs)
  from evidenced_bound [OF run_evidenced [OF assms(1) Some] assms(2-7)]
  have "bound_envelope bench (at_id attempt) (dr_evidence_challenge request) (dr_evidence_phase request)
      obs missing mismatch world = (Inr (), world)" for missing mismatch
    by (simp add: assms(8))
  with Some show ?thesis
    by (cases receipt) (auto simp: verify_receipt_evidence_def sbind_def sreturn_def Let_def split: option.splits)
qed

end
