(* ===== verification/Evidence_Liveness.thy ===== *)
theory Evidence_Liveness
  imports Evidence_Durability Device_Config
begin

text \<open>
  Publishing succeeds whenever the file system answers and the places it needs are free or
  already hold what belongs there; with it, the concrete store on which the properties of
  the evidence store are witnessed.
\<close>

section \<open>Calls that work\<close>

definition calm :: "nat \<Rightarrow> file_system \<Rightarrow> bool" where
  "calm n s \<longleftrightarrow> (\<exists>m. n \<le> m \<and> fs_script s = replicate m Works)"

lemma calm_script:
  assumes "calm (Suc n) s"
  obtains script where "fs_script s = Works # script" "\<And>t. fs_script t = script \<Longrightarrow> calm n t"
proof -
  from assms obtain m where "Suc n \<le> m" "fs_script s = replicate m Works" by (auto simp: calm_def)
  then show ?thesis using that [of "replicate (m - 1) Works"] by (cases m) (auto simp: calm_def)
qed

text \<open>\<open>ends m s n x P\<close>: with \<open>n\<close> calls to spare \<open>m\<close> returns \<open>x\<close> and leaves
  nodes and a sequence number as given.\<close>

definition ends ::
  "(file_system, 'e, 'a) action \<Rightarrow> file_system \<Rightarrow> nat \<Rightarrow> 'a \<Rightarrow> (path \<Rightarrow> fs_node option) \<Rightarrow> bool" where
  "ends m s n x nodes \<longleftrightarrow> (\<exists>s'. m s = (Inr x, s') \<and> calm n s' \<and> fs_nodes s' = nodes \<and> fs_sequence s' = fs_sequence s)"

lemma ends_abind:
  assumes "ends m s n x nodes"
    and "\<And>s1. calm n s1 \<Longrightarrow> fs_nodes s1 = nodes \<Longrightarrow> fs_sequence s1 = fs_sequence s \<Longrightarrow> ends (f x) s1 k y nodes'"
  shows "ends (abind m f) s k y nodes'"
proof -
  from assms(1) obtain s1 where "m s = (Inr x, s1)" "calm n s1" "fs_nodes s1 = nodes"
    "fs_sequence s1 = fs_sequence s" by (auto simp: ends_def)
  with assms(2) [of s1] show ?thesis by (auto simp: ends_def abind_def)
qed

lemma ends_areturn: "calm n s \<Longrightarrow> ends (areturn x) s n x (fs_nodes s)"
  by (auto simp: ends_def areturn_def)

lemma ends_amap_err: "ends m s n x nodes \<Longrightarrow> ends (amap_err g m) s n x nodes"
  by (auto simp: ends_def amap_err_def)

lemma ends_atry: "ends m s n x nodes \<Longrightarrow> ends (atry m) s n (Inr x) nodes"
  by (auto simp: ends_def atry_def)

lemma ends_syscall:
  assumes "calm (Suc n) s" "effect (s\<lparr>fs_script := tl (fs_script s)\<rparr>) = (Inr x, s1)"
    and "fs_script s1 = tl (fs_script s)" "fs_sequence s1 = fs_sequence s"
  shows "ends (syscall_with part effect) s n x (fs_nodes s1)"
  using assms by (elim calm_script) (auto simp: ends_def syscall_with_def)

lemma ends_metadata:
  assumes "calm (Suc n) s"
  shows "ends (sys_chmod p mode) s n () (fs_nodes s)" "ends (sys_sync p) s n () (fs_nodes s)"
  unfolding sys_chmod_def sys_sync_def
  using ends_syscall [OF assms, of "\<lambda>s. (Inr (), s\<lparr>fs_mode := (fs_mode s)(p := mode)\<rparr>)"]
    ends_syscall [OF assms, of "\<lambda>s. (Inr (), s\<lparr>fs_synced := (fs_synced s)(p := True),
      fs_linked := (\<lambda>q. fs_linked s q \<or> (q \<noteq> [] \<and> butlast q = p))\<rparr>)"]
  by force+

lemma ends_open_directory:
  assumes "calm (Suc n) s" "fs_nodes s (parent @ [name]) = Some Directory"
  shows "ends (sys_open_directory parent name) s n (parent @ [name]) (fs_nodes s)"
  using assms by (elim calm_script) (auto simp: ends_def calls_work(1))

lemma ends_reading:
  assumes "calm (Suc n) s" "fs_nodes s p = Some (RegularFile bytes)"
  shows "ends (sys_open_file p writable) s n p (fs_nodes s)" "ends (sys_is_file p) s n True (fs_nodes s)"
    "ends (sys_contents p) s n bytes (fs_nodes s)" "ends (sys_length p) s n (length bytes) (fs_nodes s)"
  using assms by (auto elim!: calm_script simp: ends_def calls_work)

lemma ends_creating:
  assumes "calm (Suc n) s" "fs_nodes s p = None"
  shows "ends (sys_create p mode) s n p ((fs_nodes s)(p \<mapsto> RegularFile []))"
  using assms by (auto elim!: calm_script simp: ends_def sys_create_def syscall_with_def new_entry_def put_node_def)

lemma ends_make_directory:
  assumes "calm (Suc n) s" "fs_nodes s (parent @ [name]) = None"
  shows "ends (sys_make_directory parent name mode) s n () ((fs_nodes s)(parent @ [name] \<mapsto> Directory))"
  using assms
  by (auto elim!: calm_script simp: ends_def sys_make_directory_def syscall_with_def new_entry_def put_node_def)

lemma ends_changing:
  assumes "calm (Suc n) s"
  shows "ends (sys_write p bytes) s n () ((fs_nodes s)(p \<mapsto> RegularFile bytes))"
    "fs_nodes s p = Some (RegularFile old) \<Longrightarrow> ends (sys_unlink p) s n () ((fs_nodes s)(p := None))"
    "fs_nodes s p = Some node \<Longrightarrow> fs_nodes s q = None \<Longrightarrow> ends (sys_link p q) s n () ((fs_nodes s)(q \<mapsto> node))"
  using assms
  by (auto elim!: calm_script simp: ends_def sys_write_def sys_unlink_def sys_link_def syscall_with_def
      unsynced_contents_def new_entry_def put_node_def)

lemma absent_fails:
  assumes "calm (Suc n) s"
  shows "fs_nodes s (parent @ [name]) = None \<Longrightarrow> ends (atry (sys_open_directory parent name)) s n (Inl NoEntry) (fs_nodes s)"
    "fs_nodes s p = None \<Longrightarrow> ends (atry (amap_err g (sys_open_file p writable))) s n (Inl (g NoEntry)) (fs_nodes s)"
    "fs_nodes s p \<noteq> None \<Longrightarrow> ends (atry (sys_create p mode)) s n (Inl AlreadyExists) (fs_nodes s)"
  using assms
  by (auto elim!: calm_script simp: ends_def sys_open_directory_def sys_open_file_def sys_create_def
      syscall_with_def atry_def amap_err_def)

lemma calm_less: "calm n s \<Longrightarrow> k \<le> n \<Longrightarrow> calm k s"
  by (auto simp: calm_def)

section \<open>Steps that work\<close>

lemma ends_sync_directory: "calm (Suc n) s \<Longrightarrow> ends (sync_directory p) s n () (fs_nodes s)"
  unfolding sync_directory_def by (intro ends_amap_err ends_metadata)

lemma ends_reach_directory:
  assumes "calm (n + 3) s" "fs_nodes s (parent @ [name]) \<in> {None, Some Directory}"
  shows "\<exists>created. ends (reach_directory parent name) s n (parent @ [name], created)
    ((fs_nodes s)(parent @ [name] \<mapsto> Directory))"
proof (cases "fs_nodes s (parent @ [name])")
  case None
  have "ends (reach_directory parent name) s n (parent @ [name], True) ((fs_nodes s)(parent @ [name] \<mapsto> Directory))"
    unfolding reach_directory_def
  proof (rule ends_abind)
    show "ends (atry (sys_open_directory parent name)) s (n + 2) (Inl NoEntry) (fs_nodes s)"
      using assms(1) None by (intro absent_fails) (simp_all add: numeral_eq_Suc)
  next
    fix s1 assume s1: "calm (n + 2) s1" "fs_nodes s1 = fs_nodes s" "fs_sequence s1 = fs_sequence s"
    have "ends (create_directory parent name) s1 n (parent @ [name], True) ((fs_nodes s)(parent @ [name] \<mapsto> Directory))"
      unfolding create_directory_def
    proof (rule ends_abind [OF ends_atry [OF ends_make_directory]])
      show "calm (Suc (n + 1)) s1" "fs_nodes s1 (parent @ [name]) = None" using s1 None by simp_all
    next
      fix s2 assume s2: "calm (n + 1) s2" "fs_nodes s2 = (fs_nodes s1)(parent @ [name] \<mapsto> Directory)"
      have "ends (sys_open_directory parent name) s2 n (parent @ [name]) (fs_nodes s2)"
        using s2 by (intro ends_open_directory) simp_all
      then show "ends (abind (alift (created_flag (Inr ()))) (\<lambda>created.
          abind (amap_err (open_error (parent @ [name])) (sys_open_directory parent name)) (\<lambda>directory.
            areturn (directory, created)))) s2 n (parent @ [name], True) ((fs_nodes s)(parent @ [name] \<mapsto> Directory))"
        using s1 s2 by (auto simp: ends_def abind_def alift_def amap_err_def areturn_def)
    qed
    then show "ends (case Inl NoEntry of Inr directory \<Rightarrow> areturn (directory, False)
        | Inl e \<Rightarrow> if e = NoEntry then create_directory parent name else afail (open_error (parent @ [name]) e))
        s1 n (parent @ [name], True) ((fs_nodes s)(parent @ [name] \<mapsto> Directory))"
      by simp
  qed
  then show ?thesis ..
next
  case (Some node)
  then have "fs_nodes s (parent @ [name]) = Some Directory" using assms(2) by simp
  then have "ends (sys_open_directory parent name) s n (parent @ [name]) (fs_nodes s)"
    using assms(1) by (intro ends_open_directory calm_less [OF assms(1)]) simp_all
  moreover have "(fs_nodes s)(parent @ [name] \<mapsto> Directory) = fs_nodes s"
    using \<open>fs_nodes s (parent @ [name]) = Some Directory\<close> by (simp add: fun_upd_idem)
  ultimately have "ends (reach_directory parent name) s n (parent @ [name], False)
      ((fs_nodes s)(parent @ [name] \<mapsto> Directory))"
    by (auto simp: ends_def reach_directory_def abind_def atry_def areturn_def)
  then show ?thesis ..
qed

lemma ends_return: "calm n s \<Longrightarrow> fs_nodes s = nodes \<Longrightarrow> ends (areturn x) s n x nodes"
  using ends_areturn by fastforce

lemmas ends_steps = ends_amap_err [OF ends_metadata(1)] ends_amap_err [OF ends_metadata(2)] ends_sync_directory

lemma ends_ensure_directory:
  assumes "calm (n + 6) s" "fs_nodes s (parent @ [name]) \<in> {None, Some Directory}"
  shows "ends (ensure_store_directory parent name) s n (parent @ [name]) ((fs_nodes s)(parent @ [name] \<mapsto> Directory))"
proof -
  from assms obtain created where reached:
    "ends (reach_directory parent name) s (Suc (Suc (Suc n))) (parent @ [name], created)
      ((fs_nodes s)(parent @ [name] \<mapsto> Directory))"
    using ends_reach_directory [of "Suc (Suc (Suc n))" s] by (auto simp: add.assoc numeral_eq_Suc)
  show ?thesis
    unfolding ensure_store_directory_def open_or_create_directory_def
    by (rule ends_abind [OF reached], simp only: prod.case simp_thms if_True,
        (rule ends_abind, rule ends_steps, assumption)+, rule ends_return, simp_all)
qed

lemma ends_descend:
  assumes "calm (n + 6 * length components) s"
    and "\<And>k. 0 < k \<Longrightarrow> k \<le> length components \<Longrightarrow>
      fs_nodes s (directory @ take k components) \<in> {None, Some Directory}"
  shows "ends (descend True directory components) s n (directory @ components)
    (\<lambda>q. if \<exists>k. 0 < k \<and> k \<le> length components \<and> q = directory @ take k components
         then Some Directory else fs_nodes s q)"
  using assms
proof (induction components arbitrary: directory s)
  case Nil
  then show ?case by (auto intro!: ends_return)
next
  case (Cons c rest)
  let ?nodes = "(fs_nodes s)(directory @ [c] \<mapsto> Directory)"
  have first: "ends (ensure_store_directory directory c) s (n + 6 * length rest) (directory @ [c]) ?nodes"
    using Cons.prems(1) Cons.prems(2) [of 1] by (intro ends_ensure_directory) (simp_all add: ac_simps)
  show ?case
    unfolding descend.simps if_True
  proof (rule ends_abind [OF first])
    fix s1 assume s1: "calm (n + 6 * length rest) s1" "fs_nodes s1 = ?nodes"
    have "fs_nodes s1 ((directory @ [c]) @ take k rest) \<in> {None, Some Directory}"
      if "0 < k" "k \<le> length rest" for k
      using Cons.prems(2) [of "Suc k"] that s1(2) by auto
    from Cons.IH [OF s1(1) this]
    have "ends (descend True (directory @ [c]) rest) s1 n ((directory @ [c]) @ rest)
      (\<lambda>q. if \<exists>k. 0 < k \<and> k \<le> length rest \<and> q = (directory @ [c]) @ take k rest
           then Some Directory else fs_nodes s1 q)" .
    moreover have walked: "(\<exists>k. 0 < k \<and> k \<le> length (c # rest) \<and> q = directory @ take k (c # rest))
        \<longleftrightarrow> q = directory @ [c] \<or> (\<exists>k. 0 < k \<and> k \<le> length rest \<and> q = (directory @ [c]) @ take k rest)" for q
    proof
      assume "\<exists>k. 0 < k \<and> k \<le> length (c # rest) \<and> q = directory @ take k (c # rest)"
      then obtain k where "0 < k" "k \<le> length (c # rest)" "q = directory @ take k (c # rest)" by blast
      then show "q = directory @ [c] \<or> (\<exists>k. 0 < k \<and> k \<le> length rest \<and> q = (directory @ [c]) @ take k rest)"
        by (cases k; cases "k - 1") auto
    next
      assume "q = directory @ [c] \<or> (\<exists>k. 0 < k \<and> k \<le> length rest \<and> q = (directory @ [c]) @ take k rest)"
      then show "\<exists>k. 0 < k \<and> k \<le> length (c # rest) \<and> q = directory @ take k (c # rest)"
      proof
        assume "q = directory @ [c]"
        then show ?thesis by (intro exI [of _ 1]) simp
      next
        assume "\<exists>k. 0 < k \<and> k \<le> length rest \<and> q = (directory @ [c]) @ take k rest"
        then obtain k where "k \<le> length rest" "q = (directory @ [c]) @ take k rest" by blast
        then show ?thesis by (intro exI [of _ "Suc k"]) simp
      qed
    qed
    moreover have "(\<lambda>q. if \<exists>k. 0 < k \<and> k \<le> length rest \<and> q = (directory @ [c]) @ take k rest
          then Some Directory else fs_nodes s1 q)
        = (\<lambda>q. if \<exists>k. 0 < k \<and> k \<le> length (c # rest) \<and> q = directory @ take k (c # rest)
          then Some Directory else fs_nodes s q)"
      by (rule ext, simp only: s1(2) walked fun_upd_apply split: if_split) blast
    ultimately show "ends (descend True (directory @ [c]) rest) s1 n (directory @ c # rest)
      (\<lambda>q. if \<exists>k. 0 < k \<and> k \<le> length (c # rest) \<and> q = directory @ take k (c # rest)
           then Some Directory else fs_nodes s q)"
      by (simp only: append_assoc append_Cons append_Nil)
  qed
qed

lemma ends_open_regular_file:
  assumes "calm (Suc (Suc (Suc n))) s" "fs_nodes s p = Some (RegularFile bytes)"
  shows "ends (open_regular_file p True) s n () (fs_nodes s)"
  unfolding open_regular_file_def validate_regular_file_def
  by (rule ends_abind, rule ends_amap_err [OF ends_reading(1)], rule assms, rule assms,
      rule ends_abind, rule ends_abind, rule ends_amap_err [OF ends_reading(2)], assumption,
      simp add: assms(2), simp, rule ends_return, assumption, simp,
      simp, metis ends_amap_err ends_metadata(1))

lemma ends_read_present:
  assumes "calm (n + 6) s" "fs_nodes s (directory @ [name]) = Some (RegularFile bytes)"
    and "artifact_sha256 (env_sha256_hex E) bytes = digest"
  shows "ends (read_artifact_if_present E directory (directory @ [name]) digest True) s n (Some bytes) (fs_nodes s)"
proof -
  have opened: "ends (open_regular_file (directory @ [name]) True) s (Suc (Suc (Suc n))) () (fs_nodes s)"
    using assms by (intro ends_open_regular_file) (simp_all add: numeral_eq_Suc)
  have "ends (verified_contents E directory (directory @ [name]) digest True) s1 n bytes (fs_nodes s)"
    if "calm (Suc (Suc (Suc n))) s1" "fs_nodes s1 = fs_nodes s" for s1
    unfolding verified_contents_def
    by (rule ends_abind, rule ends_amap_err [OF ends_reading(3)], rule that, simp add: that assms(2),
        simp only: assms(3) simp_thms if_False if_True refl not_True_eq_False,
        rule ends_abind, rule ends_steps(2), assumption,
        rule ends_abind, rule ends_steps(3), assumption, rule ends_return, assumption, simp add: that)
  note read = this
  show ?thesis
    unfolding read_artifact_if_present_def
    by (rule ends_abind [OF ends_atry [OF opened]], simp, rule ends_abind, rule read, assumption, assumption,
        rule ends_return, assumption, simp)
qed

lemma ends_read_absent:
  assumes "calm (Suc n) s" "fs_nodes s p = None"
  shows "ends (read_artifact_if_present E directory p digest True) s n None (fs_nodes s)"
proof -
  from assms obtain s' where "open_regular_file p True s = (Inl (Failed (EvidenceIo (Os NoEntry))), s')"
    "calm n s'" "fs_nodes s' = fs_nodes s" "fs_sequence s' = fs_sequence s"
    by (auto elim!: calm_script simp: open_regular_file_def abind_def amap_err_def sys_open_file_def
        syscall_with_def open_error_def io_error_def)
  then show ?thesis
    by (auto simp: ends_def read_artifact_if_present_def abind_def atry_def areturn_def)
qed

lemma create_temporary_works:
  assumes "calm (Suc n) s" "fs_nodes s (directory @ [temporary_name S digest (fs_sequence s)]) = None"
  shows "\<exists>s'. create_temporary S directory digest s
      = (Inr (directory @ [temporary_name S digest (fs_sequence s)]), s') \<and> calm n s'
    \<and> fs_nodes s' = (fs_nodes s)(directory @ [temporary_name S digest (fs_sequence s)] \<mapsto> RegularFile [])"
  using assms
  by (subst create_temporary.simps)
    (auto elim!: calm_script simp: try_temporary_def atry_def sys_create_def syscall_with_def new_entry_def
      put_node_def Let_def)

lemma ends_publish_new:
  assumes "calm (n + 12) s" "fs_nodes s (directory @ [name]) = None"
    and "fs_nodes s (directory @ [temporary]) = Some (RegularFile [])"
    and "artifact_sha256 (env_sha256_hex E) bytes = digest" "temporary \<noteq> name"
  shows "ends (publish_new E digest directory (directory @ [name]) (directory @ [temporary]) bytes) s n ()
    ((fs_nodes s)(directory @ [name] \<mapsto> RegularFile bytes, directory @ [temporary] := None))"
proof -
  let ?p = "directory @ [name]" and ?t = "directory @ [temporary]"
  let ?written = "(fs_nodes s)(?t \<mapsto> RegularFile bytes)"
  let ?linked = "?written(?p \<mapsto> RegularFile bytes)"
  have start: "calm (Suc (Suc (Suc (n + 9)))) s" using assms(1) by (simp add: numeral_eq_Suc)
  have link: "ends (link_artifact ?t ?p) s1 (n + 8) () ?linked"
    if "calm (n + 9) s1" "fs_nodes s1 = ?written" for s1
  proof -
    have "ends (sys_link ?t ?p) s1 (n + 8) () ?linked"
      using that assms(2,5) ends_changing(3) [where s = s1 and n = "n + 8" and p = ?t and q = ?p]
      by (simp add: numeral_eq_Suc)
    then show ?thesis by (auto simp: ends_def link_artifact_def abind_def atry_def areturn_def)
  qed
  have remove: "ends (remove_temporary directory ?t) s1 n () ((fs_nodes s)(?p \<mapsto> RegularFile bytes, ?t := None))"
    if "calm (Suc (Suc n)) s1" "fs_nodes s1 = ?linked" for s1
  proof -
    have "ends (sys_unlink ?t) s1 (Suc n) () (?linked(?t := None))"
      using ends_changing(2) [OF that(1), of ?t] that(2) assms(5) by simp
    then have "ends (unlinked ?t) s1 (Suc n) () (?linked(?t := None))"
      by (auto simp: ends_def unlinked_def abind_def atry_def areturn_def)
    moreover have "?linked(?t := None) = (fs_nodes s)(?p \<mapsto> RegularFile bytes, ?t := None)"
      by (simp add: fun_eq_iff)
    ultimately show ?thesis
      unfolding remove_temporary_def by (metis (no_types, lifting) ends_abind ends_sync_directory)
  qed
  have read: "ends (read_artifact_if_present E directory ?p digest True) s1 (Suc (Suc n)) (Some bytes) ?linked"
    if "calm (n + 8) s1" "fs_nodes s1 = ?linked" for s1
    using ends_read_present [of "Suc (Suc n)" s1 directory name bytes E digest] that assms(4)
    by (simp add: numeral_eq_Suc)
  show ?thesis
    unfolding publish_new_def
    by (rule ends_abind, rule ends_amap_err [OF ends_changing(1)], rule start,
        rule ends_abind, rule ends_steps(1), assumption, rule ends_abind, rule ends_steps(2), assumption,
        rule ends_abind, rule link, assumption, simp, rule ends_abind, rule read, assumption, assumption,
        rule ends_abind, simp add: found_artifact_def, rule ends_return, assumption, assumption,
        rule remove, assumption, assumption)
qed

lemma ends_record_marker:
  assumes "calm (n + 7) s" "fs_nodes s (directory @ [i]) \<in> {None, Some (RegularFile [])}"
  shows "\<exists>s'. record_marker directory (directory @ [i]) s = (Inr (), s')"
proof -
  let ?p = "directory @ [i]"
  have "\<exists>k nodes. ends (create_marker ?p) s (Suc (Suc k)) () nodes"
  proof (cases "fs_nodes s ?p")
    case None
    let ?nodes = "(fs_nodes s)(?p \<mapsto> RegularFile [])"
    have "ends (create_marker ?p) s (n + 4) () ?nodes"
      unfolding create_marker_def secure_regular_file_def validate_regular_file_def
      by (rule ends_abind, rule ends_atry [OF ends_creating [where n = "n + 6"]],
          simp add: assms(1) numeral_eq_Suc, rule calm_less [OF assms(1)], simp, rule None, simp,
          rule ends_abind, rule ends_abind, rule ends_amap_err [OF ends_reading(2) [where n = "n + 5"]],
          simp add: numeral_eq_Suc, simp, simp, rule ends_return, assumption, simp,
          rule ends_amap_err, metis ends_metadata(1) add_Suc_right numeral_eq_Suc pred_numeral_simps)
    then show ?thesis by (intro exI) (simp add: numeral_eq_Suc)
  next
    case (Some node)
    then have node: "fs_nodes s ?p = Some (RegularFile [])" using assms(2) by simp
    have "ends (create_marker ?p) s (Suc (Suc n)) () (fs_nodes s)"
      unfolding create_marker_def
    proof (rule ends_abind)
      show "ends (atry (sys_create ?p FILE_MODE)) s (n + 6) (Inl AlreadyExists) (fs_nodes s)"
        using assms(1) node by (intro absent_fails) (simp_all add: numeral_eq_Suc)
    next
      fix s1 assume s1: "calm (n + 6) s1" "fs_nodes s1 = fs_nodes s"
      have "ends (check_marker ?p True) s1 (Suc (Suc n)) () (fs_nodes s1)"
        unfolding check_marker_def
      proof (rule ends_abind)
        show "ends (open_regular_file ?p True) s1 (n + 3) () (fs_nodes s1)"
          using s1 node by (intro ends_open_regular_file) (simp_all add: numeral_eq_Suc)
      next
        fix s2 assume s2: "calm (n + 3) s2" "fs_nodes s2 = fs_nodes s1"
        have "ends (sys_length ?p) s2 (Suc (Suc n)) (length ([] :: u8 list)) (fs_nodes s2)"
          using s1 s2 node by (intro ends_reading(4)) (simp_all add: numeral_eq_Suc)
        then show "ends (abind (amap_err io_error (sys_length ?p)) (\<lambda>len.
            if len \<noteq> 0 then afail (InvalidEntry ?p) else areturn ())) s2 (Suc (Suc n)) () (fs_nodes s1)"
          using s2 by (intro ends_abind [OF ends_amap_err]) (auto intro: ends_return)
      qed
      then show "ends (case Inl AlreadyExists of
            Inl e \<Rightarrow> if e = AlreadyExists then check_marker ?p True else afail (open_error ?p e)
          | Inr _ \<Rightarrow> secure_regular_file ?p) s1 (Suc (Suc n)) () (fs_nodes s)"
        using s1 by simp
    qed
    then show ?thesis by blast
  qed
  then obtain k nodes where marked: "ends (create_marker ?p) s (Suc (Suc k)) () nodes" by blast
  have "ends (record_marker directory ?p) s k () nodes"
    unfolding record_marker_def
    by (rule ends_abind [OF marked], rule ends_abind, rule ends_steps(2), assumption,
        metis ends_sync_directory)
  then show ?thesis by (auto simp: ends_def)
qed

text \<open>The places an artifact and its marker need are free, or hold what belongs there.\<close>

definition receptive :: "env \<Rightarrow> artifact_store \<Rightarrow> u8 list \<Rightarrow> evidence_source \<Rightarrow> file_system \<Rightarrow> bool" where
  "receptive E S bytes source s \<longleftrightarrow>
     (let digest = artifact_sha256 (env_sha256_hex E) bytes; R = as_root S in
      case (source_parts source, digest_components digest) of ((kind, i), (prefix, suffix)) \<Rightarrow>
        (\<forall>k \<in> {1..2}. fs_nodes s (R @ take k [''sha256'', prefix]) \<in> {None, Some Directory})
        \<and> (\<forall>k \<in> {1..5}. fs_nodes s (R @ take k [''references'', ''sha256'', prefix, suffix, kind])
              \<in> {None, Some Directory})
        \<and> ((\<exists>found. fs_nodes s (R @ [''sha256'', prefix, suffix]) = Some (RegularFile found)
              \<and> artifact_sha256 (env_sha256_hex E) found = digest)
           \<or> (fs_nodes s (R @ [''sha256'', prefix, suffix]) = None
              \<and> fs_nodes s (R @ [''sha256'', prefix, temporary_name S digest (fs_sequence s)]) = None))
        \<and> fs_nodes s (R @ [''references'', ''sha256'', prefix, suffix, kind, i]) \<in> {None, Some (RegularFile [])})"

lemma store_artifact_works:
  fixes d suffix bytes E S
  defines "digest \<equiv> artifact_sha256 (env_sha256_hex E) bytes"
  defines "store found \<equiv> (case found of
      Some _ \<Rightarrow> areturn ()
    | None \<Rightarrow> abind (create_temporary S d digest) (\<lambda>temporary.
        drop_temporary d temporary (publish_new E digest d (d @ [suffix]) temporary bytes)))"
  assumes "calm (n + 14) s" "digest_components digest = (prefix, suffix)"
    and "(\<exists>found. fs_nodes s (d @ [suffix]) = Some (RegularFile found) \<and> artifact_sha256 (env_sha256_hex E) found = digest)
      \<or> (fs_nodes s (d @ [suffix]) = None \<and> fs_nodes s (d @ [temporary_name S digest (fs_sequence s)]) = None)"
  shows "\<exists>found s1 s2. read_artifact_if_present E d (d @ [suffix]) digest True s = (Inr found, s1)
    \<and> store found s1 = (Inr (), s2) \<and> calm n s2 \<and> (\<forall>q. (\<forall>x. q \<noteq> d @ [x]) \<longrightarrow> fs_nodes s2 q = fs_nodes s q)"
  using assms(5)
proof (elim disjE exE conjE)
  fix found assume "fs_nodes s (d @ [suffix]) = Some (RegularFile found)" "artifact_sha256 (env_sha256_hex E) found = digest"
  then have "ends (read_artifact_if_present E d (d @ [suffix]) digest True) s (n + 8) (Some found) (fs_nodes s)"
    using assms(3) by (intro ends_read_present) (simp_all add: ac_simps)
  then obtain s1 where "read_artifact_if_present E d (d @ [suffix]) digest True s = (Inr (Some found), s1)"
    "calm (n + 8) s1" "fs_nodes s1 = fs_nodes s" by (auto simp: ends_def)
  moreover from this(2) have "calm n s1" by (rule calm_less) simp
  moreover have "store (Some found) s1 = (Inr (), s1)" by (simp add: store_def areturn_def)
  ultimately show ?thesis by metis
next
  let ?t = "temporary_name S digest (fs_sequence s)"
  assume free: "fs_nodes s (d @ [suffix]) = None" "fs_nodes s (d @ [?t]) = None"
  have "ends (read_artifact_if_present E d (d @ [suffix]) digest True) s (Suc (n + 12)) None (fs_nodes s)"
    using free assms(3) by (intro ends_read_absent) (simp_all add: numeral_eq_Suc)
  then obtain s1 where read: "read_artifact_if_present E d (d @ [suffix]) digest True s = (Inr None, s1)"
    and s1: "calm (Suc (n + 12)) s1" "fs_nodes s1 = fs_nodes s" "fs_sequence s1 = fs_sequence s"
    by (auto simp: ends_def)
  obtain t where made: "create_temporary S d digest s1 = (Inr (d @ [?t]), t)" "calm (n + 12) t"
    "fs_nodes t = (fs_nodes s)(d @ [?t] \<mapsto> RegularFile [])"
    using create_temporary_works [of "n + 12" s1 d S digest] s1 free by auto
  have other: "?t \<noteq> suffix" using temporary_other [OF assms(4)] by simp
  have "ends (publish_new E digest d (d @ [suffix]) (d @ [?t]) bytes) t n ()
      ((fs_nodes t)(d @ [suffix] \<mapsto> RegularFile bytes, d @ [?t] := None))"
    using made free other by (intro ends_publish_new) (simp_all add: digest_def)
  then obtain s2 where published: "publish_new E digest d (d @ [suffix]) (d @ [?t]) bytes t = (Inr (), s2)" "calm n s2"
    "fs_nodes s2 = (fs_nodes t)(d @ [suffix] \<mapsto> RegularFile bytes, d @ [?t] := None)"
    by (auto simp: ends_def)
  from made published have "store None s1 = (Inr (), s2)"
    by (simp add: store_def abind_def drop_temporary_def)
  moreover have "fs_nodes s2 q = fs_nodes s q" if "\<forall>x. q \<noteq> d @ [x]" for q
    using that by (simp add: published(3) made(3))
  ultimately show ?thesis using read published(2)
    by (intro exI [of _ None] exI [of _ s1] exI [of _ s2]) simp
qed

lemma publish_result:
  assumes "calm 64 s" "receptive E S bytes source s"
  shows "\<exists>s'. publish E S bytes source s = (Inr (artifact_sha256 (env_sha256_hex E) bytes), s')"
proof -
  let ?digest = "artifact_sha256 (env_sha256_hex E) bytes"
  obtain prefix suffix where parts: "digest_components ?digest = (prefix, suffix)" by fastforce
  obtain kind i where source: "source_parts source = (kind, i)" by fastforce
  let ?R = "as_root S"
  let ?a = "[''sha256'', prefix]"
  let ?q = "[''references'', ''sha256'', prefix, suffix, kind]"
  have ready: "\<forall>k \<in> {1..2}. fs_nodes s (?R @ take k ?a) \<in> {None, Some Directory}"
    "\<forall>k \<in> {1..5}. fs_nodes s (?R @ take k ?q) \<in> {None, Some Directory}"
    "fs_nodes s (?R @ ?q @ [i]) \<in> {None, Some (RegularFile [])}"
    and artifact: "(\<exists>found. fs_nodes s ((?R @ ?a) @ [suffix]) = Some (RegularFile found)
          \<and> artifact_sha256 (env_sha256_hex E) found = ?digest)
      \<or> (fs_nodes s ((?R @ ?a) @ [suffix]) = None
          \<and> fs_nodes s ((?R @ ?a) @ [temporary_name S ?digest (fs_sequence s)]) = None)"
    using assms(2) parts source by (simp_all add: receptive_def Let_def)
  have calm: "calm (52 + 6 * length ?a) s" using assms(1) by simp
  have "fs_nodes s (?R @ take k ?a) \<in> {None, Some Directory}" if "0 < k" "k \<le> length ?a" for k
    using ready(1) that by simp
  from ends_descend [OF calm this] obtain s1 where walked: "descend True ?R ?a s = (Inr (?R @ ?a), s1)"
    "calm 52 s1" "fs_sequence s1 = fs_sequence s"
    "fs_nodes s1 = (\<lambda>q. if \<exists>k. 0 < k \<and> k \<le> length ?a \<and> q = ?R @ take k ?a then Some Directory else fs_nodes s q)"
    by (auto simp: ends_def)
  have below: "fs_nodes s1 ((?R @ ?a) @ [x]) = fs_nodes s ((?R @ ?a) @ [x])" for x
    unfolding walked(4) by (auto dest!: arg_cong [where f = length])
  have beside: "fs_nodes s1 (?R @ ''references'' # q) = fs_nodes s (?R @ ''references'' # q)" for q
  proof -
    have "?R @ ''references'' # q \<noteq> ?R @ take k ?a" if "0 < k" for k
      using that by (cases k) auto
    then show ?thesis unfolding walked(4) by auto
  qed
  have "calm (38 + 14) s1" using walked(2) by simp
  from store_artifact_works [OF this parts, where d = "?R @ ?a" and S = S] artifact below walked(3)
  obtain found s2 s3 where stored:
    "read_artifact_if_present E (?R @ ?a) ((?R @ ?a) @ [suffix]) ?digest True s1 = (Inr found, s2)"
    "(case found of Some _ \<Rightarrow> areturn ()
      | None \<Rightarrow> abind (create_temporary S (?R @ ?a) ?digest) (\<lambda>temporary.
          drop_temporary (?R @ ?a) temporary
            (publish_new E ?digest (?R @ ?a) ((?R @ ?a) @ [suffix]) temporary bytes))) s2 = (Inr (), s3)"
    "calm 38 s3" "\<forall>q. (\<forall>x. q \<noteq> (?R @ ?a) @ [x]) \<longrightarrow> fs_nodes s3 q = fs_nodes s1 q"
    by (auto simp del: append_assoc)
  have references: "fs_nodes s3 (?R @ ''references'' # q) = fs_nodes s (?R @ ''references'' # q)" for q
    using stored(4) beside by simp
  have "fs_nodes s3 (?R @ take k ?q) \<in> {None, Some Directory}" if "0 < k" "k \<le> length ?q" for k
  proof -
    have "take k ?q = ''references'' # take (k - 1) (tl ?q)" using that by (cases k) simp_all
    then have "fs_nodes s3 (?R @ take k ?q) = fs_nodes s (?R @ take k ?q)" by (simp add: references)
    then show ?thesis using bspec [OF ready(2), of k] that by simp
  qed
  moreover have "calm (8 + 6 * length ?q) s3" using stored(3) by simp
  ultimately obtain s4 where marked: "descend True ?R ?q s3 = (Inr (?R @ ?q), s4)" "calm 8 s4"
    "fs_nodes s4 = (\<lambda>q. if \<exists>k. 0 < k \<and> k \<le> length ?q \<and> q = ?R @ take k ?q then Some Directory else fs_nodes s3 q)"
    using ends_descend [of 8 ?q s3 ?R] by (auto simp: ends_def)
  have "fs_nodes s4 ((?R @ ?q) @ [i]) = fs_nodes s (?R @ ?q @ [i])"
    unfolding marked(3) using references [of "tl ?q @ [i]"] by (auto dest!: arg_cong [where f = length])
  with ready(3) have "fs_nodes s4 ((?R @ ?q) @ [i]) \<in> {None, Some (RegularFile [])}" by simp
  moreover have "calm (1 + 7) s4" using marked(2) by simp
  ultimately obtain s5 where "record_marker (?R @ ?q) ((?R @ ?q) @ [i]) s4 = (Inr (), s5)"
    using ends_record_marker by blast
  with marked(1) have "record_source S ?digest source s3 = (Inr (), s5)"
    using parts source by (simp add: record_source_def source_location_def abind_def areturn_def del: append_assoc)
  with walked(1) stored(1,2) parts show ?thesis
    by (simp add: publish_def artifact_location_def abind_def areturn_def Let_def del: append_assoc)
qed

text \<open>C34: Publishing succeeds: when the file system answers 64 calls and the places of the
  artifact, of its marker and of the directories above them are free or hold what belongs
  there, it returns the digest of the bytes, whose artifact and marker are then on disk.\<close>

theorem publish_succeeds:
  assumes "calm 64 s" "receptive E S bytes source s"
  shows "\<exists>s' found. publish E S bytes source s = (Inr (artifact_sha256 (env_sha256_hex E) bytes), s')
    \<and> published E S s' (artifact_sha256 (env_sha256_hex E) bytes) source found"
  using publish_result [OF assms] publish_published by blast

section \<open>A concrete store\<close>

definition ex_evidence_env :: env where
  "ex_evidence_env = ex_identity_env\<lparr>env_sha256_hex := map (\<lambda>b. char_of (unat b))\<rparr>"

definition ex_store :: artifact_store where
  "ex_store = \<lparr>as_root = [''data''], as_process = 7\<rparr>"

definition ex_empty_disk :: file_system where
  "ex_empty_disk = \<lparr>fs_nodes = [[''data''] \<mapsto> Directory], fs_mode = (\<lambda>_. OwnerAll), fs_synced = (\<lambda>_. True),
     fs_linked = (\<lambda>_. True), fs_sequence = 0, fs_script = replicate 64 Works\<rparr>"

definition ex_source :: evidence_source where "ex_source = FromAttempt (AttemptId ''a1'')"

lemma ex_receptive: "receptive E ex_store bytes ex_source ex_empty_disk"
  by (auto simp: receptive_def ex_store_def ex_empty_disk_def ex_source_def Let_def split: prod.split)

lemma publish_succeeds_witness:
  "\<exists>s'. publish ex_evidence_env ex_store [97, 98, 99] ex_source ex_empty_disk
     = (Inr (artifact_sha256 (env_sha256_hex ex_evidence_env) [97, 98, 99]), s')"
proof -
  have "calm 64 ex_empty_disk" unfolding calm_def ex_empty_disk_def by (intro exI [of _ 64]) simp
  from publish_succeeds [OF this ex_receptive] show ?thesis by blast
qed

lemma evidence_permanent_witness:
  "\<exists>digest s1 s2 found. publish ex_evidence_env ex_store [97, 98, 99] ex_source ex_empty_disk = (Inr digest, s1)
     \<and> evidence_run ex_evidence_env ex_store s1 s2
     \<and> fst (verify_source ex_evidence_env ex_store digest ex_source s2) = Inr found"
proof -
  have "calm 64 ex_empty_disk" unfolding calm_def ex_empty_disk_def by (intro exI [of _ 64]) simp
  from publish_result [OF this ex_receptive] obtain digest s1 where
    run: "publish ex_evidence_env ex_store [97, 98, 99] ex_source ex_empty_disk = (Inr digest, s1)" by blast
  let ?s2 = "s1\<lparr>fs_script := replicate 13 Works @ []\<rparr>"
  have "after_crash (as_root ex_store) s1 ?s2" by (simp add: after_crash_def on_disk_def placed_def)
  then have later: "evidence_run ex_evidence_env ex_store s1 ?s2"
    by (rule evidence_run.Crash [OF evidence_run.Start])
  have "fs_script ?s2 = replicate 13 Works @ []" by simp
  from evidence_permanent [OF run later this] run later show ?thesis by blast
qed

end
