(* ===== verification/Backend_Examples.thy ===== *)
theory Backend_Examples
  imports Backend_Evidence Evidence_Liveness Supervisor_Examples
begin

text \<open>
  A concrete backend for the witnesses: one simulator, its host and two requests. A wait is
  carried out and its evidence published; a flash write is refused when the review expected
  another instrument, and fails when the store file cannot be written.
\<close>

section \<open>The backend\<close>

definition ex_sim :: instrument_id where "ex_sim = InstrumentId ''sim''"

definition ex_wait_observation :: observation where
  "ex_wait_observation = \<lparr>captured_at = ''now'',
     source_fingerprint = text_digest ex_evidence_env ''cheirismos:monotonic-clock:v1'',
     obs_body = JObject (merge (object [(''source'', JString ''supervisor_clock''),
             (''elapsed_milliseconds'', json_nat 0), (''reconciliation'', JBool False)])
        [(''instrument_fingerprint'',
            json_digest (text_digest ex_evidence_env ''cheirismos:monotonic-clock:v1'')),
         (''target_identity_basis'', JString ''operator_commissioned_fixture_binding'')]),
     obs_evidence = None\<rparr>"

definition ex_backend_request :: "operation \<Rightarrow> (instrument_id \<times> artifact_digest) list \<Rightarrow> dispatch_request" where
  "ex_backend_request oper fingerprints = \<lparr>dr_attempt = AttemptId ''a1'', dr_operation = oper,
     dr_deadline_milliseconds = 1000, dr_expected_target_fingerprint = ex_digest,
     dr_expected_instrument_fingerprints = fingerprints,
     dr_expected_instrument_configurations = [(ex_sim, artifact_sha256 (env_sha256_hex ex_evidence_env) [1])],
     dr_expected_instrument_physical_identities = [(ex_sim, key_digest ex_evidence_env ''simulator:s'')],
     dr_expected_fixture_revision = ex_digest, dr_evidence_challenge = ex_digest,
     dr_evidence_phase = Execution, dr_configure_instrument = False, dr_interlocks_valid_until = None\<rparr>"

definition ex_wait_request :: dispatch_request where
  "ex_wait_request = ex_backend_request (Wait ex_target 5) []"

definition ex_wait_envelope :: evidence_envelope where
  "ex_wait_envelope = envelope_for ex_wait_request ex_wait_observation"

definition ex_device_env :: device_env where
  "ex_device_env = ex_simulated_env\<lparr>de_env := ex_evidence_env\<lparr>env_parse_envelope := (\<lambda>_. Inr ex_wait_envelope)\<rparr>\<rparr>"

definition ex_backend_env :: backend_env where
  "ex_backend_env = \<lparr>be_device = ex_device_env, be_store = ex_store,
     be_sessions = [(ex_sim, ex_simulator_binding)],
     be_binding_bytes = (\<lambda>_. Inr [1]), be_value_bytes = (\<lambda>_. Inr [2]), be_observation_bytes = (\<lambda>_. Inr [3]),
     be_envelope_bytes = (\<lambda>envelope. if envelope = ex_wait_envelope then Inr [97, 98, 99] else Inl ''unsupported''),
     be_config_value = (\<lambda>_. JNull), be_io_text = (\<lambda>_. ''io'')\<rparr>"

definition ex_host :: "instrument_error + unit \<Rightarrow> host" where
  "ex_host io = \<lparr>ho_canonicalize = Inr, ho_ports = Inr [], ho_open_serial = (\<lambda>_. Inr []),
     ho_prepare = Inr (), ho_store_write = io, ho_video = ex_video_world\<rparr>"

definition ex_occasion :: "instrument_error + unit \<Rightarrow> occasion" where
  "ex_occasion io = \<lparr>oc_host = (\<lambda>stage. ex_host (if stage = Operating then io else Inr ())),
     oc_lock = Inr (), oc_elapsed = (\<lambda>_. 0), oc_now = (\<lambda>_. 0)\<rparr>"

definition ex_blank_world :: backend_world where
  "ex_blank_world = \<lparr>bw_connections = (\<lambda>_. None), bw_past = (\<lambda>_. []), bw_stores = (\<lambda>_. Absent),
     bw_files = ex_empty_disk\<rparr>"

definition ex_key :: artifact_digest where "ex_key = key_digest ex_evidence_env ''simulator:s''"

definition ex_open_world :: backend_world where
  "ex_open_world = put_simulator ex_sim ex_key ex_blank_simulator ex_blank_world"

lemma ex_backend_simps [simp]:
  "be_env ex_backend_env = ex_evidence_env\<lparr>env_parse_envelope := (\<lambda>_. Inr ex_wait_envelope)\<rparr>"
  "be_device ex_backend_env = ex_device_env" "be_store ex_backend_env = ex_store"
  "be_sessions ex_backend_env = [(ex_sim, ex_simulator_binding)]"
  "be_binding_bytes ex_backend_env = (\<lambda>_. Inr [1])" "be_value_bytes ex_backend_env = (\<lambda>_. Inr [2])"
  "de_debug ex_device_env = id" "de_env ex_device_env = ex_evidence_env\<lparr>env_parse_envelope := (\<lambda>_. Inr ex_wait_envelope)\<rparr>"
  "oc_host (ex_occasion io) stage = ex_host (if stage = Operating then io else Inr ())"
  "oc_lock (ex_occasion io) = Inr ()" "oc_elapsed (ex_occasion io) m = 0" "oc_now (ex_occasion io) m = 0"
  "ho_prepare (ex_host io) = Inr ()" "ho_store_write (ex_host io) = io"
  by (simp_all add: ex_backend_env_def ex_device_env_def ex_simulated_env_def be_env_def ex_occasion_def ex_host_def)

lemma ex_request_simps [simp]:
  "dr_attempt (ex_backend_request oper fps) = AttemptId ''a1''" "dr_operation (ex_backend_request oper fps) = oper"
  "dr_deadline_milliseconds (ex_backend_request oper fps) = 1000"
  "dr_expected_instrument_fingerprints (ex_backend_request oper fps) = fps"
  "dr_interlocks_valid_until (ex_backend_request oper fps) = None"
  "dr_expected_fixture_revision (ex_backend_request oper fps) = ex_digest"
  "dr_expected_target_fingerprint (ex_backend_request oper fps) = ex_digest"
  "dr_expected_instrument_configurations (ex_backend_request oper fps)
     = [(ex_sim, artifact_sha256 (env_sha256_hex ex_evidence_env) [1])]"
  "dr_expected_instrument_physical_identities (ex_backend_request oper fps) = [(ex_sim, ex_key)]"
  by (simp_all add: ex_backend_request_def ex_key_def)

section \<open>A wait\<close>

lemma ex_evidence_now: "env_timestamp_text ex_evidence_env t = ''now''"
  by (simp add: ex_evidence_env_def ex_identity_env_def ex_env_def)

lemma ex_wait_runs:
  "\<exists>digest files. run ex_backend_env (ex_occasion (Inr ())) ex_wait_request (\<lambda>_. Inl []) False ex_blank_world
     = (Inr (ReceiptCompleted (ex_wait_observation\<lparr>obs_evidence := Some digest\<rparr>)), ex_blank_world\<lparr>bw_files := files\<rparr>)"
proof -
  have "calm 64 ex_empty_disk" unfolding calm_def ex_empty_disk_def by (intro exI [of _ 64]) simp
  from publish_result [OF this ex_receptive] obtain digest files where
    ran: "publish (be_env ex_backend_env) ex_store [97, 98, 99] (FromAttempt (AttemptId ''a1'')) ex_empty_disk = (Inr digest, files)"
    unfolding ex_source_def by blast
  let ?body = "object [(''source'', JString ''supervisor_clock''), (''elapsed_milliseconds'', json_nat 0),
    (''reconciliation'', JBool False)]"
  have fingerprint: "text_digest (be_env ex_backend_env) s = text_digest ex_evidence_env s" for s
    by (simp add: text_digest_def)
  have request: "dr_attempt ex_wait_request = AttemptId ''a1''" by (simp add: ex_wait_request_def)
  have encoded: "be_envelope_bytes ex_backend_env ex_wait_envelope = Inr [97, 98, 99]"
    by (simp add: ex_backend_env_def)
  have sent: "on_evidence ex_backend_env (publish (be_env ex_backend_env) ex_store [97, 98, 99]
      (FromAttempt (AttemptId ''a1''))) ex_blank_world = (Inr digest, ex_blank_world\<lparr>bw_files := files\<rparr>)"
    unfolding on_evidence_Inr using ran by (simp add: ex_blank_world_def)
  have obs: "\<lparr>captured_at = env_timestamp_text (be_env ex_backend_env) (oc_now (ex_occasion (Inr ())) Publishing),
      source_fingerprint = text_digest ex_evidence_env ''cheirismos:monotonic-clock:v1'',
      obs_body = JObject (merge ?body
        [(''instrument_fingerprint'', json_digest (text_digest ex_evidence_env ''cheirismos:monotonic-clock:v1'')),
         (''target_identity_basis'', JString ''operator_commissioned_fixture_binding'')]),
      obs_evidence = None\<rparr> = ex_wait_observation"
    by (simp add: ex_wait_observation_def ex_evidence_now)
  have "backend_publish ex_backend_env (ex_occasion (Inr ())) ex_wait_request
      (text_digest (be_env ex_backend_env) ''cheirismos:monotonic-clock:v1'') ?body None ex_blank_world
    = (Inr (ex_wait_observation\<lparr>obs_evidence := Some digest\<rparr>), ex_blank_world\<lparr>bw_files := files\<rparr>)"
    unfolding backend_publish_def publish_content_def publish_bytes_def Let_def fingerprint option.case
      abind_areturn obs ex_wait_envelope_def [symmetric] encoded request
    using sent by (simp add: areturn_def abind_def alift_def)
  then show ?thesis
    by (auto simp: run_def run_wait_def ex_wait_request_def)
qed

definition ex_evidence_bench :: "file_system bench" where
  "ex_evidence_bench = \<lparr>bn_env = be_env ex_backend_env, bn_time = (\<lambda>_ _. 0), bn_error_text = (\<lambda>_. ''error''),
     bn_backend_error_text = (\<lambda>_. ''backend''), bn_resolve = (\<lambda>_ _. Inl ''none''),
     bn_verify_source = stored_source ex_backend_env, bn_preflight = (\<lambda>_ _ _. Inr ()),
     bn_execute = (\<lambda>_ d. (Inr (ReceiptRejected ''none''), d)),
     bn_reconcile = (\<lambda>_ d. (Inr (ReceiptRejected ''none''), d))\<rparr>"

lemma text_of_bytes_inj: "map (\<lambda>b :: u8. char_of (unat b) :: char) xs = map (\<lambda>b. char_of (unat b)) ys \<Longrightarrow> xs = ys"
proof (rule map_injective, assumption)
  show "inj (\<lambda>b :: u8. char_of (unat b) :: char)"
  proof (rule injI)
    fix a b :: u8 assume "(char_of (unat a) :: char) = char_of (unat b)"
    then have "of_char (char_of (unat a) :: char) = (of_char (char_of (unat b) :: char) :: nat)" by simp
    moreover have "unat x < 2 ^ LENGTH(8)" for x :: u8 by (rule unsigned_less)
    then have "unat x < 256" for x :: u8 by simp
    ultimately show "a = b" by (simp add: word_unat_eq_iff)
  qed
qed

lemma ex_envelope_format: "envelope_format (be_env ex_backend_env) (be_envelope_bytes ex_backend_env)"
proof -
  have "be_envelope_bytes ex_backend_env =
      (\<lambda>envelope. if envelope = ex_wait_envelope then Inr [97, 98, 99] else Inl ''unsupported'')"
    by (simp add: ex_backend_env_def)
  moreover have "env_sha256_hex (be_env ex_backend_env) = map (\<lambda>b. char_of (unat b))"
    by (simp add: ex_evidence_env_def)
  moreover have "env_parse_envelope (be_env ex_backend_env) = (\<lambda>_. Inr ex_wait_envelope)" by simp
  ultimately show ?thesis
    unfolding envelope_format_def artifact_sha256_def artifact_digest.inject
    using text_of_bytes_inj by (metis Inr_inject Inr_Inl_False)
qed

lemma backend_receipt_accepted_witness:
  "\<exists>receipt w' files. run ex_backend_env (ex_occasion (Inr ())) ex_wait_request (\<lambda>_. Inl []) False ex_blank_world
       = (Inr receipt, w') \<and> receipt_observation receipt \<noteq> None
     \<and> fst (verify_receipt_evidence ex_evidence_bench (ex_attempt\<lparr>at_id := AttemptId ''a1''\<rparr>) ex_wait_request receipt
         \<lparr>w_store = empty_store, w_device = files, w_calls = 0\<rparr>) = Inr receipt"
proof -
  obtain digest files where ran: "run ex_backend_env (ex_occasion (Inr ())) ex_wait_request (\<lambda>_. Inl []) False
      ex_blank_world = (Inr (ReceiptCompleted (ex_wait_observation\<lparr>obs_evidence := Some digest\<rparr>)),
        ex_blank_world\<lparr>bw_files := files\<rparr>)"
    using ex_wait_runs by blast
  let ?files = "files\<lparr>fs_script := replicate 13 Works @ []\<rparr>"
  let ?attempt = "ex_attempt\<lparr>at_id := AttemptId ''a1''\<rparr>"
  have "after_crash (as_root ex_store) files ?files" by (simp add: after_crash_def on_disk_def placed_def)
  then have later: "evidence_run (be_env ex_backend_env) (be_store ex_backend_env)
      (bw_files (ex_blank_world\<lparr>bw_files := files\<rparr>)) ?files"
    using evidence_run.Crash [OF evidence_run.Start] by simp
  have bench: "bn_env ex_evidence_bench = be_env ex_backend_env"
    "bn_verify_source ex_evidence_bench = stored_source ex_backend_env" "at_id ?attempt = dr_attempt ex_wait_request"
    by (simp_all add: ex_evidence_bench_def ex_wait_request_def)
  have "fs_script ?files = replicate 13 Works @ []" by simp
  from backend_receipt_accepted [OF ran ex_envelope_format later this bench(1,2) _ bench(3),
      where world = "\<lparr>w_store = empty_store, w_device = ?files, w_calls = 0\<rparr>"]
  have "verify_receipt_evidence ex_evidence_bench ?attempt ex_wait_request
      (ReceiptCompleted (ex_wait_observation\<lparr>obs_evidence := Some digest\<rparr>))
      \<lparr>w_store = empty_store, w_device = ?files, w_calls = 0\<rparr>
    = (Inr (ReceiptCompleted (ex_wait_observation\<lparr>obs_evidence := Some digest\<rparr>)),
       \<lparr>w_store = empty_store, w_device = ?files, w_calls = 0\<rparr>)" by simp
  with ran show ?thesis
    by (intro exI [of _ "ReceiptCompleted (ex_wait_observation\<lparr>obs_evidence := Some digest\<rparr>)"]
        exI [of _ "ex_blank_world\<lparr>bw_files := files\<rparr>"] exI [of _ ?files]) simp
qed

section \<open>The simulator\<close>

lemma ex_configured:
  "configured_physical_identity E id ex_simulator_config = Inr (key_digest E ''simulator:s'')"
proof -
  have "physical_instrument ex_simulator_config = ''simulator:s''"
    by (simp add: physical_instrument_def ex_simulator_config_def)
  then show ?thesis by (simp add: configured_physical_identity_iff ex_configs_valid)
qed

lemma ex_backend_opened: "backend_open ex_backend_env [(ex_sim, ex_simulator_binding)] = Inr ex_backend_env"
proof -
  have "db_config ex_simulator_binding = ex_simulator_config" by (simp add: ex_simulator_binding_def)
  moreover have "ex_backend_env\<lparr>be_sessions := [(ex_sim, ex_simulator_binding)]\<rparr> = ex_backend_env"
    by (simp add: ex_backend_env_def)
  ultimately show ?thesis
    by (simp add: backend_open_def ex_configs_valid validate_unique_physical_identities_def ex_configured Let_def)
qed

lemma ex_key_digest: "key_digest (be_env ex_backend_env) t = key_digest ex_evidence_env t"
  by (simp add: key_digest_def text_digest_def)

lemma ex_sha256: "de_sha256 ex_device_env bytes = artifact_sha256 (env_sha256_hex ex_evidence_env) bytes"
  by (simp add: de_sha256_def)

lemma ex_binding_simps [simp]:
  "db_config ex_simulator_binding = ex_simulator_config" "db_target_fingerprint ex_simulator_binding = ex_digest"
  "db_fixture_revision ex_simulator_binding = ex_digest"
  by (simp_all add: ex_simulator_binding_def)

lemma ex_verified: "verify_usb ex_backend_env H ex_simulator_config = Inr ex_key"
  by (simp add: verify_usb_def ex_configured ex_key_def ex_key_digest [simplified])
    (simp add: ex_simulator_config_def)

lemma ex_configured_key: "configured_physical_identity (be_env ex_backend_env) id ex_simulator_config = Inr ex_key"
  unfolding ex_configured ex_key_digest ex_key_def ..

lemma ex_opened:
  "open_simulator ex_backend_env (ex_host (Inr ())) ex_key 8 ex_blank_world
     = (Inr ex_blank_simulator, ex_blank_world\<lparr>bw_stores := (bw_stores ex_blank_world)(ex_key := Stored (initial_state 8))\<rparr>)"
proof -
  have "length (ss_flash (initial_state 8)) = 8" by (simp add: initial_state_def)
  moreover have "bw_stores ex_blank_world ex_key = Absent" by (simp add: ex_blank_world_def)
  ultimately show ?thesis
    by (simp add: open_simulator_def simulator_open_def ex_blank_simulator_def)
qed

lemma ex_connected:
  "connect ex_backend_env (ex_host (Inr ())) ex_sim ex_simulator_binding ex_blank_world = (Inr (), ex_open_world)"
proof -
  have config: "ex_simulator_config = SimulatorInstrument \<lparr>sc_identity = SimulatorId ''s'', sc_flash_bytes = 8\<rparr>"
    by (simp add: ex_simulator_config_def)
  have "open_device ex_backend_env (ex_host (Inr ())) ex_simulator_config ex_blank_world
      = (Inr (ConnectedSimulator ex_key ex_blank_simulator),
         ex_blank_world\<lparr>bw_stores := (bw_stores ex_blank_world)(ex_key := Stored (initial_state 8))\<rparr>)"
    using ex_configured_key ex_opened
    by (simp add: config open_device_def abind_def alift_def areturn_def)
  moreover have "bw_connections ex_blank_world ex_sim = None" by (simp add: ex_blank_world_def)
  ultimately show ?thesis
    by (simp add: connect_def ex_verified abind_def alift_def ex_open_world_def put_simulator_def
        put_connection_def ex_blank_simulator_def)
qed

lemma ex_connected_again:
  "connect ex_backend_env (ex_host (Inr ())) ex_sim ex_simulator_binding ex_open_world = (Inr (), ex_open_world)"
  by (simp add: connect_def ex_verified abind_def alift_def areturn_def ex_open_world_def put_simulator_def)

lemma ex_identified:
  assumes "connect ex_backend_env (ex_host (Inr ())) ex_sim ex_simulator_binding w = (Inr (), ex_open_world)"
  shows "\<exists>obs. identified ex_backend_env (ex_occasion io) ex_sim ex_simulator_binding w = (Inr obs, ex_open_world)
    \<and> source_fingerprint obs = artifact_sha256 (env_sha256_hex ex_evidence_env) [2]
    \<and> text_member ''physical_identity'' (obs_body obs) = Some (digest_str ex_key)"
proof -
  have session: "bw_connections ex_open_world ex_sim = Some (ConnectedSimulator ex_key ex_blank_simulator)"
    by (simp add: ex_open_world_def put_simulator_def)
  have digest: "configuration_digest ex_backend_env ex_simulator_binding
      = Inr (artifact_sha256 (env_sha256_hex ex_evidence_env) [1])"
    by (simp add: configuration_digest_def ex_sha256)
  show ?thesis
    using session digest ex_configured_key assms
    by (simp add: identified_def observe_def ex_verified sight_def simulator_sighting_def abind_def alift_def
        areturn_def Let_def ex_sha256 sighted_physical_identity)
qed

text \<open>A write under a review of another instrument, and the write that was reviewed.\<close>

definition ex_other_request :: dispatch_request where
  "ex_other_request = ex_backend_request ex_simulated_write [(ex_sim, ArtifactDigest [])]"

definition ex_write_request :: dispatch_request where
  "ex_write_request = ex_backend_request ex_simulated_write
     [(ex_sim, artifact_sha256 (env_sha256_hex ex_evidence_env) [2])]"

lemma ex_write_instrument: "op_instrument ex_simulated_write = Some ex_sim"
  by (simp add: ex_simulated_write_def ex_sim_def)

lemma ex_run_session:
  assumes "request = ex_backend_request ex_simulated_write fps"
  shows "run ex_backend_env (ex_occasion io) request artifacts reconciling w
    = timed_access ex_backend_env (ex_occasion io) request artifacts reconciling ex_sim ex_simulator_binding
        (1000 * NANOS) w"
proof -
  have "run ex_backend_env (ex_occasion io) request artifacts reconciling w
      = run_session ex_backend_env (ex_occasion io) request artifacts reconciling ex_sim ex_simulator_binding w"
    unfolding assms
    by (simp add: run_def ex_simulated_write_def session_def abind_def alift_def) (simp add: ex_sim_def)
  then show ?thesis unfolding assms
    by (simp add: run_session_def configuration_digest_def ex_sha256 access_deadline_def abind_def alift_def)
qed

lemma ex_refused:
  assumes "connect ex_backend_env (ex_host (Inr ())) ex_sim ex_simulator_binding w = (Inr (), ex_open_world)"
  shows "run ex_backend_env (ex_occasion (Inr ())) ex_other_request artifacts reconciling w
    = (Inr (ReceiptRejected ''observed instrument identity/configuration differs from reviewed binding''), ex_open_world)"
proof -
  obtain obs where obs: "identified ex_backend_env (ex_occasion (Inr ())) ex_sim ex_simulator_binding w = (Inr obs, ex_open_world)"
    "source_fingerprint obs = artifact_sha256 (env_sha256_hex ex_evidence_env) [2]"
    using ex_identified [OF assms] by blast
  have "artifact_sha256 (env_sha256_hex ex_evidence_env) [2] \<noteq> ArtifactDigest []"
    by (simp add: artifact_sha256_def ex_evidence_env_def)
  with obs have "identity_rejection (ex_occasion (Inr ())) ex_other_request ex_sim obs
      = Some ''observed instrument identity/configuration differs from reviewed binding''"
    by (simp add: identity_rejection_def ex_other_request_def)
  with obs show ?thesis
    by (simp add: ex_run_session [OF ex_other_request_def] timed_access_def device_access_def abind_def
        areturn_def settle_access_def discarding_def)
qed

lemma identity_before_effect_witness:
  "\<exists>reason. run ex_backend_env (ex_occasion (Inr ())) ex_other_request (\<lambda>_. Inr [1, 2]) False ex_blank_world
       = (Inr (ReceiptRejected reason), ex_open_world)
     \<and> (quiet (identification ex_device_env) ex_sim ex_blank_world ex_open_world
        \<or> reviewed_instrument ex_backend_env (ex_occasion (Inr ())) ex_other_request ex_sim ex_blank_world)"
proof -
  have "op_instrument (dr_operation ex_other_request) = Some ex_sim"
    by (simp add: ex_other_request_def ex_write_instrument)
  from identity_before_effect [OF ex_refused [OF ex_connected] this] ex_refused [OF ex_connected]
  show ?thesis by auto
qed

lemma ex_open_reach: "backend_reach ex_backend_env ex_open_world"
proof (rule backend_reach.Ran)
  show "backend_reach ex_backend_env ex_blank_world"
    by (rule backend_reach.Started) (simp add: ex_blank_world_def)
  show "run ex_backend_env (ex_occasion (Inr ())) ex_other_request (\<lambda>_. Inr []) False ex_blank_world
    = (Inr (ReceiptRejected ''observed instrument identity/configuration differs from reviewed binding''), ex_open_world)"
    by (rule ex_refused [OF ex_connected])
qed

lemma sessions_match_bindings_witness:
  "session_matches ex_backend_env ex_open_world ex_simulator_config (ConnectedSimulator ex_key ex_blank_simulator)"
proof -
  have "bw_connections ex_open_world ex_sim = Some (ConnectedSimulator ex_key ex_blank_simulator)"
    by (simp add: ex_open_world_def put_simulator_def)
  from sessions_match_bindings [OF ex_backend_opened ex_open_reach this] show ?thesis by simp
qed

lemma backend_reconciles_by_observing_witness:
  "quiet (reconciling_frame ex_device_env ex_simulator_config) ex_sim ex_open_world
     (snd (run ex_backend_env (ex_occasion (Inr ())) ex_write_request (\<lambda>_. Inr [1, 2]) True ex_open_world))"
proof -
  have "op_instrument (dr_operation ex_write_request) = Some ex_sim"
    by (simp add: ex_write_request_def ex_write_instrument)
  moreover have "map_of [(ex_sim, ex_simulator_binding)] ex_sim = Some ex_simulator_binding" by simp
  ultimately show ?thesis
    using backend_reconciles_by_observing [OF ex_backend_opened ex_open_reach prod.collapse [symmetric]]
    by fastforce
qed

text \<open>The reviewed write fails at the store file, and the session is closed.\<close>

lemma failure_closes_session_witness:
  "\<exists>e w'. run ex_backend_env (ex_occasion (Inl (InstrumentIo ''replacing the store'' ''no space'')))
       ex_write_request (\<lambda>_. Inr [1, 2]) False ex_open_world = (Inl (Failed e), w')
     \<and> (bw_connections w' ex_sim = None \<or> files_only ex_open_world w')"
proof -
  let ?cause = "InstrumentIo ''replacing the store'' ''no space''"
  let ?oc = "ex_occasion (Inl ?cause)"
  obtain obs where obs: "identified ex_backend_env ?oc ex_sim ex_simulator_binding ex_open_world = (Inr obs, ex_open_world)"
    "source_fingerprint obs = artifact_sha256 (env_sha256_hex ex_evidence_env) [2]"
    "text_member ''physical_identity'' (obs_body obs) = Some (digest_str ex_key)"
    using ex_identified [OF ex_connected_again] by blast
  then have admitted: "identity_rejection ?oc ex_write_request ex_sim obs = None"
    by (simp add: identity_rejection_def ex_write_request_def expired_at_def)
  obtain s1 where failed: "write_flash (Inl ?cause) 2 [1, 2] ex_blank_simulator = (Inl ?cause, s1)"
    using ex_simulated_programs(2) by blast
  then have "simulated_execute ex_device_env (Inl ?cause) ex_simulated_write (\<lambda>_. Inr [1, 2]) False ex_blank_simulator
      = (Inl (device_failure ex_device_env ?cause), s1)"
    by (simp add: simulated_execute_def simulated_result_def ex_simulated_write_def simulated_source_def
        ex_simulated_source effect_unless_def)
  then have "\<exists>w1. operate ex_backend_env ?oc ex_write_request (\<lambda>_. Inr [1, 2]) False ex_sim ex_simulator_binding
      (1000 * NANOS) obs ex_open_world = (Inl (Failed (device_failure ex_device_env ?cause)), w1)"
    by (simp add: operate_def Let_def ex_write_request_def ex_open_world_def put_simulator_def on_simulator_def)
  then obtain w1 where "operate ex_backend_env ?oc ex_write_request (\<lambda>_. Inr [1, 2]) False ex_sim ex_simulator_binding
      (1000 * NANOS) obs ex_open_world = (Inl (Failed (device_failure ex_device_env ?cause)), w1)" by blast
  with obs(1) admitted have run: "run ex_backend_env ?oc ex_write_request (\<lambda>_. Inr [1, 2]) False ex_open_world
      = (Inl (Failed (device_failure ex_device_env ?cause)), discard ex_sim w1)"
    unfolding ex_run_session [OF ex_write_request_def]
    by (simp add: timed_access_def device_access_def abind_def)
  have "op_instrument (dr_operation ex_write_request) = Some ex_sim"
    by (simp add: ex_write_request_def ex_write_instrument)
  from failure_closes_session [OF run this] run show ?thesis by blast
qed

end
