(* ===== verification/Service_Auth.thy ===== *)
theory Service_Auth
  imports Supervisor
begin

text \<open>
  Who a client is (\<open>src/service/auth.rs\<close>): the configuration binds the digest of a token
  and the user of the peer process to an identity and a role. A request carries neither: the
  principal of a request is computed here, and everything the service does for it is done
  under that principal.
\<close>

section \<open>Bindings\<close>

record credential_binding =
  cb_principal :: principal_id
  cb_role :: principal_role
  cb_token_digest :: artifact_digest
  cb_peer_uid :: u32

text \<open>\<open>'e\<close> is the failure of a file operation.\<close>

datatype 'e authentication_error =
    Unauthorized
  | InvalidConfiguration string
  | CredentialIo 'e

text \<open>The loop over the bindings with the identities and the digests seen before.\<close>

fun unique_bindings ::
  "principal_id set \<Rightarrow> artifact_digest set \<Rightarrow> credential_binding list \<Rightarrow> bool" where
  "unique_bindings identities digests [] \<longleftrightarrow> True"
| "unique_bindings identities digests (binding # bindings) \<longleftrightarrow>
     cb_principal binding \<notin> identities \<and> cb_token_digest binding \<notin> digests
     \<and> unique_bindings (insert (cb_principal binding) identities)
         (insert (cb_token_digest binding) digests) bindings"

definition validate_bindings :: "credential_binding list \<Rightarrow> 'e authentication_error + unit" where
  "validate_bindings bindings =
     (if \<not> unique_bindings {} {} bindings
      then Inl (InvalidConfiguration ''principal IDs and token digests must be unique'')
      else if bindings = [] then Inl (InvalidConfiguration ''at least one configured principal is required'')
      else Inr ())"

definition binding_principal :: "credential_binding \<Rightarrow> principal" where
  "binding_principal binding =
     \<lparr>pr_id = cb_principal binding, pr_role = cb_role binding,
      pr_authentication_fingerprint = cb_token_digest binding\<rparr>"

definition authenticate ::
  "env \<Rightarrow> credential_binding list \<Rightarrow> string \<Rightarrow> u32 \<Rightarrow> 'e authentication_error + principal" where
  "authenticate E bindings token peer_uid =
     (let digest = text_digest E token in
      rbind (ok_or (List.find (\<lambda>binding. cb_peer_uid binding = peer_uid \<and> cb_token_digest binding = digest)
          bindings) Unauthorized) (\<lambda>binding. Inr (binding_principal binding)))"

section \<open>Lemmas\<close>

lemma unique_bindings_iff:
  "unique_bindings identities digests bindings \<longleftrightarrow>
     distinct (map cb_principal bindings) \<and> distinct (map cb_token_digest bindings)
     \<and> cb_principal ` set bindings \<inter> identities = {} \<and> cb_token_digest ` set bindings \<inter> digests = {}"
  by (induction bindings arbitrary: identities digests) auto

lemma validate_bindings_ok_iff:
  "validate_bindings bindings = Inr u \<longleftrightarrow>
     bindings \<noteq> [] \<and> distinct (map cb_principal bindings) \<and> distinct (map cb_token_digest bindings)"
  by (auto simp: validate_bindings_def unique_bindings_iff)

lemma find_unique:
  assumes "distinct (map f xs)" "x \<in> set xs" "P x" "\<And>y. P y \<Longrightarrow> f y = k"
  shows "List.find P xs = Some x"
proof -
  obtain y where y: "List.find P xs = Some y" using assms(2,3) by (cases "List.find P xs") (auto simp: find_None_iff)
  then have "y \<in> set xs" "P y" by (auto simp: find_Some_iff)
  moreover have "inj_on f (set xs)" using assms(1) by (simp add: distinct_map)
  ultimately show ?thesis using y assms(2-4) by (metis inj_onD)
qed

lemma authenticate_Inr:
  "authenticate E bindings token uid = Inr p \<Longrightarrow> \<exists>b \<in> set bindings.
     cb_peer_uid b = uid \<and> cb_token_digest b = text_digest E token \<and> p = binding_principal b"
  by (auto simp: authenticate_def Let_def find_Some_iff)

lemma authenticates:
  assumes "validate_bindings bindings = (Inr () :: 'e authentication_error + unit)" "b \<in> set bindings"
    "cb_peer_uid b = uid" "cb_token_digest b = text_digest E token"
  shows "authenticate E bindings token uid = (Inr (binding_principal b) :: 'f authentication_error + principal)"
  using find_unique [of cb_token_digest bindings b
      "\<lambda>b. cb_peer_uid b = uid \<and> cb_token_digest b = text_digest E token" "text_digest E token"] assms
  by (simp add: authenticate_def validate_bindings_ok_iff)

section \<open>Properties\<close>

text \<open>C27: Authentication is exact and names one client: with a configuration that passed
  validation, a token is accepted as a principal exactly when a binding holds its digest and
  the user of the peer, with the identity and role of that binding; and two accepted clients
  with the same identity hold the same credential, so an identity has one role.\<close>

theorem authenticate_exact:
  assumes "validate_bindings bindings = (Inr () :: 'e authentication_error + unit)"
  shows "(\<forall>p. authenticate E bindings token uid = (Inr p :: 'e authentication_error + principal) \<longleftrightarrow>
       (\<exists>b \<in> set bindings. cb_peer_uid b = uid \<and> cb_token_digest b = text_digest E token
          \<and> p = binding_principal b))
    \<and> (\<forall>p q token' uid'. authenticate E bindings token uid = (Inr p :: 'e authentication_error + principal)
        \<longrightarrow> authenticate E bindings token' uid' = (Inr q :: 'e authentication_error + principal)
        \<longrightarrow> pr_id p = pr_id q \<longrightarrow> p = q \<and> uid = uid' \<and> text_digest E token = text_digest E token')"
proof -
  have "authenticate E bindings token uid = (Inr (binding_principal b) :: 'e authentication_error + principal)"
    if "b \<in> set bindings" "cb_peer_uid b = uid" "cb_token_digest b = text_digest E token" for b
    using authenticates [OF assms that] .
  moreover have "inj_on cb_principal (set bindings)"
    using assms by (simp add: validate_bindings_ok_iff distinct_map)
  then have "b = b'" if "b \<in> set bindings" "b' \<in> set bindings"
    "pr_id (binding_principal b) = pr_id (binding_principal b')" for b b'
    using that by (auto simp: binding_principal_def dest: inj_onD)
  ultimately have known: "b \<in> set bindings \<Longrightarrow> cb_peer_uid b = uid \<Longrightarrow> cb_token_digest b = text_digest E token
      \<Longrightarrow> authenticate E bindings token uid = (Inr (binding_principal b) :: 'e authentication_error + principal)"
    and same: "b \<in> set bindings \<Longrightarrow> b' \<in> set bindings
      \<Longrightarrow> pr_id (binding_principal b) = pr_id (binding_principal b') \<Longrightarrow> b = b'" for b b' by blast+
  have "p = q \<and> uid = uid' \<and> text_digest E token = text_digest E token'"
    if "authenticate E bindings token uid = (Inr p :: 'e authentication_error + principal)"
      "authenticate E bindings token' uid' = (Inr q :: 'e authentication_error + principal)" "pr_id p = pr_id q"
    for p q token' uid'
    using authenticate_Inr [OF that(1)] authenticate_Inr [OF that(2)] that(3) by (auto dest: same)
  then show ?thesis using known by (blast dest: authenticate_Inr)
qed

end
