(* ===== verification/Service_Config.thy ===== *)
theory Service_Config
  imports Service_Auth Evidence_Durability Device_Config
begin

text \<open>
  The private configuration of the service (\<open>src/service/config.rs\<close>) and the provisioning
  of credentials (\<open>provision_token\<close> of \<open>src/service/auth.rs\<close>), on the file system of
  \<open>Evidence\<close>. What the operating system says about a path (its metadata, what it resolves
  to) and the codecs are the functions of a \<open>config_host\<close>. A new instance has a private
  directory, three credentials and a configuration file; nothing that exists is written.
\<close>

section \<open>Paths, host and errors\<close>

text \<open>A \<open>PathBuf\<close>: whether it is absolute, and its components.\<close>

datatype path_buf = PathBuf (is_absolute: bool) (components: path)

definition path_join :: "path_buf \<Rightarrow> string \<Rightarrow> path_buf" where
  "path_join p name = PathBuf (is_absolute p) (components p @ [name])"

definition path_parent :: "path_buf \<Rightarrow> path_buf option" where
  "path_parent p =
     (if components p = [] then None else Some (PathBuf (is_absolute p) (butlast (components p))))"

record service_config =
  sc_instance_dir :: path_buf
  sc_socket :: path_buf
  sc_socket_mode :: u32
  sc_socket_group_gid :: "u32 option"
  sc_credentials :: "credential_binding list"
  sc_instruments :: "(instrument_id \<times> device_binding) list"

datatype config_error =
    ConfigJson string
  | ConfigIo errno
  | UnsafeSocketPath path_buf path_buf
  | UnsafeInstanceDirectory path_buf
  | NoCurrentUid
  | InvalidSocketMode
  | Credential "errno authentication_error"

record metadata =
  md_symlink :: bool
  md_directory :: bool
  md_uid :: u32
  md_mode :: u32

unbundle bit_operations_syntax

text \<open>\<open>ch_entropy\<close>: what reading 32 bytes of \<open>/dev/urandom\<close> gives for a token file;
  \<open>ch_status\<close>: the text of \<open>/proc/self/status\<close>; \<open>ch_place\<close>: the entry a path
  names, links and the working directory resolved.\<close>

record config_host =
  ch_metadata :: "path_buf \<Rightarrow> file_system \<Rightarrow> errno + metadata"
  ch_symlink_metadata :: "path_buf \<Rightarrow> file_system \<Rightarrow> errno + metadata"
  ch_entries :: "path_buf \<Rightarrow> file_system \<Rightarrow> errno + string list"
  ch_canonicalize :: "path_buf \<Rightarrow> file_system \<Rightarrow> errno + path_buf"
  ch_read :: "path_buf \<Rightarrow> file_system \<Rightarrow> errno + u8 list"
  ch_place :: "path_buf \<Rightarrow> path"
  ch_status :: "errno + string"
  ch_entropy :: "path \<Rightarrow> errno + u8 list"
  ch_hex :: "u8 list \<Rightarrow> string"
  ch_encode_config :: "service_config \<Rightarrow> string + u8 list"
  ch_parse_config :: "u8 list \<Rightarrow> string + service_config"

definition PRIVATE_DIRECTORY_MODE :: u32 where "PRIVATE_DIRECTORY_MODE = 0x1C0"
definition DEFAULT_SOCKET_MODE :: u32 where "DEFAULT_SOCKET_MODE = 0x180"
definition CONFIG_FILE :: string where "CONFIG_FILE = ''service.json''"
definition SOCKET_FILE :: string where "SOCKET_FILE = ''service.sock''"

type_synonym 'a configuring = "(file_system, config_error, 'a) action"

text \<open>What a call observes of the file system without changing it.\<close>

definition inspecting :: "(file_system \<Rightarrow> config_error + 'a) \<Rightarrow> 'a configuring" where
  "inspecting f s = alift (f s) s"

definition io :: "(file_system, errno, 'a) action \<Rightarrow> 'a configuring" where
  "io m = amap_err ConfigIo m"

section \<open>The local user\<close>

text \<open>\<open>split_whitespace().next()\<close> and \<open>parse::<u32>()\<close>\<close>

fun until_white_space :: "string \<Rightarrow> string" where
  "until_white_space [] = []"
| "until_white_space (c # s) =
     (if list_ex (\<lambda>w. w \<noteq> [] \<and> starts_with w (c # s)) white_space then [] else c # until_white_space s)"

definition first_word :: "string \<Rightarrow> string option" where
  "first_word s = (let word = until_white_space (strip_words white_space s) in
     if word = [] then None else Some word)"

definition parse_u32 :: "string \<Rightarrow> u32 option" where
  "parse_u32 s = (case parse_usize s of
     None \<Rightarrow> None | Some n \<Rightarrow> if n < 2 ^ 32 then Some (of_nat n) else None)"

definition current_uid :: "config_host \<Rightarrow> config_error + u32" where
  "current_uid H =
     rbind (map_err ConfigIo (ch_status H)) (\<lambda>status.
     ok_or (Option.bind (List.find (\<lambda>found. found \<noteq> None)
         (map (strip_prefix (''Uid:'' @ [CHR 0x09])) (str_lines status))) (\<lambda>values.
       Option.bind values (\<lambda>values. Option.bind (first_word values) parse_u32))) NoCurrentUid)"

section \<open>Credentials\<close>

definition sync_parent :: "config_host \<Rightarrow> path_buf \<Rightarrow> (file_system, errno, unit) action" where
  "sync_parent H p =
     (case path_parent p of
        None \<Rightarrow> areturn ()
      | Some parent \<Rightarrow> abind (sys_open_file (ch_place H parent) False) sys_sync)"

text \<open>A new private file with the given content, on disk before the call returns.\<close>

definition write_private :: "path \<Rightarrow> u8 list \<Rightarrow> (file_system, errno, unit) action" where
  "write_private p bytes =
     abind (sys_create p FILE_MODE) (\<lambda>output.
     abind (sys_write output bytes) (\<lambda>_. sys_sync output))"

definition provision_token :: "env \<Rightarrow> config_host \<Rightarrow> path_buf \<Rightarrow> (file_system, errno authentication_error, artifact_digest) action" where
  "provision_token E H p =
     abind (alift (map_err CredentialIo (ch_entropy H (ch_place H p)))) (\<lambda>random.
     let token = ch_hex H random in
     abind (amap_err CredentialIo (write_private (ch_place H p) (as_bytes token))) (\<lambda>_.
     abind (amap_err CredentialIo (sync_parent H p)) (\<lambda>_.
       areturn (text_digest E token))))"

definition credential_path :: "path_buf \<Rightarrow> string \<Rightarrow> path_buf" where
  "credential_path instance_dir role = path_join (path_join instance_dir ''credentials'') (role @ ''.token'')"

definition provisioned_roles :: "(string \<times> principal_role) list" where
  "provisioned_roles = [(''operator'', Operator), (''reviewer'', Reviewer), (''agent'', Agent)]"

definition provision_role ::
  "env \<Rightarrow> config_host \<Rightarrow> path_buf \<Rightarrow> u32 \<Rightarrow> string \<times> principal_role \<Rightarrow> credential_binding configuring" where
  "provision_role E H instance_dir peer_uid = (\<lambda>(name, role).
     abind (amap_err Credential (provision_token E H (credential_path instance_dir name))) (\<lambda>token_digest.
     abind (alift (map_err (\<lambda>_. NoCurrentUid) (identifier_try_from PrincipalId ''principal'' name))) (\<lambda>principal.
       areturn \<lparr>cb_principal = principal, cb_role = role, cb_token_digest = token_digest,
         cb_peer_uid = peer_uid\<rparr>)))"

fun provision_roles ::
  "env \<Rightarrow> config_host \<Rightarrow> path_buf \<Rightarrow> u32 \<Rightarrow> (string \<times> principal_role) list \<Rightarrow> credential_binding list configuring" where
  "provision_roles E H instance_dir peer_uid [] = areturn []"
| "provision_roles E H instance_dir peer_uid (entry # entries) =
     abind (provision_role E H instance_dir peer_uid entry) (\<lambda>binding.
     abind (provision_roles E H instance_dir peer_uid entries) (\<lambda>bindings.
       areturn (binding # bindings)))"

section \<open>Validating, saving and loading\<close>

definition socket_directory_trusted ::
  "config_host \<Rightarrow> service_config \<Rightarrow> metadata \<Rightarrow> config_error + bool" where
  "socket_directory_trusted H config metadata =
     (if \<not> is_absolute (sc_socket config) \<or> \<not> md_directory metadata then Inr False
      else rbind (current_uid H) (\<lambda>uid.
        Inr (md_uid metadata = uid \<and> md_mode metadata AND 0x12 = 0)))"

definition validate_paths :: "config_host \<Rightarrow> service_config \<Rightarrow> file_system \<Rightarrow> config_error + unit" where
  "validate_paths H config s =
     (if sc_socket_mode config \<noteq> 0x180 \<and> sc_socket_mode config \<noteq> 0x1B0 then Inl InvalidSocketMode
      else rbind (map_err Credential (validate_bindings (sc_credentials config))) (\<lambda>_.
        if sc_socket_mode config = 0x1B0 \<and> sc_socket_group_gid config = None then Inl InvalidSocketMode
        else (let unsafe = UnsafeSocketPath (sc_socket config) (sc_instance_dir config) in
          rbind (ok_or (path_parent (sc_socket config)) unsafe) (\<lambda>parent.
          rbind (map_err ConfigIo (ch_metadata H parent s)) (\<lambda>metadata.
          rbind (socket_directory_trusted H config metadata) (\<lambda>trusted.
            if trusted then Inr () else Inl unsafe))))))"

definition save :: "config_host \<Rightarrow> service_config \<Rightarrow> unit configuring" where
  "save H config =
     abind (inspecting (validate_paths H config)) (\<lambda>_.
     abind (alift (map_err ConfigJson (ch_encode_config H config))) (\<lambda>encoded.
     abind (io (write_private (ch_place H (path_join (sc_instance_dir config) CONFIG_FILE)) encoded)) (\<lambda>_.
     abind (io (sys_open_file (ch_place H (sc_instance_dir config)) False)) (\<lambda>directory.
       io (sys_sync directory)))))"

definition load_config :: "config_host \<Rightarrow> path_buf \<Rightarrow> service_config configuring" where
  "load_config H p =
     abind (inspecting (\<lambda>s. map_err ConfigIo (ch_read H p s))) (\<lambda>bytes.
     abind (alift (map_err ConfigJson (ch_parse_config H bytes))) (\<lambda>config.
     abind (inspecting (validate_paths H config)) (\<lambda>_. areturn config)))"

section \<open>Initialization\<close>

definition private_directory :: "config_host \<Rightarrow> metadata \<Rightarrow> config_error + bool" where
  "private_directory H metadata =
     (if md_symlink metadata \<or> \<not> md_directory metadata then Inr False
      else rbind (current_uid H) (\<lambda>uid.
        Inr (md_uid metadata = uid \<and> md_mode metadata AND 0x1FF = PRIVATE_DIRECTORY_MODE)))"

definition empty_private_directory :: "config_host \<Rightarrow> path_buf \<Rightarrow> metadata \<Rightarrow> file_system \<Rightarrow> config_error + unit" where
  "empty_private_directory H p metadata s =
     rbind (private_directory H metadata) (\<lambda>private.
     if \<not> private then Inl (UnsafeInstanceDirectory p)
     else rbind (map_err ConfigIo (ch_entries H p s)) (\<lambda>entries.
       if entries \<noteq> [] then Inl (UnsafeInstanceDirectory p) else Inr ()))"

definition create_private_directory :: "path \<Rightarrow> string \<Rightarrow> unit configuring" where
  "create_private_directory parent name =
     abind (io (sys_make_directory parent name OtherMode)) (\<lambda>_.
       io (sys_chmod (parent @ [name]) DIRECTORY_MODE))"

definition prepare_instance_directory :: "config_host \<Rightarrow> path_buf \<Rightarrow> path_buf configuring" where
  "prepare_instance_directory H p =
     abind (\<lambda>s. case ch_symlink_metadata H p s of
         Inr metadata \<Rightarrow> inspecting (empty_private_directory H p metadata) s
       | Inl e \<Rightarrow> if e = NoEntry
           then (let place = ch_place H p in create_private_directory (butlast place) (last place) s)
           else afail (ConfigIo e) s) (\<lambda>_.
     inspecting (\<lambda>s. map_err ConfigIo (ch_canonicalize H p s)))"

definition initialize :: "env \<Rightarrow> config_host \<Rightarrow> path_buf \<Rightarrow> service_config configuring" where
  "initialize E H p =
     abind (prepare_instance_directory H p) (\<lambda>instance_dir.
     abind (let place = ch_place H (path_join instance_dir ''credentials'')
       in create_private_directory (butlast place) (last place)) (\<lambda>_.
     abind (alift (current_uid H)) (\<lambda>peer_uid.
     abind (provision_roles E H instance_dir peer_uid provisioned_roles) (\<lambda>credentials.
     let config = \<lparr>sc_instance_dir = instance_dir, sc_socket = path_join instance_dir SOCKET_FILE,
           sc_socket_mode = DEFAULT_SOCKET_MODE, sc_socket_group_gid = None,
           sc_credentials = credentials, sc_instruments = []\<rparr> in
     abind (save H config) (\<lambda>_. areturn config)))))"

end
