(* ===== verification/Service_Provisioning.thy ===== *)
theory Service_Provisioning
  imports Service_Config Movement
begin

text \<open>
  What initializing an instance guarantees: nothing that exists is written, and when it
  succeeds each of the three roles has a private token file whose content authenticates
  the local user under exactly that role.
\<close>

section \<open>What a call may touch\<close>

definition touching :: "path set \<Rightarrow> file_system \<Rightarrow> file_system \<Rightarrow> bool" where
  "touching T s s' \<longleftrightarrow> (\<forall>q. q \<notin> T \<longrightarrow> fs_nodes s' q = fs_nodes s q \<and> fs_mode s' q = fs_mode s q
     \<and> (fs_synced s q \<longrightarrow> fs_synced s' q))"

text \<open>What exists is neither written nor opened to others.\<close>

definition undisturbed :: "file_system \<Rightarrow> file_system \<Rightarrow> bool" where
  "undisturbed s s' \<longleftrightarrow> (\<forall>q. fs_nodes s q \<noteq> None \<longrightarrow> fs_nodes s' q = fs_nodes s q \<and> fs_mode s' q = fs_mode s q
     \<and> (fs_synced s q \<longrightarrow> fs_synced s' q))"

interpretation touching: movement "touching T" for T
  by unfold_locales (auto simp: touching_def)

interpretation undisturbed: movement undisturbed
  by unfold_locales (simp_all add: undisturbed_def)

lemma touching_syscall:
  assumes "\<And>s. touching T s (snd (effect s))" "\<And>n s. touching T s (part n s)"
  shows "moves (touching T) (syscall_with part effect)"
proof (rule movesI)
  fix s r s' assume run: "syscall_with part effect s = (r, s')"
  show "touching T s s'"
  proof (cases "fs_script s")
    case (Cons out script)
    let ?s = "s\<lparr>fs_script := script\<rparr>"
    have "s' = snd (effect ?s) \<or> (\<exists>n. s' = part n ?s)"
      using run Cons by (cases out) (auto simp: syscall_with_def split: prod.splits)
    then have "touching T ?s s'" using assms by auto
    then show ?thesis by (simp add: touching_def)
  qed (use run in \<open>simp add: syscall_with_def touching.stays\<close>)
qed

lemma touching_calls:
  "moves (touching T) (sys_sync p)" "moves (touching T) (sys_open_file p writable)"
  "p \<in> T \<Longrightarrow> moves (touching T) (sys_create p mode)"
  "p \<in> T \<Longrightarrow> moves (touching T) (sys_write p bytes)"
  "p \<in> T \<Longrightarrow> moves (touching T) (sys_chmod p mode)"
  "parent @ [name] \<in> T \<Longrightarrow> moves (touching T) (sys_make_directory parent name mode)"
  by (auto intro!: touching_syscall simp: touching_def sys_sync_def sys_open_file_def sys_create_def sys_write_def
      sys_chmod_def sys_make_directory_def new_entry_def put_node_def unsynced_contents_def split: option.split)

lemma undisturbed_nothing: "moves (touching {}) m \<Longrightarrow> moves undisturbed m"
  by (auto simp: moves_def touching_def undisturbed_def)

lemma create_fresh: "sys_create p mode s = (Inr q, s') \<Longrightarrow> fs_nodes s p = None \<and> q = p"
  by (auto simp: sys_create_def syscall_Inr split: option.splits)

lemma make_directory_fresh: "sys_make_directory parent name mode s = (Inr u, s') \<Longrightarrow> fs_nodes s (parent @ [name]) = None"
  by (auto simp: sys_make_directory_def syscall_Inr split: option.splits)

lemma failed_syscall:
  assumes "syscall effect s = (Inl e, s')" "\<And>s x t. effect s = (Inl x, t) \<Longrightarrow> t = s"
  shows "touching {} s s'"
proof (cases "fs_script s")
  case (Cons out script)
  obtain r1 s1 where made: "effect (s\<lparr>fs_script := script\<rparr>) = (r1, s1)" by fastforce
  have "s' = s\<lparr>fs_script := script\<rparr>"
    using assms(1) Cons made assms(2) [of "s\<lparr>fs_script := script\<rparr>"]
    by (cases out; cases r1) (auto simp: syscall_with_def Let_def)
  then show ?thesis by (simp add: touching_def)
qed (use assms(1) in \<open>simp add: syscall_with_def touching.stays\<close>)

lemma failed_touches_nothing:
  "sys_create p mode s = (Inl e, s') \<Longrightarrow> touching {} s s'"
  "sys_make_directory parent name mode s = (Inl e, s') \<Longrightarrow> touching {} s s'"
  unfolding sys_create_def sys_make_directory_def
  by (erule failed_syscall, force split: option.splits)+

text \<open>What creates an entry and then works on it alone disturbs nothing.\<close>

lemma undisturbed_creating:
  assumes "\<And>s x s1. m s = (Inr x, s1) \<Longrightarrow> fs_nodes s p = None \<and> moves (touching {p}) (f x)"
    and "moves (touching {p}) m" "\<And>s e s1. m s = (Inl e, s1) \<Longrightarrow> touching {} s s1"
  shows "moves undisturbed (abind m f)"
proof (rule movesI)
  fix s r s' assume run: "abind m f s = (r, s')"
  obtain r1 s1 where made: "m s = (r1, s1)" by fastforce
  show "undisturbed s s'"
  proof (cases r1)
    case (Inl e)
    with run made assms(3) [of s e s1] show ?thesis by (simp add: abind_def touching_def undisturbed_def)
  next
    case (Inr x)
    with made assms(1) have fresh: "fs_nodes s p = None" "moves (touching {p}) (f x)" by blast+
    with run made Inr have "touching {p} s s'"
      using movesD [OF assms(2) made] by (auto simp: abind_def intro: touching.goes_on movesD [OF fresh(2)])
    with fresh(1) show ?thesis unfolding touching_def undisturbed_def by (metis singletonD)
  qed
qed

lemma undisturbed_write_private: "moves undisturbed (write_private p bytes)"
  unfolding write_private_def
  by (rule undisturbed_creating [where p = p])
    (auto intro!: touching.moves_intros touching_calls dest!: create_fresh dest: failed_touches_nothing)

lemma undisturbed_create_private_directory: "moves undisturbed (create_private_directory parent name)"
  unfolding create_private_directory_def io_def
  by (rule undisturbed_creating [where p = "parent @ [name]"])
    (auto intro!: touching.moves_intros touching_calls simp: amap_err_def
      split: prod.splits sum.splits stop.splits dest!: make_directory_fresh dest: failed_touches_nothing)

lemma undisturbed_sync_parent: "moves undisturbed (sync_parent H p)"
  unfolding sync_parent_def
  by (intro undisturbed_nothing touching.moves_intros touching_calls)

lemma undisturbed_provision_token: "moves undisturbed (provision_token E H p)"
  unfolding provision_token_def Let_def
  by (intro undisturbed.moves_intros undisturbed_write_private undisturbed_sync_parent)

lemma undisturbed_provision_role: "moves undisturbed (provision_role E H d uid entry)"
  by (cases entry) (auto simp: provision_role_def intro!: undisturbed.moves_intros undisturbed_provision_token)

lemma undisturbed_provision_roles: "moves undisturbed (provision_roles E H d uid entries)"
  by (induction entries) (auto intro!: undisturbed.moves_intros undisturbed_provision_role)

lemma undisturbed_inspecting: "moves undisturbed (inspecting f)"
  by (simp add: moves_def inspecting_def alift_def undisturbed.stays)

lemma undisturbed_save: "moves undisturbed (save H config)"
  unfolding save_def io_def
  by (intro undisturbed.moves_intros undisturbed_inspecting undisturbed_write_private
      undisturbed_nothing touching_calls)

lemma undisturbed_prepare: "moves undisturbed (prepare_instance_directory H p)"
proof -
  have "moves undisturbed (\<lambda>s. case ch_symlink_metadata H p s of
         Inr metadata \<Rightarrow> inspecting (empty_private_directory H p metadata) s
       | Inl e \<Rightarrow> if e = NoEntry
           then (let place = ch_place H p in create_private_directory (butlast place) (last place) s)
           else afail (ConfigIo e) s)"
    by (rule movesI) (auto simp: Let_def split: sum.splits if_splits
        intro: movesD [OF undisturbed_inspecting] movesD [OF undisturbed_create_private_directory]
          movesD [OF undisturbed.moves_pure(2)])
  then show ?thesis
    unfolding prepare_instance_directory_def by (intro undisturbed.moves_intros undisturbed_inspecting)
qed

lemma undisturbed_initialize: "moves undisturbed (initialize E H p)"
  unfolding initialize_def Let_def
  by (intro undisturbed.moves_intros undisturbed_prepare undisturbed_create_private_directory
      undisturbed_provision_roles undisturbed_save)

section \<open>What is provisioned\<close>

definition credential_file :: "config_host \<Rightarrow> path_buf \<Rightarrow> string \<Rightarrow> path" where
  "credential_file H d name = ch_place H (credential_path d name)"

definition holds_token :: "file_system \<Rightarrow> path \<Rightarrow> string \<Rightarrow> bool" where
  "holds_token s p token \<longleftrightarrow> fs_nodes s p = Some (RegularFile (as_bytes token)) \<and> fs_mode s p = FILE_MODE
     \<and> fs_synced s p"

lemma holds_token_kept: "undisturbed s s' \<Longrightarrow> holds_token s p token \<Longrightarrow> holds_token s' p token"
  by (simp add: undisturbed_def holds_token_def)

lemma write_private_Inr:
  assumes "write_private p (as_bytes token) s = (Inr u, s')"
  shows "fs_nodes s p = None \<and> holds_token s' p token"
proof -
  from assms obtain q s1 s2 where
    "sys_create p FILE_MODE s = (Inr q, s1)" "sys_write q (as_bytes token) s1 = (Inr (), s2)"
    "sys_sync q s2 = (Inr u, s')"
    by (auto simp: write_private_def)
  then show ?thesis
    by (auto simp: sys_create_def sys_write_def sys_sync_def syscall_Inr holds_token_def new_entry_def put_node_def
        unsynced_contents_def split: option.splits)
qed

lemma provision_token_Inr:
  assumes "provision_token E H p s = (Inr digest, s')"
  shows "\<exists>token. digest = text_digest E token \<and> fs_nodes s (ch_place H p) = None
    \<and> holds_token s' (ch_place H p) token"
proof -
  from assms obtain random s1 where
    "write_private (ch_place H p) (as_bytes (ch_hex H random)) s = (Inr (), s1)"
    "sync_parent H p s1 = (Inr (), s')" "digest = text_digest E (ch_hex H random)"
    by (auto simp: provision_token_def Let_def)
  with movesD [OF undisturbed_sync_parent] show ?thesis
    by (blast dest: write_private_Inr intro: holds_token_kept)
qed

text \<open>The binding of a role, and the new file that holds its token.\<close>

definition provisioned ::
  "env \<Rightarrow> config_host \<Rightarrow> path_buf \<Rightarrow> u32 \<Rightarrow> file_system \<Rightarrow> file_system \<Rightarrow> string \<times> principal_role \<Rightarrow> credential_binding \<Rightarrow> bool" where
  "provisioned E H d uid s s' entry b \<longleftrightarrow>
     (\<exists>token. fs_nodes s (credential_file H d (fst entry)) = None
       \<and> holds_token s' (credential_file H d (fst entry)) token
       \<and> b = \<lparr>cb_principal = PrincipalId (fst entry), cb_role = snd entry, cb_token_digest = text_digest E token,
              cb_peer_uid = uid\<rparr>)"

lemma provisioned_around:
  "provisioned E H d uid s1 s2 entry b \<Longrightarrow> undisturbed s0 s1 \<Longrightarrow> undisturbed s2 s3
    \<Longrightarrow> provisioned E H d uid s0 s3 entry b"
  unfolding provisioned_def using holds_token_kept undisturbed_def by metis

lemma provision_role_Inr:
  assumes "provision_role E H d uid entry s = (Inr b, s')"
  shows "provisioned E H d uid s s' entry b"
  using assms
  by (auto simp: provision_role_def provisioned_def credential_file_def identifier_try_from_def
      split: prod.splits if_splits dest!: provision_token_Inr)

lemma provision_roles_Inr:
  "provision_roles E H d uid entries s = (Inr bs, s') \<Longrightarrow> list_all2 (provisioned E H d uid s s') entries bs"
proof (induction entries arbitrary: s bs)
  case (Cons entry entries)
  from Cons.prems obtain b s1 bs' where step: "provision_role E H d uid entry s = (Inr b, s1)"
    "provision_roles E H d uid entries s1 = (Inr bs', s')" "bs = b # bs'" by auto
  have "undisturbed s s1" "undisturbed s1 s'"
    using movesD [OF undisturbed_provision_role step(1)] movesD [OF undisturbed_provision_roles step(2)] .
  then have "provisioned E H d uid s s' entry b" "list_all2 (provisioned E H d uid s s') entries bs'"
    using provisioned_around provision_role_Inr [OF step(1)] Cons.IH [OF step(2)] undisturbed.stays
    by (blast intro: list_all2_mono)+
  with step(3) show ?case by simp
qed simp

section \<open>Properties\<close>

text \<open>C28: Initializing an instance is safe and useful: whatever the file system and the
  process meet, it writes no file and opens no mode of a file that existed; and when it
  succeeds, every one of the roles operator, reviewer and agent has a new private file, on
  disk, whose content authenticates the local user as that role, and the configuration it
  wrote passes validation.\<close>

theorem initialize_provisions:
  "undisturbed s (snd (initialize E H p s))
   \<and> (\<forall>config s'. initialize E H p s = (Inr config, s') \<longrightarrow>
       validate_bindings (sc_credentials config) = (Inr () :: errno authentication_error + unit)
     \<and> (\<forall>(name, role) \<in> set provisioned_roles. \<exists>token uid.
          current_uid H = Inr uid
        \<and> fs_nodes s (credential_file H (sc_instance_dir config) name) = None
        \<and> holds_token s' (credential_file H (sc_instance_dir config) name) token
        \<and> authenticate E (sc_credentials config) token uid
            = (Inr \<lparr>pr_id = PrincipalId name, pr_role = role, pr_authentication_fingerprint = text_digest E token\<rparr>
               :: errno authentication_error + principal)))"
  (is "_ \<and> (\<forall>config s'. _ \<longrightarrow> ?valid config \<and> ?roles config s')")
proof -
  have "?valid config \<and> ?roles config s'" if run: "initialize E H p s = (Inr config, s')" for config s'
  proof -
    from run obtain d s1 s2 uid s3 bindings where steps: "prepare_instance_directory H p s = (Inr d, s1)"
      "(let place = ch_place H (path_join d ''credentials'') in create_private_directory (butlast place) (last place)) s1
         = (Inr (), s2)"
      "current_uid H = Inr uid" "provision_roles E H d uid provisioned_roles s2 = (Inr bindings, s3)"
      "save H config s3 = (Inr (), s')"
      "sc_instance_dir config = d" "sc_credentials config = bindings"
      by (auto simp: initialize_def Let_def)
    have around: "undisturbed s s2" "undisturbed s3 s'"
      using movesD [OF undisturbed_prepare steps(1)]
        movesD [OF undisturbed_create_private_directory steps(2) [unfolded Let_def]]
        movesD [OF undisturbed_save steps(5)] by (blast intro: undisturbed.goes_on)+
    have valid: "validate_bindings bindings = (Inr () :: errno authentication_error + unit)"
      using steps(5,7) by (auto simp: save_def inspecting_def validate_paths_def alift_def map_err_def
          split: sum.splits if_splits)
    have made: "list_all2 (provisioned E H d uid s s') provisioned_roles bindings"
      using provision_roles_Inr [OF steps(4)] provisioned_around [OF _ around] by (blast intro: list_all2_mono)
    have "?roles config s'"
    proof clarify
      fix name role assume "(name, role) \<in> set provisioned_roles"
      with made obtain b where b: "b \<in> set bindings" "provisioned E H d uid s s' (name, role) b"
        by (force simp: list_all2_conv_all_nth in_set_conv_nth)
      from b(2) obtain token where token: "fs_nodes s (credential_file H d name) = None"
        "holds_token s' (credential_file H d name) token"
        "b = \<lparr>cb_principal = PrincipalId name, cb_role = role, cb_token_digest = text_digest E token,
           cb_peer_uid = uid\<rparr>" by (auto simp: provisioned_def)
      have "authenticate E bindings token uid
          = (Inr (binding_principal b) :: errno authentication_error + principal)"
        by (rule authenticates [OF valid b(1)]) (simp_all add: token(3))
      with token steps(3,6,7) show "\<exists>token uid. current_uid H = Inr uid
        \<and> fs_nodes s (credential_file H (sc_instance_dir config) name) = None
        \<and> holds_token s' (credential_file H (sc_instance_dir config) name) token
        \<and> authenticate E (sc_credentials config) token uid
            = (Inr \<lparr>pr_id = PrincipalId name, pr_role = role, pr_authentication_fingerprint = text_digest E token\<rparr>
               :: errno authentication_error + principal)"
        by (intro exI [of _ token] exI [of _ uid]) (simp add: binding_principal_def)
    qed
    with valid steps(7) show ?thesis by simp
  qed
  moreover have "undisturbed s (snd (initialize E H p s))"
    using undisturbed_initialize by (simp add: moves_def)
  ultimately show ?thesis by blast
qed

end
