(* ===== verification/Service_Execution.thy ===== *)
theory Service_Execution
  imports Supervisor_Safety
begin

text \<open>
  The detached execution of an admitted plan (\<open>spawn_plan_execution\<close> of
  \<open>src/service/api.rs\<close>): a task of its own that executes one step after the other until the
  plan has no next step or a step fails. While it runs, other requests are served; what they
  do before the \<open>n\<close>-th step is \<open>others n\<close>, any sequence of steps of the system. The loop has
  no bound in the code, so it is a partial function, and that it ends is a theorem: a ticket
  only leads to the next step of its stored run, which nobody can lengthen.
\<close>

partial_function (option) plan_execution ::
  "'d bench \<Rightarrow> (nat \<Rightarrow> 'd world \<Rightarrow> 'd world) \<Rightarrow> principal \<Rightarrow> plan_ticket \<Rightarrow> nat \<Rightarrow> 'd world \<Rightarrow> 'd world option" where
  "plan_execution B others agent ticket n w =
     (case execute_next B agent ticket (others n w) of
        (Inl e, w') \<Rightarrow> Some w'
      | (Inr progress, w') \<Rightarrow>
          (case pg_next progress of
             None \<Rightarrow> Some w'
           | Some following \<Rightarrow> plan_execution B others agent following (Suc n) w'))"

text \<open>The run of a ticket, once it is stored.\<close>

definition run_steps :: "'d world \<Rightarrow> plan_ticket \<Rightarrow> (attempt_id \<times> request_id) list option" where
  "run_steps w ticket = map_option ru_steps (st_runs (w_store w) (pt_run ticket))"

lemma run_steps_kept:
  assumes "(system_step B)\<^sup>*\<^sup>* w w'" "wf_store (w_store w)" "run_steps w ticket = Some steps"
  shows "run_steps w' ticket = Some steps"
proof -
  have "evolves (w_store w) (w_store w')"
    using later_wf [OF driving.respects_run [OF assms(1)] assms(2)] by simp
  then have "maps_evolve run_advances (st_runs (w_store w)) (st_runs (w_store w'))" by (simp add: evolves_def)
  with assms(3) show ?thesis
    by (fastforce simp: run_steps_def maps_evolve_def run_advances_def dest: plan_run.equality arg_cong [where f = ru_steps])
qed

lemma execute_next_following:
  assumes "execute_next B agent ticket w = (Inr progress, w')" "pg_next progress = Some following"
    and "wf_store (w_store w)"
  obtains steps where "run_steps w' following = Some steps" "pt_run following = pt_run ticket"
    "pt_operation_index following = Suc (pt_operation_index ticket)" "Suc (pt_operation_index ticket) < length steps"
proof -
  from assms(1,2) obtain attempt w1 w2 run next_attempt next_request submission where
    executed: "execute B agent (pt_dispatch ticket) w = (Inr attempt, w1)"
    and advanced: "transaction B (\<lambda>_. advance_run (pt_run ticket) (pt_operation_index ticket)) w1 = (Inr (), w2)"
    and run: "st_runs (w_store w2) (pt_run ticket) = Some run"
    and inside: "Suc (pt_operation_index ticket) < length (ru_steps run)"
    and submitted: "submit B agent \<lparr>sr_attempt = next_attempt, sr_request = next_request,
        sr_grant = pt_grant ticket, sr_plan = pt_plan ticket,
        sr_operation_index = Suc (pt_operation_index ticket)\<rparr> w2 = (Inr submission, w')"
    and ticketed: "ticket_for (pt_run ticket) (pt_grant ticket) (pt_plan ticket) (Suc (pt_operation_index ticket))
        ''next plan step is non-resumable'' submission = Inr following"
    by (auto simp: execute_next_def sbind_Inr Let_def split_def split: if_splits)
  have next': "pt_run following = pt_run ticket" "pt_operation_index following = Suc (pt_operation_index ticket)"
    using ticketed by (auto simp: ticket_for_def first_ticket_def split: submission.splits if_splits)
  have "(journal_step (bn_env B))\<^sup>*\<^sup>* (w_store w) (w_store w1)"
    using relatedD [OF driving.related_execute executed] .
  moreover have "(journal_step (bn_env B))\<^sup>*\<^sup>* (w_store w1) (w_store w2)"
    using relatedD [OF driving.related_transactions(7) advanced] .
  ultimately have "wf_store (w_store w2)" using later_wf assms(3) by blast
  moreover have "(journal_step (bn_env B))\<^sup>*\<^sup>* (w_store w2) (w_store w')"
    using relatedD [OF driving.related_submit submitted] .
  ultimately have "maps_evolve run_advances (st_runs (w_store w2)) (st_runs (w_store w'))"
    using later_wf by (auto simp: evolves_def)
  with run have "run_steps w' following = Some (ru_steps run)"
    by (fastforce simp: run_steps_def next' maps_evolve_def run_advances_def dest: arg_cong [where f = ru_steps])
  with next' inside that show thesis by blast
qed

lemma next_is_step: "execute_next B agent ticket w = (r, w') \<Longrightarrow> (system_step B)\<^sup>*\<^sup>* w w'"
  by (blast intro: system_step.executes_next)

lemma plan_execution_bounded:
  assumes others: "\<And>n v. (system_step B)\<^sup>*\<^sup>* v (others n v)"
  shows "wf_store (w_store w) \<Longrightarrow> run_steps w ticket = Some steps \<Longrightarrow> length steps - pt_operation_index ticket = k
    \<Longrightarrow> pt_operation_index ticket < length steps
    \<Longrightarrow> \<exists>w'. plan_execution B others agent ticket n w = Some w' \<and> (system_step B)\<^sup>*\<^sup>* w w'"
proof (induction k arbitrary: w ticket n rule: less_induct)
  case (less k)
  let ?v = "others n w"
  obtain r w' where ran: "execute_next B agent ticket ?v = (r, w')" by fastforce
  have wf: "wf_store (w_store ?v)"
    using later_wf [OF driving.respects_run [OF others] less.prems(1)] by simp
  have steps': "run_steps ?v ticket = Some steps" using run_steps_kept [OF others less.prems(1,2)] .
  have moved: "(system_step B)\<^sup>*\<^sup>* w w'"
    using others [where v = w and n = n] next_is_step [OF ran] by simp
  have wf': "wf_store (w_store w')"
    using later_wf [OF driving.respects_run [OF moved] less.prems(1)] by simp
  show ?case
  proof (cases "\<exists>progress following. r = Inr progress \<and> pg_next progress = Some following")
    case True
    then obtain progress following where r: "r = Inr progress" "pg_next progress = Some following" by blast
    from ran r wf obtain steps2 where following: "run_steps w' following = Some steps2"
      "pt_run following = pt_run ticket" "pt_operation_index following = Suc (pt_operation_index ticket)"
      "Suc (pt_operation_index ticket) < length steps2"
      using execute_next_following by blast
    have "run_steps w' ticket = Some steps"
      using run_steps_kept [OF next_is_step [OF ran] wf steps'] .
    with following(1,2) have same: "steps2 = steps" by (auto simp: run_steps_def)
    have "length steps - pt_operation_index following < k"
      using following(3) less.prems(3,4) by simp
    from less.IH [OF this wf' following(1) [unfolded same] refl] following(3,4) same
    obtain w'' where "plan_execution B others agent following (Suc n) w' = Some w''" "(system_step B)\<^sup>*\<^sup>* w' w''"
      by auto
    with ran r moved show ?thesis
      by (subst plan_execution.simps) (auto intro: rtranclp_trans)
  next
    case False
    with ran moved show ?thesis
      by (subst plan_execution.simps) (auto split: sum.split option.split)
  qed
qed

text \<open>C15: The detached execution of a plan ends: whatever the backend answers and whatever
  other requests and interruptions do to the journal between two steps, the loop returns,
  and everything it did is a sequence of steps of the system.\<close>

theorem plan_execution_ends:
  assumes "wf_store (w_store w)" "\<And>n v. (system_step B)\<^sup>*\<^sup>* v (others n v)"
  shows "\<exists>w'. plan_execution B others agent ticket n w = Some w' \<and> (system_step B)\<^sup>*\<^sup>* w w'"
proof -
  let ?v = "others n w"
  obtain r w' where ran: "execute_next B agent ticket ?v = (r, w')" by fastforce
  have wf: "wf_store (w_store ?v)"
    using later_wf [OF driving.respects_run [OF assms(2)] assms(1)] by simp
  have moved: "(system_step B)\<^sup>*\<^sup>* w w'"
    using assms(2) [where v = w and n = n] next_is_step [OF ran] by simp
  show ?thesis
  proof (cases "\<exists>progress following. r = Inr progress \<and> pg_next progress = Some following")
    case True
    then obtain progress following where r: "r = Inr progress" "pg_next progress = Some following" by blast
    from ran r wf obtain steps where following: "run_steps w' following = Some steps"
      "pt_operation_index following < length steps"
      using execute_next_following by metis
    have "wf_store (w_store w')"
      using later_wf [OF driving.respects_run [OF moved] assms(1)] by simp
    from plan_execution_bounded [where others = others, OF assms(2) this following(1) refl following(2)]
    obtain w'' where "plan_execution B others agent following (Suc n) w' = Some w''" "(system_step B)\<^sup>*\<^sup>* w' w''"
      by blast
    with ran r moved show ?thesis
      by (subst plan_execution.simps) (auto intro: rtranclp_trans)
  next
    case False
    with ran moved show ?thesis
      by (subst plan_execution.simps) (auto split: sum.split option.split)
  qed
qed

end
