(* ===== verification/Service_Api.thy ===== *)
theory Service_Api
  imports Service_Execution Service_Auth Evidence Firmware
begin

text \<open>
  The authenticated requests of the service (\<open>src/service/api.rs\<close>). A handler works on the
  world of the supervisor and on the artifact store, which is a part of the device state, and
  may leave a task that goes on after the reply. It ends with a response, with an error, or is
  dropped (a panic, or the process dies in it). The codecs, the inspector of the instruments
  and the place of the artifact store in the device state are the fields of a \<open>service_env\<close>.
\<close>

section \<open>Requests\<close>

datatype case_request = CaseAppend case_id case_fact | CaseGet case_id

datatype evidence_request =
    Import case_id string
  | Fetch artifact_digest u64 u32

datatype instrument_request = InspectInstrument instrument_id

datatype experiment_request =
    Propose plan_proposal
  | Review plan_id artifact_digest
  | Execute grant_id plan_id request_id attempt_id
  | Resume request_id
  | Attempt attempt_id

datatype transaction_request =
    GetAttempt attempt_id
  | ReconciliationHistory attempt_id
  | Reconcile request_id attempt_id
  | RecoveryTakeover recovery_takeover_request
  | AbandonHaltedRun halted_run_abandonment_request

datatype authority_request =
    Commission commissioned_profile
  | IssueGrant principal_id grant
  | RevokeGrant grant_id

datatype firmware_request =
    InspectImage artifact_digest
  | DiffImages artifact_digest artifact_digest nat
  | BuildCandidate case_id artifact_digest "image_patch list" "byte_range list"

datatype system_request = Status

datatype service_request =
    RequestCase case_request
  | RequestEvidence evidence_request
  | RequestInstrument instrument_request
  | RequestExperiment experiment_request
  | RequestTransaction transaction_request
  | RequestAuthority authority_request
  | RequestFirmware firmware_request
  | RequestSystem system_request

section \<open>Responses and errors\<close>

datatype response_status = Reported | Admitted | AlreadyExisting

record service_response =
  sr_status :: response_status
  sr_result :: json

datatype api_error =
    Permission
  | EvidenceFetchTooLarge
  | EvidenceFetchOutOfRange
  | UnknownPrincipal
  | RecoveryAgentUnavailable
  | ApiTask string
  | InspectionUnavailable
  | Inspection string
  | ApiBase64 string
  | ApiEvidence evidence_error
  | ApiFirmware firmware_error
  | ApiSupervisor supervisor_error
  | ApiJson string

definition MAX_EVIDENCE_FETCH_BYTES :: nat where "MAX_EVIDENCE_FETCH_BYTES = 1024 * 1024"

text \<open>The values that \<open>report_value\<close> is given.\<close>

datatype reported =
    ReportedCase case_record
  | ReportedObservation observation
  | ReportedProposal plan_proposal
  | ReportedPlan reviewed_plan
  | ReportedAttempt "attempt_record option"
  | ReportedHistory "reconciliation_record list"
  | ReportedOutcome attempt_record
  | ReportedAbandonment halted_run_abandonment_record
  | ReportedInspection image_inspection
  | ReportedComparison image_comparison
  | ReportedCandidate artifact_digest candidate_evidence

section \<open>State\<close>

text \<open>An inspection runs in a task of its own, which may fail as a task. \<open>se_restart\<close> is what
  the end of the process leaves of the device state.\<close>

record 'd inspector =
  in_inspect :: "instrument_id \<Rightarrow> 'd \<Rightarrow> (string + (string + observation)) \<times> 'd"
  in_inventory :: json

record 'd service_env =
  se_bench :: "'d bench"
  se_artifacts :: artifact_store
  se_files :: "'d \<Rightarrow> file_system"
  se_put_files :: "file_system \<Rightarrow> 'd \<Rightarrow> 'd"
  se_restart :: "'d \<Rightarrow> 'd"
  se_inspector :: "'d inspector option"
  se_principals :: "principal_id \<Rightarrow> principal option"
  se_to_value :: "reported \<Rightarrow> string + json"
  se_decode_base64 :: "string \<Rightarrow> string + u8 list"
  se_encode_base64 :: "u8 list \<Rightarrow> string"

text \<open>\<open>svc_tasks\<close>: the detached executions and the ticket each goes on with.\<close>

record 'd service =
  svc_world :: "'d world"
  svc_tasks :: "(principal \<times> plan_ticket) list"

type_synonym ('d, 'a) api = "('d service, api_error, 'a) action"

definition supervise :: "('d, 'a) sv \<Rightarrow> ('d, 'a) api" where
  "supervise m s = (case m (svc_world s) of (r, w) \<Rightarrow>
     (map_err (\<lambda>e. Failed (ApiSupervisor e)) r, s\<lparr>svc_world := w\<rparr>))"

definition on_artifacts :: "'d service_env \<Rightarrow> 'a evidence \<Rightarrow> ('d, 'a) api" where
  "on_artifacts S m s =
     (let w = svc_world s in
      case amap_err ApiEvidence m (se_files S (w_device w)) of (r, files) \<Rightarrow>
        (r, s\<lparr>svc_world := w\<lparr>w_device := se_put_files S files (w_device w)\<rparr>\<rparr>))"

definition spawn_plan_execution :: "principal \<Rightarrow> plan_ticket \<Rightarrow> ('d, unit) api" where
  "spawn_plan_execution agent ticket s = (Inr (), s\<lparr>svc_tasks := svc_tasks s @ [(agent, ticket)]\<rparr>)"

definition report :: "json \<Rightarrow> ('d, service_response) api" where
  "report result = areturn \<lparr>sr_status = Reported, sr_result = result\<rparr>"

definition report_value :: "'d service_env \<Rightarrow> reported \<Rightarrow> ('d, service_response) api" where
  "report_value S v = abind (alift (map_err ApiJson (se_to_value S v))) report"

definition admitted :: "json \<Rightarrow> ('d, service_response) api" where
  "admitted result = areturn \<lparr>sr_status = Admitted, sr_result = result\<rparr>"

definition api_require_operator :: "principal \<Rightarrow> api_error + unit" where
  "api_require_operator p = (if pr_role p \<in> {Operator, Admin} then Inr () else Inl Permission)"

definition artifact_bytes :: "'d service_env \<Rightarrow> artifact_digest \<Rightarrow> ('d, u8 list) api" where
  "artifact_bytes S digest = on_artifacts S (read_artifact (bn_env (se_bench S)) (se_artifacts S) digest)"

definition publish_case_artifact :: "'d service_env \<Rightarrow> u8 list \<Rightarrow> case_id \<Rightarrow> ('d, artifact_digest) api" where
  "publish_case_artifact S bytes c =
     on_artifacts S (publish (bn_env (se_bench S)) (se_artifacts S) bytes (FromCase c))"

definition api_inventory :: "'d service_env \<Rightarrow> json" where
  "api_inventory S = (case se_inspector S of
     None \<Rightarrow> JObject [(''instruments'', JArray [])] | Some inspector \<Rightarrow> in_inventory inspector)"

definition attempt_response :: "'d service_env \<Rightarrow> attempt_id \<Rightarrow> ('d, service_response) api" where
  "attempt_response S i =
     abind (supervise (read_store (\<lambda>s. load_attempt s i))) (\<lambda>record. report_value S (ReportedAttempt record))"

section \<open>Cases, evidence and inspection\<close>

fun is_observation :: "case_fact \<Rightarrow> bool" where
  "is_observation (FactObservation _) = True"
| "is_observation _ = False"

fun handle_case :: "'d service_env \<Rightarrow> principal \<Rightarrow> case_request \<Rightarrow> ('d, service_response) api" where
  "handle_case S p (CaseAppend c entry) =
     abind (if is_observation entry then alift (api_require_operator p) else areturn ()) (\<lambda>_.
     abind (supervise (sv_append_case_fact (se_bench S) c entry)) (\<lambda>_.
       report (JObject [(''case'', JString (case_str c))])))"
| "handle_case S p (CaseGet c) =
     abind (supervise (read_store (\<lambda>s. store_case s c))) (\<lambda>record. report_value S (ReportedCase record))"

text \<open>The part of an artifact from \<open>offset\<close> on, of at most \<open>max_bytes\<close> bytes, and
  where it ends.\<close>

definition fetch_segment :: "u8 list \<Rightarrow> nat \<Rightarrow> nat \<Rightarrow> api_error + u8 list \<times> nat" where
  "fetch_segment bytes offset max_bytes =
     (if length bytes < offset then Inl EvidenceFetchOutOfRange
      else let len = min (length bytes - offset) max_bytes in
        if usize_bound \<le> offset + len then Inl EvidenceFetchOutOfRange
        else if length bytes < offset + len then Inl EvidenceFetchOutOfRange
        else Inr (take len (drop offset bytes), offset + len))"

definition fetch_response :: "'d service_env \<Rightarrow> artifact_digest \<Rightarrow> u64 \<Rightarrow> nat \<Rightarrow> u8 list \<times> nat \<Rightarrow> json" where
  "fetch_response S artifact offset whole segment =
     JObject [(''artifact'', JString (digest_str artifact)), (''offset'', JNumber (PosInt offset)),
       (''bytes_base64'', JString (se_encode_base64 S (fst segment))), (''complete'', JBool (snd segment = whole))]"

fun handle_evidence :: "'d service_env \<Rightarrow> evidence_request \<Rightarrow> ('d, service_response) api" where
  "handle_evidence S (Import c bytes_base64) =
     abind (alift (map_err ApiBase64 (se_decode_base64 S bytes_base64))) (\<lambda>bytes.
     abind (publish_case_artifact S bytes c) (\<lambda>digest.
       report (JObject [(''artifact'', JString (digest_str digest))])))"
| "handle_evidence S (Fetch artifact offset max_bytes) =
     (if MAX_EVIDENCE_FETCH_BYTES < unat max_bytes then afail EvidenceFetchTooLarge
      else
        abind (artifact_bytes S artifact) (\<lambda>bytes.
        abind (alift (fetch_segment bytes (unat offset) (unat max_bytes))) (\<lambda>segment.
          report (fetch_response S artifact offset (length bytes) segment))))"

definition run_inspection :: "'d inspector \<Rightarrow> instrument_id \<Rightarrow> ('d, observation) api" where
  "run_inspection inspector i s =
     (let w = svc_world s in
      case in_inspect inspector i (w_device w) of (r, d) \<Rightarrow>
        (case r of
           Inl source \<Rightarrow> Inl (Failed (ApiTask source))
         | Inr inspected \<Rightarrow> map_err (\<lambda>message. Failed (Inspection message)) inspected,
         s\<lparr>svc_world := w\<lparr>w_device := d\<rparr>\<rparr>))"

fun handle_instrument :: "'d service_env \<Rightarrow> principal \<Rightarrow> instrument_request \<Rightarrow> ('d, service_response) api" where
  "handle_instrument S p (InspectInstrument i) =
     abind (alift (api_require_operator p)) (\<lambda>_.
     abind (alift (ok_or (se_inspector S) InspectionUnavailable)) (\<lambda>inspector.
     abind (run_inspection inspector i) (\<lambda>observation. report_value S (ReportedObservation observation))))"

section \<open>Experiments\<close>

definition execute_detached ::
  "'d service_env \<Rightarrow> principal \<Rightarrow> grant_id \<Rightarrow> plan_id \<Rightarrow> request_id \<Rightarrow> attempt_id \<Rightarrow> ('d, service_response) api" where
  "execute_detached S p g plan run first_attempt =
     abind (supervise (admit_plan (se_bench S) p
       \<lparr>ar_run = run, ar_first_attempt = first_attempt, ar_grant = g, ar_plan = plan\<rparr>)) (\<lambda>ticket.
     abind (spawn_plan_execution p ticket) (\<lambda>_.
       admitted (JObject [(''attempt'', JString (attempt_str first_attempt))])))"

definition resume_detached :: "'d service_env \<Rightarrow> principal \<Rightarrow> request_id \<Rightarrow> ('d, service_response) api" where
  "resume_detached S p run =
     abind (supervise (resume_plan (se_bench S) p run)) (\<lambda>ticket.
     abind (spawn_plan_execution p ticket) (\<lambda>_.
       admitted (JObject [(''run'', JString (request_str run)), (''resumed'', JBool True)])))"

fun handle_experiment :: "'d service_env \<Rightarrow> principal \<Rightarrow> experiment_request \<Rightarrow> ('d, service_response) api" where
  "handle_experiment S p (Propose proposal) =
     abind (supervise (propose_plan (se_bench S) p proposal)) (\<lambda>saved. report_value S (ReportedProposal saved))"
| "handle_experiment S p (Review plan expected_digest) =
     abind (supervise (review_proposal (se_bench S) p plan expected_digest)) (\<lambda>reviewed.
       report_value S (ReportedPlan reviewed))"
| "handle_experiment S p (Execute g plan run first_attempt) = execute_detached S p g plan run first_attempt"
| "handle_experiment S p (Resume run) = resume_detached S p run"
| "handle_experiment S p (Attempt i) = attempt_response S i"

section \<open>Transactions\<close>

text \<open>A takeover is asked by an operator, but the recovery runs as the agent of its grant.\<close>

definition recovery_agent :: "'d service_env \<Rightarrow> grant \<Rightarrow> api_error + principal" where
  "recovery_agent S g =
     (case se_principals S (gr_agent g) of
        Some candidate \<Rightarrow> if pr_role candidate = Agent then Inr candidate else Inl RecoveryAgentUnavailable
      | None \<Rightarrow> Inl RecoveryAgentUnavailable)"

definition handle_takeover ::
  "'d service_env \<Rightarrow> principal \<Rightarrow> recovery_takeover_request \<Rightarrow> ('d, service_response) api" where
  "handle_takeover S p recovery =
     abind (supervise (read_store (\<lambda>s. st_grants s (tk_grant recovery)))) (\<lambda>found.
     abind (alift (ok_or found RecoveryAgentUnavailable)) (\<lambda>g.
     abind (alift (recovery_agent S g)) (\<lambda>agent.
     abind (supervise (takeover_recovery (se_bench S) p recovery)) (\<lambda>ticket.
     abind (spawn_plan_execution agent ticket) (\<lambda>_.
       admitted (JObject [(''run'', JString (request_str (tk_run recovery))), (''recovery'', JBool True)]))))))"

fun handle_transaction :: "'d service_env \<Rightarrow> principal \<Rightarrow> transaction_request \<Rightarrow> ('d, service_response) api" where
  "handle_transaction S p (GetAttempt i) = attempt_response S i"
| "handle_transaction S p (ReconciliationHistory i) =
     abind (supervise (read_store (\<lambda>s. reconciliation_history s i))) (\<lambda>history.
       report_value S (ReportedHistory history))"
| "handle_transaction S p (Reconcile request i) =
     abind (supervise (reconcile (se_bench S) p i request)) (\<lambda>record. report_value S (ReportedOutcome record))"
| "handle_transaction S p (RecoveryTakeover recovery) = handle_takeover S p recovery"
| "handle_transaction S p (AbandonHaltedRun abandonment) =
     abind (supervise (abandon_halted_run (se_bench S) p abandonment)) (\<lambda>record.
       report_value S (ReportedAbandonment record))"

section \<open>Authority\<close>

fun handle_authority :: "'d service_env \<Rightarrow> principal \<Rightarrow> authority_request \<Rightarrow> ('d, service_response) api" where
  "handle_authority S p (Commission profile) =
     abind (supervise (commission (se_bench S) p profile)) (\<lambda>_.
       report (JObject [(''commissioned'', JBool True)]))"
| "handle_authority S p (IssueGrant agent g) =
     abind (alift (ok_or (se_principals S agent) UnknownPrincipal)) (\<lambda>recipient.
     abind (supervise (issue_grant (se_bench S) p recipient g)) (\<lambda>_.
       report (JObject [(''issued'', JBool True)])))"
| "handle_authority S p (RevokeGrant g) =
     abind (supervise (revoke_grant (se_bench S) p g)) (\<lambda>_.
       report (JObject [(''revoked'', JBool True)]))"

section \<open>Firmware\<close>

text \<open>A panic in a computation on images drops the handler.\<close>

definition firmware_result :: "(firmware_error + 'a) option \<Rightarrow> ('d, 'a) api" where
  "firmware_result computed s =
     (case computed of
        None \<Rightarrow> (Inl Dropped, s)
      | Some r \<Rightarrow> (map_err (\<lambda>e. Failed (ApiFirmware e)) r, s))"

definition api_sha256 :: "'d service_env \<Rightarrow> u8 list \<Rightarrow> string" where
  "api_sha256 S = env_sha256_hex (bn_env (se_bench S))"

definition build_firmware_candidate ::
  "'d service_env \<Rightarrow> case_id \<Rightarrow> artifact_digest \<Rightarrow> image_patch list \<Rightarrow> byte_range list
     \<Rightarrow> ('d, service_response) api" where
  "build_firmware_candidate S c original patches protected =
     abind (artifact_bytes S original) (\<lambda>bytes.
     abind (alift (map_err ApiFirmware (sha256_try_from (digest_str original)))) (\<lambda>expected.
     abind (firmware_result (build_candidate (api_sha256 S) bytes expected patches protected)) (\<lambda>candidate.
     abind (publish_case_artifact S (candidate_bytes candidate) c) (\<lambda>artifact.
       report_value S (ReportedCandidate artifact (evidence candidate))))))"

fun handle_firmware :: "'d service_env \<Rightarrow> firmware_request \<Rightarrow> ('d, service_response) api" where
  "handle_firmware S (InspectImage artifact) =
     abind (artifact_bytes S artifact) (\<lambda>bytes.
     abind (alift (map_err ApiFirmware (inspect_image (api_sha256 S) bytes))) (\<lambda>inspection.
       report_value S (ReportedInspection inspection)))"
| "handle_firmware S (DiffImages left right max_ranges) =
     abind (artifact_bytes S left) (\<lambda>left_bytes.
     abind (artifact_bytes S right) (\<lambda>right_bytes.
     abind (alift (map_err ApiFirmware (compare_images (api_sha256 S) left_bytes right_bytes max_ranges))) (\<lambda>comparison.
       report_value S (ReportedComparison comparison))))"
| "handle_firmware S (BuildCandidate c original patches protected) =
     build_firmware_candidate S c original patches protected"

section \<open>Dispatch\<close>

fun handle :: "'d service_env \<Rightarrow> principal \<Rightarrow> service_request \<Rightarrow> ('d, service_response) api" where
  "handle S p (RequestCase request) = handle_case S p request"
| "handle S p (RequestEvidence request) = handle_evidence S request"
| "handle S p (RequestInstrument request) = handle_instrument S p request"
| "handle S p (RequestExperiment request) = handle_experiment S p request"
| "handle S p (RequestTransaction request) = handle_transaction S p request"
| "handle S p (RequestAuthority request) = handle_authority S p request"
| "handle S p (RequestFirmware request) = handle_firmware S request"
| "handle S p (RequestSystem Status) = report (api_inventory S)"

text \<open>The principals of a configuration (\<open>open_api\<close> of \<open>src/main.rs\<close>).\<close>

definition configured_principals :: "credential_binding list \<Rightarrow> principal_id \<Rightarrow> principal option" where
  "configured_principals bindings = map_of (rev (map (\<lambda>b. (cb_principal b, binding_principal b)) bindings))"

text \<open>The next turn of the loop of one task: it goes on with the next ticket or ends.\<close>

definition run_task :: "'d service_env \<Rightarrow> nat \<Rightarrow> 'd service \<Rightarrow> 'd service" where
  "run_task S n s =
     (case svc_tasks s ! n of (agent, ticket) \<Rightarrow>
        (case execute_next (se_bench S) agent ticket (svc_world s) of (r, w) \<Rightarrow>
          (case r of
             Inr progress \<Rightarrow>
               (case pg_next progress of
                  Some following \<Rightarrow> s\<lparr>svc_world := w, svc_tasks := (svc_tasks s)[n := (agent, following)]\<rparr>
                | None \<Rightarrow> s\<lparr>svc_world := w, svc_tasks := take n (svc_tasks s) @ drop (Suc n) (svc_tasks s)\<rparr>)
           | Inl e \<Rightarrow> s\<lparr>svc_world := w, svc_tasks := take n (svc_tasks s) @ drop (Suc n) (svc_tasks s)\<rparr>)))"

end
