(* ===== verification/Service_Safety.thy ===== *)
theory Service_Safety
  imports Service_Api Movement Supervisor_Authority
begin

text \<open>
  What the service lets its clients do. The locale \<open>serving\<close> lifts a relation on worlds
  that every step of the supervisor respects (\<open>supervised\<close>) to every request and every
  detached task; a step of the service is a request of an authenticated client, a turn of a
  task, or a restart, in which the tasks are lost.
\<close>

section \<open>Roles\<close>

text \<open>Which roles may make a request.\<close>

fun permitted :: "principal_role \<Rightarrow> service_request \<Rightarrow> bool" where
  "permitted role (RequestCase (CaseAppend c entry)) \<longleftrightarrow> (is_observation entry \<longrightarrow> role \<in> {Operator, Admin})"
| "permitted role (RequestInstrument request) \<longleftrightarrow> role \<in> {Operator, Admin}"
| "permitted role (RequestExperiment (Propose proposal)) \<longleftrightarrow> role = Agent"
| "permitted role (RequestExperiment (Review plan digest)) \<longleftrightarrow> role = Reviewer"
| "permitted role (RequestExperiment (Execute g plan run first)) \<longleftrightarrow> role = Agent"
| "permitted role (RequestExperiment (Resume run)) \<longleftrightarrow> role = Agent"
| "permitted role (RequestTransaction (Reconcile request i)) \<longleftrightarrow> role = Agent"
| "permitted role (RequestTransaction (RecoveryTakeover recovery)) \<longleftrightarrow> role \<in> {Operator, Admin}"
| "permitted role (RequestTransaction (AbandonHaltedRun abandonment)) \<longleftrightarrow> role \<in> {Operator, Admin}"
| "permitted role (RequestAuthority request) \<longleftrightarrow> role \<in> {Operator, Admin}"
| "permitted role request \<longleftrightarrow> True"

lemma supervise_Inr [simp]:
  "supervise m s = (Inr x, s') \<longleftrightarrow> (\<exists>w. m (svc_world s) = (Inr x, w) \<and> s' = s\<lparr>svc_world := w\<rparr>)"
  by (auto simp: supervise_def split: prod.splits)

lemma supervise_refused: "m (svc_world s) = (Inl e, svc_world s) \<Longrightarrow> supervise m s = (Inl (Failed (ApiSupervisor e)), s)"
  by (simp add: supervise_def)

text \<open>An action that refuses the state it is given: it fails and leaves everything as it was.\<close>

definition refuses :: "('d, 'a) api \<Rightarrow> 'd service \<Rightarrow> bool" where
  "refuses m s \<longleftrightarrow> (\<exists>e. m s = (Inl (Failed e), s))"

lemma refuses_first: "refuses m s \<Longrightarrow> refuses (abind m f) s"
  by (auto simp: refuses_def abind_def)

lemma refuses_lift: "refuses (alift (Inl e)) s"
  by (simp add: refuses_def alift_def)

lemma refuses_then_lift: "(\<And>x. r = Inr x \<Longrightarrow> refuses (f x) s) \<Longrightarrow> refuses (abind (alift r) f) s"
  by (cases r) (auto simp: refuses_def abind_def alift_def)

lemma refuses_supervise: "m (svc_world s) = (Inl e, svc_world s) \<Longrightarrow> refuses (supervise m) s"
  by (auto simp: refuses_def supervise_refused)

lemma refuses_read: "(\<And>x. refuses (f x) s) \<Longrightarrow> refuses (abind (supervise (read_store g)) f) s"
  by (simp add: refuses_def abind_def supervise_def read_store_def)

lemma review_wrong_role:
  "pr_role p \<noteq> Reviewer \<Longrightarrow> \<exists>e. review_proposal B p i d w = (Inl e, w)"
  by (auto simp: review_proposal_def sbind_def read_store_def lift_result_def sfail_def ok_or_def split: option.split)

lemma refuses_roles:
  "pr_role p \<notin> {Operator, Admin} \<Longrightarrow> refuses (alift (api_require_operator p)) s"
  "pr_role p \<notin> {Operator, Admin} \<Longrightarrow> refuses (supervise (commission B p profile)) s"
  "pr_role p \<notin> {Operator, Admin} \<Longrightarrow> refuses (supervise (issue_grant B p a g)) s"
  "pr_role p \<notin> {Operator, Admin} \<Longrightarrow> refuses (supervise (revoke_grant B p gi)) s"
  "pr_role p \<notin> {Operator, Admin} \<Longrightarrow> refuses (supervise (takeover_recovery B p tk)) s"
  "pr_role p \<notin> {Operator, Admin} \<Longrightarrow> refuses (supervise (abandon_halted_run B p hr)) s"
  "pr_role p \<noteq> Agent \<Longrightarrow> refuses (supervise (propose_plan B p proposal)) s"
  "pr_role p \<noteq> Agent \<Longrightarrow> refuses (supervise (admit_plan B p admission)) s"
  "pr_role p \<noteq> Agent \<Longrightarrow> refuses (supervise (resume_plan B p run)) s"
  "pr_role p \<noteq> Agent \<Longrightarrow> refuses (supervise (reconcile B p att req)) s"
  using wrong_role_changes_nothing [of p B _ "svc_world s"]
  by (auto simp: api_require_operator_def intro: refuses_lift refuses_supervise)

lemma refuses_review: "pr_role p \<noteq> Reviewer \<Longrightarrow> refuses (supervise (review_proposal B p i d)) s"
  using review_wrong_role [of p B i d "svc_world s"] by (auto intro: refuses_supervise)

lemma refuses_operator:
  assumes "pr_role p \<notin> {Operator, Admin}"
  shows "refuses (handle_instrument S p inspection) s" "refuses (handle_authority S p authority) s"
  using assms
  by (cases inspection; cases authority;
      auto intro!: refuses_first refuses_roles refuses_then_lift simp: api_require_operator_def refuses_lift)+

text \<open>C14: Roles are enforced at the boundary: a request that its principal's role does not
  permit is answered with an error and changes nothing, neither the journal, nor a device or an
  artifact, nor the tasks.\<close>

theorem unpermitted_request_refused:
  assumes "\<not> permitted (pr_role p) request"
  shows "\<exists>e. handle S p request s = (Inl (Failed e), s)"
proof -
  have "refuses (handle S p request) s"
    using assms
    by (cases "(pr_role p, request)" rule: permitted.cases)
      (auto simp: handle_takeover_def execute_detached_def resume_detached_def api_require_operator_def
        intro!: refuses_operator refuses_first refuses_roles refuses_review refuses_read refuses_then_lift
        split: if_splits)
  then show ?thesis by (simp add: refuses_def)
qed

section \<open>Requests and steps respect what the supervisor respects\<close>

text \<open>The device state after an inspection, or with other artifacts.\<close>

definition with_device :: "'d world \<Rightarrow> 'd \<Rightarrow> 'd world" where "with_device w d = w\<lparr>w_device := d\<rparr>"

locale serving = supervised B R for B :: "'d bench" and R +
  fixes S :: "'d service_env"
  assumes bench: "se_bench S = B"
    and artifacts: "R w (with_device w (se_put_files S files (w_device w)))"
    and restarting: "R w ((with_device w (se_restart S (w_device w)))
      \<lparr>w_store := recover_interrupted_dispatches (bn_env B) clk (w_store w)\<rparr>)"
    and inspections: "se_inspector S = Some inspector \<Longrightarrow> R w (with_device w (snd (in_inspect inspector i (w_device w))))"
begin

definition world_moves :: "'d service \<Rightarrow> 'd service \<Rightarrow> bool" where
  "world_moves s s' \<longleftrightarrow> R (svc_world s) (svc_world s')"

end

sublocale serving \<subseteq> serves: movement world_moves
  by unfold_locales (auto simp: world_moves_def intro: quiet chain)

context serving
begin

lemma moves_supervise: "related R m \<Longrightarrow> moves world_moves (supervise m)"
  by (rule movesI) (auto simp: supervise_def world_moves_def split: prod.splits dest: relatedD)

lemma moves_artifacts: "moves world_moves (on_artifacts S m)"
  by (rule movesI) (auto simp: on_artifacts_def world_moves_def Let_def split: prod.splits
      intro: artifacts [unfolded with_device_def])

lemma moves_spawn: "moves world_moves (spawn_plan_execution agent ticket)"
  by (simp add: moves_def spawn_plan_execution_def world_moves_def quiet)

lemma moves_inspection: "se_inspector S = Some inspector \<Longrightarrow> moves world_moves (run_inspection inspector i)"
  using inspections [of inspector "svc_world s" i for s]
  by (auto simp: moves_def run_inspection_def world_moves_def Let_def with_device_def split_def)

lemma moves_firmware: "moves world_moves (firmware_result computed)"
  by (rule movesI) (auto simp: firmware_result_def serves.stays split: option.splits)

lemma moves_report: "moves world_moves (report v)" "moves world_moves (admitted v)" "moves world_moves (report_value S r)"
  unfolding report_def admitted_def report_value_def by (intro serves.moves_intros | simp add: report_def)+

lemmas request_intros = serves.moves_intros moves_supervise moves_artifacts moves_spawn moves_firmware moves_report
  related_basic

lemma moves_small:
  "moves world_moves (attempt_response S i)" "moves world_moves (artifact_bytes S digest)"
  "moves world_moves (publish_case_artifact S bytes c)"
  unfolding attempt_response_def artifact_bytes_def publish_case_artifact_def by (intro request_intros)+

lemma moves_case: "moves world_moves (handle_case S p c)"
  using related_entities(6) by (cases c) (auto simp: bench intro!: request_intros)

lemma moves_evidence: "moves world_moves (handle_evidence S e)"
  by (cases e) (auto intro!: request_intros moves_small)

lemma moves_instrument: "moves world_moves (handle_instrument S p inspection)"
proof (cases inspection)
  case (InspectInstrument i)
  have "moves world_moves (abind (alift (ok_or (se_inspector S) InspectionUnavailable)) (\<lambda>inspector.
      abind (run_inspection inspector i) (\<lambda>observation. report_value S (ReportedObservation observation))))"
    by (rule serves.moves_lifted) (auto intro!: request_intros moves_inspection)
  with InspectInstrument show ?thesis by (auto intro!: request_intros)
qed

lemma moves_image: "moves world_moves (handle_firmware S f)"
  by (cases f) (auto simp: build_firmware_candidate_def intro!: request_intros moves_small)

lemma moves_experiment: "moves world_moves (handle_experiment S p e)"
  by (cases e) (auto simp: bench execute_detached_def resume_detached_def
      intro!: request_intros moves_small related_entities related_authority related_resume)

lemma moves_transaction: "moves world_moves (handle_transaction S p t)"
  by (cases t) (auto simp: bench handle_takeover_def
      intro!: request_intros moves_small related_authority related_reconcile)

lemma moves_authority: "moves world_moves (handle_authority S p a)"
  by (cases a) (auto simp: bench intro!: request_intros related_entities)

lemma moves_handle: "moves world_moves (handle S p request)"
  by (cases "(S, p, request)" rule: handle.cases)
    (auto intro!: moves_case moves_evidence moves_instrument moves_experiment moves_transaction
      moves_authority moves_image moves_report)

lemma run_task_moves: "world_moves s (run_task S n s)"
proof -
  obtain agent ticket where task: "svc_tasks s ! n = (agent, ticket)" by fastforce
  obtain r w where run: "execute_next (se_bench S) agent ticket (svc_world s) = (r, w)" by fastforce
  then have "R (svc_world s) w" using relatedD [OF related_execute_next] by (simp add: bench)
  with task run show ?thesis
    by (cases r) (auto simp: run_task_def world_moves_def split: option.split)
qed

end

section \<open>Steps of the service\<close>

text \<open>A client is known by its token and user; whatever it asks, and however its request ends,
  is a step, and so is a turn of a task. A restart loses the tasks and what the process held of the
  devices, and may find any state of the artifact store. These steps are whole requests and
  whole turns, one after the other; \<open>Service_Interleaving\<close> takes them apart into what their
  threads do to the journal and the devices, and lets the process die in between.\<close>

inductive service_step :: "'d service_env \<Rightarrow> credential_binding list \<Rightarrow> 'd service \<Rightarrow> 'd service \<Rightarrow> bool"
  for S bindings where
  Requested: "authenticate (bn_env (se_bench S)) bindings token uid = (Inr p :: unit authentication_error + principal)
    \<Longrightarrow> handle S p request s = (r, s') \<Longrightarrow> service_step S bindings s s'"
| Worked: "n < length (svc_tasks s) \<Longrightarrow> service_step S bindings s (run_task S n s)"
| Restarted: "w = with_device (svc_world s) (se_put_files S files (se_restart S (w_device (svc_world s))))
    \<Longrightarrow> service_step S bindings s
      \<lparr>svc_world = w\<lparr>w_store := recover_interrupted_dispatches (bn_env (se_bench S)) clk (w_store w)\<rparr>,
       svc_tasks = []\<rparr>"

context serving
begin

lemma respects_service_step: "service_step S bindings s s' \<Longrightarrow> R (svc_world s) (svc_world s')"
proof (induction rule: service_step.induct)
  case (Requested token uid p request s r s')
  then show ?case using movesD [OF moves_handle] by (simp add: world_moves_def)
next
  case (Worked n s)
  then show ?case using run_task_moves by (simp add: world_moves_def)
next
  case (Restarted w s files clk)
  let ?started = "(with_device (svc_world s) (se_restart S (w_device (svc_world s))))
    \<lparr>w_store := recover_interrupted_dispatches (bn_env B) clk (w_store (svc_world s))\<rparr>"
  have "R (svc_world s) ?started" by (rule restarting)
  moreover have "R ?started (w\<lparr>w_store := recover_interrupted_dispatches (bn_env (se_bench S)) clk (w_store w)\<rparr>)"
    using Restarted artifacts [of ?started files] by (cases "svc_world s") (simp add: with_device_def bench)
  ultimately show ?case by (auto intro: chain)
qed

lemma respects_service: "(service_step S bindings)\<^sup>*\<^sup>* s s' \<Longrightarrow> R (svc_world s) (svc_world s')"
  by (induction rule: rtranclp_induct) (auto intro: quiet chain respects_service_step)

end

interpretation journaled: serving "se_bench S" "\<lambda>w w'. (journal_step (bn_env (se_bench S)))\<^sup>*\<^sup>* (w_store w) (w_store w')" S
  for S :: "'d service_env"
  by unfold_locales (auto simp: with_device_def intro: reopened)

section \<open>Tasks\<close>

text \<open>Every task acts as a configured agent.\<close>

definition tasks_sound :: "credential_binding list \<Rightarrow> 'd service \<Rightarrow> bool" where
  "tasks_sound bindings s \<longleftrightarrow>
     list_all (\<lambda>(p, ticket). pr_role p = Agent \<and> p \<in> binding_principal ` set bindings) (svc_tasks s)"

definition adds_tasks :: "principal set \<Rightarrow> 'd service \<Rightarrow> 'd service \<Rightarrow> bool" where
  "adds_tasks agents s s' \<longleftrightarrow>
     (\<exists>added. svc_tasks s' = svc_tasks s @ added \<and> fst ` set added \<subseteq> agents)"

interpretation adds: movement "adds_tasks agents" for agents
proof
  fix s s' s'' :: "'a service"
  show "adds_tasks agents s s" by (simp add: adds_tasks_def)
  show "adds_tasks agents s s''" if "adds_tasks agents s s'" "adds_tasks agents s' s''"
    using that by (force simp: adds_tasks_def image_Un)
qed

lemma adds_none: "svc_tasks s' = svc_tasks s \<Longrightarrow> adds_tasks agents s s'"
  by (simp add: adds_tasks_def)

lemma adds_working:
  "moves (adds_tasks agents) (supervise m)" "moves (adds_tasks agents) (on_artifacts S e)"
  "moves (adds_tasks agents) (run_inspection inspector i)" "moves (adds_tasks agents) (firmware_result computed)"
  by (rule movesI, rule adds_none,
      auto simp: supervise_def on_artifacts_def run_inspection_def firmware_result_def Let_def
        split: prod.splits option.splits)+

lemma adds_reports:
  "moves (adds_tasks agents) (report v)" "moves (adds_tasks agents) (admitted v)"
  "moves (adds_tasks agents) (report_value S x)"
  unfolding report_def admitted_def report_value_def by (intro adds.moves_intros | simp add: report_def)+

lemma adds_spawn: "p \<in> agents \<Longrightarrow> moves (adds_tasks agents) (spawn_plan_execution p ticket)"
  by (simp add: moves_def spawn_plan_execution_def adds_tasks_def)

text \<open>The agents a request may leave a task for.\<close>

definition task_agents :: "'d service_env \<Rightarrow> principal \<Rightarrow> principal set" where
  "task_agents S p = {q. pr_role q = Agent \<and> (q = p \<or> (\<exists>i. se_principals S i = Some q))}"

lemmas adds_intros = adds.moves_intros adds_working adds_reports

lemma adds_small:
  "moves (adds_tasks agents) (attempt_response S i)" "moves (adds_tasks agents) (artifact_bytes S digest)"
  "moves (adds_tasks agents) (publish_case_artifact S bytes c)"
  unfolding attempt_response_def artifact_bytes_def publish_case_artifact_def by (intro adds_intros)+

lemma adds_quiet_handlers:
  "moves (adds_tasks agents) (handle_case S p c)" "moves (adds_tasks agents) (handle_evidence S e)"
  "moves (adds_tasks agents) (handle_instrument S p inspection)" "moves (adds_tasks agents) (handle_firmware S f)"
  "moves (adds_tasks agents) (handle_authority S p a)"
proof -
  show "moves (adds_tasks agents) (handle_case S p c)" by (cases c) (auto intro!: adds_intros)
  show "moves (adds_tasks agents) (handle_evidence S e)" by (cases e) (auto intro!: adds_intros adds_small)
  show "moves (adds_tasks agents) (handle_instrument S p inspection)"
    by (cases inspection) (auto intro!: adds_intros)
  show "moves (adds_tasks agents) (handle_firmware S f)"
    by (cases f) (auto simp: build_firmware_candidate_def intro!: adds_intros adds_small)
  show "moves (adds_tasks agents) (handle_authority S p a)" by (cases a) (auto intro!: adds_intros)
qed

lemma adds_spawning:
  assumes "pr_role p = Agent"
  shows "moves (adds_tasks (task_agents S p)) (execute_detached S p g plan run first_attempt)"
    "moves (adds_tasks (task_agents S p)) (resume_detached S p run)"
  using assms
  by (auto simp: execute_detached_def resume_detached_def task_agents_def intro!: adds_intros adds_spawn)

lemma adds_takeover: "moves (adds_tasks (task_agents S p)) (handle_takeover S p recovery)"
proof -
  have "agent \<in> task_agents S p" if "recovery_agent S g = Inr agent" for g agent
    using that by (auto simp: recovery_agent_def task_agents_def split: option.splits if_splits)
  then show ?thesis
    unfolding handle_takeover_def
    by (intro adds.moves_lifted adds.moves_abind [OF adds_working(1)] adds.moves_abind [OF adds_spawn] adds_reports)
qed

lemma handle_adds_tasks:
  assumes "handle S p request s = (r, s')"
  shows "adds_tasks (task_agents S p) s s'"
proof (cases "permitted (pr_role p) request")
  case False
  with unpermitted_request_refused [of p request S s] assms show ?thesis by (auto intro: adds.stays)
next
  case True
  then have "moves (adds_tasks (task_agents S p)) (handle S p request)"
    by (cases "(S, p, request)" rule: handle.cases; cases "(pr_role p, request)" rule: permitted.cases)
      (auto intro!: adds_quiet_handlers adds_takeover adds_spawning adds_small adds_intros)
  then show ?thesis using assms by (rule movesD)
qed

lemma configured_principals_iff:
  assumes "configured_principals bindings i = Some q"
  shows "q \<in> binding_principal ` set bindings"
  using map_of_SomeD [OF assms [unfolded configured_principals_def]] by auto

lemma run_task_tasks:
  assumes "n < length (svc_tasks s)"
  shows "fst ` set (svc_tasks (run_task S n s)) \<subseteq> fst ` set (svc_tasks s)"
proof -
  obtain agent ticket where task: "svc_tasks s ! n = (agent, ticket)" by fastforce
  obtain r w where run: "execute_next (se_bench S) agent ticket (svc_world s) = (r, w)" by fastforce
  have "agent \<in> fst ` set (svc_tasks s)" using assms task by (force dest: nth_mem)
  then have "fst ` set ((svc_tasks s)[n := (agent, following)]) \<subseteq> fst ` set (svc_tasks s)" for following
    using image_mono [OF set_update_subset_insert [of "svc_tasks s" n "(agent, following)"], of fst] by auto
  moreover have "fst ` set (take n (svc_tasks s) @ drop (Suc n) (svc_tasks s)) \<subseteq> fst ` set (svc_tasks s)"
    by (auto dest: in_set_takeD in_set_dropD)
  moreover have "svc_tasks (run_task S n s) = take n (svc_tasks s) @ drop (Suc n) (svc_tasks s)
      \<or> (\<exists>following. svc_tasks (run_task S n s) = (svc_tasks s)[n := (agent, following)])"
    using task run by (cases r) (auto simp: run_task_def split: option.split)
  ultimately show ?thesis by metis
qed

lemma tasks_sound_alt: "tasks_sound bindings s \<longleftrightarrow>
    fst ` set (svc_tasks s) \<subseteq> {p. pr_role p = Agent} \<inter> binding_principal ` set bindings"
  by (auto simp: tasks_sound_def list_all_iff)

lemma service_step_tasks:
  assumes "service_step S bindings s s'" "se_principals S = configured_principals bindings" "tasks_sound bindings s"
  shows "tasks_sound bindings s'"
  using assms(1,3)
proof (induction rule: service_step.induct)
  case (Requested token uid p request s r s')
  have "p \<in> binding_principal ` set bindings" using authenticate_Inr [OF Requested(1)] by auto
  with assms(2) have agents: "task_agents S p \<subseteq> {p. pr_role p = Agent} \<inter> binding_principal ` set bindings"
    by (auto simp: task_agents_def dest: configured_principals_iff)
  from handle_adds_tasks [OF Requested(2)] obtain added where
    added: "svc_tasks s' = svc_tasks s @ added" "fst ` set added \<subseteq> task_agents S p" by (auto simp: adds_tasks_def)
  show ?case
    using Requested(3) subset_trans [OF added(2) agents] unfolding tasks_sound_alt added(1) set_append image_Un
    by (rule Un_least)
next
  case (Worked n s)
  show ?case
    using subset_trans [OF run_task_tasks [OF Worked(1)] Worked(2) [unfolded tasks_sound_alt]]
    unfolding tasks_sound_alt .
qed (simp add: tasks_sound_def)

section \<open>Properties\<close>

text \<open>C13: Refinement: whatever clients ask with whatever tokens, however the turns of
  the detached tasks fall between, and wherever the service is restarted, the journal only moves
  by journal steps and is reachable, and every task acts as a configured agent.\<close>

theorem service_refines_journal:
  assumes "(service_step S bindings)\<^sup>*\<^sup>* s s'" "se_principals S = configured_principals bindings"
    and "w_store (svc_world s) = empty_store" "svc_tasks s = []"
  shows "reachable (bn_env (se_bench S)) (w_store (svc_world s')) \<and> tasks_sound bindings s'"
proof
  have "reachable E t" if "(journal_step E)\<^sup>*\<^sup>* empty_store t" for E t
    using that by (induction rule: rtranclp_induct) (auto intro: created stepped)
  then show "reachable (bn_env (se_bench S)) (w_store (svc_world s'))"
    using journaled.respects_service [OF assms(1)] assms(3) by simp
  have "tasks_sound bindings s" using assms(4) by (simp add: tasks_sound_def)
  with assms(1) show "tasks_sound bindings s'"
    by (induction rule: rtranclp_induct) (auto intro: service_step_tasks [OF _ assms(2)])
qed

end
