(* ===== verification/Service_Evidence.thy ===== *)
theory Service_Evidence
  imports Service_Safety Evidence_Liveness
begin

text \<open>
  What a client learns about evidence: an import that is answered has put the bytes on disk
  under their digest with the marker of the case, and a fetch that is answered hands out
  exactly the asked part of bytes with the asked digest.
\<close>

lemma fetch_segment_Inr:
  "fetch_segment bytes offset max_bytes = Inr (segment, stop) \<longleftrightarrow>
     offset \<le> length bytes \<and> stop < usize_bound \<and> stop = min (length bytes) (offset + max_bytes)
     \<and> segment = take max_bytes (drop offset bytes)"
proof -
  have "take (min (length bytes - offset) max_bytes) (drop offset bytes) = take max_bytes (drop offset bytes)"
    by (simp add: min_def)
  then show ?thesis by (auto simp: fetch_segment_def Let_def min_def)
qed

lemma on_artifacts_Inr:
  "on_artifacts S m s = (Inr x, s') \<longleftrightarrow>
     (\<exists>files. m (se_files S (w_device (svc_world s))) = (Inr x, files)
        \<and> s' = s\<lparr>svc_world := svc_world s\<lparr>w_device := se_put_files S files (w_device (svc_world s))\<rparr>\<rparr>)"
  by (auto simp: on_artifacts_def Let_def amap_err_def split: prod.splits sum.splits stop.splits)

lemma report_Inr [simp]:
  "report v s = (Inr r, s') \<longleftrightarrow> r = \<lparr>sr_status = Reported, sr_result = v\<rparr> \<and> s' = s"
  by (auto simp: report_def)

text \<open>The member of a rendered object.\<close>

fun member :: "string \<Rightarrow> json \<Rightarrow> json option" where
  "member k (JObject members) = map_of members k"
| "member k v = None"

text \<open>C29: Evidence through the service is what it says: an answered import names the digest
  of the decoded bytes, and the artifact and the marker of the case are on disk; an answered fetch asked
  for at most a mebibyte and carries exactly the bytes of the artifact from the offset on, up to
  the asked number, with \<open>complete\<close> set exactly when they reach its end, and what
  it hands out is part of bytes with the asked digest.\<close>

theorem evidence_requests_exact:
  assumes "\<And>files d. se_files S (se_put_files S files d) = files"
    and "handle S p (RequestEvidence request) s = (Inr response, s')"
  shows "sr_status response = Reported \<and> (case request of
      Import c encoded \<Rightarrow> \<exists>bytes found. se_decode_base64 S encoded = Inr bytes
        \<and> member ''artifact'' (sr_result response) = Some (JString (digest_str (artifact_sha256 (api_sha256 S) bytes)))
        \<and> published (bn_env (se_bench S)) (se_artifacts S) (se_files S (w_device (svc_world s')))
            (artifact_sha256 (api_sha256 S) bytes) (FromCase c) found
    | Fetch artifact offset max_bytes \<Rightarrow> unat max_bytes \<le> MAX_EVIDENCE_FETCH_BYTES
        \<and> (\<exists>bytes. artifact_sha256 (api_sha256 S) bytes = artifact \<and> unat offset \<le> length bytes
            \<and> member ''bytes_base64'' (sr_result response)
                = Some (JString (se_encode_base64 S (take (unat max_bytes) (drop (unat offset) bytes))))
            \<and> member ''complete'' (sr_result response)
                = Some (JBool (length bytes \<le> unat offset + unat max_bytes))))"
proof (cases request)
  case (Import c encoded)
  with assms(2) obtain bytes digest files where decoded: "se_decode_base64 S encoded = Inr bytes"
    and stored: "publish (bn_env (se_bench S)) (se_artifacts S) bytes (FromCase c) (se_files S (w_device (svc_world s)))
        = (Inr digest, files)" "se_files S (w_device (svc_world s')) = files"
    and answer: "response = \<lparr>sr_status = Reported, sr_result = JObject [(''artifact'', JString (digest_str digest))]\<rparr>"
    by (auto simp: publish_case_artifact_def on_artifacts_Inr assms(1))
  from publish_published [OF stored(1)] obtain found where "digest = artifact_sha256 (api_sha256 S) bytes"
    "published (bn_env (se_bench S)) (se_artifacts S) files digest (FromCase c) found" by (auto simp: api_sha256_def)
  with decoded stored(2) answer Import show ?thesis by auto
next
  case (Fetch artifact offset max_bytes)
  with assms(2) obtain bytes files segment stop where "unat max_bytes \<le> MAX_EVIDENCE_FETCH_BYTES"
    and read: "read_artifact (bn_env (se_bench S)) (se_artifacts S) artifact (se_files S (w_device (svc_world s)))
      = (Inr bytes, files)"
    and "fetch_segment bytes (unat offset) (unat max_bytes) = Inr (segment, stop)"
    and "response = \<lparr>sr_status = Reported, sr_result = fetch_response S artifact offset (length bytes) (segment, stop)\<rparr>"
    by (auto simp: artifact_bytes_def on_artifacts_Inr split: if_splits)
  moreover have "artifact_sha256 (api_sha256 S) bytes = artifact"
    using read_artifact_genuine [OF read] by (simp add: api_sha256_def)
  ultimately show ?thesis
    using Fetch by (auto simp: fetch_segment_Inr fetch_response_def min_def)
qed

end
