(* ===== verification/Service_Wire.thy ===== *)
theory Service_Wire
  imports Service_Api
begin

text \<open>
  The framed protocol between a client and the service (\<open>src/service/server.rs\<close>,
  \<open>src/service/client.rs\<close>, and the call a tool makes in \<open>src/service/mcp.rs\<close>): a
  length of four bytes and a JSON text of at most 64 MiB. A stream is what has arrived,
  what has been sent, an outcome for every further operation on it, and a function for
  what the other end answers to what it was sent.
\<close>

section \<open>Streams\<close>

datatype io_outcome = Completes | Fails string nat | Late

record stream =
  sm_incoming :: "u8 list"
  sm_ended :: bool
  sm_sent :: "u8 list"
  sm_outcomes :: "io_outcome list"
  sm_peer :: "u8 list \<Rightarrow> u8 list"

datatype server_error =
    ServerIo string
  | FrameTooLarge nat nat
  | ServerJson string
  | ServerTimeout
  | AlreadyRunning
  | SocketPathOccupied

type_synonym 'a streaming = "(stream, server_error, 'a) action"

text \<open>An operation under its deadline; when the outcomes are used up it is late.\<close>

definition stream_step :: "(stream \<Rightarrow> (server_error + 'a) \<times> stream) \<Rightarrow> (nat \<Rightarrow> stream \<Rightarrow> stream) \<Rightarrow> 'a streaming" where
  "stream_step effect part w =
     (case sm_outcomes w of
        [] \<Rightarrow> (Inl (Failed ServerTimeout), w)
      | out # outcomes \<Rightarrow>
          let w1 = w\<lparr>sm_outcomes := outcomes\<rparr> in
          (case out of
             Completes \<Rightarrow> (case effect w1 of (r, w2) \<Rightarrow> (map_err Failed r, w2))
           | Fails source n \<Rightarrow> (Inl (Failed (ServerIo source)), part n w1)
           | Late \<Rightarrow> (Inl (Failed ServerTimeout), w1)))"

definition stream_read :: "nat \<Rightarrow> u8 list streaming" where
  "stream_read n = stream_step (\<lambda>w.
     if n \<le> length (sm_incoming w)
     then (Inr (take n (sm_incoming w)), w\<lparr>sm_incoming := drop n (sm_incoming w)\<rparr>)
     else (Inl (if sm_ended w then ServerIo ''unexpected end of file'' else ServerTimeout), w\<lparr>sm_incoming := []\<rparr>))
     (\<lambda>_ w. w)"

definition stream_write :: "u8 list \<Rightarrow> unit streaming" where
  "stream_write bytes = stream_step
     (\<lambda>w. (Inr (), w\<lparr>sm_sent := sm_sent w @ bytes\<rparr>))
     (\<lambda>n w. w\<lparr>sm_sent := sm_sent w @ take n bytes\<rparr>)"

text \<open>What has been sent is with the other end, and its answer arrives.\<close>

definition stream_flush :: "unit streaming" where
  "stream_flush = stream_step
     (\<lambda>w. (Inr (), w\<lparr>sm_incoming := sm_incoming w @ sm_peer w (sm_sent w)\<rparr>)) (\<lambda>_ w. w)"

section \<open>Frames\<close>

definition MAX_FRAME_BYTES :: nat where "MAX_FRAME_BYTES = 64 * 1024 * 1024"

text \<open>Four bytes, the most significant first.\<close>

definition u32_bytes :: "u32 \<Rightarrow> u8 list" where
  "u32_bytes w = map (\<lambda>k. of_nat (unat w div 256 ^ k)) [3, 2, 1, 0]"

definition bytes_u32 :: "u8 list \<Rightarrow> u32" where
  "bytes_u32 bytes = of_nat (foldl (\<lambda>n b. n * 256 + unat b) 0 bytes)"

definition read_json_frame :: "(u8 list \<Rightarrow> string + 'a) \<Rightarrow> 'a streaming" where
  "read_json_frame from_slice =
     abind (stream_read 4) (\<lambda>header.
     let len = unat (bytes_u32 header) in
     if MAX_FRAME_BYTES < len then afail (FrameTooLarge len MAX_FRAME_BYTES)
     else
       abind (stream_read len) (\<lambda>bytes. alift (map_err ServerJson (from_slice bytes))))"

definition write_json_frame :: "('a \<Rightarrow> string + u8 list) \<Rightarrow> 'a \<Rightarrow> unit streaming" where
  "write_json_frame to_vec value =
     abind (alift (map_err ServerJson (to_vec value))) (\<lambda>bytes.
     if MAX_FRAME_BYTES < length bytes then afail (FrameTooLarge (length bytes) MAX_FRAME_BYTES)
     else if 2 ^ 32 \<le> length bytes then afail (FrameTooLarge (length bytes) MAX_FRAME_BYTES)
     else
       abind (stream_write (u32_bytes (of_nat (length bytes)))) (\<lambda>_.
       abind (stream_write bytes) (\<lambda>_. stream_flush)))"

section \<open>The server's side\<close>

record client_envelope =
  ce_token :: string
  ce_request :: service_request

record server_reply =
  sy_response :: "service_response option"
  sy_error :: "string option"

datatype client_error =
    ClientCredential string
  | Connect string
  | Transport server_error
  | Refused string
  | EmptyReply

record service_codec =
  co_encode_envelope :: "client_envelope \<Rightarrow> string + u8 list"
  co_parse_envelope :: "u8 list \<Rightarrow> string + client_envelope"
  co_encode_reply :: "server_reply \<Rightarrow> string + u8 list"
  co_parse_reply :: "u8 list \<Rightarrow> string + server_reply"
  co_api_text :: "api_error \<Rightarrow> string"
  co_authentication_text :: "unit authentication_error \<Rightarrow> string"
  co_response_text :: "service_response \<Rightarrow> string + string"
  co_client_text :: "client_error \<Rightarrow> string"
  co_error_text :: "string \<Rightarrow> string"

definition failure_reply :: "string \<Rightarrow> server_reply" where
  "failure_reply message = \<lparr>sy_response = None, sy_error = Some message\<rparr>"

definition success_reply :: "service_response \<Rightarrow> server_reply" where
  "success_reply response = \<lparr>sy_response = Some response, sy_error = None\<rparr>"

text \<open>The reply to an envelope. A dropped handler takes the task of the connection with it.\<close>

definition answer ::
  "service_codec \<Rightarrow> 'd service_env \<Rightarrow> credential_binding list \<Rightarrow> u32 \<Rightarrow> client_envelope
     \<Rightarrow> 'd service \<Rightarrow> server_reply option \<times> 'd service" where
  "answer C S bindings peer_uid envelope s =
     (case authenticate (bn_env (se_bench S)) bindings (ce_token envelope) peer_uid of
        Inl e \<Rightarrow> (Some (failure_reply (co_authentication_text C e)), s)
      | Inr p \<Rightarrow>
          (case handle S p (ce_request envelope) s of
             (Inr response, s') \<Rightarrow> (Some (success_reply response), s')
           | (Inl (Failed e), s') \<Rightarrow> (Some (failure_reply (co_api_text C e)), s')
           | (Inl Dropped, s') \<Rightarrow> (None, s')))"

definition serve_client ::
  "service_codec \<Rightarrow> 'd service_env \<Rightarrow> credential_binding list \<Rightarrow> string + u32
     \<Rightarrow> stream \<times> 'd service \<Rightarrow> (server_error stop + unit) \<times> stream \<times> 'd service" where
  "serve_client C S bindings peer_cred = (\<lambda>(w, s).
     case peer_cred of
       Inl source \<Rightarrow> (Inl (Failed (ServerIo source)), w, s)
     | Inr peer_uid \<Rightarrow>
         (case read_json_frame (co_parse_envelope C) w of
            (Inl e, w1) \<Rightarrow> (Inl e, w1, s)
          | (Inr envelope, w1) \<Rightarrow>
              (case answer C S bindings peer_uid envelope s of
                 (None, s') \<Rightarrow> (Inl Dropped, w1, s')
               | (Some reply, s') \<Rightarrow>
                   (case write_json_frame (co_encode_reply C) reply w1 of (r, w2) \<Rightarrow> (r, w2, s')))))"

section \<open>The client's side\<close>

definition read_reply :: "server_reply \<Rightarrow> client_error + service_response" where
  "read_reply reply =
     (case sy_response reply of
        Some response \<Rightarrow> Inr response
      | None \<Rightarrow> (case sy_error reply of Some message \<Rightarrow> Inl (Refused message) | None \<Rightarrow> Inl EmptyReply))"

definition client_request ::
  "service_codec \<Rightarrow> string + string \<Rightarrow> string + stream \<Rightarrow> service_request \<Rightarrow> client_error stop + service_response" where
  "client_request C credential connection request =
     (case credential of
        Inl source \<Rightarrow> Inl (Failed (ClientCredential source))
      | Inr token \<Rightarrow>
          (case connection of
             Inl source \<Rightarrow> Inl (Failed (Connect source))
           | Inr w \<Rightarrow>
               fst (abind (amap_err Transport
                     (write_json_frame (co_encode_envelope C) \<lparr>ce_token = token, ce_request = request\<rparr>)) (\<lambda>_.
                   abind (amap_err Transport (read_json_frame (co_parse_reply C))) (\<lambda>reply.
                     alift (read_reply reply))) w)))"

text \<open>The text a tool answers with: the response, or an object with the error.\<close>

definition mcp_execute ::
  "service_codec \<Rightarrow> string + string \<Rightarrow> string + stream \<Rightarrow> service_request \<Rightarrow> string option" where
  "mcp_execute C credential connection request =
     (case client_request C credential connection request of
        Inr response \<Rightarrow> Some (case co_response_text C response of
            Inr encoded \<Rightarrow> encoded | Inl e \<Rightarrow> co_error_text C e)
      | Inl (Failed e) \<Rightarrow> Some (co_error_text C (co_client_text C e))
      | Inl Dropped \<Rightarrow> None)"

section \<open>Frames are read as they were written\<close>

definition frame_bytes :: "u8 list \<Rightarrow> u8 list" where
  "frame_bytes bytes = u32_bytes (of_nat (length bytes)) @ bytes"

lemma length_u32_bytes [simp]: "length (u32_bytes w) = 4"
  by (simp add: u32_bytes_def)

lemma bytes_u32_u32_bytes: "bytes_u32 (u32_bytes w) = w"
proof -
  let ?n = "unat w"
  have small: "?n < 2 ^ 32" using unsigned_less [of w] by simp
  have byte: "unat (of_nat k :: u8) = k mod 256" for k by (simp add: unat_of_nat)
  have fold: "foldl (\<lambda>n b. n * 256 + unat b) 0 (u32_bytes w)
      = ((?n div 16777216 mod 256 * 256 + ?n div 65536 mod 256) * 256 + ?n div 256 mod 256) * 256 + ?n mod 256"
    using byte [of ?n] by (simp add: u32_bytes_def byte)
  have "?n div 16777216 < 256" using small by (simp add: div_less_iff_less_mult)
  then have parts: "?n div 16777216 mod 256 = ?n div 256 div 256 div 256" "?n div 65536 = ?n div 256 div 256"
    by (simp_all add: div_mult2_eq [symmetric])
  have "foldl (\<lambda>n b. n * 256 + unat b) 0 (u32_bytes w) = ?n"
    unfolding fold parts by (simp only: div_mult_mod_eq)
  then show ?thesis by (simp add: bytes_u32_def)
qed

lemma MAX_FRAME_fits: "n \<le> MAX_FRAME_BYTES \<Longrightarrow> unat (of_nat n :: u32) = n"
  by (simp add: MAX_FRAME_BYTES_def unat_of_nat)

lemma write_frame:
  assumes "to_vec v = Inr bytes" "length bytes \<le> MAX_FRAME_BYTES"
    and "sm_outcomes w = Completes # Completes # Completes # outcomes"
  shows "write_json_frame to_vec v w = (Inr (), w\<lparr>sm_outcomes := outcomes, sm_sent := sm_sent w @ frame_bytes bytes,
    sm_incoming := sm_incoming w @ sm_peer w (sm_sent w @ frame_bytes bytes)\<rparr>)"
  using assms
  by (simp add: write_json_frame_def abind_def alift_def stream_write_def stream_flush_def stream_step_def
      frame_bytes_def MAX_FRAME_BYTES_def Let_def)

lemma read_frame:
  assumes "length bytes \<le> MAX_FRAME_BYTES" "sm_incoming w = frame_bytes bytes @ rest"
    and "sm_outcomes w = Completes # Completes # outcomes"
  shows "read_json_frame from_slice w
    = (map_err (\<lambda>e. Failed (ServerJson e)) (from_slice bytes), w\<lparr>sm_outcomes := outcomes, sm_incoming := rest\<rparr>)"
  using assms
  by (cases "from_slice bytes")
    (simp_all add: read_json_frame_def abind_def alift_def stream_read_def stream_step_def frame_bytes_def Let_def
      bytes_u32_u32_bytes MAX_FRAME_fits)

lemma stream_read_takes:
  assumes "stream_read n w = (r, w')"
  shows "sm_sent w' = sm_sent w \<and> (\<forall>a b. r \<noteq> Inl (Failed (FrameTooLarge a b)))
    \<and> (\<exists>taken. sm_incoming w = taken @ sm_incoming w' \<and> length taken \<le> n \<and> (\<forall>bytes. r = Inr bytes \<longrightarrow> taken = bytes \<and> length bytes = n))"
proof (cases "sm_outcomes w")
  case (Cons out outcomes)
  let ?taken = "if out = Completes then take n (sm_incoming w) else []"
  have "sm_incoming w = ?taken @ sm_incoming w'" "length ?taken \<le> n" "sm_sent w' = sm_sent w"
    "\<forall>a b. r \<noteq> Inl (Failed (FrameTooLarge a b))" "\<forall>bytes. r = Inr bytes \<longrightarrow> ?taken = bytes \<and> length bytes = n"
    using assms Cons by (cases out; auto simp: stream_read_def stream_step_def Let_def split: if_splits)+
  then show ?thesis by blast
qed (use assms in \<open>auto simp: stream_read_def stream_step_def\<close>)

section \<open>Properties\<close>

text \<open>C38: Reading is bounded and exact: whatever arrives and whatever length is announced,
  reading a frame takes at most four bytes and 64 MiB (67108864 bytes) from the stream and sends nothing; a
  value that is read is what the parser makes of exactly the announced number of bytes behind the
  header; and a frame is refused for its length only when more than 64 MiB are announced, and then
  before any of it is read.\<close>

theorem frame_reading_bounded:
  "case read_json_frame from_slice w of (r, w') \<Rightarrow>
      sm_sent w' = sm_sent w
    \<and> (\<exists>taken. sm_incoming w = taken @ sm_incoming w' \<and> length taken \<le> 4 + 67108864
         \<and> (\<forall>x. r = Inr x \<longrightarrow> from_slice (drop 4 taken) = Inr x \<and> length taken = 4 + unat (bytes_u32 (take 4 taken))))
    \<and> (\<forall>announced limit. r = Inl (Failed (FrameTooLarge announced limit)) \<longrightarrow>
          limit = 67108864 \<and> limit < announced
        \<and> (\<exists>header. length header = 4 \<and> unat (bytes_u32 header) = announced
             \<and> sm_incoming w = header @ sm_incoming w'))"
proof -
  obtain r w' where run: "read_json_frame from_slice w = (r, w')" by fastforce
  obtain r1 w1 where first: "stream_read 4 w = (r1, w1)" by fastforce
  show ?thesis
  proof (cases r1)
    case (Inl e)
    with run first stream_read_takes [OF first] show ?thesis
      by (auto simp: read_json_frame_def abind_def)
  next
    case (Inr header)
    with stream_read_takes [OF first] have header: "sm_incoming w = header @ sm_incoming w1" "length header = 4"
      "sm_sent w1 = sm_sent w" by auto
    let ?len = "unat (bytes_u32 header)"
    show ?thesis
    proof (cases "MAX_FRAME_BYTES < ?len")
      case True
      with run first Inr header show ?thesis
        by (auto simp: read_json_frame_def abind_def Let_def afail_def MAX_FRAME_BYTES_def)
    next
      case False
      obtain r2 w2 where second: "stream_read ?len w1 = (r2, w2)" by fastforce
      from stream_read_takes [OF second] obtain taken where taken: "sm_incoming w1 = taken @ sm_incoming w2"
        "length taken \<le> ?len" "sm_sent w2 = sm_sent w1" "\<forall>a b. r2 \<noteq> Inl (Failed (FrameTooLarge a b))"
        "\<forall>bytes. r2 = Inr bytes \<longrightarrow> taken = bytes \<and> length bytes = ?len" by auto
      have "w' = w2" "r = (case r2 of Inl e \<Rightarrow> Inl e | Inr bytes \<Rightarrow> map_err (\<lambda>e. Failed (ServerJson e)) (from_slice bytes))"
        using run first second Inr False
        by (cases r2; auto simp: read_json_frame_def abind_def alift_def Let_def map_err_def split: sum.splits)+
      moreover have "sm_incoming w = (header @ taken) @ sm_incoming w2" "length (header @ taken) \<le> 4 + 67108864"
        using header taken False by (simp_all add: MAX_FRAME_BYTES_def)
      moreover have "from_slice (drop 4 (header @ taken)) = Inr x
          \<and> length (header @ taken) = 4 + unat (bytes_u32 (take 4 (header @ taken)))" if "r = Inr x" for x
        using that calculation(2) taken(5) header(2) by (auto simp: map_err_def split: sum.splits)
      ultimately show ?thesis
        using run header(3) taken(3,4) by (auto simp: map_err_def split: sum.splits)
    qed
  qed
qed

section \<open>A request over the wire\<close>

text \<open>The codecs render nothing they do not parse back.\<close>

definition codec_faithful :: "service_codec \<Rightarrow> bool" where
  "codec_faithful C \<longleftrightarrow>
     (\<forall>envelope bytes. co_encode_envelope C envelope = Inr bytes \<longrightarrow> co_parse_envelope C bytes = Inr envelope)
     \<and> (\<forall>reply bytes. co_encode_reply C reply = Inr bytes \<longrightarrow> co_parse_reply C bytes = Inr reply)"

text \<open>A value that is rendered within the bound of a frame.\<close>

definition framed :: "('a \<Rightarrow> string + u8 list) \<Rightarrow> 'a \<Rightarrow> bool" where
  "framed to_vec v \<longleftrightarrow> (\<exists>bytes. to_vec v = Inr bytes \<and> length bytes \<le> MAX_FRAME_BYTES)"

definition working_stream :: "u8 list \<Rightarrow> (u8 list \<Rightarrow> u8 list) \<Rightarrow> stream" where
  "working_stream incoming peer = \<lparr>sm_incoming = incoming, sm_ended = False, sm_sent = [],
     sm_outcomes = replicate 5 Completes, sm_peer = peer\<rparr>"

text \<open>The service at the other end: what it has sent and its state, after it has served a
  connection on which the given bytes arrived.\<close>

definition served ::
  "service_codec \<Rightarrow> 'd service_env \<Rightarrow> credential_binding list \<Rightarrow> u32 \<Rightarrow> 'd service \<Rightarrow> u8 list \<Rightarrow> u8 list \<times> 'd service" where
  "served C S bindings uid s bytes =
     (case serve_client C S bindings (Inr uid) (working_stream bytes (\<lambda>_. []), s) of
        (r, w, s') \<Rightarrow> (sm_sent w, s'))"

lemma served_frame:
  assumes "codec_faithful C" "co_encode_envelope C envelope = Inr bytes" "length bytes \<le> MAX_FRAME_BYTES"
    and "answer C S bindings uid envelope s = (Some reply, s')"
    and "co_encode_reply C reply = Inr out" "length out \<le> MAX_FRAME_BYTES"
  shows "served C S bindings uid s (frame_bytes bytes) = (frame_bytes out, s')"
proof -
  let ?w = "working_stream (frame_bytes bytes) (\<lambda>_. [])"
  have "read_json_frame (co_parse_envelope C) ?w = (Inr envelope, ?w\<lparr>sm_outcomes := replicate 3 Completes, sm_incoming := []\<rparr>)"
    using read_frame [OF assms(3), of ?w "[]" "replicate 3 Completes" "co_parse_envelope C"] assms(1,2)
    by (simp add: working_stream_def codec_faithful_def eval_nat_numeral)
  moreover have "write_json_frame (co_encode_reply C) reply (?w\<lparr>sm_outcomes := replicate 3 Completes, sm_incoming := []\<rparr>)
      = (Inr (), ?w\<lparr>sm_outcomes := [], sm_incoming := [], sm_sent := frame_bytes out\<rparr>)"
    using write_frame [of "co_encode_reply C" reply out "?w\<lparr>sm_outcomes := replicate 3 Completes, sm_incoming := []\<rparr>" "[]"]
      assms(5,6) by (simp add: working_stream_def eval_nat_numeral)
  ultimately show ?thesis
    using assms(4) by (simp add: served_def serve_client_def)
qed

lemma over_wire:
  assumes "codec_faithful C" "co_encode_envelope C \<lparr>ce_token = token, ce_request = request\<rparr> = Inr bytes"
    and "length bytes \<le> MAX_FRAME_BYTES"
    and "answer C S bindings uid \<lparr>ce_token = token, ce_request = request\<rparr> s = (Some reply, s1)"
    and "framed (co_encode_reply C) reply"
  shows "client_request C (Inr token)
        (Inr (working_stream [] (\<lambda>arrived. fst (served C S bindings uid s arrived)))) request
      = map_err Failed (read_reply reply)"
    and "snd (served C S bindings uid s (frame_bytes bytes)) = s1"
proof -
  let ?envelope = "\<lparr>ce_token = token, ce_request = request\<rparr>"
  let ?w = "working_stream [] (\<lambda>arrived. fst (served C S bindings uid s arrived))"
  from assms(5) obtain out where out: "co_encode_reply C reply = Inr out" "length out \<le> MAX_FRAME_BYTES"
    by (auto simp: framed_def)
  have served: "served C S bindings uid s (frame_bytes bytes) = (frame_bytes out, s1)"
    by (rule served_frame [OF assms(1-4) out])
  then show "snd (served C S bindings uid s (frame_bytes bytes)) = s1" by simp
  let ?w1 = "?w\<lparr>sm_outcomes := replicate 2 Completes, sm_sent := frame_bytes bytes, sm_incoming := frame_bytes out\<rparr>"
  have "write_json_frame (co_encode_envelope C) ?envelope ?w = (Inr (), ?w1)"
    using write_frame [of "co_encode_envelope C" ?envelope bytes ?w "replicate 2 Completes"] assms(2,3) served
    by (simp add: working_stream_def eval_nat_numeral)
  moreover have "read_json_frame (co_parse_reply C) ?w1 = (Inr reply, ?w1\<lparr>sm_outcomes := [], sm_incoming := []\<rparr>)"
    using read_frame [OF out(2), of ?w1 "[]" "[]" "co_parse_reply C"] assms(1) out(1)
    by (simp add: codec_faithful_def eval_nat_numeral)
  ultimately show "client_request C (Inr token) (Inr ?w) request = map_err Failed (read_reply reply)"
    by (simp add: client_request_def abind_def amap_err_def alift_def)
qed

text \<open>C26: Over the wire, a request is the request: between a client and the service on streams that
  work, with codecs that parse what they render and texts that fit a frame, a client gets exactly what
  the request gives under the principal its token and user authenticate: the response, or a refusal
  with the text of the error; the service has handled the request exactly once, and a
  client that does not authenticate changes nothing.\<close>

theorem request_over_wire:
  assumes "codec_faithful C" "co_encode_envelope C \<lparr>ce_token = token, ce_request = request\<rparr> = Inr bytes"
    and "length bytes \<le> MAX_FRAME_BYTES"
    and "answer C S bindings uid \<lparr>ce_token = token, ce_request = request\<rparr> s = (Some reply, s1)"
    and "framed (co_encode_reply C) reply"
  shows "(client_request C (Inr token)
        (Inr (working_stream [] (\<lambda>arrived. fst (served C S bindings uid s arrived)))) request,
      snd (served C S bindings uid s (frame_bytes bytes)))
    = (case authenticate (bn_env (se_bench S)) bindings token uid of
         Inl e \<Rightarrow> (Inl (Failed (Refused (co_authentication_text C e))), s)
       | Inr p \<Rightarrow> (case handle S p request s of
             (Inr response, s') \<Rightarrow> (Inr response, s')
           | (Inl (Failed e), s') \<Rightarrow> (Inl (Failed (Refused (co_api_text C e))), s')
           | (Inl Dropped, s') \<Rightarrow> (Inl Dropped, s')))"
proof -
  show ?thesis
    using assms(4) over_wire [OF assms]
    by (auto simp: answer_def read_reply_def failure_reply_def success_reply_def split: sum.splits prod.splits stop.splits)
qed

end
