(* ===== verification/Service_Examples.thy ===== *)
theory Service_Examples
  imports Service_Provisioning Service_Evidence Service_Wire Supervisor_Recovery
begin

text \<open>
  A concrete instance on which the properties of the service are witnessed: an empty private
  directory in which \<open>initialize\<close> creates its three credentials.
\<close>

section \<open>Initialization works\<close>

lemma ends_write_private:
  assumes "calm (Suc (Suc (Suc n))) s" "fs_nodes s p = None"
  shows "ends (write_private p bytes) s n () ((fs_nodes s)(p \<mapsto> RegularFile bytes))"
proof -
  have "ends (sys_sync p) s2 n () ((fs_nodes s)(p \<mapsto> RegularFile bytes))"
    if "calm (Suc n) s2" "fs_nodes s2 = (fs_nodes s)(p \<mapsto> RegularFile bytes)" for s2
    using ends_metadata(2) [OF that(1)] that(2) by simp
  moreover have "ends (sys_write p bytes) s1 (Suc n) () ((fs_nodes s)(p \<mapsto> RegularFile bytes))"
    if "calm (Suc (Suc n)) s1" "fs_nodes s1 = (fs_nodes s)(p \<mapsto> RegularFile [])" for s1
    using ends_changing(1) [OF that(1), of p bytes] that(2) by simp
  ultimately show ?thesis
    unfolding write_private_def
    by (blast intro: ends_abind ends_creating [OF assms])
qed

lemma ends_open_file_directory:
  assumes "calm (Suc n) s" "fs_nodes s p = Some Directory"
  shows "ends (sys_open_file p False) s n p (fs_nodes s)"
  using assms by (auto elim!: calm_script simp: ends_def sys_open_file_def syscall_with_def)

lemma ends_sync_parent:
  assumes "calm (Suc (Suc n)) s" "path_parent p = Some parent" "fs_nodes s (ch_place H parent) = Some Directory"
  shows "ends (sync_parent H p) s n () (fs_nodes s)"
proof -
  have "ends (sys_sync (ch_place H parent)) s1 n () (fs_nodes s)"
    if "calm (Suc n) s1" "fs_nodes s1 = fs_nodes s" for s1
    using ends_metadata(2) [OF that(1)] that(2) by simp
  then show ?thesis
    unfolding sync_parent_def assms(2) option.case
    by (blast intro: ends_abind ends_open_file_directory [OF assms(1,3)])
qed

lemma ends_alift: "calm n s \<Longrightarrow> ends (alift (Inr x)) s n x (fs_nodes s)"
  by (simp add: ends_def alift_def)

lemma ends_provision_token:
  assumes "calm (n + 5) s" "ch_entropy H (ch_place H p) = Inr random" "fs_nodes s (ch_place H p) = None"
    and "path_parent p = Some parent" "fs_nodes s (ch_place H parent) = Some Directory"
  shows "ends (provision_token E H p) s n (text_digest E (ch_hex H random))
    ((fs_nodes s)(ch_place H p \<mapsto> RegularFile (as_bytes (ch_hex H random))))"
proof -
  let ?nodes = "(fs_nodes s)(ch_place H p \<mapsto> RegularFile (as_bytes (ch_hex H random)))"
  have calm: "calm (Suc (Suc (Suc (Suc (Suc n))))) s" using assms(1) by (simp add: eval_nat_numeral)
  have written: "ends (amap_err CredentialIo (write_private (ch_place H p) (as_bytes (ch_hex H random)))) s1
      (Suc (Suc n)) () ?nodes"
    if "calm (Suc (Suc (Suc (Suc (Suc n))))) s1" "fs_nodes s1 = fs_nodes s" for s1
    using ends_amap_err [OF ends_write_private [OF that(1)]] assms(3) that(2) by simp
  have other: "ch_place H parent \<noteq> ch_place H p" using assms(3,5) by (metis option.distinct(1))
  have synced: "ends (amap_err CredentialIo (sync_parent H p)) s2 n () ?nodes"
    if "calm (Suc (Suc n)) s2" "fs_nodes s2 = ?nodes" for s2
    using ends_amap_err [OF ends_sync_parent [OF that(1) assms(4), of H], of CredentialIo] other assms(5) that(2) by simp
  show ?thesis
    unfolding provision_token_def Let_def
    by (rule ends_abind, unfold assms(2) map_err_simps, rule ends_alift [OF calm],
        rule ends_abind, erule (1) written, rule ends_abind, erule (1) synced, erule (1) ends_return)
qed

lemma ends_provision_role:
  assumes "calm (n + 5) s" "ch_entropy H (credential_file H d name) = Inr random"
    and "fs_nodes s (credential_file H d name) = None"
    and "fs_nodes s (ch_place H (path_join d ''credentials'')) = Some Directory"
    and "identifier_try_from PrincipalId ''principal'' name = Inr (PrincipalId name)"
  shows "ends (provision_role E H d uid (name, role)) s n
    \<lparr>cb_principal = PrincipalId name, cb_role = role, cb_token_digest = text_digest E (ch_hex H random),
     cb_peer_uid = uid\<rparr>
    ((fs_nodes s)(credential_file H d name \<mapsto> RegularFile (as_bytes (ch_hex H random))))"
proof -
  have parent: "path_parent (credential_path d name) = Some (path_join d ''credentials'')"
    by (simp add: path_parent_def credential_path_def path_join_def butlast_append)
  have token: "ends (provision_token E H (credential_path d name)) s n (text_digest E (ch_hex H random))
      ((fs_nodes s)(credential_file H d name \<mapsto> RegularFile (as_bytes (ch_hex H random))))"
    using ends_provision_token [OF assms(1) assms(2,3) [unfolded credential_file_def] parent assms(4)]
    by (simp add: credential_file_def)
  show ?thesis
    unfolding provision_role_def prod.case
    by (rule ends_abind, rule ends_amap_err [OF token], rule ends_abind, unfold assms(5) map_err_simps,
        erule ends_alift, rule ends_return) auto
qed

section \<open>A new instance\<close>

definition ex_instance :: path_buf where "ex_instance = PathBuf True [''srv'']"

definition ex_host :: config_host where
  "ex_host = \<lparr>ch_metadata = (\<lambda>_ _. Inr \<lparr>md_symlink = False, md_directory = True, md_uid = 7, md_mode = 0x1C0\<rparr>),
     ch_symlink_metadata = (\<lambda>_ _. Inr \<lparr>md_symlink = False, md_directory = True, md_uid = 7, md_mode = 0x1C0\<rparr>),
     ch_entries = (\<lambda>_ _. Inr []), ch_canonicalize = (\<lambda>p _. Inr p), ch_read = (\<lambda>_ _. Inl NoEntry),
     ch_place = components, ch_status = Inr (''Name: x'' @ [CHR 0x0A] @ ''Uid:'' @ [CHR 0x09] @ ''7''),
     ch_entropy = (\<lambda>p. Inr (as_bytes (last p))), ch_hex = map (\<lambda>b. char_of (unat b)),
     ch_encode_config = (\<lambda>_. Inr []), ch_parse_config = (\<lambda>_. Inl ''json'')\<rparr>"

definition ex_new_disk :: file_system where
  "ex_new_disk = \<lparr>fs_nodes = [[''srv''] \<mapsto> Directory], fs_mode = (\<lambda>_. OwnerAll), fs_synced = (\<lambda>_. True),
     fs_linked = (\<lambda>_. True), fs_sequence = 0, fs_script = replicate 64 Works\<rparr>"

lemma ex_host_simps:
  "ch_metadata ex_host p s = Inr \<lparr>md_symlink = False, md_directory = True, md_uid = 7, md_mode = 0x1C0\<rparr>"
  "ch_symlink_metadata ex_host p s = Inr \<lparr>md_symlink = False, md_directory = True, md_uid = 7, md_mode = 0x1C0\<rparr>"
  "ch_entries ex_host p s = Inr []" "ch_canonicalize ex_host p s = Inr p" "ch_place ex_host = components"
  by (simp_all add: ex_host_def)

lemma ex_uid: "current_uid ex_host = Inr 7"
proof -
  have "str_lines (''Name: x'' @ [CHR 0x0A] @ ''Uid:'' @ [CHR 0x09] @ ''7'')
      = [''Name: x'', ''Uid:'' @ [CHR 0x09] @ ''7'']" by code_simp
  moreover have "first_word ''7'' = Some ''7''" by code_simp
  moreover have "parse_u32 ''7'' = Some 7"
    by (simp add: parse_u32_def parse_usize_def digits_value_def is_ascii_digit_def)
  ultimately show ?thesis
    by (simp add: current_uid_def ex_host_def strip_prefix_def starts_with_def)
qed

lemma ex_names:
  "identifier_try_from PrincipalId ''principal'' ''operator'' = Inr (PrincipalId ''operator'')"
  "identifier_try_from PrincipalId ''principal'' ''reviewer'' = Inr (PrincipalId ''reviewer'')"
  "identifier_try_from PrincipalId ''principal'' ''agent'' = Inr (PrincipalId ''agent'')"
  by code_simp+

definition ex_credential :: "string \<Rightarrow> principal_role \<Rightarrow> credential_binding" where
  "ex_credential name role = \<lparr>cb_principal = PrincipalId name, cb_role = role,
     cb_token_digest = text_digest ex_evidence_env (name @ ''.token''), cb_peer_uid = 7\<rparr>"

lemma ends_ex_role:
  assumes "calm (n + 5) s" "fs_nodes s [''srv'', ''credentials'', name @ ''.token''] = None"
    and "fs_nodes s [''srv'', ''credentials''] = Some Directory"
    and "identifier_try_from PrincipalId ''principal'' name = Inr (PrincipalId name)"
  shows "ends (provision_role ex_evidence_env ex_host ex_instance 7 (name, role)) s n (ex_credential name role)
    ((fs_nodes s)([''srv'', ''credentials'', name @ ''.token''] \<mapsto> RegularFile (as_bytes (name @ ''.token''))))"
proof -
  have chars: "map (\<lambda>b. char_of (unat b)) (as_bytes w) = w" for w
    by (simp add: as_bytes_def comp_def byte_char)
  have place: "credential_file ex_host ex_instance name = [''srv'', ''credentials'', name @ ''.token'']"
    "ch_place ex_host (path_join ex_instance ''credentials'') = [''srv'', ''credentials'']"
    by (simp_all add: credential_file_def credential_path_def path_join_def ex_host_def ex_instance_def)
  have entropy: "ch_entropy ex_host [''srv'', ''credentials'', name @ ''.token''] = Inr (as_bytes (name @ ''.token''))"
    "ch_hex ex_host (as_bytes (name @ ''.token'')) = name @ ''.token''"
    by (simp_all add: ex_host_def chars)
  show ?thesis
    using ends_provision_role [of n s ex_host ex_instance name "as_bytes (name @ ''.token'')" ex_evidence_env 7 role]
      assms entropy by (simp add: place ex_credential_def)
qed

definition ex_credentials :: "credential_binding list" where
  "ex_credentials =
     [ex_credential ''operator'' Operator, ex_credential ''reviewer'' Reviewer, ex_credential ''agent'' Agent]"

definition ex_service_config :: service_config where
  "ex_service_config = \<lparr>sc_instance_dir = ex_instance, sc_socket = path_join ex_instance SOCKET_FILE,
     sc_socket_mode = DEFAULT_SOCKET_MODE, sc_socket_group_gid = None, sc_credentials = ex_credentials,
     sc_instruments = []\<rparr>"

lemma ex_digest_names:
  "text_digest ex_evidence_env a = text_digest ex_evidence_env b \<longleftrightarrow> a = b"
proof -
  have "map (\<lambda>b. char_of (unat b)) (as_bytes w) = w" for w
    by (simp add: as_bytes_def comp_def byte_char)
  then show ?thesis by (simp add: text_digest_def artifact_sha256_def ex_evidence_env_def)
qed

lemma ex_bindings_valid: "validate_bindings ex_credentials = (Inr () :: 'e authentication_error + unit)"
  by (simp add: validate_bindings_ok_iff ex_credentials_def ex_credential_def ex_digest_names)

lemma ends_ex_roles:
  assumes "calm 20 s" "fs_nodes s = [[''srv''] \<mapsto> Directory, [''srv'', ''credentials''] \<mapsto> Directory]"
  shows "\<exists>nodes. nodes [''srv''] = Some Directory \<and> nodes [''srv'', ''service.json''] = None
    \<and> ends (provision_roles ex_evidence_env ex_host ex_instance 7 provisioned_roles) s 5 ex_credentials nodes"
proof -
  let ?add = "\<lambda>name nodes. nodes([''srv'', ''credentials'', name @ ''.token''] \<mapsto>
    RegularFile (as_bytes (name @ ''.token'')))"
  let ?n1 = "?add ''operator'' (fs_nodes s)"
  let ?n2 = "?add ''reviewer'' ?n1"
  let ?n3 = "?add ''agent'' ?n2"
  have last: "ends (provision_roles ex_evidence_env ex_host ex_instance 7 [(''agent'', Agent)]) s2 5
      [ex_credential ''agent'' Agent] ?n3"
    if "calm 10 s2" "fs_nodes s2 = ?n2" for s2
  proof -
    have "ends (provision_role ex_evidence_env ex_host ex_instance 7 (''agent'', Agent)) s2 5
        (ex_credential ''agent'' Agent) ?n3"
      using ends_ex_role [of 5 s2 "''agent''" Agent] that assms(2) ex_names by simp
    then show ?thesis by (auto simp: ends_def abind_def areturn_def)
  qed
  have middle: "ends (provision_roles ex_evidence_env ex_host ex_instance 7 [(''reviewer'', Reviewer), (''agent'', Agent)])
      s1 5 [ex_credential ''reviewer'' Reviewer, ex_credential ''agent'' Agent] ?n3"
    if "calm 15 s1" "fs_nodes s1 = ?n1" for s1
  proof -
    have "ends (provision_role ex_evidence_env ex_host ex_instance 7 (''reviewer'', Reviewer)) s1 10
        (ex_credential ''reviewer'' Reviewer) ?n2"
      using ends_ex_role [of 10 s1 "''reviewer''" Reviewer] that assms(2) ex_names by simp
    then show ?thesis using last by (fastforce simp: ends_def abind_def areturn_def simp del: fun_upd_apply)
  qed
  have "ends (provision_role ex_evidence_env ex_host ex_instance 7 (''operator'', Operator)) s 15
      (ex_credential ''operator'' Operator) ?n1"
    using ends_ex_role [of 15 s "''operator''" Operator] assms ex_names by simp
  then have "ends (provision_roles ex_evidence_env ex_host ex_instance 7 provisioned_roles) s 5 ex_credentials ?n3"
    using middle unfolding provisioned_roles_def ex_credentials_def
    by (fastforce simp: ends_def abind_def areturn_def simp del: fun_upd_apply)
  then show ?thesis using assms(2) by (intro exI [of _ ?n3]) simp
qed

lemma ex_paths_valid: "validate_paths ex_host ex_service_config s = Inr ()"
  by (simp add: validate_paths_def ex_service_config_def DEFAULT_SOCKET_MODE_def ex_bindings_valid path_parent_def
      path_join_def ex_instance_def socket_directory_trusted_def ex_uid ex_host_simps)

lemma ends_ex_save:
  assumes "calm 5 s" "nodes [''srv''] = Some Directory" "nodes [''srv'', ''service.json''] = None" "fs_nodes s = nodes"
  shows "\<exists>s'. save ex_host ex_service_config s = (Inr (), s')"
proof -
  let ?nodes = "nodes([''srv'', ''service.json''] \<mapsto> RegularFile [])"
  have place: "ch_place ex_host (path_join (sc_instance_dir ex_service_config) CONFIG_FILE) = [''srv'', ''service.json'']"
    "ch_place ex_host (sc_instance_dir ex_service_config) = [''srv'']"
    "ch_encode_config ex_host ex_service_config = Inr []"
    by (simp_all add: ex_host_def ex_service_config_def path_join_def ex_instance_def CONFIG_FILE_def)
  have "ends (write_private [''srv'', ''service.json''] []) s 2 () ?nodes"
    using ends_write_private [of 2 s] assms by (simp add: eval_nat_numeral)
  then obtain s1 where s1: "write_private [''srv'', ''service.json''] [] s = (Inr (), s1)" "calm 2 s1"
    "fs_nodes s1 = ?nodes" by (auto simp: ends_def)
  then have "ends (sys_open_file [''srv''] False) s1 1 [''srv''] ?nodes"
    using ends_open_file_directory [of 1 s1 "[''srv'']"] assms(2) by (simp add: eval_nat_numeral)
  then obtain s2 where s2: "sys_open_file [''srv''] False s1 = (Inr [''srv''], s2)" "calm 1 s2"
    by (auto simp: ends_def)
  then obtain s3 where "sys_sync [''srv''] s2 = (Inr (), s3)" "calm 0 s3" "fs_sequence s3 = fs_sequence s2"
    using ends_metadata(2) [of 0 s2 "[''srv'']"] by (auto simp: ends_def)
  with s1 s2 show ?thesis
    by (simp add: save_def inspecting_def alift_def ex_paths_valid place io_def abind_def amap_err_def)
qed

lemma initialize_provisions_witness:
  "\<exists>config s' token. initialize ex_evidence_env ex_host ex_instance ex_new_disk = (Inr config, s')
     \<and> authenticate ex_evidence_env (sc_credentials config) token 7
         = (Inr \<lparr>pr_id = PrincipalId ''agent'', pr_role = Agent,
              pr_authentication_fingerprint = text_digest ex_evidence_env token\<rparr> :: errno authentication_error + principal)"
proof -
  have place: "ch_place ex_host (path_join ex_instance ''credentials'') = [''srv'', ''credentials'']"
    by (simp add: ex_host_def ex_instance_def path_join_def)
  have "prepare_instance_directory ex_host ex_instance ex_new_disk = (Inr ex_instance, ex_new_disk)"
    by (simp add: prepare_instance_directory_def abind_def inspecting_def alift_def empty_private_directory_def
        private_directory_def ex_uid PRIVATE_DIRECTORY_MODE_def ex_host_simps)
  moreover have "ends (create_private_directory [''srv''] ''credentials'') ex_new_disk 20 ()
      [[''srv''] \<mapsto> Directory, [''srv'', ''credentials''] \<mapsto> Directory]"
  proof -
    have "calm 22 ex_new_disk" unfolding calm_def ex_new_disk_def by (intro exI [of _ 64]) simp
    then have "ends (sys_make_directory [''srv''] ''credentials'' OtherMode) ex_new_disk 21 ()
        [[''srv''] \<mapsto> Directory, [''srv'', ''credentials''] \<mapsto> Directory]"
      using ends_make_directory [of 21 ex_new_disk "[''srv'']" "''credentials''"] by (simp add: ex_new_disk_def)
    moreover have "ends (sys_chmod p mode) s1 20 () (fs_nodes s1)" if "calm 21 s1" for p mode s1
      using ends_metadata(1) [of 20] that by simp
    ultimately show ?thesis
      unfolding create_private_directory_def io_def by (fastforce intro: ends_abind ends_amap_err)
  qed
  then obtain s1 where "create_private_directory [''srv''] ''credentials'' ex_new_disk = (Inr (), s1)" "calm 20 s1"
    "fs_nodes s1 = [[''srv''] \<mapsto> Directory, [''srv'', ''credentials''] \<mapsto> Directory]" by (auto simp: ends_def)
  moreover from ends_ex_roles [OF this(2,3)] obtain s2 where
    "provision_roles ex_evidence_env ex_host ex_instance 7 provisioned_roles s1 = (Inr ex_credentials, s2)"
    "calm 5 s2" "fs_nodes s2 [''srv''] = Some Directory" "fs_nodes s2 [''srv'', ''service.json''] = None"
    by (auto simp: ends_def)
  moreover from ends_ex_save [OF this(2,3,4) refl] obtain s3 where
    "save ex_host ex_service_config s2 = (Inr (), s3)" by blast
  ultimately have run: "initialize ex_evidence_env ex_host ex_instance ex_new_disk = (Inr ex_service_config, s3)"
    by (simp add: initialize_def abind_def Let_def place alift_def ex_uid areturn_def
        ex_service_config_def [symmetric])
  obtain token where "authenticate ex_evidence_env (sc_credentials ex_service_config) token 7
      = (Inr \<lparr>pr_id = PrincipalId ''agent'', pr_role = Agent,
           pr_authentication_fingerprint = text_digest ex_evidence_env token\<rparr> :: errno authentication_error + principal)"
    using initialize_provisions [of ex_new_disk ex_evidence_env ex_host ex_instance] run
    by (auto simp: provisioned_roles_def ex_uid)
  with run show ?thesis by blast
qed

lemma authenticate_exact_witness:
  "authenticate ex_evidence_env ex_credentials ''agent.token'' 7
     = (Inr (binding_principal (ex_credential ''agent'' Agent)) :: errno authentication_error + principal)"
  using authenticate_exact [OF ex_bindings_valid, of ex_evidence_env "''agent.token''" 7]
  by (auto simp: ex_credentials_def ex_credential_def)

section \<open>A detached execution\<close>

lemma plan_execution_ends_witness:
  "\<exists>w'. plan_execution ex_bench (\<lambda>_ v. v) ex_agent_principal
      (first_ticket (RequestId ''run'') ex_grant_id ex_plan_id ex_attempt_id 0) 0 (ex_world ex_running (0::nat) 0) = Some w'"
proof -
  have "wf_store (w_store (ex_world ex_running (0::nat) 0))" using ex_recovery_wf by (simp add: ex_world_def)
  then show ?thesis using plan_execution_ends [of "ex_world ex_running (0::nat) 0" ex_bench "\<lambda>_ v. v"] by blast
qed

section \<open>Requests\<close>

definition ex_bindings :: "credential_binding list" where
  "ex_bindings =
     [\<lparr>cb_principal = PrincipalId ''op'', cb_role = Operator, cb_token_digest = ex_digest, cb_peer_uid = 1\<rparr>,
      \<lparr>cb_principal = ex_agent, cb_role = Agent, cb_token_digest = ex_digest, cb_peer_uid = 2\<rparr>]"

definition ex_service_env :: "'d bench \<Rightarrow> ('d \<Rightarrow> file_system) \<Rightarrow> (file_system \<Rightarrow> 'd \<Rightarrow> 'd) \<Rightarrow> 'd service_env" where
  "ex_service_env B files put = \<lparr>se_bench = B, se_artifacts = ex_store, se_files = files, se_put_files = put, se_restart = id,
     se_inspector = None, se_principals = configured_principals ex_bindings, se_to_value = (\<lambda>_. Inr JNull),
     se_decode_base64 = (\<lambda>text. Inr (as_bytes text)), se_encode_base64 = map (\<lambda>b. char_of (unat b))\<rparr>"

definition ex_service :: "nat service_env" where
  "ex_service = ex_service_env ex_bench (\<lambda>_. ex_empty_disk) (\<lambda>_ d. d)"

definition ex_logged_service :: "(nat \<times> attempt_id list) service_env" where
  "ex_logged_service = ex_service_env ex_logged (\<lambda>_. ex_empty_disk) (\<lambda>_ d. d)"

lemma ex_service_simps:
  "se_bench ex_logged_service = ex_logged" "se_bench ex_service = ex_bench"
  "se_principals ex_service = configured_principals ex_bindings"
  "se_principals ex_logged_service = configured_principals ex_bindings"
  by (simp_all add: ex_service_def ex_logged_service_def ex_service_env_def)

lemma ex_clients:
  "authenticate ex_env ex_bindings token 1 = (Inr ex_operator :: 'e authentication_error + principal)"
  "authenticate ex_env ex_bindings token 2 = (Inr ex_agent_principal :: 'e authentication_error + principal)"
  "configured_principals ex_bindings ex_agent = Some ex_agent_principal"
  by (simp_all add: authenticate_def ex_bindings_def text_digest_def artifact_sha256_def ex_env_def ex_digest_def Let_def
      binding_principal_def ex_operator_def ex_agent_principal_def configured_principals_def ex_agent_def)

text \<open>The operator commissions a profile and issues a grant; then the service is restarted.\<close>

definition ex_granted :: store where
  "ex_granted = empty_store\<lparr>st_profiles := [ex_profile_id \<mapsto> ex_profile], st_grants := [ex_grant_id \<mapsto> ex_grant 5 False]\<rparr>"

lemma ex_requests:
  "(service_step ex_logged_service ex_bindings)\<^sup>*\<^sup>*
     \<lparr>svc_world = ex_world empty_store (0, []) 0, svc_tasks = []\<rparr>
     \<lparr>svc_world = ex_world ex_granted (0, []) 2, svc_tasks = []\<rparr>"
proof -
  let ?S = "ex_logged_service"
  let ?s = "\<lambda>j n. \<lparr>svc_world = ex_world j (0 :: nat, [] :: attempt_id list) n, svc_tasks = []\<rparr>"
  let ?p = "empty_store\<lparr>st_profiles := [ex_profile_id \<mapsto> ex_profile]\<rparr>"
  have "snd (handle ?S ex_operator (RequestAuthority (Commission ex_profile)) (?s empty_store 0)) = ?s ?p 1"
    by (simp add: ex_service_simps supervise_def ex_entities(1) abind_def report_def areturn_def)
  then obtain r1 where "handle ?S ex_operator (RequestAuthority (Commission ex_profile)) (?s empty_store 0) = (r1, ?s ?p 1)"
    by (metis prod.collapse)
  then have one: "service_step ?S ex_bindings (?s empty_store 0) (?s ?p 1)"
    by (rule service_step.Requested [rotated, where uid = 1]) (simp add: ex_service_simps ex_clients(1))
  have "snd (handle ?S ex_operator (RequestAuthority (IssueGrant ex_agent (ex_grant 5 False))) (?s ?p 1)) = ?s ex_granted 2"
    using ex_entities(2) [of "(0, [])" 1]
    by (simp add: ex_service_simps supervise_def abind_def report_def areturn_def alift_def ex_clients(3) ex_granted_def numeral_2_eq_2)
  then obtain r2 where "handle ?S ex_operator (RequestAuthority (IssueGrant ex_agent (ex_grant 5 False))) (?s ?p 1)
      = (r2, ?s ex_granted 2)" by (metis prod.collapse)
  then have "service_step ?S ex_bindings (?s ?p 1) (?s ex_granted 2)"
    by (rule service_step.Requested [rotated, where uid = 1]) (simp add: ex_service_simps ex_clients(1))
  with one show ?thesis by (meson converse_rtranclp_into_rtranclp rtranclp.rtrancl_refl)
qed

lemma service_refines_journal_witness: "reachable ex_env ex_granted"
  using service_refines_journal [OF ex_requests] by (simp add: ex_world_def ex_service_simps)

lemma unpermitted_request_refused_witness:
  "\<exists>e. handle ex_service ex_agent_principal (RequestAuthority (Commission ex_profile))
     \<lparr>svc_world = ex_world empty_store 0 0, svc_tasks = []\<rparr>
     = (Inl (Failed e), \<lparr>svc_world = ex_world empty_store 0 0, svc_tasks = []\<rparr>)"
  using unpermitted_request_refused [of ex_agent_principal "RequestAuthority (Commission ex_profile)" ex_service]
  by (simp add: ex_agent_principal_def)

definition ex_idle_bench :: "env \<Rightarrow> 'd bench" where
  "ex_idle_bench E = \<lparr>bn_env = E, bn_time = (\<lambda>_. ex_clock), bn_error_text = (\<lambda>_. ''error''),
     bn_backend_error_text = (\<lambda>_. ''backend''), bn_resolve = (\<lambda>_ _. Inl ''none''),
     bn_verify_source = (\<lambda>_ _ _. Inl ''none''), bn_preflight = (\<lambda>_ _ _. Inr ()),
     bn_execute = (\<lambda>_ d. (Inl (BackendMalformed ''idle''), d)),
     bn_reconcile = (\<lambda>_ d. (Inl (BackendMalformed ''idle''), d))\<rparr>"

lemma evidence_requests_exact_witness:
  "\<exists>response s'. handle (ex_service_env (ex_idle_bench ex_evidence_env) id (\<lambda>files _. files)) ex_agent_principal
       (RequestEvidence (Import (CaseId ''c'') ''abc''))
       \<lparr>svc_world = ex_world empty_store ex_empty_disk 0, svc_tasks = []\<rparr> = (Inr response, s')
     \<and> sr_status response = Reported
     \<and> member ''artifact'' (sr_result response)
         = Some (JString (digest_str (artifact_sha256 (env_sha256_hex ex_evidence_env) (as_bytes ''abc''))))"
proof -
  let ?S = "ex_service_env (ex_idle_bench ex_evidence_env) id (\<lambda>files _. files)"
  let ?s = "\<lparr>svc_world = ex_world empty_store ex_empty_disk 0, svc_tasks = []\<rparr>"
  have "calm 64 ex_empty_disk" unfolding calm_def ex_empty_disk_def by (intro exI [of _ 64]) simp
  moreover have "receptive ex_evidence_env ex_store (as_bytes ''abc'') (FromCase (CaseId ''c'')) ex_empty_disk"
    by (auto simp: receptive_def ex_store_def ex_empty_disk_def Let_def split: prod.split)
  ultimately obtain digest files where
    "publish ex_evidence_env ex_store (as_bytes ''abc'') (FromCase (CaseId ''c'')) ex_empty_disk = (Inr digest, files)"
    using publish_result by blast
  then have "\<exists>response s'. handle ?S ex_agent_principal (RequestEvidence (Import (CaseId ''c'') ''abc'')) ?s = (Inr response, s')"
    by (simp add: publish_case_artifact_def on_artifacts_Inr ex_service_env_def ex_idle_bench_def ex_world_def)
  then obtain response s' where run:
    "handle ?S ex_agent_principal (RequestEvidence (Import (CaseId ''c'') ''abc'')) ?s = (Inr response, s')" by blast
  have "api_sha256 ?S = env_sha256_hex ex_evidence_env" by (simp add: api_sha256_def ex_service_env_def ex_idle_bench_def)
  with evidence_requests_exact [OF _ run] run show ?thesis by (auto simp: ex_service_env_def)
qed

section \<open>A request over the wire\<close>

definition ex_envelope :: client_envelope where
  "ex_envelope = \<lparr>ce_token = ''t'', ce_request = RequestSystem Status\<rparr>"

definition ex_response :: service_response where
  "ex_response = \<lparr>sr_status = Reported, sr_result = JObject [(''instruments'', JArray [])]\<rparr>"

definition ex_codec :: service_codec where
  "ex_codec = \<lparr>co_encode_envelope = (\<lambda>e. if e = ex_envelope then Inr [1] else Inl ''envelope''),
     co_parse_envelope = (\<lambda>_. Inr ex_envelope),
     co_encode_reply = (\<lambda>r. if r = success_reply ex_response then Inr [2] else Inl ''reply''),
     co_parse_reply = (\<lambda>_. Inr (success_reply ex_response)), co_api_text = (\<lambda>_. ''api''),
     co_authentication_text = (\<lambda>_. ''unauthorized''), co_response_text = (\<lambda>_. Inr ''response''),
     co_client_text = (\<lambda>_. ''client''), co_error_text = id\<rparr>"

definition ex_idle :: "nat service" where
  "ex_idle = \<lparr>svc_world = ex_world empty_store 0 0, svc_tasks = []\<rparr>"

lemma ex_status: "handle ex_service ex_operator (RequestSystem Status) ex_idle = (Inr ex_response, ex_idle)"
  by (simp add: report_def areturn_def api_inventory_def ex_service_def ex_service_env_def ex_response_def)

lemma ex_wire:
  "codec_faithful ex_codec" "co_encode_envelope ex_codec \<lparr>ce_token = ''t'', ce_request = RequestSystem Status\<rparr> = Inr [1]"
  "length [1 :: u8] \<le> MAX_FRAME_BYTES"
  "answer ex_codec ex_service ex_bindings 1 \<lparr>ce_token = ''t'', ce_request = RequestSystem Status\<rparr> ex_idle
     = (Some (success_reply ex_response), ex_idle)"
  "framed (co_encode_reply ex_codec) (success_reply ex_response)"
proof -
  show "codec_faithful ex_codec" by (simp add: codec_faithful_def ex_codec_def)
  show "co_encode_envelope ex_codec \<lparr>ce_token = ''t'', ce_request = RequestSystem Status\<rparr> = Inr [1]"
    by (simp add: ex_codec_def ex_envelope_def)
  show "answer ex_codec ex_service ex_bindings 1 \<lparr>ce_token = ''t'', ce_request = RequestSystem Status\<rparr> ex_idle
     = (Some (success_reply ex_response), ex_idle)"
    by (simp add: answer_def ex_service_simps ex_clients(1) ex_status del: handle.simps)
  show "framed (co_encode_reply ex_codec) (success_reply ex_response)"
    by (simp add: framed_def ex_codec_def MAX_FRAME_BYTES_def)
qed (simp add: MAX_FRAME_BYTES_def)

lemma request_over_wire_witness:
  "client_request ex_codec (Inr ''t'') (Inr (working_stream []
       (\<lambda>arrived. fst (served ex_codec ex_service ex_bindings 1 ex_idle arrived)))) (RequestSystem Status)
   = Inr ex_response"
  using request_over_wire [OF ex_wire]
  by (simp add: ex_service_simps ex_clients(1) ex_status del: handle.simps)

lemma frame_reading_bounded_witness:
  "\<exists>w'. read_json_frame (\<lambda>bytes. Inr bytes) (working_stream [0, 0, 0, 1, 7, 9] (\<lambda>_. [])) = (Inr [7], w')
     \<and> sm_incoming w' = [9] \<and> sm_sent w' = []"
proof -
  let ?stream = "working_stream [0, 0, 0, 1, 7, 9] (\<lambda>_. [])"
  have "replicate 5 Completes = [Completes, Completes, Completes, Completes, Completes]"
    by (simp add: numeral_eq_Suc)
  then have "fst (read_json_frame (\<lambda>bytes. Inr bytes) ?stream) = Inr [7]"
    by (simp add: read_json_frame_def working_stream_def stream_read_def stream_step_def abind_def alift_def
        Let_def MAX_FRAME_BYTES_def bytes_u32_def map_err_def)
  then obtain w' where run: "read_json_frame (\<lambda>bytes. Inr bytes) ?stream = (Inr [7], w')"
    by (metis prod.collapse)
  from frame_reading_bounded [where from_slice = "\<lambda>bytes. Inr bytes" and w = ?stream] run
  obtain taken where taken: "[0, 0, 0, 1, 7, 9] = taken @ sm_incoming w'" "drop 4 taken = [7]" "sm_sent w' = []"
    by (auto simp: working_stream_def)
  have "length (drop 4 taken) = 1" unfolding taken(2) by simp
  then have "length taken = 5" by simp
  moreover have "sm_incoming w' = drop (length taken) [0, 0, 0, 1, 7, 9]" unfolding taken(1) by simp
  ultimately have "sm_incoming w' = [9]" by simp
  with taken(3) run show ?thesis by blast
qed

end
