(* ===== verification/Service_Interleaving.thy ===== *)
theory Service_Interleaving
  imports Service_Safety
begin

text \<open>
  The threads of the service, interleaved. A request runs on a task of its own, an execution
  on a blocking thread (\<open>spawn_plan_execution\<close> in \<open>src/service/api.rs\<close>), and the process
  may die at any moment. What the threads share is the journal, which each touches by one
  transaction of its connection at a time (\<open>src/store/mod.rs\<close>), and the devices with the
  files, which they touch by the calls of the backend. A step of the process is one of
  these: a transaction, a call, a change of the files, the local moves of a thread between its
  claim and its receipt, or the death of the process with all its threads and the next start. A
  call in which the process dies is a call that does part of its work, followed by the start.

  The steps over-approximate the threads: any transaction of the store may come at any
  time, whoever asks for it, and the checks between a claim and its call may find whatever the
  other threads leave them, so nothing depends on when a thread reads.
\<close>

section \<open>State\<close>

datatype device_activity =
    Executing dispatch_request
  | Reconciling dispatch_request
  | Inspecting instrument_id

text \<open>A thread in \<open>Supervisor::execute\<close>, from its claim to its receipt.\<close>

datatype execution_thread =
    Dispatching claimed_dispatch
  | Ready claimed_dispatch dispatch_request
  | Settling claimed_dispatch

record 'd process =
  ps_store :: store
  ps_device :: 'd
  ps_threads :: "execution_thread list"
  ps_executed :: "dispatch_request list"

text \<open>\<open>ps_executed\<close> records the requests the backend was asked to execute; no step looks at
  it. What a call and what others may do to the devices and files, and what the end of the
  process leaves of them, are the fields of \<open>surroundings\<close>.\<close>

record 'd surroundings =
  su_env :: env
  su_call :: "device_activity \<Rightarrow> 'd \<Rightarrow> 'd \<Rightarrow> bool"
  su_files :: "'d \<Rightarrow> 'd \<Rightarrow> bool"
  su_restart :: "'d \<Rightarrow> 'd"

section \<open>Steps\<close>

definition releases :: "claimed_dispatch \<Rightarrow> operation_receipt \<Rightarrow> bool" where
  "releases claimed receipt \<longleftrightarrow> is_rejected receipt \<or> (is_completed receipt
     \<and> at_operation_index (cd_attempt claimed) + 1 = length (rp_operations (cd_plan claimed)))"

inductive process_step :: "'d surroundings \<Rightarrow> 'd process \<Rightarrow> 'd process \<Rightarrow> bool" for U where
  Transacts: "journal_step (su_env U) (ps_store p) s \<Longrightarrow> process_step U p (p\<lparr>ps_store := s\<rparr>)"
| Files: "su_files U (ps_device p) d \<Longrightarrow> process_step U p (p\<lparr>ps_device := d\<rparr>)"
| Claims: "claim_dispatch (su_env U) clk i who (ps_store p) = Inr (claimed, s) \<Longrightarrow>
    process_step U p (p\<lparr>ps_store := s, ps_threads := ps_threads p @ [Dispatching claimed]\<rparr>)"
| Prepares: "ps_threads p = before @ Dispatching claimed # after \<Longrightarrow>
    dispatch_from_snapshot (su_env U) (cd_attempt claimed) (cd_grant claimed) (cd_profile claimed)
      (cd_plan claimed) Execution = Inr dispatch \<Longrightarrow>
    process_step U p (p\<lparr>ps_threads :=
      before @ Ready claimed (dispatch\<lparr>dr_interlocks_valid_until := expiry\<rparr>) # after\<rparr>)"
| Refuses: "ps_threads p = before @ Dispatching claimed # after \<Longrightarrow>
    record_receipt (su_env U) clk (at_id (cd_attempt claimed)) (ReceiptRejected why) True (ps_store p) = Inr (a, s) \<Longrightarrow>
    process_step U p (p\<lparr>ps_store := s, ps_threads := before @ after\<rparr>)"
| Executes: "ps_threads p = before @ Ready claimed dispatch # after \<Longrightarrow>
    su_call U (Executing dispatch) (ps_device p) d \<Longrightarrow>
    process_step U p (p\<lparr>ps_device := d, ps_threads := before @ Settling claimed # after,
      ps_executed := ps_executed p @ [dispatch]\<rparr>)"
| Settles: "ps_threads p = before @ Settling claimed # after \<Longrightarrow>
    record_receipt (su_env U) clk (at_id (cd_attempt claimed)) receipt (releases claimed receipt) (ps_store p)
      = Inr (a, s) \<Longrightarrow>
    process_step U p (p\<lparr>ps_store := s, ps_threads := before @ after\<rparr>)"
| Vanishes: "ps_threads p = before @ thread # after \<Longrightarrow> process_step U p (p\<lparr>ps_threads := before @ after\<rparr>)"
| Observes: "(\<And>dispatch. activity \<noteq> Executing dispatch) \<Longrightarrow> su_call U activity (ps_device p) d \<Longrightarrow>
    process_step U p (p\<lparr>ps_device := d\<rparr>)"
| Restarts: "process_step U p (p\<lparr>ps_store := recover_interrupted_dispatches (su_env U) clk (ps_store p),
    ps_device := su_restart U (ps_device p), ps_threads := []\<rparr>)"

text \<open>A thread vanishes when a transaction refuses it, or when it panics; the attempt
  stays as it is, dispatched, until the next start.\<close>

section \<open>What a claim stands for\<close>

text \<open>The request executes an attempt of the journal that is past its intent, with the
  operation of a stored plan, which was admissible under the profile and a grant of which the
  stored one is what is left.\<close>

definition planned_attempt :: "env \<Rightarrow> store \<Rightarrow> dispatch_request \<Rightarrow> bool" where
  "planned_attempt E s request \<longleftrightarrow> (\<exists>a g now_left profile plan planned.
     load_attempt s (dr_attempt request) = Some a \<and> at_state a \<noteq> Intent
     \<and> st_grants s (at_grant a) = Some now_left \<and> grant_shrinks g now_left
     \<and> st_profiles s (at_profile a) = Some profile \<and> st_plans s (at_plan a) = Some plan
     \<and> operation_at plan (at_operation_index a) = Inr planned
     \<and> dr_operation request = po_operation planned
     \<and> admissible E g profile plan planned)"

text \<open>What a thread holds: the records of an attempt past its intent.\<close>

definition claim_held :: "store \<Rightarrow> claimed_dispatch \<Rightarrow> bool" where
  "claim_held s claimed \<longleftrightarrow> (\<exists>a now_left.
     load_attempt s (at_id (cd_attempt claimed)) = Some a \<and> at_state a \<noteq> Intent
     \<and> same_identity (cd_attempt claimed) a
     \<and> st_grants s (at_grant a) = Some now_left \<and> grant_shrinks (cd_grant claimed) now_left
     \<and> st_profiles s (at_profile a) = Some (cd_profile claimed) \<and> st_plans s (at_plan a) = Some (cd_plan claimed))"

definition past_intent :: "store \<Rightarrow> attempt_id \<Rightarrow> bool" where
  "past_intent s i \<longleftrightarrow> (\<exists>a. load_attempt s i = Some a \<and> at_state a \<noteq> Intent)"

lemma past_intent_later:
  assumes "wf_store s" "(journal_step E)\<^sup>*\<^sup>* s t" "past_intent s i"
  shows "past_intent t i"
proof -
  have st: "steps_wf (st_attempts s)" using assms(1) by (simp add: wf_store_def)
  from assms(3) obtain a where "a \<in> set (st_attempts s)" "at_id a = i" "at_state a \<noteq> Intent"
    using load_attempt_iff [OF st] by (auto simp: past_intent_def)
  with later_attempt [OF assms(1,2)] obtain b where "load_attempt t i = Some b" "attempt_evolves a b" by blast
  with \<open>at_state a \<noteq> Intent\<close> show ?thesis
    by (cases "at_state a") (auto simp: past_intent_def attempt_evolves_def)
qed

text \<open>The records of an attempt past its intent go on as one.\<close>

lemma records_later:
  assumes "wf_store s" "(journal_step E)\<^sup>*\<^sup>* s t"
    and "load_attempt s i = Some a" "at_state a \<noteq> Intent" "st_grants s (at_grant a) = Some g"
    and "st_profiles s (at_profile a) = Some profile" "st_plans s (at_plan a) = Some plan"
  obtains b h where "load_attempt t i = Some b" "at_state b \<noteq> Intent" "same_identity a b"
    "st_grants t (at_grant a) = Some h" "grant_shrinks g h"
    "st_profiles t (at_profile a) = Some profile" "st_plans t (at_plan a) = Some plan"
proof -
  have st: "steps_wf (st_attempts s)" using assms(1) by (simp add: wf_store_def)
  have a: "a \<in> set (st_attempts s)" "at_id a = i" using assms(3) load_attempt_iff [OF st] by simp_all
  from later_attempt [OF assms(1,2) a(1)] obtain b where b: "load_attempt t i = Some b" "attempt_evolves a b"
    using a(2) by blast
  obtain h where h: "st_grants t (at_grant a) = Some h" "grant_shrinks g h"
    using later_grant [OF assms(1,2,5)] .
  have "st_profiles t (at_profile a) = Some profile" "st_plans t (at_plan a) = Some plan"
    using later_wf [OF assms(2,1)] assms(6,7) by (auto simp: evolves_def maps_evolve_def)
  moreover have "same_identity a b" "at_state b \<noteq> Intent"
    using b(2) assms(4) by (cases "at_state a"; auto simp: attempt_evolves_def)+
  ultimately show thesis using that b(1) h by blast
qed

lemma planned_later:
  assumes "wf_store s" "(journal_step E)\<^sup>*\<^sup>* s t" "planned_attempt E s request"
  shows "planned_attempt E t request"
proof -
  from assms(3) obtain a g left0 profile plan planned where planned:
    "load_attempt s (dr_attempt request) = Some a" "at_state a \<noteq> Intent"
    "st_grants s (at_grant a) = Some left0" "grant_shrinks g left0"
    "st_profiles s (at_profile a) = Some profile" "st_plans s (at_plan a) = Some plan"
    "operation_at plan (at_operation_index a) = Inr planned" "dr_operation request = po_operation planned"
    "admissible E g profile plan planned" by (auto simp: planned_attempt_def)
  obtain b h where later: "load_attempt t (dr_attempt request) = Some b" "at_state b \<noteq> Intent" "same_identity a b"
    "st_grants t (at_grant a) = Some h" "grant_shrinks left0 h"
    "st_profiles t (at_profile a) = Some profile" "st_plans t (at_plan a) = Some plan"
    using records_later [OF assms(1,2) planned(1,2,3,5,6)] .
  have "grant_shrinks g h" using planned(4) later(5) by (rule grant_shrinks_trans)
  with later planned(7-9) show ?thesis
    unfolding planned_attempt_def same_identity_def
    by (intro exI [of _ b] exI [of _ g] exI [of _ h] exI [of _ profile] exI [of _ plan] exI [of _ planned]) simp
qed

lemma claim_held_later:
  assumes "wf_store s" "(journal_step E)\<^sup>*\<^sup>* s t" "claim_held s claimed"
  shows "claim_held t claimed"
proof -
  from assms(3) obtain a g where held:
    "load_attempt s (at_id (cd_attempt claimed)) = Some a" "at_state a \<noteq> Intent" "same_identity (cd_attempt claimed) a"
    "st_grants s (at_grant a) = Some g" "grant_shrinks (cd_grant claimed) g"
    "st_profiles s (at_profile a) = Some (cd_profile claimed)" "st_plans s (at_plan a) = Some (cd_plan claimed)"
    by (auto simp: claim_held_def)
  obtain b h where later: "load_attempt t (at_id (cd_attempt claimed)) = Some b" "at_state b \<noteq> Intent" "same_identity a b"
    "st_grants t (at_grant a) = Some h" "grant_shrinks g h"
    "st_profiles t (at_profile a) = Some (cd_profile claimed)" "st_plans t (at_plan a) = Some (cd_plan claimed)"
    using records_later [OF assms(1,2) held(1,2,4,6,7)] .
  have "grant_shrinks (cd_grant claimed) h" using held(5) later(5) by (rule grant_shrinks_trans)
  with later held(3) show ?thesis
    unfolding claim_held_def same_identity_def by (intro exI [of _ b] exI [of _ h]) simp
qed

lemma claim_held_new:
  assumes "wf_store s" "claim_dispatch E clk i who s = Inr (claimed, t)"
  shows "claim_held t claimed" "at_id (cd_attempt claimed) = i" "\<not> past_intent s i"
proof -
  from assms(2) obtain a where a: "load_attempt s i = Some a" "at_state a = Intent"
    "st_grants s (at_grant a) = Some (cd_grant claimed)" "st_profiles s (at_profile a) = Some (cd_profile claimed)"
    "st_plans s (at_plan a) = Some (cd_plan claimed)" "same_identity a (cd_attempt claimed)"
    "at_state (cd_attempt claimed) = Dispatched" "t = update_attempt (cd_attempt claimed) s"
    by (rule claim_dispatch_ok)
  have st: "steps_wf (st_attempts s)" using assms(1) by (simp add: wf_store_def)
  have mem: "a \<in> set (st_attempts s)" "at_id a = i" using a(1) load_attempt_iff [OF st] by simp_all
  show id: "at_id (cd_attempt claimed) = i" using a(6) mem(2) by (simp add: same_identity_def)
  have "wf_store t" using claim_dispatch_preserves [OF assms] by simp
  then have st1: "steps_wf (st_attempts t)" by (simp add: wf_store_def)
  have "cd_attempt claimed \<in> set (st_attempts t)"
    using set_row_attempt [OF st mem(1) a(6)] by (simp add: a(8))
  then have "load_attempt t i = Some (cd_attempt claimed)" using id load_attempt_iff [OF st1] by simp
  with a(3-8) id show "claim_held t claimed"
    unfolding claim_held_def
    by (intro exI [of _ "cd_attempt claimed"] exI [of _ "cd_grant claimed"])
      (simp add: same_identity_def update_attempt_def grant_shrinks_refl)
  show "\<not> past_intent s i" using a(1,2) by (simp add: past_intent_def)
qed

text \<open>A request prepared from a claim executes the claimed attempt as it was planned.\<close>

lemma prepared_planned:
  assumes "claim_held s claimed"
    and "dispatch_from_snapshot E (cd_attempt claimed) (cd_grant claimed) (cd_profile claimed)
      (cd_plan claimed) Execution = Inr dispatch"
  shows "planned_attempt E s (dispatch\<lparr>dr_interlocks_valid_until := expiry\<rparr>)"
    "dr_attempt (dispatch\<lparr>dr_interlocks_valid_until := expiry\<rparr>) = at_id (cd_attempt claimed)"
proof -
  from assms(2) obtain planned where d:
    "operation_at (cd_plan claimed) (at_operation_index (cd_attempt claimed)) = Inr planned"
    "authorize E (cd_grant claimed) (cd_profile claimed) (cd_plan claimed) planned = Inr ()"
    "dispatch = dispatch_request_for (cd_attempt claimed) (cd_profile claimed) planned
       (at_evidence_challenge (cd_attempt claimed)) Execution True"
    by (auto simp: dispatch_from_snapshot_def)
  show id: "dr_attempt (dispatch\<lparr>dr_interlocks_valid_until := expiry\<rparr>) = at_id (cd_attempt claimed)"
    by (simp add: d(3) dispatch_request_for_def)
  from assms(1) obtain a now_left where held: "load_attempt s (at_id (cd_attempt claimed)) = Some a"
    "at_state a \<noteq> Intent" "same_identity (cd_attempt claimed) a" "st_grants s (at_grant a) = Some now_left"
    "grant_shrinks (cd_grant claimed) now_left" "st_profiles s (at_profile a) = Some (cd_profile claimed)"
    "st_plans s (at_plan a) = Some (cd_plan claimed)" by (auto simp: claim_held_def)
  with d(1,2) show "planned_attempt E s (dispatch\<lparr>dr_interlocks_valid_until := expiry\<rparr>)"
    unfolding planned_attempt_def id
    by (intro exI [of _ a] exI [of _ "cd_grant claimed"] exI [of _ now_left] exI [of _ "cd_profile claimed"]
        exI [of _ "cd_plan claimed"] exI [of _ planned])
      (simp add: d(3) dispatch_request_for_def same_identity_def authorize_admissible)
qed

section \<open>One execution per attempt\<close>

text \<open>The attempts that a thread may still have executed.\<close>

fun awaiting :: "execution_thread \<Rightarrow> attempt_id list" where
  "awaiting (Dispatching claimed) = [at_id (cd_attempt claimed)]"
| "awaiting (Ready claimed dispatch) = [dr_attempt dispatch]"
| "awaiting (Settling claimed) = []"

fun thread_sound :: "env \<Rightarrow> store \<Rightarrow> execution_thread \<Rightarrow> bool" where
  "thread_sound E s (Dispatching claimed) \<longleftrightarrow> claim_held s claimed"
| "thread_sound E s (Ready claimed dispatch) \<longleftrightarrow> planned_attempt E s dispatch"
| "thread_sound E s (Settling claimed) \<longleftrightarrow> True"

text \<open>What every step keeps, counted from a journal \<open>s\<close>: threads and executed requests are of
  different attempts, all claimed since, and each holds what it needs.\<close>

definition process_sound :: "env \<Rightarrow> store \<Rightarrow> 'd process \<Rightarrow> bool" where
  "process_sound E s p \<longleftrightarrow> wf_store s \<and> (journal_step E)\<^sup>*\<^sup>* s (ps_store p)
     \<and> list_all (thread_sound E (ps_store p)) (ps_threads p)
     \<and> list_all (planned_attempt E (ps_store p)) (ps_executed p)
     \<and> distinct (concat (map awaiting (ps_threads p)) @ map dr_attempt (ps_executed p))
     \<and> list_all (\<lambda>i. \<not> past_intent s i) (concat (map awaiting (ps_threads p)) @ map dr_attempt (ps_executed p))"

lemma process_wf: "process_sound E s p \<Longrightarrow> wf_store (ps_store p)"
  unfolding process_sound_def using later_wf by blast

lemma thread_sound_later:
  "wf_store s \<Longrightarrow> (journal_step E)\<^sup>*\<^sup>* s t \<Longrightarrow> thread_sound E s thread \<Longrightarrow> thread_sound E t thread"
  by (cases thread) (simp_all add: claim_held_later planned_later)

lemma planned_past_intent: "planned_attempt E s request \<Longrightarrow> past_intent s (dr_attempt request)"
  by (auto simp: planned_attempt_def past_intent_def)

lemma awaiting_past_intent: "thread_sound E s thread \<Longrightarrow> i \<in> set (awaiting thread) \<Longrightarrow> past_intent s i"
  by (cases thread) (auto simp: claim_held_def past_intent_def dest: planned_past_intent [unfolded past_intent_def])

text \<open>The journal moves, and some threads are gone.\<close>

lemma process_sound_kept:
  assumes "process_sound E s p" "(journal_step E)\<^sup>*\<^sup>* (ps_store p) (ps_store p')"
    and "ps_threads p = before @ gone @ after" "ps_threads p' = before @ after" "ps_executed p' = ps_executed p"
  shows "process_sound E s p'"
proof -
  note wf = process_wf [OF assms(1)]
  have "(journal_step E)\<^sup>*\<^sup>* s (ps_store p')"
    using assms(1,2) by (auto simp: process_sound_def)
  moreover have "list_all (thread_sound E (ps_store p)) (before @ after)"
    "list_all (planned_attempt E (ps_store p)) (ps_executed p)"
    using assms(1,3) by (simp_all add: process_sound_def)
  then have "list_all (thread_sound E (ps_store p')) (before @ after)"
    "list_all (planned_attempt E (ps_store p')) (ps_executed p)"
    using thread_sound_later [OF wf assms(2)] planned_later [OF wf assms(2)]
    by (auto elim!: list.pred_mono_strong simp del: list_all_append)
  ultimately show ?thesis
    using assms(1,3-5) by (auto simp: process_sound_def)
qed

lemma process_sound_claims:
  assumes "process_sound E s p" "claim_dispatch E clk i who (ps_store p) = Inr (claimed, t)"
  shows "process_sound E s (p\<lparr>ps_store := t, ps_threads := ps_threads p @ [Dispatching claimed]\<rparr>)"
proof -
  note wf = process_wf [OF assms(1)]
  note claim = claim_held_new [OF wf assms(2)]
  have steps: "(journal_step E)\<^sup>*\<^sup>* (ps_store p) t" using dispatched [OF assms(2)] by blast
  have kept: "process_sound E s (p\<lparr>ps_store := t\<rparr>)"
    by (rule process_sound_kept [OF assms(1), of _ "ps_threads p" "[]" "[]"]) (simp_all add: steps)
  have new: "i \<notin> set (concat (map awaiting (ps_threads p)) @ map dr_attempt (ps_executed p))"
    using assms(1) claim(3) awaiting_past_intent planned_past_intent
    by (fastforce simp: process_sound_def list_all_iff)
  have "\<not> past_intent s i"
    using claim(3) past_intent_later assms(1) unfolding process_sound_def by blast
  with kept new claim(1,2) show ?thesis by (auto simp: process_sound_def)
qed

lemma process_sound_moves:
  assumes "process_sound E s p" "ps_threads p = before @ thread # after"
  shows "thread = Dispatching claimed \<Longrightarrow>
      dispatch_from_snapshot E (cd_attempt claimed) (cd_grant claimed) (cd_profile claimed) (cd_plan claimed)
        Execution = Inr dispatch \<Longrightarrow>
      process_sound E s (p\<lparr>ps_threads := before @ Ready claimed (dispatch\<lparr>dr_interlocks_valid_until := expiry\<rparr>) # after\<rparr>)"
    and "thread = Ready claimed request \<Longrightarrow>
      process_sound E s (p\<lparr>ps_device := d, ps_threads := before @ Settling claimed # after,
        ps_executed := ps_executed p @ [request]\<rparr>)"
  using assms prepared_planned [of "ps_store p" claimed E dispatch expiry]
  by (auto simp: process_sound_def)

lemma process_step_sound:
  assumes "process_step U p p'" "process_sound (su_env U) s p"
  shows "process_sound (su_env U) s p'"
  using assms
proof (induction rule: process_step.induct)
  case (Transacts p t)
  show ?case
    by (rule process_sound_kept [OF Transacts(2), of _ "ps_threads p" "[]" "[]"]) (use Transacts(1) in simp_all)
next
  case (Files p d)
  show ?case by (rule process_sound_kept [OF Files(2), of _ "ps_threads p" "[]" "[]"]) simp_all
next
  case (Claims clk i who p claimed t)
  then show ?case by (intro process_sound_claims)
next
  case (Prepares p before claimed after dispatch expiry)
  then show ?case by (intro process_sound_moves(1)) simp_all
next
  case (Refuses p before claimed after clk why a t)
  have "journal_step (su_env U) (ps_store p) t"
    using receipt_recorded [OF _ Refuses(2)] by simp
  then show ?case
    by (intro process_sound_kept [OF Refuses(3), of _ before "[Dispatching claimed]" after]) (use Refuses(1) in simp_all)
next
  case (Executes p before claimed dispatch after d)
  then show ?case by (intro process_sound_moves(2)) simp_all
next
  case (Settles p before claimed after clk receipt a t)
  have "journal_step (su_env U) (ps_store p) t"
    using receipt_recorded [OF _ Settles(2)] release_only_resolved unfolding releases_def by blast
  then show ?case
    by (intro process_sound_kept [OF Settles(3), of _ before "[Settling claimed]" after]) (use Settles(1) in simp_all)
next
  case (Vanishes p before thread after)
  show ?case by (rule process_sound_kept [OF Vanishes(2), of _ before "[thread]" after]) (use Vanishes(1) in simp_all)
next
  case (Observes activity p d)
  show ?case by (rule process_sound_kept [OF Observes(3), of _ "ps_threads p" "[]" "[]"]) simp_all
next
  case (Restarts p clk)
  show ?case
    by (rule process_sound_kept [OF Restarts, of _ "[]" "ps_threads p" "[]"]) (auto intro: reopened)
qed

lemma process_run_sound:
  assumes "(process_step U)\<^sup>*\<^sup>* p p'" "wf_store (ps_store p)" "ps_threads p = []" "ps_executed p = []"
  shows "process_sound (su_env U) (ps_store p) p'"
  using assms(1)
proof (induction rule: rtranclp_induct)
  case base
  show ?case using assms(2-4) by (simp add: process_sound_def)
qed (rule process_step_sound)

text \<open>C4: No attempt is executed twice, in whatever order the threads of the service run, in
  whatever thread a call is or a claim is held when the process dies, and however often it dies and
  starts again: the requests that the backend is asked to execute are of different attempts, each
  executes its attempt as a reviewed plan has it, and none is of an attempt that was past
  its intent when the run began, such as one that an earlier process was executing when it died.\<close>

theorem interleaved_executes_once:
  assumes "(process_step U)\<^sup>*\<^sup>* p p'" "reachable (su_env U) (ps_store p)"
    and "ps_threads p = []" "ps_executed p = []"
  shows "distinct (map dr_attempt (ps_executed p'))
    \<and> list_all (\<lambda>request. planned_attempt (su_env U) (ps_store p') request
        \<and> \<not> past_intent (ps_store p) (dr_attempt request)) (ps_executed p')"
  using process_run_sound [OF assms(1) reachable_wf [OF assms(2)] assms(3,4)]
  by (simp add: process_sound_def list_all_iff)

section \<open>The service is such a process\<close>

text \<open>The surroundings allow what the backend, the inspector and the files of a service do.\<close>

definition hosts :: "'d surroundings \<Rightarrow> 'd service_env \<Rightarrow> bool" where
  "hosts U S \<longleftrightarrow> su_env U = bn_env (se_bench S)
     \<and> (\<forall>d request. su_call U (Executing request) d (snd (bn_execute (se_bench S) request d)))
     \<and> (\<forall>d request. su_call U (Reconciling request) d (snd (bn_reconcile (se_bench S) request d)))
     \<and> (\<forall>inspector i d. se_inspector S = Some inspector \<longrightarrow> su_call U (Inspecting i) d (snd (in_inspect inspector i d)))
     \<and> (\<forall>files d. su_files U d (se_put_files S files d)) \<and> su_restart U = se_restart S"

text \<open>A process between its threads, as a world of the supervisor.\<close>

definition quiescent :: "'d world \<Rightarrow> dispatch_request list \<Rightarrow> 'd process" where
  "quiescent w executed =
     \<lparr>ps_store = w_store w, ps_device = w_device w, ps_threads = [], ps_executed = executed\<rparr>"

definition interleaves :: "'d surroundings \<Rightarrow> 'd service_env \<Rightarrow> 'd world \<Rightarrow> 'd world \<Rightarrow> bool" where
  "interleaves U S w w' \<longleftrightarrow> (hosts U S \<longrightarrow>
     (\<forall>executed. \<exists>more. (process_step U)\<^sup>*\<^sup>* (quiescent w executed) (quiescent w' (executed @ more))))"

lemma interleaves_step:
  assumes "hosts U S \<Longrightarrow> (\<And>executed. process_step U (quiescent w executed) (quiescent w' executed))"
  shows "interleaves U S w w'"
  unfolding interleaves_def using assms by (metis append_Nil2 r_into_rtranclp)

lemma interleaves_chain: "interleaves U S w1 w2 \<Longrightarrow> interleaves U S w2 w3 \<Longrightarrow> interleaves U S w1 w3"
  unfolding interleaves_def by (metis append_assoc rtranclp_trans)

lemma interleaves_same: "w_store w' = w_store w \<Longrightarrow> w_device w' = w_device w \<Longrightarrow> interleaves U S w w'"
  by (auto simp: interleaves_def quiescent_def intro!: exI [of _ "[]"])

text \<open>The receipt of a claim, which ends its thread.\<close>

lemma interleaved_receipt:
  assumes "transaction B (\<lambda>clk. record_receipt (bn_env B) clk (at_id (cd_attempt claimed)) receipt release) w = (r, w')"
    and "su_env U = bn_env B" "ps_store p = w_store w" "ps_threads p = [thread]"
    and "thread = Dispatching claimed \<and> (\<exists>why. receipt = ReceiptRejected why) \<and> release
      \<or> thread = Settling claimed \<and> release = releases claimed receipt"
  shows "process_step U p (p\<lparr>ps_store := w_store w', ps_threads := []\<rparr>)"
proof (cases r)
  case (Inl e)
  with assms(1,3) have "ps_store p = w_store w'" by (auto simp: transaction_Inl)
  then have "p\<lparr>ps_store := w_store w', ps_threads := []\<rparr> = p\<lparr>ps_threads := [] @ []\<rparr>" by (cases p) simp
  with process_step.Vanishes [of p "[]" thread "[]" U] assms(4) show ?thesis by simp
next
  case (Inr a)
  with assms(1-3) have recorded: "record_receipt (su_env U) (bn_time B (w_calls w)) (at_id (cd_attempt claimed))
      receipt release (ps_store p) = Inr (a, w_store w')" by (auto simp: transaction_Inr)
  from assms(5) show ?thesis
  proof (elim disjE conjE exE)
    fix why assume "thread = Dispatching claimed" "receipt = ReceiptRejected why" release
    with process_step.Refuses [of p "[]" claimed "[]" U] assms(4) recorded show ?thesis by simp
  next
    assume "thread = Settling claimed" "release = releases claimed receipt"
    with process_step.Settles [of p "[]" claimed "[]" U] assms(4) recorded show ?thesis by simp
  qed
qed

lemma execute_interleaves:
  assumes "execute (se_bench S) agent ticket w = (r, w')"
  shows "interleaves U S w w'"
proof -
  let ?B = "se_bench S"
  have "\<exists>more. (process_step U)\<^sup>*\<^sup>* (quiescent w executed) (quiescent w' (executed @ more))"
    if hosted: "hosts U S" for executed
  proof -
    have env: "su_env U = bn_env ?B" using hosted by (simp add: hosts_def)
    let ?p = "\<lambda>s d threads log. \<lparr>ps_store = s, ps_device = d, ps_threads = threads, ps_executed = log\<rparr>"
    have claims: "process_step U (quiescent w executed) (?p s (w_device w) [Dispatching claimed] executed)"
      if "claim_dispatch (bn_env ?B) (bn_time ?B (w_calls w)) (ticket_attempt ticket) (pr_id agent) (w_store w)
          = Inr (claimed, s)" for claimed s
      using process_step.Claims [of U _ _ _ "quiescent w executed"] that by (simp add: quiescent_def env)
    from assms show ?thesis
    proof (cases rule: execute_cases)
      case role
      then show ?thesis by (intro exI [of _ "[]"]) simp
    next
      case unclaimed
      then show ?thesis by (intro exI [of _ "[]"]) (simp add: quiescent_def)
    next
      case (rejected claimed s1 w1 e w2)
      have w2: "w_store w2 = s1" "w_device w2 = w_device w"
        using observesD [OF prepare_dispatch_observes rejected(4)] rejected(3) by simp_all
      have "w_device w' = w_device w2" using rejected(5) by (auto simp: transaction_def split: sum.splits)
      with interleaved_receipt [OF rejected(5) env, of "?p s1 (w_device w) [Dispatching claimed] executed"] w2
      have "process_step U (?p s1 (w_device w) [Dispatching claimed] executed) (quiescent w' (executed @ []))"
        by (simp add: quiescent_def)
      with claims [OF rejected(2)] show ?thesis by (meson converse_rtranclp_into_rtranclp r_into_rtranclp)
    next
      case (executed claimed s1 w1 dispatch w2 receipt w3 release)
      have w2: "w_store w2 = s1" "w_device w2 = w_device w"
        using observesD [OF prepare_dispatch_observes executed(4)] executed(3) by simp_all
      obtain receipt' w3' where "run_backend ?B claimed dispatch w2 = (Inr receipt', w3')"
        "w_store w3' = w_store w2" "w_device w3' = snd (bn_execute ?B dispatch (w_device w2))"
        by (rule run_backend_total)
      with executed(5) w2 have w3: "w_store w3 = s1" "w_device w3 = snd (bn_execute ?B dispatch (w_device w))" by simp_all
      from executed(4) obtain planned expiry where
        "at_operation_index (cd_attempt claimed) < length (rp_operations (cd_plan claimed))"
        "planned = rp_operations (cd_plan claimed) ! at_operation_index (cd_attempt claimed)"
        "authorize (bn_env ?B) (cd_grant claimed) (cd_profile claimed) (cd_plan claimed) planned = Inr ()"
        and dispatch: "dispatch = (dispatch_request_for (cd_attempt claimed) (cd_profile claimed) planned
          (at_evidence_challenge (cd_attempt claimed)) Execution True)\<lparr>dr_interlocks_valid_until := expiry\<rparr>"
        by (rule prepare_dispatch_ok)
      then have snapshot: "dispatch_from_snapshot (su_env U) (cd_attempt claimed) (cd_grant claimed) (cd_profile claimed)
          (cd_plan claimed) Execution = Inr (dispatch_request_for (cd_attempt claimed) (cd_profile claimed) planned
            (at_evidence_challenge (cd_attempt claimed)) Execution True)"
        by (simp add: dispatch_from_snapshot_def operation_at_def env)
      have prepares: "process_step U (?p s1 (w_device w) [Dispatching claimed] executed)
          (?p s1 (w_device w) [Ready claimed dispatch] executed)"
        using process_step.Prepares [OF _ snapshot, of "?p s1 (w_device w) [Dispatching claimed] executed" "[]" "[]" expiry]
        by (simp add: dispatch)
      have executes: "process_step U (?p s1 (w_device w) [Ready claimed dispatch] executed)
          (?p s1 (w_device w3) [Settling claimed] (executed @ [dispatch]))"
        using process_step.Executes [of "?p s1 (w_device w) [Ready claimed dispatch] executed" "[]" claimed dispatch "[]" U
            "w_device w3"] hosted by (simp add: hosts_def w3(2))
      have "w_device w' = w_device w3" using executed(7) by (auto simp: transaction_def split: sum.splits)
      then have "process_step U (?p s1 (w_device w3) [Settling claimed] (executed @ [dispatch]))
          (quiescent w' (executed @ [dispatch]))"
        using interleaved_receipt [OF executed(7) env, of "?p s1 (w_device w3) [Settling claimed] (executed @ [dispatch])"]
          w3(1) executed(6) by (simp add: quiescent_def releases_def)
      with claims [OF executed(2)] prepares executes show ?thesis
        by (meson converse_rtranclp_into_rtranclp r_into_rtranclp)
    qed
  qed
  then show ?thesis by (simp add: interleaves_def)
qed

interpretation interleaved: serving "se_bench S" "interleaves U S" S for U S
proof
  fix w w' w1 w2 w3 :: "'a world"
  show "interleaves U S w w'" if "w_store w' = w_store w" "w_device w' = w_device w"
    using that by (rule interleaves_same)
  show "interleaves U S w1 w3" if "interleaves U S w1 w2" "interleaves U S w2 w3"
    using that by (rule interleaves_chain)
  show "interleaves U S w w'" if "journal_step (bn_env (se_bench S)) (w_store w) (w_store w')" "w_device w' = w_device w"
  proof (rule interleaves_step)
    fix executed assume "hosts U S"
    with process_step.Transacts [of U "quiescent w executed" "w_store w'"] that
    show "process_step U (quiescent w executed) (quiescent w' executed)"
      by (simp add: quiescent_def hosts_def)
  qed
  show "interleaves U S w w'" if "execute (se_bench S) agent ticket w = (re, w')" for agent ticket re
    using that by (rule execute_interleaves)
  show "interleaves U S w w'" if "w_store w' = w_store w" "w_device w' = snd (bn_reconcile (se_bench S) rq (w_device w))" for rq
  proof (rule interleaves_step)
    fix executed assume "hosts U S"
    with process_step.Observes [of "Reconciling rq" U "quiescent w executed" "w_device w'"] that
    show "process_step U (quiescent w executed) (quiescent w' executed)"
      by (simp add: quiescent_def hosts_def)
  qed
  show "se_bench S = se_bench S" ..
  show "interleaves U S w (with_device w (se_put_files S files (w_device w)))" for files
  proof (rule interleaves_step)
    fix executed assume "hosts U S"
    with process_step.Files [of U "quiescent w executed" "se_put_files S files (w_device w)"]
    show "process_step U (quiescent w executed) (quiescent (with_device w (se_put_files S files (w_device w))) executed)"
      by (simp add: quiescent_def hosts_def with_device_def)
  qed
  show "interleaves U S w ((with_device w (se_restart S (w_device w)))
      \<lparr>w_store := recover_interrupted_dispatches (bn_env (se_bench S)) clk (w_store w)\<rparr>)" for clk
  proof (rule interleaves_step)
    fix executed assume "hosts U S"
    with process_step.Restarts [of U "quiescent w executed" clk]
    show "process_step U (quiescent w executed) (quiescent ((with_device w (se_restart S (w_device w)))
        \<lparr>w_store := recover_interrupted_dispatches (bn_env (se_bench S)) clk (w_store w)\<rparr>) executed)"
      by (simp add: quiescent_def hosts_def with_device_def)
  qed
  show "interleaves U S w (with_device w (snd (in_inspect inspector i (w_device w))))"
    if "se_inspector S = Some inspector" for inspector i
  proof (rule interleaves_step)
    fix executed assume "hosts U S"
    with process_step.Observes [of "Inspecting i" U "quiescent w executed" "snd (in_inspect inspector i (w_device w))"] that
    show "process_step U (quiescent w executed)
        (quiescent (with_device w (snd (in_inspect inspector i (w_device w)))) executed)"
      by (simp add: quiescent_def hosts_def with_device_def)
  qed
qed

text \<open>C20: Refinement: everything the service does, whatever its clients ask, however the turns of
  its tasks fall and wherever it is restarted, is a run of the interleaved threads in
  surroundings that allow what its backend, its inspector and its files do, so what holds of every
  interleaving holds of the service.\<close>

theorem service_interleaved:
  assumes "(service_step S bindings)\<^sup>*\<^sup>* s s'" "hosts U S"
  shows "\<exists>executed. (process_step U)\<^sup>*\<^sup>* (quiescent (svc_world s) []) (quiescent (svc_world s') executed)"
proof -
  have "interleaves U S (svc_world s) (svc_world s')" by (rule interleaved.respects_service [OF assms(1)])
  with assms(2) show ?thesis unfolding interleaves_def by (metis append_Nil)
qed

end
