(* ===== verification/Device_Service.thy ===== *)
theory Device_Service
  imports Service_Interleaving Backend_Evidence
begin

text \<open>
  The service as it is put together (\<open>open_api\<close> of \<open>src/main.rs\<close>): the supervisor and the
  artifact store with the \<open>DeviceBackend\<close> as their backend and as the inspector
  (\<open>src/service/backend/mod.rs\<close>, the implementations of \<open>Backend\<close> and
  \<open>InstrumentInspector\<close>; \<open>src/supervisor/mod.rs\<close>, \<open>ArtifactResolver\<close> for the artifact
  store). The device state is the state of the backend and the calls it has served; what the
  host shows to the \<open>n\<close>-th call is given by the environment.
\<close>

section \<open>State\<close>

text \<open>A call that was served. The supervisor and the service never look at these records;
  their number picks the occasion of the next call, and properties speak about them.\<close>

record device_call =
  dc_activity :: device_activity
  dc_occasion :: occasion
  dc_before :: backend_world
  dc_after :: backend_world

record plant =
  pl_backend :: backend_world
  pl_calls :: "device_call list"

record process_env =
  pe_time :: "nat \<Rightarrow> clock"
  pe_error_text :: "supervisor_error \<Rightarrow> string"
  pe_backend_error_text :: "backend_error \<Rightarrow> string"
  pe_occasion :: "nat \<Rightarrow> occasion"
  pe_lost :: backend_error
  pe_lost_text :: string
  pe_to_value :: "reported \<Rightarrow> string + json"
  pe_decode_base64 :: "string \<Rightarrow> string + u8 list"
  pe_encode_base64 :: "u8 list \<Rightarrow> string"

section \<open>The artifact store as a resolver\<close>

definition stored_artifact :: "backend_env \<Rightarrow> file_system \<Rightarrow> resolver" where
  "stored_artifact B files digest =
     (case fst (read_artifact (be_env B) (be_store B) digest files) of
        Inr bytes \<Rightarrow> Inr bytes
      | Inl (Failed e) \<Rightarrow> Inl (evidence_text (be_io_text B) e)
      | Inl Dropped \<Rightarrow> Inl [])"

section \<open>The backend of the service\<close>

definition serve_call ::
  "process_env \<Rightarrow> device_activity \<Rightarrow> (occasion \<Rightarrow> file_system \<Rightarrow> 'a backend) \<Rightarrow> plant
     \<Rightarrow> (backend_error stop + 'a) \<times> plant" where
  "serve_call P activity m d =
     (let oc = pe_occasion P (length (pl_calls d)); w = pl_backend d in
      case m oc (bw_files w) w of (r, w') \<Rightarrow>
        (r, \<lparr>pl_backend = w',
             pl_calls = pl_calls d @
               [\<lparr>dc_activity = activity, dc_occasion = oc, dc_before = w, dc_after = w'\<rparr>]\<rparr>))"

text \<open>A call that panics, or in which the process dies, is \<open>Dropped\<close>: it gives the supervisor no
  answer, and the attempt stays dispatched.\<close>

definition device_execute ::
  "backend_env \<Rightarrow> process_env \<Rightarrow> dispatch_request \<Rightarrow> plant \<Rightarrow> (backend_error stop + operation_receipt) \<times> plant" where
  "device_execute B P request =
     serve_call P (Executing request) (\<lambda>oc files. run B oc request (stored_artifact B files) False)"

definition device_reconcile ::
  "backend_env \<Rightarrow> process_env \<Rightarrow> dispatch_request \<Rightarrow> plant \<Rightarrow> (backend_error stop + operation_receipt) \<times> plant" where
  "device_reconcile B P request =
     serve_call P (Reconciling request) (\<lambda>oc files. run B oc request (stored_artifact B files) True)"

text \<open>\<open>InstrumentInspector\<close>: an error is its text, a panic fails the task.\<close>

definition device_inspect ::
  "backend_env \<Rightarrow> process_env \<Rightarrow> instrument_id \<Rightarrow> plant \<Rightarrow> (string + (string + observation)) \<times> plant" where
  "device_inspect B P i d =
     (case serve_call P (Inspecting i) (\<lambda>oc files. inspect B oc i) d of
        (r, d') \<Rightarrow>
          (case r of
             Inr obs \<Rightarrow> Inr (Inr obs)
           | Inl (Failed e) \<Rightarrow> Inr (Inl (pe_backend_error_text P e))
           | Inl Dropped \<Rightarrow> Inl (pe_lost_text P), d'))"

text \<open>The supervisor's operations are functions of the answer of a call. Where there is none the
  thread ends, and so does what it was doing; the service of whole requests and turns
  (\<open>service_step\<close>) has no steps for that, and takes \<open>lost\<close> for the missing answer, which leaves the
  attempt unknown as the next start would. The interleaved process of \<open>Service_Interleaving\<close> has
  the thread vanish instead.\<close>

fun answered :: "backend_error \<Rightarrow> backend_error stop + 'a \<Rightarrow> backend_error + 'a" where
  "answered lost (Inr x) = Inr x"
| "answered lost (Inl (Failed e)) = Inl e"
| "answered lost (Inl Dropped) = Inl lost"

definition device_bench :: "backend_env \<Rightarrow> process_env \<Rightarrow> plant bench" where
  "device_bench B P =
     \<lparr>bn_env = be_env B, bn_time = pe_time P, bn_error_text = pe_error_text P,
      bn_backend_error_text = pe_backend_error_text P,
      bn_resolve = (\<lambda>digest d. stored_artifact B (bw_files (pl_backend d)) digest),
      bn_verify_source = (\<lambda>digest attempt d. stored_source B digest attempt (bw_files (pl_backend d))),
      bn_preflight = (\<lambda>oper profile d.
        backend_preflight B oper profile (stored_artifact B (bw_files (pl_backend d)))),
      bn_execute = (\<lambda>request d. case device_execute B P request d of (r, d') \<Rightarrow> (answered (pe_lost P) r, d')),
      bn_reconcile = (\<lambda>request d. case device_reconcile B P request d of (r, d') \<Rightarrow> (answered (pe_lost P) r, d'))\<rparr>"

section \<open>The service\<close>

text \<open>The end of the process closes every connection; what was sent stays sent.\<close>

definition power_off :: "plant \<Rightarrow> plant" where
  "power_off d = d\<lparr>pl_backend := (pl_backend d)
     \<lparr>bw_connections := (\<lambda>_. None), bw_past := sent_to (pl_backend d)\<rparr>\<rparr>"

definition put_files :: "file_system \<Rightarrow> plant \<Rightarrow> plant" where
  "put_files files d = d\<lparr>pl_backend := (pl_backend d)\<lparr>bw_files := files\<rparr>\<rparr>"

definition device_service :: "backend_env \<Rightarrow> process_env \<Rightarrow> credential_binding list \<Rightarrow> plant service_env" where
  "device_service B P bindings =
     \<lparr>se_bench = device_bench B P, se_artifacts = be_store B,
      se_files = (\<lambda>d. bw_files (pl_backend d)), se_put_files = put_files, se_restart = power_off,
      se_inspector = Some \<lparr>in_inspect = device_inspect B P, in_inventory = inventory B\<rparr>,
      se_principals = configured_principals bindings, se_to_value = pe_to_value P,
      se_decode_base64 = pe_decode_base64 P, se_encode_base64 = pe_encode_base64 P\<rparr>"

section \<open>The process around its threads\<close>

text \<open>What a call may do to the devices is what the backend does on some occasion: whatever the
  instruments answer and the host and the disk do, ending early included. Others may leave any
  state of the files.\<close>

definition plant_call :: "backend_env \<Rightarrow> device_activity \<Rightarrow> plant \<Rightarrow> plant \<Rightarrow> bool" where
  "plant_call B activity d d' \<longleftrightarrow> (\<exists>P. d' =
     (case activity of
        Executing request \<Rightarrow> snd (device_execute B P request d)
      | Reconciling request \<Rightarrow> snd (device_reconcile B P request d)
      | Inspecting i \<Rightarrow> snd (device_inspect B P i d)))"

definition plant_surroundings :: "backend_env \<Rightarrow> plant surroundings" where
  "plant_surroundings B = \<lparr>su_env = be_env B, su_call = plant_call B,
     su_files = (\<lambda>d d'. \<exists>files. d' = put_files files d), su_restart = power_off\<rparr>"

end
