(* ===== verification/Device_Service_Safety.thy ===== *)
theory Device_Service_Safety
  imports Device_Service Bus_Operations
begin

text \<open>
  What the composed service does to the instruments, over every interleaving of its threads
  (\<open>Service_Interleaving\<close>) and wherever the process dies: everything an instrument is sent was
  sent by calls of the backend, every execution is the only one of an attempt of a reviewed plan
  and sends only what its operation is, and reconciling and inspecting only observe.
\<close>

section \<open>The frames of a backend call\<close>

text \<open>What a call may send to an instrument: the requests that identify it, and those of the operation.\<close>

definition operation_frame :: "device_env \<Rightarrow> device_binding \<Rightarrow> operation \<Rightarrow> bool \<Rightarrow> u8 list \<Rightarrow> bool" where
  "operation_frame D binding oper reconciling frame \<longleftrightarrow> identification D frame
     \<or> (case db_config binding of
          Bpio2Instrument _ \<Rightarrow> frame_of (de_codec D) (operation_packet binding oper reconciling) frame
        | NumatoInstrument c \<Rightarrow> relay_frame c oper reconciling frame
        | _ \<Rightarrow> False)"

definition appends :: "(u8 list \<Rightarrow> bool) \<Rightarrow> instrument_id \<Rightarrow> backend_world \<Rightarrow> backend_world \<Rightarrow> bool" where
  "appends P i w w' \<longleftrightarrow> (\<exists>frames. sent_to w' i = sent_to w i @ frames \<and> list_all P frames)"

lemma quiet_appends: "quiet P i w w' \<Longrightarrow> (\<And>f. P f \<Longrightarrow> Q f) \<Longrightarrow> appends Q i w w'"
  unfolding quiet_def appends_def by (metis list.pred_mono_strong)

interpretation appends: movement "appends P i" for P i
proof
  show "appends P i w w" for w by (simp add: appends_def)
  show "appends P i w w''" if "appends P i w w'" "appends P i w' w''" for w w' w''
    using that by (force simp: appends_def)
qed

lemma appends_operate:
  assumes "map_of (be_sessions B) i = Some binding" "session_ok B w i"
    and "operate B oc request artifacts reconciling i binding deadline observed w = (r, w')"
  shows "appends (operation_frame (be_device B) binding (dr_operation request) reconciling) i w w'"
proof (cases "bw_connections w i")
  case (Some c)
  with assms(1,2) have kind: "session_matches B w (db_config binding) c" using session_kind by blast
  show ?thesis
  proof (cases c)
    case (ConnectedBpio2 a)
    have "quiet (frame_of (de_codec (be_device B)) (operation_packet binding (dr_operation request) reconciling)) i w w'"
      using assms(3) Some ConnectedBpio2
      by (auto simp: operate_def Let_def intro: quiet_on_bpio2 [OF requests_operation])
    then show ?thesis using kind ConnectedBpio2
      by (elim quiet_appends, cases "db_config binding") (auto simp: operation_frame_def)
  next
    case (ConnectedNumato line)
    with kind obtain nc where nc: "db_config binding = NumatoInstrument nc" by (cases "db_config binding") auto
    have "quiet (relay_frame nc (dr_operation request) reconciling) i w w'"
      using assms(3) Some ConnectedNumato nc
      by (auto simp: operate_def Let_def intro: quiet_on_numato [OF sends_relay_operation])
    then show ?thesis by (rule quiet_appends) (simp add: operation_frame_def nc)
  qed (use assms(3) Some in \<open>auto simp: operate_def on_simulator_def put_simulator_def alift_def appends_def
      sent_to_def Let_def split: prod.splits\<close>)
qed (use assms in \<open>simp add: operate_def afail_def appends.stays Let_def\<close>)

lemma appends_access:
  assumes "map_of (be_sessions B) i = Some binding" "session_ok B w i"
    and "device_access B oc request artifacts reconciling i binding deadline w = (r, w')"
  shows "appends (operation_frame (be_device B) binding (dr_operation request) reconciling) i w w'"
proof -
  obtain r1 w1 where first: "identified B oc i binding w = (r1, w1)" by fastforce
  have start: "appends (operation_frame (be_device B) binding (dr_operation request) reconciling) i w w1"
    using movesD [OF quiet_identified first] by (rule quiet_appends) (simp add: operation_frame_def)
  show ?thesis
  proof (cases "\<exists>observed. r1 = Inr observed \<and> identity_rejection oc request i observed = None")
    case True
    then obtain observed where r1: "r1 = Inr observed" "identity_rejection oc request i observed = None" by blast
    obtain r2 w2 where ran: "operate B oc request artifacts reconciling i binding deadline observed w1 = (r2, w2)"
      by fastforce
    have "w' = w2"
      using assms(3) first r1 ran by (auto simp: device_access_def abind_def areturn_def split: sum.splits)
    moreover have "session_ok B w1 i" using identified_ok [OF assms(1,2) first] by blast
    ultimately show ?thesis using start appends_operate [OF assms(1) _ ran] by (blast intro: appends.goes_on)
  qed (use first start assms(3) in \<open>auto simp: device_access_def abind_def areturn_def split: sum.splits option.splits\<close>)
qed

lemma quiet_none: "quiet (\<lambda>_. False) i w w' \<Longrightarrow> sent_to w' j = sent_to w j"
  by (cases "j = i") (auto simp: quiet_def list_all_iff)

text \<open>What one run of the backend adds to what the instruments were sent.\<close>

lemma run_appends:
  assumes "sessions_ok B w" "run B oc request artifacts reconciling w = (r, w')"
  obtains frames where "sent_to w' i = sent_to w i @ frames"
    "frames \<noteq> [] \<Longrightarrow> \<exists>binding. op_instrument (dr_operation request) = Some i
       \<and> map_of (be_sessions B) i = Some binding
       \<and> list_all (operation_frame (be_device B) binding (dr_operation request) reconciling) frames
       \<and> (list_all (identification (be_device B)) frames \<or> reviewed_instrument B oc request i w)
       \<and> (reconciling \<longrightarrow> list_all (reconciling_frame (be_device B) (db_config binding)) frames)"
  using assms(2)
proof (cases rule: run_cases)
  case Files
  then have "sent_to w' i = sent_to w i @ []" using files_only_quiet quiet_none by fastforce
  then show thesis by (rule that) simp
next
  case (Access j binding configuration deadline)
  obtain r1 w1 where first: "device_access B oc request artifacts reconciling j binding deadline w = (r1, w1)"
    and after: "quiet (\<lambda>_. False) j w1 w'"
    using timed_access_after Access(9) by blast
  note gated = device_access_gated [OF Access(2-7) first]
  show thesis
  proof (cases "i = j")
    case False
    with gated have "sent_to w' i = sent_to w i @ []" by (simp add: others_def quiet_none [OF after])
    then show thesis by (rule that) simp
  next
    case True
    have ok: "session_ok B w j" using assms(1) by (simp add: sessions_ok_def)
    obtain frames where frames: "sent_to w1 j = sent_to w j @ frames"
      "list_all (operation_frame (be_device B) binding (dr_operation request) reconciling) frames"
      using appends_access [OF Access(2) ok first] by (auto simp: appends_def)
    have added: "list_all P frames" if "quiet P j w w1" for P
      using that frames(1) by (auto simp: quiet_def)
    have "sent_to w' i = sent_to w i @ frames" using frames(1) True by (simp add: quiet_none [OF after])
    moreover have "reconciling \<longrightarrow> list_all (reconciling_frame (be_device B) (db_config binding)) frames"
    proof
      assume reconciling
      with first have "device_access B oc request artifacts True j binding deadline w = (r1, w1)" by simp
      from added [OF reconciling_access [OF Access(2) ok this]]
      show "list_all (reconciling_frame (be_device B) (db_config binding)) frames" .
    qed
    ultimately show thesis using Access(1,2) frames(2) gated added True by (intro that) auto
  qed
qed

lemma inspect_appends:
  assumes "inspect B oc j w = (r, w')"
  obtains frames where "sent_to w' i = sent_to w i @ frames"
    "frames \<noteq> [] \<Longrightarrow> i = j \<and> list_all (identification (be_device B)) frames"
proof -
  have "quiet (identification (be_device B)) j w w'"
  proof (cases "\<exists>binding. session B j = Inr binding \<and> oc_lock oc = Inr ()")
    case True
    then obtain binding where binding: "session B j = Inr binding" "oc_lock oc = Inr ()" by blast
    obtain r1 w1 where first: "identified B oc j binding w = (r1, w1)" by fastforce
    then have start: "quiet (identification (be_device B)) j w w1" by (rule movesD [OF quiet_identified])
    show ?thesis
    proof (cases r1)
      case (Inl e)
      with assms binding first have "w' = discard j w1"
        by (cases e) (auto simp: inspect_def abind_def alift_def)
      with start quiet_discard show ?thesis by (metis quiet.goes_on)
    next
      case (Inr obs)
      have "moves (quiet (identification (be_device B)) j) (abind (publish_bytes B (FromCommissioning j) (be_observation_bytes B obs))
          (\<lambda>evidence. areturn (obs\<lparr>obs_evidence := Some evidence\<rparr>)))"
        by (intro quiet.moves_intros quiet_publish_bytes)
      moreover have "abind (publish_bytes B (FromCommissioning j) (be_observation_bytes B obs))
          (\<lambda>evidence. areturn (obs\<lparr>obs_evidence := Some evidence\<rparr>)) w1 = (r, w')"
        using assms binding first Inr by (auto simp: inspect_def abind_def alift_def)
      ultimately show ?thesis using start by (blast intro: quiet.goes_on dest: movesD)
    qed
  next
    case False
    with assms have "w' = w" by (auto simp: inspect_def abind_def alift_def split: sum.splits)
    then show ?thesis by (simp add: quiet.stays)
  qed
  then obtain frames where sent: "sent_to w' j = sent_to w j @ frames"
      "list_all (identification (be_device B)) frames" "i \<noteq> j \<Longrightarrow> sent_to w' i = sent_to w i"
    unfolding quiet_def by blast
  show thesis
  proof (cases "i = j")
    case True
    with sent that show thesis by simp
  next
    case False
    with sent(3) have "sent_to w' i = sent_to w i @ []" by simp
    then show thesis by (rule that) simp
  qed
qed

section \<open>The composed service\<close>

definition call_sent :: "instrument_id \<Rightarrow> device_call \<Rightarrow> u8 list list" where
  "call_sent i c = drop (length (sent_to (dc_before c) i)) (sent_to (dc_after c) i)"

text \<open>The attempts the backend was asked to execute.\<close>

definition executions :: "device_call list \<Rightarrow> attempt_id list" where
  "executions calls = concat (map (\<lambda>c. case dc_activity c of
     Executing request \<Rightarrow> [dr_attempt request] | _ \<Rightarrow> []) calls)"

text \<open>What a call may do, by its kind.\<close>

definition lawful :: "backend_env \<Rightarrow> store \<Rightarrow> device_call \<Rightarrow> bool" where
  "lawful B s c \<longleftrightarrow> (case dc_activity c of
     Executing request \<Rightarrow> planned_attempt (be_env B) s request \<and>
       (\<forall>i. call_sent i c \<noteq> [] \<longrightarrow> (\<exists>binding.
          op_instrument (dr_operation request) = Some i \<and> map_of (be_sessions B) i = Some binding
          \<and> list_all (operation_frame (be_device B) binding (dr_operation request) False) (call_sent i c)
          \<and> (list_all (identification (be_device B)) (call_sent i c)
             \<or> reviewed_instrument B (dc_occasion c) request i (dc_before c))))
   | Reconciling request \<Rightarrow>
       (\<forall>i. call_sent i c \<noteq> [] \<longrightarrow> (\<exists>binding.
          op_instrument (dr_operation request) = Some i \<and> map_of (be_sessions B) i = Some binding
          \<and> list_all (reconciling_frame (be_device B) (db_config binding)) (call_sent i c)))
   | Inspecting j \<Rightarrow>
       (\<forall>i. call_sent i c \<noteq> [] \<longrightarrow> i = j \<and> list_all (identification (be_device B)) (call_sent i c)))"

lemma lawful_later:
  assumes "wf_store s" "(journal_step (be_env B))\<^sup>*\<^sup>* s t" "lawful B s c"
  shows "lawful B t c"
  using planned_later [OF assms(1,2)] assms(3) by (auto simp: lawful_def split: device_activity.splits)

text \<open>What every step keeps.\<close>

definition plant_sound :: "backend_env \<Rightarrow> plant process \<Rightarrow> bool" where
  "plant_sound B p \<longleftrightarrow> sessions_ok B (pl_backend (ps_device p))
     \<and> (\<forall>i. sent_to (pl_backend (ps_device p)) i = concat (map (call_sent i) (pl_calls (ps_device p))))
     \<and> list_all (lawful B (ps_store p)) (pl_calls (ps_device p))
     \<and> executions (pl_calls (ps_device p)) = map dr_attempt (ps_executed p)"

lemma lawful_calls_later:
  assumes "plant_sound B p" "wf_store (ps_store p)" "(journal_step (be_env B))\<^sup>*\<^sup>* (ps_store p) s"
  shows "list_all (lawful B s) (pl_calls (ps_device p))"
  using assms lawful_later [OF assms(2,3)] by (simp add: plant_sound_def list_all_iff)

text \<open>Nothing is sent and no call is served.\<close>

lemma plant_kept:
  assumes "plant_sound B p" "wf_store (ps_store p)" "(journal_step (be_env B))\<^sup>*\<^sup>* (ps_store p) (ps_store p')"
    and "pl_calls (ps_device p') = pl_calls (ps_device p)" "sessions_ok B (pl_backend (ps_device p'))"
    and "\<And>i. sent_to (pl_backend (ps_device p')) i = sent_to (pl_backend (ps_device p)) i"
    and "ps_executed p' = ps_executed p"
  shows "plant_sound B p'"
  using lawful_calls_later [OF assms(1-3)] assms(1,4-7) by (simp add: plant_sound_def)

lemma executions_simps [simp]:
  "executions [] = []"
  "executions (calls @ [c]) = executions calls @
     (case dc_activity c of Executing request \<Rightarrow> [dr_attempt request] | _ \<Rightarrow> [])"
  by (simp_all add: executions_def)

text \<open>One call is served.\<close>

lemma plant_served:
  assumes "plant_sound B p" "ps_store p' = ps_store p"
    and "ps_device p' = \<lparr>pl_backend = after, pl_calls = pl_calls (ps_device p) @ [c]\<rparr>"
    and "dc_before c = pl_backend (ps_device p)" "dc_after c = after"
    and "\<And>i. \<exists>frames. sent_to after i = sent_to (pl_backend (ps_device p)) i @ frames"
    and "sessions_ok B after" "lawful B (ps_store p) c"
    and "map dr_attempt (ps_executed p') = map dr_attempt (ps_executed p) @
       (case dc_activity c of Executing request \<Rightarrow> [dr_attempt request] | _ \<Rightarrow> [])"
  shows "plant_sound B p'"
proof -
  have "sent_to after i = sent_to (pl_backend (ps_device p)) i @ call_sent i c" for i
    using assms(6) [of i] assms(4,5) by (auto simp: call_sent_def)
  with assms(1-3,7-9) show ?thesis by (simp add: plant_sound_def)
qed

text \<open>The call that serves a run.\<close>

lemma served_run:
  assumes "d' = snd (serve_call P activity (\<lambda>oc files. run B oc request (artifacts files) reconciling) d)"
  obtains r oc files w' where "run B oc request (artifacts files) reconciling (pl_backend d) = (r, w')"
    "d' = \<lparr>pl_backend = w', pl_calls = pl_calls d @ [\<lparr>dc_activity = activity, dc_occasion = oc,
       dc_before = pl_backend d, dc_after = w'\<rparr>]\<rparr>"
  using assms by (auto simp: serve_call_def Let_def split: prod.splits)

lemma snd_inspect:
  "snd (device_inspect B P i d) = snd (serve_call P (Inspecting i) (\<lambda>oc files. inspect B oc i) d)"
  by (simp add: device_inspect_def split_def)

lemma lawful_run:
  assumes "sessions_ok B w" "run B oc request artifacts reconciling w = (r, w')"
    and "\<not> reconciling \<Longrightarrow> planned_attempt (be_env B) s request"
  shows "lawful B s \<lparr>dc_activity = (if reconciling then Reconciling request else Executing request),
    dc_occasion = oc, dc_before = w, dc_after = w'\<rparr>" (is "lawful B s ?c")
proof -
  have "\<exists>binding. op_instrument (dr_operation request) = Some i \<and> map_of (be_sessions B) i = Some binding
       \<and> list_all (operation_frame (be_device B) binding (dr_operation request) reconciling) (call_sent i ?c)
       \<and> (list_all (identification (be_device B)) (call_sent i ?c) \<or> reviewed_instrument B oc request i w)
       \<and> (reconciling \<longrightarrow> list_all (reconciling_frame (be_device B) (db_config binding)) (call_sent i ?c))"
    if "call_sent i ?c \<noteq> []" for i
    by (rule run_appends [OF assms(1,2), of i]) (use that in \<open>simp add: call_sent_def\<close>)
  with assms(3) show ?thesis by (cases reconciling) (auto simp: lawful_def)
qed

lemma executing_sound:
  assumes "separate B" "plant_sound B p" "plant_call B (Executing request) (ps_device p) d"
    and "planned_attempt (be_env B) (ps_store p) request"
    and "ps_store p' = ps_store p" "ps_device p' = d" "ps_executed p' = ps_executed p @ [request]"
  shows "plant_sound B p'"
proof -
  from assms(3) obtain P where "d = snd (serve_call P (Executing request)
      (\<lambda>oc files. run B oc request (stored_artifact B files) False) (ps_device p))"
    by (auto simp: plant_call_def device_execute_def)
  then obtain r oc files v where ran:
    "run B oc request (stored_artifact B files) False (pl_backend (ps_device p)) = (r, v)"
    "d = \<lparr>pl_backend = v, pl_calls = pl_calls (ps_device p) @ [\<lparr>dc_activity = Executing request,
       dc_occasion = oc, dc_before = pl_backend (ps_device p), dc_after = v\<rparr>]\<rparr>"
    by (rule served_run)
  have ok: "sessions_ok B (pl_backend (ps_device p))" using assms(2) by (simp add: plant_sound_def)
  show ?thesis
  proof (rule plant_served [OF assms(2,5)])
    show "\<exists>frames. sent_to v i = sent_to (pl_backend (ps_device p)) i @ frames" for i
      by (rule run_appends [OF ok ran(1), of i]) blast
    show "sessions_ok B v" using run_ok [OF assms(1) ok ran(1)] .
    show "lawful B (ps_store p) \<lparr>dc_activity = Executing request, dc_occasion = oc,
        dc_before = pl_backend (ps_device p), dc_after = v\<rparr>"
      using lawful_run [OF ok ran(1), of "ps_store p"] assms(4) by simp
  qed (simp_all add: assms(6,7) ran(2))
qed

lemma reconciling_sound:
  assumes "separate B" "plant_sound B p" "plant_call B (Reconciling request) (ps_device p) d"
    and "ps_store p' = ps_store p" "ps_device p' = d" "ps_executed p' = ps_executed p"
  shows "plant_sound B p'"
proof -
  from assms(3) obtain P where "d = snd (serve_call P (Reconciling request)
      (\<lambda>oc files. run B oc request (stored_artifact B files) True) (ps_device p))"
    by (auto simp: plant_call_def device_reconcile_def)
  then obtain r oc files v where ran:
    "run B oc request (stored_artifact B files) True (pl_backend (ps_device p)) = (r, v)"
    "d = \<lparr>pl_backend = v, pl_calls = pl_calls (ps_device p) @ [\<lparr>dc_activity = Reconciling request,
       dc_occasion = oc, dc_before = pl_backend (ps_device p), dc_after = v\<rparr>]\<rparr>"
    by (rule served_run)
  have ok: "sessions_ok B (pl_backend (ps_device p))" using assms(2) by (simp add: plant_sound_def)
  show ?thesis
  proof (rule plant_served [OF assms(2,4)])
    show "\<exists>frames. sent_to v i = sent_to (pl_backend (ps_device p)) i @ frames" for i
      by (rule run_appends [OF ok ran(1), of i]) blast
    show "sessions_ok B v" using run_ok [OF assms(1) ok ran(1)] .
    show "lawful B (ps_store p) \<lparr>dc_activity = Reconciling request, dc_occasion = oc,
        dc_before = pl_backend (ps_device p), dc_after = v\<rparr>"
      using lawful_run [OF ok ran(1), of "ps_store p"] by simp
  qed (simp_all add: assms(5,6) ran(2))
qed

lemma inspecting_sound:
  assumes "separate B" "plant_sound B p" "plant_call B (Inspecting j) (ps_device p) d"
    and "ps_store p' = ps_store p" "ps_device p' = d" "ps_executed p' = ps_executed p"
  shows "plant_sound B p'"
proof -
  from assms(3) obtain P where served: "d = snd (serve_call P (Inspecting j) (\<lambda>oc files. inspect B oc j) (ps_device p))"
    by (auto simp: plant_call_def snd_inspect)
  obtain r v where "inspect B (pe_occasion P (length (pl_calls (ps_device p)))) j (pl_backend (ps_device p)) = (r, v)"
    by fastforce
  with served obtain oc where ran: "inspect B oc j (pl_backend (ps_device p)) = (r, v)"
    and d: "d = \<lparr>pl_backend = v, pl_calls = pl_calls (ps_device p) @ [\<lparr>dc_activity = Inspecting j,
       dc_occasion = oc, dc_before = pl_backend (ps_device p), dc_after = v\<rparr>]\<rparr>"
    by (auto simp: serve_call_def Let_def)
  let ?c = "\<lparr>dc_activity = Inspecting j, dc_occasion = oc, dc_before = pl_backend (ps_device p), dc_after = v\<rparr>"
  have ok: "sessions_ok B (pl_backend (ps_device p))" using assms(2) by (simp add: plant_sound_def)
  have sent: "\<exists>frames. sent_to v i = sent_to (pl_backend (ps_device p)) i @ frames
      \<and> (frames \<noteq> [] \<longrightarrow> i = j \<and> list_all (identification (be_device B)) frames)" for i
    by (rule inspect_appends [OF ran, of i]) blast
  show ?thesis
  proof (rule plant_served [OF assms(2,4)])
    show "\<exists>frames. sent_to v i = sent_to (pl_backend (ps_device p)) i @ frames" for i using sent [of i] by blast
    show "sessions_ok B v" using inspect_ok [OF assms(1) ok ran] .
    have "i = j \<and> list_all (identification (be_device B)) (call_sent i ?c)" if "call_sent i ?c \<noteq> []" for i
      using sent [of i] that by (auto simp: call_sent_def)
    then show "lawful B (ps_store p) ?c" by (simp add: lawful_def)
  qed (simp_all add: assms(5,6) d)
qed

lemma sent_to_off [simp]: "sent_to (pl_backend (power_off d)) i = sent_to (pl_backend d) i"
  by (simp add: power_off_def sent_to_def)

lemma sessions_ok_off [simp]: "sessions_ok B (pl_backend (power_off d))"
  by (simp add: power_off_def sessions_ok_def session_ok_def)

lemma put_files_simps [simp]:
  "pl_calls (put_files files d) = pl_calls d" "pl_calls (power_off d) = pl_calls d"
  "sent_to (pl_backend (put_files files d)) i = sent_to (pl_backend d) i"
  by (simp_all add: put_files_def power_off_def sent_to_def)

lemma sessions_ok_files [simp]: "sessions_ok B (pl_backend (put_files files d)) = sessions_ok B (pl_backend d)"
proof -
  have "files_only (pl_backend d) (pl_backend (put_files files d))" by (simp add: put_files_def files_only_def)
  from files_only_ok [OF this] show ?thesis by (simp add: sessions_ok_def)
qed

text \<open>Every step of the threads keeps both invariants: of the threads, and of the devices.\<close>

lemma plant_surroundings_simps [simp]:
  "su_env (plant_surroundings B) = be_env B" "su_call (plant_surroundings B) = plant_call B"
  "su_files (plant_surroundings B) d d' \<longleftrightarrow> (\<exists>files. d' = put_files files d)"
  "su_restart (plant_surroundings B) = power_off"
  by (simp_all add: plant_surroundings_def)

lemma plant_step_sound:
  assumes "process_step (plant_surroundings B) p p'" "separate B" "process_sound (be_env B) s p" "plant_sound B p"
  shows "plant_sound B p'"
  using assms
proof (induction rule: process_step.induct)
  case (Transacts p t)
  note wf = process_wf [OF Transacts(3)]
  from Transacts wf show ?case by (intro plant_kept [OF Transacts(4) wf]) (auto simp: plant_sound_def)
next
  case (Files p d)
  then show ?case by (intro plant_kept [OF Files(4) process_wf [OF Files(3)]]) (auto simp: plant_sound_def)
next
  case (Claims clk i who p claimed t)
  note wf = process_wf [OF Claims(3)]
  from Claims(1) have "journal_step (be_env B) (ps_store p) t" by (auto intro: dispatched)
  with Claims(4) show ?case by (intro plant_kept [OF Claims(4) wf]) (auto simp: plant_sound_def)
next
  case (Prepares p before claimed after dispatch expiry)
  then show ?case by (simp add: plant_sound_def)
next
  case (Refuses p before claimed after clk why a t)
  note wf = process_wf [OF Refuses(4)]
  have "journal_step (be_env B) (ps_store p) t" using receipt_recorded [OF _ Refuses(2)] by simp
  with Refuses(5) show ?case by (intro plant_kept [OF Refuses(5) wf]) (auto simp: plant_sound_def)
next
  case (Executes p before claimed dispatch after d)
  then have "planned_attempt (be_env B) (ps_store p) dispatch" by (simp add: process_sound_def)
  with Executes show ?case
    by (intro executing_sound [OF Executes(3,5)]) simp_all
next
  case (Settles p before claimed after clk receipt a t)
  note wf = process_wf [OF Settles(4)]
  have "journal_step (su_env (plant_surroundings B)) (ps_store p) t"
    using receipt_recorded [OF _ Settles(2)] release_only_resolved unfolding releases_def by blast
  with Settles(5) show ?case by (intro plant_kept [OF Settles(5) wf]) (auto simp: plant_sound_def)
next
  case (Vanishes p before thread after)
  then show ?case by (simp add: plant_sound_def)
next
  case (Observes activity p d)
  then show ?case
    by (cases activity)
      (auto intro: reconciling_sound [OF Observes(3,5)] inspecting_sound [OF Observes(3,5)])
next
  case (Restarts p clk)
  then show ?case
    by (intro plant_kept [OF Restarts(3) process_wf [OF Restarts(2)]]) (auto simp: plant_sound_def intro: reopened)
qed

lemma plant_run_sound:
  assumes "(process_step (plant_surroundings B))\<^sup>*\<^sup>* p p'" "separate B" "process_sound (be_env B) s p" "plant_sound B p"
  shows "process_sound (be_env B) s p' \<and> plant_sound B p'"
  using assms(1)
proof (induction rule: rtranclp_induct)
  case (step p1 p2)
  then have "process_sound (be_env B) s p2"
    using process_step_sound [OF step(2)] by simp
  moreover have "plant_sound B p2" using plant_step_sound [OF step(2) assms(2)] step(3) by blast
  ultimately show ?case ..
qed (simp add: assms(3,4))

text \<open>The composed service runs in these surroundings.\<close>

lemma device_hosted: "hosts (plant_surroundings B) (device_service B P bindings)"
  by (auto simp: hosts_def device_service_def device_bench_def plant_call_def split_def
      intro!: exI [of _ P])

section \<open>Everything the instruments are sent\<close>

text \<open>C1: However the threads of the service interleave, whatever the instruments, the host
  and the disk answer, and wherever the process dies, inside a call of the backend or between its
  claim and its receipt, and starts again, from any reachable journal and closed connections: what an
  instrument has been sent is exactly what the served calls sent it; every execution is of an
  admissible operation of a reviewed plan that the journal holds, whose attempt is durably past its
  intent; it reached only the instrument of the operation, which before anything but its
  identification had been observed to be the reviewed one, and sent it only frames of that
  operation; no attempt was executed twice, and none that was already past its intent when the
  run began; and reconciling and inspecting sent nothing but observing requests.\<close>

theorem instruments_driven_by_reviewed_plans:
  assumes "backend_open B0 instruments = Inr B" "(process_step (plant_surroundings B))\<^sup>*\<^sup>* p p'"
    and "reachable (be_env B) (ps_store p)" "ps_threads p = []" "ps_executed p = []" "pl_calls (ps_device p) = []"
    and "bw_connections (pl_backend (ps_device p)) = (\<lambda>_. None)" "bw_past (pl_backend (ps_device p)) = (\<lambda>_. [])"
  shows "(\<forall>i. sent_to (pl_backend (ps_device p')) i = concat (map (call_sent i) (pl_calls (ps_device p'))))
    \<and> list_all (lawful B (ps_store p')) (pl_calls (ps_device p'))
    \<and> distinct (executions (pl_calls (ps_device p')))
    \<and> list_all (\<lambda>i. \<not> past_intent (ps_store p) i) (executions (pl_calls (ps_device p')))"
proof -
  have "process_sound (be_env B) (ps_store p) p"
    using assms(4,5) reachable_wf [OF assms(3)] by (simp add: process_sound_def)
  moreover have "plant_sound B p"
    using assms(5-8) by (simp add: plant_sound_def sessions_ok_def session_ok_def sent_to_def)
  ultimately have "process_sound (be_env B) (ps_store p) p' \<and> plant_sound B p'"
    using plant_run_sound [OF assms(2) opened_separate [OF assms(1)]] by blast
  then show ?thesis by (simp add: process_sound_def plant_sound_def list_all_iff)
qed

end
