(* ===== verification/Device_Examples.thy ===== *)
theory Device_Examples
  imports Device_Service_Safety Backend_Examples Service_Examples
begin

text \<open>
  An execution that is cut off: the attempt of the example journal is claimed, its write reaches
  the simulator, and the process dies before the receipt is recorded. At the next start the
  attempt is unknown.
\<close>

section \<open>The threads\<close>

definition ex_cut_off :: store where
  "ex_cut_off = recover_interrupted_dispatches ex_env ex_clock ex_flight"

lemma ex_cut_off_unknown: "\<exists>a. load_attempt ex_cut_off ex_attempt_id = Some a \<and> at_state a = Unknown"
  by (simp add: ex_cut_off_def recover_interrupted_dispatches_def interrupt_attempt_def load_attempt_def
      ex_flight_def ex_paid_claim_def ex_submitted_def ex_step_def ex_attempt_def ex_base_def empty_store_def)

lemma ex_submitted_reachable: "reachable ex_env ex_submitted"
  by (rule reachable.stepped [OF ex_base_reachable], rule journal_step.reserved [OF _ _ ex_reserve_step])
    (simp_all add: ex_step_def ex_attempt_def)

definition ex_dispatch :: dispatch_request where
  "ex_dispatch = (dispatch_request_for (cd_attempt ex_paid_claim) ex_profile ex_operation ex_digest Execution True)
     \<lparr>dr_interlocks_valid_until := None\<rparr>"

lemma ex_snapshot_dispatch:
  "\<exists>dispatch. dispatch_from_snapshot ex_env (cd_attempt ex_paid_claim) (cd_grant ex_paid_claim) (cd_profile ex_paid_claim)
     (cd_plan ex_paid_claim) Execution = Inr dispatch \<and> dispatch\<lparr>dr_interlocks_valid_until := None\<rparr> = ex_dispatch"
proof -
  have "authorize ex_env ex_paid ex_profile ex_plan ex_operation = Inr ()"
    by (rule ex_authorize_any) (simp_all add: ex_paid_def ex_grant_def)
  then show ?thesis
    by (simp add: dispatch_from_snapshot_def operation_at_def ex_paid_claim_def ex_step_def ex_attempt_def
        ex_dispatch_def) (simp add: ex_plan_def)
qed

lemma ex_interrupted_run:
  assumes "su_env U = ex_env" "su_call U (Executing ex_dispatch) d d'"
  shows "(process_step U)\<^sup>*\<^sup>* \<lparr>ps_store = ex_submitted, ps_device = d, ps_threads = [], ps_executed = []\<rparr>
    \<lparr>ps_store = ex_cut_off, ps_device = su_restart U d', ps_threads = [], ps_executed = [ex_dispatch]\<rparr>"
proof -
  let ?p = "\<lambda>s d threads log. \<lparr>ps_store = s, ps_device = d, ps_threads = threads, ps_executed = log\<rparr>"
  obtain dispatch where dispatch: "dispatch_from_snapshot ex_env (cd_attempt ex_paid_claim) (cd_grant ex_paid_claim)
      (cd_profile ex_paid_claim) (cd_plan ex_paid_claim) Execution = Inr dispatch"
    "dispatch\<lparr>dr_interlocks_valid_until := None\<rparr> = ex_dispatch" using ex_snapshot_dispatch by blast
  have steps: "process_step U (?p ex_submitted d [] []) (?p ex_flight d [Dispatching ex_paid_claim] [])"
    "process_step U (?p ex_flight d [Dispatching ex_paid_claim] []) (?p ex_flight d [Ready ex_paid_claim ex_dispatch] [])"
    "process_step U (?p ex_flight d [Ready ex_paid_claim ex_dispatch] [])
       (?p ex_flight d' [Settling ex_paid_claim] [ex_dispatch])"
    "process_step U (?p ex_flight d' [Settling ex_paid_claim] [ex_dispatch])
       (?p ex_cut_off (su_restart U d') [] [ex_dispatch])"
    using process_step.Claims [of U ex_clock ex_attempt_id ex_agent "?p ex_submitted d [] []"]
      process_step.Prepares [of "?p ex_flight d [Dispatching ex_paid_claim] []" "[]" ex_paid_claim "[]" U dispatch None]
      process_step.Executes [of "?p ex_flight d [Ready ex_paid_claim ex_dispatch] []" "[]" ex_paid_claim ex_dispatch "[]" U d']
      process_step.Restarts [of U "?p ex_flight d' [Settling ex_paid_claim] [ex_dispatch]" ex_clock]
      assms dispatch ex_claim_step by (simp_all add: ex_cut_off_def)
  show ?thesis by (rule converse_rtranclp_into_rtranclp, rule steps)+ (rule rtranclp.rtrancl_refl)
qed

definition ex_surroundings :: "nat surroundings" where
  "ex_surroundings = \<lparr>su_env = ex_env, su_call = (\<lambda>_ n m. m = Suc n), su_files = (\<lambda>n m. m = n), su_restart = id\<rparr>"

lemma interleaved_executes_once_witness:
  "\<exists>p. (process_step ex_surroundings)\<^sup>*\<^sup>*
       \<lparr>ps_store = ex_submitted, ps_device = 0, ps_threads = [], ps_executed = []\<rparr> p
     \<and> ps_device p = 1 \<and> ps_executed p = [ex_dispatch] \<and> planned_attempt ex_env (ps_store p) ex_dispatch
     \<and> (\<exists>a. load_attempt (ps_store p) (dr_attempt ex_dispatch) = Some a \<and> at_state a = Unknown)"
proof -
  let ?start = "\<lparr>ps_store = ex_submitted, ps_device = 0, ps_threads = [], ps_executed = []\<rparr> :: nat process"
  let ?ended = "\<lparr>ps_store = ex_cut_off, ps_device = 1, ps_threads = [], ps_executed = [ex_dispatch]\<rparr> :: nat process"
  have run: "(process_step ex_surroundings)\<^sup>*\<^sup>* ?start ?ended"
    using ex_interrupted_run [of ex_surroundings 0 1] by (simp add: ex_surroundings_def)
  have "reachable (su_env ex_surroundings) (ps_store ?start)"
    using ex_submitted_reachable by (simp add: ex_surroundings_def)
  from interleaved_executes_once [OF run this] have "planned_attempt ex_env ex_cut_off ex_dispatch"
    by (simp add: ex_surroundings_def)
  moreover have "dr_attempt ex_dispatch = ex_attempt_id"
    by (simp add: ex_dispatch_def dispatch_request_for_def ex_paid_claim_def ex_step_def ex_attempt_def)
  ultimately show ?thesis using run ex_cut_off_unknown by (intro exI [of _ ?ended]) simp
qed

text \<open>A turn of a task whose execution reaches the backend, and its threads.\<close>

definition ex_hosting :: "(nat \<times> attempt_id list) surroundings" where
  "ex_hosting = \<lparr>su_env = ex_env,
     su_call = (\<lambda>activity d d'. case activity of
         Executing request \<Rightarrow> d' = snd (bn_execute ex_logged request d)
       | Reconciling request \<Rightarrow> d' = snd (bn_reconcile ex_logged request d)
       | Inspecting i \<Rightarrow> False),
     su_files = (\<lambda>d d'. d' = d), su_restart = id\<rparr>"

lemma ex_hosts: "hosts ex_hosting ex_logged_service"
  by (simp add: hosts_def ex_hosting_def ex_logged_service_def ex_service_env_def)

definition ex_tasked :: "(nat \<times> attempt_id list) service" where
  "ex_tasked = \<lparr>svc_world = ex_world ex_submitted (0, []) 0,
     svc_tasks = [(ex_agent_principal, first_ticket (RequestId ''run'') ex_grant_id ex_plan_id ex_attempt_id 0)]\<rparr>"

lemma ex_turn:
  "run_task ex_logged_service 0 ex_tasked = \<lparr>svc_world = ex_world ex_settled (1, [ex_attempt_id]) 3, svc_tasks = []\<rparr>"
proof -
  have "at_state (hd (st_attempts ex_settled)) = Completed" by (simp add: ex_settled_def)
  moreover have "st_runs ex_settled (RequestId ''run'') = None"
    by (simp add: ex_settled_def ex_submitted_def ex_base_def empty_store_def)
  ultimately show ?thesis
    using ex_execute [of 0 "[]" 0]
    by (simp add: run_task_def ex_tasked_def ex_service_simps execute_next_def sv_defs first_ticket_def
        advance_run_def ok_or_def rbind_def ex_world_def)
qed

lemma service_interleaved_witness:
  "\<exists>executed. (process_step ex_hosting)\<^sup>*\<^sup>* (quiescent (ex_world ex_submitted (0, []) 0) [])
     (quiescent (ex_world ex_settled (1, [ex_attempt_id]) 3) executed)"
proof -
  have "service_step ex_logged_service ex_bindings ex_tasked (run_task ex_logged_service 0 ex_tasked)"
    by (rule service_step.Worked) (simp add: ex_tasked_def)
  then have "(service_step ex_logged_service ex_bindings)\<^sup>*\<^sup>* ex_tasked
      \<lparr>svc_world = ex_world ex_settled (1, [ex_attempt_id]) 3, svc_tasks = []\<rparr>"
    unfolding ex_turn by (rule r_into_rtranclp)
  from service_interleaved [OF this ex_hosts] show ?thesis by (simp add: ex_tasked_def)
qed

section \<open>The instrument\<close>

definition ex_bench_backend :: backend_env where
  "ex_bench_backend = ex_backend_env\<lparr>be_device := ex_device_env\<lparr>de_env := ex_env\<rparr>,
     be_sessions := [(ex_instrument, ex_simulator_binding)]\<rparr>"

lemma ex_flash_bench_simps [simp]:
  "be_env ex_bench_backend = ex_env" "be_device ex_bench_backend = ex_device_env\<lparr>de_env := ex_env\<rparr>"
  "be_store ex_bench_backend = ex_store" "be_sessions ex_bench_backend = [(ex_instrument, ex_simulator_binding)]"
  "be_binding_bytes ex_bench_backend = (\<lambda>_. Inr [1])" "be_value_bytes ex_bench_backend = (\<lambda>_. Inr [2])"
  by (simp_all add: ex_bench_backend_def be_env_def ex_backend_env_def)

lemma ex_all_digests: "artifact_sha256 (env_sha256_hex ex_env) bytes = ex_digest" "text_digest ex_env t = ex_digest"
  "key_digest ex_env t = ex_digest" "de_sha256 (ex_device_env\<lparr>de_env := ex_env\<rparr>) bytes = ex_digest"
  by (simp_all add: artifact_sha256_def text_digest_def key_digest_def de_sha256_def ex_env_def ex_digest_def)

lemma ex_bench_opened: "backend_open ex_bench_backend [(ex_instrument, ex_simulator_binding)] = Inr ex_bench_backend"
proof -
  have "ex_bench_backend\<lparr>be_sessions := [(ex_instrument, ex_simulator_binding)]\<rparr> = ex_bench_backend"
    by (simp add: ex_bench_backend_def)
  then show ?thesis
    by (simp add: backend_open_def ex_configs_valid validate_unique_physical_identities_def ex_configured Let_def)
qed

text \<open>A disk that holds the reviewed bytes of the write, and on which the process dies in the sixth call.\<close>

definition ex_loaded_disk :: file_system where
  "ex_loaded_disk = ex_empty_disk\<lparr>fs_nodes := [[''data''] \<mapsto> Directory, [''data'', ''sha256''] \<mapsto> Directory,
     [''data'', ''sha256'', ''d''] \<mapsto> Directory, [''data'', ''sha256'', ''d'', []] \<mapsto> RegularFile [1, 2, 3, 4]],
     fs_script := replicate 5 Works @ [Crashes 0]\<rparr>"

definition ex_loaded_world :: backend_world where
  "ex_loaded_world = ex_blank_world\<lparr>bw_files := ex_loaded_disk\<rparr>"

lemma ex_flash_source: "stored_artifact ex_bench_backend ex_loaded_disk ex_digest = Inr [1, 2, 3, 4]"
proof -
  have "on_disk (as_root ex_store) ex_loaded_disk [''sha256'', ''d'', []] (RegularFile [1, 2, 3, 4])"
    by (auto simp: on_disk_def placed_def ex_store_def ex_loaded_disk_def ex_empty_disk_def take_Cons
        split: nat.splits)
  moreover have "digest_components ex_digest = (''d'', [])" by (simp add: digest_components_def ex_digest_def)
  moreover have "fs_script ex_loaded_disk = replicate 5 Works @ [Crashes 0]" by (simp add: ex_loaded_disk_def)
  ultimately have "read_artifact ex_env ex_store ex_digest ex_loaded_disk
      = (Inr [1, 2, 3, 4], ex_loaded_disk\<lparr>fs_script := [Crashes 0]\<rparr>)"
    by (intro read_artifact_works) (simp_all add: ex_all_digests)
  then show ?thesis by (simp add: stored_artifact_def)
qed

definition ex_programmed :: simulator where
  "ex_programmed = snd (write_flash (Inr ()) 0 [1, 2, 3, 4] ex_blank_simulator)"

lemma ex_programs:
  "write_flash (Inr ()) 0 [1, 2, 3, 4] ex_blank_simulator = (Inr (), ex_programmed)"
  "read_flash ex_programmed 0 (Suc (Suc (Suc (Suc 0)))) = Inr [1, 2, 3, 4]" "sim_disk ex_programmed = Stored (sim_state ex_programmed)"
proof -
  have cells: "replicate 8 (0xFF :: u8) = [0xFF, 0xFF, 0xFF, 0xFF, 0xFF, 0xFF, 0xFF, 0xFF]"
    by (simp add: numeral_eq_Suc)
  have ran: "fst (write_flash (Inr ()) 0 [1, 2, 3, 4] ex_blank_simulator) = Inr ()"
    by (simp add: write_flash_def flash_range_def ex_blank_simulator_def initial_state_def begin_effect_def
        slice_def persist_def cells Let_def)
  then show written: "write_flash (Inr ()) 0 [1, 2, 3, 4] ex_blank_simulator = (Inr (), ex_programmed)"
    unfolding ex_programmed_def by (metis prod.collapse)
  show "read_flash ex_programmed 0 (Suc (Suc (Suc (Suc 0)))) = Inr [1, 2, 3, 4]"
    using written_read_back [OF written] by simp
  have "durable 8 ex_blank_simulator" by (simp add: durable_def ex_blank_simulator_def initial_state_def)
  from durable_write [OF this written] show "sim_disk ex_programmed = Stored (sim_state ex_programmed)"
    by (simp add: durable_def)
qed

definition ex_open_bench :: backend_world where
  "ex_open_bench = put_simulator ex_instrument ex_digest ex_blank_simulator ex_loaded_world"

lemma ex_bench_identity:
  "configured_physical_identity ex_env id ex_simulator_config = Inr ex_digest"
  "verify_usb ex_bench_backend H ex_simulator_config = Inr ex_digest"
  "configuration_digest ex_bench_backend binding = Inr ex_digest"
proof -
  show identity: "configured_physical_identity ex_env id ex_simulator_config = Inr ex_digest"
    by (simp add: ex_configured ex_all_digests)
  then show "verify_usb ex_bench_backend H ex_simulator_config = Inr ex_digest"
    by (simp add: verify_usb_def) (simp add: ex_simulator_config_def)
  show "configuration_digest ex_bench_backend binding = Inr ex_digest"
    by (simp add: configuration_digest_def ex_all_digests)
qed

lemma ex_bench_connected:
  "connect ex_bench_backend (Backend_Examples.ex_host (Inr ())) ex_instrument ex_simulator_binding ex_loaded_world
     = (Inr (), ex_open_bench)"
proof -
  have config: "ex_simulator_config = SimulatorInstrument \<lparr>sc_identity = SimulatorId ''s'', sc_flash_bytes = 8\<rparr>"
    by (simp add: ex_simulator_config_def)
  have "simulator_open (Inr ()) (Inr ()) Absent 8 = (Inr ex_blank_simulator, Stored (initial_state 8))"
    by (simp add: simulator_open_def ex_blank_simulator_def initial_state_def)
  then have "open_device ex_bench_backend (Backend_Examples.ex_host (Inr ())) ex_simulator_config ex_loaded_world
      = (Inr (ConnectedSimulator ex_digest ex_blank_simulator),
         ex_loaded_world\<lparr>bw_stores := (bw_stores ex_loaded_world)(ex_digest := Stored (initial_state 8))\<rparr>)"
    using ex_bench_identity(1)
    by (simp add: config open_device_def open_simulator_def ex_loaded_world_def ex_blank_world_def abind_def
        alift_def areturn_def)
  moreover have "bw_connections ex_loaded_world ex_instrument = None"
    by (simp add: ex_loaded_world_def ex_blank_world_def)
  ultimately show ?thesis
    by (simp add: connect_def ex_bench_identity(2) abind_def alift_def ex_open_bench_def put_simulator_def
        put_connection_def ex_blank_simulator_def)
qed

lemma ex_bench_identified:
  "\<exists>obs. identified ex_bench_backend (ex_occasion (Inr ())) ex_instrument ex_simulator_binding ex_loaded_world
     = (Inr obs, ex_open_bench) \<and> source_fingerprint obs = ex_digest
     \<and> text_member ''physical_identity'' (obs_body obs) = Some (digest_str ex_digest)"
proof -
  have session: "bw_connections ex_open_bench ex_instrument = Some (ConnectedSimulator ex_digest ex_blank_simulator)"
    by (simp add: ex_open_bench_def put_simulator_def)
  show ?thesis
    using session ex_bench_identity ex_bench_connected
    by (simp add: identified_def observe_def sight_def simulator_sighting_def abind_def alift_def
        areturn_def Let_def ex_all_digests sighted_physical_identity)
qed

lemma ex_dispatch_simps [simp]:
  "dr_attempt ex_dispatch = ex_attempt_id" "dr_operation ex_dispatch = FlashWrite ex_target ex_instrument 0 ex_digest 4"
  "dr_deadline_milliseconds ex_dispatch = 1" "dr_interlocks_valid_until ex_dispatch = None"
  "dr_expected_target_fingerprint ex_dispatch = ex_digest" "dr_expected_fixture_revision ex_dispatch = ex_digest"
  "dr_expected_instrument_fingerprints ex_dispatch = [(ex_instrument, ex_digest)]"
  "dr_expected_instrument_configurations ex_dispatch = [(ex_instrument, ex_digest)]"
  "dr_expected_instrument_physical_identities ex_dispatch = [(ex_instrument, ex_digest)]"
  by (simp_all add: ex_dispatch_def dispatch_request_for_def ex_paid_claim_def ex_step_def ex_attempt_def
      ex_operation_def ex_profile_def ex_binding_def)

text \<open>The write reaches the flash whatever becomes of its evidence.\<close>

lemma ex_writes:
  assumes "run ex_bench_backend (ex_occasion (Inr ())) ex_dispatch (stored_artifact ex_bench_backend ex_loaded_disk)
    False ex_loaded_world = (r, w')"
  shows "bw_stores w' ex_digest = Stored (sim_state ex_programmed)"
proof -
  let ?artifacts = "stored_artifact ex_bench_backend ex_loaded_disk"
  let ?oc = "ex_occasion (Inr ())"
  let ?w = "put_simulator ex_instrument ex_digest ex_programmed ex_open_bench"
  obtain obs where obs: "identified ex_bench_backend ?oc ex_instrument ex_simulator_binding ex_loaded_world
      = (Inr obs, ex_open_bench)" "source_fingerprint obs = ex_digest"
    "text_member ''physical_identity'' (obs_body obs) = Some (digest_str ex_digest)"
    using ex_bench_identified by blast
  then have admitted: "identity_rejection ?oc ex_dispatch ex_instrument obs = None"
    by (simp add: identity_rejection_def expired_at_def)
  have "source_bytes ?artifacts ex_digest 4 = Inr [1, 2, 3, 4]"
    using ex_flash_source by (simp add: source_bytes_def MAX_EVIDENCE_BYTES_def)
  then have "\<exists>result. simulated_execute (be_device ex_bench_backend) (Inr ()) (dr_operation ex_dispatch) ?artifacts
      False ex_blank_simulator = (Inr result, ex_programmed)"
    using ex_programs(1,2)
    by (simp add: simulated_execute_def simulated_result_def simulated_source_def effect_unless_def Let_def)
  then obtain result where "operate ex_bench_backend ?oc ex_dispatch ?artifacts False ex_instrument ex_simulator_binding
      NANOS obs ex_open_bench = (Inr result, ?w)"
    by (auto simp: operate_def Let_def ex_open_bench_def put_simulator_def on_simulator_def)
  with obs(1) admitted have access: "device_access ex_bench_backend ?oc ex_dispatch ?artifacts False ex_instrument
      ex_simulator_binding NANOS ex_loaded_world = (Inr (Accessed obs result), ?w)"
    by (simp add: device_access_def abind_def areturn_def)
  have "run ex_bench_backend ?oc ex_dispatch ?artifacts False ex_loaded_world
      = timed_access ex_bench_backend ?oc ex_dispatch ?artifacts False ex_instrument ex_simulator_binding NANOS ex_loaded_world"
    by (simp add: run_def run_session_def session_def ex_bench_identity access_deadline_def abind_def alift_def)
  with assms access have "discarding ex_instrument (settle_access ex_bench_backend ?oc ex_dispatch False
      (Accessed obs result)) ?w = (r, w')" by (simp add: timed_access_def)
  then obtain r2 w2 where settled: "settle_access ex_bench_backend ?oc ex_dispatch False (Accessed obs result) ?w = (r2, w2)"
    "bw_stores w' = bw_stores w2" by (auto simp: discarding_def discard_def put_connection_def split: prod.splits sum.splits stop.splits)
  from movesD [OF files_only_settle settled(1)] have "bw_stores w2 = bw_stores ?w"
    unfolding files_only_def by (metis backend_world.select_convs(3) backend_world.surjective backend_world.update_convs(4))
  with settled(2) ex_programs(3) show ?thesis by (simp add: put_simulator_def)
qed

definition ex_process :: process_env where
  "ex_process = \<lparr>pe_time = (\<lambda>_. ex_clock), pe_error_text = (\<lambda>_. ''error''),
     pe_backend_error_text = (\<lambda>_. ''backend''), pe_occasion = (\<lambda>_. ex_occasion (Inr ())),
     pe_lost = BackendMalformed ''lost'', pe_lost_text = ''lost'', pe_to_value = (\<lambda>_. Inr JNull),
     pe_decode_base64 = (\<lambda>text. Inr (as_bytes text)), pe_encode_base64 = map (\<lambda>b. char_of (unat b))\<rparr>"

definition ex_plant :: plant where "ex_plant = \<lparr>pl_backend = ex_loaded_world, pl_calls = []\<rparr>"

definition ex_calm :: "plant process" where
  "ex_calm = \<lparr>ps_store = ex_submitted, ps_device = ex_plant, ps_threads = [], ps_executed = []\<rparr>"

lemma instruments_driven_by_reviewed_plans_witness:
  "\<exists>p c a. (process_step (plant_surroundings ex_bench_backend))\<^sup>*\<^sup>* ex_calm p
     \<and> pl_calls (ps_device p) = [c] \<and> dc_activity c = Executing ex_dispatch \<and> lawful ex_bench_backend (ps_store p) c
     \<and> bw_stores (dc_before c) ex_digest = Absent \<and> bw_stores (dc_after c) ex_digest = Stored (sim_state ex_programmed)
     \<and> load_attempt (ps_store p) ex_attempt_id = Some a \<and> at_state a = Unknown"
proof -
  obtain r w where ran: "run ex_bench_backend (ex_occasion (Inr ())) ex_dispatch
      (stored_artifact ex_bench_backend ex_loaded_disk) False ex_loaded_world = (r, w)" by fastforce
  let ?c = "\<lparr>dc_activity = Executing ex_dispatch, dc_occasion = ex_occasion (Inr ()), dc_before = ex_loaded_world, dc_after = w\<rparr>"
  let ?d = "\<lparr>pl_backend = w, pl_calls = [?c]\<rparr>"
  have "device_execute ex_bench_backend ex_process ex_dispatch ex_plant = (r, ?d)"
    using ran by (simp add: device_execute_def serve_call_def ex_plant_def ex_process_def Let_def)
      (simp add: ex_loaded_world_def)
  then have "plant_call ex_bench_backend (Executing ex_dispatch) ex_plant ?d"
    unfolding plant_call_def by (intro exI [of _ ex_process]) simp
  then have run: "(process_step (plant_surroundings ex_bench_backend))\<^sup>*\<^sup>* ex_calm
      \<lparr>ps_store = ex_cut_off, ps_device = power_off ?d, ps_threads = [], ps_executed = [ex_dispatch]\<rparr>"
    using ex_interrupted_run [of "plant_surroundings ex_bench_backend" ex_plant ?d] by (simp add: ex_calm_def)
  have "reachable (be_env ex_bench_backend) (ps_store ex_calm)" using ex_submitted_reachable by (simp add: ex_calm_def)
  from instruments_driven_by_reviewed_plans [OF ex_bench_opened run this]
  have "lawful ex_bench_backend ex_cut_off ?c"
    by (simp add: ex_calm_def ex_plant_def ex_loaded_world_def ex_blank_world_def)
  moreover have "bw_stores ex_loaded_world ex_digest = Absent" by (simp add: ex_loaded_world_def ex_blank_world_def)
  moreover obtain a where "load_attempt ex_cut_off ex_attempt_id = Some a" "at_state a = Unknown"
    using ex_cut_off_unknown by blast
  ultimately show ?thesis using run ex_writes [OF ran]
    by (intro exI [of _ "\<lparr>ps_store = ex_cut_off, ps_device = power_off ?d, ps_threads = [], ps_executed = [ex_dispatch]\<rparr>"]
        exI [of _ ?c] exI [of _ a]) simp
qed

end
