(* ===== verification/Service_Server.thy ===== *)
theory Service_Server
  imports Service_Wire Service_Config Service_Safety
begin

text \<open>
  The daemon around the service: the locks that keep an instance to one process
  (\<open>DaemonLock\<close> of \<open>src/service/server.rs\<close>, \<open>acquire_journal_lock\<close> and
  \<open>SqliteStore::open\<close> of \<open>src/store/mod.rs\<close>), the socket and the loop that accepts
  connections (\<open>UnixServiceServer\<close>). A \<open>machine\<close> has the directory entries and the advisory
  locks that processes see; a process is a number. The model of the processes is a step
  relation: each of them may start, open, serve, fail or die, and the system calls of a step
  may fail in any step. What a process does before its death inside a call that opens, locks or
  binds is what it does before a call that fails. Requests and turns of a task are steps; the death
  of a process inside one of them is the subject of \<open>Service_Interleaving\<close>.
\<close>

section \<open>Entries and locks\<close>

datatype special_file = PlainFile | SocketFile | SymbolicLink | OtherFile

datatype syscall = OpenFile | LockFile | LinkStatus | RemoveFile | BindSocket | ChangeGroup | ChangeMode

record machine =
  ma_entries :: "path_buf \<Rightarrow> special_file option"
  ma_locks :: "path_buf \<Rightarrow> nat option"
  ma_modes :: "path_buf \<Rightarrow> u32"
  ma_groups :: "path_buf \<Rightarrow> u32 option"

text \<open>\<open>mh_follow\<close>: the entry a path names when links are followed; \<open>mh_fault\<close>: the error
  a call fails with for reasons that the machine does not record; \<open>mh_sqlite\<close>: the error of
  opening SQLite or creating its tables.\<close>

record machine_host =
  mh_follow :: "path_buf \<Rightarrow> path_buf"
  mh_fault :: "syscall \<Rightarrow> path_buf \<Rightarrow> string option"
  mh_sqlite :: "string option"
  mh_new_mode :: u32

definition unless_fault :: "machine_host \<Rightarrow> syscall \<Rightarrow> path_buf \<Rightarrow> (machine, string, 'a) action \<Rightarrow> (machine, string, 'a) action" where
  "unless_fault H call p m = (case mh_fault H call p of Some e \<Rightarrow> afail e | None \<Rightarrow> m)"

text \<open>\<open>OpenOptions\<close> with \<open>create\<close>: the entry exists afterwards.\<close>

definition open_lock_file :: "machine_host \<Rightarrow> path_buf \<Rightarrow> (machine, string, unit) action" where
  "open_lock_file H p = unless_fault H OpenFile p (\<lambda>m.
     (Inr (), let place = mh_follow H p in
        if ma_entries m place = None then m\<lparr>ma_entries := (ma_entries m)(place := Some PlainFile)\<rparr> else m))"

datatype lock_failure = WouldBlock | LockFailed string

text \<open>An exclusive advisory lock that is not waited for.\<close>

definition try_lock :: "machine_host \<Rightarrow> nat \<Rightarrow> path_buf \<Rightarrow> (machine, lock_failure, unit) action" where
  "try_lock H process p m =
     (case mh_fault H LockFile p of
        Some e \<Rightarrow> (Inl (Failed (LockFailed e)), m)
      | None \<Rightarrow>
          let place = mh_follow H p in
          (if ma_locks m place \<noteq> None then (Inl (Failed WouldBlock), m)
           else (Inr (), m\<lparr>ma_locks := (ma_locks m)(place := Some process)\<rparr>)))"

text \<open>A lock lasts as long as its process.\<close>

definition release_all :: "nat \<Rightarrow> machine \<Rightarrow> machine" where
  "release_all process m =
     m\<lparr>ma_locks := (\<lambda>p. if ma_locks m p = Some process then None else ma_locks m p)\<rparr>"

section \<open>The daemon lock\<close>

definition daemon_lock_path :: "path_buf \<Rightarrow> path_buf" where
  "daemon_lock_path instance_dir = path_join instance_dir ''supervisor.lock''"

fun lock_error :: "lock_failure \<Rightarrow> server_error" where
  "lock_error WouldBlock = AlreadyRunning"
| "lock_error (LockFailed e) = ServerIo e"

definition daemon_lock_acquire :: "machine_host \<Rightarrow> nat \<Rightarrow> path_buf \<Rightarrow> (machine, server_error, unit) action" where
  "daemon_lock_acquire H process instance_dir =
     abind (amap_err ServerIo (open_lock_file H (daemon_lock_path instance_dir))) (\<lambda>_.
       amap_err lock_error (try_lock H process (daemon_lock_path instance_dir)))"

section \<open>The journal lock\<close>

text \<open>\<open>Path::with_extension\<close>: what follows the last dot of the file name, unless the name
  begins with it, is replaced.\<close>

definition file_stem :: "string \<Rightarrow> string" where
  "file_stem name =
     (let before = rev (drop 1 (dropWhile (\<lambda>c. c \<noteq> CHR ''.'') (rev name)))
      in if before = [] then name else before)"

definition with_extension :: "path_buf \<Rightarrow> string \<Rightarrow> path_buf" where
  "with_extension p extension =
     (if components p = [] \<or> last (components p) = ''..'' then p
      else PathBuf (is_absolute p)
        (butlast (components p) @ [file_stem (last (components p)) @ ''.'' @ extension]))"

definition path_buf_text :: "path_buf \<Rightarrow> string" where
  "path_buf_text p = (let parts = concat (map (\<lambda>part. CHR ''/'' # part) (components p)) in
     if is_absolute p then (if parts = [] then ''/'' else parts) else drop 1 parts)"

definition acquire_journal_lock :: "machine_host \<Rightarrow> nat \<Rightarrow> path_buf \<Rightarrow> (machine, store_error, unit) action" where
  "acquire_journal_lock H process database =
     (let p = with_extension database ''lock''; already_open = AlreadyOpen (path_buf_text p) in
      abind (\<lambda>m. if ma_entries m (mh_follow H p) = None then (Inr False, m)
                else amap_err (\<lambda>_. Io)
                  (unless_fault H LinkStatus p (\<lambda>m. (Inr (ma_entries m p = Some SymbolicLink), m))) m) (\<lambda>linked.
      if linked then afail already_open
      else
        abind (amap_err (\<lambda>_. Io) (open_lock_file H p)) (\<lambda>_.
          amap_err (\<lambda>_. already_open) (try_lock H process p))))"

text \<open>\<open>SqliteStore::open\<close>: the lock, then the database, whose interrupted work is recovered.
  When it fails after the lock, the lock is released.\<close>

definition release_lock :: "machine_host \<Rightarrow> path_buf \<Rightarrow> machine \<Rightarrow> machine" where
  "release_lock H p m = m\<lparr>ma_locks := (ma_locks m)(mh_follow H p := None)\<rparr>"

definition journal_open ::
  "machine_host \<Rightarrow> nat \<Rightarrow> env \<Rightarrow> clock \<Rightarrow> path_buf \<Rightarrow> (machine \<times> store, store_error, unit) action" where
  "journal_open H process E clk database = (\<lambda>(m, s).
     case acquire_journal_lock H process database m of
       (Inl e, m') \<Rightarrow> (Inl e, m', s)
     | (Inr _, m') \<Rightarrow>
         (case mh_sqlite H of
            Some e \<Rightarrow> (Inl (Failed (Sqlite e)), release_lock H (with_extension database ''lock'') m', s)
          | None \<Rightarrow> (Inr (), m', recover_interrupted_dispatches E clk s)))"

section \<open>The socket\<close>

text \<open>A stale socket is removed; anything else at its path is left alone.\<close>

definition clear_socket :: "machine_host \<Rightarrow> path_buf \<Rightarrow> (machine, server_error, unit) action" where
  "clear_socket H p m =
     (if mh_fault H LinkStatus p \<noteq> None then areturn () m
      else case ma_entries m p of
        None \<Rightarrow> areturn () m
      | Some found \<Rightarrow>
          if found = SocketFile
          then amap_err ServerIo (unless_fault H RemoveFile p
                 (\<lambda>m. (Inr (), m\<lparr>ma_entries := (ma_entries m)(p := None)\<rparr>))) m
          else afail SocketPathOccupied m)"

definition bind_socket :: "machine_host \<Rightarrow> path_buf \<Rightarrow> (machine, string, unit) action" where
  "bind_socket H p = unless_fault H BindSocket p (\<lambda>m.
     if ma_entries m p \<noteq> None then (Inl (Failed ''address already in use''), m)
     else (Inr (), m\<lparr>ma_entries := (ma_entries m)(p := Some SocketFile),
                   ma_modes := (ma_modes m)(p := mh_new_mode H), ma_groups := (ma_groups m)(p := None)\<rparr>))"

definition change_group :: "machine_host \<Rightarrow> path_buf \<Rightarrow> u32 option \<Rightarrow> (machine, string, unit) action" where
  "change_group H p group_gid = (case group_gid of
     None \<Rightarrow> areturn ()
   | Some gid \<Rightarrow> unless_fault H ChangeGroup p (\<lambda>m. (Inr (), m\<lparr>ma_groups := (ma_groups m)(p := Some gid)\<rparr>)))"

definition change_mode :: "machine_host \<Rightarrow> path_buf \<Rightarrow> u32 \<Rightarrow> (machine, string, unit) action" where
  "change_mode H p mode = unless_fault H ChangeMode p (\<lambda>m. (Inr (), m\<lparr>ma_modes := (ma_modes m)(p := mode)\<rparr>))"

text \<open>A server, and whether it has been given the daemon lock.\<close>

record unix_server =
  ux_config :: service_config
  ux_daemon_lock :: bool

definition server_new :: "service_config \<Rightarrow> unix_server" where
  "server_new config = \<lparr>ux_config = config, ux_daemon_lock = False\<rparr>"

definition with_daemon_lock :: "service_config \<Rightarrow> unix_server" where
  "with_daemon_lock config = \<lparr>ux_config = config, ux_daemon_lock = True\<rparr>"

text \<open>\<open>serve\<close> until it accepts connections.\<close>

definition serve_start :: "machine_host \<Rightarrow> nat \<Rightarrow> unix_server \<Rightarrow> (machine, server_error, unit) action" where
  "serve_start H process server =
     (let config = ux_config server; p = sc_socket config in
      abind (if ux_daemon_lock server then areturn ()
             else daemon_lock_acquire H process (sc_instance_dir config)) (\<lambda>_.
      abind (clear_socket H p) (\<lambda>_.
      abind (amap_err ServerIo (bind_socket H p)) (\<lambda>_.
      abind (amap_err ServerIo (change_group H p (sc_socket_group_gid config))) (\<lambda>_.
        amap_err ServerIo (change_mode H p (sc_socket_mode config)))))))"

section \<open>Accepting connections\<close>

definition MAX_CONCURRENT_CLIENTS :: nat where "MAX_CONCURRENT_CLIENTS = 8"

text \<open>The loop waits for a connection, then for a permit of a semaphore with eight of them, then
  leaves the connection to a task of its own, which gives the permit back when it ends. A
  connection is the credentials of its peer and its stream; connections end in any order.\<close>

type_synonym connection = "(string + u32) \<times> stream"

datatype accepting = Listening | Holding connection | Broken server_error

record 'd accept_loop =
  al_stage :: accepting
  al_permits :: nat
  al_serving :: "connection list"
  al_service :: "'d service"

definition accept_start :: "'d service \<Rightarrow> 'd accept_loop" where
  "accept_start s = \<lparr>al_stage = Listening, al_permits = MAX_CONCURRENT_CLIENTS, al_serving = [], al_service = s\<rparr>"

inductive accept_step ::
  "service_codec \<Rightarrow> 'd service_env \<Rightarrow> credential_binding list \<Rightarrow> 'd accept_loop \<Rightarrow> 'd accept_loop \<Rightarrow> bool"
  for C S bindings where
  Accepted: "al_stage a = Listening \<Longrightarrow> accept_step C S bindings a (a\<lparr>al_stage := Holding c\<rparr>)"
| AcceptFailed: "al_stage a = Listening \<Longrightarrow> accept_step C S bindings a (a\<lparr>al_stage := Broken (ServerIo e)\<rparr>)"
| Spawned: "al_stage a = Holding c \<Longrightarrow> 0 < al_permits a \<Longrightarrow> accept_step C S bindings a
    (a\<lparr>al_stage := Listening, al_permits := al_permits a - 1, al_serving := al_serving a @ [c]\<rparr>)"
| Served: "c \<in> set (al_serving a) \<Longrightarrow> serve_client C S bindings (fst c) (snd c, al_service a) = (r, w, s)
    \<Longrightarrow> accept_step C S bindings a
      (a\<lparr>al_permits := al_permits a + 1, al_serving := remove1 c (al_serving a), al_service := s\<rparr>)"
| Worked: "n < length (svc_tasks (al_service a))
    \<Longrightarrow> accept_step C S bindings a (a\<lparr>al_service := run_task S n (al_service a)\<rparr>)"

section \<open>Processes\<close>

text \<open>The command \<open>serve\<close> of one process: nothing yet, the daemon lock taken, the journal
  open, the socket bound. The journal, the devices and the disk are shared; the tasks are those
  of the process that opened the journal last. \<open>si_opened\<close>: who has opened the journal,
  which only properties look at. The host \<open>H\<close> only says where paths lead; which calls
  fail is chosen anew in every step, by a host that agrees with it on that.\<close>

datatype daemon_phase = Down | Owner | Opened | Bound

record 'd site =
  si_machine :: machine
  si_phase :: "nat \<Rightarrow> daemon_phase"
  si_service :: "'d service"
  si_opened :: "nat list"

definition journal_path :: "service_config \<Rightarrow> path_buf" where
  "journal_path config = path_join (sc_instance_dir config) ''state.sqlite''"

definition in_phase :: "nat \<Rightarrow> daemon_phase \<Rightarrow> machine \<Rightarrow> 'd site \<Rightarrow> 'd site" where
  "in_phase process phase m x = x\<lparr>si_machine := m, si_phase := (si_phase x)(process := phase)\<rparr>"

text \<open>The service of a process that has just opened the journal.\<close>

definition reopened_service :: "'d service_env \<Rightarrow> file_system \<Rightarrow> store \<Rightarrow> 'd service \<Rightarrow> 'd service" where
  "reopened_service S files journal s =
     \<lparr>svc_world = (with_device (svc_world s) (se_put_files S files (se_restart S (w_device (svc_world s)))))
        \<lparr>w_store := journal\<rparr>, svc_tasks = []\<rparr>"

inductive site_step ::
  "machine_host \<Rightarrow> service_config \<Rightarrow> service_codec \<Rightarrow> 'd service_env \<Rightarrow> 'd site \<Rightarrow> 'd site \<Rightarrow> bool"
  for H config C S where
  Locks: "mh_follow H' = mh_follow H \<Longrightarrow> si_phase x p = Down
    \<Longrightarrow> daemon_lock_acquire H' p (sc_instance_dir config) (si_machine x) = (Inr (), m)
    \<Longrightarrow> site_step H config C S x (in_phase p Owner m x)"
| LockRefused: "mh_follow H' = mh_follow H \<Longrightarrow> si_phase x p = Down
    \<Longrightarrow> daemon_lock_acquire H' p (sc_instance_dir config) (si_machine x) = (Inl e, m)
    \<Longrightarrow> site_step H config C S x (in_phase p Down (release_all p m) x)"
| Opens: "mh_follow H' = mh_follow H \<Longrightarrow> si_phase x p = Owner
    \<Longrightarrow> journal_open H' p (bn_env (se_bench S)) clk (journal_path config) (si_machine x, w_store (svc_world (si_service x)))
       = (Inr (), m, journal)
    \<Longrightarrow> site_step H config C S x
      ((in_phase p Opened m x)\<lparr>si_service := reopened_service S files journal (si_service x), si_opened := si_opened x @ [p]\<rparr>)"
| OpenFails: "mh_follow H' = mh_follow H \<Longrightarrow> si_phase x p = Owner
    \<Longrightarrow> journal_open H' p (bn_env (se_bench S)) clk (journal_path config) (si_machine x, w_store (svc_world (si_service x)))
       = (Inl e', m, journal)
    \<Longrightarrow> site_step H config C S x (in_phase p Down (release_all p m) x)"
| Binds: "mh_follow H' = mh_follow H \<Longrightarrow> si_phase x p = Opened
    \<Longrightarrow> serve_start H' p (with_daemon_lock config) (si_machine x) = (Inr (), m)
    \<Longrightarrow> site_step H config C S x (in_phase p Bound m x)"
| BindFails: "mh_follow H' = mh_follow H \<Longrightarrow> si_phase x p = Opened
    \<Longrightarrow> serve_start H' p (with_daemon_lock config) (si_machine x) = (Inl e, m)
    \<Longrightarrow> site_step H config C S x (in_phase p Down (release_all p m) x)"
| Serves: "si_phase x p = Bound
    \<Longrightarrow> serve_client C S (sc_credentials config) credentials (w, si_service x) = (r, w', s)
    \<Longrightarrow> site_step H config C S x (x\<lparr>si_service := s\<rparr>)"
| Works: "si_phase x p = Bound \<Longrightarrow> n < length (svc_tasks (si_service x))
    \<Longrightarrow> site_step H config C S x (x\<lparr>si_service := run_task S n (si_service x)\<rparr>)"
| Ends: "site_step H config C S x (in_phase p Down (release_all p (si_machine x)) x)"

section \<open>A connection is at most one step of the service\<close>

lemma answer_steps:
  assumes "answer C S bindings uid envelope s = (reply, s')"
  shows "(service_step S bindings)\<^sup>*\<^sup>* s s'"
proof (cases "authenticate (bn_env (se_bench S)) bindings (ce_token envelope) uid :: unit authentication_error + principal")
  case (Inl e)
  with assms show ?thesis by (simp add: answer_def)
next
  case (Inr p)
  obtain r s1 where handled: "handle S p (ce_request envelope) s = (r, s1)" by fastforce
  from service_step.Requested [OF Inr handled] have "service_step S bindings s s1" .
  moreover have "s' = s1" using assms Inr handled by (auto simp: answer_def split: sum.splits stop.splits)
  ultimately show ?thesis by simp
qed

lemma serve_client_steps:
  assumes "serve_client C S bindings credentials (w, s) = (r, w', s')"
  shows "(service_step S bindings)\<^sup>*\<^sup>* s s'"
proof (cases credentials)
  case (Inl e)
  with assms show ?thesis by (simp add: serve_client_def)
next
  case (Inr uid)
  obtain r1 w1 where first: "read_json_frame (co_parse_envelope C) w = (r1, w1)" by fastforce
  show ?thesis
  proof (cases r1)
    case (Inl e)
    with assms Inr first show ?thesis by (simp add: serve_client_def)
  next
    case envelope: (Inr envelope)
    obtain reply s1 where answered: "answer C S bindings uid envelope s = (reply, s1)" by fastforce
    have "s' = s1" using assms Inr first envelope answered by (auto simp: serve_client_def split: option.splits prod.splits)
    with answer_steps [OF answered] show ?thesis by simp
  qed
qed

text \<open>So is a step of the loop that accepts connections.\<close>

lemma accept_step_service:
  "accept_step C S bindings a a' \<Longrightarrow> (service_step S bindings)\<^sup>*\<^sup>* (al_service a) (al_service a')"
proof (induction rule: accept_step.induct)
  case (Served c a r w s)
  from serve_client_steps [OF this(2)] show ?case by simp
next
  case (Worked n a)
  then have "service_step S bindings (al_service a) (run_task S n (al_service a))" by (rule service_step.Worked)
  then show ?case by simp
qed simp_all

section \<open>Locks\<close>

lemma open_lock_file_locks: "open_lock_file H p m = (r, m') \<Longrightarrow> ma_locks m' = ma_locks m"
  by (auto simp: open_lock_file_def unless_fault_def afail_def Let_def split: option.splits if_splits)

lemma try_lock_result:
  "try_lock H process p m = (r, m') \<Longrightarrow>
     (case r of Inr _ \<Rightarrow> ma_locks m (mh_follow H p) = None
          \<and> ma_locks m' = (ma_locks m)(mh_follow H p := Some process)
      | Inl _ \<Rightarrow> m' = m)"
  by (auto simp: try_lock_def Let_def split: option.splits if_splits)

definition gains_lock :: "nat \<Rightarrow> path_buf \<Rightarrow> 'e + 'a \<Rightarrow> machine \<Rightarrow> machine \<Rightarrow> bool" where
  "gains_lock process place r m m' \<longleftrightarrow>
     (case r of Inr _ \<Rightarrow> ma_locks m place = None \<and> ma_locks m' = (ma_locks m)(place := Some process)
      | Inl _ \<Rightarrow> ma_locks m' = ma_locks m)"

lemma gains_lock_locking:
  assumes "abind (amap_err f (open_lock_file H p)) (\<lambda>_. amap_err g (try_lock H process p)) m = (r, m')"
  shows "gains_lock process (mh_follow H p) r m m'"
proof -
  obtain r1 m1 where first: "open_lock_file H p m = (r1, m1)" by fastforce
  obtain r2 m2 where second: "try_lock H process p m1 = (r2, m2)" by fastforce
  note locks = open_lock_file_locks [OF first] try_lock_result [OF second]
  show ?thesis
  proof (cases r1)
    case (Inl e)
    with assms first locks show ?thesis
      by (cases e) (auto simp: abind_def amap_err_def gains_lock_def)
  next
    case (Inr u)
    with assms first second have "r = (case r2 of Inr x \<Rightarrow> Inr x | Inl Dropped \<Rightarrow> Inl Dropped | Inl (Failed e) \<Rightarrow> Inl (Failed (g e)))" "m' = m2"
      by (auto simp: abind_def amap_err_def split: sum.splits stop.splits)
    with locks show ?thesis by (cases r2) (auto simp: gains_lock_def split: stop.splits)
  qed
qed

lemma daemon_lock_gains:
  "daemon_lock_acquire H process dir m = (r, m') \<Longrightarrow>
     gains_lock process (mh_follow H (daemon_lock_path dir)) r m m'"
  unfolding daemon_lock_acquire_def by (rule gains_lock_locking)

lemma journal_lock_gains:
  assumes "acquire_journal_lock H process database m = (r, m')"
  shows "gains_lock process (mh_follow H (with_extension database ''lock'')) r m m'"
proof -
  let ?p = "with_extension database ''lock''"
  let ?look = "\<lambda>m. if ma_entries m (mh_follow H ?p) = None then (Inr False, m)
      else amap_err (\<lambda>_. Io) (unless_fault H LinkStatus ?p (\<lambda>m. (Inr (ma_entries m ?p = Some SymbolicLink), m))) m"
  obtain r1 m1 where look: "?look m = (r1, m1)" by fastforce
  then have same: "m1 = m"
    by (auto simp: amap_err_def unless_fault_def afail_def split: if_splits option.splits)
  show ?thesis
  proof (cases "\<exists>linked. r1 = Inr linked \<and> \<not> linked")
    case True
    with look same assms have "abind (amap_err (\<lambda>_. Io) (open_lock_file H ?p))
        (\<lambda>_. amap_err (\<lambda>_. AlreadyOpen (path_buf_text ?p)) (try_lock H process ?p)) m = (r, m')"
      by (auto simp: acquire_journal_lock_def Let_def abind_def)
    then show ?thesis by (rule gains_lock_locking)
  next
    case False
    with look same assms have "m' = m \<and> (\<exists>e. r = Inl e)"
      by (cases r1) (auto simp: acquire_journal_lock_def Let_def abind_def afail_def)
    then show ?thesis by (auto simp: gains_lock_def)
  qed
qed

lemma journal_open_result:
  assumes "journal_open H process E clk database (m, s) = (r, m', s')"
  shows "(\<forall>place. ma_locks m place \<noteq> None \<longrightarrow> ma_locks m' place = ma_locks m place)
    \<and> (\<forall>u. r = Inr u \<longrightarrow> s' = recover_interrupted_dispatches E clk s)"
proof -
  obtain r1 m1 where lock: "acquire_journal_lock H process database m = (r1, m1)" by fastforce
  note gained = journal_lock_gains [OF lock]
  show ?thesis
    using assms lock gained
    by (cases r1; cases "mh_sqlite H")
      (auto simp: journal_open_def gains_lock_def release_lock_def)
qed

lemma serve_start_locks:
  assumes "serve_start H process (with_daemon_lock config) m = (r, m')"
  shows "ma_locks m' = ma_locks m"
proof -
  have keeps: "movement (\<lambda>m m'. ma_locks m' = ma_locks m)" by unfold_locales simp_all
  note intros = movement.moves_intros [OF keeps]
  have "moves (\<lambda>m m'. ma_locks m' = ma_locks m) (clear_socket H p)"
    "moves (\<lambda>m m'. ma_locks m' = ma_locks m) (bind_socket H p)"
    "moves (\<lambda>m m'. ma_locks m' = ma_locks m) (change_group H p gid)"
    "moves (\<lambda>m m'. ma_locks m' = ma_locks m) (change_mode H p mode)" for p gid mode
    by (auto simp: moves_def clear_socket_def bind_socket_def change_group_def change_mode_def unless_fault_def
        amap_err_def areturn_def afail_def split: option.split)
  then have "moves (\<lambda>m m'. ma_locks m' = ma_locks m) (serve_start H process (with_daemon_lock config))"
    unfolding serve_start_def with_daemon_lock_def Let_def by (simp, intro intros)
  then show ?thesis using assms by (rule movesD)
qed

section \<open>One daemon at a time\<close>

text \<open>A process that is past the start holds the lock of its instance.\<close>

definition locks_held :: "machine_host \<Rightarrow> service_config \<Rightarrow> 'd site \<Rightarrow> bool" where
  "locks_held H config x \<longleftrightarrow> (\<forall>p. si_phase x p \<noteq> Down \<longrightarrow>
     ma_locks (si_machine x) (mh_follow H (daemon_lock_path (sc_instance_dir config))) = Some p)"

lemma release_all_locks:
  "ma_locks (release_all p m) place = (if ma_locks m place = Some p then None else ma_locks m place)"
  by (simp add: release_all_def)

lemma in_phase_simps [simp]:
  "si_machine (in_phase p phase m x) = m" "si_phase (in_phase p phase m x) = (si_phase x)(p := phase)"
  "si_service (in_phase p phase m x) = si_service x" "si_opened (in_phase p phase m x) = si_opened x"
  by (simp_all add: in_phase_def)

lemma held_single: "locks_held H config x \<Longrightarrow> si_phase x p \<noteq> Down \<Longrightarrow> si_phase x q \<noteq> Down \<Longrightarrow> p = q"
  unfolding locks_held_def by (metis option.inject)

lemma site_step_held:
  assumes "site_step H config C S x y" "locks_held H config x"
  shows "locks_held H config y"
  using assms
proof (induction rule: site_step.induct)
  case (Locks H' x p m)
  from daemon_lock_gains [OF Locks(3)] Locks(1,4) show ?case by (auto simp: locks_held_def gains_lock_def)
next
  case (LockRefused H' x p e m)
  from daemon_lock_gains [OF LockRefused(3)] LockRefused(1,2,4) show ?case
    by (auto simp: locks_held_def gains_lock_def release_all_locks)
next
  case (Opens H' x p clk m journal files)
  let ?lock = "mh_follow H (daemon_lock_path (sc_instance_dir config))"
  have "ma_locks m ?lock = ma_locks (si_machine x) ?lock" if "si_phase x q \<noteq> Down" for q
    using journal_open_result [OF Opens(3)] Opens(4) that by (simp add: locks_held_def)
  with Opens(2,4) show ?case by (auto simp: locks_held_def)
next
  case (OpenFails H' x p clk e m journal)
  from journal_open_result [OF OpenFails(3)] OpenFails(2,4) show ?case
    by (auto simp: locks_held_def release_all_locks)
next
  case (Binds H' x p m)
  from serve_start_locks [OF Binds(3)] Binds(2,4) show ?case by (auto simp: locks_held_def)
next
  case (BindFails H' x p e m)
  have "q = p" if "si_phase x q \<noteq> Down" for q
    using held_single [OF BindFails(4) that, of p] BindFails(2) by simp
  with serve_start_locks [OF BindFails(3)] show ?case by (auto simp: locks_held_def release_all_locks)
next
  case (Ends x p)
  then show ?case by (auto simp: locks_held_def release_all_locks)
qed (simp_all add: locks_held_def)

lemma site_step_service:
  assumes "site_step H config C S x y"
  shows "(service_step S (sc_credentials config))\<^sup>*\<^sup>* (si_service x) (si_service y)"
  using assms
proof (induction rule: site_step.induct)
  case (Opens H' x p clk m journal files)
  from journal_open_result [OF Opens(3)]
  have "journal = recover_interrupted_dispatches (bn_env (se_bench S)) clk (w_store (svc_world (si_service x)))" by blast
  then have "service_step S (sc_credentials config) (si_service x) (reopened_service S files journal (si_service x))"
    using service_step.Restarted [OF refl, where S = S and bindings = "sc_credentials config"
        and s = "si_service x" and files = files and clk = clk]
    by (simp add: reopened_service_def with_device_def)
  then show ?case by simp
next
  case (Serves x p credentials w r w' s)
  from serve_client_steps [OF this(2)] show ?case by simp
next
  case (Works x p n)
  then show ?case using service_step.Worked by fastforce
qed simp_all

text \<open>C10: Daemons of one instance take turns: whatever processes are started, fail and are
  killed in whatever order, at most one is past the daemon lock; the journal is opened, and
  its interrupted attempts are recovered as unknown, only by a process that is alone, so never while
  another one executes them; and together the processes do nothing but steps of the service.\<close>

theorem daemons_take_turns:
  assumes "(site_step H config C S)\<^sup>*\<^sup>* x y" "si_phase x = (\<lambda>_. Down)" "ma_locks (si_machine x) = (\<lambda>_. None)"
  shows "(\<forall>p q. si_phase y p \<noteq> Down \<longrightarrow> si_phase y q \<noteq> Down \<longrightarrow> p = q)
    \<and> (\<forall>z p. site_step H config C S y z \<longrightarrow> si_opened z = si_opened y @ [p] \<longrightarrow>
         (\<forall>q. q \<noteq> p \<longrightarrow> si_phase y q = Down))
    \<and> (service_step S (sc_credentials config))\<^sup>*\<^sup>* (si_service x) (si_service y)"
proof -
  have "locks_held H config x" using assms(2) by (simp add: locks_held_def)
  with assms(1) have held: "locks_held H config y"
    by (induction rule: rtranclp_induct) (auto intro: site_step_held)
  have "si_phase y q = Down" if step: "site_step H config C S y z" and opened: "si_opened z = si_opened y @ [p]"
    and q: "q \<noteq> p" for z p q
  proof (rule ccontr)
    assume other: "si_phase y q \<noteq> Down"
    from step opened have "si_phase y p = Owner" by cases auto
    with held_single [OF held other] q show False by auto
  qed
  moreover have "(service_step S (sc_credentials config))\<^sup>*\<^sup>* (si_service x) (si_service y)"
    using assms(1) by (induction rule: rtranclp_induct) (auto intro: rtranclp_trans site_step_service)
  ultimately show ?thesis using held_single [OF held] by blast
qed

section \<open>The socket path\<close>

text \<open>Nothing but a socket at the socket path is ever replaced.\<close>

definition spares :: "path_buf \<Rightarrow> machine \<Rightarrow> machine \<Rightarrow> bool" where
  "spares p m m' \<longleftrightarrow> (\<forall>q. q \<noteq> p \<longrightarrow> ma_entries m' q = ma_entries m q)
     \<and> (\<forall>found. ma_entries m p = Some found \<longrightarrow> found \<noteq> SocketFile \<longrightarrow> ma_entries m' p = Some found)"

interpretation spares: movement "spares p" for p
  by unfold_locales (auto simp: spares_def)

lemma spares_steps:
  "moves (spares p) (clear_socket H p)" "moves (spares p) (bind_socket H p)"
  "moves (spares p) (change_group H p gid)" "moves (spares p) (change_mode H p mode)"
  by (auto simp: moves_def spares_def clear_socket_def bind_socket_def change_group_def change_mode_def unless_fault_def
      amap_err_def areturn_def afail_def split: option.split)

lemma bind_socket_Inr:
  "bind_socket H p m = (Inr u, m') \<Longrightarrow> ma_entries m' p = Some SocketFile"
  by (auto simp: bind_socket_def unless_fault_def afail_def split: option.splits if_splits)

lemma change_group_Inr:
  "change_group H p gid m = (Inr u, m') \<Longrightarrow> ma_entries m' = ma_entries m
     \<and> (\<forall>g. gid = Some g \<longrightarrow> ma_groups m' p = Some g)"
  by (auto simp: change_group_def unless_fault_def afail_def areturn_def split: option.splits)

lemma change_mode_Inr:
  "change_mode H p mode m = (Inr u, m') \<Longrightarrow> ma_entries m' = ma_entries m \<and> ma_groups m' = ma_groups m
     \<and> ma_modes m' p = mode"
  by (auto simp: change_mode_def unless_fault_def afail_def split: option.splits)

lemma serve_start_socket:
  assumes "serve_start H process (with_daemon_lock config) m = (Inr u, m')"
  shows "ma_entries m' (sc_socket config) = Some SocketFile \<and> ma_modes m' (sc_socket config) = sc_socket_mode config
    \<and> (\<forall>g. sc_socket_group_gid config = Some g \<longrightarrow> ma_groups m' (sc_socket config) = Some g)"
proof -
  let ?p = "sc_socket config"
  from assms obtain m1 m2 m3 where "bind_socket H ?p m1 = (Inr (), m2)"
    "change_group H ?p (sc_socket_group_gid config) m2 = (Inr (), m3)"
    "change_mode H ?p (sc_socket_mode config) m3 = (Inr (), m')"
    by (auto simp: serve_start_def with_daemon_lock_def Let_def)
  then show ?thesis using bind_socket_Inr change_group_Inr change_mode_Inr by metis
qed

text \<open>The daemon removes a stale socket at its path and nothing else: whatever
  happens, no other entry is touched and an entry at the path that is not a socket stays as it is;
  and when the daemon accepts connections, its path is a socket that has the configured mode and
  group.\<close>

theorem socket_replaced_only:
  assumes "serve_start H process (with_daemon_lock config) m = (r, m')"
  shows "(\<forall>q. q \<noteq> sc_socket config \<longrightarrow> ma_entries m' q = ma_entries m q)
    \<and> (\<forall>found. ma_entries m (sc_socket config) = Some found \<longrightarrow> found \<noteq> SocketFile \<longrightarrow>
         ma_entries m' (sc_socket config) = Some found \<and> r \<noteq> Inr ())
    \<and> (r = Inr () \<longrightarrow> ma_entries m' (sc_socket config) = Some SocketFile
         \<and> ma_modes m' (sc_socket config) = sc_socket_mode config
         \<and> (\<forall>g. sc_socket_group_gid config = Some g \<longrightarrow> ma_groups m' (sc_socket config) = Some g))"
proof -
  let ?p = "sc_socket config"
  have "moves (spares ?p) (serve_start H process (with_daemon_lock config))"
    unfolding serve_start_def with_daemon_lock_def Let_def by (simp, intro spares.moves_intros spares_steps)
  then have kept: "spares ?p m m'" using assms by (rule movesD)
  have "r = Inr () \<longrightarrow> ma_entries m' ?p = Some SocketFile \<and> ma_modes m' ?p = sc_socket_mode config
      \<and> (\<forall>g. sc_socket_group_gid config = Some g \<longrightarrow> ma_groups m' ?p = Some g)"
    using serve_start_socket assms by blast
  with kept show ?thesis by (auto simp: spares_def)
qed

end
