(* ===== verification/Service_Mcp.thy ===== *)
theory Service_Mcp
  imports Service_Wire Service_Config
begin

text \<open>
  The MCP tools (\<open>src/service/mcp.rs\<close>): one tool that takes any request and one per
  family of requests, each of them a client of the running service. The protocol of the SDK
  that calls them is a library and is not modelled; a call is a tool with its typed
  parameter.
\<close>

section \<open>Tools\<close>

text \<open>A tool with its parameters.\<close>

datatype mcp_tool =
    RequestTool service_request
  | CaseTool case_request
  | EvidenceTool evidence_request
  | InstrumentTool instrument_request
  | ExperimentTool experiment_request
  | TransactionTool transaction_request
  | AuthorityTool authority_request
  | FirmwareTool firmware_request
  | SystemTool system_request

fun tool_name :: "mcp_tool \<Rightarrow> string" where
  "tool_name (RequestTool _) = ''cheirismos_request''"
| "tool_name (CaseTool _) = ''cheirismos_case''"
| "tool_name (EvidenceTool _) = ''cheirismos_evidence''"
| "tool_name (InstrumentTool _) = ''cheirismos_instrument''"
| "tool_name (ExperimentTool _) = ''cheirismos_experiment''"
| "tool_name (TransactionTool _) = ''cheirismos_transaction''"
| "tool_name (AuthorityTool _) = ''cheirismos_authority''"
| "tool_name (FirmwareTool _) = ''cheirismos_firmware''"
| "tool_name (SystemTool _) = ''cheirismos_system''"

text \<open>What a client has of the outside: the token in a credential file and a new connection to
  a socket.\<close>

record client_host =
  ct_codec :: service_codec
  ct_token :: "path_buf \<Rightarrow> string + string"
  ct_connect :: "path_buf \<Rightarrow> string + stream"

record mcp_service =
  mp_socket :: path_buf
  mp_credential :: path_buf

definition mcp_new :: "path_buf \<Rightarrow> path_buf \<Rightarrow> mcp_service" where
  "mcp_new socket credential = \<lparr>mp_socket = socket, mp_credential = credential\<rparr>"

text \<open>The proxy runs until its client goes; how the handshake and the task of the SDK end is
  outside.\<close>

datatype mcp_service_error = McpInitialize string | McpJoin string

definition serve_stdio :: "string + unit \<Rightarrow> string + unit \<Rightarrow> mcp_service_error + unit" where
  "serve_stdio handshake joined = rbind (map_err McpInitialize handshake) (\<lambda>_. map_err McpJoin joined)"

definition tool_execute :: "client_host \<Rightarrow> mcp_service \<Rightarrow> service_request \<Rightarrow> string option" where
  "tool_execute X M request =
     mcp_execute (ct_codec X) (ct_token X (mp_credential M)) (ct_connect X (mp_socket M)) request"

definition execute_family :: "client_host \<Rightarrow> mcp_service \<Rightarrow> ('r \<Rightarrow> service_request) \<Rightarrow> 'r \<Rightarrow> string option" where
  "execute_family X M wrap request = tool_execute X M (wrap request)"

fun call_tool :: "client_host \<Rightarrow> mcp_service \<Rightarrow> mcp_tool \<Rightarrow> string option" where
  "call_tool X M (RequestTool request) = tool_execute X M request"
| "call_tool X M (CaseTool request) = execute_family X M RequestCase request"
| "call_tool X M (EvidenceTool request) = execute_family X M RequestEvidence request"
| "call_tool X M (InstrumentTool request) = execute_family X M RequestInstrument request"
| "call_tool X M (ExperimentTool request) = execute_family X M RequestExperiment request"
| "call_tool X M (TransactionTool request) = execute_family X M RequestTransaction request"
| "call_tool X M (AuthorityTool request) = execute_family X M RequestAuthority request"
| "call_tool X M (FirmwareTool request) = execute_family X M RequestFirmware request"
| "call_tool X M (SystemTool request) = execute_family X M RequestSystem request"

section \<open>The request of a call\<close>

text \<open>The request a call stands for; what becomes of a request over the wire is the subject of
  \<open>Service_Wire\<close>.\<close>

fun tool_request :: "mcp_tool \<Rightarrow> service_request" where
  "tool_request (RequestTool request) = request"
| "tool_request (CaseTool request) = RequestCase request"
| "tool_request (EvidenceTool request) = RequestEvidence request"
| "tool_request (InstrumentTool request) = RequestInstrument request"
| "tool_request (ExperimentTool request) = RequestExperiment request"
| "tool_request (TransactionTool request) = RequestTransaction request"
| "tool_request (AuthorityTool request) = RequestAuthority request"
| "tool_request (FirmwareTool request) = RequestFirmware request"
| "tool_request (SystemTool request) = RequestSystem request"

lemma call_tool_request: "call_tool X M tool = tool_execute X M (tool_request tool)"
  by (cases tool) (simp_all add: execute_family_def)

end
