(* ===== verification/Command_Line.thy ===== *)
theory Command_Line
  imports Service_Server Service_Mcp Device_Service_Safety
begin

text \<open>
  The command line (\<open>src/main.rs\<close>): a new instance, the daemon, the MCP proxy, and the
  clients of a running service. A command works on the disk, the entries and locks of the
  machine and the journal, and prints; what it reads of the outside (files, standard input,
  the service at the other end of a socket) and the renderings are the fields of a
  \<open>command_host\<close>. The daemon goes on when its
  command has started it; a proxy has served its client when its command ends.
\<close>

section \<open>Commands and errors\<close>

datatype command =
    InitCommand path_buf
  | ServeCommand path_buf
  | McpCommand path_buf path_buf
  | RequestCommand path_buf path_buf "path_buf option"
  | ImportCommand path_buf path_buf string path_buf
  | SchemaCommand bool
  | StatusCommand path_buf path_buf

datatype cli_error =
    CliIo string
  | CliJson string
  | CliConfig config_error
  | CliClient client_error
  | CliDomain domain_error
  | CliEvidence evidence_error
  | CliStore store_error
  | CliBackend backend_error
  | CliServer server_error
  | CliMcp mcp_service_error

record command_world =
  cw_files :: file_system
  cw_machine :: machine
  cw_journal :: store
  cw_printed :: "string list"

record command_host =
  cx_config :: config_host
  cx_machine :: machine_host
  cx_process :: nat
  cx_clock :: clock
  cx_backend :: backend_env
  cx_service :: process_env
  cx_current_dir :: "errno + path"
  cx_client :: client_host
  cx_handshake :: "string + unit"
  cx_joined :: "string + unit"
  cx_read :: "path_buf \<Rightarrow> string + u8 list"
  cx_stdin :: "string + u8 list"
  cx_parse_request :: "u8 list \<Rightarrow> string + service_request"
  cx_encode_base64 :: "u8 list \<Rightarrow> string"
  cx_schema :: "bool \<Rightarrow> string + string"
  cx_response_pretty :: "service_response \<Rightarrow> string + string"

text \<open>How a command goes on when it has not failed.\<close>

datatype started = Finished | Serving "plant service_env" unix_server | Proxied mcp_service

type_synonym 'a commanding = "(command_world, cli_error, 'a) action"

section \<open>Parts of the world\<close>

definition on_files :: "('e \<Rightarrow> cli_error) \<Rightarrow> (file_system, 'e, 'a) action \<Rightarrow> 'a commanding" where
  "on_files f m w = (case amap_err f m (cw_files w) of (r, files) \<Rightarrow> (r, w\<lparr>cw_files := files\<rparr>))"

definition on_machine :: "('e \<Rightarrow> cli_error) \<Rightarrow> (machine, 'e, 'a) action \<Rightarrow> 'a commanding" where
  "on_machine f m w = (case amap_err f m (cw_machine w) of (r, machine) \<Rightarrow> (r, w\<lparr>cw_machine := machine\<rparr>))"

definition on_journal :: "('e \<Rightarrow> cli_error) \<Rightarrow> (machine \<times> store, 'e, 'a) action \<Rightarrow> 'a commanding" where
  "on_journal f m w = (case amap_err f m (cw_machine w, cw_journal w) of (r, machine, journal) \<Rightarrow>
     (r, w\<lparr>cw_machine := machine, cw_journal := journal\<rparr>))"

definition print_line :: "string \<Rightarrow> unit commanding" where
  "print_line text w = (Inr (), w\<lparr>cw_printed := cw_printed w @ [text]\<rparr>)"

text \<open>A response that cannot be rendered is logged.\<close>

definition print_response :: "command_host \<Rightarrow> service_response \<Rightarrow> unit commanding" where
  "print_response X response =
     (case cx_response_pretty X response of Inr encoded \<Rightarrow> print_line encoded | Inl e \<Rightarrow> areturn ())"

section \<open>Opening the service\<close>

text \<open>The artifact store, the journal and the backend, in this order.\<close>

definition open_api :: "command_host \<Rightarrow> service_config \<Rightarrow> plant service_env commanding" where
  "open_api X config =
     abind (on_files CliEvidence (store_open (cx_current_dir X) (cx_process X)
              (path_buf_text (path_join (sc_instance_dir config) ''artifacts'')))) (\<lambda>artifacts.
     abind (on_journal CliStore (journal_open (cx_machine X) (cx_process X) (be_env (cx_backend X)) (cx_clock X)
              (journal_path config))) (\<lambda>_.
     abind (alift (map_err CliBackend (backend_open ((cx_backend X)\<lparr>be_store := artifacts\<rparr>) (sc_instruments config)))) (\<lambda>B.
       areturn (device_service B (cx_service X) (sc_credentials config)))))"

definition serve_command :: "command_host \<Rightarrow> path_buf \<Rightarrow> started commanding" where
  "serve_command X p =
     abind (on_files CliConfig (load_config (cx_config X) p)) (\<lambda>config.
     abind (on_machine CliServer (daemon_lock_acquire (cx_machine X) (cx_process X) (sc_instance_dir config))) (\<lambda>_.
     abind (open_api X config) (\<lambda>S.
     let server = with_daemon_lock config in
     abind (on_machine CliServer (serve_start (cx_machine X) (cx_process X) server)) (\<lambda>_.
       areturn (Serving S server)))))"

section \<open>Clients\<close>

definition cli_request :: "command_host \<Rightarrow> path_buf \<Rightarrow> path_buf \<Rightarrow> service_request \<Rightarrow> service_response commanding" where
  "cli_request X socket credential request =
     (case client_request (ct_codec (cx_client X)) (ct_token (cx_client X) credential)
            (ct_connect (cx_client X) socket) request of
        Inr response \<Rightarrow> areturn response
      | Inl (Failed e) \<Rightarrow> afail (CliClient e)
      | Inl Dropped \<Rightarrow> (\<lambda>w. (Inl Dropped, w)))"

definition read_input :: "command_host \<Rightarrow> path_buf option \<Rightarrow> u8 list commanding" where
  "read_input X input = (case input of
     Some p \<Rightarrow> if p \<noteq> PathBuf False [''-''] then alift (map_err CliIo (cx_read X p))
              else alift (map_err CliIo (cx_stdin X))
   | None \<Rightarrow> alift (map_err CliIo (cx_stdin X)))"

definition client_command :: "command_host \<Rightarrow> path_buf \<Rightarrow> path_buf \<Rightarrow> service_request \<Rightarrow> started commanding" where
  "client_command X socket credential request =
     abind (cli_request X socket credential request) (\<lambda>response.
     abind (print_response X response) (\<lambda>_. areturn Finished))"

fun run_command :: "command_host \<Rightarrow> command \<Rightarrow> started commanding" where
  "run_command X (InitCommand instance_dir) =
     abind (on_files CliConfig (initialize (be_env (cx_backend X)) (cx_config X) instance_dir)) (\<lambda>config.
     abind (print_line (path_buf_text (path_join (sc_instance_dir config) ''service.json''))) (\<lambda>_. areturn Finished))"
| "run_command X (ServeCommand config) = serve_command X config"
| "run_command X (McpCommand socket credential) =
     abind (alift (map_err CliMcp (serve_stdio (cx_handshake X) (cx_joined X)))) (\<lambda>_.
       areturn (Proxied (mcp_new socket credential)))"
| "run_command X (RequestCommand socket credential input) =
     abind (read_input X input) (\<lambda>bytes.
     abind (alift (map_err CliJson (cx_parse_request X bytes))) (\<lambda>request.
       client_command X socket credential request))"
| "run_command X (ImportCommand socket credential case_name local_path) =
     abind (alift (map_err CliIo (cx_read X local_path))) (\<lambda>bytes.
     abind (alift (map_err CliDomain (identifier_try_from CaseId ''case'' case_name))) (\<lambda>c.
       client_command X socket credential (RequestEvidence (Import c (cx_encode_base64 X bytes)))))"
| "run_command X (SchemaCommand service_config) =
     abind (alift (map_err CliJson (cx_schema X service_config))) (\<lambda>encoded.
     abind (print_line encoded) (\<lambda>_. areturn Finished))"
| "run_command X (StatusCommand socket credential) =
     client_command X socket credential (RequestSystem Status)"

text \<open>The exit status of the process, which gives its locks back.\<close>

definition main_command :: "command_host \<Rightarrow> command \<Rightarrow> command_world \<Rightarrow> bool \<times> command_world" where
  "main_command X command w =
     (case run_command X command w of (r, w') \<Rightarrow>
        (case r of Inr _ \<Rightarrow> True | Inl _ \<Rightarrow> False,
         w'\<lparr>cw_machine := release_all (cx_process X) (cw_machine w')\<rparr>))"

section \<open>The order of a start\<close>

lemma load_config_kept: "load_config H p s = (r, s') \<Longrightarrow> s' = s"
  by (auto simp: load_config_def abind_def inspecting_def alift_def areturn_def split: sum.splits prod.splits)

lemma daemon_lock_taken:
  assumes "ma_locks m (mh_follow H (daemon_lock_path dir)) \<noteq> None" "daemon_lock_acquire H process dir m = (r, m')"
  shows "\<exists>e. r = Inl (Failed e) \<and> ma_locks m' = ma_locks m
    \<and> (mh_fault H OpenFile (daemon_lock_path dir) = None \<longrightarrow> mh_fault H LockFile (daemon_lock_path dir) = None
        \<longrightarrow> e = AlreadyRunning)"
proof -
  from daemon_lock_gains [OF assms(2)] assms(1) have locks: "ma_locks m' = ma_locks m" "\<exists>e. r = Inl e"
    by (auto simp: gains_lock_def split: sum.splits)
  from assms show ?thesis
    using locks
    by (auto simp: daemon_lock_acquire_def abind_def amap_err_def open_lock_file_def unless_fault_def afail_def
        try_lock_def Let_def split: option.splits sum.splits if_splits prod.splits)
qed

lemma serve_command_parts:
  assumes "load_config (cx_config X) p (cw_files w) = (Inr config, files)"
  shows "serve_command X p w =
     abind (on_machine CliServer (daemon_lock_acquire (cx_machine X) (cx_process X) (sc_instance_dir config))) (\<lambda>_.
     abind (open_api X config) (\<lambda>S.
     abind (on_machine CliServer (serve_start (cx_machine X) (cx_process X) (with_daemon_lock config))) (\<lambda>_.
       areturn (Serving S (with_daemon_lock config))))) w"
proof -
  from load_config_kept [OF assms] have "w\<lparr>cw_files := files\<rparr> = w" by simp
  then show ?thesis
    by (simp add: serve_command_def abind_def on_files_def amap_err_def assms Let_def)
qed

text \<open>What a daemon that has started rests on.\<close>

definition started_from :: "command_host \<Rightarrow> service_config \<Rightarrow> command_world \<Rightarrow> plant service_env \<Rightarrow> command_world \<Rightarrow> bool" where
  "started_from X config w S w' \<longleftrightarrow>
     ma_locks (cw_machine w') (mh_follow (cx_machine X) (daemon_lock_path (sc_instance_dir config))) = Some (cx_process X)
     \<and> cw_journal w' = recover_interrupted_dispatches (be_env (cx_backend X)) (cx_clock X) (cw_journal w)
     \<and> ma_entries (cw_machine w') (sc_socket config) = Some SocketFile
     \<and> ma_modes (cw_machine w') (sc_socket config) = sc_socket_mode config
     \<and> (\<exists>artifacts B. backend_open ((cx_backend X)\<lparr>be_store := artifacts\<rparr>) (sc_instruments config) = Inr B
          \<and> S = device_service B (cx_service X) (sc_credentials config))"

lemma open_api_result:
  assumes "open_api X config w = (r, w')"
  shows "(\<forall>place. ma_locks (cw_machine w) place \<noteq> None \<longrightarrow> ma_locks (cw_machine w') place = ma_locks (cw_machine w) place)
    \<and> (\<forall>S. r = Inr S \<longrightarrow>
        cw_journal w' = recover_interrupted_dispatches (be_env (cx_backend X)) (cx_clock X) (cw_journal w)
        \<and> (\<exists>artifacts B. backend_open ((cx_backend X)\<lparr>be_store := artifacts\<rparr>) (sc_instruments config) = Inr B
             \<and> S = device_service B (cx_service X) (sc_credentials config)))"
proof -
  obtain r1 files where artifacts: "store_open (cx_current_dir X) (cx_process X)
      (path_buf_text (path_join (sc_instance_dir config) ''artifacts'')) (cw_files w) = (r1, files)" by fastforce
  obtain r2 m journal where opened: "journal_open (cx_machine X) (cx_process X) (be_env (cx_backend X)) (cx_clock X)
      (journal_path config) (cw_machine w, cw_journal w) = (r2, m, journal)" by (metis prod.exhaust)
  note journal = journal_open_result [OF opened]
  have world: "cw_machine (w\<lparr>cw_files := files\<rparr>) = cw_machine w" "cw_journal (w\<lparr>cw_files := files\<rparr>) = cw_journal w"
    by simp_all
  show ?thesis
    using assms journal
    by (cases r1; cases r2)
      (auto simp: open_api_def abind_def on_files_def on_journal_def amap_err_def alift_def areturn_def artifacts opened
        split: stop.splits sum.splits prod.splits)
qed

text \<open>C11: The daemon lock comes first: while any process holds the lock of the instance, another
  \<open>serve\<close> is refused, as already running when its calls do not fail otherwise, and it
  neither opens the journal nor the artifact store nor takes a lock. A \<open>serve\<close> that goes
  on to accept connections found the lock free and holds it; it has recovered the journal,
  opened the backend on the configured instruments, and serves exactly that backend at
  the configured socket.\<close>

theorem serve_locks_first:
  assumes "load_config (cx_config X) p (cw_files w) = (Inr config, files)"
    and "run_command X (ServeCommand p) w = (r, w')"
    and "lock = daemon_lock_path (sc_instance_dir config)"
  shows "(ma_locks (cw_machine w) (mh_follow (cx_machine X) lock) \<noteq> None \<longrightarrow>
      (\<exists>e. r = Inl (Failed (CliServer e))
        \<and> (mh_fault (cx_machine X) OpenFile lock = None \<longrightarrow> mh_fault (cx_machine X) LockFile lock = None
            \<longrightarrow> e = AlreadyRunning))
      \<and> cw_files w' = cw_files w \<and> cw_journal w' = cw_journal w \<and> cw_printed w' = cw_printed w
      \<and> ma_locks (cw_machine w') = ma_locks (cw_machine w))
    \<and> (\<forall>start. r = Inr start \<longrightarrow> ma_locks (cw_machine w) (mh_follow (cx_machine X) lock) = None
        \<and> (\<exists>S. start = Serving S (with_daemon_lock config) \<and> started_from X config w S w'))"
proof -
  obtain r1 m1 where locked: "daemon_lock_acquire (cx_machine X) (cx_process X) (sc_instance_dir config) (cw_machine w)
      = (r1, m1)" by fastforce
  let ?w1 = "w\<lparr>cw_machine := m1\<rparr>"
  obtain r2 w2 where opened: "open_api X config ?w1 = (r2, w2)" by fastforce
  obtain r3 m3 where bound: "serve_start (cx_machine X) (cx_process X) (with_daemon_lock config) (cw_machine w2)
      = (r3, m3)" by fastforce
  have run: "(r, w') = (case r1 of Inl e \<Rightarrow> (Inl (map_stop CliServer e), ?w1)
      | Inr _ \<Rightarrow> (case r2 of Inl e \<Rightarrow> (Inl e, w2)
      | Inr S \<Rightarrow> (case r3 of Inl e \<Rightarrow> (Inl (map_stop CliServer e), w2\<lparr>cw_machine := m3\<rparr>)
      | Inr _ \<Rightarrow> (Inr (Serving S (with_daemon_lock config)), w2\<lparr>cw_machine := m3\<rparr>))))"
    using assms(2) serve_command_parts [OF assms(1)]
    by (auto simp: abind_def on_machine_def amap_err_def locked opened bound areturn_def split: sum.splits stop.splits)
  note lock = daemon_lock_gains [OF locked]
  show ?thesis
  proof (cases r1)
    case (Inl e)
    with run have refused: "r = Inl (map_stop CliServer e)" "w' = ?w1" by simp_all
    with lock Inl daemon_lock_taken [OF _ locked] assms(3) show ?thesis
      by (auto simp: gains_lock_def)
  next
    case (Inr u)
    let ?place = "mh_follow (cx_machine X) lock"
    from lock Inr assms(3) have free: "ma_locks (cw_machine w) ?place = None"
      "ma_locks m1 ?place = Some (cx_process X)" by (auto simp: gains_lock_def)
    note api = open_api_result [OF opened]
    have "ma_locks (cw_machine w2) ?place = Some (cx_process X)" using api free(2) by simp
    with serve_start_locks [OF bound] have held: "ma_locks m3 ?place = Some (cx_process X)" by simp
    have "start = Serving S (with_daemon_lock config) \<and> started_from X config w S w'"
      if "r2 = Inr S" "r3 = Inr ()" "r = Inr start" for S start
      using run Inr that api held bound assms(3) serve_start_socket [OF bound [unfolded that(2)]]
      by (auto simp: started_from_def)
    with run Inr free(1) show ?thesis by (cases r2; cases r3) auto
  qed
qed

section \<open>Clients leave the instance alone\<close>

definition same_instance :: "command_world \<Rightarrow> command_world \<Rightarrow> bool" where
  "same_instance w w' \<longleftrightarrow> (\<exists>lines. length lines \<le> 1 \<and> w' = w\<lparr>cw_printed := cw_printed w @ lines\<rparr>)"

lemma same_instance_refl: "same_instance w w"
  unfolding same_instance_def by (intro exI [of _ "[]"]) simp

lemma same_instance_print: "same_instance w (w\<lparr>cw_printed := cw_printed w @ [line]\<rparr>)"
  unfolding same_instance_def by (intro exI [of _ "[line]"]) simp

lemma client_command_same: "client_command X socket credential request w = (r, w') \<Longrightarrow> same_instance w w'"
  by (auto simp: client_command_def cli_request_def print_response_def print_line_def abind_def areturn_def afail_def
      intro: same_instance_refl same_instance_print split: sum.splits stop.splits)

lemma read_input_same: "snd (read_input X input w) = w"
  by (simp add: read_input_def alift_def split: option.split sum.split)

text \<open>Every command but \<open>init\<close> and \<open>serve\<close> leaves the instance as it is: it changes no
  file, entry or lock and not the journal, whatever it is given, and prints at most one line; so
  all that it does to an instance it does by a request that the daemon authenticates.\<close>

theorem clients_leave_instance:
  assumes "run_command X command w = (r, w')" "\<forall>p. command \<noteq> InitCommand p" "\<forall>p. command \<noteq> ServeCommand p"
  shows "same_instance w w'"
proof -
  have parsed: "same_instance w w'" if "abind (alift x) (\<lambda>y. client_command X socket credential (f y)) w = (r, w')"
    for x :: "cli_error + 'x" and f socket credential
    using that client_command_same by (cases x) (auto simp: abind_def alift_def same_instance_refl)
  show ?thesis
  proof (cases command)
    case (RequestCommand socket credential input)
    obtain r1 w1 where input: "read_input X input w = (r1, w1)" by fastforce
    with read_input_same [of X input w] have "w1 = w" by simp
    with RequestCommand assms(1) input show ?thesis
      by (cases r1) (auto simp: abind_def same_instance_refl intro: parsed)
  next
    case (ImportCommand socket credential c p)
    with assms(1) show ?thesis by (auto simp: abind_def alift_def same_instance_refl
          split: sum.splits intro: client_command_same)
  next
    case (SchemaCommand b)
    with assms(1) show ?thesis
      by (auto simp: abind_def alift_def print_line_def areturn_def same_instance_refl same_instance_print split: sum.splits)
  qed (use assms in \<open>auto simp: abind_def alift_def areturn_def same_instance_refl intro: client_command_same split: sum.splits\<close>)
qed

end
