(* ===== verification/Command_Examples.thy ===== *)
theory Command_Examples
  imports Command_Line Device_Examples
begin

text \<open>
  A concrete instance on which the properties of the daemon and of the command line are
  witnessed: two processes that serve the same directory, with a stale socket in it.
\<close>

section \<open>The machine\<close>

definition ex_machine_host :: machine_host where
  "ex_machine_host = \<lparr>mh_follow = id, mh_fault = (\<lambda>_ _. None), mh_sqlite = None, mh_new_mode = 0x1ED\<rparr>"

definition ex_socket :: path_buf where "ex_socket = path_join ex_instance SOCKET_FILE"

definition ex_machine :: machine where
  "ex_machine = \<lparr>ma_entries = [ex_socket \<mapsto> SocketFile], ma_locks = (\<lambda>_. None), ma_modes = (\<lambda>_. 0x1ED),
     ma_groups = (\<lambda>_. None)\<rparr>"

lemma ex_machine_host_simps [simp]:
  "mh_follow ex_machine_host p = p" "mh_fault ex_machine_host call p = None" "mh_sqlite ex_machine_host = None"
  by (simp_all add: ex_machine_host_def)

lemma ex_service_config_simps [simp]:
  "sc_instance_dir ex_service_config = ex_instance" "sc_socket ex_service_config = ex_socket"
  "sc_socket_mode ex_service_config = DEFAULT_SOCKET_MODE" "sc_socket_group_gid ex_service_config = None"
  "sc_credentials ex_service_config = ex_credentials" "sc_instruments ex_service_config = []"
  by (simp_all add: ex_service_config_def ex_socket_def)

lemma ex_unless_fault [simp]: "unless_fault ex_machine_host call p m = m"
  by (simp add: unless_fault_def)

lemma ex_lock_opened:
  obtains m' where "open_lock_file ex_machine_host p m = (Inr (), m')" "ma_locks m' = ma_locks m"
  using open_lock_file_locks by (metis (no_types, lifting) ex_unless_fault open_lock_file_def)

lemma ex_lock_free:
  assumes "ma_locks m (daemon_lock_path ex_instance) = None"
  obtains m' where "daemon_lock_acquire ex_machine_host p ex_instance m = (Inr (), m')"
    "ma_locks m' (daemon_lock_path ex_instance) = Some p"
proof -
  obtain m1 where "open_lock_file ex_machine_host (daemon_lock_path ex_instance) m = (Inr (), m1)"
    "ma_locks m1 = ma_locks m" by (rule ex_lock_opened)
  with assms show thesis using that by (simp add: daemon_lock_acquire_def abind_def amap_err_def try_lock_def)
qed

lemma ex_lock_taken:
  assumes "ma_locks m (daemon_lock_path ex_instance) \<noteq> None"
  obtains m' where "daemon_lock_acquire ex_machine_host p ex_instance m = (Inl (Failed AlreadyRunning), m')"
proof -
  obtain m1 where "open_lock_file ex_machine_host (daemon_lock_path ex_instance) m = (Inr (), m1)"
    "ma_locks m1 = ma_locks m" by (rule ex_lock_opened)
  with assms show thesis using that by (auto simp: daemon_lock_acquire_def abind_def amap_err_def try_lock_def)
qed

section \<open>Daemons\<close>

definition ex_site :: "nat site" where
  "ex_site = \<lparr>si_machine = ex_machine, si_phase = (\<lambda>_. Down),
     si_service = \<lparr>svc_world = ex_world empty_store 0 0, svc_tasks = []\<rparr>, si_opened = []\<rparr>"

lemma daemons_take_turns_witness:
  "\<exists>y. (site_step ex_machine_host ex_service_config ex_codec ex_service)\<^sup>*\<^sup>* ex_site y
     \<and> si_phase y 1 = Owner \<and> (\<forall>q. q \<noteq> 1 \<longrightarrow> si_phase y q = Down)"
proof -
  let ?step = "site_step ex_machine_host ex_service_config ex_codec ex_service"
  have "ma_locks ex_machine (daemon_lock_path ex_instance) = None" by (simp add: ex_machine_def)
  then obtain m where m: "daemon_lock_acquire ex_machine_host 1 ex_instance ex_machine = (Inr (), m)"
    "ma_locks m (daemon_lock_path ex_instance) = Some 1" by (rule ex_lock_free)
  let ?x = "in_phase 1 Owner m ex_site"
  from m(2) have "ma_locks m (daemon_lock_path ex_instance) \<noteq> None" by simp
  then obtain m' where m': "daemon_lock_acquire ex_machine_host 2 ex_instance m = (Inl (Failed AlreadyRunning), m')"
    by (rule ex_lock_taken)
  let ?y = "in_phase 2 Down (release_all 2 m') ?x"
  have "?step ex_site ?x" by (rule site_step.Locks [OF refl]) (use m(1) in \<open>simp_all add: ex_site_def\<close>)
  moreover have "?step ?x ?y" by (rule site_step.LockRefused [OF refl]) (use m' in \<open>simp_all add: ex_site_def\<close>)
  ultimately have run: "?step\<^sup>*\<^sup>* ex_site ?y" by (meson converse_rtranclp_into_rtranclp rtranclp.rtrancl_refl)
  have start: "si_phase ex_site = (\<lambda>_. Down)" "ma_locks (si_machine ex_site) = (\<lambda>_. None)"
    by (simp_all add: ex_site_def ex_machine_def)
  have owner: "si_phase ?y 1 = Owner" by simp
  with daemons_take_turns [OF run start] have "si_phase ?y q = Down" if "q \<noteq> 1" for q
    using that by (metis daemon_phase.distinct(1))
  with run owner show ?thesis by blast
qed

lemma socket_replaced_only_witness:
  "\<exists>m. serve_start ex_machine_host 1 (with_daemon_lock ex_service_config) ex_machine = (Inr (), m)
     \<and> ma_entries m ex_socket = Some SocketFile \<and> ma_modes m ex_socket = 0x180"
proof -
  obtain m where run: "serve_start ex_machine_host 1 (with_daemon_lock ex_service_config) ex_machine = (Inr (), m)"
    by (simp add: serve_start_def with_daemon_lock_def clear_socket_def bind_socket_def change_group_def change_mode_def
        ex_machine_def abind_def amap_err_def areturn_def)
  from socket_replaced_only [OF run] run show ?thesis by (simp add: DEFAULT_SOCKET_MODE_def)
qed

section \<open>The command line\<close>

definition ex_client_host :: client_host where
  "ex_client_host = \<lparr>ct_codec = ex_codec, ct_token = (\<lambda>_. Inr ''t''),
     ct_connect = (\<lambda>_. Inr (working_stream []
       (\<lambda>arrived. fst (served ex_codec ex_service ex_bindings 1 ex_idle arrived))))\<rparr>"

definition ex_command_host :: command_host where
  "ex_command_host = \<lparr>cx_config = Service_Examples.ex_host\<lparr>ch_read := (\<lambda>_ _. Inr []),
       ch_parse_config := (\<lambda>_. Inr ex_service_config)\<rparr>,
     cx_machine = ex_machine_host, cx_process = 1, cx_clock = ex_clock, cx_backend = ex_backend_env,
     cx_service = ex_process, cx_current_dir = Inr [], cx_client = ex_client_host, cx_handshake = Inr (), cx_joined = Inr (),
     cx_read = (\<lambda>_. Inl ''missing''), cx_stdin = Inr [], cx_parse_request = (\<lambda>_. Inr (RequestSystem Status)),
     cx_encode_base64 = (\<lambda>_. []), cx_schema = (\<lambda>_. Inr ''{}''), cx_response_pretty = (\<lambda>_. Inr ''response'')\<rparr>"

definition ex_busy_world :: command_world where
  "ex_busy_world = \<lparr>cw_files = ex_new_disk,
     cw_machine = ex_machine\<lparr>ma_locks := [daemon_lock_path ex_instance \<mapsto> 2]\<rparr>,
     cw_journal = empty_store, cw_printed = []\<rparr>"

lemma ex_loaded: "load_config (cx_config ex_command_host) p s = (Inr ex_service_config, s)"
proof -
  let ?H = "cx_config ex_command_host"
  have "ch_status ?H = ch_status Service_Examples.ex_host" by (simp add: ex_command_host_def)
  moreover have "ch_metadata ?H = ch_metadata Service_Examples.ex_host" by (simp add: ex_command_host_def)
  ultimately have "validate_paths ?H ex_service_config s = validate_paths Service_Examples.ex_host ex_service_config s"
    by (simp add: validate_paths_def socket_directory_trusted_def current_uid_def cong: if_cong)
  then have "validate_paths ?H ex_service_config s = Inr ()" by (simp add: ex_paths_valid)
  moreover have "ch_read ?H p s = Inr []" "ch_parse_config ?H [] = Inr ex_service_config"
    by (simp_all add: ex_command_host_def)
  ultimately show ?thesis
    by (simp add: load_config_def abind_def inspecting_def alift_def areturn_def)
qed

lemma ex_store_opens:
  "\<exists>A s. store_open (Inr []) 1 ''/srv/artifacts'' ex_new_disk = (Inr A, s)"
proof -
  have root: "normalize_root (Inr []) ''/srv/artifacts'' = Inr [''srv'', ''artifacts'']"
    unfolding normalize_root_def by code_simp
  have "calm (Suc 6) ex_new_disk" unfolding calm_def ex_new_disk_def by (intro exI [of _ 64]) simp
  then have "ends (sys_open_directory [] ''srv'') ex_new_disk 6 [''srv''] (fs_nodes ex_new_disk)"
    using ends_open_directory [of 6 ex_new_disk "[]" "''srv''"] by (simp add: ex_new_disk_def)
  then obtain s1 where srv: "sys_open_directory [] ''srv'' ex_new_disk = (Inr [''srv''], s1)" "calm 6 s1"
    "fs_nodes s1 = fs_nodes ex_new_disk" by (auto simp: ends_def)
  have "ends (ensure_store_directory [''srv''] ''artifacts'') s1 0 ([''srv''] @ [''artifacts''])
      ((fs_nodes s1)([''srv''] @ [''artifacts''] \<mapsto> Directory))"
    using srv by (intro ends_ensure_directory) (simp_all add: ex_new_disk_def)
  then obtain s2 where "ensure_store_directory [''srv''] ''artifacts'' s1 = (Inr [''srv'', ''artifacts''], s2)"
    by (auto simp: ends_def)
  with srv(1) show ?thesis
    by (simp add: store_open_def open_store_root_def root abind_def alift_def areturn_def open_or_create_directory_def
        reach_directory_def atry_def ensure_store_directory_def)
qed

definition ex_free_world :: command_world where
  "ex_free_world = ex_busy_world\<lparr>cw_machine := ex_machine\<rparr>"

lemma ex_command_host_simps [simp]:
  "cx_machine ex_command_host = ex_machine_host" "cx_process ex_command_host = 1" "cx_clock ex_command_host = ex_clock"
  "cx_backend ex_command_host = ex_backend_env" "cx_current_dir ex_command_host = Inr []"
  by (simp_all add: ex_command_host_def)

definition ex_journal_lock :: path_buf where "ex_journal_lock = PathBuf True [''srv'', ''state.lock'']"

lemma ex_journal_locked:
  assumes "ma_locks m ex_journal_lock = None" "ma_entries m ex_journal_lock = None"
  obtains m' where "acquire_journal_lock ex_machine_host 1 (journal_path ex_service_config) m = (Inr (), m')"
    "ma_entries m' = (ma_entries m)(ex_journal_lock := Some PlainFile)"
proof -
  have lock: "with_extension (journal_path ex_service_config) ''lock'' = ex_journal_lock"
    by (simp add: journal_path_def path_join_def ex_instance_def with_extension_def file_stem_def ex_journal_lock_def)
  show thesis
    using assms that
    by (simp add: acquire_journal_lock_def lock Let_def abind_def amap_err_def open_lock_file_def try_lock_def)
qed

lemma ex_api_opens:
  assumes "ma_locks (cw_machine w) ex_journal_lock = None" "ma_entries (cw_machine w) ex_journal_lock = None"
    and "cw_files w = ex_new_disk"
  obtains S w' where "open_api ex_command_host ex_service_config w = (Inr S, w')"
    "ma_entries (cw_machine w') ex_socket = ma_entries (cw_machine w) ex_socket"
proof -
  have root: "path_buf_text (path_join ex_instance ''artifacts'') = ''/srv/artifacts''"
    by (simp add: path_buf_text_def path_join_def ex_instance_def)
  obtain A s where store: "store_open (Inr []) 1 ''/srv/artifacts'' ex_new_disk = (Inr A, s)"
    using ex_store_opens by blast
  obtain m where m: "acquire_journal_lock ex_machine_host 1 (journal_path ex_service_config) (cw_machine w) = (Inr (), m)"
    "ma_entries m = (ma_entries (cw_machine w))(ex_journal_lock := Some PlainFile)"
    using ex_journal_locked [OF assms(1,2)] .
  have "backend_open (ex_backend_env\<lparr>be_store := A\<rparr>) [] = Inr (ex_backend_env\<lparr>be_store := A, be_sessions := []\<rparr>)"
    by (simp add: backend_open_def validate_unique_physical_identities_def)
  moreover have "ex_socket \<noteq> ex_journal_lock"
    by (simp add: ex_socket_def ex_journal_lock_def path_join_def ex_instance_def SOCKET_FILE_def)
  ultimately show thesis
    using that m store assms(3)
    by (simp add: open_api_def abind_def on_files_def on_journal_def amap_err_def alift_def areturn_def root
        journal_open_def)
qed

lemma ex_serve_starts:
  "\<exists>S w'. run_command ex_command_host (ServeCommand (path_join ex_instance CONFIG_FILE)) ex_free_world = (Inr S, w')"
proof -
  let ?lock = "daemon_lock_path ex_instance"
  have other: "ex_journal_lock \<noteq> ?lock" "ex_journal_lock \<noteq> ex_socket" "ex_socket \<noteq> ?lock"
    by (simp_all add: ex_socket_def ex_journal_lock_def path_join_def ex_instance_def SOCKET_FILE_def daemon_lock_path_def)
  let ?m = "ex_machine\<lparr>ma_entries := (ma_entries ex_machine)(?lock := Some PlainFile), ma_locks := [?lock \<mapsto> 1]\<rparr>"
  have locked: "daemon_lock_acquire ex_machine_host 1 ex_instance ex_machine = (Inr (), ?m)"
    using other by (simp add: daemon_lock_acquire_def abind_def amap_err_def open_lock_file_def try_lock_def ex_machine_def)
  let ?w = "ex_free_world\<lparr>cw_machine := ?m\<rparr>"
  have "ma_locks (cw_machine ?w) ex_journal_lock = None" "ma_entries (cw_machine ?w) ex_journal_lock = None"
    "cw_files ?w = ex_new_disk" "ma_entries (cw_machine ?w) ex_socket = Some SocketFile"
    using other by (simp_all add: ex_free_world_def ex_busy_world_def ex_machine_def)
  then obtain S w where api: "open_api ex_command_host ex_service_config ?w = (Inr S, w)"
    "ma_entries (cw_machine w) ex_socket = Some SocketFile" by (metis ex_api_opens)
  have "\<exists>m. serve_start ex_machine_host 1 (with_daemon_lock ex_service_config) (cw_machine w) = (Inr (), m)"
    using api(2) by (simp add: serve_start_def with_daemon_lock_def clear_socket_def bind_socket_def change_group_def
        change_mode_def abind_def amap_err_def areturn_def)
  moreover have "cw_machine ex_free_world = ex_machine" by (simp add: ex_free_world_def)
  ultimately show ?thesis
    using serve_command_parts [OF ex_loaded, of "path_join ex_instance CONFIG_FILE" ex_free_world] api locked
    by (auto simp: abind_def on_machine_def amap_err_def areturn_def)
qed

lemma serve_locks_first_witness:
  "(\<exists>w'. run_command ex_command_host (ServeCommand (path_join ex_instance CONFIG_FILE)) ex_busy_world
       = (Inl (Failed (CliServer AlreadyRunning)), w') \<and> cw_journal w' = empty_store)
   \<and> (\<exists>S w'. run_command ex_command_host (ServeCommand (path_join ex_instance CONFIG_FILE)) ex_free_world
       = (Inr (Serving S (with_daemon_lock ex_service_config)), w')
     \<and> started_from ex_command_host ex_service_config ex_free_world S w')"
proof -
  let ?serve = "ServeCommand (path_join ex_instance CONFIG_FILE)"
  obtain r w1 where run: "run_command ex_command_host ?serve ex_busy_world = (r, w1)" by fastforce
  have "ma_locks (cw_machine ex_busy_world) (daemon_lock_path ex_instance) \<noteq> None"
    "cw_journal ex_busy_world = empty_store"
    by (simp_all add: ex_busy_world_def)
  with serve_locks_first [OF ex_loaded run refl] run have
    "\<exists>w'. run_command ex_command_host ?serve ex_busy_world = (Inl (Failed (CliServer AlreadyRunning)), w')
       \<and> cw_journal w' = empty_store" by auto
  moreover obtain start w2 where started: "run_command ex_command_host ?serve ex_free_world = (Inr start, w2)"
    using ex_serve_starts by blast
  ultimately show ?thesis using serve_locks_first [OF ex_loaded started refl] by blast
qed

lemma clients_leave_instance_witness:
  "\<exists>r w'. run_command ex_command_host (StatusCommand ex_socket (path_join ex_instance ''token'')) ex_busy_world = (r, w')
     \<and> same_instance ex_busy_world w'"
proof -
  let ?command = "StatusCommand ex_socket (path_join ex_instance ''token'')"
  obtain r w' where run: "run_command ex_command_host ?command ex_busy_world = (r, w')" by fastforce
  from clients_leave_instance [OF run] run show ?thesis by auto
qed

end
