(* ===== verification/Stored_Records.thy ===== *)
theory Stored_Records
  imports Store_Safety Supervisor_Ops Store_Examples
begin

text \<open>
  The queries of the journal (\<open>src/store/mod.rs\<close>) and of the supervisor
  (\<open>src/supervisor/mod.rs\<close>), and what they give for a record that was saved, however much later.
\<close>

section \<open>Queries of the journal\<close>

definition profile_query :: "profile_id \<Rightarrow> store \<Rightarrow> commissioned_profile option" where
  "profile_query i s = st_profiles s i"

definition grant_query :: "grant_id \<Rightarrow> store \<Rightarrow> grant option" where
  "grant_query i s = st_grants s i"

definition proposal_query :: "plan_id \<Rightarrow> store \<Rightarrow> plan_proposal option" where
  "proposal_query i s = st_proposals s i"

definition plan_query :: "plan_id \<Rightarrow> store \<Rightarrow> reviewed_plan option" where
  "plan_query i s = st_plans s i"

definition run_query :: "request_id \<Rightarrow> store \<Rightarrow> plan_run option" where
  "run_query i s = st_runs s i"

definition attempt_query :: "attempt_id \<Rightarrow> store \<Rightarrow> attempt_record option" where
  "attempt_query i s = load_attempt s i"

definition attempt_for_request :: "request_id \<Rightarrow> store \<Rightarrow> attempt_record option" where
  "attempt_for_request i s = load_attempt_by_request s i"

definition halted_run_abandonment :: "request_id \<Rightarrow> store \<Rightarrow> halted_run_abandonment_record option" where
  "halted_run_abandonment run s = load_halted_run_abandonment_by_run s run"

definition halted_run_abandonment_by_request :: "request_id \<Rightarrow> store \<Rightarrow> halted_run_abandonment_record option" where
  "halted_run_abandonment_by_request request s = load_halted_run_abandonment_by_request s request"

definition is_halted_pair :: "grant_id \<Rightarrow> plan_id \<Rightarrow> store \<Rightarrow> bool" where
  "is_halted_pair g p s = halted_pair_exists s g p"

definition is_recovery_source_retired :: "grant_id \<Rightarrow> plan_id \<Rightarrow> store \<Rightarrow> bool" where
  "is_recovery_source_retired g p s = recovery_source_retired s g p"

definition halted_pair_resources :: "grant_id \<Rightarrow> plan_id \<Rightarrow> store \<Rightarrow> string set" where
  "halted_pair_resources g p s = lease_keys_for_pair s g p"

section \<open>Queries of the supervisor\<close>

definition sv_case :: "case_id \<Rightarrow> ('d, case_record) sv" where
  "sv_case c = read_store (\<lambda>s. store_case s c)"

definition sv_profile :: "profile_id \<Rightarrow> ('d, commissioned_profile option) sv" where
  "sv_profile i = read_store (profile_query i)"

definition sv_grant :: "grant_id \<Rightarrow> ('d, grant option) sv" where
  "sv_grant i = read_store (grant_query i)"

definition sv_plan :: "plan_id \<Rightarrow> ('d, reviewed_plan option) sv" where
  "sv_plan i = read_store (plan_query i)"

definition sv_attempt :: "attempt_id \<Rightarrow> ('d, attempt_record option) sv" where
  "sv_attempt i = read_store (attempt_query i)"

definition sv_reconciliation_history :: "attempt_id \<Rightarrow> ('d, reconciliation_record list) sv" where
  "sv_reconciliation_history i = read_store (\<lambda>s. reconciliation_history s i)"

section \<open>What was saved stays\<close>

lemma later_record:
  assumes "wf_store s" "(journal_step E)\<^sup>*\<^sup>* s t"
  shows "st_profiles s i = Some profile \<Longrightarrow> st_profiles t i = Some profile"
    and "st_plans s j = Some plan \<Longrightarrow> st_plans t j = Some plan"
    and "st_grants s k = Some g \<Longrightarrow> \<exists>g'. st_grants t k = Some g' \<and> grant_shrinks g g'"
  using later_wf [OF assms(2,1)]
  by (auto simp: evolves_def maps_evolve_def)

lemma save_immutable_reads: "save_immutable table key text v = Inr table' \<Longrightarrow> table' key = Some v"
  by (auto simp: save_immutable_def split: option.splits if_splits)

text \<open>The plan of a review is stored unless one with the same digest was.\<close>

lemma consume_reads:
  assumes "consume_reviewed_proposal E i digest plan s = Inr (x, s')"
  shows "\<exists>stored. st_plans s' (rp_id plan) = Some stored \<and> plan_digest E stored = plan_digest E plan
    \<and> (st_plans s (rp_id plan) = None \<longrightarrow> stored = plan)"
  using assms by (rule consume_ok) auto

text \<open>C40: What was saved is what is read: a profile or a grant that was saved, and a plan whose
  proposal was reviewed, is given back by every later query of its identifier, however many
  transactions and restarts came between: the profile exactly; the plan exactly, or the one that
  its identifier already had with the same digest; the grant with everything but its remaining
  budget, which is at most the same, and its revocation, which is never undone.\<close>

theorem saved_records_read_back:
  assumes "reachable E s" "(journal_step E)\<^sup>*\<^sup>* s1 t"
  shows "(save_profile profile s = Inr ((), s1) \<longrightarrow> profile_query (cp_id profile) t = Some profile)
    \<and> (save_grant g s = Inr ((), s1) \<longrightarrow> (\<exists>g'. grant_query (gr_id g) t = Some g' \<and> grant_shrinks g g'))
    \<and> (consume_reviewed_proposal E i digest plan s = Inr ((), s1) \<longrightarrow>
         (\<exists>stored. plan_query (rp_id plan) t = Some stored \<and> plan_digest E stored = plan_digest E plan
            \<and> (st_plans s (rp_id plan) = None \<longrightarrow> stored = plan)))"
proof (intro conjI impI)
  assume saved: "save_profile profile s = Inr ((), s1)"
  then have "wf_store s1" using save_profile_op.preserves [OF TrueI reachable_wf [OF assms(1)] saved] by simp
  moreover have "st_profiles s1 (cp_id profile) = Some profile"
    using saved by (auto simp: save_profile_def dest: save_immutable_reads)
  ultimately show "profile_query (cp_id profile) t = Some profile"
    unfolding profile_query_def by (rule later_record(1) [OF _ assms(2)])
next
  assume saved: "save_grant g s = Inr ((), s1)"
  then have "wf_store s1" using save_grant_op.preserves [OF TrueI reachable_wf [OF assms(1)] saved] by simp
  moreover have "st_grants s1 (gr_id g) = Some g"
    using saved by (auto simp: save_grant_def dest: save_immutable_reads)
  ultimately show "\<exists>g'. grant_query (gr_id g) t = Some g' \<and> grant_shrinks g g'"
    unfolding grant_query_def by (rule later_record(3) [OF _ assms(2)])
next
  assume saved: "consume_reviewed_proposal E i digest plan s = Inr ((), s1)"
  have "wf_store s1" using entity_steps_preserve(3) [OF reachable_wf [OF assms(1)] saved] by (rule conjunct1)
  note later = later_record(2) [OF this assms(2)]
  from consume_reads [OF saved] obtain stored where
    stored: "st_plans s1 (rp_id plan) = Some stored" "plan_digest E stored = plan_digest E plan"
    "st_plans s (rp_id plan) = None \<longrightarrow> stored = plan" by (elim exE conjE)
  show "\<exists>stored. plan_query (rp_id plan) t = Some stored
      \<and> plan_digest E stored = plan_digest E plan \<and> (st_plans s (rp_id plan) = None \<longrightarrow> stored = plan)"
    unfolding plan_query_def using later [OF stored(1)] stored(2,3) by (intro exI [of _ stored] conjI)
qed

lemma saved_records_read_back_witness:
  "\<exists>s1. save_profile ex_profile empty_store = Inr ((), s1)
     \<and> profile_query ex_profile_id (recover_interrupted_dispatches ex_env ex_clock s1) = Some ex_profile"
proof -
  let ?s1 = "empty_store\<lparr>st_profiles := [ex_profile_id \<mapsto> ex_profile]\<rparr>"
  have saved: "save_profile ex_profile empty_store = Inr ((), ?s1)" "cp_id ex_profile = ex_profile_id"
    by (simp_all add: save_profile_def save_immutable_def empty_store_def ex_profile_def)
  have "(journal_step ex_env)\<^sup>*\<^sup>* ?s1 (recover_interrupted_dispatches ex_env ex_clock ?s1)"
    by (rule r_into_rtranclp, rule journal_step.reopened)
  from conjunct1 [OF saved_records_read_back [OF reachable.created this]] saved show ?thesis by metis
qed

end
