(* ===== verification/Parsed_Values.thy ===== *)
theory Parsed_Values
  imports Conditions Firmware Rust_Text Domain
begin

text \<open>
  Values of validated types as they come out of JSON, and errors as text. The implementations
  of \<open>Deserialize\<close> in \<open>src/conditions.rs\<close>, \<open>src/domain/mod.rs\<close> and \<open>src/firmware.rs\<close> read
  the fields and then call the constructor, so what was parsed keeps the constructor's promise.
  The raw fields are what \<open>serde\<close> read; its error type, with \<open>Error::custom\<close>, is a
  parameter.
\<close>

section \<open>Raw values\<close>

datatype raw_check_test =
    RawBoolean bool
  | RawIntegerRange int int
  | RawTextEquals string
  | RawArtifactDigestEquals string

record raw_observation_check =
  rk_pointer :: string
  rk_test :: raw_check_test

record raw_live_interlock =
  rl_effects :: "effect_permission set"
  rl_observation :: operation
  rl_checks :: "raw_observation_check list"
  rl_maximum_age_milliseconds :: u64

record raw_byte_range =
  rb_start_byte :: u64
  rb_end_byte_exclusive :: u64

text \<open>\<open>Error::custom\<close> on the error of a constructor.\<close>

record 'e serde_error =
  se_condition :: "condition_error \<Rightarrow> 'e"
  se_domain :: "domain_error \<Rightarrow> 'e"

section \<open>Parsing\<close>

definition parse_digest :: "'e serde_error \<Rightarrow> string \<Rightarrow> 'e + artifact_digest" where
  "parse_digest S s = map_err (se_domain S) (digest_try_from s)"

definition parse_pointer :: "'e serde_error \<Rightarrow> string \<Rightarrow> 'e + json_pointer" where
  "parse_pointer S s = map_err (se_condition S) (json_pointer_try_new s)"

fun parse_test :: "'e serde_error \<Rightarrow> raw_check_test \<Rightarrow> 'e + check_test" where
  "parse_test S (RawBoolean b) = Inr (Boolean b)"
| "parse_test S (RawIntegerRange lo hi) = Inr (IntegerRange lo hi)"
| "parse_test S (RawTextEquals s) = Inr (TextEquals s)"
| "parse_test S (RawArtifactDigestEquals s) = rbind (parse_digest S s) (\<lambda>d. Inr (ArtifactDigestEquals d))"

definition parse_check :: "'e serde_error \<Rightarrow> raw_observation_check \<Rightarrow> 'e + observation_check" where
  "parse_check S raw =
     rbind (parse_pointer S (rk_pointer raw)) (\<lambda>p.
     rbind (parse_test S (rk_test raw)) (\<lambda>t.
       map_err (se_condition S) (observation_check_try_new p t)))"

fun parse_list :: "('r \<Rightarrow> 'e + 'a) \<Rightarrow> 'r list \<Rightarrow> 'e + 'a list" where
  "parse_list f [] = Inr []"
| "parse_list f (x # xs) = rbind (f x) (\<lambda>y. rbind (parse_list f xs) (\<lambda>ys. Inr (y # ys)))"

definition parse_interlock :: "'e serde_error \<Rightarrow> raw_live_interlock \<Rightarrow> 'e + live_interlock" where
  "parse_interlock S raw =
     rbind (parse_list (parse_check S) (rl_checks raw)) (\<lambda>checks.
       map_err (se_condition S) (live_interlock_try_new (rl_effects raw) (rl_observation raw) checks
         (rl_maximum_age_milliseconds raw)))"

definition byte_range_try_from :: "raw_byte_range \<Rightarrow> firmware_error + byte_range" where
  "byte_range_try_from raw = byte_range_new (rb_start_byte raw) (rb_end_byte_exclusive raw)"

section \<open>Rendering\<close>

fun raw_test :: "check_test \<Rightarrow> raw_check_test" where
  "raw_test (Boolean b) = RawBoolean b"
| "raw_test (IntegerRange lo hi) = RawIntegerRange lo hi"
| "raw_test (TextEquals s) = RawTextEquals s"
| "raw_test (ArtifactDigestEquals d) = RawArtifactDigestEquals (digest_str d)"

definition raw_check :: "observation_check \<Rightarrow> raw_observation_check" where
  "raw_check c = \<lparr>rk_pointer = pointer_str (chk_pointer c), rk_test = raw_test (chk_test c)\<rparr>"

definition raw_interlock :: "live_interlock \<Rightarrow> raw_live_interlock" where
  "raw_interlock li = \<lparr>rl_effects = li_effects li, rl_observation = li_observation li,
     rl_checks = map raw_check (li_checks li), rl_maximum_age_milliseconds = li_maximum_age_milliseconds li\<rparr>"

definition raw_range :: "byte_range \<Rightarrow> raw_byte_range" where
  "raw_range r = \<lparr>rb_start_byte = start_byte r, rb_end_byte_exclusive = end_byte_exclusive r\<rparr>"

section \<open>Errors as text\<close>

fun json_type :: "json \<Rightarrow> string" where
  "json_type JNull = ''null''"
| "json_type (JBool _) = ''boolean''"
| "json_type (JNumber n) = (if as_i64 (JNumber n) \<noteq> None then ''integer'' else ''number'')"
| "json_type (JString _) = ''string''"
| "json_type (JArray _) = ''array''"
| "json_type (JObject _) = ''object''"

text \<open>Strings are UTF-8 bytes, and \<open>chars()\<close> are the bytes that continue no other with those
  that do.\<close>

definition continues :: "char \<Rightarrow> bool" where
  "continues c \<longleftrightarrow> continuation (of_char c)"

definition char_count :: "string \<Rightarrow> nat" where
  "char_count s = length (filter (\<lambda>c. \<not> continues c) s)"

fun take_chars :: "nat \<Rightarrow> string \<Rightarrow> string" where
  "take_chars n [] = []"
| "take_chars n (c # cs) =
     (if continues c then c # take_chars n cs
      else case n of 0 \<Rightarrow> [] | Suc m \<Rightarrow> c # take_chars m cs)"

definition ellipsis :: string where "ellipsis = [CHR 0xE2, CHR 0x80, CHR 0xA6]"

definition render_value :: "(json \<Rightarrow> string) \<Rightarrow> json \<Rightarrow> string" where
  "render_value to_string value =
     (let rendered = to_string value in
      if char_count rendered \<le> 160 then rendered else take_chars 160 rendered @ ellipsis)"

definition int_text :: "int \<Rightarrow> string" where
  "int_text i = (if i < 0 then CHR ''-'' # nat_text (nat (- i)) else nat_text (nat i))"

text \<open>\<open>Debug\<close> of strings and operations, and \<open>to_string\<close> of JSON.\<close>

record condition_text =
  cx_debug :: "string \<Rightarrow> string"
  cx_operation :: "operation \<Rightarrow> string"
  cx_json :: "json \<Rightarrow> string"

fun expected_text :: "condition_text \<Rightarrow> check_test \<Rightarrow> string" where
  "expected_text X (Boolean b) = ''boolean '' @ (if b then ''true'' else ''false'')"
| "expected_text X (IntegerRange lo hi) = ''integer in '' @ int_text lo @ ''..='' @ int_text hi"
| "expected_text X (TextEquals s) = ''text '' @ cx_debug X s"
| "expected_text X (ArtifactDigestEquals d) = ''artifact digest '' @ digest_str d"

fun condition_error_text :: "condition_text \<Rightarrow> condition_error \<Rightarrow> string" where
  "condition_error_text X (InvalidPointer p reason) =
     ''invalid observation JSON Pointer '' @ cx_debug X p @ '': '' @ reason"
| "condition_error_text X (InvalidRange lo hi) =
     ''invalid integer range '' @ int_text lo @ ''..='' @ int_text hi"
| "condition_error_text X (MissingPointer p) = ''observation has no value at JSON Pointer '' @ cx_debug X p"
| "condition_error_text X (WrongType p expected value) =
     ''observation value at '' @ cx_debug X p @ '' has type '' @ json_type value @ '', expected '' @ expected"
| "condition_error_text X (Mismatch p test value) =
     ''observation value at '' @ cx_debug X p @ '' did not satisfy '' @ expected_text X test
       @ ''; observed '' @ render_value (cx_json X) value"
| "condition_error_text X EmptyInterlockEffects = ''live interlock must gate at least one effect''"
| "condition_error_text X EmptyInterlockChecks = ''live interlock must contain at least one check''"
| "condition_error_text X InvalidMaximumAge = ''live interlock maximum_age_milliseconds must be positive''"
| "condition_error_text X (InterlockOperationHasEffects oper) =
     ''live interlock observation is not read-only: '' @ cx_operation X oper"
| "condition_error_text X InterlockOperationMismatch =
     ''live interlock observation operation differs from its declared operation''"
| "condition_error_text X (StaleInterlockObservation actual maximum) =
     ''live interlock observation age '' @ nat_text (unat actual) @ ''ms exceeds '' @ nat_text (unat maximum) @ ''ms''"

lemma take_chars_count: "char_count (take_chars n s) \<le> n"
  by (induction n s rule: take_chars.induct) (auto simp: char_count_def split: nat.split)

lemma render_value_bounded: "char_count (render_value to_string value) \<le> 161"
proof -
  have "char_count (xs @ ys) = char_count xs + char_count ys" for xs ys by (simp add: char_count_def)
  moreover have "char_count ellipsis = 1" by code_simp
  ultimately show ?thesis
    using take_chars_count [of 160 "to_string value"] by (simp add: render_value_def Let_def)
qed

section \<open>What was parsed does not go wrong\<close>

text \<open>The errors that evaluating a well-formed contract may end with.\<close>

fun evaluation_error :: "condition_error \<Rightarrow> bool" where
  "evaluation_error (MissingPointer _) = True"
| "evaluation_error (WrongType _ _ _) = True"
| "evaluation_error (Mismatch _ _ _) = True"
| "evaluation_error InterlockOperationMismatch = True"
| "evaluation_error (StaleInterlockObservation _ _) = True"
| "evaluation_error _ = False"

definition sound_pointer :: "json_pointer \<Rightarrow> bool" where
  "sound_pointer p \<longleftrightarrow> list_all segment_escapes_valid (drop 1 (split_on (CHR ''/'') (pointer_str p)))"

lemma valid_segment: "validate_pointer_segment x p = Inr () \<longleftrightarrow> segment_escapes_valid x"
  by (simp add: validate_pointer_segment_def)

lemma pointer_new_Inr: "json_pointer_try_new s = Inr p \<Longrightarrow> pointer_str p = s \<and> sound_pointer p"
  by (auto simp: json_pointer_try_new_def sound_pointer_def valid_segment list_all_iff split: if_splits)

lemma resolve_segments_error:
  "list_all segment_escapes_valid segments \<Longrightarrow> resolve_segments p segments v = Inl e \<Longrightarrow> evaluation_error e"
proof (induction p segments v rule: resolve_segments.induct)
  case (2 p encoded rest v)
  from "2.prems"(1) obtain segment where "unescape_pointer_segment encoded p = Inr segment"
    by (simp add: unescape_pointer_segment_def validate_pointer_segment_def)
  with 2 show ?case
    by (cases v) (auto simp: rbind_def ok_or_def split: option.splits sum.splits if_splits)
qed simp

lemma evaluate_test_error: "evaluate_test p v t = Inl e \<Longrightarrow> evaluation_error e"
  by (cases t) (auto simp: rbind_def ok_or_def split: option.splits sum.splits if_splits)

lemma evaluate_checks_error:
  "\<forall>c\<in>set cs. sound_pointer (chk_pointer c) \<Longrightarrow> evaluate_checks obs cs = Inl e \<Longrightarrow> evaluation_error e"
  unfolding evaluate_checks_def
  by (induction cs)
    (auto simp: evaluate_check_def resolve_def sound_pointer_def rbind_def split: sum.splits
      dest: resolve_segments_error evaluate_test_error)

lemma parse_test_Inr: "parse_test S raw = Inr t \<Longrightarrow> raw_test t = raw"
  by (cases raw) (auto simp: parse_digest_def digest_try_from_Inr)

lemma parse_check_Inr:
  "parse_check S raw = Inr c \<Longrightarrow> raw_check c = raw \<and> sound_pointer (chk_pointer c)"
proof -
  assume "parse_check S raw = Inr c"
  then obtain p t where "json_pointer_try_new (rk_pointer raw) = Inr p" "parse_test S (rk_test raw) = Inr t"
    "c = \<lparr>chk_pointer = p, chk_test = t\<rparr>"
    by (auto simp: parse_check_def parse_pointer_def observation_check_try_new_def)
  with pointer_new_Inr parse_test_Inr show ?thesis by (fastforce simp: raw_check_def)
qed

lemma parse_list_Inr:
  "parse_list f xs = Inr ys \<Longrightarrow> list_all2 (\<lambda>x y. f x = Inr y) xs ys"
  by (induction xs arbitrary: ys) auto

section \<open>What is read is exactly what is well formed\<close>

text \<open>A pointer to the value under a list of keys, each escaped as RFC 6901 has it.\<close>

definition pointer_to :: "string list \<Rightarrow> string" where
  "pointer_to keys = concat (map (\<lambda>key. CHR ''/'' # escape_segment key) keys)"

fun well_formed_test :: "raw_check_test \<Rightarrow> bool" where
  "well_formed_test (RawIntegerRange lo hi) \<longleftrightarrow> lo \<le> hi"
| "well_formed_test (RawArtifactDigestEquals s) \<longleftrightarrow>
     length s = 64 \<and> (\<forall>c\<in>set s. (of_char c :: nat) \<in> {0x30..0x39} \<union> {0x61..0x66})"
| "well_formed_test _ \<longleftrightarrow> True"

definition well_formed_check :: "raw_observation_check \<Rightarrow> bool" where
  "well_formed_check raw \<longleftrightarrow> length (rk_pointer raw) \<le> 512 \<and> (\<exists>keys. rk_pointer raw = pointer_to keys)
     \<and> well_formed_test (rk_test raw)"

text \<open>What the contract of a live interlock asks for, in terms of the fields that were read.\<close>

definition well_formed_interlock :: "raw_live_interlock \<Rightarrow> bool" where
  "well_formed_interlock raw \<longleftrightarrow> rl_effects raw \<noteq> {} \<and> rl_checks raw \<noteq> []
     \<and> 0 < unat (rl_maximum_age_milliseconds raw)
     \<and> (\<exists>t i n. rl_observation raw \<in> {InstrumentStatus t i, AdcRead t i n, RelayRead t i n})
     \<and> list_all well_formed_check (rl_checks raw)"

lemma split_on_plain: "c \<notin> set x \<Longrightarrow> split_on c x = [x]"
  by (induction x) auto

lemma split_on_cut: "c \<notin> set x \<Longrightarrow> split_on c (x @ c # rest) = x # split_on c rest"
  by (induction x) auto

lemma split_on_joined: "concat (map ((#) c) (split_on c xs)) = c # xs"
  by (induction xs) (auto split: list.split)

lemma split_on_parts: "x \<in> set (split_on c xs) \<Longrightarrow> c \<notin> set x"
  by (induction xs arbitrary: x) (auto split: list.splits if_splits)

lemma escaped_plain: "CHR ''/'' \<notin> set (escape_segment key)"
  by (induction key) auto

lemma split_pointer_to: "split_on (CHR ''/'') (pointer_to keys) = [] # map escape_segment keys"
proof (induction keys)
  case (Cons key keys)
  have "split_on (CHR ''/'') (escape_segment key @ pointer_to keys) = escape_segment key # map escape_segment keys"
    using Cons by (cases keys) (simp_all add: pointer_to_def split_on_plain split_on_cut escaped_plain)
  then show ?case by (simp add: pointer_to_def)
qed (simp add: pointer_to_def)

lemma escaped_segment: "segment_escapes_valid x \<Longrightarrow> CHR ''/'' \<notin> set x \<Longrightarrow> \<exists>key. x = escape_segment key"
proof (induction x rule: segment_escapes_valid.induct)
  case 1
  show ?case by (rule exI [of _ "[]"]) simp
next
  case (2 x xs)
  show ?case
  proof (cases "x = CHR ''~''")
    case True
    with 2(3) obtain y ys where ys: "xs = y # ys" "y = CHR ''0'' \<or> y = CHR ''1''" "segment_escapes_valid ys"
      by (cases xs) auto
    with 2(1) [OF True ys(1)] 2(4) obtain key where "ys = escape_segment key" by auto
    with True ys have "x # xs = escape_segment ((if y = CHR ''0'' then CHR ''~'' else CHR ''/'') # key)" by auto
    then show ?thesis ..
  next
    case False
    with 2 obtain key where "xs = escape_segment key" by auto
    with False 2(4) have "x # xs = escape_segment (x # key)" by auto
    then show ?thesis ..
  qed
qed

lemma pointer_accepted:
  "json_pointer_try_new s = Inr p \<longleftrightarrow> p = JsonPointer s \<and> length s \<le> 512 \<and> (\<exists>keys. s = pointer_to keys)"
proof -
  have "(s = [] \<or> hd s = CHR ''/'') \<and> list_all segment_escapes_valid (drop 1 (split_on (CHR ''/'') s))
      \<longleftrightarrow> (\<exists>keys. s = pointer_to keys)" (is "?ok \<longleftrightarrow> _")
  proof
    assume ?ok
    show "\<exists>keys. s = pointer_to keys"
    proof (cases s)
      case Nil
      then show ?thesis by (intro exI [of _ "[]"]) (simp add: pointer_to_def)
    next
      case (Cons c rest)
      with \<open>?ok\<close> have s: "s = CHR ''/'' # rest" "list_all segment_escapes_valid (split_on (CHR ''/'') rest)" by auto
      then have "\<forall>x\<in>set (split_on (CHR ''/'') rest). \<exists>key. x = escape_segment key"
        using escaped_segment split_on_parts by (force simp: list_all_iff)
      then obtain keys where "split_on (CHR ''/'') rest = map escape_segment keys"
        by (metis ex_map_conv)
      with s(1) split_on_joined [of "CHR ''/''" rest] have "s = pointer_to keys"
        by (simp add: pointer_to_def comp_def)
      then show ?thesis ..
    qed
  next
    assume "\<exists>keys. s = pointer_to keys"
    then obtain keys where s: "s = pointer_to keys" ..
    then have "s = [] \<or> hd s = CHR ''/''" by (cases keys) (simp_all add: pointer_to_def)
    with s show ?ok by (simp add: split_pointer_to list_all_iff escape_segment_valid)
  qed
  then show ?thesis
    by (auto simp: json_pointer_try_new_def valid_segment list_all_iff)
qed

lemma hex_digits: "is_lower_hex c \<longleftrightarrow> (of_char c :: nat) \<in> {0x30..0x39} \<union> {0x61..0x66}"
  by (auto simp: is_lower_hex_def is_ascii_digit_def less_eq_char_def)

lemma test_accepted:
  "(\<exists>t. parse_test S raw = Inr t \<and> check_test_validate t = Inr ()) \<longleftrightarrow> well_formed_test raw"
  by (cases raw) (auto simp: parse_digest_def digest_try_from_Inr check_test_validate_def list_all_iff
      hex_digits split: if_splits)

lemma check_accepted: "(\<exists>c. parse_check S raw = Inr c) \<longleftrightarrow> well_formed_check raw"
  using test_accepted [of S "rk_test raw"]
  by (auto simp: parse_check_def parse_pointer_def pointer_accepted well_formed_check_def observation_check_try_new_def)

lemma list_accepted: "(\<exists>ys. parse_list f xs = Inr ys) \<longleftrightarrow> list_all (\<lambda>x. \<exists>y. f x = Inr y) xs"
  by (induction xs) auto

lemma interlock_accepted: "(\<exists>li. parse_interlock S raw = Inr li) \<longleftrightarrow> well_formed_interlock raw"
proof -
  have read_only: "is_read_only_observation oper
      \<longleftrightarrow> (\<exists>t i n. oper \<in> {InstrumentStatus t i, AdcRead t i n, RelayRead t i n})" for oper
    by (cases oper) auto
  have empty: "parse_list f xs = Inr ys \<Longrightarrow> ys = [] \<longleftrightarrow> xs = []" for f :: "'x \<Rightarrow> 'y + 'z" and xs ys
    by (cases xs) auto
  show ?thesis
    using list_accepted [of "parse_check S" "rl_checks raw"]
    by (auto simp: parse_interlock_def live_interlock_try_new_def Let_def live_interlock_validate_ok_iff
        well_formed_interlock_def check_accepted read_only empty unat_gt_0)
qed

text \<open>C39: Exactly the well-formed contracts are read: a live interlock is accepted from JSON just
  when it gates an effect, observes by a read-only operation, has a positive age and checks, every
  range of which is not inverted, every digest 64 lower-case hexadecimal digits and every pointer at
  most 512 bytes that lead to a value under some keys as RFC 6901 escapes them. What was accepted
  renders to what was read, and evaluating it on any operation, observation and age ends in
  acceptance or in a fact about the observation (a value that is missing, of the wrong type or
  outside its test, another operation, too old), never in an error about the contract, a pointer or
  a range.\<close>

theorem interlock_reading_exact:
  "case parse_interlock S raw of
     Inl e \<Rightarrow> \<not> well_formed_interlock raw
   | Inr li \<Rightarrow> well_formed_interlock raw \<and> raw_interlock li = raw
       \<and> (\<forall>oper obs age. case validate_interlock_observation li oper obs age of
            Inl e \<Rightarrow> evaluation_error e | Inr u \<Rightarrow> interlock_holds li oper obs age)"
proof (cases "parse_interlock S raw")
  case (Inl e)
  with interlock_accepted [of S raw] show ?thesis by auto
next
  case (Inr li)
  then obtain checks where checks: "parse_list (parse_check S) (rl_checks raw) = Inr checks"
    and li: "live_interlock_try_new (rl_effects raw) (rl_observation raw) checks (rl_maximum_age_milliseconds raw) = Inr li"
    by (auto simp: parse_interlock_def)
  from li have parts: "li = \<lparr>li_effects = rl_effects raw, li_observation = rl_observation raw, li_checks = checks,
      li_maximum_age_milliseconds = rl_maximum_age_milliseconds raw\<rparr>" "live_interlock_validate li = Inr ()"
    by (auto simp: live_interlock_try_new_def Let_def)
  from parse_list_Inr [OF checks] have "list_all2 (\<lambda>x c. raw_check c = x \<and> sound_pointer (chk_pointer c)) (rl_checks raw) checks"
    by (rule list_all2_mono) (rule parse_check_Inr)
  then have "map raw_check checks = rl_checks raw" and sound: "\<forall>c\<in>set checks. sound_pointer (chk_pointer c)"
    by (induction rule: list_all2_induct) auto
  with parts have same: "raw_interlock li = raw" by (simp add: raw_interlock_def)
  have "evaluation_error e" if "validate_interlock_observation li oper obs age = Inl e" for oper obs age e
    using that parts sound
    by (auto simp: validate_interlock_observation_def split: if_splits dest: evaluate_checks_error)
  with same interlock_accepted [of S raw] interlock_observation_ok_iff [of li] Inr show ?thesis
    by (auto split: sum.split)
qed

end
