(* ===== verification/Spec2Isabelle.thy ===== *)
theory Spec2Isabelle
  imports Supervisor_Recovery Cobs Flash Simulator Firmware Bus_Program Numato Bus_Examples Backend_Examples
    Service_Examples Device_Examples Command_Examples Stored_Records Parsed_Values
begin

text \<open>
  \<^bold>\<open>Cheirismos\<close> lets an automated agent operate laboratory instruments on a target under
  reviewed plans. A supervisor decides what may be done, a journal in SQLite records it
  before and after it happens, and instrument backends do it. This library models the
  program's core from the Rust sources and proves what makes it safe: an operation that
  reaches a device was authorised by live records, at most once per attempt, exclusively for
  the resources it touches, with live interlocks witnessed; what happened is recorded once
  and only believed on bound evidence; and what cannot be known stays unknown until a fresh
  observation settles it.

  \<^bold>\<open>Data.\<close> \<open>Prelude\<close> holds machine integers (words of the declared width, checked and
  saturating arithmetic), results as sums (\<open>Inl\<close> an error, \<open>Inr\<close> a value), loops that
  stop at the first error, and keyed rows. \<open>Domain_Base\<close> and \<open>Domain\<close>
  (src/domain/mod.rs) hold identifiers, digests, operations with their effects and budgets,
  and every record. Serialisation to JSON, SHA-256 and time stamps are crates, not part of
  the repository: they are the fields of the record \<open>env\<close>, an argument of what uses
  them. \<open>Conditions\<close> (src/conditions.rs) evaluates JSON pointers, typed checks and
  interlock contracts over a datatype of JSON values; \<open>Parsed_Values\<close> has how they are
  read from JSON and the text of their errors.

  \<^bold>\<open>Journal.\<close> \<open>Store\<close> (src/store/mod.rs) has one field per table and one function per
  transaction; \<open>'a tx\<close> is a function of the tables that returns an error, with nothing
  changed, or a value and the new tables. \<open>Store_Invariants\<close> states the invariant
  \<open>wf_store\<close> and the relation \<open>evolves\<close> between a journal and a later one.
  \<open>Store_Writes\<close>, \<open>Store_Dispatch\<close>, \<open>Store_Admission\<close> and \<open>Store_Recovery\<close> prove
  that every transaction keeps both. \<open>Store_Machine\<close> puts them together: the locale
  \<open>journal_op\<close> is the contract of a transaction, interpreted for each of them, and the
  step relation \<open>journal_step\<close> has one rule per transaction and one for a restart, with
  \<open>reachable\<close> the journals it leads to. \<open>Store_Safety\<close> draws the properties of the
  journal from it; \<open>Stored_Records\<close> has its queries.

  \<^bold>\<open>Supervisor.\<close> \<open>Supervisor\<close> and \<open>Supervisor_Ops\<close> (src/supervisor/mod.rs and
  src/supervisor/interlocks.rs) are state passing over a \<open>world\<close>: the journal, the device
  and a count of clock readings. Backend, artifact store and clock are traits or services
  outside; they are the fields of the record \<open>bench\<close>, unconstrained functions, so every
  property holds for every backend. \<open>Supervisor_Safety\<close> shows that each operation is a
  sequence of journal steps (the locale \<open>supervised\<close>, interpreted for every operation, and
  the relation \<open>system_step\<close>, which adds interruptions), and that in a sequence of operations no
  attempt is executed twice; the threads of the service are the subject of
  \<open>Service_Interleaving\<close>. \<open>Supervisor_Authority\<close> is about authorisation, budgets, roles, review and
  admission; \<open>Supervisor_Outcomes\<close> about what an execution leaves; \<open>Interlock_Safety\<close>
  about live interlocks; \<open>Supervisor_Recovery\<close> about device calls, reconciliation and
  resumption. \<open>Store_Examples\<close> and \<open>Supervisor_Examples\<close> hold the concrete journals and
  the concrete backend on which the witnesses run.

  \<^bold>\<open>Instruments and images.\<close> \<open>Instruments\<close> and \<open>Device_Errors\<close> have the errors of the
  boundary and their texts (src/instruments/error.rs). \<open>Cobs\<close> (src/instruments/cobs.rs)
  models the framing and its bounded reader, with the locale \<open>framing\<close> for what a peer
  relies on. \<open>Flash\<close> (src/instruments/flash.rs) plans NOR commands; \<open>Simulator\<close>
  (src/instruments/simulator.rs) models the persistent simulator, with the locale
  \<open>restartable\<close> for a device whose writes may fail and that is opened again after every error; \<open>Firmware\<close> (src/firmware.rs) inspects, compares and composes images over
  \<open>Slices\<close>. \<open>Device_Wire\<close> has the monad of code that talks to a device: an \<open>action\<close> passes
  a state and ends with a value, a failure, or by being dropped at a deadline. \<open>Bpio2\<close>
  (src/instruments/bpio2.rs) is the Bus Pirate adapter on it, \<open>Numato\<close>
  (src/instruments/numato.rs) the relay board, \<open>Video\<close> (src/instruments/video.rs) the capture
  of a frame; a line is a script of what the device does. \<open>Rust_Text\<close> has the functions on
  text that these use.

  \<^bold>\<open>Backends.\<close> \<open>Device_Config\<close> (src/instruments/config.rs and
  src/service/backend/identity.rs) validates configurations and their physical identities,
  \<open>Preflight\<close> (preflight.rs) checks an operation before any access, \<open>Device_Results\<close> shapes
  what an operation reports. \<open>Bus\<close> (src/service/backend/bus.rs) and \<open>Simulated_Backend\<close>
  (simulated.rs) carry operations out; \<open>Bus_Safety\<close>, \<open>Bus_Program\<close> and \<open>Bus_Operations\<close> are
  about what a bus operation sends and what its completion means. \<open>Device_Backend\<close> and
  \<open>Backend_Sessions\<close> (src/service/backend/mod.rs) open, identify, use and close the sessions and
  publish evidence; \<open>Backend_Invariant\<close>, \<open>Backend_Safety\<close> and \<open>Backend_Evidence\<close> prove the
  invariant of the sessions, that identity comes before effect, and that receipts satisfy the
  supervisor. \<open>Movement\<close> holds the locale \<open>movement\<close>, a relation between states that every
  part of an action keeps, by which these are proved.

  \<^bold>\<open>Evidence.\<close> \<open>Evidence\<close> (src/evidence/mod.rs) is the artifact store over a file system
  modelled call by call, with failures and crashes at any call. \<open>Evidence_Durability\<close> shows
  that what was published stays; \<open>Evidence_Liveness\<close> that publishing succeeds where nothing
  fails.

  \<^bold>\<open>Service.\<close> \<open>Service_Auth\<close> (src/service/auth.rs) and \<open>Service_Config\<close> (config.rs) have
  credentials and the configuration, \<open>Service_Provisioning\<close> a new instance. \<open>Service_Execution\<close>
  and \<open>Service_Api\<close> (api.rs) have every request and the tasks it leaves; \<open>Service_Safety\<close> puts
  requests, turns of tasks and restarts together in the relation \<open>service_step\<close>, with the
  locale \<open>serving\<close> for what they keep; \<open>Service_Evidence\<close> is about imports and fetches.
  \<open>Service_Wire\<close> (server.rs, client.rs) has frames and one connection from both ends;
  \<open>Service_Server\<close> (server.rs, and \<open>SqliteStore::open\<close> of src/store/mod.rs) the locks, the socket
  and the accept loop; \<open>Service_Mcp\<close> (mcp.rs) the tools; \<open>Command_Line\<close> (src/main.rs) the
  commands. The theories named \<open>Examples\<close> hold the concrete instances on which the witnesses run.

  \<^bold>\<open>Interleaving and crashes.\<close> \<open>service_step\<close> takes a request, or a turn of a task,
  as one step, in any order. \<open>Service_Interleaving\<close> takes the threads apart: the relation
  \<open>process_step\<close> has a step for every transaction of the journal, for the claim, the
  preparation, the call and the receipt of each execution, for every other call of the backend
  and change of the files, and for the death of the process and its next start, which may come
  between any two of them, with executions claimed, prepared or called. A call in which
  the process dies is a call that does part of its work, which the scripts of lines, hosts and
  disks allow (\<open>Dropped\<close>), followed by the death. It over-approximates: any transaction may
  come at any time, and what a thread checks between its claim and its call may have any
  outcome. That no attempt is executed twice is proved of it, and \<open>service_interleaved\<close> shows
  that every run of \<open>service_step\<close> is a run of it, through an interpretation of \<open>serving\<close>.
  Atomic in it are a transaction (SQLite's, on the one connection that the store locks) and a call of
  the backend: two calls that overlap in time are taken one after the other.
  \<open>Device_Service\<close> is the service as \<open>open_api\<close> puts it together, with the device
  backend under the supervisor, and the surroundings of its threads; \<open>Device_Service_Safety\<close>
  follows every frame that an instrument is sent, in every interleaving, back to a reviewed
  plan; \<open>Device_Examples\<close> has an execution that is cut off inside its call. Where a call of the
  backend panics the thread vanishes and its attempt stays dispatched until the next start; the
  service of whole turns, which has no such step, takes it for an error (\<open>answered\<close>).

  \<^bold>\<open>Bounds, loops and panics.\<close> Integers that the source declares with a width have it
  here; \<open>usize\<close> values are natural numbers with their bound written where the source
  checks it. Loops are total functions with their termination proved, or recursive over what
  they consume: the bytes of a line, the outcomes a file system or a device has in store. A
  script that runs out is a device that is silent until the deadline, or a file system that
  has crashed, so every behaviour of finite length is a script and no fuel limits a loop of the
  code. The detached execution of a plan, whose end depends on the backend and on other
  requests, is a \<open>partial_function\<close> into options and is proved to end. Where the code
  could panic (a remainder or step by zero, \<open>copy_from_slice\<close>) the model has the value \<open>None\<close>,
  and a property excludes it. Strings are lists of characters, and a byte length is their
  length, as the source validates them to be ASCII where it counts bytes.

  \<^bold>\<open>Parameters.\<close> What is not in the repository is a field of a record that the
  definitions take: SHA-256, time stamps and JSON (\<open>env\<close>), FlatBuffers (\<open>de_codec\<close>), serial ports, clocks
  and the host (\<open>host\<close>, \<open>occasion\<close>), metadata and entropy (\<open>config_host\<close>), the codecs of
  frames (\<open>service_codec\<close>), base64 and rendering (\<open>service_env\<close>), the machine
  (\<open>machine_host\<close>). Properties hold for all of them, up to the hypotheses that they name.

  \<^bold>\<open>Not modelled.\<close> Faults of SQLite after its tables exist, and its pragmas and backups; the
  polling of the asynchronous runtime, beyond the order of the steps above, and calls of the
  backend that overlap; the semaphore of the accept loop beyond its count; the process
  runner under the video capture; parsing of arguments, logging, the MCP protocol with its
  schemas and descriptions. They are crates, or input and output around the parts above.
\<close>

end
